(* ===== verification/Prelude.thy ===== *)
theory Prelude
  imports Main "HOL-Library.Word"
begin

text \<open>
  Shared by every component: the faults a C or C++ operation can run into, the result type
  that carries them, checked reads and writes of arrays, and the contract of C enumerations.
  A fault stands for a failed \<^verbatim>\<open>assert\<close>, an access outside an object, a null or dangling
  pointer, a loop that does not end, a value the language leaves unspecified, or
  \<^verbatim>\<open>exit\<close>; code that continues after an error returns an error code instead, which is an
  ordinary value of the model.
\<close>

unbundle bit_operations_syntax

named_theorems res_simps \<open>rewrite rules of the result type\<close>
named_theorems codec \<open>round-trip laws of the wire format\<close>
named_theorems wf_intros \<open>preservation of well-formedness\<close>

type_synonym u8 = "8 word"
type_synonym u32 = "32 word"
type_synonym u64 = "64 word"

section \<open>Faults and results\<close>

datatype fault =
    AssertFail
  | OutOfBounds
  | NullDeref
  | Diverges
  | Unspecified
  | Thrown
  | ExitCall int

type_synonym 'a res = "fault + 'a"

definition rbind :: "'a res \<Rightarrow> ('a \<Rightarrow> 'b res) \<Rightarrow> 'b res" where
  "rbind m f = (case m of Inl e \<Rightarrow> Inl e | Inr x \<Rightarrow> f x)"

definition assert_c :: "bool \<Rightarrow> unit res" where
  "assert_c b = (if b then Inr () else Inl AssertFail)"

definition deref :: "'a option \<Rightarrow> 'a res" where
  "deref p = (case p of None \<Rightarrow> Inl NullDeref | Some x \<Rightarrow> Inr x)"

lemma rbind_Inl [simp, res_simps]: "rbind (Inl e) f = Inl e"
  by (simp add: rbind_def)

lemma rbind_Inr [simp, res_simps]: "rbind (Inr x) f = f x"
  by (simp add: rbind_def)

lemma rbind_assoc [res_simps]: "rbind (rbind m f) g = rbind m (\<lambda>x. rbind (f x) g)"
  by (cases m) simp_all

lemma rbind_eq_Inr [res_simps]: "rbind m f = Inr y \<longleftrightarrow> (\<exists>x. m = Inr x \<and> f x = Inr y)"
  by (cases m) simp_all

lemma rbind_return [simp]: "rbind m Inr = m"
  by (cases m) simp_all

lemma rbind_cong [fundef_cong]:
  "m = m' \<Longrightarrow> (\<And>x. m' = Inr x \<Longrightarrow> f x = g x) \<Longrightarrow> rbind m f = rbind m' g"
  by (cases m') simp_all

lemma assert_c_simps [simp]:
  "assert_c True = Inr ()" "assert_c False = Inl AssertFail"
  by (simp_all add: assert_c_def)

lemma assert_c_eq_Inr [simp]: "assert_c b = Inr u \<longleftrightarrow> b"
  by (simp add: assert_c_def)

lemma deref_simps [simp]: "deref None = Inl NullDeref" "deref (Some x) = Inr x"
  by (simp_all add: deref_def)

lemma deref_eq_Inr [simp]: "deref p = Inr x \<longleftrightarrow> p = Some x"
  by (cases p) simp_all

section \<open>Arrays\<close>

definition aread :: "'a list \<Rightarrow> nat \<Rightarrow> 'a res" where
  "aread xs i = (if i < length xs then Inr (xs ! i) else Inl OutOfBounds)"

definition awrite :: "'a list \<Rightarrow> nat \<Rightarrow> 'a \<Rightarrow> 'a list res" where
  "awrite xs i v = (if i < length xs then Inr (xs[i := v]) else Inl OutOfBounds)"

lemma aread_Inr [simp]: "i < length xs \<Longrightarrow> aread xs i = Inr (xs ! i)"
  by (simp add: aread_def)

lemma awrite_Inr [simp]: "i < length xs \<Longrightarrow> awrite xs i v = Inr (xs[i := v])"
  by (simp add: awrite_def)

lemma aread_eq_Inr: "aread xs i = Inr v \<longleftrightarrow> i < length xs \<and> v = xs ! i"
  by (auto simp: aread_def)

lemma awrite_eq_Inr: "awrite xs i v = Inr ys \<longleftrightarrow> i < length xs \<and> ys = xs[i := v]"
  by (auto simp: awrite_def)

lemma awrite_length: "awrite xs i v = Inr ys \<Longrightarrow> length ys = length xs"
  by (simp add: awrite_eq_Inr)

lemma awrite_aread: "awrite xs i v = Inr ys \<Longrightarrow> aread ys i = Inr v"
  by (auto simp: awrite_eq_Inr)

text \<open>\<open>memcpy_at dst o src\<close>: the cells of \<open>src\<close> stored from offset \<open>o\<close> on.\<close>

definition splice :: "'a list \<Rightarrow> nat \<Rightarrow> 'a list \<Rightarrow> 'a list" where
  "splice dst off src = take off dst @ src @ drop (off + length src) dst"

lemma length_splice [simp]:
  "off + length src \<le> length dst \<Longrightarrow> length (splice dst off src) = length dst"
  by (simp add: splice_def)

lemma nth_splice:
  "off + length src \<le> length dst \<Longrightarrow> i < length dst \<Longrightarrow>
   splice dst off src ! i =
     (if off \<le> i \<and> i < off + length src then src ! (i - off) else dst ! i)"
  by (auto simp: splice_def nth_append min_def)

lemma distinct_concat_nth:
  assumes "distinct (concat xs)" "i < length xs" "j < length xs" "i \<noteq> j"
  shows "set (xs ! i) \<inter> set (xs ! j) = {}"
proof -
  have *: "set (xs ! i) \<inter> set (xs ! j) = {}" if "i < j" "j < length xs" for i j
  proof -
    from that have "xs ! i \<in> set (take j xs)" by (auto simp: in_set_conv_nth intro!: exI [of _ i])
    then have "set (xs ! i) \<subseteq> set (concat (take j xs))" by auto
    moreover have "concat xs = concat (take j xs) @ xs ! j @ concat (drop (Suc j) xs)"
      using that by (subst id_take_nth_drop [of j xs]) simp_all
    with assms(1) have "set (concat (take j xs)) \<inter> set (xs ! j) = {}" by auto
    ultimately show ?thesis by blast
  qed
  from assms(4) have "i < j \<or> j < i" by arith
  with * [of i j] * [of j i] assms show ?thesis by (auto simp: Int_commute)
qed

section \<open>Enumerations\<close>

text \<open>
  A C enumeration is a datatype with the value of each enumerator. A value that is read back
  from an integer is the enumerator with that value, if there is one.
\<close>

definition enum_decode :: "('e \<Rightarrow> int) \<Rightarrow> 'e list \<Rightarrow> int \<Rightarrow> 'e option" where
  "enum_decode code all n = find (\<lambda>e. code e = n) all"

locale c_enum =
  fixes code :: "'e \<Rightarrow> int" and all :: "'e list"
  assumes all_enumerators: "e \<in> set all"
    and code_inj: "code e = code e' \<Longrightarrow> e = e'"
    and code_int: "- (2 ^ 31) \<le> code e \<and> code e < 2 ^ 31"
begin

lemma decode_code: "enum_decode code all (code e) = Some e"
proof -
  have "find (\<lambda>x. code x = code e) xs = Some e" if "e \<in> set xs" for xs
    using that by (induction xs) (auto dest: code_inj)
  then show ?thesis
    by (simp add: enum_decode_def all_enumerators)
qed

lemma decode_SomeD: "enum_decode code all n = Some e \<Longrightarrow> code e = n"
  by (auto simp: enum_decode_def find_Some_iff)

lemma decode_None: "enum_decode code all n = None \<longleftrightarrow> n \<notin> range code"
  using decode_code by (auto simp: enum_decode_def find_None_iff) (metis all_enumerators)

end

section \<open>Heaps\<close>

text \<open>
  Objects made by \<^verbatim>\<open>new\<close>: an address is an index, a deleted object leaves \<open>None\<close>
  behind and its address is not given out again, so that every use of a dangling pointer and
  every second \<^verbatim>\<open>delete\<close> is a fault.
\<close>

type_synonym addr = nat
type_synonym 'a heap = "'a option list"

definition heap_new :: "'a \<Rightarrow> 'a heap \<Rightarrow> addr \<times> 'a heap" where
  "heap_new x h = (length h, h @ [Some x])"

definition heap_get :: "'a heap \<Rightarrow> addr \<Rightarrow> 'a res" where
  "heap_get h a =
     (if a < length h then (case h ! a of None \<Rightarrow> Inl NullDeref | Some x \<Rightarrow> Inr x) else Inl NullDeref)"

definition heap_set :: "addr \<Rightarrow> 'a \<Rightarrow> 'a heap \<Rightarrow> 'a heap res" where
  "heap_set a x h = rbind (heap_get h a) (\<lambda>_. Inr (h[a := Some x]))"

definition heap_free :: "addr \<Rightarrow> 'a heap \<Rightarrow> 'a heap res" where
  "heap_free a h = rbind (heap_get h a) (\<lambda>_. Inr (h[a := None]))"

named_theorems heap_simps \<open>reading a heap after an update\<close>

lemma heap_get_eq_Inr: "heap_get h a = Inr x \<longleftrightarrow> a < length h \<and> h ! a = Some x"
  by (auto simp: heap_get_def split: option.splits)

lemma heap_get_new [heap_simps]: "heap_get (h @ [Some x]) (length h) = Inr x"
  by (simp add: heap_get_def)

lemma heap_get_old [heap_simps]: "heap_get h a = Inr y \<Longrightarrow> heap_get (h @ g) a = Inr y"
  by (simp add: heap_get_eq_Inr nth_append)

lemma heap_get_set_same [heap_simps]: "a < length h \<Longrightarrow> heap_get (h[a := Some x]) a = Inr x"
  by (simp add: heap_get_def)

lemma heap_get_update_other [heap_simps]: "a \<noteq> b \<Longrightarrow> heap_get (h[a := ox]) b = heap_get h b"
  by (simp add: heap_get_def)

lemma heap_get_freed [heap_simps]: "heap_get (h[a := None]) a = Inl NullDeref"
  by (simp add: heap_get_def)

lemma heap_set_eq_Inr:
  "heap_set a x h = Inr h' \<longleftrightarrow> (\<exists>y. heap_get h a = Inr y) \<and> h' = h[a := Some x]"
  by (auto simp: heap_set_def rbind_eq_Inr)

lemma heap_free_eq_Inr:
  "heap_free a h = Inr h' \<longleftrightarrow> (\<exists>y. heap_get h a = Inr y) \<and> h' = h[a := None]"
  by (auto simp: heap_free_def rbind_eq_Inr)

lemma heap_get_bound: "heap_get h a = Inr x \<Longrightarrow> a < length h"
  by (simp add: heap_get_eq_Inr)

lemma heap_free_live [heap_simps]: "heap_get h a = Inr x \<Longrightarrow> heap_free a h = Inr (h[a := None])"
  by (simp add: heap_free_def)

lemma heap_set_live [heap_simps]: "heap_get h a = Inr x \<Longrightarrow> heap_set a y h = Inr (h[a := Some y])"
  by (simp add: heap_set_def)

section \<open>Loops that can fail\<close>

primrec foldM :: "('a \<Rightarrow> 's \<Rightarrow> 's res) \<Rightarrow> 'a list \<Rightarrow> 's \<Rightarrow> 's res" where
  "foldM f [] s = Inr s"
| "foldM f (x # xs) s = rbind (f x s) (foldM f xs)"

lemma foldM_append: "foldM f (xs @ ys) s = rbind (foldM f xs s) (foldM f ys)"
proof (induction xs arbitrary: s)
  case (Cons x xs)
  then have "foldM f (xs @ ys) = (\<lambda>s. rbind (foldM f xs s) (foldM f ys))" by blast
  then show ?case by (simp add: rbind_assoc)
qed simp

lemma foldM_invariant:
  assumes "foldM f xs s = Inr t" and "P s"
    and "\<And>x s s'. x \<in> set xs \<Longrightarrow> P s \<Longrightarrow> f x s = Inr s' \<Longrightarrow> P s'"
  shows "P t"
  using assms by (induction xs arbitrary: s) (auto simp: rbind_eq_Inr)

lemma foldM_cong [fundef_cong]:
  "xs = ys \<Longrightarrow> s = t \<Longrightarrow> (\<And>x s. x \<in> set ys \<Longrightarrow> f x s = g x s) \<Longrightarrow> foldM f xs s = foldM g ys t"
proof (induction ys arbitrary: xs s t)
  case (Cons y ys)
  then have "foldM f ys u = foldM g ys u" for u by simp
  then have "foldM f ys = foldM g ys" by blast
  with Cons.prems show ?case by simp
qed simp

end
