(* ===== verification/Double.thy ===== *)
theory Double
  imports Complex_Main Prelude
begin

text \<open>
  The C type \<^verbatim>\<open>double\<close> as IEEE 754 binary64: a value is its 64-bit pattern, an
  operation decodes its operands, computes exactly on dyadic numbers and rounds to nearest,
  ties to even. The buffers of the library are arrays of \<^verbatim>\<open>uint64_t\<close> cells that hold
  either integers or such patterns, so patterns are what the model stores. Which NaN an
  operation returns is not modelled (one fixed quiet NaN), and no claim depends on it.
\<close>

section \<open>Decoding and rounding\<close>

datatype fpv = FNaN | FInf bool | FFin bool nat int

definition decode :: "u64 \<Rightarrow> fpv" where
  "decode w =
    (let n = unat w; m = n mod 2 ^ 52; e = (n div 2 ^ 52) mod 2 ^ 11; s = (n div 2 ^ 63 = 1) in
     if e = 2047 then (if m = 0 then FInf s else FNaN)
     else if e = 0 then FFin s m (- 1074)
     else FFin s (m + 2 ^ 52) (int e - 1075))"

definition pack :: "bool \<Rightarrow> nat \<Rightarrow> u64" where
  "pack s k = of_nat ((if s then 2 ^ 63 else 0) + k)"

definition nan_bits :: u64 where
  "nan_bits = pack False (2047 * 2 ^ 52 + 2 ^ 51)"

fun bitlen :: "nat \<Rightarrow> nat" where
  "bitlen n = (if n = 0 then 0 else Suc (bitlen (n div 2)))"

declare bitlen.simps [simp del]

definition rshift_even :: "nat \<Rightarrow> nat \<Rightarrow> nat" where
  "rshift_even m k =
    (let q = m div 2 ^ k; r = m mod 2 ^ k; half = 2 ^ (k - 1) in
     if half < r \<or> (half = r \<and> odd q) then q + 1 else q)"

definition fround :: "bool \<Rightarrow> nat \<Rightarrow> int \<Rightarrow> u64" where
  "fround s m e =
    (if m = 0 then pack s 0
     else
       (let sh = max (int (bitlen m) - 53) (- 1074 - e);
            q = (if sh \<le> 0 then m * 2 ^ nat (- sh) else rshift_even m (nat sh));
            k = q + nat (e + sh + 1074) * 2 ^ 52
        in if 2047 * 2 ^ 52 \<le> k then pack s (2047 * 2 ^ 52) else pack s k))"

section \<open>Arithmetic\<close>

definition signed_mant :: "bool \<Rightarrow> nat \<Rightarrow> int \<Rightarrow> int \<Rightarrow> int" where
  "signed_mant s m e e0 = (if s then -1 else 1) * int m * 2 ^ nat (e - e0)"

definition fadd :: "u64 \<Rightarrow> u64 \<Rightarrow> u64" where
  "fadd a b =
    (case (decode a, decode b) of
       (FFin s1 m1 e1, FFin s2 m2 e2) \<Rightarrow>
         (let e = min e1 e2; t = signed_mant s1 m1 e1 e + signed_mant s2 m2 e2 e in
          if t = 0 then pack (s1 \<and> s2) 0 else fround (t < 0) (nat \<bar>t\<bar>) e)
     | (FNaN, _) \<Rightarrow> nan_bits
     | (_, FNaN) \<Rightarrow> nan_bits
     | (FInf s1, FInf s2) \<Rightarrow> if s1 = s2 then a else nan_bits
     | (FInf _, _) \<Rightarrow> a
     | (_, FInf _) \<Rightarrow> b)"

definition fneg :: "u64 \<Rightarrow> u64" where
  "fneg a = a XOR (2 ^ 63)"

definition fsub :: "u64 \<Rightarrow> u64 \<Rightarrow> u64" where
  "fsub a b = fadd a (fneg b)"

definition fmul :: "u64 \<Rightarrow> u64 \<Rightarrow> u64" where
  "fmul a b =
    (case (decode a, decode b) of
       (FFin s1 m1 e1, FFin s2 m2 e2) \<Rightarrow> fround (s1 \<noteq> s2) (m1 * m2) (e1 + e2)
     | (FNaN, _) \<Rightarrow> nan_bits
     | (_, FNaN) \<Rightarrow> nan_bits
     | (FInf s1, FInf s2) \<Rightarrow> pack (s1 \<noteq> s2) (2047 * 2 ^ 52)
     | (FInf s1, FFin s2 m2 _) \<Rightarrow> if m2 = 0 then nan_bits else pack (s1 \<noteq> s2) (2047 * 2 ^ 52)
     | (FFin s1 m1 _, FInf s2) \<Rightarrow> if m1 = 0 then nan_bits else pack (s1 \<noteq> s2) (2047 * 2 ^ 52))"

text \<open>
  Division: the quotient of the mantissas to at least 64 bits, with a sticky bit below it for
  the remainder, rounds as the exact quotient does.
\<close>

definition fdiv :: "u64 \<Rightarrow> u64 \<Rightarrow> u64" where
  "fdiv a b =
    (case (decode a, decode b) of
       (FFin s1 m1 e1, FFin s2 m2 e2) \<Rightarrow>
         if m2 = 0 then (if m1 = 0 then nan_bits else pack (s1 \<noteq> s2) (2047 * 2 ^ 52))
         else
           (let k = 64 + bitlen m2; q = (m1 * 2 ^ k) div m2;
                sticky = (if (m1 * 2 ^ k) mod m2 = 0 then 0 else 1)
            in fround (s1 \<noteq> s2) (2 * q + sticky) (e1 - e2 - int k - 1))
     | (FNaN, _) \<Rightarrow> nan_bits
     | (_, FNaN) \<Rightarrow> nan_bits
     | (FInf s1, FInf s2) \<Rightarrow> nan_bits
     | (FInf s1, FFin s2 _ _) \<Rightarrow> pack (s1 \<noteq> s2) (2047 * 2 ^ 52)
     | (FFin s1 _ _, FInf s2) \<Rightarrow> pack (s1 \<noteq> s2) 0)"

definition flt :: "u64 \<Rightarrow> u64 \<Rightarrow> bool" where
  "flt a b =
    (case (decode a, decode b) of
       (FFin s1 m1 e1, FFin s2 m2 e2) \<Rightarrow>
         (let e = min e1 e2 in signed_mant s1 m1 e1 e < signed_mant s2 m2 e2 e)
     | (FNaN, _) \<Rightarrow> False
     | (_, FNaN) \<Rightarrow> False
     | (FInf s1, FInf s2) \<Rightarrow> s1 \<and> \<not> s2
     | (FInf s1, _) \<Rightarrow> s1
     | (_, FInf s2) \<Rightarrow> \<not> s2)"

definition feq :: "u64 \<Rightarrow> u64 \<Rightarrow> bool" where
  "feq a b =
    (case (decode a, decode b) of
       (FFin s1 m1 e1, FFin s2 m2 e2) \<Rightarrow>
         (let e = min e1 e2 in signed_mant s1 m1 e1 e = signed_mant s2 m2 e2 e)
     | (FInf s1, FInf s2) \<Rightarrow> s1 = s2
     | _ \<Rightarrow> False)"

text \<open>Conversion from an integer, and to an integer by truncation (none for NaN, infinity).\<close>

definition f_of_int :: "int \<Rightarrow> u64" where
  "f_of_int n = fround (n < 0) (nat \<bar>n\<bar>) 0"

definition f_trunc :: "u64 \<Rightarrow> int option" where
  "f_trunc a =
    (case decode a of
       FFin s m e \<Rightarrow>
         Some ((if s then -1 else 1) *
               int (if 0 \<le> e then m * 2 ^ nat e else m div 2 ^ nat (- e)))
     | _ \<Rightarrow> None)"

abbreviation fzero :: u64 where "fzero \<equiv> 0"

section \<open>Bit lengths\<close>

lemma bitlen_0 [simp]: "bitlen 0 = 0"
  by (simp add: bitlen.simps)

lemma bitlen_pos: "0 < n \<Longrightarrow> bitlen n = Suc (bitlen (n div 2))"
  by (simp add: bitlen.simps [of n])

lemma less_pow_bitlen: "n < 2 ^ bitlen n"
proof (induction n rule: bitlen.induct)
  case (1 n)
  show ?case
  proof (cases "n = 0")
    case False
    with 1 have "n div 2 < 2 ^ bitlen (n div 2)" by simp
    with False show ?thesis by (simp add: bitlen_pos)
  qed simp
qed

lemma bitlen_le_iff: "bitlen n \<le> k \<longleftrightarrow> n < 2 ^ k"
proof (induction n arbitrary: k rule: bitlen.induct)
  case (1 n)
  show ?case
  proof (cases "n = 0 \<or> k = 0")
    case True
    then show ?thesis by (cases "n = 0") (auto simp: bitlen_pos)
  next
    case False
    then obtain j where k: "k = Suc j" by (cases k) auto
    from False 1 have "bitlen (n div 2) \<le> j \<longleftrightarrow> n div 2 < 2 ^ j" by simp
    moreover have "n div 2 < 2 ^ j \<longleftrightarrow> n < 2 ^ Suc j" by (simp add: less_mult_imp_div_less) arith
    ultimately show ?thesis using False k by (simp add: bitlen_pos)
  qed
qed

lemma bitlen_shift: "0 < n \<Longrightarrow> bitlen (n * 2 ^ j) = bitlen n + j"
  by (induction j) (simp_all add: bitlen_pos)

lemma pow_bitlen_le: "0 < n \<Longrightarrow> 2 ^ (bitlen n - 1) \<le> n"
  using bitlen_le_iff [of n "bitlen n - 1"] by (cases "bitlen n") (auto simp: bitlen_pos)

lemma rshift_even_exact: "rshift_even (q * 2 ^ k) k = q"
  by (simp add: rshift_even_def Let_def)


section \<open>The value of a pattern\<close>

definition sg :: "bool \<Rightarrow> real" where
  "sg s = (if s then -1 else 1)"

definition dval :: "u64 \<Rightarrow> real option" where
  "dval w = (case decode w of FFin s m e \<Rightarrow> Some (sg s * real m * 2 powi e) | _ \<Rightarrow> None)"

lemma unat_pack: "k < 2 ^ 63 \<Longrightarrow> unat (pack s k) = (if s then 2 ^ 63 else 0) + k"
  unfolding pack_def unat_of_nat by (rule mod_less) simp

lemma decode_pack:
  assumes "k < 2047 * 2 ^ 52"
  shows "decode (pack s k) =
    (if k div 2 ^ 52 = 0 then FFin s k (- 1074)
     else FFin s (k mod 2 ^ 52 + 2 ^ 52) (int (k div 2 ^ 52) - 1075))"
proof -
  have k63: "k < 2 ^ 63" using assms by simp
  have n: "unat (pack s k) = (if s then 2 ^ 63 else 0) + k" by (rule unat_pack [OF k63])
  have e: "k div 2 ^ 52 < 2047" using assms by (simp add: less_mult_imp_div_less)
  have sgn: "(unat (pack s k) div 2 ^ 63 = 1) = s" using n k63 by simp
  have m: "unat (pack s k) mod 2 ^ 52 = k mod 2 ^ 52"
  proof (cases s)
    case True
    with n have "unat (pack s k) = k + 2048 * 2 ^ 52" by simp
    then show ?thesis by (simp only: mod_mult_self1)
  qed (use n in simp)
  have ex: "(unat (pack s k) div 2 ^ 52) mod 2 ^ 11 = k div 2 ^ 52"
  proof (cases s)
    case True
    with n have "unat (pack s k) div 2 ^ 52 = (k + 2048 * 2 ^ 52) div 2 ^ 52" by simp
    also have "\<dots> = 2048 + k div 2 ^ 52" by (rule div_mult_self1) simp
    finally show ?thesis using e by simp
  qed (use n e in simp)
  show ?thesis
    unfolding decode_def Let_def sgn m ex using e by auto
qed

lemma dval_pack:
  assumes "q < 2 ^ 53" "b \<le> 2045" "b = 0 \<or> 2 ^ 52 \<le> q"
  shows "dval (pack s (q + b * 2 ^ 52)) = Some (sg s * real q * 2 powi (int b - 1074))"
proof -
  have lt: "q + b * 2 ^ 52 < 2047 * 2 ^ 52" using assms by simp
  show ?thesis
  proof (cases "q < 2 ^ 52")
    case True
    with assms have "b = 0" by simp
    with True lt show ?thesis by (simp add: dval_def decode_pack)
  next
    case False
    then obtain r where r: "q = 2 ^ 52 + r" using le_iff_add by (metis not_less)
    with assms have "r < 2 ^ 52" by simp
    with r lt have "decode (pack s (q + b * 2 ^ 52)) = FFin s q (int b + 1 - 1075)"
      by (simp add: decode_pack)
    then show ?thesis by (simp add: dval_def)
  qed
qed

lemma powi_shift:
  assumes "real m * 2 powi e = real z * 2 powi k" and "e \<le> k"
  shows "m = z * 2 ^ nat (k - e)"
proof -
  have "(2::real) powi k = 2 ^ nat (k - e) * 2 powi e"
    using assms(2) by (simp add: power_int_add [symmetric] flip: power_int_of_nat)
  with assms(1) have "real m * 2 powi e = real (z * 2 ^ nat (k - e)) * 2 powi e" by simp
  then have "real m = real (z * 2 ^ nat (k - e))" by (simp only: mult_cancel_right) simp
  then show ?thesis by (simp only: of_nat_eq_iff)
qed

lemma bitlen_of_dyadic:
  assumes "real m * 2 powi e = real z * 2 powi k" and "0 < m"
  shows "int (bitlen m) + e = int (bitlen z) + k"
proof (cases "e \<le> k")
  case True
  with assms have m: "m = z * 2 ^ nat (k - e)" by (blast intro: powi_shift)
  with assms have "0 < z" by simp
  with m True show ?thesis by (simp add: bitlen_shift)
next
  case False
  with assms have z: "z = m * 2 ^ nat (e - k)" by (intro powi_shift) auto
  with assms False show ?thesis by (simp add: bitlen_shift)
qed

text \<open>A dyadic number with a 53-bit mantissa in the exponent range rounds to itself.\<close>

lemma fround_exact:
  assumes eq: "real m * 2 powi e = real z * 2 powi k"
    and z: "z < 2 ^ 53" and k: "- 1074 \<le> k" "k \<le> 971"
  shows "dval (fround s m e) = Some (sg s * real m * 2 powi e)"
proof (cases "m = 0")
  case True
  then show ?thesis
    using dval_pack [of 0 0 s] by (simp add: fround_def)
next
  case False
  define sh where "sh = max (int (bitlen m) - 53) (- 1074 - e)"
  define q where "q = (if sh \<le> 0 then m * 2 ^ nat (- sh) else rshift_even m (nat sh))"
  define b where "b = nat (e + sh + 1074)"
  have bl: "int (bitlen m) + e = int (bitlen z) + k" using eq False by (blast intro: bitlen_of_dyadic)
  have "bitlen z \<le> 53" using z by (simp add: bitlen_le_iff)
  with bl k have sh_le: "sh \<le> k - e" "e + sh \<le> 971" by (auto simp: sh_def)
  have "- 1074 - e \<le> sh" by (simp add: sh_def)
  then have b: "int b = e + sh + 1074" by (simp add: b_def)
  have q_val: "real q * 2 powi (e + sh) = real m * 2 powi e" and
    q_len: "int (bitlen q) = int (bitlen m) - sh"
  proof -
    have "real q * 2 powi (e + sh) = real m * 2 powi e \<and> int (bitlen q) = int (bitlen m) - sh"
    proof (cases "sh \<le> 0")
      case True
      have "(2::real) powi e = 2 ^ nat (- sh) * 2 powi (e + sh)"
        using True by (simp add: power_int_add [symmetric] flip: power_int_of_nat)
      with True False show ?thesis by (simp add: q_def bitlen_shift)
    next
      case sh: False
      with sh_le have "e \<le> k" by simp
      with eq have "m = z * 2 ^ nat (k - e)" by (rule powi_shift)
      moreover have "nat (k - e) = nat (k - e - sh) + nat sh" using sh sh_le by simp
      ultimately have m: "m = z * 2 ^ nat (k - e - sh) * 2 ^ nat sh" by (simp add: power_add)
      have q: "q = z * 2 ^ nat (k - e - sh)"
        unfolding q_def using sh by (subst m) (simp add: rshift_even_exact)
      have "(2::real) powi (e + sh) = 2 ^ nat sh * 2 powi e"
        using sh by (simp add: power_int_add flip: power_int_of_nat)
      moreover have mq: "m = q * 2 ^ nat sh" using m q by simp
      moreover have "0 < q" using mq False by (cases "q = 0") auto
      ultimately show ?thesis using sh by (simp add: bitlen_shift)
    qed
    then show "real q * 2 powi (e + sh) = real m * 2 powi e"
      and "int (bitlen q) = int (bitlen m) - sh" by auto
  qed
  have "int (bitlen q) \<le> 53" using q_len by (simp add: sh_def)
  then have q53: "q < 2 ^ 53" by (simp add: bitlen_le_iff)
  have b_le: "b \<le> 2045" using b sh_le by simp
  have norm: "b = 0 \<or> 2 ^ 52 \<le> q"
  proof (cases "b = 0")
    case False
    with b have "sh = int (bitlen m) - 53" by (auto simp: sh_def)
    with q_len have "bitlen q = 53" by simp
    moreover from this have "0 < q" by (cases "q = 0") auto
    ultimately show ?thesis using pow_bitlen_le [of q] by simp
  qed simp
  have "fround s m e = pack s (q + b * 2 ^ 52)"
    using False q53 b_le unfolding fround_def sh_def [symmetric] q_def [symmetric]
    by (simp add: Let_def flip: sh_def q_def b_def)
  moreover have "2 powi (int b - 1074) = (2::real) powi (e + sh)" using b by simp
  ultimately show ?thesis
    using dval_pack [OF q53 b_le norm, of s] q_val by (simp add: mult.assoc)
qed


section \<open>Exact results\<close>

definition representable :: "real \<Rightarrow> bool" where
  "representable x \<longleftrightarrow>
    (\<exists>z k. x = real_of_int z * 2 powi k \<and> \<bar>z\<bar> < 2 ^ 53 \<and> - 1074 \<le> k \<and> k \<le> 971)"

lemma sg_mult_self [simp]: "sg s * sg s = 1" "sg s * (sg s * x) = x"
  by (simp_all add: sg_def)

lemma abs_sg [simp]: "\<bar>sg s\<bar> = 1"
  by (simp add: sg_def)

lemma dval_fround:
  assumes "representable (sg s * real m * 2 powi e)"
  shows "dval (fround s m e) = Some (sg s * real m * 2 powi e)"
proof -
  from assms obtain z k where z: "sg s * real m * 2 powi e = real_of_int z * 2 powi k"
    and b: "\<bar>z\<bar> < 2 ^ 53" "- 1074 \<le> k" "k \<le> 971"
    by (auto simp: representable_def)
  from z have "\<bar>sg s * real m * 2 powi e\<bar> = \<bar>real_of_int z * 2 powi k\<bar>" by simp
  then have "real m * 2 powi e = real (nat \<bar>z\<bar>) * 2 powi k"
    by (simp add: abs_mult)
  moreover have "nat \<bar>z\<bar> < 2 ^ 53" using b by simp
  ultimately show ?thesis using b by (intro fround_exact)
qed

lemma representable_int: "\<bar>z\<bar> < 2 ^ 53 \<Longrightarrow> representable (real_of_int z)"
  unfolding representable_def by (rule exI [of _ z], rule exI [of _ 0]) simp

lemma representable_pow2: "- 1074 \<le> k \<Longrightarrow> k \<le> 971 \<Longrightarrow> representable (2 powi k)"
  unfolding representable_def by (rule exI [of _ 1], rule exI [of _ k]) simp

lemma dval_0 [simp]: "dval 0 = Some 0"
  by (simp add: dval_def decode_def)

lemma dval_f_of_int: "\<bar>n\<bar> < 2 ^ 53 \<Longrightarrow> dval (f_of_int n) = Some (real_of_int n)"
proof -
  assume "\<bar>n\<bar> < 2 ^ 53"
  moreover have "sg (n < 0) * real (nat \<bar>n\<bar>) * 2 powi 0 = real_of_int n" by (simp add: sg_def)
  ultimately show ?thesis
    unfolding f_of_int_def by (subst dval_fround) (simp_all add: representable_int)
qed

lemma dval_SomeE:
  assumes "dval a = Some x"
  obtains s m e where "decode a = FFin s m e" "x = sg s * real m * 2 powi e"
  using assms by (auto simp: dval_def split: fpv.splits)

lemma signed_mant_val:
  assumes "e0 \<le> e"
  shows "real_of_int (signed_mant s m e e0) * 2 powi e0 = sg s * real m * 2 powi e"
proof -
  have "(2::real) powi e = 2 ^ nat (e - e0) * 2 powi e0"
    using assms by (simp add: power_int_add [symmetric] flip: power_int_of_nat)
  then show ?thesis by (simp add: signed_mant_def sg_def)
qed

lemma dval_pack_0: "dval (pack s 0) = Some 0"
  using dval_pack [of 0 0 s] by simp

text \<open>Addition and multiplication are exact where the exact result is representable.\<close>

lemma dval_fadd:
  assumes a: "dval a = Some x" and b: "dval b = Some y" and r: "representable (x + y)"
  shows "dval (fadd a b) = Some (x + y)"
proof -
  from a obtain s1 m1 e1 where da: "decode a = FFin s1 m1 e1" and x: "x = sg s1 * real m1 * 2 powi e1"
    by (rule dval_SomeE)
  from b obtain s2 m2 e2 where db: "decode b = FFin s2 m2 e2" and y: "y = sg s2 * real m2 * 2 powi e2"
    by (rule dval_SomeE)
  define e where "e = min e1 e2"
  define t where "t = signed_mant s1 m1 e1 e + signed_mant s2 m2 e2 e"
  have sum: "real_of_int t * 2 powi e = x + y"
    unfolding t_def x y by (simp add: distrib_right signed_mant_val e_def)
  have val: "sg (t < 0) * real (nat \<bar>t\<bar>) * 2 powi e = x + y"
    unfolding sum [symmetric] by (simp add: sg_def)
  show ?thesis
  proof (cases "t = 0")
    case True
    with sum have "x + y = 0" by simp
    with True show ?thesis
      by (simp add: fadd_def da db Let_def dval_pack_0 flip: e_def t_def)
  next
    case False
    then have "fadd a b = fround (t < 0) (nat \<bar>t\<bar>) e"
      by (simp add: fadd_def da db Let_def flip: e_def t_def)
    with r show ?thesis using dval_fround [of "t < 0" "nat \<bar>t\<bar>" e] by (simp only: val)
  qed
qed

lemma dval_fmul:
  assumes a: "dval a = Some x" and b: "dval b = Some y" and r: "representable (x * y)"
  shows "dval (fmul a b) = Some (x * y)"
proof -
  from a obtain s1 m1 e1 where da: "decode a = FFin s1 m1 e1" and x: "x = sg s1 * real m1 * 2 powi e1"
    by (rule dval_SomeE)
  from b obtain s2 m2 e2 where db: "decode b = FFin s2 m2 e2" and y: "y = sg s2 * real m2 * 2 powi e2"
    by (rule dval_SomeE)
  have val: "sg (s1 \<noteq> s2) * real (m1 * m2) * 2 powi (e1 + e2) = x * y"
    unfolding x y by (simp add: sg_def power_int_add)
  have "fmul a b = fround (s1 \<noteq> s2) (m1 * m2) (e1 + e2)" by (simp add: fmul_def da db)
  with r show ?thesis using dval_fround [of "s1 \<noteq> s2" "m1 * m2" "e1 + e2"] by (simp only: val)
qed

text \<open>
  Sums of integers: as long as the magnitudes stay below \<open>2 ^ 53\<close> the order of the additions
  does not matter.
\<close>

lemma dval_fold_fadd:
  assumes "list_all2 (\<lambda>w n. dval w = Some (real_of_int n)) ws ns"
    and "dval acc = Some (real_of_int c)"
    and "\<bar>c\<bar> + sum_list (map abs ns) < 2 ^ 53"
  shows "dval (fold (\<lambda>w acc. fadd acc w) ws acc) = Some (real_of_int (c + sum_list ns))"
  using assms
proof (induction ws ns arbitrary: acc c rule: list_all2_induct)
  case Nil
  then show ?case by simp
next
  case (Cons w ws n ns)
  have pos: "0 \<le> sum_list (map abs ns)" by (rule sum_list_nonneg) auto
  with Cons.prems have "\<bar>c + n\<bar> < 2 ^ 53" by simp
  then have "representable (real_of_int c + real_of_int n)"
    using representable_int [of "c + n"] by simp
  with Cons have "dval (fadd acc w) = Some (real_of_int (c + n))"
    by (simp add: dval_fadd)
  with Cons.IH [of "fadd acc w" "c + n"] Cons.prems pos show ?case by (simp add: add.assoc)
qed

text \<open>A double that is an integer is truncated to it.\<close>

lemma f_trunc_dval:
  assumes "dval x = Some (real_of_int k)"
  shows "f_trunc x = Some k"
proof -
  from assms obtain s m e where d: "decode x = FFin s m e" and v: "sg s * real m * 2 powi e = real_of_int k"
    by (auto simp: dval_def split: fpv.splits)
  have abs: "real m * 2 powi e = real_of_int \<bar>k\<bar>"
    using arg_cong [OF v, of abs] by (simp add: abs_mult)
  have k: "k = (if s then -1 else 1) * \<bar>k\<bar>"
  proof (cases "m = 0")
    case True
    with v show ?thesis by simp
  next
    case False
    have "(0 :: real) < real m * 2 powi e" using False by simp
    with v show ?thesis by (cases s) (auto simp: sg_def abs zero_less_mult_iff mult.assoc)
  qed
  show ?thesis
  proof (cases "0 \<le> e")
    case True
    have "real (m * 2 ^ nat e) = real_of_int \<bar>k\<bar>"
      using abs True by (simp add: power_int_def)
    then have "int (m * 2 ^ nat e) = \<bar>k\<bar>" by linarith
    with True k show ?thesis by (simp add: f_trunc_def d)
  next
    case False
    have "real m = real_of_int \<bar>k\<bar> * 2 ^ nat (- e)"
      using abs False by (simp add: power_int_def field_simps)
    then have "real m = real (nat \<bar>k\<bar> * 2 ^ nat (- e))" by simp
    then have "m = nat \<bar>k\<bar> * 2 ^ nat (- e)" by (simp only: of_nat_eq_iff)
    with False k show ?thesis by (simp add: f_trunc_def d)
  qed
qed

lemmas double_eval =
  fadd_def fsub_def fmul_def fdiv_def f_of_int_def f_trunc_def flt_def feq_def decode_def Let_def
  fround_def pack_def bitlen.simps rshift_even_def signed_mant_def

end
