(* ===== verification/PwrTypes.thy ===== *)
theory PwrTypes
  imports Prelude
begin

text \<open>
  The public types of the library (\<^verbatim>\<open>src/pwr/pwrtypes.h\<close>), the value operations of
  \<^verbatim>\<open>impTypes.h\<close> and the name tables of \<^verbatim>\<open>util.h\<close>.
\<close>

section \<open>Enumerations of pwrtypes.h and impTypes.h\<close>

datatype PWR_Role =
    PWR_ROLE_APP | PWR_ROLE_MC | PWR_ROLE_OS | PWR_ROLE_USER | PWR_ROLE_RM
  | PWR_ROLE_ADMIN | PWR_ROLE_MGR | PWR_ROLE_ACC | PWR_NUM_ROLES
  | PWR_ROLE_INVALID | PWR_ROLE_NOT_SPECIFIED

datatype PWR_ObjType =
    PWR_OBJ_PLATFORM | PWR_OBJ_CABINET | PWR_OBJ_CHASSIS | PWR_OBJ_BOARD | PWR_OBJ_NODE
  | PWR_OBJ_SOCKET | PWR_OBJ_CORE | PWR_OBJ_POWER_PLANE | PWR_OBJ_MEM | PWR_OBJ_NIC
  | PWR_NUM_OBJ_TYPES | PWR_OBJ_INVALID | PWR_OBJ_NOT_SPECIFIED

datatype PWR_AttrName =
    PWR_ATTR_PSTATE | PWR_ATTR_CSTATE | PWR_ATTR_CSTATE_LIMIT | PWR_ATTR_SSTATE
  | PWR_ATTR_CURRENT | PWR_ATTR_VOLTAGE | PWR_ATTR_POWER | PWR_ATTR_POWER_LIMIT_MIN
  | PWR_ATTR_POWER_LIMIT_MAX | PWR_ATTR_FREQ | PWR_ATTR_FREQ_LIMIT_MIN
  | PWR_ATTR_FREQ_LIMIT_MAX | PWR_ATTR_ENERGY | PWR_ATTR_TEMP | PWR_ATTR_OS_ID
  | PWR_ATTR_THROTTLED_TIME | PWR_ATTR_THROTTLED_COUNT | PWR_NUM_ATTR_NAMES
  | PWR_ATTR_INVALID | PWR_ATTR_NOT_SPECIFIED

datatype PWR_AttrStat =
    PWR_ATTR_STAT_MIN | PWR_ATTR_STAT_MAX | PWR_ATTR_STAT_AVG | PWR_ATTR_STAT_STDEV
  | PWR_ATTR_STAT_CV | PWR_ATTR_STAT_SUM | PWR_NUM_ATTR_STATS
  | PWR_ATTR_STAT_INVALID | PWR_ATTR_STAT_NOT_SPECIFIED

datatype ValueOp = NO_OP | FP_ADD | INT_ADD | FP_AVG | INT_AVG

fun attr_code :: "PWR_AttrName \<Rightarrow> int" where
  "attr_code PWR_ATTR_PSTATE = 0"
| "attr_code PWR_ATTR_CSTATE = 1"
| "attr_code PWR_ATTR_CSTATE_LIMIT = 2"
| "attr_code PWR_ATTR_SSTATE = 3"
| "attr_code PWR_ATTR_CURRENT = 4"
| "attr_code PWR_ATTR_VOLTAGE = 5"
| "attr_code PWR_ATTR_POWER = 6"
| "attr_code PWR_ATTR_POWER_LIMIT_MIN = 7"
| "attr_code PWR_ATTR_POWER_LIMIT_MAX = 8"
| "attr_code PWR_ATTR_FREQ = 9"
| "attr_code PWR_ATTR_FREQ_LIMIT_MIN = 10"
| "attr_code PWR_ATTR_FREQ_LIMIT_MAX = 11"
| "attr_code PWR_ATTR_ENERGY = 12"
| "attr_code PWR_ATTR_TEMP = 13"
| "attr_code PWR_ATTR_OS_ID = 14"
| "attr_code PWR_ATTR_THROTTLED_TIME = 15"
| "attr_code PWR_ATTR_THROTTLED_COUNT = 16"
| "attr_code PWR_NUM_ATTR_NAMES = 17"
| "attr_code PWR_ATTR_INVALID = -1"
| "attr_code PWR_ATTR_NOT_SPECIFIED = -2"

definition real_attrs :: "PWR_AttrName list" where
  "real_attrs =
    [PWR_ATTR_PSTATE, PWR_ATTR_CSTATE, PWR_ATTR_CSTATE_LIMIT, PWR_ATTR_SSTATE,
     PWR_ATTR_CURRENT, PWR_ATTR_VOLTAGE, PWR_ATTR_POWER, PWR_ATTR_POWER_LIMIT_MIN,
     PWR_ATTR_POWER_LIMIT_MAX, PWR_ATTR_FREQ, PWR_ATTR_FREQ_LIMIT_MIN,
     PWR_ATTR_FREQ_LIMIT_MAX, PWR_ATTR_ENERGY, PWR_ATTR_TEMP, PWR_ATTR_OS_ID,
     PWR_ATTR_THROTTLED_TIME, PWR_ATTR_THROTTLED_COUNT]"

definition all_attrs :: "PWR_AttrName list" where
  "all_attrs = real_attrs @ [PWR_NUM_ATTR_NAMES, PWR_ATTR_INVALID, PWR_ATTR_NOT_SPECIFIED]"

fun valueop_code :: "ValueOp \<Rightarrow> int" where
  "valueop_code NO_OP = 0"
| "valueop_code FP_ADD = 1"
| "valueop_code INT_ADD = 2"
| "valueop_code FP_AVG = 3"
| "valueop_code INT_AVG = 4"

definition all_valueops :: "ValueOp list" where
  "all_valueops = [NO_OP, FP_ADD, INT_ADD, FP_AVG, INT_AVG]"

interpretation attr_enum: c_enum attr_code all_attrs
proof
  show "e \<in> set all_attrs" for e
    by (cases e) (simp_all add: all_attrs_def real_attrs_def)
  show "attr_code e = attr_code e' \<Longrightarrow> e = e'" for e e'
    by (cases e; cases e') simp_all
  show "- (2 ^ 31) \<le> attr_code e \<and> attr_code e < 2 ^ 31" for e
    by (cases e) simp_all
qed

interpretation valueop_enum: c_enum valueop_code all_valueops
proof
  show "e \<in> set all_valueops" for e
    by (cases e) (simp_all add: all_valueops_def)
  show "valueop_code e = valueop_code e' \<Longrightarrow> e = e'" for e e'
    by (cases e; cases e') simp_all
  show "- (2 ^ 31) \<le> valueop_code e \<and> valueop_code e < 2 ^ 31" for e
    by (cases e) simp_all
qed

text \<open>
  An attribute that indexes the per-attribute tables: \<^verbatim>\<open>names[i]\<close> used as an index
  of a vector of \<^verbatim>\<open>PWR_NUM_ATTR_NAMES\<close> elements.
\<close>

definition is_real_attr :: "PWR_AttrName \<Rightarrow> bool" where
  "is_real_attr a \<longleftrightarrow> 0 \<le> attr_code a \<and> attr_code a < attr_code PWR_NUM_ATTR_NAMES"

lemma is_real_attr_iff: "is_real_attr a \<longleftrightarrow> a \<in> set real_attrs"
  by (cases a) (simp_all add: is_real_attr_def real_attrs_def)

text \<open>An enumerator as an index; a negative one is outside every table.\<close>

definition attr_index :: "PWR_AttrName \<Rightarrow> nat res" where
  "attr_index a = (if attr_code a < 0 then Inl OutOfBounds else Inr (nat (attr_code a)))"

lemma attr_index_real: "is_real_attr a \<Longrightarrow> attr_index a = Inr (nat (attr_code a))"
  by (simp add: attr_index_def is_real_attr_def)

lemma attr_index_inj: "attr_index a = Inr i \<Longrightarrow> attr_index b = Inr i \<Longrightarrow> a = b"
  by (auto simp: attr_index_def split: if_split_asm intro: attr_enum.code_inj)

section \<open>Return codes\<close>

definition PWR_RET_WARN_TRUNC :: int where [simp]: "PWR_RET_WARN_TRUNC = 6"
definition PWR_RET_WARN_NO_GRP_BY_NAME :: int where [simp]: "PWR_RET_WARN_NO_GRP_BY_NAME = 5"
definition PWR_RET_WARN_NO_OBJ_AT_INDEX :: int where [simp]: "PWR_RET_WARN_NO_OBJ_AT_INDEX = 4"
definition PWR_RET_WARN_NO_CHILDREN :: int where [simp]: "PWR_RET_WARN_NO_CHILDREN = 3"
definition PWR_RET_WARN_NO_PARENT :: int where [simp]: "PWR_RET_WARN_NO_PARENT = 2"
definition PWR_RET_WARN_NOT_OPTIMIZED :: int where [simp]: "PWR_RET_WARN_NOT_OPTIMIZED = 1"
definition PWR_RET_SUCCESS :: int where [simp]: "PWR_RET_SUCCESS = 0"
definition PWR_RET_FAILURE :: int where [simp]: "PWR_RET_FAILURE = -1"
definition PWR_RET_NOT_IMPLEMENTED :: int where [simp]: "PWR_RET_NOT_IMPLEMENTED = -2"
definition PWR_RET_EMPTY :: int where [simp]: "PWR_RET_EMPTY = -3"
definition PWR_RET_INVALID :: int where [simp]: "PWR_RET_INVALID = -4"
definition PWR_RET_LENGTH :: int where [simp]: "PWR_RET_LENGTH = -5"
definition PWR_RET_NO_ATTRIB :: int where [simp]: "PWR_RET_NO_ATTRIB = -6"
definition PWR_RET_IPC :: int where [simp]: "PWR_RET_IPC = -14"
definition PWR_RET_STATUS :: int where [simp]: "PWR_RET_STATUS = -15"

section \<open>Name tables of util.h\<close>

fun objTypeToString :: "PWR_ObjType \<Rightarrow> string" where
  "objTypeToString PWR_OBJ_PLATFORM = ''Platform''"
| "objTypeToString PWR_OBJ_CABINET = ''Cabinet''"
| "objTypeToString PWR_OBJ_CHASSIS = ''Chassis''"
| "objTypeToString PWR_OBJ_BOARD = ''Board''"
| "objTypeToString PWR_OBJ_NODE = ''Node''"
| "objTypeToString PWR_OBJ_SOCKET = ''Socket''"
| "objTypeToString PWR_OBJ_CORE = ''Core''"
| "objTypeToString PWR_OBJ_POWER_PLANE = ''Power Plane''"
| "objTypeToString PWR_OBJ_MEM = ''Memory''"
| "objTypeToString PWR_OBJ_NIC = ''Nic''"
| "objTypeToString PWR_OBJ_INVALID = ''Invalid''"
| "objTypeToString _ = ''????''"

definition objStringToType :: "string \<Rightarrow> PWR_ObjType" where
  "objStringToType s =
    (if s = ''Platform'' then PWR_OBJ_PLATFORM
     else if s = ''Cabinet'' then PWR_OBJ_CABINET
     else if s = ''Chassis'' then PWR_OBJ_CHASSIS
     else if s = ''Board'' then PWR_OBJ_BOARD
     else if s = ''Node'' then PWR_OBJ_NODE
     else if s = ''Socket'' then PWR_OBJ_SOCKET
     else if s = ''Core'' then PWR_OBJ_CORE
     else PWR_OBJ_INVALID)"

fun attrNameToString :: "PWR_AttrName \<Rightarrow> string" where
  "attrNameToString PWR_ATTR_PSTATE = ''P-State''"
| "attrNameToString PWR_ATTR_CSTATE = ''C-State''"
| "attrNameToString PWR_ATTR_CSTATE_LIMIT = ''C-State Limit''"
| "attrNameToString PWR_ATTR_SSTATE = ''S-State''"
| "attrNameToString PWR_ATTR_CURRENT = ''Current''"
| "attrNameToString PWR_ATTR_VOLTAGE = ''Voltage''"
| "attrNameToString PWR_ATTR_POWER = ''Power''"
| "attrNameToString PWR_ATTR_POWER_LIMIT_MIN = ''Power Limit Min''"
| "attrNameToString PWR_ATTR_POWER_LIMIT_MAX = ''Power Limit Max''"
| "attrNameToString PWR_ATTR_FREQ = ''Freq''"
| "attrNameToString PWR_ATTR_FREQ_LIMIT_MIN = ''Freq Limit Min''"
| "attrNameToString PWR_ATTR_FREQ_LIMIT_MAX = ''Freq Limit Max''"
| "attrNameToString PWR_ATTR_ENERGY = ''Energy''"
| "attrNameToString PWR_ATTR_TEMP = ''Temp''"
| "attrNameToString PWR_ATTR_OS_ID = ''OS ID''"
| "attrNameToString PWR_ATTR_THROTTLED_TIME = ''Throttled Time''"
| "attrNameToString PWR_ATTR_THROTTLED_COUNT = ''Throttled Count''"
| "attrNameToString PWR_ATTR_INVALID = ''Invalid''"
| "attrNameToString _ = ''????''"

fun attrUnitsToString :: "PWR_AttrName \<Rightarrow> string" where
  "attrUnitsToString PWR_ATTR_POWER = ''Watts''"
| "attrUnitsToString PWR_ATTR_ENERGY = ''Joules''"
| "attrUnitsToString PWR_ATTR_INVALID = ''Invalid''"
| "attrUnitsToString _ = ''????''"

fun attrStatToString :: "PWR_AttrStat \<Rightarrow> string" where
  "attrStatToString PWR_ATTR_STAT_MIN = ''Min''"
| "attrStatToString PWR_ATTR_STAT_MAX = ''Max''"
| "attrStatToString PWR_ATTR_STAT_AVG = ''Avg''"
| "attrStatToString PWR_ATTR_STAT_STDEV = ''Stdev''"
| "attrStatToString PWR_ATTR_STAT_CV = ''CV''"
| "attrStatToString PWR_ATTR_STAT_INVALID = ''Invalid''"
| "attrStatToString _ = ''????''"

lemma attrNameToString_inj:
  "attrNameToString a = attrNameToString b \<Longrightarrow> is_real_attr a \<Longrightarrow> a = b"
  by (cases a; cases b) (simp_all add: is_real_attr_def)

end
