(* ===== verification/Serialize.thy ===== *)
theory Serialize
  imports Double PwrTypes
begin

text \<open>
  \<^verbatim>\<open>src/pwr/serialize.h\<close>: the byte buffer events are marshalled into. Values are pushed at
  the back and popped from the back, so a reader takes them in reverse order. Every pair of
  \<^verbatim>\<open>operator<<\<close> and \<^verbatim>\<open>operator>>\<close> is an instance of one contract, the locale
  \<open>codec\<close>; its laws are what the round trips of the events use.
\<close>

type_synonym buf = "u8 list"

section \<open>Bytes of an integer\<close>

definition ser_out :: "u64 \<Rightarrow> nat \<Rightarrow> buf \<Rightarrow> buf" where
  "ser_out tmp len b =
     fold (\<lambda>i b. b @ [ucast (drop_bit (8 * i) tmp AND 0xff)]) [0..<len] b"

fun ser_in_loop :: "nat \<Rightarrow> u64 \<Rightarrow> buf \<Rightarrow> (u64 \<times> buf) res" where
  "ser_in_loop 0 tmp b = Inr (tmp, b)"
| "ser_in_loop (Suc i) tmp b =
     (if b = [] then Inl OutOfBounds
      else ser_in_loop i (tmp OR push_bit (8 * i) (ucast (last b))) (butlast b))"

definition ser_in :: "nat \<Rightarrow> buf \<Rightarrow> (u64 \<times> buf) res" where
  "ser_in len b = ser_in_loop len 0 b"

lemma ser_out_append: "ser_out t n b = b @ ser_out t n []"
proof -
  have *: "fold (\<lambda>i b. b @ [f i]) xs b = b @ fold (\<lambda>i b. b @ [f i]) xs []"
    for f :: "nat \<Rightarrow> u8" and xs b
  proof (induction xs arbitrary: b)
    case (Cons x xs)
    from Cons [of "b @ [f x]"] Cons [of "[f x]"] show ?case by simp
  qed simp
  show ?thesis unfolding ser_out_def by (rule *)
qed

lemma ser_out_Suc: "ser_out t (Suc n) b = ser_out t n b @ [ucast (drop_bit (8 * n) t AND 0xff)]"
  by (simp add: ser_out_def)

lemma length_ser_out: "length (ser_out t n b) = length b + n"
  by (induction n) (simp_all add: ser_out_Suc, simp add: ser_out_def)

lemma byte_bit:
  "bit (ucast (ucast (drop_bit (8 * n) (t :: u64) AND 0xff) :: u8) :: u64) k \<longleftrightarrow>
     k < 8 \<and> bit t (8 * n + k)"
proof -
  have "drop_bit (8 * n) t AND 0xff = take_bit 8 (drop_bit (8 * n) t)"
    by (simp add: take_bit_eq_mask mask_eq_decr_exp)
  then show ?thesis
    by (auto simp: bit_simps dest: bit_imp_le_length)
qed

lemma ser_in_loop_out:
  "ser_in_loop n acc (ser_out t n b) = Inr (acc OR take_bit (8 * n) t, b)"
proof (induction n arbitrary: acc)
  case 0
  show ?case by (simp add: ser_out_def)
next
  case (Suc n)
  have "acc OR push_bit (8 * n) (ucast (ucast (drop_bit (8 * n) t AND 0xff) :: u8)) OR
          take_bit (8 * n) t = acc OR take_bit (8 * Suc n) t"
    by (rule bit_eqI) (auto simp: bit_or_iff bit_push_bit_iff bit_take_bit_iff byte_bit)
  with Suc show ?case by (simp add: ser_out_Suc or.assoc)
qed

lemma take_bit_64 [simp]: "take_bit 64 (w :: u64) = w"
  using take_bit_length_eq [of w] by simp

lemma ser_in_out: "ser_in n (ser_out t n b) = Inr (take_bit (8 * n) t, b)"
  by (simp add: ser_in_def ser_in_loop_out)

section \<open>The contract of a value type\<close>

locale codec =
  fixes put :: "'a \<Rightarrow> buf \<Rightarrow> buf res"
    and get :: "buf \<Rightarrow> ('a \<times> buf) res"
    and fits :: "'a \<Rightarrow> bool"
  assumes get_put: "put x b = Inr b' \<Longrightarrow> get b' = Inr (x, b)"
    and put_total: "fits x \<Longrightarrow> \<exists>b'. put x b = Inr b'"
begin

lemma put_inj: "put x b = Inr c \<Longrightarrow> put y b' = Inr c \<Longrightarrow> x = y \<and> b = b'"
  by (auto dest!: get_put)

end

section \<open>Integers, doubles, enumerations\<close>

definition put_u32 :: "u32 \<Rightarrow> buf \<Rightarrow> buf res" where
  "put_u32 w b = Inr (ser_out (ucast w) 4 b)"

definition get_u32 :: "buf \<Rightarrow> (u32 \<times> buf) res" where
  "get_u32 b = rbind (ser_in 4 b) (\<lambda>(t, b). Inr (ucast t, b))"

text \<open>A signed 32-bit value is sign extended by the cast to \<^verbatim>\<open>uint64_t\<close>.\<close>

definition put_i32 :: "u32 \<Rightarrow> buf \<Rightarrow> buf res" where
  "put_i32 w b = Inr (ser_out (scast w) 4 b)"

definition get_i32 :: "buf \<Rightarrow> (u32 \<times> buf) res" where
  "get_i32 b = rbind (ser_in 4 b) (\<lambda>(t, b). Inr (ucast t, b))"

definition put_u64 :: "u64 \<Rightarrow> buf \<Rightarrow> buf res" where
  "put_u64 w b = Inr (ser_out w 8 b)"

definition get_u64 :: "buf \<Rightarrow> (u64 \<times> buf) res" where
  "get_u64 b = ser_in 8 b"

text \<open>One byte: the element type of a routed payload.\<close>

definition put_u8 :: "u8 \<Rightarrow> buf \<Rightarrow> buf res" where
  "put_u8 w b = Inr (ser_out (ucast w) 1 b)"

definition get_u8 :: "buf \<Rightarrow> (u8 \<times> buf) res" where
  "get_u8 b = rbind (ser_in 1 b) (\<lambda>(t, b). Inr (ucast t, b))"

text \<open>A double is its bit pattern.\<close>

definition put_double :: "u64 \<Rightarrow> buf \<Rightarrow> buf res" where
  "put_double w b = Inr (ser_out w 8 b)"

definition get_double :: "buf \<Rightarrow> (u64 \<times> buf) res" where
  "get_double b = ser_in 8 b"

definition put_enum :: "('e \<Rightarrow> int) \<Rightarrow> 'e \<Rightarrow> buf \<Rightarrow> buf res" where
  "put_enum code e b = Inr (ser_out (word_of_int (code e)) 4 b)"

definition get_enum :: "('e \<Rightarrow> int) \<Rightarrow> 'e list \<Rightarrow> buf \<Rightarrow> ('e \<times> buf) res" where
  "get_enum code all b =
     rbind (ser_in 4 b) (\<lambda>(t, b).
       case enum_decode code all (sint (ucast t :: u32)) of
         None \<Rightarrow> Inl Unspecified | Some e \<Rightarrow> Inr (e, b))"

section \<open>Strings and vectors\<close>

definition put_string :: "string \<Rightarrow> buf \<Rightarrow> buf res" where
  "put_string s b =
     (if length s < 2 ^ 32
      then put_u64 (of_nat (length s)) (fold (\<lambda>c b. b @ [of_nat (of_char c)]) s b)
      else Inl Diverges)"

fun get_chars :: "nat \<Rightarrow> string \<Rightarrow> buf \<Rightarrow> (string \<times> buf) res" where
  "get_chars 0 acc b = Inr (acc, b)"
| "get_chars (Suc i) acc b =
     (if b = [] then Inl OutOfBounds
      else get_chars i (char_of (unat (last b)) # acc) (butlast b))"

definition get_string :: "buf \<Rightarrow> (string \<times> buf) res" where
  "get_string b =
     rbind (get_u64 b) (\<lambda>(len, b). if unat len < 2 ^ 32 then get_chars (unat len) [] b else Inl Thrown)"

fun put_list :: "('a \<Rightarrow> buf \<Rightarrow> buf res) \<Rightarrow> 'a list \<Rightarrow> buf \<Rightarrow> buf res" where
  "put_list p [] b = Inr b"
| "put_list p (x # xs) b = rbind (p x b) (put_list p xs)"

definition put_vec :: "('a \<Rightarrow> buf \<Rightarrow> buf res) \<Rightarrow> 'a list \<Rightarrow> buf \<Rightarrow> buf res" where
  "put_vec p xs b =
     (if length xs < 2 ^ 32
      then rbind (put_list p xs b) (put_u64 (of_nat (length xs)))
      else Inl Diverges)"

fun get_list :: "(buf \<Rightarrow> ('a \<times> buf) res) \<Rightarrow> nat \<Rightarrow> 'a list \<Rightarrow> buf \<Rightarrow> ('a list \<times> buf) res" where
  "get_list g 0 acc b = Inr (acc, b)"
| "get_list g (Suc i) acc b = rbind (g b) (\<lambda>(x, b). get_list g i (x # acc) b)"

definition get_vec :: "(buf \<Rightarrow> ('a \<times> buf) res) \<Rightarrow> buf \<Rightarrow> ('a list \<times> buf) res" where
  "get_vec g b =
     rbind (get_u64 b) (\<lambda>(len, b). if unat len < 2 ^ 32 then get_list g (unat len) [] b else Inl Thrown)"

definition fits_vec :: "('a \<Rightarrow> bool) \<Rightarrow> 'a list \<Rightarrow> bool" where
  "fits_vec f xs \<longleftrightarrow> length xs < 2 ^ 32 \<and> (\<forall>x \<in> set xs. f x)"

section \<open>Every operator pair is a codec\<close>

interpretation u32: codec put_u32 get_u32 "\<lambda>_. True"
  by unfold_locales
    (auto simp: put_u32_def get_u32_def ser_in_out intro!: bit_eqI simp: bit_simps)

interpretation i32: codec put_i32 get_i32 "\<lambda>_. True"
  by unfold_locales
    (auto simp: put_i32_def get_i32_def ser_in_out intro!: bit_eqI simp: bit_simps)

interpretation u8: codec put_u8 get_u8 "\<lambda>_. True"
  by unfold_locales
    (auto simp: put_u8_def get_u8_def ser_in_out intro!: bit_eqI simp: bit_simps)

interpretation u64: codec put_u64 get_u64 "\<lambda>_. True"
  by unfold_locales (auto simp: put_u64_def get_u64_def ser_in_out)

interpretation dbl: codec put_double get_double "\<lambda>_. True"
  by unfold_locales (auto simp: put_double_def get_double_def ser_in_out)

context c_enum
begin

lemma enum_codec: "codec (put_enum code) (get_enum code all) (\<lambda>_. True)"
proof
  fix e b b'
  assume p: "put_enum code e b = Inr b'"
  have "ucast (take_bit 32 (word_of_int (code e) :: u64)) = (word_of_int (code e) :: u32)"
    by (rule bit_eqI) (auto simp: bit_simps)
  moreover have "sint (word_of_int (code e) :: u32) = code e"
    using code_int [of e] by (simp add: sint_sbintrunc' signed_take_bit_int_eq_self)
  ultimately show "get_enum code all b' = Inr (e, b)"
    using p by (auto simp: put_enum_def get_enum_def ser_in_out decode_code)
qed (simp add: put_enum_def)

end

interpretation attr: codec "put_enum attr_code" "get_enum attr_code all_attrs" "\<lambda>_. True"
  by (rule attr_enum.enum_codec)

interpretation valueop: codec "put_enum valueop_code" "get_enum valueop_code all_valueops" "\<lambda>_. True"
  by (rule valueop_enum.enum_codec)

lemma get_chars_app:
  "get_chars (length s) acc (b @ map (\<lambda>c. of_nat (of_char c)) s) = Inr (s @ acc, b)"
proof (induction s arbitrary: acc rule: rev_induct)
  case (snoc c s)
  have "char_of (unat (of_nat (of_char c) :: u8)) = c"
    by (simp add: unat_of_nat take_bit_nat_eq_self)
  with snoc show ?case by (simp flip: append_assoc)
qed simp

lemma fold_push_back: "fold (\<lambda>c b. b @ [f c]) s b = b @ map f s"
  by (induction s arbitrary: b) simp_all

interpretation str: codec put_string get_string "\<lambda>s. length s < 2 ^ 32"
proof
  fix s b b'
  assume "put_string s b = Inr b'"
  then have len: "length s < 2 ^ 32"
    and p: "put_u64 (of_nat (length s)) (b @ map (\<lambda>c. of_nat (of_char c)) s) = Inr b'"
    by (auto simp: put_string_def fold_push_back split: if_splits)
  have "unat (of_nat (length s) :: u64) = length s"
    using len by (simp add: unat_of_nat take_bit_nat_eq_self)
  with p len show "get_string b' = Inr (s, b)"
    by (simp add: get_string_def u64.get_put get_chars_app)
qed (simp add: put_string_def u64.put_total)

context codec
begin

lemma get_list_app:
  "put_list put xs b = Inr b' \<Longrightarrow> get_list get (length xs) acc b' = Inr (xs @ acc, b)"
proof (induction xs arbitrary: acc b' rule: rev_induct)
  case (snoc x xs)
  have app: "put_list put (ys @ [x]) = (\<lambda>b. rbind (put_list put ys b) (put x))" for ys
  proof (induction ys)
    case Nil
    have "put_list put [] = Inr" by (rule ext) simp
    then show ?case by simp
  next
    case (Cons y ys)
    show ?case by (rule ext) (simp add: Cons.IH rbind_assoc)
  qed
  from snoc.prems obtain c where "put_list put xs b = Inr c" and "put x c = Inr b'"
    by (auto simp: app rbind_eq_Inr)
  with snoc.IH show ?case by (simp add: get_put)
qed simp

lemma put_list_total: "\<forall>x \<in> set xs. fits x \<Longrightarrow> \<exists>b'. put_list put xs b = Inr b'"
proof (induction xs arbitrary: b)
  case (Cons x xs)
  then obtain c where "put x b = Inr c" using put_total by fastforce
  with Cons show ?case by simp
qed simp

lemma vec_codec: "codec (put_vec put) (get_vec get) (fits_vec fits)"
proof
  fix xs b b'
  assume "put_vec put xs b = Inr b'"
  then obtain c where len: "length xs < 2 ^ 32" and p: "put_list put xs b = Inr c"
    and l: "put_u64 (of_nat (length xs)) c = Inr b'"
    by (auto simp: put_vec_def rbind_eq_Inr split: if_splits)
  have "unat (of_nat (length xs) :: u64) = length xs"
    using len by (simp add: unat_of_nat take_bit_nat_eq_self)
  with len u64.get_put [OF l] get_list_app [OF p] show "get_vec get b' = Inr (xs, b)"
    by (simp add: get_vec_def)
next
  fix xs b
  assume f: "fits_vec fits xs"
  then obtain c where "put_list put xs b = Inr c"
    using put_list_total [of xs b] by (auto simp: fits_vec_def)
  with f u64.put_total show "\<exists>b'. put_vec put xs b = Inr b'"
    by (simp add: put_vec_def fits_vec_def)
qed

end

interpretation u8v: codec "put_vec put_u8" "get_vec get_u8" "fits_vec (\<lambda>_. True)"
  by (rule u8.vec_codec)

interpretation i32v: codec "put_vec put_i32" "get_vec get_i32" "fits_vec (\<lambda>_. True)"
  by (rule i32.vec_codec)

interpretation u64v: codec "put_vec put_u64" "get_vec get_u64" "fits_vec (\<lambda>_. True)"
  by (rule u64.vec_codec)

interpretation attrv: codec "put_vec (put_enum attr_code)" "get_vec (get_enum attr_code all_attrs)"
    "fits_vec (\<lambda>_. True)"
  by (rule attr.vec_codec)

interpretation valueopv: codec "put_vec (put_enum valueop_code)"
    "get_vec (get_enum valueop_code all_valueops)" "fits_vec (\<lambda>_. True)"
  by (rule valueop.vec_codec)

interpretation strv: codec "put_vec put_string" "get_vec get_string" "fits_vec (\<lambda>s. length s < 2 ^ 32)"
  by (rule str.vec_codec)

interpretation u64vv: codec "put_vec (put_vec put_u64)" "get_vec (get_vec get_u64)"
    "fits_vec (fits_vec (\<lambda>_. True))"
  by (rule u64v.vec_codec)

interpretation strvv: codec "put_vec (put_vec put_string)" "get_vec (get_vec get_string)"
    "fits_vec (fits_vec (\<lambda>s. length s < 2 ^ 32))"
  by (rule strv.vec_codec)

lemmas get_put [codec] =
  u8.get_put u32.get_put i32.get_put u64.get_put dbl.get_put attr.get_put valueop.get_put
  str.get_put u8v.get_put i32v.get_put u64v.get_put attrv.get_put valueopv.get_put
  strv.get_put u64vv.get_put strvv.get_put

end
