(* ===== verification/Events.thy ===== *)
theory Events
  imports Serialize
begin

text \<open>
  The events of the wire protocol (\<^verbatim>\<open>eventType.h\<close>, \<^verbatim>\<open>event.h\<close>,
  \<^verbatim>\<open>events.h\<close> and the router's \<^verbatim>\<open>routerEvent.h\<close>) with their marshalling, and the
  functions that build an event of the right class from a received buffer. A class is a
  record that extends the record of its base class. A constructor takes the raw object it
  initialises, because some classes leave fields uninitialised.
\<close>

section \<open>Event and operation types\<close>

datatype EventType =
    NotSet | CommCreate | CommDestroy | CommReq | CommResp | CommLogReq | CommLogResp
  | CommGetSamplesReq | CommGetSamplesResp | ServerConnect | Router2Router

fun eventtype_code :: "EventType \<Rightarrow> int" where
  "eventtype_code NotSet = 0"
| "eventtype_code CommCreate = 1"
| "eventtype_code CommDestroy = 2"
| "eventtype_code CommReq = 3"
| "eventtype_code CommResp = 4"
| "eventtype_code CommLogReq = 5"
| "eventtype_code CommLogResp = 6"
| "eventtype_code CommGetSamplesReq = 7"
| "eventtype_code CommGetSamplesResp = 8"
| "eventtype_code ServerConnect = 9"
| "eventtype_code Router2Router = 10"

definition all_eventtypes :: "EventType list" where
  "all_eventtypes =
    [NotSet, CommCreate, CommDestroy, CommReq, CommResp, CommLogReq, CommLogResp,
     CommGetSamplesReq, CommGetSamplesResp, ServerConnect, Router2Router]"

datatype OpType = Noop | OpGet | OpSet | OpStart | OpStop | OpClear

fun op_code :: "OpType \<Rightarrow> int" where
  "op_code Noop = 0"
| "op_code OpGet = 1"
| "op_code OpSet = 2"
| "op_code OpStart = 3"
| "op_code OpStop = 4"
| "op_code OpClear = 5"

definition all_ops :: "OpType list" where
  "all_ops = [Noop, OpGet, OpSet, OpStart, OpStop, OpClear]"

interpretation eventtype_enum: c_enum eventtype_code all_eventtypes
proof
  show "e \<in> set all_eventtypes" for e
    by (cases e) (simp_all add: all_eventtypes_def)
  show "eventtype_code e = eventtype_code e' \<Longrightarrow> e = e'" for e e'
    by (cases e; cases e') simp_all
  show "- (2 ^ 31) \<le> eventtype_code e \<and> eventtype_code e < 2 ^ 31" for e
    by (cases e) simp_all
qed

interpretation op_enum: c_enum op_code all_ops
proof
  show "e \<in> set all_ops" for e
    by (cases e) (simp_all add: all_ops_def)
  show "op_code e = op_code e' \<Longrightarrow> e = e'" for e e'
    by (cases e; cases e') simp_all
  show "- (2 ^ 31) \<le> op_code e \<and> op_code e < 2 ^ 31" for e
    by (cases e) simp_all
qed

interpretation eventtype: codec "put_enum eventtype_code" "get_enum eventtype_code all_eventtypes"
    "\<lambda>_. True"
  by (rule eventtype_enum.enum_codec)

interpretation optype: codec "put_enum op_code" "get_enum op_code all_ops" "\<lambda>_. True"
  by (rule op_enum.enum_codec)

lemmas event_codec [codec] = eventtype.get_put optype.get_put

definition type_word :: "EventType \<Rightarrow> u32" where
  "type_word t = word_of_int (eventtype_code t)"

section \<open>The classes\<close>

record Event =
  ev_type :: u32
  ev_id :: u64
  ev_status :: u32

record ServerConnectEvent = Event +
  sc_name :: string

record CommEvent = Event +
  commID :: u64
  op :: OpType

record CommCreateEvent = CommEvent +
  members :: "string list list"

record CommReqEvent = CommEvent +
  grpIndex :: u64
  attrName :: "PWR_AttrName list"
  setValues :: "u64 list"
  valueOp :: "ValueOp list"

record CommRespEvent = CommEvent +
  r_timeStamp :: "u64 list list"
  r_value :: "u64 list list"
  r_grpIndex :: u64
  r_errObj :: "string list"
  r_errAttr :: "PWR_AttrName list"
  r_errValue :: "u32 list"

record CommLogReqEvent = CommEvent +
  l_attrName :: PWR_AttrName

record CommLogRespEvent = CommEvent +
  l_errObj :: "string list"
  l_errAttr :: "PWR_AttrName list"
  l_errValue :: "u32 list"

record CommGetSamplesReqEvent = CommEvent +
  s_attrName :: PWR_AttrName
  s_startTime :: u64
  s_period :: u64
  s_count :: u32

record CommGetSamplesRespEvent = CommEvent +
  sr_startTime :: u64
  sr_count :: u32
  sr_data :: "u64 list"
  sr_errObj :: "string list"
  sr_errAttr :: "PWR_AttrName list"
  sr_errValue :: "u32 list"

record RouterEvent = Event +
  rt_src :: u64
  rt_dest :: u64
  rt_eventType :: EventType
  rt_payload :: buf

section \<open>Marshalling, base classes first\<close>

definition Event_serialize_out :: "'a Event_scheme \<Rightarrow> buf \<Rightarrow> buf res" where
  "Event_serialize_out ev b =
     rbind (put_u64 (ev_id ev) b) (\<lambda>b.
     rbind (put_u32 (ev_type ev) b) (\<lambda>b.
     put_i32 (ev_status ev) b))"

definition Event_serialize_in :: "'a Event_scheme \<Rightarrow> buf \<Rightarrow> ('a Event_scheme \<times> buf) res" where
  "Event_serialize_in ev b =
     rbind (get_i32 b) (\<lambda>(st, b).
     rbind (get_u32 b) (\<lambda>(ty, b).
     rbind (get_u64 b) (\<lambda>(i, b).
     Inr (ev\<lparr>ev_status := st, ev_type := ty, ev_id := i\<rparr>, b))))"

definition ServerConnectEvent_serialize_out :: "ServerConnectEvent \<Rightarrow> buf \<Rightarrow> buf res" where
  "ServerConnectEvent_serialize_out ev b =
     rbind (Event_serialize_out ev b) (\<lambda>b. put_string (sc_name ev) b)"

definition ServerConnectEvent_serialize_in ::
    "ServerConnectEvent \<Rightarrow> buf \<Rightarrow> (ServerConnectEvent \<times> buf) res" where
  "ServerConnectEvent_serialize_in ev b =
     rbind (get_string b) (\<lambda>(nm, b). Event_serialize_in (ev\<lparr>sc_name := nm\<rparr>) b)"

definition CommEvent_serialize_out :: "'a CommEvent_scheme \<Rightarrow> buf \<Rightarrow> buf res" where
  "CommEvent_serialize_out ev b =
     rbind (Event_serialize_out ev b) (\<lambda>b.
     rbind (put_u64 (commID ev) b) (\<lambda>b.
     put_enum op_code (op ev) b))"

definition CommEvent_serialize_in ::
    "'a CommEvent_scheme \<Rightarrow> buf \<Rightarrow> ('a CommEvent_scheme \<times> buf) res" where
  "CommEvent_serialize_in ev b =
     rbind (get_enum op_code all_ops b) (\<lambda>(o', b).
     rbind (get_u64 b) (\<lambda>(c, b).
     Event_serialize_in (ev\<lparr>op := o', commID := c\<rparr>) b))"

definition CommCreateEvent_serialize_out :: "CommCreateEvent \<Rightarrow> buf \<Rightarrow> buf res" where
  "CommCreateEvent_serialize_out ev b =
     rbind (CommEvent_serialize_out ev b) (\<lambda>b. put_vec (put_vec put_string) (members ev) b)"

definition CommCreateEvent_serialize_in ::
    "CommCreateEvent \<Rightarrow> buf \<Rightarrow> (CommCreateEvent \<times> buf) res" where
  "CommCreateEvent_serialize_in ev b =
     rbind (get_vec (get_vec get_string) b) (\<lambda>(m, b).
     CommEvent_serialize_in (ev\<lparr>members := m\<rparr>) b)"

definition CommDestroyEvent_serialize_out :: "CommEvent \<Rightarrow> buf \<Rightarrow> buf res" where
  "CommDestroyEvent_serialize_out ev b = CommEvent_serialize_out ev b"

definition CommDestroyEvent_serialize_in :: "CommEvent \<Rightarrow> buf \<Rightarrow> (CommEvent \<times> buf) res" where
  "CommDestroyEvent_serialize_in ev b = CommEvent_serialize_in ev b"

definition CommReqEvent_serialize_out :: "CommReqEvent \<Rightarrow> buf \<Rightarrow> buf res" where
  "CommReqEvent_serialize_out ev b =
     rbind (CommEvent_serialize_out ev b) (\<lambda>b.
     rbind (put_vec put_u64 (setValues ev) b) (\<lambda>b.
     rbind (put_vec (put_enum attr_code) (attrName ev) b) (\<lambda>b.
     rbind (put_vec (put_enum valueop_code) (valueOp ev) b) (\<lambda>b.
     put_u64 (grpIndex ev) b))))"

definition CommReqEvent_serialize_in :: "CommReqEvent \<Rightarrow> buf \<Rightarrow> (CommReqEvent \<times> buf) res" where
  "CommReqEvent_serialize_in ev b =
     rbind (get_u64 b) (\<lambda>(g, b).
     rbind (get_vec (get_enum valueop_code all_valueops) b) (\<lambda>(vo, b).
     rbind (get_vec (get_enum attr_code all_attrs) b) (\<lambda>(an, b).
     rbind (get_vec get_u64 b) (\<lambda>(sv, b).
     CommEvent_serialize_in
       (ev\<lparr>grpIndex := g, valueOp := vo, attrName := an, setValues := sv\<rparr>) b))))"

definition CommRespEvent_serialize_out :: "CommRespEvent \<Rightarrow> buf \<Rightarrow> buf res" where
  "CommRespEvent_serialize_out ev b =
     rbind (CommEvent_serialize_out ev b) (\<lambda>b.
     rbind (put_vec (put_vec put_u64) (r_timeStamp ev) b) (\<lambda>b.
     rbind (put_vec (put_vec put_u64) (r_value ev) b) (\<lambda>b.
     rbind (put_u64 (r_grpIndex ev) b) (\<lambda>b.
     rbind (put_vec put_i32 (r_errValue ev) b) (\<lambda>b.
     rbind (put_vec (put_enum attr_code) (r_errAttr ev) b) (\<lambda>b.
     put_vec put_string (r_errObj ev) b))))))"

definition CommRespEvent_serialize_in :: "CommRespEvent \<Rightarrow> buf \<Rightarrow> (CommRespEvent \<times> buf) res" where
  "CommRespEvent_serialize_in ev b =
     rbind (get_vec get_string b) (\<lambda>(eo, b).
     rbind (get_vec (get_enum attr_code all_attrs) b) (\<lambda>(ea, b).
     rbind (get_vec get_i32 b) (\<lambda>(evs, b).
     rbind (get_u64 b) (\<lambda>(g, b).
     rbind (get_vec (get_vec get_u64) b) (\<lambda>(v, b).
     rbind (get_vec (get_vec get_u64) b) (\<lambda>(t, b).
     CommEvent_serialize_in
       (ev\<lparr>r_errObj := eo, r_errAttr := ea, r_errValue := evs, r_grpIndex := g,
           r_value := v, r_timeStamp := t\<rparr>) b))))))"

definition CommLogReqEvent_serialize_out :: "CommLogReqEvent \<Rightarrow> buf \<Rightarrow> buf res" where
  "CommLogReqEvent_serialize_out ev b =
     rbind (CommEvent_serialize_out ev b) (\<lambda>b. put_enum attr_code (l_attrName ev) b)"

definition CommLogReqEvent_serialize_in ::
    "CommLogReqEvent \<Rightarrow> buf \<Rightarrow> (CommLogReqEvent \<times> buf) res" where
  "CommLogReqEvent_serialize_in ev b =
     rbind (get_enum attr_code all_attrs b) (\<lambda>(a, b).
     CommEvent_serialize_in (ev\<lparr>l_attrName := a\<rparr>) b)"

definition CommLogRespEvent_serialize_out :: "CommLogRespEvent \<Rightarrow> buf \<Rightarrow> buf res" where
  "CommLogRespEvent_serialize_out ev b =
     rbind (CommEvent_serialize_out ev b) (\<lambda>b.
     rbind (put_vec put_i32 (l_errValue ev) b) (\<lambda>b.
     rbind (put_vec (put_enum attr_code) (l_errAttr ev) b) (\<lambda>b.
     put_vec put_string (l_errObj ev) b)))"

definition CommLogRespEvent_serialize_in ::
    "CommLogRespEvent \<Rightarrow> buf \<Rightarrow> (CommLogRespEvent \<times> buf) res" where
  "CommLogRespEvent_serialize_in ev b =
     rbind (get_vec get_string b) (\<lambda>(eo, b).
     rbind (get_vec (get_enum attr_code all_attrs) b) (\<lambda>(ea, b).
     rbind (get_vec get_i32 b) (\<lambda>(evs, b).
     CommEvent_serialize_in (ev\<lparr>l_errObj := eo, l_errAttr := ea, l_errValue := evs\<rparr>) b)))"

definition CommGetSamplesReqEvent_serialize_out :: "CommGetSamplesReqEvent \<Rightarrow> buf \<Rightarrow> buf res" where
  "CommGetSamplesReqEvent_serialize_out ev b =
     rbind (CommEvent_serialize_out ev b) (\<lambda>b.
     rbind (put_u32 (s_count ev) b) (\<lambda>b.
     rbind (put_double (s_period ev) b) (\<lambda>b.
     rbind (put_u64 (s_startTime ev) b) (\<lambda>b.
     put_enum attr_code (s_attrName ev) b))))"

definition CommGetSamplesReqEvent_serialize_in ::
    "CommGetSamplesReqEvent \<Rightarrow> buf \<Rightarrow> (CommGetSamplesReqEvent \<times> buf) res" where
  "CommGetSamplesReqEvent_serialize_in ev b =
     rbind (get_enum attr_code all_attrs b) (\<lambda>(a, b).
     rbind (get_u64 b) (\<lambda>(st, b).
     rbind (get_double b) (\<lambda>(p, b).
     rbind (get_u32 b) (\<lambda>(c, b).
     CommEvent_serialize_in
       (ev\<lparr>s_attrName := a, s_startTime := st, s_period := p, s_count := c\<rparr>) b))))"

definition CommGetSamplesRespEvent_serialize_out ::
    "CommGetSamplesRespEvent \<Rightarrow> buf \<Rightarrow> buf res" where
  "CommGetSamplesRespEvent_serialize_out ev b =
     rbind (CommEvent_serialize_out ev b) (\<lambda>b.
     rbind (put_vec put_string (sr_errObj ev) b) (\<lambda>b.
     rbind (put_vec (put_enum attr_code) (sr_errAttr ev) b) (\<lambda>b.
     rbind (put_vec put_i32 (sr_errValue ev) b) (\<lambda>b.
     rbind (put_vec put_u64 (sr_data ev) b) (\<lambda>b.
     rbind (put_u32 (sr_count ev) b) (\<lambda>b.
     put_u64 (sr_startTime ev) b))))))"

definition CommGetSamplesRespEvent_serialize_in ::
    "CommGetSamplesRespEvent \<Rightarrow> buf \<Rightarrow> (CommGetSamplesRespEvent \<times> buf) res" where
  "CommGetSamplesRespEvent_serialize_in ev b =
     rbind (get_u64 b) (\<lambda>(st, b).
     rbind (get_u32 b) (\<lambda>(c, b).
     rbind (get_vec get_u64 b) (\<lambda>(d, b).
     rbind (get_vec get_i32 b) (\<lambda>(evs, b).
     rbind (get_vec (get_enum attr_code all_attrs) b) (\<lambda>(ea, b).
     rbind (get_vec get_string b) (\<lambda>(eo, b).
     CommEvent_serialize_in
       (ev\<lparr>sr_startTime := st, sr_count := c, sr_data := d, sr_errValue := evs,
           sr_errAttr := ea, sr_errObj := eo\<rparr>) b))))))"

definition RouterEvent_serialize_out :: "RouterEvent \<Rightarrow> buf \<Rightarrow> buf res" where
  "RouterEvent_serialize_out ev b =
     rbind (Event_serialize_out ev b) (\<lambda>b.
     rbind (put_u64 (rt_dest ev) b) (\<lambda>b.
     rbind (put_u64 (rt_src ev) b) (\<lambda>b.
     rbind (put_enum eventtype_code (rt_eventType ev) b) (\<lambda>b.
     put_vec put_u8 (rt_payload ev) b))))"

definition RouterEvent_serialize_in :: "RouterEvent \<Rightarrow> buf \<Rightarrow> (RouterEvent \<times> buf) res" where
  "RouterEvent_serialize_in ev b =
     rbind (get_vec get_u8 b) (\<lambda>(p, b).
     rbind (get_enum eventtype_code all_eventtypes b) (\<lambda>(t, b).
     rbind (get_u64 b) (\<lambda>(s, b).
     rbind (get_u64 b) (\<lambda>(d, b).
     Event_serialize_in
       (ev\<lparr>rt_payload := p, rt_eventType := t, rt_src := s, rt_dest := d\<rparr>) b))))"

section \<open>Round trips of the classes\<close>

lemma Event_in_out [codec]:
  "Event_serialize_out ev b = Inr b' \<Longrightarrow>
   Event_serialize_in ev0 b' =
     Inr (ev0\<lparr>ev_status := ev_status ev, ev_type := ev_type ev, ev_id := ev_id ev\<rparr>, b)"
  by (auto simp: Event_serialize_out_def Event_serialize_in_def rbind_eq_Inr dest!: codec)

lemma CommEvent_in_out [codec]:
  "CommEvent_serialize_out ev b = Inr b' \<Longrightarrow>
   CommEvent_serialize_in ev0 b' =
     Inr (ev0\<lparr>op := op ev, commID := commID ev, ev_status := ev_status ev,
              ev_type := ev_type ev, ev_id := ev_id ev\<rparr>, b)"
  by (auto simp: CommEvent_serialize_out_def CommEvent_serialize_in_def rbind_eq_Inr
      Event_in_out dest!: get_put event_codec)

lemma ServerConnectEvent_in_out:
  "ServerConnectEvent_serialize_out ev b = Inr b' \<Longrightarrow>
   ServerConnectEvent_serialize_in ev0 b' = Inr (ev, b)"
  by (auto simp: ServerConnectEvent_serialize_out_def ServerConnectEvent_serialize_in_def
      rbind_eq_Inr Event_in_out dest!: get_put)

lemma CommCreateEvent_in_out:
  "CommCreateEvent_serialize_out ev b = Inr b' \<Longrightarrow>
   CommCreateEvent_serialize_in ev0 b' = Inr (ev, b)"
  by (auto simp: CommCreateEvent_serialize_out_def CommCreateEvent_serialize_in_def
      rbind_eq_Inr CommEvent_in_out dest!: get_put)

lemma CommDestroyEvent_in_out:
  "CommDestroyEvent_serialize_out ev b = Inr b' \<Longrightarrow>
   CommDestroyEvent_serialize_in ev0 b' = Inr (ev, b)"
  by (auto simp: CommDestroyEvent_serialize_out_def CommDestroyEvent_serialize_in_def
      CommEvent_in_out)

lemma CommReqEvent_in_out:
  "CommReqEvent_serialize_out ev b = Inr b' \<Longrightarrow>
   CommReqEvent_serialize_in ev0 b' = Inr (ev, b)"
  by (auto simp: CommReqEvent_serialize_out_def CommReqEvent_serialize_in_def
      rbind_eq_Inr CommEvent_in_out dest!: get_put)

lemma CommRespEvent_in_out:
  "CommRespEvent_serialize_out ev b = Inr b' \<Longrightarrow>
   CommRespEvent_serialize_in ev0 b' = Inr (ev, b)"
  by (auto simp: CommRespEvent_serialize_out_def CommRespEvent_serialize_in_def
      rbind_eq_Inr CommEvent_in_out dest!: get_put)

lemma CommLogReqEvent_in_out:
  "CommLogReqEvent_serialize_out ev b = Inr b' \<Longrightarrow>
   CommLogReqEvent_serialize_in ev0 b' = Inr (ev, b)"
  by (auto simp: CommLogReqEvent_serialize_out_def CommLogReqEvent_serialize_in_def
      rbind_eq_Inr CommEvent_in_out dest!: get_put)

lemma CommLogRespEvent_in_out:
  "CommLogRespEvent_serialize_out ev b = Inr b' \<Longrightarrow>
   CommLogRespEvent_serialize_in ev0 b' = Inr (ev, b)"
  by (auto simp: CommLogRespEvent_serialize_out_def CommLogRespEvent_serialize_in_def
      rbind_eq_Inr CommEvent_in_out dest!: get_put)

lemma CommGetSamplesReqEvent_in_out:
  "CommGetSamplesReqEvent_serialize_out ev b = Inr b' \<Longrightarrow>
   CommGetSamplesReqEvent_serialize_in ev0 b' = Inr (ev, b)"
  by (auto simp: CommGetSamplesReqEvent_serialize_out_def CommGetSamplesReqEvent_serialize_in_def
      rbind_eq_Inr CommEvent_in_out dest!: get_put)

lemma CommGetSamplesRespEvent_in_out:
  "CommGetSamplesRespEvent_serialize_out ev b = Inr b' \<Longrightarrow>
   CommGetSamplesRespEvent_serialize_in ev0 b' = Inr (ev, b)"
  by (auto simp: CommGetSamplesRespEvent_serialize_out_def
      CommGetSamplesRespEvent_serialize_in_def rbind_eq_Inr CommEvent_in_out dest!: get_put)

lemma RouterEvent_in_out:
  "RouterEvent_serialize_out ev b = Inr b' \<Longrightarrow>
   RouterEvent_serialize_in ev0 b' = Inr (ev, b)"
  by (auto simp: RouterEvent_serialize_out_def RouterEvent_serialize_in_def
      rbind_eq_Inr Event_in_out dest!: get_put event_codec)

end
