(* ===== verification/EventChannel.thy ===== *)
theory EventChannel
  imports Events
begin

text \<open>
  Polymorphic events, the allocation functions of the library, the router and the server
  (\<^verbatim>\<open>allocEvent.cc\<close>), and the framing of \<^verbatim>\<open>tcpEventChannel.cc\<close>: type,
  length and body of an event on a byte stream. The stream is the sequence of bytes in
  transit; a read takes what it asks for, or all there is. Words are laid out as the
  little-endian hosts the daemon runs on store them.
\<close>

section \<open>An event of any class\<close>

datatype AnyEvent =
    EvServerConnect ServerConnectEvent
  | EvCommCreate CommCreateEvent
  | EvCommDestroy CommEvent
  | EvCommReq CommReqEvent
  | EvCommResp CommRespEvent
  | EvCommLogReq CommLogReqEvent
  | EvCommLogResp CommLogRespEvent
  | EvCommGetSamplesReq CommGetSamplesReqEvent
  | EvCommGetSamplesResp CommGetSamplesRespEvent
  | EvRouter RouterEvent

fun any_base :: "AnyEvent \<Rightarrow> u32 \<times> u64 \<times> u32" where
  "any_base (EvServerConnect e) = (ev_type e, ev_id e, ev_status e)"
| "any_base (EvCommCreate e) = (ev_type e, ev_id e, ev_status e)"
| "any_base (EvCommDestroy e) = (ev_type e, ev_id e, ev_status e)"
| "any_base (EvCommReq e) = (ev_type e, ev_id e, ev_status e)"
| "any_base (EvCommResp e) = (ev_type e, ev_id e, ev_status e)"
| "any_base (EvCommLogReq e) = (ev_type e, ev_id e, ev_status e)"
| "any_base (EvCommLogResp e) = (ev_type e, ev_id e, ev_status e)"
| "any_base (EvCommGetSamplesReq e) = (ev_type e, ev_id e, ev_status e)"
| "any_base (EvCommGetSamplesResp e) = (ev_type e, ev_id e, ev_status e)"
| "any_base (EvRouter e) = (ev_type e, ev_id e, ev_status e)"

definition any_type :: "AnyEvent \<Rightarrow> u32" where
  "any_type ev = fst (any_base ev)"

definition any_id :: "AnyEvent \<Rightarrow> u64" where
  "any_id ev = fst (snd (any_base ev))"

fun any_class :: "AnyEvent \<Rightarrow> EventType" where
  "any_class (EvServerConnect e) = ServerConnect"
| "any_class (EvCommCreate e) = CommCreate"
| "any_class (EvCommDestroy e) = CommDestroy"
| "any_class (EvCommReq e) = CommReq"
| "any_class (EvCommResp e) = CommResp"
| "any_class (EvCommLogReq e) = CommLogReq"
| "any_class (EvCommLogResp e) = CommLogResp"
| "any_class (EvCommGetSamplesReq e) = CommGetSamplesReq"
| "any_class (EvCommGetSamplesResp e) = CommGetSamplesResp"
| "any_class (EvRouter e) = Router2Router"

fun any_serialize_out :: "AnyEvent \<Rightarrow> buf \<Rightarrow> buf res" where
  "any_serialize_out (EvServerConnect e) b = ServerConnectEvent_serialize_out e b"
| "any_serialize_out (EvCommCreate e) b = CommCreateEvent_serialize_out e b"
| "any_serialize_out (EvCommDestroy e) b = CommDestroyEvent_serialize_out e b"
| "any_serialize_out (EvCommReq e) b = CommReqEvent_serialize_out e b"
| "any_serialize_out (EvCommResp e) b = CommRespEvent_serialize_out e b"
| "any_serialize_out (EvCommLogReq e) b = CommLogReqEvent_serialize_out e b"
| "any_serialize_out (EvCommLogResp e) b = CommLogRespEvent_serialize_out e b"
| "any_serialize_out (EvCommGetSamplesReq e) b = CommGetSamplesReqEvent_serialize_out e b"
| "any_serialize_out (EvCommGetSamplesResp e) b = CommGetSamplesRespEvent_serialize_out e b"
| "any_serialize_out (EvRouter e) b = RouterEvent_serialize_out e b"

text \<open>
  \<^verbatim>\<open>new C( buf )\<close>: the object before its fields are read is a default event; every
  field is then overwritten, so the blank values do not show.
\<close>

fun new_from_buf :: "EventType \<Rightarrow> buf \<Rightarrow> (AnyEvent \<times> buf) res" where
  "new_from_buf ServerConnect b =
     rbind (ServerConnectEvent_serialize_in
              \<lparr>ev_type = type_word NotSet, ev_id = 0, ev_status = 0, sc_name = []\<rparr> b)
       (\<lambda>(e, b). Inr (EvServerConnect e, b))"
| "new_from_buf CommCreate b =
     rbind (CommCreateEvent_serialize_in
              \<lparr>ev_type = type_word NotSet, ev_id = 0, ev_status = 0, commID = 0, op = Noop,
               members = []\<rparr> b)
       (\<lambda>(e, b). Inr (EvCommCreate e, b))"
| "new_from_buf CommDestroy b =
     rbind (CommDestroyEvent_serialize_in
              \<lparr>ev_type = type_word NotSet, ev_id = 0, ev_status = 0, commID = 0, op = Noop\<rparr> b)
       (\<lambda>(e, b). Inr (EvCommDestroy e, b))"
| "new_from_buf CommReq b =
     rbind (CommReqEvent_serialize_in
              \<lparr>ev_type = type_word NotSet, ev_id = 0, ev_status = 0, commID = 0, op = Noop,
               grpIndex = 0, attrName = [], setValues = [], valueOp = []\<rparr> b)
       (\<lambda>(e, b). Inr (EvCommReq e, b))"
| "new_from_buf CommResp b =
     rbind (CommRespEvent_serialize_in
              \<lparr>ev_type = type_word NotSet, ev_id = 0, ev_status = 0, commID = 0, op = Noop,
               r_timeStamp = [], r_value = [], r_grpIndex = 0, r_errObj = [], r_errAttr = [],
               r_errValue = []\<rparr> b)
       (\<lambda>(e, b). Inr (EvCommResp e, b))"
| "new_from_buf CommLogReq b =
     rbind (CommLogReqEvent_serialize_in
              \<lparr>ev_type = type_word NotSet, ev_id = 0, ev_status = 0, commID = 0, op = Noop,
               l_attrName = PWR_ATTR_PSTATE\<rparr> b)
       (\<lambda>(e, b). Inr (EvCommLogReq e, b))"
| "new_from_buf CommLogResp b =
     rbind (CommLogRespEvent_serialize_in
              \<lparr>ev_type = type_word NotSet, ev_id = 0, ev_status = 0, commID = 0, op = Noop,
               l_errObj = [], l_errAttr = [], l_errValue = []\<rparr> b)
       (\<lambda>(e, b). Inr (EvCommLogResp e, b))"
| "new_from_buf CommGetSamplesReq b =
     rbind (CommGetSamplesReqEvent_serialize_in
              \<lparr>ev_type = type_word NotSet, ev_id = 0, ev_status = 0, commID = 0, op = Noop,
               s_attrName = PWR_ATTR_PSTATE, s_startTime = 0, s_period = 0, s_count = 0\<rparr> b)
       (\<lambda>(e, b). Inr (EvCommGetSamplesReq e, b))"
| "new_from_buf CommGetSamplesResp b =
     rbind (CommGetSamplesRespEvent_serialize_in
              \<lparr>ev_type = type_word NotSet, ev_id = 0, ev_status = 0, commID = 0, op = Noop,
               sr_startTime = 0, sr_count = 0, sr_data = [], sr_errObj = [], sr_errAttr = [],
               sr_errValue = []\<rparr> b)
       (\<lambda>(e, b). Inr (EvCommGetSamplesResp e, b))"
| "new_from_buf Router2Router b =
     rbind (RouterEvent_serialize_in
              \<lparr>ev_type = type_word NotSet, ev_id = 0, ev_status = 0, rt_src = 0, rt_dest = 0,
               rt_eventType = NotSet, rt_payload = []\<rparr> b)
       (\<lambda>(e, b). Inr (EvRouter e, b))"
| "new_from_buf NotSet b = Inl AssertFail"

lemma new_from_buf_out:
  "any_serialize_out ev b = Inr b' \<Longrightarrow> new_from_buf (any_class ev) b' = Inr (ev, b)"
  by (cases ev)
    (simp_all add: ServerConnectEvent_in_out CommCreateEvent_in_out CommDestroyEvent_in_out
      CommReqEvent_in_out CommRespEvent_in_out CommLogReqEvent_in_out CommLogRespEvent_in_out
      CommGetSamplesReqEvent_in_out CommGetSamplesRespEvent_in_out RouterEvent_in_out)

section \<open>Allocation functions\<close>

type_synonym alloc_func = "u32 \<Rightarrow> buf \<Rightarrow> (AnyEvent \<times> buf) res"

text \<open>The switch over \<^verbatim>\<open>(EventType) type\<close>; every other type fails an assertion.\<close>

definition alloc_switch :: "EventType list \<Rightarrow> alloc_func" where
  "alloc_switch cs ty b =
     (case find (\<lambda>t. type_word t = ty) cs of
        None \<Rightarrow> Inl AssertFail | Some t \<Rightarrow> new_from_buf t b)"

definition ctx_allocEvent :: alloc_func where
  "ctx_allocEvent = alloc_switch [CommResp, CommLogResp, CommGetSamplesResp]"

definition router_allocRtrEvent :: alloc_func where
  "router_allocRtrEvent = alloc_switch [Router2Router]"

definition router_allocClientEvent :: alloc_func where
  "router_allocClientEvent = alloc_switch [CommCreate, CommReq, CommLogReq, CommGetSamplesReq]"

definition router_allocServerEvent :: alloc_func where
  "router_allocServerEvent =
     alloc_switch [Router2Router, CommResp, CommLogResp, CommGetSamplesResp, ServerConnect]"

definition server_allocRtrEvent :: alloc_func where
  "server_allocRtrEvent = alloc_switch [Router2Router]"

definition server_allocReqEvent :: alloc_func where
  "server_allocReqEvent =
     alloc_switch [CommCreate, CommDestroy, CommReq, CommLogReq, CommGetSamplesReq]"

lemma type_word_inj: "type_word t = type_word t' \<Longrightarrow> t = t'"
  by (cases t; cases t') (simp_all add: type_word_def)

lemma alloc_switch_hit:
  assumes "t \<in> set cs"
  shows "alloc_switch cs (type_word t) b = new_from_buf t b"
proof -
  have "find (\<lambda>t'. type_word t' = type_word t) cs = Some t"
    using assms by (induction cs) (auto dest: type_word_inj)
  then show ?thesis by (simp add: alloc_switch_def)
qed

lemma alloc_switch_miss: "ty \<notin> type_word ` set cs \<Longrightarrow> alloc_switch cs ty b = Inl AssertFail"
proof -
  assume "ty \<notin> type_word ` set cs"
  then have "find (\<lambda>t. type_word t = ty) cs = None" by (auto simp: find_None_iff)
  then show ?thesis by (simp add: alloc_switch_def)
qed

section \<open>Framing\<close>

type_synonym stream = "u8 list"

definition le_bytes :: "nat \<Rightarrow> u64 \<Rightarrow> u8 list" where
  "le_bytes n w = ser_out w n []"

definition le_word :: "u8 list \<Rightarrow> u64" where
  "le_word bs = (case ser_in (length bs) bs of Inl _ \<Rightarrow> 0 | Inr (w, _) \<Rightarrow> w)"

definition chan_read :: "nat \<Rightarrow> stream \<Rightarrow> u8 list \<times> stream" where
  "chan_read n s = (take n s, drop n s)"

definition sendEvent :: "AnyEvent \<Rightarrow> stream \<Rightarrow> stream res" where
  "sendEvent ev s =
     rbind (any_serialize_out ev []) (\<lambda>b.
       Inr (s @ le_bytes 4 (ucast (any_type ev)) @ le_bytes 8 (of_nat (length b)) @ b))"

definition getEvent :: "alloc_func \<Rightarrow> stream \<Rightarrow> (AnyEvent option \<times> stream) res" where
  "getEvent alloc s =
     (let (h, s) = chan_read 4 s in
      if length h = 0 then Inr (None, s)
      else rbind (assert_c (length h = 4)) (\<lambda>_.
        let ty = ucast (le_word h); (l, s) = chan_read 8 s in
        rbind (assert_c (length l = 8)) (\<lambda>_.
        let len = unat (le_word l); (body, s) = chan_read len s in
        rbind (assert_c (length body = len)) (\<lambda>_.
        rbind (alloc ty body) (\<lambda>(ev, _). Inr (Some ev, s))))))"

text \<open>Sending a sequence of events, and receiving up to \<open>n\<close> of them.\<close>

primrec send_all :: "('ev \<Rightarrow> 's \<Rightarrow> 's res) \<Rightarrow> 'ev list \<Rightarrow> 's \<Rightarrow> 's res" where
  "send_all send [] s = Inr s"
| "send_all send (ev # evs) s = rbind (send ev s) (send_all send evs)"

primrec recv_all :: "('s \<Rightarrow> ('ev option \<times> 's) res) \<Rightarrow> nat \<Rightarrow> 's \<Rightarrow> ('ev list \<times> 's) res" where
  "recv_all recv 0 s = Inr ([], s)"
| "recv_all recv (Suc n) s =
     rbind (recv s) (\<lambda>(ev, s).
       case ev of None \<Rightarrow> Inr ([], s)
       | Some e \<Rightarrow> rbind (recv_all recv n s) (\<lambda>(es, s). Inr (e # es, s)))"

lemma length_le_bytes [simp]: "length (le_bytes n w) = n"
  by (simp add: le_bytes_def length_ser_out)

lemma le_bytes_ne [simp]: "0 < n \<Longrightarrow> le_bytes n w \<noteq> []"
  by (metis length_le_bytes length_greater_0_conv)

lemma le_word_bytes: "le_word (le_bytes n w) = take_bit (8 * n) w"
proof -
  have "ser_in n (le_bytes n w) = Inr (take_bit (8 * n) w, [])"
    by (simp add: le_bytes_def ser_in_out)
  then show ?thesis by (simp add: le_word_def)
qed

lemma le_word_4: "ucast (le_word (le_bytes 4 (ucast (w :: u32)))) = w"
  by (rule bit_eqI) (auto simp: le_word_bytes bit_simps)

lemma le_word_8: "le_word (le_bytes 8 w) = w"
  by (simp add: le_word_bytes)

text \<open>
  The contract of a channel: what one side sends the other receives, in order, when the
  receiver's allocation function knows the event types. It is stated for any framing so that
  the components above depend on the laws only.
\<close>

locale channel =
  fixes send :: "'ev \<Rightarrow> 's \<Rightarrow> 's res"
    and recv :: "'s \<Rightarrow> ('ev option \<times> 's) res"
    and append :: "'s \<Rightarrow> 's \<Rightarrow> 's"
    and nil :: 's
    and ok :: "'ev \<Rightarrow> bool"
  assumes send_append: "send ev s = Inr s' \<Longrightarrow> \<exists>f. send ev nil = Inr f \<and> s' = append s f"
    and recv_send: "send ev nil = Inr f \<Longrightarrow> ok ev \<Longrightarrow> recv (append f s) = Inr (Some ev, s)"
    and recv_nil: "recv nil = Inr (None, nil)"
    and append_assoc: "append (append a b) c = append a (append b c)"
    and append_nil: "append a nil = a" "append nil a = a"
    and send_total: "send ev s = Inr f \<Longrightarrow> \<exists>s'. send ev t = Inr s'"
begin

lemma send_all_total: "send_all send evs s = Inr g \<Longrightarrow> \<exists>h. send_all send evs t = Inr h"
proof (induction evs arbitrary: s t)
  case (Cons ev evs)
  then obtain f where f: "send ev s = Inr f" "send_all send evs f = Inr g"
    by (auto simp: rbind_eq_Inr)
  from send_total [OF f(1)] obtain s' where "send ev t = Inr s'" by blast
  with Cons.IH [OF f(2)] show ?case by simp
qed simp

lemma send_then_recv:
  assumes "send ev nil = Inr s" "ok ev"
  shows "recv s = Inr (Some ev, nil)"
  using recv_send [OF assms, of nil] by (simp add: append_nil)

lemma send_all_append:
  "send_all send evs s = Inr s' \<Longrightarrow> \<exists>f. send_all send evs nil = Inr f \<and> s' = append s f"
proof (induction evs arbitrary: s s')
  case Nil
  then show ?case by (simp add: append_nil)
next
  case (Cons ev evs)
  then obtain s1 where s1: "send ev s = Inr s1" "send_all send evs s1 = Inr s'"
    by (auto simp: rbind_eq_Inr)
  from send_append [OF s1(1)] obtain f where f: "send ev nil = Inr f" "s1 = append s f" by blast
  from Cons.IH [OF s1(2)] obtain g where g: "send_all send evs nil = Inr g" "s' = append s1 g"
    by blast
  from send_all_total [OF s1(2)] obtain h where "send_all send evs f = Inr h" by blast
  with Cons.IH [OF this] g f show ?case by (auto simp: append_assoc)
qed

text \<open>First in, first out: what is sent after \<open>s\<close> comes out in order once \<open>s\<close> is read.\<close>

lemma recv_all_send_all:
  "send_all send evs nil = Inr f \<Longrightarrow> \<forall>ev \<in> set evs. ok ev \<Longrightarrow>
   recv_all recv (length evs) (append f s) = Inr (evs, s)"
proof (induction evs arbitrary: f)
  case Nil
  then have "f = nil" by simp
  then show ?case by (simp only: append_nil recv_all.simps list.size)
next
  case (Cons ev evs)
  then obtain f1 where f1: "send ev nil = Inr f1" "send_all send evs f1 = Inr f"
    by (auto simp: rbind_eq_Inr)
  from send_all_append [OF f1(2)] obtain g where g: "send_all send evs nil = Inr g" "f = append f1 g"
    by blast
  with f1 Cons show ?case by (simp add: append_assoc recv_send)
qed

end

definition frames_ok :: "EventType list \<Rightarrow> AnyEvent \<Rightarrow> bool" where
  "frames_ok cs ev \<longleftrightarrow> any_class ev \<in> set cs \<and> any_type ev = type_word (any_class ev) \<and>
     (\<forall>b. any_serialize_out ev [] = Inr b \<longrightarrow> length b < 2 ^ 64)"

lemma getEvent_frame:
  assumes "sendEvent ev [] = Inr f" and "frames_ok cs ev"
  shows "getEvent (alloc_switch cs) (f @ s) = Inr (Some ev, s)"
proof -
  from assms(1) obtain b where b: "any_serialize_out ev [] = Inr b"
    and f: "f = le_bytes 4 (ucast (any_type ev)) @ le_bytes 8 (of_nat (length b)) @ b"
    by (auto simp: sendEvent_def rbind_eq_Inr)
  from assms(2) b have len: "length b < 2 ^ 64" and cls: "any_class ev \<in> set cs"
    and ty: "any_type ev = type_word (any_class ev)" by (auto simp: frames_ok_def)
  have ul: "unat (of_nat (length b) :: u64) = length b"
    using len by (simp add: unat_of_nat take_bit_nat_eq_self)
  have "alloc_switch cs (any_type ev) b = Inr (ev, [])"
    unfolding ty using cls b by (simp add: alloc_switch_hit new_from_buf_out)
  then show ?thesis
    by (simp add: getEvent_def chan_read_def f Let_def le_word_4 le_word_8 ul)
qed

interpretation tcp: channel sendEvent "getEvent (alloc_switch cs)" "(@)" "[]" "frames_ok cs" for cs
proof
  show "\<exists>f. sendEvent ev [] = Inr f \<and> s' = s @ f" if "sendEvent ev s = Inr s'" for ev s s'
    using that by (auto simp: sendEvent_def rbind_eq_Inr)
  show "sendEvent ev [] = Inr f \<Longrightarrow> frames_ok cs ev \<Longrightarrow>
      getEvent (alloc_switch cs) (f @ s) = Inr (Some ev, s)" for ev f s
    by (rule getEvent_frame)
  show "sendEvent ev s = Inr f \<Longrightarrow> \<exists>s'. sendEvent ev t = Inr s'" for ev s f t
    by (auto simp: sendEvent_def rbind_eq_Inr)
qed (simp_all add: getEvent_def chan_read_def)

section \<open>Properties of the wire protocol\<close>

lemmas ser_eval =
  any_serialize_out.simps ServerConnectEvent_serialize_out_def CommLogReqEvent_serialize_out_def
  CommEvent_serialize_out_def Event_serialize_out_def put_u64_def put_u32_def put_i32_def
  put_string_def put_enum_def length_ser_out fold_push_back

definition connect_example :: AnyEvent where
  "connect_example =
     EvServerConnect \<lparr>ev_type = type_word ServerConnect, ev_id = 7, ev_status = 0, sc_name = ''ab''\<rparr>"

definition log_example :: AnyEvent where
  "log_example =
     EvCommLogReq \<lparr>ev_type = type_word CommLogReq, ev_id = 258, ev_status = 0, commID = 5,
       op = OpStart, l_attrName = PWR_ATTR_ENERGY\<rparr>"

text \<open>
  C21: Marshalling any event of the protocol and building an event of its class from the buffer
  gives the event back, all inherited and own fields included, and leaves what was in the
  buffer before untouched.
\<close>

theorem event_roundtrip:
  assumes "any_serialize_out ev b = Inr b'"
  shows "new_from_buf (any_class ev) b' = Inr (ev, b)"
  using assms by (rule new_from_buf_out)

theorem event_roundtrip_witness:
  "\<exists>b'. any_serialize_out log_example [9] = Inr b' \<and> new_from_buf CommLogReq b' = Inr (log_example, [9])"
proof -
  obtain b' where b': "any_serialize_out log_example [9] = Inr b'"
    by (simp add: log_example_def ser_eval)
  moreover have "any_class log_example = CommLogReq" by (simp add: log_example_def)
  ultimately show ?thesis using event_roundtrip [OF b'] by simp
qed

text \<open>
  C22: The framing of the TCP channel is first in, first out: when a sequence of events that
  the receiver can allocate is sent, receiving as many times gives the same events in the
  same order, whatever follows them on the stream, and consumes exactly their bytes.
\<close>

theorem channel_fifo:
  assumes "send_all sendEvent es [] = Inr f" and "\<forall>ev \<in> set es. frames_ok cs ev"
  shows "recv_all (getEvent (alloc_switch cs)) (length es) (f @ s) = Inr (es, s)"
  using assms by (rule tcp.recv_all_send_all)

theorem channel_fifo_witness:
  "\<exists>f. recv_all (getEvent (alloc_switch [ServerConnect, CommLogReq])) 2 (f @ [1, 2]) =
     Inr ([connect_example, log_example], [1, 2])"
proof -
  obtain f where "send_all sendEvent [connect_example, log_example] [] = Inr f"
    by (simp add: log_example_def connect_example_def sendEvent_def ser_eval any_type_def)
  moreover have "frames_ok [ServerConnect, CommLogReq] connect_example"
    by (simp add: connect_example_def frames_ok_def ser_eval any_type_def)
  moreover have "frames_ok [ServerConnect, CommLogReq] log_example"
    by (simp add: log_example_def frames_ok_def ser_eval any_type_def)
  ultimately have "recv_all (getEvent (alloc_switch [ServerConnect, CommLogReq]))
      (length [connect_example, log_example]) (f @ [1, 2]) = Inr ([connect_example, log_example], [1, 2])"
    by (intro channel_fifo) simp_all
  then show ?thesis by (auto simp: numeral_2_eq_2)
qed

end
