(* ===== verification/CString.thy ===== *)
theory CString
  imports Prelude
begin

text \<open>
  The string functions the sources use, on the characters before the terminating NUL:
  \<^verbatim>\<open>std::string::find_first_of\<close>, \<^verbatim>\<open>find_last_of\<close>, \<^verbatim>\<open>substr\<close>,
  \<^verbatim>\<open>std::getline\<close> and \<^verbatim>\<open>atoi\<close>.
\<close>

section \<open>std::string\<close>

text \<open>\<open>None\<close> is \<^verbatim>\<open>std::string::npos\<close>.\<close>

fun find_first_of :: "char \<Rightarrow> string \<Rightarrow> nat option" where
  "find_first_of c [] = None"
| "find_first_of c (x # xs) = (if x = c then Some 0 else map_option Suc (find_first_of c xs))"

fun find_last_of :: "char \<Rightarrow> string \<Rightarrow> nat option" where
  "find_last_of c [] = None"
| "find_last_of c (x # xs) =
     (case find_last_of c xs of Some n \<Rightarrow> Some (Suc n) | None \<Rightarrow> if x = c then Some 0 else None)"

definition npos :: nat where
  "npos = 2 ^ 64 - 1"

definition pos_val :: "nat option \<Rightarrow> nat" where
  "pos_val p = (case p of None \<Rightarrow> npos | Some n \<Rightarrow> n)"

text \<open>Arithmetic on \<^verbatim>\<open>size_t\<close>: \<open>npos + 1 = 0\<close>, \<open>0 - 1 = npos\<close>.\<close>

definition pos_inc :: "nat \<Rightarrow> nat" where
  "pos_inc n = (if n = npos then 0 else n + 1)"

definition pos_dec :: "nat \<Rightarrow> nat" where
  "pos_dec n = (if n = 0 then npos else n - 1)"

definition substr :: "string \<Rightarrow> nat \<Rightarrow> nat \<Rightarrow> string res" where
  "substr s pos n = (if length s < pos then Inl Thrown else Inr (take n (drop pos s)))"

text \<open>
  The lines a loop \<^verbatim>\<open>while ( ! std::getline( fs, line ).eof() )\<close> sees: a last line
  without a newline sets the end-of-file bit and is not seen.
\<close>

fun lines_before_eof :: "string \<Rightarrow> string \<Rightarrow> string list" where
  "lines_before_eof acc [] = []"
| "lines_before_eof acc (c # cs) =
     (if c = CHR 0x0A then rev acc # lines_before_eof [] cs else lines_before_eof (c # acc) cs)"

lemma find_first_of_app:
  "c \<notin> set xs \<Longrightarrow> find_first_of c (xs @ c # ys) = Some (length xs)"
  by (induction xs) auto

lemma find_first_of_None: "find_first_of c xs = None \<longleftrightarrow> c \<notin> set xs"
  by (induction xs) auto

lemma find_last_of_None: "find_last_of c xs = None \<longleftrightarrow> c \<notin> set xs"
  by (induction xs) (auto split: option.splits)

lemma find_last_of_app:
  "c \<notin> set ys \<Longrightarrow> find_last_of c (xs @ c # ys) = Some (length xs)"
proof (induction xs)
  case Nil
  then show ?case using find_last_of_None [of c ys] by (simp split: option.splits)
qed simp

lemma lines_before_eof_line:
  "CHR 0x0A \<notin> set l \<Longrightarrow>
   lines_before_eof acc (l @ CHR 0x0A # rest) = (rev acc @ l) # lines_before_eof [] rest"
  by (induction l arbitrary: acc) auto

section \<open>atoi\<close>

definition is_space :: "char \<Rightarrow> bool" where
  "is_space c \<longleftrightarrow> c \<in> {CHR '' '', CHR 0x09, CHR 0x0A, CHR 0x0B, CHR 0x0C, CHR 0x0D}"

definition is_digit :: "char \<Rightarrow> bool" where
  "is_digit c \<longleftrightarrow> 48 \<le> (of_char c :: nat) \<and> (of_char c :: nat) \<le> 57"

definition digit_val :: "char \<Rightarrow> nat" where
  "digit_val c = of_char c - 48"

definition digits_val :: "string \<Rightarrow> nat" where
  "digits_val s = fold (\<lambda>c n. 10 * n + digit_val c) (takeWhile is_digit s) 0"

text \<open>
  \<^verbatim>\<open>atoi\<close> of a number outside the range of \<^verbatim>\<open>int\<close> is undefined.
\<close>

definition atoi :: "string \<Rightarrow> int res" where
  "atoi s =
     (let t = dropWhile is_space s;
          n = (case t of [] \<Rightarrow> 0
               | c # cs \<Rightarrow> if c = CHR ''-'' then - int (digits_val cs)
                          else if c = CHR ''+'' then int (digits_val cs)
                          else int (digits_val t))
      in if - (2 ^ 31) \<le> n \<and> n < 2 ^ 31 then Inr n else Inl Unspecified)"

text \<open>Printing a number, to state what parsing reads back.\<close>

fun show_nat :: "nat \<Rightarrow> string" where
  "show_nat n = (if n < 10 then [char_of (48 + n)] else show_nat (n div 10) @ [char_of (48 + n mod 10)])"

declare show_nat.simps [simp del]

lemma digit_of_nat:
  "d < 10 \<Longrightarrow> is_digit (char_of (48 + d)) \<and> digit_val (char_of (48 + d)) = (d :: nat)"
  by (simp add: is_digit_def digit_val_def)

lemma show_nat_digits: "c \<in> set (show_nat n) \<Longrightarrow> is_digit c"
proof (induction n rule: show_nat.induct)
  case (1 n)
  then show ?case
    using digit_of_nat by (subst (asm) (2) show_nat.simps) (auto split: if_splits)
qed

lemma show_nat_fold: "fold (\<lambda>c n. 10 * n + digit_val c) (show_nat n) 0 = n"
proof (induction n rule: show_nat.induct)
  case (1 n)
  show ?case
  proof (cases "n < 10")
    case True
    then show ?thesis using digit_of_nat by (simp add: show_nat.simps)
  next
    case False
    then have "show_nat n = show_nat (n div 10) @ [char_of (48 + n mod 10)]"
      by (simp add: show_nat.simps)
    with 1 False digit_of_nat [of "n mod 10"] show ?thesis by simp
  qed
qed

lemma digits_val_show:
  assumes "rest = [] \<or> \<not> is_digit (hd rest)"
  shows "digits_val (show_nat n @ rest) = n"
proof -
  have "takeWhile is_digit (show_nat n @ rest) = show_nat n"
    using assms show_nat_digits by (cases rest) (auto simp: takeWhile_append2)
  then show ?thesis by (simp add: digits_val_def show_nat_fold)
qed

lemma show_nat_ne: "show_nat n \<noteq> []"
  by (subst show_nat.simps) simp

lemma not_space_digit: "is_digit c \<Longrightarrow> \<not> is_space c"
  by (auto simp: is_digit_def is_space_def)

lemma atoi_show:
  assumes "rest = [] \<or> \<not> is_digit (hd rest)" and "n < 2 ^ 31"
  shows "atoi (show_nat n @ rest) = Inr (int n)"
proof -
  obtain c cs where c: "show_nat n = c # cs" using show_nat_ne by (cases "show_nat n") auto
  then have d: "is_digit c" using show_nat_digits [of c n] by simp
  then have "c \<noteq> CHR ''-''" "c \<noteq> CHR ''+''" by (auto simp: is_digit_def)
  moreover have "dropWhile is_space (show_nat n @ rest) = c # cs @ rest"
    using c not_space_digit [OF d] by simp
  moreover have "digits_val (c # cs @ rest) = n" using digits_val_show [OF assms(1), of n] c by simp
  ultimately show ?thesis using assms(2) by (simp add: atoi_def)
qed

end
