(* ===== verification/Router.thy ===== *)
theory Router
  imports EventChannel CString
begin

text \<open>
  The state of the router of \<^verbatim>\<open>src/tools/pwrdaemon/router\<close>, its route table, the cores
  that pick the channel to another router, and how an event is sent on
  (\<^verbatim>\<open>router.h\<close>, \<^verbatim>\<open>router.cc\<close>, \<^verbatim>\<open>treeCore\<close>, \<^verbatim>\<open>torusCore\<close>,
  \<^verbatim>\<open>serverEvents.h\<close>, \<^verbatim>\<open>commRespEvent.h\<close>, \<^verbatim>\<open>commLogEvents.h\<close>). Events and request records
  live on heaps, so that the ownership of an event that is queued, forwarded or answered is
  part of the model; a \<^verbatim>\<open>CommReqInfo*\<close> travels as the id of an event, as in the code.
  A channel is a number, and \<open>outq\<close> is the sequence of events handed to channels.
\<close>

section \<open>State\<close>

type_synonym chan = nat

record ABC =
  a_send :: "chan option"
  a_recv :: "chan option"
  nidStart :: u32
  nidStop :: u32

datatype RouterCore = TreeCore "ABC list" | TorusCore "ABC list list"

record CommReqInfo =
  i_src :: chan
  i_ev :: addr
  i_grpInfo :: "nat list"
  i_pending :: u64
  i_valueOp :: "ValueOp list"
  i_respQ :: "addr list list"
  i_resp :: addr

datatype rtr_role = RClient | RServer | RRouter

datatype SelectData = AcceptData rtr_role | EventData rtr_role | RouterData

record RState =
  rtrId :: u32
  rcore :: RouterCore
  routeTable :: "string \<rightharpoonup> u64"
  localMap :: "u32 \<rightharpoonup> chan option"
  serverMap :: "chan \<rightharpoonup> string"
  clientMap :: "chan \<rightharpoonup> (u64 \<times> addr) list"
  pendingEvents :: "u64 \<rightharpoonup> addr list"
  evs :: "AnyEvent heap"
  infos :: "CommReqInfo heap"
  isOpen :: "chan \<Rightarrow> bool"
  chans :: "chan \<rightharpoonup> SelectData"
  outq :: "(chan \<times> AnyEvent) list"
  junk :: u64

text \<open>
  \<open>junk\<close> is what an uninitialised word reads. \<open>clientMap\<close> holds the communicators of a
  client in the order of their ids, as the \<^verbatim>\<open>std::map\<close> iterates them.
\<close>

section \<open>Heap access\<close>

definition ev_get :: "addr \<Rightarrow> RState \<Rightarrow> AnyEvent res" where
  "ev_get a st = heap_get (evs st) a"

definition ev_new :: "AnyEvent \<Rightarrow> RState \<Rightarrow> addr \<times> RState" where
  "ev_new ev st = (length (evs st), st\<lparr>evs := evs st @ [Some ev]\<rparr>)"

definition ev_set :: "addr \<Rightarrow> AnyEvent \<Rightarrow> RState \<Rightarrow> RState res" where
  "ev_set a ev st = rbind (heap_set a ev (evs st)) (\<lambda>h. Inr (st\<lparr>evs := h\<rparr>))"

definition ev_free :: "addr \<Rightarrow> RState \<Rightarrow> RState res" where
  "ev_free a st = rbind (heap_free a (evs st)) (\<lambda>h. Inr (st\<lparr>evs := h\<rparr>))"

text \<open>The pointer an event id carries; 0 is the null pointer.\<close>

definition info_ptr :: "addr \<Rightarrow> u64" where
  "info_ptr k = of_nat (Suc k)"

definition info_get :: "u64 \<Rightarrow> RState \<Rightarrow> CommReqInfo res" where
  "info_get p st = (if p = 0 then Inl NullDeref else heap_get (infos st) (unat p - 1))"

definition info_set :: "u64 \<Rightarrow> CommReqInfo \<Rightarrow> RState \<Rightarrow> RState res" where
  "info_set p i st =
     rbind (info_get p st) (\<lambda>_. Inr (st\<lparr>infos := (infos st)[unat p - 1 := Some i]\<rparr>))"

definition info_free :: "u64 \<Rightarrow> RState \<Rightarrow> RState res" where
  "info_free p st =
     rbind (info_get p st) (\<lambda>_. Inr (st\<lparr>infos := (infos st)[unat p - 1 := None]\<rparr>))"

definition chan_send :: "chan \<Rightarrow> AnyEvent \<Rightarrow> RState \<Rightarrow> RState res" where
  "chan_send c ev st =
     (if isOpen st c then Inr (st\<lparr>outq := outq st @ [(c, ev)]\<rparr>) else Inl NullDeref)"

section \<open>Identifiers and routes\<close>

definition RTR_ID :: "u64 \<Rightarrow> u32" where
  "RTR_ID x = ucast (drop_bit 32 x)"

definition SERVER_ID :: "u64 \<Rightarrow> u32" where
  "SERVER_ID x = ucast (x AND 0xffffffff)"

definition APP_ID :: "u32 \<Rightarrow> u32 \<Rightarrow> u64" where
  "APP_ID rtr server = push_bit 32 (ucast rtr) OR ucast server"

definition findRoute :: "string \<Rightarrow> RState \<Rightarrow> u64" where
  "findRoute i st = (case routeTable st i of None \<Rightarrow> - 1 | Some v \<Rightarrow> v)"

definition findDestApp :: "string \<Rightarrow> RState \<Rightarrow> u64" where
  "findDestApp i st = findRoute i st"

text \<open>One line \<^verbatim>\<open>name:router:server\<close> of the route file.\<close>

definition route_line :: "string \<Rightarrow> (string \<rightharpoonup> u64) \<Rightarrow> (string \<rightharpoonup> u64) res" where
  "route_line line tbl =
     (let pos1 = pos_val (find_first_of CHR '':'' line);
          pos2 = pos_val (find_last_of CHR '':'' line) in
      rbind (substr line (pos_inc pos1) (pos_dec pos2)) (\<lambda>s1.
      rbind (atoi s1) (\<lambda>rtrID.
      rbind (substr line (pos_inc pos2) npos) (\<lambda>s2.
      rbind (atoi s2) (\<lambda>srvrID.
      rbind (substr line 0 pos1) (\<lambda>nm.
      Inr (tbl(nm \<mapsto> APP_ID (word_of_int rtrID) (word_of_int srvrID)))))))))"

definition initRouteTable :: "string option \<Rightarrow> RState \<Rightarrow> RState res" where
  "initRouteTable file st =
     (case file of None \<Rightarrow> Inl AssertFail
      | Some txt \<Rightarrow>
          rbind (foldM route_line (lines_before_eof [] txt) (routeTable st))
            (\<lambda>tbl. Inr (st\<lparr>routeTable := tbl\<rparr>)))"

section \<open>Channels to servers and routers\<close>

fun tree_search :: "u32 \<Rightarrow> ABC list \<Rightarrow> ABC option" where
  "tree_search i [] = None"
| "tree_search i (l # ls) =
     (if nidStart l \<le> i \<and> i \<le> nidStop l then Some l else tree_search i ls)"

definition TreeCore_getChannel :: "ABC list \<Rightarrow> u32 \<Rightarrow> chan option res" where
  "TreeCore_getChannel links i =
     (case links of [] \<Rightarrow> Inr None
      | l0 # ls \<Rightarrow>
          (case tree_search i ls of Some l \<Rightarrow> Inr (a_send l) | None \<Rightarrow> Inr (a_send l0)))"

definition TorusCore_getChannel :: "ABC list list \<Rightarrow> u32 \<Rightarrow> chan option res" where
  "TorusCore_getChannel links i =
     rbind (aread links 0) (\<lambda>d. rbind (aread d 0) (\<lambda>l. Inr (a_send l)))"

definition findRtrChan :: "u32 \<Rightarrow> RState \<Rightarrow> chan option res" where
  "findRtrChan i st =
     (case rcore st of TreeCore ls \<Rightarrow> TreeCore_getChannel ls i
      | TorusCore ls \<Rightarrow> TorusCore_getChannel ls i)"

text \<open>\<^verbatim>\<open>m_localMap[id]\<close> enters a null channel when there is none.\<close>

definition findServerChan :: "u32 \<Rightarrow> RState \<Rightarrow> chan option \<times> RState" where
  "findServerChan i st =
     (if i = - 1 then (None, st)
      else case localMap st i of
        Some c \<Rightarrow> (c, st)
      | None \<Rightarrow> (None, st\<lparr>localMap := (localMap st)(i \<mapsto> None)\<rparr>))"

section \<open>Pending events and servers\<close>

text \<open>\<^verbatim>\<open>m_pendingEvents\<close> is keyed by application ids; the code uses server ids.\<close>

definition pending_push :: "u32 \<Rightarrow> addr \<Rightarrow> RState \<Rightarrow> RState" where
  "pending_push srvrID a st =
     (let q = (case pendingEvents st (ucast srvrID) of None \<Rightarrow> [] | Some q \<Rightarrow> q) in
      st\<lparr>pendingEvents := (pendingEvents st)(ucast srvrID \<mapsto> q @ [a])\<rparr>)"

definition doPending :: "u32 \<Rightarrow> RState \<Rightarrow> RState res" where
  "doPending i st =
     (case pendingEvents st (ucast i) of None \<Rightarrow> Inr st
      | Some q \<Rightarrow>
          (case findServerChan i st of (ec, st) \<Rightarrow>
             rbind (assert_c (ec \<noteq> None)) (\<lambda>_.
             rbind (foldM (\<lambda>a st. rbind (ev_get a st) (\<lambda>ev. chan_send (the ec) ev st)) q st) (\<lambda>st.
             Inr (st\<lparr>pendingEvents := (pendingEvents st)(ucast i := None)\<rparr>)))))"

text \<open>
  \<^verbatim>\<open>assert( (unsigned) -1 != id )\<close> compares a 32-bit value with a 64-bit one.
\<close>

definition addServer :: "string \<Rightarrow> chan option \<Rightarrow> RState \<Rightarrow> (u32 \<times> RState) res" where
  "addServer nm ec st =
     (let i = findRoute nm st in
      rbind (assert_c (ucast (- 1 :: u32) \<noteq> i)) (\<lambda>_.
      let st = st\<lparr>localMap := (localMap st)(SERVER_ID i \<mapsto> ec)\<rparr> in
      rbind (deref ec) (\<lambda>c.
      rbind (deref (serverMap st c)) (\<lambda>_.
      Inr (SERVER_ID i, st\<lparr>serverMap := (serverMap st)(c \<mapsto> nm)\<rparr>)))))"

definition delServer :: "string \<Rightarrow> RState \<Rightarrow> RState" where
  "delServer nm st = st\<lparr>localMap := (localMap st)(0 := None)\<rparr>"

definition RtrServerConnect_process ::
    "ServerConnectEvent \<Rightarrow> chan option \<Rightarrow> RState \<Rightarrow> (bool \<times> RState) res" where
  "RtrServerConnect_process this ec st =
     rbind (addServer (sc_name this) ec st) (\<lambda>(i, st).
     rbind (doPending i st) (\<lambda>st. Inr (True, st)))"

section \<open>Responses\<close>

definition as_CommResp :: "AnyEvent \<Rightarrow> CommRespEvent res" where
  "as_CommResp ev = (case ev of EvCommResp r \<Rightarrow> Inr r | _ \<Rightarrow> Inl Unspecified)"

definition as_CommLogResp :: "AnyEvent \<Rightarrow> CommLogRespEvent res" where
  "as_CommLogResp ev = (case ev of EvCommLogResp r \<Rightarrow> Inr r | _ \<Rightarrow> Inl Unspecified)"

definition as_CommGetSamplesResp :: "AnyEvent \<Rightarrow> CommGetSamplesRespEvent res" where
  "as_CommGetSamplesResp ev =
     (case ev of EvCommGetSamplesResp r \<Rightarrow> Inr r | _ \<Rightarrow> Inl Unspecified)"

definition any_op :: "AnyEvent \<Rightarrow> OpType res" where
  "any_op ev =
     (case ev of EvCommReq e \<Rightarrow> Inr (op e) | EvCommLogReq e \<Rightarrow> Inr (op e)
      | EvCommGetSamplesReq e \<Rightarrow> Inr (op e) | _ \<Rightarrow> Inl Unspecified)"

definition resp_get :: "addr \<Rightarrow> RState \<Rightarrow> CommRespEvent res" where
  "resp_get a st = rbind (ev_get a st) as_CommResp"

text \<open>\<^verbatim>\<open>std::vector::resize\<close> of words.\<close>

definition resize :: "nat \<Rightarrow> 'a \<Rightarrow> 'a list \<Rightarrow> 'a list" where
  "resize n x xs = take n xs @ replicate (n - length xs) x"

definition fpAdd :: "u64 \<Rightarrow> u64 \<Rightarrow> u64" where
  "fpAdd inout inp = fadd inout inp"

text \<open>The inner loop over the attributes for one queued response.\<close>

fun resp_add_attrs ::
    "ValueOp list \<Rightarrow> CommRespEvent \<Rightarrow> nat \<Rightarrow> u64 list \<times> u64 list \<Rightarrow> (u64 list \<times> u64 list) res" where
  "resp_add_attrs [] r i (vs, ts) = Inr (vs, ts)"
| "resp_add_attrs (vo # vos) r i (vs, ts) =
     rbind (assert_c (FP_ADD = vo)) (\<lambda>_.
     rbind (rbind (aread (r_value r) 0) (\<lambda>v0. aread v0 i)) (\<lambda>v.
     rbind (aread vs i) (\<lambda>acc.
     rbind (awrite vs i (fpAdd acc v)) (\<lambda>vs.
     rbind (rbind (aread (r_timeStamp r) 0) (\<lambda>t0. aread t0 i)) (\<lambda>t.
     rbind (awrite ts i t) (\<lambda>ts.
     resp_add_attrs vos r (Suc i) (vs, ts)))))))"

definition resp_add_all ::
    "ValueOp list \<Rightarrow> CommRespEvent list \<Rightarrow> u64 list \<times> u64 list \<Rightarrow> (u64 list \<times> u64 list) res" where
  "resp_add_all vos rs acc = foldM (\<lambda>r. resp_add_attrs vos r 0) rs acc"

definition resp_collect_values ::
    "nat \<Rightarrow> ValueOp list \<Rightarrow> CommRespEvent list \<Rightarrow> CommRespEvent \<Rightarrow> CommRespEvent res" where
  "resp_collect_values g vos rs resp =
     rbind (aread (r_timeStamp resp) g) (\<lambda>ts.
     rbind (aread (r_value resp) g) (\<lambda>vs.
     rbind (resp_add_all vos rs
              (replicate (length vos) 0, resize (length vos) 0 ts)) (\<lambda>(vs, ts).
     Inr (resp\<lparr>r_timeStamp := (r_timeStamp resp)[g := ts], r_value := (r_value resp)[g := vs]\<rparr>))))"

fun mapM_res :: "('a \<Rightarrow> 'b res) \<Rightarrow> 'a list \<Rightarrow> 'b list res" where
  "mapM_res f [] = Inr []"
| "mapM_res f (x # xs) = rbind (f x) (\<lambda>y. rbind (mapM_res f xs) (\<lambda>ys. Inr (y # ys)))"

text \<open>
  The loop that appends the errors of each queued response and deletes all but the last,
  which is the event being processed.
\<close>

fun resp_collect_errs :: "addr list \<Rightarrow> CommRespEvent \<Rightarrow> RState \<Rightarrow> (CommRespEvent \<times> RState) res" where
  "resp_collect_errs [] resp st = Inr (resp, st)"
| "resp_collect_errs (a # as) resp st =
     rbind (resp_get a st) (\<lambda>r.
     let resp = resp\<lparr>r_errValue := r_errValue resp @ r_errValue r,
                     r_errAttr := r_errAttr resp @ r_errAttr r,
                     r_errObj := r_errObj resp @ r_errObj r\<rparr> in
     rbind (if as = [] then Inr st else ev_free a st) (\<lambda>st.
     resp_collect_errs as resp st))"

definition CommReqInfo_delete :: "u64 \<Rightarrow> CommReqInfo \<Rightarrow> RState \<Rightarrow> RState res" where
  "CommReqInfo_delete p info st =
     rbind (ev_free (i_resp info) st) (\<lambda>st.
     rbind (ev_free (i_ev info) st) (\<lambda>st.
     info_free p st))"

definition RtrCommResp_complete ::
    "u64 \<Rightarrow> nat \<Rightarrow> CommReqInfo \<Rightarrow> addr list \<Rightarrow> RState \<Rightarrow> RState res" where
  "RtrCommResp_complete p g info q st =
     rbind (resp_get (i_resp info) st) (\<lambda>resp.
     rbind (rbind (ev_get (i_ev info) st) any_op) (\<lambda>o'.
     rbind (if o' = OpGet
            then rbind (mapM_res (\<lambda>a. resp_get a st) q)
                   (\<lambda>rs. resp_collect_values g (i_valueOp info) rs resp)
            else Inr resp) (\<lambda>resp.
     rbind (resp_collect_errs q resp st) (\<lambda>(resp, st).
     let resp = resp\<lparr>r_grpIndex := 0, commID := 0\<rparr>; info = info\<lparr>i_pending := i_pending info - 1\<rparr> in
     rbind (ev_set (i_resp info) (EvCommResp resp) st) (\<lambda>st.
     rbind (info_set p info st) (\<lambda>st.
     if i_pending info = 0
     then rbind (chan_send (i_src info) (EvCommResp resp) st) (CommReqInfo_delete p info)
     else Inr st))))))"

definition RtrCommResp_process :: "addr \<Rightarrow> RState \<Rightarrow> (bool \<times> RState) res" where
  "RtrCommResp_process a st =
     rbind (resp_get a st) (\<lambda>this.
     let p = ev_id this; g = unat (r_grpIndex this) in
     rbind (info_get p st) (\<lambda>info.
     rbind (aread (i_respQ info) g) (\<lambda>q.
     let q = q @ [a]; info = info\<lparr>i_respQ := (i_respQ info)[g := q]\<rparr> in
     rbind (info_set p info st) (\<lambda>st.
     rbind (aread (i_grpInfo info) g) (\<lambda>n.
     if length q = n
     then rbind (RtrCommResp_complete p g info q st) (\<lambda>st. Inr (True, st))
     else Inr (False, st))))))"

text \<open>
  \<^verbatim>\<open>operator=\<close> of \<^verbatim>\<open>CommLogRespEvent\<close> and \<^verbatim>\<open>CommGetSamplesRespEvent\<close>
  copies the members of the class itself only; type, id and communicator stay.
\<close>

definition CommLogRespEvent_assign :: "CommLogRespEvent \<Rightarrow> CommLogRespEvent \<Rightarrow> CommLogRespEvent" where
  "CommLogRespEvent_assign x other =
     x\<lparr>l_errObj := l_errObj other, l_errAttr := l_errAttr other, l_errValue := l_errValue other\<rparr>"

definition CommGetSamplesRespEvent_assign ::
    "CommGetSamplesRespEvent \<Rightarrow> CommGetSamplesRespEvent \<Rightarrow> CommGetSamplesRespEvent" where
  "CommGetSamplesRespEvent_assign x other =
     x\<lparr>sr_errObj := sr_errObj other, sr_errAttr := sr_errAttr other,
       sr_errValue := sr_errValue other, sr_startTime := sr_startTime other,
       sr_count := sr_count other, sr_data := sr_data other\<rparr>"

definition RtrCommLogResp_process :: "CommLogRespEvent \<Rightarrow> RState \<Rightarrow> (bool \<times> RState) res" where
  "RtrCommLogResp_process this st =
     rbind (info_get (ev_id this) st) (\<lambda>info.
     rbind (rbind (ev_get (i_resp info) st) as_CommLogResp) (\<lambda>resp.
     let resp = CommLogRespEvent_assign resp this in
     rbind (ev_set (i_resp info) (EvCommLogResp resp) st) (\<lambda>st.
     rbind (chan_send (i_src info) (EvCommLogResp resp) st) (\<lambda>st.
     rbind (CommReqInfo_delete (ev_id this) info st) (\<lambda>st. Inr (True, st))))))"

definition RtrCommGetSamplesResp_process ::
    "CommGetSamplesRespEvent \<Rightarrow> RState \<Rightarrow> (bool \<times> RState) res" where
  "RtrCommGetSamplesResp_process this st =
     rbind (info_get (ev_id this) st) (\<lambda>info.
     rbind (rbind (ev_get (i_resp info) st) as_CommGetSamplesResp) (\<lambda>resp.
     let resp = CommGetSamplesRespEvent_assign resp this in
     rbind (ev_set (i_resp info) (EvCommGetSamplesResp resp) st) (\<lambda>st.
     rbind (chan_send (i_src info) (EvCommGetSamplesResp resp) st) (\<lambda>st.
     rbind (CommReqInfo_delete (ev_id this) info st) (\<lambda>st. Inr (False, st))))))"

text \<open>The events that reach \<^verbatim>\<open>process\<close> without sending through the router again.\<close>

definition process_leaf :: "addr \<Rightarrow> chan option \<Rightarrow> RState \<Rightarrow> (bool \<times> RState) res" where
  "process_leaf a ec st =
     rbind (ev_get a st) (\<lambda>ev.
     case ev of
       EvServerConnect e \<Rightarrow> RtrServerConnect_process e ec st
     | EvCommResp _ \<Rightarrow> RtrCommResp_process a st
     | EvCommLogResp e \<Rightarrow> RtrCommLogResp_process e st
     | EvCommGetSamplesResp e \<Rightarrow> RtrCommGetSamplesResp_process e st
     | _ \<Rightarrow> Inr (False, st))"

section \<open>Sending\<close>

text \<open>\<^verbatim>\<open>new RouterEvent( src, dest, ev )\<close>.\<close>

definition new_RouterEvent :: "u64 \<Rightarrow> u64 \<Rightarrow> AnyEvent \<Rightarrow> RouterEvent res" where
  "new_RouterEvent src dest ev =
     rbind (any_serialize_out ev []) (\<lambda>p.
     case enum_decode eventtype_code all_eventtypes (sint (any_type ev)) of
       None \<Rightarrow> Inl Unspecified
     | Some t \<Rightarrow>
         Inr \<lparr>ev_type = type_word Router2Router, ev_id = 0, ev_status = 0,
              rt_src = src, rt_dest = dest, rt_eventType = t, rt_payload = p\<rparr>)"

text \<open>The payload is parsed in place: what is left of the buffer stays in the event.\<close>

definition getPayload :: "alloc_func \<Rightarrow> RouterEvent \<Rightarrow> (AnyEvent \<times> buf) res" where
  "getPayload alloc re = alloc (type_word (rt_eventType re)) (rt_payload re)"

definition as_Router :: "AnyEvent \<Rightarrow> RouterEvent res" where
  "as_Router ev = (case ev of EvRouter r \<Rightarrow> Inr r | _ \<Rightarrow> Inl Unspecified)"

text \<open>
  The end of \<^verbatim>\<open>sendEvent\<close>: without a channel the event waits for its server,
  otherwise it is sent, and deleted when it was made here.
\<close>

definition deliver :: "chan option \<Rightarrow> u32 \<Rightarrow> addr \<Rightarrow> bool \<Rightarrow> RState \<Rightarrow> RState res" where
  "deliver ec srvrID a made st =
     (case ec of
        None \<Rightarrow> Inr (pending_push srvrID a st)
      | Some c \<Rightarrow>
          rbind (ev_get a st) (\<lambda>ev.
          rbind (chan_send c ev st) (\<lambda>st.
          if made then ev_free a st else Inr st)))"

definition next_hop :: "u64 \<Rightarrow> RState \<Rightarrow> (chan option \<times> RState) res" where
  "next_hop dest st =
     (if RTR_ID dest = rtrId st then Inr (findServerChan (SERVER_ID dest) st)
      else rbind (findRtrChan (RTR_ID dest) st) (\<lambda>ec.
           rbind (assert_c (ec \<noteq> None)) (\<lambda>_. Inr (ec, st))))"

definition payload_len :: "addr \<Rightarrow> RState \<Rightarrow> nat" where
  "payload_len a st =
     (case ev_get a st of Inr (EvRouter r) \<Rightarrow> length (rt_payload r) | _ \<Rightarrow> 0)"

lemma get_list_length:
  assumes "\<And>b x b'. g b = Inr (x, b') \<Longrightarrow> length b' < length b"
  shows "get_list g n acc b = Inr (xs, b') \<Longrightarrow> length xs + length b' \<le> length acc + length b"
proof (induction n arbitrary: acc b)
  case (Suc n)
  then obtain x c where "g b = Inr (x, c)" "get_list g n (x # acc) c = Inr (xs, b')"
    by (auto simp: rbind_eq_Inr)
  with Suc.IH [of "x # acc" c] assms [of b x c] show ?case by simp
qed simp

lemma ser_in_length: "ser_in n b = Inr (t, b') \<Longrightarrow> length b' + n = length b"
proof -
  have "ser_in_loop n acc b = Inr (t, b') \<Longrightarrow> length b' + n = length b" for acc
    by (induction n arbitrary: acc b) (auto split: if_splits simp: Suc_leI Nat.le_diff_conv2)
  then show "ser_in n b = Inr (t, b') \<Longrightarrow> length b' + n = length b" by (simp add: ser_in_def)
qed

lemma RouterEvent_payload_shrinks:
  assumes "RouterEvent_serialize_in ev b = Inr (e, b')"
  shows "length (rt_payload e) < length b"
proof -
  from assms obtain p c where p: "get_vec get_u8 b = Inr (p, c)" and e: "rt_payload e = p"
    by (auto simp: RouterEvent_serialize_in_def Event_serialize_in_def rbind_eq_Inr)
  from p obtain n d where d: "get_u64 b = Inr (n, d)" "get_list get_u8 (unat n) [] d = Inr (p, c)"
    by (auto simp: get_vec_def rbind_eq_Inr split: if_splits)
  have "length p + length c \<le> length d"
    using get_list_length [OF _ d(2)] by (fastforce simp: get_u8_def rbind_eq_Inr dest: ser_in_length)
  moreover have "length d + 8 = length b" using d(1) by (auto simp: get_u64_def dest: ser_in_length)
  ultimately show ?thesis using e by simp
qed

lemma getPayload_shrinks:
  assumes "getPayload (alloc_switch cs) re = Inr (EvRouter r, b)"
  shows "length (rt_payload r) < length (rt_payload re)"
proof -
  from assms obtain t where t: "new_from_buf t (rt_payload re) = Inr (EvRouter r, b)"
    by (auto simp: getPayload_def alloc_switch_def split: option.splits)
  then have "t = Router2Router" by (cases t) (auto simp: rbind_eq_Inr)
  with t show ?thesis by (auto simp: rbind_eq_Inr intro: RouterEvent_payload_shrinks)
qed

lemma ev_get_new: "ev_new ev st = (a, st') \<Longrightarrow> ev_get a st' = Inr ev"
  by (auto simp: ev_new_def ev_get_def heap_get_def)

text \<open>
  \<^verbatim>\<open>Router::sendEvent( AppID, Event* )\<close>. An event for the router itself carries a
  response or a server's connect; it is processed here, and it may carry another routed event.
\<close>

function Router_sendEvent :: "u64 \<Rightarrow> addr \<Rightarrow> RState \<Rightarrow> RState res" where
  "Router_sendEvent dest a st =
     rbind (next_hop dest st) (\<lambda>(ec, st1).
     rbind (ev_get a st) (\<lambda>ev.
     if any_type ev = type_word Router2Router then
       rbind (as_Router ev) (\<lambda>re.
       if RTR_ID dest = rtrId st \<and> SERVER_ID dest = - 1 then
         rbind (getPayload router_allocServerEvent re) (\<lambda>(pev, rest).
         rbind (ev_set a (EvRouter (re\<lparr>rt_payload := rest\<rparr>)) st1) (\<lambda>st2.
         case ev_new pev st2 of (pa, st3) \<Rightarrow>
         (case pev of
            EvRouter re' \<Rightarrow> rbind (Router_sendEvent (rt_dest re') pa st3) (ev_free pa)
          | _ \<Rightarrow> rbind (process_leaf pa None st3)
                 (\<lambda>(del, st4). if del then ev_free pa st4 else Inr st4))))
       else deliver ec (SERVER_ID dest) a False st1)
     else
       rbind (new_RouterEvent (APP_ID (rtrId st) (- 1)) dest ev) (\<lambda>re.
       case ev_new (EvRouter re) st1 of (ra, st2) \<Rightarrow> deliver ec (SERVER_ID dest) ra True st2)))"
  by auto

termination
proof (relation "measure (\<lambda>(dest, a, st). payload_len a st)")
  show "wf (measure (\<lambda>(dest, a, st). payload_len a st))" by simp
next
  fix dest a st x ec st1 ev re y pev rest st2 pa st3 re'
  assume "ev_get a st = Inr ev" "as_Router ev = Inr re" "(pev, rest) = y"
    and "getPayload router_allocServerEvent re = Inr y"
    and "(pa, st3) = ev_new pev st2" and pev: "pev = EvRouter re'"
  then have gp: "getPayload router_allocServerEvent re = Inr (pev, rest)"
    and "payload_len a st = length (rt_payload re)" "ev_get pa st3 = Inr pev"
    using ev_get_new [of pev st2 pa st3]
    by (auto simp: payload_len_def as_Router_def split: AnyEvent.splits)
  with gp pev getPayload_shrinks
  show "((rt_dest re', pa, st3), dest, a, st) \<in> measure (\<lambda>(dest, a, st). payload_len a st)"
    by (auto simp: payload_len_def router_allocServerEvent_def)
qed

declare Router_sendEvent.simps [simp del]

end
