(* ===== verification/RouterProc.thy ===== *)
theory RouterProc
  imports Router
begin

text \<open>
  What the router does with the events of its clients, servers and peers, and its select loop
  (\<^verbatim>\<open>commCreateEvent.cc\<close>, \<^verbatim>\<open>commReqEvent.h\<close>, \<^verbatim>\<open>commLogEvents.h\<close>,
  \<^verbatim>\<open>commGetSamplesEvent.h\<close>, \<^verbatim>\<open>rtrRouterEvent.h\<close>, \<^verbatim>\<open>client.cc\<close>,
  \<^verbatim>\<open>routerSelect.cc\<close>). A step of the router is one channel becoming ready.
\<close>

section \<open>Sending to an object\<close>

text \<open>\<^verbatim>\<open>Router::sendEvent( ObjID, Event* )\<close>; the comparison is again of 32 with 64 bits.\<close>

definition Router_sendEvent_obj :: "string \<Rightarrow> addr \<Rightarrow> RState \<Rightarrow> RState res" where
  "Router_sendEvent_obj destObj a st =
     (let destID = findDestApp destObj st in
      if ucast (- 1 :: u32) = destID then Inr st else Router_sendEvent destID a st)"

section \<open>Clients\<close>

definition getClient :: "chan \<Rightarrow> RState \<Rightarrow> (u64 \<times> addr) list res" where
  "getClient ec st = rbind (assert_c (clientMap st ec \<noteq> None)) (\<lambda>_. deref (clientMap st ec))"

definition addComm :: "u64 \<Rightarrow> addr \<Rightarrow> (u64 \<times> addr) list \<Rightarrow> (u64 \<times> addr) list res" where
  "addComm i a m = rbind (assert_c (map_of m i = None)) (\<lambda>_. Inr (insort_key fst (i, a) m))"

definition as_CommCreate :: "AnyEvent \<Rightarrow> CommCreateEvent res" where
  "as_CommCreate ev = (case ev of EvCommCreate e \<Rightarrow> Inr e | _ \<Rightarrow> Inl Unspecified)"

definition getCommList :: "u64 \<Rightarrow> (u64 \<times> addr) list \<Rightarrow> RState \<Rightarrow> string list list res" where
  "getCommList i m st =
     rbind (deref (map_of m i)) (\<lambda>a.
     rbind (rbind (ev_get a st) as_CommCreate) (\<lambda>e. Inr (members e)))"

definition new_CommCreateEvent :: "u64 \<Rightarrow> string list list \<Rightarrow> CommCreateEvent" where
  "new_CommCreateEvent i ms =
     \<lparr>ev_type = type_word CommCreate, ev_id = 0, ev_status = 0, commID = i, op = Noop, members = ms\<rparr>"

definition new_CommDestroyEvent :: "u64 \<Rightarrow> CommEvent" where
  "new_CommDestroyEvent i =
     \<lparr>ev_type = type_word CommDestroy, ev_id = 0, ev_status = 0, commID = i, op = Noop\<rparr>"

text \<open>An event made for one object, sent and deleted.\<close>

definition send_temp :: "string \<Rightarrow> AnyEvent \<Rightarrow> RState \<Rightarrow> RState res" where
  "send_temp i ev st =
     (case ev_new ev st of (a, st) \<Rightarrow> rbind (Router_sendEvent_obj i a st) (ev_free a))"

definition RtrCommCreate_process :: "addr \<Rightarrow> chan \<Rightarrow> RState \<Rightarrow> (bool \<times> RState) res" where
  "RtrCommCreate_process a ec st =
     rbind (rbind (ev_get a st) as_CommCreate) (\<lambda>this.
     rbind (getClient ec st) (\<lambda>client.
     rbind (addComm (commID this) a client) (\<lambda>client.
     let st = st\<lparr>clientMap := (clientMap st)(ec \<mapsto> client)\<rparr> in
     rbind (foldM (foldM (\<lambda>m. send_temp m (EvCommCreate (new_CommCreateEvent (commID this) [[m]]))))
              (members this) st) (\<lambda>st. Inr (False, st)))))"

definition addClientChan :: "chan \<Rightarrow> RState \<Rightarrow> RState" where
  "addClientChan ec st = st\<lparr>clientMap := (clientMap st)(ec \<mapsto> [])\<rparr>"

definition destroy_comm :: "u64 \<times> addr \<Rightarrow> RState \<Rightarrow> RState res" where
  "destroy_comm kv st =
     rbind (rbind (ev_get (snd kv) st) as_CommCreate) (\<lambda>ev.
     rbind (aread (members ev) 0) (\<lambda>ms.
     rbind (foldM (\<lambda>m. send_temp m (EvCommDestroy (new_CommDestroyEvent (commID ev)))) ms st)
       (ev_free (snd kv))))"

text \<open>
  \<^verbatim>\<open>delete m_clientMap[ec]\<close> runs the destructor of the client, which gives up its
  communicators; deleting a null pointer does nothing.
\<close>

definition delClientChan :: "chan \<Rightarrow> RState \<Rightarrow> RState res" where
  "delClientChan ec st =
     rbind (foldM destroy_comm (case clientMap st ec of None \<Rightarrow> [] | Some m \<Rightarrow> m) st) (\<lambda>st.
     Inr (st\<lparr>clientMap := (clientMap st)(ec := None)\<rparr>))"

definition addServerChan :: "chan \<Rightarrow> RState \<Rightarrow> RState" where
  "addServerChan ec st = st\<lparr>serverMap := (serverMap st)(ec \<mapsto> [])\<rparr>"

definition delServerChan :: "chan \<Rightarrow> RState \<Rightarrow> RState" where
  "delServerChan ec st =
     (let st = (case serverMap st ec of None \<Rightarrow> st | Some nm \<Rightarrow> delServer nm st) in
      st\<lparr>serverMap := (serverMap st)(ec := None)\<rparr>)"

section \<open>Requests\<close>

definition info_new :: "CommReqInfo \<Rightarrow> RState \<Rightarrow> u64 \<times> RState" where
  "info_new i st = (info_ptr (length (infos st)), st\<lparr>infos := infos st @ [Some i]\<rparr>)"

definition new_CommRespEvent :: "u64 \<Rightarrow> u64 \<Rightarrow> CommRespEvent" where
  "new_CommRespEvent jk i =
     \<lparr>ev_type = type_word CommResp, ev_id = i, ev_status = 0, commID = jk, op = Noop,
      r_timeStamp = [], r_value = [], r_grpIndex = jk, r_errObj = [], r_errAttr = [], r_errValue = []\<rparr>"

definition new_CommLogRespEvent :: "u64 \<Rightarrow> u64 \<Rightarrow> CommLogRespEvent" where
  "new_CommLogRespEvent jk i =
     \<lparr>ev_type = type_word CommLogResp, ev_id = i, ev_status = 0, commID = jk, op = Noop,
      l_errObj = [], l_errAttr = [], l_errValue = []\<rparr>"

definition new_CommGetSamplesRespEvent :: "u64 \<Rightarrow> u64 \<Rightarrow> CommGetSamplesRespEvent" where
  "new_CommGetSamplesRespEvent jk i =
     \<lparr>ev_type = type_word CommGetSamplesResp, ev_id = i, ev_status = 0, commID = jk, op = Noop,
      sr_startTime = jk, sr_count = ucast jk, sr_data = [], sr_errObj = [], sr_errAttr = [],
      sr_errValue = []\<rparr>"

text \<open>
  The loop over the groups: the size of the group is recorded before its requests go out, and
  the request is the one event object, with its group index changed in place.
\<close>

fun RtrCommReq_groups :: "u64 \<Rightarrow> addr \<Rightarrow> string list list \<Rightarrow> nat \<Rightarrow> RState \<Rightarrow> RState res" where
  "RtrCommReq_groups p a [] i st = Inr st"
| "RtrCommReq_groups p a (ms # mss) i st =
     rbind (info_get p st) (\<lambda>info.
     rbind (awrite (i_grpInfo info) i (length ms)) (\<lambda>gi.
     rbind (info_set p (info\<lparr>i_grpInfo := gi\<rparr>) st) (\<lambda>st.
     rbind (ev_get a st) (\<lambda>ev.
     rbind (case ev of EvCommReq e \<Rightarrow> Inr (EvCommReq (e\<lparr>grpIndex := of_nat i\<rparr>)) | _ \<Rightarrow> Inl Unspecified)
       (\<lambda>ev.
     rbind (ev_set a ev st) (\<lambda>st.
     rbind (foldM (\<lambda>m. Router_sendEvent_obj m a) ms st) (\<lambda>st.
     RtrCommReq_groups p a mss (Suc i) st)))))))"

definition RtrCommReq_process :: "addr \<Rightarrow> CommReqEvent \<Rightarrow> chan \<Rightarrow> RState \<Rightarrow> (bool \<times> RState) res" where
  "RtrCommReq_process a this ec st =
     rbind (getClient ec st) (\<lambda>client.
     rbind (getCommList (commID this) client st) (\<lambda>commList.
     let n = length commList;
         resp = new_CommRespEvent (junk st) (ev_id this);
         resp = (if op this = OpGet
                 then resp\<lparr>r_timeStamp := replicate n [], r_value := replicate n []\<rparr> else resp) in
     case ev_new (EvCommResp resp) st of (ra, st) \<Rightarrow>
     let info = \<lparr>i_src = ec, i_ev = a, i_grpInfo = replicate n 0, i_pending = of_nat n,
                 i_valueOp = (if op this = OpGet then valueOp this else []),
                 i_respQ = replicate n [], i_resp = ra\<rparr> in
     case info_new info st of (p, st) \<Rightarrow>
     rbind (ev_set a (EvCommReq (this\<lparr>ev_id := p\<rparr>)) st) (\<lambda>st.
     rbind (RtrCommReq_groups p a commList 0 st) (\<lambda>st. Inr (False, st)))))"

text \<open>Requests about the log and its samples go to a single object.\<close>

definition single_object :: "string list list \<Rightarrow> unit res" where
  "single_object commList =
     rbind (assert_c (length commList = 1)) (\<lambda>_.
     rbind (aread commList 0) (\<lambda>ms. assert_c (length ms = 1)))"

definition simple_info :: "addr \<Rightarrow> chan \<Rightarrow> u64 \<Rightarrow> addr \<Rightarrow> CommReqInfo" where
  "simple_info a ec pending ra =
     \<lparr>i_src = ec, i_ev = a, i_grpInfo = [], i_pending = pending, i_valueOp = [], i_respQ = [],
      i_resp = ra\<rparr>"

definition RtrCommLogReq_process :: "addr \<Rightarrow> CommLogReqEvent \<Rightarrow> chan \<Rightarrow> RState \<Rightarrow> (bool \<times> RState) res" where
  "RtrCommLogReq_process a this ec st =
     rbind (getClient ec st) (\<lambda>client.
     rbind (getCommList (commID this) client st) (\<lambda>commList.
     rbind (single_object commList) (\<lambda>_.
     case ev_new (EvCommLogResp (new_CommLogRespEvent (junk st) (ev_id this))) st of (ra, st) \<Rightarrow>
     case info_new (simple_info a ec (of_nat (length commList)) ra) st of (p, st) \<Rightarrow>
     rbind (ev_set a (EvCommLogReq (this\<lparr>ev_id := p\<rparr>)) st) (\<lambda>st.
     rbind (foldM (foldM (\<lambda>m. Router_sendEvent_obj m a)) commList st) (\<lambda>st. Inr (False, st))))))"

definition RtrCommGetSamplesReq_process ::
    "addr \<Rightarrow> CommGetSamplesReqEvent \<Rightarrow> chan \<Rightarrow> RState \<Rightarrow> (bool \<times> RState) res" where
  "RtrCommGetSamplesReq_process a this ec st =
     rbind (getClient ec st) (\<lambda>client.
     rbind (getCommList (commID this) client st) (\<lambda>commList.
     rbind (single_object commList) (\<lambda>_.
     case ev_new (EvCommGetSamplesResp (new_CommGetSamplesRespEvent (junk st) (ev_id this))) st
       of (ra, st) \<Rightarrow>
     case info_new (simple_info a ec (junk st) ra) st of (p, st) \<Rightarrow>
     rbind (ev_set a (EvCommGetSamplesReq (this\<lparr>ev_id := p\<rparr>)) st) (\<lambda>st.
     rbind (foldM (foldM (\<lambda>m. Router_sendEvent_obj m a)) commList st) (\<lambda>st. Inr (False, st))))))"

section \<open>Dispatch\<close>

definition rtr_process :: "addr \<Rightarrow> chan \<Rightarrow> RState \<Rightarrow> (bool \<times> RState) res" where
  "rtr_process a ec st =
     rbind (ev_get a st) (\<lambda>ev.
     case ev of
       EvCommCreate e \<Rightarrow> RtrCommCreate_process a ec st
     | EvCommReq e \<Rightarrow> RtrCommReq_process a e ec st
     | EvCommLogReq e \<Rightarrow> RtrCommLogReq_process a e ec st
     | EvCommGetSamplesReq e \<Rightarrow> RtrCommGetSamplesReq_process a e ec st
     | EvRouter e \<Rightarrow> rbind (Router_sendEvent (rt_dest e) a st) (\<lambda>st. Inr (True, st))
     | _ \<Rightarrow> process_leaf a (Some ec) st)"

text \<open>The end of a channel: it leaves the select set, its owner forgets it, it is deleted.\<close>

definition chan_del :: "rtr_role \<Rightarrow> chan \<Rightarrow> RState \<Rightarrow> RState res" where
  "chan_del r c st =
     (case r of RClient \<Rightarrow> delClientChan c st
      | RServer \<Rightarrow> Inr (delServerChan c st)
      | RRouter \<Rightarrow> Inr st)"

definition chan_add :: "rtr_role \<Rightarrow> chan \<Rightarrow> RState \<Rightarrow> RState" where
  "chan_add r c st =
     (case r of RClient \<Rightarrow> addClientChan c st
      | RServer \<Rightarrow> addServerChan c st
      | RRouter \<Rightarrow> st)"

definition handle_event :: "AnyEvent \<Rightarrow> chan \<Rightarrow> RState \<Rightarrow> RState res" where
  "handle_event ev c st =
     (case ev_new ev st of (a, st) \<Rightarrow>
      rbind (rtr_process a c st) (\<lambda>(del, st). if del then ev_free a st else Inr st))"

text \<open>The select set of \<^verbatim>\<open>TcpChannelSelect\<close>.\<close>

definition addChannel :: "chan \<Rightarrow> SelectData \<Rightarrow> RState \<Rightarrow> RState res" where
  "addChannel c d st =
     rbind (assert_c (chans st c = None)) (\<lambda>_. Inr (st\<lparr>chans := (chans st)(c \<mapsto> d)\<rparr>))"

definition delChannel :: "chan \<Rightarrow> RState \<Rightarrow> RState res" where
  "delChannel c st =
     rbind (assert_c (chans st c \<noteq> None)) (\<lambda>_. Inr (st\<lparr>chans := (chans st)(c := None)\<rparr>))"

definition EventData_process ::
    "rtr_role \<Rightarrow> chan \<Rightarrow> AnyEvent option \<Rightarrow> RState \<Rightarrow> (bool \<times> RState) res" where
  "EventData_process r c got st =
     (case got of
        None \<Rightarrow>
          rbind (delChannel c st) (\<lambda>st.
          rbind (chan_del r c st) (\<lambda>st.
          Inr (True, st\<lparr>isOpen := (isOpen st)(c := False)\<rparr>)))
      | Some ev \<Rightarrow> rbind (handle_event ev c st) (\<lambda>st. Inr (False, st)))"

text \<open>\<^verbatim>\<open>TcpEventChannel\<close> does not override \<^verbatim>\<open>EventChannel::close\<close>, which is \<^verbatim>\<open>assert(0)\<close>.\<close>

definition RouterData_process :: "chan \<Rightarrow> AnyEvent option \<Rightarrow> RState \<Rightarrow> (bool \<times> RState) res" where
  "RouterData_process c got st =
     (case got of
        None \<Rightarrow> Inl AssertFail
      | Some ev \<Rightarrow> rbind (handle_event ev c st) (\<lambda>st. Inr (False, st)))"

definition AcceptData_process :: "rtr_role \<Rightarrow> chan \<Rightarrow> RState \<Rightarrow> RState res" where
  "AcceptData_process r newChan st =
     rbind (addChannel newChan (EventData r) (st\<lparr>isOpen := (isOpen st)(newChan := True)\<rparr>)) (\<lambda>st.
     Inr (chan_add r newChan st))"

section \<open>The select loop\<close>

text \<open>The events a channel can deliver are those its allocation function knows.\<close>

definition chan_allows :: "rtr_role \<Rightarrow> AnyEvent \<Rightarrow> bool" where
  "chan_allows r ev \<longleftrightarrow>
     (case r of
        RClient \<Rightarrow> any_class ev \<in> {CommCreate, CommReq, CommLogReq, CommGetSamplesReq}
      | RServer \<Rightarrow> any_class ev \<in> {Router2Router, CommResp, CommLogResp, CommGetSamplesResp, ServerConnect}
      | RRouter \<Rightarrow> any_class ev = Router2Router)"

inductive rtr_step :: "RState \<Rightarrow> RState \<Rightarrow> bool" where
  accept: "\<lbrakk>chans st c = Some (AcceptData r); \<not> isOpen st new; AcceptData_process r new st = Inr st'\<rbrakk> \<Longrightarrow>
    rtr_step st st'"
| event: "\<lbrakk>chans st c = Some (EventData r); chan_allows r ev;
           EventData_process r c (Some ev) st = Inr (del, st')\<rbrakk> \<Longrightarrow> rtr_step st st'"
| closed: "\<lbrakk>chans st c = Some (EventData r); EventData_process r c None st = Inr (del, st')\<rbrakk> \<Longrightarrow>
    rtr_step st st'"
| peer: "\<lbrakk>chans st c = Some RouterData; \<forall>ev. got = Some ev \<longrightarrow> chan_allows RRouter ev;
          RouterData_process c got st = Inr (del, st')\<rbrakk> \<Longrightarrow> rtr_step st st'"

end
