(* ===== verification/RouterInv.thy ===== *)
theory RouterInv
  imports RouterProc "HOL-Library.Sublist"
begin

text \<open>
  What no operation of the router touches, and the invariant of its channels: the clients and
  the servers the router knows are exactly the ones whose channels are in the select set.
\<close>

section \<open>The frame of an operation\<close>

definition frame :: "RState \<Rightarrow> RState \<Rightarrow> bool" where
  "frame st st' \<longleftrightarrow>
     chans st' = chans st \<and> isOpen st' = isOpen st \<and> rtrId st' = rtrId st \<and> rcore st' = rcore st \<and>
     routeTable st' = routeTable st \<and> (\<forall>c. (serverMap st' c = None) = (serverMap st c = None)) \<and>
     (\<forall>c. (clientMap st' c = None) = (clientMap st c = None)) \<and> prefix (outq st) (outq st')"

named_theorems frames \<open>operations that keep the frame\<close>

lemma frame_refl [simp]: "frame st st"
  by (simp add: frame_def)

lemma frame_trans: "frame a b \<Longrightarrow> frame b c \<Longrightarrow> frame a c"
  by (auto simp: frame_def intro: prefix_order.trans)

lemma foldM_frame:
  assumes "\<And>x s s'. f x s = Inr s' \<Longrightarrow> frame s s'" and "foldM f xs s = Inr s'"
  shows "frame s s'"
  using assms(2) by (induction xs arbitrary: s) (auto simp: rbind_eq_Inr intro: assms(1) frame_trans)

lemma frame_heaps [frames]:
  "ev_set a ev st = Inr st' \<Longrightarrow> frame st st'"
  "ev_free a st = Inr st' \<Longrightarrow> frame st st'"
  "ev_new ev st = (a, st') \<Longrightarrow> frame st st'"
  "info_set p i st = Inr st' \<Longrightarrow> frame st st'"
  "info_free p st = Inr st' \<Longrightarrow> frame st st'"
  "info_new i st = (p, st') \<Longrightarrow> frame st st'"
  "chan_send c ev st = Inr st' \<Longrightarrow> frame st st'"
  by (auto simp: ev_set_def ev_free_def ev_new_def info_set_def info_free_def info_new_def
      chan_send_def frame_def rbind_eq_Inr split: if_splits)

lemma frame_findServerChan [frames]: "findServerChan i st = (ec, st') \<Longrightarrow> frame st st'"
  by (auto simp: findServerChan_def frame_def split: if_splits option.splits)

lemma frame_pending [simp]: "frame st (pending_push i a st)"
  by (simp add: pending_push_def frame_def Let_def)

lemma frame_doPending [frames]: "doPending i st = Inr st' \<Longrightarrow> frame st st'"
proof (cases "pendingEvents st (ucast i)")
  case (Some q)
  assume "doPending i st = Inr st'"
  with Some obtain ec st1 st2 where f: "findServerChan i st = (ec, st1)"
    and s: "foldM (\<lambda>a st. rbind (ev_get a st) (\<lambda>ev. chan_send (the ec) ev st)) q st1 = Inr st2"
    and st': "st' = st2\<lparr>pendingEvents := (pendingEvents st2)(ucast i := None)\<rparr>"
    by (auto simp: doPending_def rbind_eq_Inr split: prod.splits)
  have "frame st1 st2"
    by (rule foldM_frame [OF _ s]) (auto simp: rbind_eq_Inr dest!: frames)
  moreover have "frame st st1" using f by (rule frames)
  moreover have "frame st2 st'" by (simp add: st' frame_def)
  ultimately show ?thesis by (blast intro: frame_trans)
qed (simp add: doPending_def)

lemma frame_addServer [frames]: "addServer nm ec st = Inr (i, st') \<Longrightarrow> frame st st'"
  by (auto simp: addServer_def frame_def Let_def rbind_eq_Inr split: if_splits)

lemma frame_connect [frames]: "RtrServerConnect_process e ec st = Inr (d, st') \<Longrightarrow> frame st st'"
  by (auto simp: RtrServerConnect_process_def rbind_eq_Inr dest!: frames intro: frame_trans)

lemma frame_errs [frames]: "resp_collect_errs as r st = Inr (r', st') \<Longrightarrow> frame st st'"
proof (induction "as" arbitrary: r st)
  case (Cons a "as")
  then show ?case
    by (cases "as = []") (auto simp: rbind_eq_Inr Let_def dest!: frames intro: frame_trans)
qed simp

lemma frame_delete [frames]: "CommReqInfo_delete p i st = Inr st' \<Longrightarrow> frame st st'"
  by (auto simp: CommReqInfo_delete_def rbind_eq_Inr dest!: frames intro: frame_trans)

lemma frame_complete [frames]: "RtrCommResp_complete p g i q st = Inr st' \<Longrightarrow> frame st st'"
  by (auto simp: RtrCommResp_complete_def rbind_eq_Inr Let_def split: if_splits dest!: frames)
    (meson frame_trans)+

lemma frame_resp [frames]: "RtrCommResp_process a st = Inr (d, st') \<Longrightarrow> frame st st'"
  by (auto simp: RtrCommResp_process_def rbind_eq_Inr Let_def split: if_splits
      dest!: frames intro: frame_trans)

lemma frame_log_resp [frames]: "RtrCommLogResp_process e st = Inr (d, st') \<Longrightarrow> frame st st'"
  by (auto simp: RtrCommLogResp_process_def rbind_eq_Inr Let_def
      dest!: frames intro: frame_trans)

lemma frame_samples_resp [frames]:
  "RtrCommGetSamplesResp_process e st = Inr (d, st') \<Longrightarrow> frame st st'"
  by (auto simp: RtrCommGetSamplesResp_process_def rbind_eq_Inr Let_def
      dest!: frames intro: frame_trans)

lemma frame_leaf [frames]: "process_leaf a ec st = Inr (d, st') \<Longrightarrow> frame st st'"
proof -
  assume h: "process_leaf a ec st = Inr (d, st')"
  then obtain ev where "ev_get a st = Inr ev" by (auto simp: process_leaf_def rbind_eq_Inr)
  with h show ?thesis by (cases ev) (auto simp: process_leaf_def dest: frames)
qed

lemma frame_deliver [frames]: "deliver ec i a m st = Inr st' \<Longrightarrow> frame st st'"
  by (auto simp: deliver_def rbind_eq_Inr split: option.splits if_splits dest!: frames intro: frame_trans)

lemma frame_next_hop [frames]: "next_hop dest st = Inr (ec, st') \<Longrightarrow> frame st st'"
  by (auto simp: next_hop_def rbind_eq_Inr split: if_splits dest!: frames)

lemma frame_send [frames]: "Router_sendEvent dest a st = Inr st' \<Longrightarrow> frame st st'"
proof (induction dest a st arbitrary: st' rule: Router_sendEvent.induct)
  case (1 dest a st)
  from "1.prems" obtain ec st1 ev where hop: "next_hop dest st = Inr (ec, st1)"
    and ev: "ev_get a st = Inr ev" by (subst (asm) Router_sendEvent.simps) (auto simp: rbind_eq_Inr)
  have st1: "frame st st1" using hop by (rule frames)
  note body = "1.prems" [unfolded Router_sendEvent.simps [of dest a st] hop ev rbind_Inr prod.case]
  show ?case
  proof (cases "any_type ev = type_word Router2Router")
    case False
    with body obtain re where
      "(case ev_new (EvRouter re) st1 of (ra, st2) \<Rightarrow> deliver ec (SERVER_ID dest) ra True st2) = Inr st'"
      by (auto simp only: if_False rbind_eq_Inr)
    then have "frame st1 st'"
      by (cases "ev_new (EvRouter re) st1") (auto dest!: frames intro: frame_trans)
    with st1 show ?thesis by (rule frame_trans)
  next
    case ty: True
    with body obtain re where re: "as_Router ev = Inr re" by (auto simp: rbind_eq_Inr)
    show ?thesis
    proof (cases "RTR_ID dest = rtrId st \<and> SERVER_ID dest = - 1")
      case False
      with body ty re have "frame st1 st'" by (auto dest!: frames)
      with st1 show ?thesis by (rule frame_trans)
    next
      case here: True
      with body ty re obtain pev rest st2 where gp: "getPayload router_allocServerEvent re = Inr (pev, rest)"
        and st2: "ev_set a (EvRouter (re\<lparr>rt_payload := rest\<rparr>)) st1 = Inr st2"
        by (auto simp: rbind_eq_Inr)
      obtain pa st3 where st3: "ev_new pev st2 = (pa, st3)" by fastforce
      have fr: "frame st st3" using st1 frames(1) [OF st2] frames(3) [OF st3] by (blast intro: frame_trans)
      note body = body [simplified ty re here gp st2 st3 rbind_Inr prod.case simp_thms if_True]
      have "frame st3 st'"
      proof (cases "\<exists>re'. pev = EvRouter re'")
        case True
        then obtain re' where pev: "pev = EvRouter re'" ..
        with body obtain st4 where "Router_sendEvent (rt_dest re') pa st3 = Inr st4" "ev_free pa st4 = Inr st'"
          by (auto simp: rbind_eq_Inr)
        with "1.IH" hop ev ty re here gp st2 st3 pev show ?thesis
          by (fastforce dest: frames intro: frame_trans)
      next
        case False
        with body show ?thesis
          by (auto simp: rbind_eq_Inr split: AnyEvent.split_asm if_splits dest!: frames intro: frame_trans)
      qed
      with fr show ?thesis by (rule frame_trans)
    qed
  qed
qed

lemma frame_send_obj [frames]: "Router_sendEvent_obj i a st = Inr st' \<Longrightarrow> frame st st'"
  by (auto simp: Router_sendEvent_obj_def Let_def split: if_splits dest: frames)

lemma frame_send_temp [frames]: "send_temp i ev st = Inr st' \<Longrightarrow> frame st st'"
  by (cases "ev_new ev st") (auto simp: send_temp_def rbind_eq_Inr dest!: frames intro: frame_trans)

lemma frame_groups [frames]: "RtrCommReq_groups p a mss i st = Inr st' \<Longrightarrow> frame st st'"
proof (induction mss arbitrary: i st)
  case (Cons ms mss)
  then obtain st1 st2 st3 info ev where "info_set p info st = Inr st1" "ev_set a ev st1 = Inr st2"
    and s: "foldM (\<lambda>m. Router_sendEvent_obj m a) ms st2 = Inr st3"
    and "RtrCommReq_groups p a mss (Suc i) st3 = Inr st'"
    by (auto simp: rbind_eq_Inr)
  moreover have "frame st2 st3" by (rule foldM_frame [OF _ s]) (rule frames)
  ultimately show ?case using Cons.IH by (blast dest: frames intro: frame_trans)
qed simp

lemma foldM_foldM_frame:
  assumes "\<And>x s s'. f x s = Inr s' \<Longrightarrow> frame s s'" and "foldM (foldM f) xss s = Inr s'"
  shows "frame s s'"
  by (rule foldM_frame [OF foldM_frame [OF assms(1)] assms(2)])

lemma frame_foldM_obj [frames]:
  assumes "foldM (\<lambda>m. Router_sendEvent_obj m a) ms st = Inr st'"
  shows "frame st st'"
  using foldM_frame [OF _ assms] by (blast dest: frames)

lemma frame_foldM2_obj [frames]:
  assumes "foldM (foldM (\<lambda>m. Router_sendEvent_obj m a)) mss st = Inr st'"
  shows "frame st st'"
  using foldM_foldM_frame [OF _ assms] by (blast dest: frames)

lemma frame_foldM_temp [frames]:
  assumes "foldM (\<lambda>m. send_temp m (f m)) ms st = Inr st'"
  shows "frame st st'"
  using foldM_frame [OF _ assms] by (blast dest: frames)

lemma frame_foldM2_temp [frames]:
  assumes "foldM (foldM (\<lambda>m. send_temp m (f m))) mss st = Inr st'"
  shows "frame st st'"
  using foldM_foldM_frame [OF _ assms] by (blast dest: frames)

lemma frame_req [frames]: "RtrCommReq_process a e ec st = Inr (d, st') \<Longrightarrow> frame st st'"
  by (auto simp: RtrCommReq_process_def rbind_eq_Inr Let_def ev_new_def info_new_def dest!: frames)
    (auto simp: frame_def)

lemma frame_log_req [frames]: "RtrCommLogReq_process a e ec st = Inr (d, st') \<Longrightarrow> frame st st'"
  by (auto simp: RtrCommLogReq_process_def rbind_eq_Inr Let_def ev_new_def info_new_def dest!: frames)
    (auto simp: frame_def)

lemma frame_samples_req [frames]:
  "RtrCommGetSamplesReq_process a e ec st = Inr (d, st') \<Longrightarrow> frame st st'"
  by (auto simp: RtrCommGetSamplesReq_process_def rbind_eq_Inr Let_def ev_new_def info_new_def dest!: frames)
    (auto simp: frame_def)

lemma frame_create [frames]: "RtrCommCreate_process a ec st = Inr (d, st') \<Longrightarrow> frame st st'"
  by (auto simp: RtrCommCreate_process_def addComm_def getClient_def rbind_eq_Inr Let_def
      dest!: frame_foldM2_temp)
    (auto simp: frame_def split: if_splits)

lemma frame_process [frames]: "rtr_process a ec st = Inr (d, st') \<Longrightarrow> frame st st'"
proof -
  assume h: "rtr_process a ec st = Inr (d, st')"
  then obtain ev where "ev_get a st = Inr ev" by (auto simp: rtr_process_def rbind_eq_Inr)
  with h show ?thesis by (cases ev) (auto simp: rtr_process_def rbind_eq_Inr dest: frames)
qed

lemma frame_handle [frames]: "handle_event ev c st = Inr st' \<Longrightarrow> frame st st'"
  by (auto simp: handle_event_def ev_new_def rbind_eq_Inr split: if_splits dest!: frames)
    (auto simp: frame_def)

lemma frame_destroy [frames]: "destroy_comm kv st = Inr st' \<Longrightarrow> frame st st'"
  by (auto simp: destroy_comm_def rbind_eq_Inr dest!: frames intro: frame_trans)

section \<open>The invariant of the channels\<close>

definition rtr_inv :: "RState \<Rightarrow> bool" where
  "rtr_inv st \<longleftrightarrow>
     (\<forall>c. (clientMap st c = None) = (chans st c \<noteq> Some (EventData RClient))) \<and>
     (\<forall>c. (serverMap st c = None) = (chans st c \<noteq> Some (EventData RServer))) \<and>
     (\<forall>c. chans st c \<noteq> None \<longrightarrow> isOpen st c)"

text \<open>After the constructor: listening and peer channels only.\<close>

definition rtr_initial :: "RState \<Rightarrow> bool" where
  "rtr_initial st \<longleftrightarrow>
     clientMap st = Map.empty \<and> serverMap st = Map.empty \<and>
     (\<forall>c r. chans st c \<noteq> Some (EventData r)) \<and> (\<forall>c. chans st c \<noteq> None \<longrightarrow> isOpen st c)"

lemma rtr_inv_initial: "rtr_initial st \<Longrightarrow> rtr_inv st"
  by (auto simp: rtr_initial_def rtr_inv_def)

lemma rtr_inv_frame: "frame st st' \<Longrightarrow> rtr_inv st \<Longrightarrow> rtr_inv st'"
  by (auto simp: frame_def rtr_inv_def)

lemma rtr_inv_closed:
  assumes "EventData_process r c None st = Inr (d, st')" "chans st c = Some (EventData r)" "rtr_inv st"
  shows "rtr_inv st'"
proof -
  let ?st0 = "st\<lparr>chans := (chans st)(c := None)\<rparr>"
  from assms obtain st1 where d: "chan_del r c ?st0 = Inr st1"
    and st': "st' = st1\<lparr>isOpen := (isOpen st1)(c := False)\<rparr>"
    by (auto simp: EventData_process_def delChannel_def rbind_eq_Inr)
  show ?thesis
  proof (cases r)
    case RClient
    with d obtain st2 where
      s: "foldM destroy_comm (case clientMap st c of None \<Rightarrow> [] | Some m \<Rightarrow> m) ?st0 = Inr st2"
      and st1: "st1 = st2\<lparr>clientMap := (clientMap st2)(c := None)\<rparr>"
      by (auto simp: chan_del_def delClientChan_def rbind_eq_Inr)
    have "frame ?st0 st2" by (rule foldM_frame [OF _ s]) (rule frames)
    with RClient assms st' st1 show ?thesis
      by (auto simp: frame_def rtr_inv_def)
  next
    case RServer
    with d assms st' show ?thesis
      by (auto simp: chan_del_def delServerChan_def delServer_def rtr_inv_def
          Let_def split: option.splits if_splits)
  next
    case RRouter
    with d assms st' show ?thesis
      by (auto simp: chan_del_def rtr_inv_def split: if_splits)
  qed
qed

lemma rtr_inv_accept:
  "AcceptData_process r new st = Inr st' \<Longrightarrow> rtr_inv st \<Longrightarrow> rtr_inv st'"
  by (cases r)
    (auto simp: AcceptData_process_def addChannel_def chan_add_def addClientChan_def
      addServerChan_def rtr_inv_def rbind_eq_Inr split: if_splits)

lemma rtr_inv_step: "rtr_step st st' \<Longrightarrow> rtr_inv st \<Longrightarrow> rtr_inv st'"
proof (induction rule: rtr_step.induct)
  case (event st c r ev del st')
  then show ?case
    by (auto simp: EventData_process_def rbind_eq_Inr dest!: frames intro: rtr_inv_frame)
next
  case (peer st c got del st')
  then show ?case
    by (auto simp: RouterData_process_def rbind_eq_Inr split: option.splits dest!: frames
        intro: rtr_inv_frame)
qed (auto intro: rtr_inv_accept rtr_inv_closed)

lemma rtr_inv_reachable: "rtr_step\<^sup>*\<^sup>* st st' \<Longrightarrow> rtr_inv st \<Longrightarrow> rtr_inv st'"
  by (induction rule: rtranclp_induct) (auto intro: rtr_inv_step)

end
