(* ===== verification/RouterSend.thy ===== *)
theory RouterSend
  imports RouterInv
begin

text \<open>
  How the router finds its way: application ids, the route file, the tree of links; what
  \<^verbatim>\<open>sendEvent\<close> does with an event in each case; and the queue of events that wait for
  a server, from the first event sent to it to its connect.
\<close>

section \<open>Identifiers\<close>

lemma SERVER_ID_ucast: "SERVER_ID x = ucast x"
proof -
  have "(0xffffffff :: u64) = mask 32" by (simp add: mask_eq_decr_exp)
  then have "SERVER_ID x = ucast (take_bit 32 x)" by (simp only: SERVER_ID_def take_bit_eq_mask)
  also have "\<dots> = ucast x" by (rule bit_eqI) (auto simp: bit_simps)
  finally show ?thesis .
qed

lemma RTR_ID_APP_ID [simp]: "RTR_ID (APP_ID r s) = r"
  by (rule bit_eqI) (auto simp: RTR_ID_def APP_ID_def bit_simps dest: bit_imp_le_length)

lemma SERVER_ID_APP_ID [simp]: "SERVER_ID (APP_ID r s) = s"
  by (rule bit_eqI) (auto simp: SERVER_ID_ucast APP_ID_def bit_simps)

lemma APP_ID_ids: "APP_ID (RTR_ID x) (SERVER_ID x) = x"
  by (rule bit_eqI) (auto simp: RTR_ID_def SERVER_ID_ucast APP_ID_def bit_simps)

lemma APP_ID_inj: "APP_ID r s = APP_ID r' s' \<longleftrightarrow> r = r' \<and> s = s'"
  by (metis RTR_ID_APP_ID SERVER_ID_APP_ID)

lemma all_ones: "(- 1 :: u64) = APP_ID (- 1) (- 1)"
  by (rule bit_eqI) (auto simp: APP_ID_def bit_simps)

lemma assert_value: "(ucast (- 1 :: u32) :: u64) = APP_ID 0 (- 1)"
  by (rule bit_eqI) (auto simp: APP_ID_def bit_simps)

section \<open>The route file\<close>

definition show_route :: "string \<times> nat \<times> nat \<Rightarrow> string" where
  "show_route e = (case e of (nm, r, s) \<Rightarrow> nm @ '':'' @ show_nat r @ '':'' @ show_nat s)"

definition route_ok :: "string \<times> nat \<times> nat \<Rightarrow> bool" where
  "route_ok e \<longleftrightarrow> (case e of (nm, r, s) \<Rightarrow>
     CHR '':'' \<notin> set nm \<and> CHR 0x0A \<notin> set nm \<and> r < 2 ^ 31 \<and> s < 2 ^ 31 \<and> length nm < 2 ^ 32)"

definition route_entry :: "string \<times> nat \<times> nat \<Rightarrow> string \<times> u64" where
  "route_entry e = (case e of (nm, r, s) \<Rightarrow> (nm, APP_ID (of_nat r) (of_nat s)))"

lemma colon_not_digit: "\<not> is_digit CHR '':''" "\<not> is_digit CHR 0x0A"
  by (simp_all add: is_digit_def)

lemma colon_show_nat: "CHR '':'' \<notin> set (show_nat n)" "CHR 0x0A \<notin> set (show_nat n)"
  using show_nat_digits colon_not_digit by blast+

lemma length_show_nat: "n < 2 ^ 31 \<Longrightarrow> length (show_nat n) \<le> 31"
proof -
  have "length (show_nat n) \<le> Suc k" if "n < 2 ^ Suc k" for k
    using that
  proof (induction k arbitrary: n)
    case 0
    then show ?case by (simp add: show_nat.simps)
  next
    case (Suc k)
    then have "length (show_nat (n div 10)) \<le> Suc k" by (intro Suc.IH) simp
    then show ?case by (simp add: show_nat.simps [of n])
  qed
  from this [of 30] show "n < 2 ^ 31 \<Longrightarrow> length (show_nat n) \<le> 31" by simp
qed

lemma route_line_show:
  assumes "route_ok (nm, r, s)"
  shows "route_line (show_route (nm, r, s)) tbl = Inr (tbl(nm \<mapsto> APP_ID (of_nat r) (of_nat s)))"
proof -
  let ?R = "show_nat r" and ?S = "show_nat s"
  let ?line = "nm @ CHR '':'' # ?R @ CHR '':'' # ?S"
  have ok: "CHR '':'' \<notin> set nm" "r < 2 ^ 31" "s < 2 ^ 31" "length nm < 2 ^ 32"
    using assms by (auto simp: route_ok_def)
  have line: "show_route (nm, r, s) = ?line" by (simp add: show_route_def)
  have p1: "find_first_of CHR '':'' ?line = Some (length nm)" using ok by (simp add: find_first_of_app)
  have "find_last_of CHR '':'' ((nm @ CHR '':'' # ?R) @ CHR '':'' # ?S) = Some (length (nm @ CHR '':'' # ?R))"
    by (rule find_last_of_app) (rule colon_show_nat)
  then have p2: "find_last_of CHR '':'' ?line = Some (length nm + 1 + length ?R)" by simp
  have small: "length nm + 1 + length ?R < npos" "length nm < npos"
    using ok length_show_nat [of r] by (simp_all add: npos_def)
  have l: "length ?line = length nm + length ?R + length ?S + 2" by simp
  have "take (length nm + length ?R) (?R @ CHR '':'' # ?S) = ?R @ take (length nm) (CHR '':'' # ?S)"
    by simp
  then have s1: "atoi (take (length nm + length ?R) (drop (Suc (length nm)) ?line)) = Inr (int r)"
    using atoi_show [of "take (length nm) (CHR '':'' # ?S)" r] ok colon_not_digit
    by (cases nm) simp_all
  have s2: "atoi (take npos (drop (length nm + 2 + length ?R) ?line)) = Inr (int s)"
    using atoi_show [of "[]" s] ok length_show_nat [of s] by (simp add: npos_def)
  show ?thesis
    unfolding line route_line_def p1 p2 Let_def pos_val_def option.case pos_inc_def pos_dec_def
    using small s1 s2 l by (simp add: substr_def)
qed

text \<open>A route file has a line for each entry; later entries of a name win.\<close>

definition route_file :: "(string \<times> nat \<times> nat) list \<Rightarrow> string" where
  "route_file es = concat (map (\<lambda>e. show_route e @ [CHR 0x0A]) es)"

definition route_map :: "(string \<times> nat \<times> nat) list \<Rightarrow> (string \<rightharpoonup> u64) \<Rightarrow> (string \<rightharpoonup> u64)" where
  "route_map es tbl = fold (\<lambda>e tbl. tbl(fst (route_entry e) \<mapsto> snd (route_entry e))) es tbl"

lemma route_lines:
  "\<forall>e \<in> set es. route_ok e \<Longrightarrow> CHR 0x0A \<notin> set rest \<Longrightarrow>
   lines_before_eof [] (route_file es @ rest) = map show_route es"
proof (induction es)
  case Nil
  have "lines_before_eof acc rest = []" if "CHR 0x0A \<notin> set rest" for acc rest
    using that by (induction rest arbitrary: acc) auto
  with Nil show ?case by (simp add: route_file_def)
next
  case (Cons e es)
  then have "CHR 0x0A \<notin> set (show_route e)"
    using colon_show_nat by (auto simp: show_route_def route_ok_def)
  from lines_before_eof_line [OF this, of "[]" "route_file es @ rest"] Cons show ?case
    by (simp add: route_file_def)
qed

lemma route_lines_parse:
  "\<forall>e \<in> set es. route_ok e \<Longrightarrow> foldM route_line (map show_route es) tbl = Inr (route_map es tbl)"
proof (induction es arbitrary: tbl)
  case (Cons e es)
  obtain nm r s where "e = (nm, r, s)" by (cases e)
  with Cons route_line_show [of nm r s tbl] show ?case by (simp add: route_map_def route_entry_def)
qed (simp add: route_map_def)

section \<open>Sending an event that is not routed yet\<close>

definition plain_event :: "AnyEvent \<Rightarrow> bool" where
  "plain_event ev \<longleftrightarrow> any_type ev \<noteq> type_word Router2Router"

text \<open>The event the router makes of \<open>ev\<close> for the server \<open>s\<close> next to it.\<close>

definition wraps :: "RState \<Rightarrow> u32 \<Rightarrow> AnyEvent \<Rightarrow> RouterEvent \<Rightarrow> bool" where
  "wraps st s ev re \<longleftrightarrow> plain_event ev \<and>
     new_RouterEvent (APP_ID (rtrId st) (- 1)) (APP_ID (rtrId st) s) ev = Inr re"

lemma send_local:
  assumes "wraps st s ev re" "ev_get a st = Inr ev" "s \<noteq> - 1"
  shows "Router_sendEvent (APP_ID (rtrId st) s) a st =
    (case localMap st s of
       Some (Some c) \<Rightarrow>
         (if isOpen st c then Inr (st\<lparr>evs := evs st @ [None], outq := outq st @ [(c, EvRouter re)]\<rparr>)
          else Inl NullDeref)
     | _ \<Rightarrow> Inr (pending_push s (length (evs st))
               (st\<lparr>localMap := (localMap st)(s \<mapsto> None), evs := evs st @ [Some (EvRouter re)]\<rparr>)))"
proof -
  have st: "st\<lparr>localMap := (localMap st)(s \<mapsto> None)\<rparr> = st" if "localMap st s = Some None"
    using that by (simp add: fun_upd_idem)
  show ?thesis
    using assms
    by (subst Router_sendEvent.simps)
      (auto simp: wraps_def plain_event_def next_hop_def findServerChan_def ev_new_def deliver_def
        chan_send_def ev_get_def heap_get_def ev_free_def heap_free_def nth_append
        pending_push_def Let_def st rbind_def split: option.splits if_splits)
qed

lemma findServerChan_known: "s \<noteq> - 1 \<Longrightarrow> localMap st s = Some c \<Longrightarrow> findServerChan s st = (c, st)"
  by (simp add: findServerChan_def)

section \<open>Waiting for a server\<close>

text \<open>Events queued for server \<open>s\<close>, as the router will send them.\<close>

definition queued :: "RState \<Rightarrow> u32 \<Rightarrow> RouterEvent list \<Rightarrow> bool" where
  "queued st s res \<longleftrightarrow>
     (case pendingEvents st (ucast s) of
        None \<Rightarrow> res = []
      | Some q \<Rightarrow> list_all2 (\<lambda>a re. ev_get a st = Inr (EvRouter re)) q res)"

definition no_server :: "RState \<Rightarrow> u32 \<Rightarrow> bool" where
  "no_server st s \<longleftrightarrow> localMap st s \<in> {None, Some None}"

lemma ev_get_app: "ev_get a st = Inr x \<Longrightarrow> evs st' = evs st @ g \<Longrightarrow> ev_get a st' = Inr x"
  by (simp add: ev_get_def heap_get_old)

lemma send_temp_waits:
  assumes "wraps st s ev re" "s \<noteq> - 1" "no_server st s" "queued st s res"
    and "routeTable st nm = Some (APP_ID (rtrId st) s)"
  shows "\<exists>st'. send_temp nm ev st = Inr st' \<and> queued st' s (res @ [re]) \<and> no_server st' s \<and>
    outq st' = outq st \<and> frame st st' \<and> serverMap st' = serverMap st"
proof -
  let ?st1 = "st\<lparr>evs := evs st @ [Some ev]\<rparr>"
  let ?st2 = "pending_push s (Suc (length (evs st)))
     (?st1\<lparr>localMap := (localMap st)(s \<mapsto> None), evs := evs st @ [Some ev, Some (EvRouter re)]\<rparr>)"
  let ?st' = "?st2\<lparr>evs := evs st @ [None, Some (EvRouter re)]\<rparr>"
  have "APP_ID 0 (- 1) \<noteq> APP_ID (rtrId st) s" using assms(2) by (simp add: APP_ID_inj)
  then have "send_temp nm ev st = rbind (Router_sendEvent (APP_ID (rtrId st) s) (length (evs st)) ?st1) (ev_free (length (evs st)))"
    using assms(5)
    by (simp add: send_temp_def ev_new_def Router_sendEvent_obj_def findDestApp_def findRoute_def
        Let_def assert_value)
  also have "Router_sendEvent (APP_ID (rtrId st) s) (length (evs st)) ?st1 = Inr ?st2"
    using send_local [of ?st1 s ev re "length (evs st)"] assms
    by (auto simp: wraps_def ev_get_def heap_get_def no_server_def)
  finally have 1: "send_temp nm ev st = Inr ?st'"
    by (simp add: ev_free_def heap_free_def heap_get_def pending_push_def Let_def)
  have "frame st ?st'" using 1 by (rule frames)
  moreover have "queued ?st' s (res @ [re])"
    using assms(4)
    by (auto simp: queued_def pending_push_def Let_def ev_get_def heap_get_def nth_append
        split: option.splits if_splits
        elim!: list_all2_mono intro!: list_all2_appendI)
  ultimately show ?thesis
    using 1 by (intro exI [of _ ?st']) (simp add: no_server_def pending_push_def Let_def)
qed

lemma wraps_cong: "rtrId st' = rtrId st \<Longrightarrow> wraps st' s ev re = wraps st s ev re"
  by (simp add: wraps_def)

lemma send_temps_wait:
  assumes "list_all2 (wraps st s) es res" "s \<noteq> - 1" "no_server st s" "queued st s q"
    and "routeTable st nm = Some (APP_ID (rtrId st) s)"
  shows "\<exists>st'. foldM (send_temp nm) es st = Inr st' \<and> queued st' s (q @ res) \<and> no_server st' s \<and>
    outq st' = outq st \<and> frame st st' \<and> serverMap st' = serverMap st"
  using assms
proof (induction es arbitrary: st q res)
  case Nil
  then show ?case by auto
next
  case (Cons ev es)
  then obtain re res' where res: "res = re # res'" "wraps st s ev re" "list_all2 (wraps st s) es res'"
    by (auto simp: list_all2_Cons1)
  with send_temp_waits Cons.prems obtain st1 where st1: "send_temp nm ev st = Inr st1"
    "queued st1 s (q @ [re])" "no_server st1 s" "outq st1 = outq st" "frame st st1"
    "serverMap st1 = serverMap st" by metis
  then have "rtrId st1 = rtrId st" "routeTable st1 = routeTable st" by (auto simp: frame_def)
  moreover from this have "wraps st1 s = wraps st s" by (intro ext wraps_cong) simp
  ultimately have "list_all2 (wraps st1 s) es res'"
    "routeTable st1 nm = Some (APP_ID (rtrId st1) s)" using res Cons.prems by simp_all
  from Cons.IH [OF this(1) Cons.prems(2) st1(3,2) this(2)] st1 res show ?case
    by (auto intro: frame_trans)
qed

lemma foldM_send_queue:
  assumes "list_all2 (\<lambda>a re. heap_get h a = Inr (EvRouter re)) q res" "evs st = h" "isOpen st c"
  shows "foldM (\<lambda>a st. rbind (ev_get a st) (\<lambda>ev. chan_send c ev st)) q st =
    Inr (st\<lparr>outq := outq st @ map (\<lambda>re. (c, EvRouter re)) res\<rparr>)"
  using assms
proof (induction q res arbitrary: st rule: list_all2_induct)
  case (Cons a q re res)
  from Cons.hyps(1) Cons.prems Cons.IH [of "st\<lparr>outq := outq st @ [(c, EvRouter re)]\<rparr>"] show ?case
    by (simp add: chan_send_def ev_get_def)
qed simp

lemma connect_sends_queue:
  assumes "queued st s res" "s \<noteq> - 1" "isOpen st c" "serverMap st c = Some old"
    and "routeTable st (sc_name e) = Some (APP_ID r s)"
  shows "\<exists>st'. RtrServerConnect_process e (Some c) st = Inr (True, st') \<and>
    outq st' = outq st @ map (\<lambda>re. (c, EvRouter re)) res \<and>
    pendingEvents st' (ucast s) = None \<and> localMap st' s = Some (Some c)"
proof -
  let ?st1 = "st\<lparr>localMap := (localMap st)(s \<mapsto> Some c), serverMap := (serverMap st)(c \<mapsto> sc_name e)\<rparr>"
  have "APP_ID 0 (- 1) \<noteq> APP_ID r s" using assms(2) by (simp add: APP_ID_inj)
  with assms have add: "addServer (sc_name e) (Some c) st = Inr (s, ?st1)"
    by (simp add: addServer_def findRoute_def Let_def assert_value)
  show ?thesis
  proof (cases "pendingEvents st (ucast s)")
    case None
    with add assms show ?thesis by (simp add: RtrServerConnect_process_def doPending_def queued_def)
  next
    case (Some q)
    with assms have "list_all2 (\<lambda>a re. heap_get (evs st) a = Inr (EvRouter re)) q res"
      by (simp add: queued_def ev_get_def)
    from foldM_send_queue [OF this, of ?st1 c] assms(2,3) Some add show ?thesis
      by (simp add: RtrServerConnect_process_def doPending_def findServerChan_def)
  qed
qed

section \<open>Properties\<close>

text \<open>A router with the id 3 whose route table has one server; used by the witnesses.\<close>

definition rtr_example :: RState where
  "rtr_example =
     \<lparr>rtrId = 3, rcore = TreeCore [\<lparr>a_send = Some 9, a_recv = Some 8, nidStart = 0, nidStop = 0\<rparr>],
      routeTable = [''node'' \<mapsto> APP_ID 3 5], localMap = Map.empty, serverMap = Map.empty,
      clientMap = Map.empty, pendingEvents = Map.empty, evs = [], infos = [],
      isOpen = (\<lambda>c. c \<in> {0, 1, 8, 9}),
      chans = [0 \<mapsto> AcceptData RClient, 1 \<mapsto> AcceptData RServer, 8 \<mapsto> AcceptData RRouter,
               9 \<mapsto> RouterData],
      outq = [], junk = 0\<rparr>"

text \<open>
  C20: No event is lost and the order is kept while a server is not connected: events sent to
  an object whose server has not connected are all queued and nothing is sent; when the server
  connects, exactly those events go to its channel, in the order in which they were sent, the
  queue is gone, and the channel is known for the events that follow.
\<close>

theorem pending_events_delivered:
  assumes "list_all2 (wraps st s) es res" "s \<noteq> - 1" "no_server st s"
    and "pendingEvents st (ucast s) = None"
    and "routeTable st nm = Some (APP_ID (rtrId st) s)" "sc_name e = nm"
    and "isOpen st c" "serverMap st c = Some old"
  shows "\<exists>st1 st2. foldM (send_temp nm) es st = Inr st1 \<and> outq st1 = outq st \<and>
    RtrServerConnect_process e (Some c) st1 = Inr (True, st2) \<and>
    outq st2 = outq st @ map (\<lambda>re. (c, EvRouter re)) res \<and>
    pendingEvents st2 (ucast s) = None \<and> localMap st2 s = Some (Some c)"
proof -
  have "queued st s []" using assms(4) by (simp add: queued_def)
  from send_temps_wait [OF assms(1-3) this assms(5)] obtain st1 where
    st1: "foldM (send_temp nm) es st = Inr st1" "queued st1 s res" "outq st1 = outq st"
      "frame st st1" "serverMap st1 = serverMap st" by auto
  with assms connect_sends_queue [of st1 s res c old e "rtrId st"] show ?thesis
    by (auto simp: frame_def)
qed

lemma log_example_wraps: "\<exists>re. wraps st 5 log_example re"
proof -
  obtain b where b: "any_serialize_out log_example [] = Inr b" by (simp add: log_example_def ser_eval)
  have "any_type log_example = type_word CommLogReq" by (simp add: log_example_def any_type_def)
  moreover have "enum_decode eventtype_code all_eventtypes (sint (type_word CommLogReq)) = Some CommLogReq"
    by (simp add: type_word_def enum_decode_def all_eventtypes_def)
  ultimately show ?thesis using b
    by (simp add: wraps_def plain_event_def new_RouterEvent_def type_word_def)
qed

definition srv_example :: RState where
  "srv_example = rtr_example\<lparr>isOpen := (\<lambda>c. c \<in> {0, 1, 2, 8, 9}), serverMap := [2 \<mapsto> []]\<rparr>"

definition connect_node :: ServerConnectEvent where
  "connect_node = \<lparr>ev_type = type_word ServerConnect, ev_id = 0, ev_status = 0, sc_name = ''node''\<rparr>"

theorem pending_events_delivered_witness:
  "\<exists>re st1 st2. foldM (send_temp ''node'') [log_example, log_example] srv_example = Inr st1 \<and>
     RtrServerConnect_process connect_node (Some 2) st1 = Inr (True, st2) \<and>
     outq st2 = [(2, EvRouter re), (2, EvRouter re)]"
proof -
  obtain re where re: "wraps srv_example 5 log_example re" using log_example_wraps by blast
  show ?thesis
    using pending_events_delivered [of srv_example 5 "[log_example, log_example]" "[re, re]" "''node''" connect_node 2 "[]"] re
    by (auto simp: srv_example_def rtr_example_def no_server_def connect_node_def)
qed

text \<open>
  The route file is read back as it is meant: from a file of lines
  \<^verbatim>\<open>name:router:server\<close>, the id of every name is the application id of its router and
  server, a later line of a name wins, and names without a line keep what they had. A last
  line that is not ended by a newline is ignored.
\<close>

theorem route_file_read:
  assumes "\<forall>e \<in> set es. route_ok e" "CHR 0x0A \<notin> set rest"
  shows "initRouteTable (Some (route_file es @ rest)) st = Inr (st\<lparr>routeTable := route_map es (routeTable st)\<rparr>)"
  using assms by (simp add: initRouteTable_def route_lines route_lines_parse)

theorem route_file_read_witness:
  "map_option routeTable (case initRouteTable (Some (route_file [(''plat'', 0, 1), (''node'', 3, 5)] @ ''last:1:1'')) rtr_example
      of Inr st \<Rightarrow> Some st | _ \<Rightarrow> None) = Some [''node'' \<mapsto> APP_ID 3 5, ''plat'' \<mapsto> APP_ID 0 1]"
  using route_file_read [of "[(''plat'', 0, 1), (''node'', 3, 5)]" "''last:1:1''" rtr_example]
  by (auto simp: route_ok_def route_map_def route_entry_def rtr_example_def fun_upd_twist)

text \<open>
  The branch that drops an event for an unknown object is dead: \<^verbatim>\<open>findRoute\<close> returns
  the 64-bit value of all ones, which is compared with the 32-bit one. The event is sent on
  to router 0xffffffff instead: it leaves on a channel to another router when there is one,
  and it is an assertion failure when there is none.
\<close>

theorem unroutable_not_dropped:
  assumes "routeTable st i = None" "rtrId st \<noteq> - 1" "ev_get a st = Inr ev" "plain_event ev"
  shows "Router_sendEvent_obj i a st =
    rbind (findRtrChan (- 1) st) (\<lambda>ec.
    rbind (assert_c (ec \<noteq> None)) (\<lambda>_.
    rbind (new_RouterEvent (APP_ID (rtrId st) (- 1)) (- 1) ev) (\<lambda>re.
    rbind (chan_send (the ec) (EvRouter re) (st\<lparr>evs := evs st @ [Some (EvRouter re)]\<rparr>)) (\<lambda>st'.
    Inr (st'\<lparr>evs := evs st @ [None]\<rparr>)))))"
proof -
  have ids: "RTR_ID (- 1) = - 1" "SERVER_ID (- 1) = - 1" by (simp_all add: all_ones)
  have "(ucast (- 1 :: u32) :: u64) \<noteq> - 1" by (simp only: assert_value all_ones APP_ID_inj) simp
  then have "Router_sendEvent_obj i a st = Router_sendEvent (- 1) a st"
    using assms(1) by (simp add: Router_sendEvent_obj_def findDestApp_def findRoute_def)
  also have "\<dots> = rbind (next_hop (- 1) st) (\<lambda>(ec, st1).
      rbind (new_RouterEvent (APP_ID (rtrId st) (- 1)) (- 1) ev) (\<lambda>re.
      case ev_new (EvRouter re) st1 of (ra, st2) \<Rightarrow> deliver ec (- 1) ra True st2))"
    using assms by (subst Router_sendEvent.simps) (simp add: plain_event_def ids)
  also have "\<dots> = rbind (findRtrChan (- 1) st) (\<lambda>ec.
    rbind (assert_c (ec \<noteq> None)) (\<lambda>_.
    rbind (new_RouterEvent (APP_ID (rtrId st) (- 1)) (- 1) ev) (\<lambda>re.
    rbind (chan_send (the ec) (EvRouter re) (st\<lparr>evs := evs st @ [Some (EvRouter re)]\<rparr>)) (\<lambda>st'.
    Inr (st'\<lparr>evs := evs st @ [None]\<rparr>)))))"
    using assms(2)
    by (auto simp: next_hop_def ids ev_new_def deliver_def rbind_def assert_c_def ev_get_def
        heap_get_def chan_send_def ev_free_def heap_free_def split: sum.splits option.splits)
  finally show ?thesis .
qed

theorem unroutable_not_dropped_witness:
  "\<exists>st re. Router_sendEvent_obj ''nowhere'' 0 (rtr_example\<lparr>evs := [Some log_example]\<rparr>) = Inr st \<and>
     outq st = [(9, EvRouter re)] \<and> rt_dest re = - 1"
proof -
  let ?st = "rtr_example\<lparr>evs := [Some log_example]\<rparr>"
  obtain b where b: "any_serialize_out log_example [] = Inr b" by (simp add: log_example_def ser_eval)
  have ty: "any_type log_example = type_word CommLogReq" by (simp add: log_example_def any_type_def)
  have "enum_decode eventtype_code all_eventtypes (sint (type_word CommLogReq)) = Some CommLogReq"
    by (simp add: type_word_def enum_decode_def all_eventtypes_def)
  with b ty have new: "\<exists>re. new_RouterEvent src dest log_example = Inr re \<and> rt_dest re = dest" for src dest
    by (simp add: new_RouterEvent_def)
  then obtain re where re: "new_RouterEvent (APP_ID 3 (- 1)) (- 1) log_example = Inr re" "rt_dest re = - 1"
    by blast
  have "plain_event log_example" using ty by (simp add: plain_event_def type_word_def)
  with unroutable_not_dropped [of ?st "''nowhere''" 0 log_example] re show ?thesis
    by (simp add: rtr_example_def ev_get_def heap_get_def findRtrChan_def TreeCore_getChannel_def
        chan_send_def)
qed

text \<open>
  In a tree of routers the link of the first range that contains the router id is taken,
  and the link towards the root only when no range contains it.
\<close>

lemma tree_channel:
  assumes "\<forall>l \<in> set before. \<not> (nidStart l \<le> i \<and> i \<le> nidStop l)"
  shows "(nidStart l \<le> i \<and> i \<le> nidStop l \<longrightarrow>
           TreeCore_getChannel (l0 # before @ l # after) i = Inr (a_send l)) \<and>
         TreeCore_getChannel (l0 # before) i = Inr (a_send l0)"
proof -
  have *: "tree_search i (before @ ls) = tree_search i ls" for ls
    using assms by (induction before) auto
  from * [of "[]"] show ?thesis by (auto simp: TreeCore_getChannel_def *)
qed

text \<open>
  A server that goes away stays in the map of local channels: \<^verbatim>\<open>delServer\<close> erases the
  key 0 whatever the name is. After the channel of a server with another id is closed, the
  next event for that server is sent on the deleted channel.
\<close>

theorem closed_server_still_routed:
  assumes "EventData_process RServer c None st = Inr (d, st')"
    and "localMap st s = Some (Some c)" "s \<noteq> 0" "s \<noteq> - 1"
    and "wraps st' s ev re" "ev_get a st' = Inr ev"
  shows "localMap st' s = Some (Some c) \<and> \<not> isOpen st' c \<and>
    Router_sendEvent (APP_ID (rtrId st') s) a st' = Inl NullDeref"
proof -
  from assms(1-3) have "localMap st' s = Some (Some c)" "\<not> isOpen st' c"
    by (auto simp: EventData_process_def rbind_eq_Inr delChannel_def chan_del_def delServerChan_def
        delServer_def Let_def split: option.splits)
  with send_local [OF assms(5,6,4)] show ?thesis by simp
qed

theorem closed_server_still_routed_witness:
  "\<exists>st' d. EventData_process RServer 2 None
       (srv_example\<lparr>localMap := [5 \<mapsto> Some 2], chans := [2 \<mapsto> EventData RServer],
          evs := [Some log_example]\<rparr>) = Inr (d, st') \<and>
     Router_sendEvent (APP_ID 3 5) 0 st' = Inl NullDeref"
proof -
  let ?st = "srv_example\<lparr>localMap := [5 \<mapsto> Some 2], chans := [2 \<mapsto> EventData RServer],
          evs := [Some log_example]\<rparr>"
  let ?st' = "?st\<lparr>localMap := (localMap ?st)(0 := None), chans := (chans ?st)(2 := None),
      serverMap := (serverMap ?st)(2 := None), isOpen := (isOpen ?st)(2 := False)\<rparr>"
  have 1: "EventData_process RServer 2 None ?st = Inr (True, ?st')"
    by (simp add: EventData_process_def delChannel_def chan_del_def delServerChan_def delServer_def
        srv_example_def)
  obtain re where "wraps ?st' 5 log_example re" using log_example_wraps by blast
  from closed_server_still_routed [OF 1 _ _ _ this, of 0] have
    "Router_sendEvent (APP_ID (rtrId ?st') 5) 0 ?st' = Inl NullDeref"
    by (simp add: ev_get_def heap_get_def)
  with 1 show ?thesis by (auto simp: srv_example_def rtr_example_def)
qed

text \<open>
  A routed event that reaches its last router before its server has connected is deleted
  while it is queued: the handler returns true, its caller deletes the event, and when the
  server connects the router sends from freed memory.
\<close>

theorem forwarded_event_dangles:
  assumes "rt_dest re = APP_ID (rtrId st) s" "ev_type re = type_word Router2Router" "s \<noteq> - 1"
    and "no_server st s" "pendingEvents st (ucast s) = None"
    and "routeTable st (sc_name e) = Some (APP_ID (rtrId st) s)" "serverMap st c = Some old"
  shows "\<exists>st1. handle_event (EvRouter re) p st = Inr st1 \<and> pendingEvents st1 (ucast s) \<noteq> None \<and>
    RtrServerConnect_process e (Some c) st1 = Inl NullDeref"
proof -
  let ?a = "length (evs st)"
  let ?st0 = "st\<lparr>evs := evs st @ [Some (EvRouter re)]\<rparr>"
  let ?lm = "(localMap st)(s \<mapsto> None)"
  let ?st1 = "st\<lparr>localMap := ?lm, evs := evs st @ [None],
                 pendingEvents := (pendingEvents st)(ucast s \<mapsto> [?a])\<rparr>"
  have lm: "localMap st = ?lm" if "localMap st s = Some None" using that by (simp add: fun_upd_idem)
  have "Router_sendEvent (rt_dest re) ?a ?st0 =
      Inr (?st0\<lparr>localMap := ?lm, pendingEvents := (pendingEvents st)(ucast s \<mapsto> [?a])\<rparr>)"
    using assms(1-5) lm
    by (subst Router_sendEvent.simps)
      (auto simp: next_hop_def findServerChan_def no_server_def ev_get_def heap_get_def any_type_def
        as_Router_def deliver_def pending_push_def Let_def split: option.splits)
  then have 1: "handle_event (EvRouter re) p st = Inr ?st1"
    by (simp add: handle_event_def ev_new_def rtr_process_def ev_get_def heap_get_def ev_free_def
        heap_free_def)
  have "APP_ID 0 (- 1) \<noteq> APP_ID (rtrId st) s" using assms(3) by (simp add: APP_ID_inj)
  then have "RtrServerConnect_process e (Some c) ?st1 = Inl NullDeref"
    using assms(3,6,7)
    by (simp add: RtrServerConnect_process_def addServer_def findRoute_def Let_def assert_value
        doPending_def findServerChan_def ev_get_def heap_get_def)
  with 1 show ?thesis by auto
qed

theorem forwarded_event_dangles_witness:
  "\<exists>st1. handle_event (EvRouter \<lparr>ev_type = type_word Router2Router, ev_id = 0, ev_status = 0,
        rt_src = 0, rt_dest = APP_ID 3 5, rt_eventType = CommReq, rt_payload = []\<rparr>) 9 srv_example = Inr st1 \<and>
     RtrServerConnect_process connect_node (Some 2) st1 = Inl NullDeref"
  using forwarded_event_dangles [of "\<lparr>ev_type = type_word Router2Router, ev_id = 0, ev_status = 0,
        rt_src = 0, rt_dest = APP_ID 3 5, rt_eventType = CommReq, rt_payload = []\<rparr>"
      srv_example 5 connect_node 2 "[]" 9]
  by (auto simp: srv_example_def rtr_example_def no_server_def connect_node_def)

end
