(* ===== verification/RouterResp.thy ===== *)
theory RouterResp
  imports RouterSend "HOL-Library.Multiset"
begin

text \<open>
  How the router puts the responses to a request together. A request for several groups of
  objects is answered by one response per object; the router answers its client once, when
  every group is complete, with the sum of the values of each group. The specification
  \<open>agg_*\<close> is a function of the sequence of responses alone; \<open>agg_inv\<close> relates it to the
  request record, the queues of response events and the half-built answer on the heap.
\<close>

section \<open>The specification\<close>

definition grp :: "nat \<Rightarrow> CommRespEvent list \<Rightarrow> CommRespEvent list" where
  "grp g rs = filter (\<lambda>r. unat (r_grpIndex r) = g) rs"

definition agg_values :: "nat \<Rightarrow> CommRespEvent list \<Rightarrow> u64 list" where
  "agg_values n rs = map (\<lambda>i. fold (\<lambda>r acc. fpAdd acc (r_value r ! 0 ! i)) rs 0) [0..<n]"

definition agg_times :: "nat \<Rightarrow> CommRespEvent list \<Rightarrow> u64 list" where
  "agg_times n rs = map (\<lambda>i. r_timeStamp (last rs) ! 0 ! i) [0..<n]"

definition resp_errs :: "CommRespEvent \<Rightarrow> (string \<times> PWR_AttrName \<times> u32) list" where
  "resp_errs r = zip (r_errObj r) (zip (r_errAttr r) (r_errValue r))"

definition errs_ok :: "CommRespEvent \<Rightarrow> bool" where
  "errs_ok r \<longleftrightarrow> length (r_errAttr r) = length (r_errObj r) \<and> length (r_errValue r) = length (r_errObj r)"

definition complete :: "nat list \<Rightarrow> CommRespEvent list \<Rightarrow> nat \<Rightarrow> bool" where
  "complete ks rs g \<longleftrightarrow> length (grp g rs) = ks ! g"

definition open_groups :: "nat list \<Rightarrow> CommRespEvent list \<Rightarrow> nat set" where
  "open_groups ks rs = {g. g < length ks \<and> \<not> complete ks rs g}"

text \<open>A response a server sends for the request with the record at \<open>p\<close>.\<close>

definition resp_ok :: "u64 \<Rightarrow> nat list \<Rightarrow> nat \<Rightarrow> CommRespEvent \<Rightarrow> bool" where
  "resp_ok p ks n r \<longleftrightarrow> ev_id r = p \<and> unat (r_grpIndex r) < length ks \<and> errs_ok r \<and>
     (\<exists>v vs t ts. r_value r = v # vs \<and> n \<le> length v \<and> r_timeStamp r = t # ts \<and> n \<le> length t)"

section \<open>Adding up a group\<close>

lemma resp_add_attrs_spec:
  assumes "set vos \<subseteq> {FP_ADD}" "length vs = i + length vos" "length ts = length vs"
    and "r_value r = v # vr" "length vs \<le> length v" "r_timeStamp r = t # tr" "length vs \<le> length t"
  shows "resp_add_attrs vos r i (vs, ts) =
    Inr (map (\<lambda>k. if i \<le> k then fpAdd (vs ! k) (v ! k) else vs ! k) [0..<length vs],
         map (\<lambda>k. if i \<le> k then t ! k else ts ! k) [0..<length vs])"
  using assms
proof (induction vos arbitrary: i vs ts)
  case Nil
  have "map (\<lambda>k. if i \<le> k then f k else xs ! k) [0..<i] = xs" if "length xs = i" for f and xs :: "u64 list"
    using that by (intro nth_equalityI) auto
  with Nil show ?case by simp
next
  case (Cons vo vos)
  let ?vs = "vs[i := fpAdd (vs ! i) (v ! i)]" and ?ts = "ts[i := t ! i]"
  have "resp_add_attrs (vo # vos) r i (vs, ts) = resp_add_attrs vos r (Suc i) (?vs, ?ts)"
    using Cons.prems by simp
  also have "\<dots> = Inr (map (\<lambda>k. if Suc i \<le> k then fpAdd (?vs ! k) (v ! k) else ?vs ! k) [0..<length ?vs],
         map (\<lambda>k. if Suc i \<le> k then t ! k else ?ts ! k) [0..<length ?vs])"
    using Cons.prems by (intro Cons.IH) auto
  also have "\<dots> = Inr (map (\<lambda>k. if i \<le> k then fpAdd (vs ! k) (v ! k) else vs ! k) [0..<length vs],
         map (\<lambda>k. if i \<le> k then t ! k else ts ! k) [0..<length vs])"
    unfolding length_list_update
    using Cons.prems by (intro arg_cong2 [where f = "\<lambda>a b. Inr (a, b)"] map_cong refl)
      (auto simp: nth_list_update Suc_le_eq le_less)
  finally show ?case .
qed

lemma resp_add_all_spec:
  assumes "set vos \<subseteq> {FP_ADD}" "length vs = length vos" "length ts = length vos" "rs \<noteq> []"
    and "\<forall>r \<in> set rs. resp_ok p ks (length vos) r"
  shows "resp_add_all vos rs (vs, ts) =
    Inr (map (\<lambda>i. fold (\<lambda>r acc. fpAdd acc (r_value r ! 0 ! i)) rs (vs ! i)) [0..<length vos],
         agg_times (length vos) rs)"
  using assms(2-5)
proof (induction rs arbitrary: vs ts)
  case (Cons r rs)
  let ?n = "length vos"
  let ?vs = "map (\<lambda>k. fpAdd (vs ! k) (r_value r ! 0 ! k)) [0..<?n]"
  let ?ts = "map (\<lambda>k. r_timeStamp r ! 0 ! k) [0..<?n]"
  from Cons.prems have "resp_ok p ks ?n r" by simp
  then have 1: "resp_add_attrs vos r 0 (vs, ts) = Inr (?vs, ?ts)"
    using resp_add_attrs_spec [of vos vs 0 ts r] assms(1) Cons.prems by (auto simp: resp_ok_def)
  show ?case
  proof (cases "rs = []")
    case True
    with 1 show ?thesis by (simp add: resp_add_all_def agg_times_def)
  next
    case False
    with Cons.IH [of ?vs ?ts] Cons.prems have
      "resp_add_all vos rs (?vs, ?ts) =
        Inr (map (\<lambda>i. fold (\<lambda>r acc. fpAdd acc (r_value r ! 0 ! i)) rs (?vs ! i)) [0..<?n], agg_times ?n rs)"
      by simp
    with 1 False show ?thesis by (simp add: resp_add_all_def agg_times_def)
  qed
qed simp

lemma resp_collect_values_spec:
  assumes "set vos \<subseteq> {FP_ADD}" "rs \<noteq> []" "\<forall>r \<in> set rs. resp_ok p ks (length vos) r"
    and "g < length (r_value resp)" "g < length (r_timeStamp resp)"
  shows "resp_collect_values g vos rs resp =
    Inr (resp\<lparr>r_timeStamp := (r_timeStamp resp)[g := agg_times (length vos) rs],
             r_value := (r_value resp)[g := agg_values (length vos) rs]\<rparr>)"
proof -
  let ?ts = "resize (length vos) 0 (r_timeStamp resp ! g)"
  have "map (\<lambda>i. fold (\<lambda>r acc. fpAdd acc (r_value r ! 0 ! i)) rs (replicate (length vos) 0 ! i)) [0..<length vos]
      = agg_values (length vos) rs"
    by (simp add: agg_values_def)
  with resp_add_all_spec [OF assms(1) _ _ assms(2,3), of "replicate (length vos) 0" ?ts] assms
  show ?thesis by (simp add: resp_collect_values_def resize_def)
qed

section \<open>Collecting the errors\<close>

definition add_errs :: "CommRespEvent list \<Rightarrow> CommRespEvent \<Rightarrow> CommRespEvent" where
  "add_errs rs resp = resp\<lparr>r_errValue := r_errValue resp @ concat (map r_errValue rs),
     r_errAttr := r_errAttr resp @ concat (map r_errAttr rs),
     r_errObj := r_errObj resp @ concat (map r_errObj rs)\<rparr>"

lemma resp_collect_errs_spec:
  assumes "list_all2 (\<lambda>a r. resp_get a st = Inr r) as rs" "distinct as"
  shows "\<exists>h. resp_collect_errs as resp st = Inr (add_errs rs resp, st\<lparr>evs := h\<rparr>) \<and>
    length h = length (evs st) \<and>
    (\<forall>b. b \<notin> set as \<or> (as \<noteq> [] \<and> b = last as) \<longrightarrow> heap_get h b = heap_get (evs st) b)"
  using assms
proof (induction "as" arbitrary: rs resp st)
  case Nil
  then show ?case by (intro exI [of _ "evs st"]) (simp add: add_errs_def)
next
  case (Cons a "as")
  from Cons.prems(1) obtain r rs' where rs: "rs = r # rs'" "resp_get a st = Inr r"
    "list_all2 (\<lambda>a r. resp_get a st = Inr r) as rs'" by (auto simp: list_all2_Cons1)
  let ?resp = "add_errs [r] resp"
  show ?case
  proof (cases "as = []")
    case True
    with rs show ?thesis
      by (intro exI [of _ "evs st"]) (simp add: add_errs_def)
  next
    case False
    let ?st1 = "st\<lparr>evs := (evs st)[a := None]\<rparr>"
    have free: "ev_free a st = Inr ?st1"
      using rs(2) by (auto simp: resp_get_def ev_get_def ev_free_def rbind_eq_Inr heap_free_live)
    have "list_all2 (\<lambda>a r. resp_get a ?st1 = Inr r) as rs'"
      using rs(3)
    proof (rule list.rel_mono_strong)
      fix b r assume b: "b \<in> set as" and r: "resp_get b st = Inr r"
      from b Cons.prems(2) have "a \<noteq> b" by auto
      with r show "resp_get b ?st1 = Inr r"
        by (simp add: resp_get_def ev_get_def heap_get_update_other)
    qed
    with Cons.IH [of ?st1 rs' ?resp] Cons.prems(2) obtain h where
      "resp_collect_errs as ?resp ?st1 = Inr (add_errs rs' ?resp, ?st1\<lparr>evs := h\<rparr>)"
      "length h = length (evs st)"
      "\<forall>b. b \<notin> set as \<or> b = last as \<longrightarrow> heap_get h b = heap_get ((evs st)[a := None]) b"
      using False by auto
    moreover have "last as \<noteq> a" using False Cons.prems(2) by (metis distinct.simps(2) last_in_set)
    ultimately show ?thesis
      using False rs free by (intro exI [of _ h]) (auto simp: add_errs_def heap_get_update_other)
  qed
qed

lemma errs_add_errs:
  assumes "errs_ok resp" "\<forall>r \<in> set rs. errs_ok r"
  shows "errs_ok (add_errs rs resp) \<and>
    resp_errs (add_errs rs resp) = resp_errs resp @ concat (map resp_errs rs)"
proof -
  have "length (concat (map r_errAttr rs)) = length (concat (map r_errObj rs)) \<and>
    length (concat (map r_errValue rs)) = length (concat (map r_errObj rs)) \<and>
    zip (concat (map r_errObj rs)) (zip (concat (map r_errAttr rs)) (concat (map r_errValue rs))) =
      concat (map resp_errs rs)"
    using assms(2) by (induction rs) (auto simp: errs_ok_def resp_errs_def)
  with assms(1) show ?thesis by (auto simp: errs_ok_def resp_errs_def add_errs_def)
qed

section \<open>The invariant of a request\<close>

definition agg_resp :: "nat list \<Rightarrow> nat \<Rightarrow> CommRespEvent list \<Rightarrow> CommRespEvent \<Rightarrow> bool" where
  "agg_resp ks n rs resp \<longleftrightarrow>
     length (r_value resp) = length ks \<and> length (r_timeStamp resp) = length ks \<and> errs_ok resp \<and>
     (\<forall>g < length ks. complete ks rs g \<longrightarrow>
        r_value resp ! g = agg_values n (grp g rs) \<and> r_timeStamp resp ! g = agg_times n (grp g rs)) \<and>
     mset (resp_errs resp) =
       mset (concat (map resp_errs (filter (\<lambda>r. complete ks rs (unat (r_grpIndex r))) rs)))"

definition same_request :: "CommReqInfo \<Rightarrow> CommReqInfo \<Rightarrow> bool" where
  "same_request i0 info \<longleftrightarrow>
     i_src info = i_src i0 \<and> i_ev info = i_ev i0 \<and> i_resp info = i_resp i0 \<and>
     i_valueOp info = i_valueOp i0 \<and> i_grpInfo info = i_grpInfo i0"

definition queues_ok :: "nat list \<Rightarrow> CommRespEvent list \<Rightarrow> addr list \<Rightarrow> addr list list \<Rightarrow> RState \<Rightarrow> bool" where
  "queues_ok ks rs used qs st \<longleftrightarrow>
     length qs = length ks \<and> distinct (used @ concat qs) \<and>
     (\<forall>a \<in> set (used @ concat qs). a < length (evs st)) \<and>
     (\<forall>g < length ks. length (qs ! g) = length (grp g rs) \<and>
        (\<not> complete ks rs g \<longrightarrow> list_all2 (\<lambda>a r. resp_get a st = Inr r) (qs ! g) (grp g rs)))"

definition agg_inv :: "u64 \<Rightarrow> CommReqInfo \<Rightarrow> u64 \<Rightarrow> CommRespEvent list \<Rightarrow> RState \<Rightarrow> bool" where
  "agg_inv p i0 ident rs st \<longleftrightarrow>
     (\<exists>info resp ev.
        info_get p st = Inr info \<and> same_request i0 info \<and>
        i_pending info = of_nat (card (open_groups (i_grpInfo i0) rs)) \<and>
        queues_ok (i_grpInfo i0) rs [i_resp i0, i_ev i0] (i_respQ info) st \<and>
        ev_get (i_ev i0) st = Inr ev \<and> any_op ev = Inr OpGet \<and>
        resp_get (i_resp i0) st = Inr resp \<and> ev_id resp = ident \<and>
        agg_resp (i_grpInfo i0) (length (i_valueOp i0)) rs resp \<and>
        isOpen st (i_src i0))"

lemma info_get_evs [simp]: "info_get p (st\<lparr>evs := h\<rparr>) = info_get p st"
  by (simp add: info_get_def)

lemma info_get_outq [simp]: "info_get p (st\<lparr>outq := x\<rparr>) = info_get p st"
  by (simp add: info_get_def)

lemma info_get_cong: "infos st' = infos st \<Longrightarrow> info_get p st' = info_get p st"
  by (simp add: info_get_def)

lemma info_set_get:
  assumes "info_get p st = Inr i"
  shows "info_set p j st = Inr (st\<lparr>infos := (infos st)[unat p - 1 := Some j]\<rparr>)"
    and "info_get p (st\<lparr>infos := (infos st)[unat p - 1 := Some j]\<rparr>) = Inr j"
  using assms by (auto simp: info_set_def info_get_def heap_get_eq_Inr split: if_splits)

lemma resp_get_infos [simp]: "resp_get a (st\<lparr>infos := x\<rparr>) = resp_get a st"
  by (simp add: resp_get_def ev_get_def)

lemma ev_get_infos [simp]: "ev_get a (st\<lparr>infos := x\<rparr>) = ev_get a st"
  by (simp add: ev_get_def)

lemma grp_snoc: "grp g (rs @ [r]) = (if unat (r_grpIndex r) = g then grp g rs @ [r] else grp g rs)"
  by (simp add: grp_def)

lemma complete_snoc_other: "unat (r_grpIndex r) \<noteq> g \<Longrightarrow> complete ks (rs @ [r]) g = complete ks rs g"
  by (simp add: complete_def grp_snoc)

lemma grp_index: "r \<in> set (grp g rs) \<Longrightarrow> unat (r_grpIndex r) = g \<and> r \<in> set rs"
  by (auto simp: grp_def)

lemma resp_get_heap:
  "heap_get (evs st') a = heap_get (evs st) a \<Longrightarrow> resp_get a st' = resp_get a st"
  by (simp add: resp_get_def ev_get_def)

text \<open>The queues after the event at the end of the heap joined group \<open>g\<close>.\<close>

lemma queues_ok_push:
  assumes q: "queues_ok ks rs used qs st" and g: "unat (r_grpIndex r) = g" "g < length ks"
    and opn: "\<not> complete ks rs g"
    and st': "evs st' = evs st @ [Some (EvCommResp r)]"
  shows "list_all2 (\<lambda>a r. resp_get a st' = Inr r) (qs ! g @ [length (evs st)]) (grp g (rs @ [r]))"
    and "queues_ok ks (rs @ [r]) used (qs[g := qs ! g @ [length (evs st)]]) st'"
proof -
  let ?a = "length (evs st)"
  let ?qs = "qs[g := qs ! g @ [?a]]"
  have len: "length qs = length ks" using q by (simp add: queues_ok_def)
  have keep: "resp_get a st' = Inr x" if "resp_get a st = Inr x" for a x
    using that st' by (auto simp: resp_get_def ev_get_def rbind_eq_Inr intro: heap_get_old)
  have new: "resp_get ?a st' = Inr r"
    using st' by (simp add: resp_get_def ev_get_def heap_get_new as_CommResp_def)
  have old: "list_all2 (\<lambda>a r. resp_get a st' = Inr r) (qs ! h) (grp h rs)"
    if "h < length ks" "\<not> complete ks rs h" for h
    using q that by (auto simp: queues_ok_def intro: keep elim!: list_all2_mono)
  show all: "list_all2 (\<lambda>a r. resp_get a st' = Inr r) (qs ! g @ [?a]) (grp g (rs @ [r]))"
    using old [OF g(2) opn] new g by (simp add: grp_snoc list_all2_appendI)
  have split: "qs = take g qs @ (qs ! g) # drop (Suc g) qs" "?qs = take g qs @ (qs ! g @ [?a]) # drop (Suc g) qs"
    using g len by (simp_all add: id_take_nth_drop upd_conv_take_nth_drop)
  have bound: "\<forall>a \<in> set (used @ concat qs). a < ?a" and dist: "distinct (used @ concat qs)"
    using q by (auto simp: queues_ok_def)
  have set: "set (used @ concat ?qs) = insert ?a (set (used @ concat qs))"
    by (subst (1) split(2), subst (3) split(1)) auto
  moreover have "distinct (used @ concat ?qs)"
  proof -
    have "mset (used @ concat ?qs) = add_mset ?a (mset (used @ concat qs))"
      by (subst (1) split(2), subst (3) split(1)) simp
    moreover have "?a \<notin># mset (used @ concat qs)" using bound by auto
    ultimately show ?thesis using dist
      by (metis distinct.simps(2) distinct_append mset.simps(2) mset_eq_imp_distinct_iff set_mset_mset)
  qed
  ultimately show "queues_ok ks (rs @ [r]) used ?qs st'"
    using q len bound old all st' g
    by (auto simp: queues_ok_def nth_list_update grp_snoc complete_snoc_other less_Suc_eq)
qed

lemma finite_open_groups [simp]: "finite (open_groups ks rs)"
  by (simp add: open_groups_def)

lemma card_open_groups: "card (open_groups ks rs) \<le> length ks"
  using card_mono [of "{..<length ks}" "open_groups ks rs"] by (auto simp: open_groups_def)

lemma open_groups_waits:
  assumes "\<not> complete ks rs (unat (r_grpIndex r))" "\<not> complete ks (rs @ [r]) (unat (r_grpIndex r))"
  shows "open_groups ks (rs @ [r]) = open_groups ks rs"
proof -
  have "complete ks (rs @ [r]) g = complete ks rs g" for g
    using assms by (cases "g = unat (r_grpIndex r)") (auto simp: complete_snoc_other)
  then show ?thesis by (simp add: open_groups_def)
qed

lemma open_groups_completes:
  assumes "complete ks (rs @ [r]) (unat (r_grpIndex r))"
  shows "open_groups ks (rs @ [r]) = open_groups ks rs - {unat (r_grpIndex r)}"
proof -
  have "g < length ks \<and> \<not> complete ks (rs @ [r]) g \<longleftrightarrow>
      g < length ks \<and> \<not> complete ks rs g \<and> g \<noteq> unat (r_grpIndex r)" for g
    using assms by (cases "g = unat (r_grpIndex r)") (auto simp: complete_snoc_other)
  then show ?thesis by (auto simp: open_groups_def)
qed

lemma agg_resp_waits:
  assumes "agg_resp ks n rs resp"
    and "\<not> complete ks rs (unat (r_grpIndex r))" "\<not> complete ks (rs @ [r]) (unat (r_grpIndex r))"
  shows "agg_resp ks n (rs @ [r]) resp"
proof -
  have c: "complete ks (rs @ [r]) g = complete ks rs g" for g
    using assms by (cases "g = unat (r_grpIndex r)") (auto simp: complete_snoc_other)
  have "grp g (rs @ [r]) = grp g rs" if "complete ks rs g" for g
    using that assms(2) by (auto simp: grp_snoc)
  with assms show ?thesis by (simp add: agg_resp_def c)
qed

lemma agg_resp_completes:
  assumes a: "agg_resp ks n rs resp" and ok: "\<forall>r \<in> set (rs @ [r]). errs_ok r"
    and g: "g = unat (r_grpIndex r)" "g < length ks"
    and c: "\<not> complete ks rs g" "complete ks (rs @ [r]) g"
  shows "agg_resp ks n (rs @ [r])
    ((add_errs (grp g (rs @ [r]))
       (resp\<lparr>r_timeStamp := (r_timeStamp resp)[g := agg_times n (grp g (rs @ [r]))],
             r_value := (r_value resp)[g := agg_values n (grp g (rs @ [r]))]\<rparr>))\<lparr>r_grpIndex := 0, commID := 0\<rparr>)"
    (is "agg_resp _ _ _ ?resp")
proof -
  let ?rs = "rs @ [r]"
  have cc: "complete ks ?rs h = (complete ks rs h \<or> h = g)" for h
    using c g by (cases "h = g") (auto simp: complete_snoc_other)
  have ok': "\<forall>r \<in> set (grp g ?rs). errs_ok r" "errs_ok resp"
    using ok a by (auto simp: agg_resp_def grp_def)
  have "errs_ok ?resp \<and> resp_errs ?resp = resp_errs resp @ concat (map resp_errs (grp g ?rs))"
    using errs_add_errs [OF ok'(2,1)] by (auto simp: errs_ok_def resp_errs_def add_errs_def)
  moreover have "mset (concat (map resp_errs (filter (\<lambda>x. complete ks rs (unat (r_grpIndex x))) rs))) +
      mset (concat (map resp_errs (grp g xs))) =
      mset (concat (map resp_errs (filter (\<lambda>x. complete ks rs (unat (r_grpIndex x)) \<or> unat (r_grpIndex x) = g) xs)))"
    if "xs = rs @ ys" "\<forall>y \<in> set ys. unat (r_grpIndex y) = g" for xs ys
  proof -
    have 1: "mset (concat (map resp_errs (filter P xs))) = (\<Sum>x\<leftarrow>xs. if P x then mset (resp_errs x) else {#})" for P
      by (induction xs) auto
    have 2: "(\<Sum>x\<leftarrow>xs. f x) + (\<Sum>x\<leftarrow>xs. f' x) = (\<Sum>x\<leftarrow>xs. f x + f' x)" for f f' :: "CommRespEvent \<Rightarrow> (string \<times> PWR_AttrName \<times> u32) multiset"
      by (simp add: sum_list_addf)
    have 3: "filter (\<lambda>x. complete ks rs (unat (r_grpIndex x))) rs = filter (\<lambda>x. complete ks rs (unat (r_grpIndex x))) xs"
      using that c(1) by (auto simp: filter_empty_conv)
    show ?thesis
      unfolding 3 grp_def 1 2 using c(1) by (intro arg_cong [where f = sum_list] map_cong) auto
  qed
  from this [of ?rs "[r]"] have "mset (concat (map resp_errs (filter (\<lambda>x. complete ks rs (unat (r_grpIndex x))) rs))) +
      mset (concat (map resp_errs (grp g ?rs))) =
      mset (concat (map resp_errs (filter (\<lambda>x. complete ks ?rs (unat (r_grpIndex x))) ?rs)))"
    using g by (simp add: cc)
  moreover have "grp h ?rs = grp h rs" if "h \<noteq> g" for h using that g by (simp add: grp_snoc)
  ultimately show ?thesis using a g unfolding agg_resp_def
    by (auto simp: cc add_errs_def nth_list_update)
qed

lemma agg_arrive_waits:
  assumes inv: "agg_inv p i0 ident rs st" and ok: "resp_ok p (i_grpInfo i0) n r"
    and w: "\<not> complete (i_grpInfo i0) rs (unat (r_grpIndex r))"
      "\<not> complete (i_grpInfo i0) (rs @ [r]) (unat (r_grpIndex r))"
  shows "\<exists>st'. handle_event (EvCommResp r) c st = Inr st' \<and> agg_inv p i0 ident (rs @ [r]) st' \<and> outq st' = outq st"
proof -
  let ?ks = "i_grpInfo i0" and ?g = "unat (r_grpIndex r)" and ?a = "length (evs st)"
  let ?st1 = "st\<lparr>evs := evs st @ [Some (EvCommResp r)]\<rparr>"
  from inv obtain info resp ev where info: "info_get p st = Inr info" "same_request i0 info"
      "i_pending info = of_nat (card (open_groups ?ks rs))"
    and q: "queues_ok ?ks rs [i_resp i0, i_ev i0] (i_respQ info) st"
    and ev: "ev_get (i_ev i0) st = Inr ev" "any_op ev = Inr OpGet"
    and resp: "resp_get (i_resp i0) st = Inr resp" "ev_id resp = ident"
      "agg_resp ?ks (length (i_valueOp i0)) rs resp" and opn: "isOpen st (i_src i0)"
    unfolding agg_inv_def by blast
  have g: "?g < length ?ks" "ev_id r = p" using ok by (auto simp: resp_ok_def)
  have len: "length (i_respQ info) = length ?ks" using q by (simp add: queues_ok_def)
  have "\<not> length (i_respQ info ! ?g @ [?a]) = ?ks ! ?g"
    using w(2) q g by (simp add: queues_ok_def complete_def grp_snoc)
  let ?info = "info\<lparr>i_respQ := (i_respQ info)[?g := i_respQ info ! ?g @ [?a]]\<rparr>"
  let ?st2 = "?st1\<lparr>infos := (infos ?st1)[unat p - 1 := Some ?info]\<rparr>"
  have info1: "info_get p ?st1 = Inr info" using info by simp
  have "resp_get ?a ?st1 = Inr r" by (simp add: resp_get_def ev_get_def heap_get_new as_CommResp_def)
  then have "RtrCommResp_process ?a ?st1 = Inr (False, ?st2)"
    using g len info info1 info_set_get [OF info1, of ?info] \<open>\<not> length _ = _\<close>
    by (simp add: RtrCommResp_process_def Let_def same_request_def)
  then have 1: "handle_event (EvCommResp r) c st = Inr ?st2"
    by (simp add: handle_event_def ev_new_def rtr_process_def process_leaf_def ev_get_def heap_get_new)
  have "queues_ok ?ks (rs @ [r]) [i_resp i0, i_ev i0] (i_respQ ?info) ?st2"
    using queues_ok_push(2) [OF q refl g(1) w(1), of ?st2] by simp
  moreover have "ev_get b ?st2 = Inr x" if "ev_get b st = Inr x" for b x
    using that by (auto simp: ev_get_def intro: heap_get_old)
  moreover from this have "resp_get (i_resp i0) ?st2 = Inr resp"
    using resp(1) by (auto simp: resp_get_def rbind_eq_Inr)
  ultimately have "agg_inv p i0 ident (rs @ [r]) ?st2"
    unfolding agg_inv_def
    using info info_set_get(2) [OF info1, of ?info] ev resp opn agg_resp_waits [OF resp(3) w]
      open_groups_waits [OF w]
    by (intro exI [of _ ?info] exI [of _ resp] exI [of _ ev]) (simp add: same_request_def)
  with 1 show ?thesis by simp
qed

lemma mapM_res_all2: "list_all2 (\<lambda>a r. f a = Inr r) as rs \<Longrightarrow> mapM_res f as = Inr rs"
  by (induction "as" rs rule: list_all2_induct) simp_all

lemma of_nat_pred: "(of_nat (Suc m) :: u64) - 1 = of_nat m"
  by simp

lemma agg_arrive_completes:
  assumes inv: "agg_inv p i0 ident rs st" and n: "n = length (i_valueOp i0)"
    and add: "set (i_valueOp i0) \<subseteq> {FP_ADD}" and small: "length (i_grpInfo i0) < 2 ^ 64"
    and ok: "\<forall>x \<in> set (rs @ [r]). resp_ok p (i_grpInfo i0) n x"
    and c: "\<not> complete (i_grpInfo i0) rs (unat (r_grpIndex r))"
      "complete (i_grpInfo i0) (rs @ [r]) (unat (r_grpIndex r))"
  shows "\<exists>st'. handle_event (EvCommResp r) ch st = Inr st' \<and>
    (if open_groups (i_grpInfo i0) (rs @ [r]) = {}
     then \<exists>resp. outq st' = outq st @ [(i_src i0, EvCommResp resp)] \<and> ev_id resp = ident \<and>
            agg_resp (i_grpInfo i0) n (rs @ [r]) resp \<and>
            info_get p st' = Inl NullDeref \<and> ev_get (i_ev i0) st' = Inl NullDeref
     else agg_inv p i0 ident (rs @ [r]) st' \<and> outq st' = outq st)"
proof -
  let ?ks = "i_grpInfo i0" and ?g = "unat (r_grpIndex r)" and ?a = "length (evs st)" and ?rs = "rs @ [r]"
  let ?R = "grp ?g ?rs" and ?used = "[i_resp i0, i_ev i0]"
  let ?st1 = "st\<lparr>evs := evs st @ [Some (EvCommResp r)]\<rparr>"
  from inv obtain info resp ev where info: "info_get p st = Inr info" "same_request i0 info"
      "i_pending info = of_nat (card (open_groups ?ks rs))"
    and q: "queues_ok ?ks rs ?used (i_respQ info) st"
    and ev: "ev_get (i_ev i0) st = Inr ev" "any_op ev = Inr OpGet"
    and resp: "resp_get (i_resp i0) st = Inr resp" "ev_id resp = ident" "agg_resp ?ks n rs resp"
    and opn: "isOpen st (i_src i0)"
    unfolding agg_inv_def n by blast
  have g: "?g < length ?ks" "ev_id r = p" using ok by (auto simp: resp_ok_def)
  define qg where "qg = i_respQ info ! ?g @ [?a]"
  define info1 where "info1 = info\<lparr>i_respQ := (i_respQ info)[?g := qg]\<rparr>"
  define st2 where "st2 = ?st1\<lparr>infos := (infos ?st1)[unat p - 1 := Some info1]\<rparr>"
  have evs2: "evs st2 = evs st @ [Some (EvCommResp r)]" by (simp add: st2_def)
  have len: "length (i_respQ info) = length ?ks" using q by (simp add: queues_ok_def)
  have lq: "length qg = ?ks ! ?g" using c(2) q g by (simp add: queues_ok_def complete_def grp_snoc qg_def)
  have all: "list_all2 (\<lambda>a r. resp_get a st2 = Inr r) qg ?R"
    and q2: "queues_ok ?ks ?rs ?used (i_respQ info1) st2"
    using queues_ok_push [OF q refl g(1) c(1) evs2] by (simp_all add: qg_def info1_def)
  have part: "set qg \<subseteq> set (concat (i_respQ info1))" and "qg \<in> set (i_respQ info1)"
    using g len by (auto simp: info1_def in_set_conv_nth intro!: exI [of _ ?g])
  have dist: "distinct qg" "i_resp i0 \<notin> set qg" "i_ev i0 \<notin> set qg" "i_resp i0 \<noteq> i_ev i0"
    "?a \<noteq> i_resp i0" "?a \<noteq> i_ev i0"
    using q2 part \<open>qg \<in> set _\<close> by (auto simp: queues_ok_def distinct_concat_iff qg_def)
  have keep: "ev_get b st2 = Inr x" if "ev_get b st = Inr x" for b x
    using that evs2 by (auto simp: ev_get_def intro: heap_get_old)
  have resp2: "resp_get (i_resp i0) st2 = Inr resp"
    using resp(1) keep by (auto simp: resp_get_def rbind_eq_Inr)
  have Rne: "?R \<noteq> []" by (simp add: grp_snoc)
  have Rok: "\<forall>x \<in> set ?R. resp_ok p ?ks (length (i_valueOp i0)) x" using ok n grp_index by blast
  define resp1 where "resp1 = resp\<lparr>r_timeStamp := (r_timeStamp resp)[?g := agg_times n ?R],
             r_value := (r_value resp)[?g := agg_values n ?R]\<rparr>"
  have vals: "resp_collect_values ?g (i_valueOp i0) ?R resp = Inr resp1"
    using resp_collect_values_spec [OF add Rne Rok, of ?g resp] resp(3) g n
    by (simp add: agg_resp_def resp1_def)
  from resp_collect_errs_spec [OF all dist(1), of resp1] obtain h where
    errs: "resp_collect_errs qg resp1 st2 = Inr (add_errs ?R resp1, st2\<lparr>evs := h\<rparr>)"
    and lh: "length h = Suc (length (evs st))"
    and h: "\<forall>b. b \<notin> set qg \<or> (qg \<noteq> [] \<and> b = last qg) \<longrightarrow> heap_get h b = heap_get (evs st2) b"
    using evs2 by auto
  define resp3 where "resp3 = (add_errs ?R resp1)\<lparr>r_grpIndex := 0, commID := 0\<rparr>"
  have agg3: "agg_resp ?ks n ?rs resp3"
    unfolding resp3_def resp1_def
    by (rule agg_resp_completes [OF resp(3) _ refl g(1) c]) (use ok in \<open>auto simp: resp_ok_def\<close>)
  have id3: "ev_id resp3 = ident" using resp(2) by (simp add: resp3_def add_errs_def resp1_def)
  have hra: "heap_get h (i_resp i0) = heap_get (evs st2) (i_resp i0)"
    and hea: "heap_get h (i_ev i0) = heap_get (evs st2) (i_ev i0)"
    and ha: "heap_get h ?a = Inr (EvCommResp r)"
    using h dist evs2 by (auto simp: qg_def heap_get_new)
  have live: "\<exists>x. heap_get h (i_resp i0) = Inr x" "heap_get h (i_ev i0) = Inr ev"
    using resp2 keep [OF ev(1)] hra hea by (auto simp: resp_get_def ev_get_def rbind_eq_Inr)
  have rb: "i_resp i0 < length h" using live(1) by (auto dest: heap_get_bound)
  define info2 where "info2 = info1\<lparr>i_pending := i_pending info - 1\<rparr>"
  define st5 where "st5 = st2\<lparr>evs := h[i_resp i0 := Some (EvCommResp resp3)],
      infos := (infos st2)[unat p - 1 := Some info2]\<rparr>"
  have i1: "info_get p st2 = Inr info1"
    using info_set_get(2) [of p ?st1 info info1] info by (simp add: st2_def)
  have i5: "info_get p st5 = Inr info2"
    using info_set_get(2) [OF i1, of info2] by (auto simp: st5_def info_get_def split: if_splits)
  have i_set: "info_set p info2 (st2\<lparr>evs := h[i_resp i0 := Some (EvCommResp resp3)]\<rparr>) = Inr st5"
    using info_set_get(1) [of p "st2\<lparr>evs := h[i_resp i0 := Some (EvCommResp resp3)]\<rparr>" info1 info2] i1
    by (simp add: st5_def)
  have e_set: "ev_set (i_resp i0) (EvCommResp resp3) (st2\<lparr>evs := h\<rparr>) =
      Inr (st2\<lparr>evs := h[i_resp i0 := Some (EvCommResp resp3)]\<rparr>)"
    using live(1) by (auto simp: ev_set_def heap_set_live)
  have compl: "RtrCommResp_complete p ?g info1 qg st2 =
      (if i_pending info2 = 0
       then rbind (chan_send (i_src i0) (EvCommResp resp3) st5) (CommReqInfo_delete p info2)
       else Inr st5)"
    using resp2 keep [OF ev(1)] ev(2) mapM_res_all2 [OF all] vals errs e_set i_set info(2)
    by (simp add: RtrCommResp_complete_def info1_def info2_def resp3_def Let_def same_request_def)
  have proc: "RtrCommResp_process ?a ?st1 = rbind (RtrCommResp_complete p ?g info1 qg st2) (\<lambda>st. Inr (True, st))"
    using g len info lq info_set_get(1) [of p ?st1 info info1]
    by (simp add: RtrCommResp_process_def Let_def same_request_def qg_def info1_def st2_def
        resp_get_def ev_get_def heap_get_new as_CommResp_def)
  have handle: "handle_event (EvCommResp r) ch st =
      rbind (RtrCommResp_complete p ?g info1 qg st2) (ev_free ?a)"
    using proc
    by (simp add: handle_event_def ev_new_def rtr_process_def process_leaf_def ev_get_def heap_get_new
        rbind_assoc)
  have card: "open_groups ?ks rs = insert ?g (open_groups ?ks ?rs)" "?g \<notin> open_groups ?ks ?rs"
    using open_groups_completes [OF c(2)] c(1) g by (auto simp: open_groups_def)
  then have "i_pending info = of_nat (Suc (card (open_groups ?ks ?rs)))" using info(3) by simp
  then have pend: "i_pending info2 = of_nat (card (open_groups ?ks ?rs))" by (simp add: info2_def)
  have "card (open_groups ?ks ?rs) < 2 ^ 64" using card_open_groups [of ?ks ?rs] small by simp
  then have "unat (of_nat (card (open_groups ?ks ?rs)) :: u64) = card (open_groups ?ks ?rs)"
    by (simp add: unat_of_nat take_bit_nat_eq_self)
  then have "(of_nat (card (open_groups ?ks ?rs)) :: u64) = 0 \<longleftrightarrow> card (open_groups ?ks ?rs) = 0"
    using unat_eq_zero [of "of_nat (card (open_groups ?ks ?rs)) :: u64"] by simp
  then have zero: "i_pending info2 = 0 \<longleftrightarrow> open_groups ?ks ?rs = {}"
    unfolding pend by simp
  have a5: "heap_get (evs st5) ?a = Inr (EvCommResp r)"
    using ha dist by (simp add: st5_def heap_get_update_other)
  show ?thesis
  proof (cases "open_groups ?ks ?rs = {}")
    case True
    define h1 where "h1 = h[i_resp i0 := Some (EvCommResp resp3)]"
    define st6 where "st6 = st5\<lparr>outq := outq st @ [(i_src i0, EvCommResp resp3)],
        evs := h1[i_resp i0 := None, i_ev i0 := None, ?a := None],
        infos := (infos st5)[unat p - 1 := None]\<rparr>"
    have sr: "i_src info2 = i_src i0" "i_ev info2 = i_ev i0" "i_resp info2 = i_resp i0"
      using info(2) by (simp_all add: info2_def info1_def same_request_def)
    have l1: "heap_get h1 (i_resp i0) = Inr (EvCommResp resp3)" "heap_get h1 (i_ev i0) = Inr ev"
      "heap_get h1 ?a = Inr (EvCommResp r)"
      using live ha dist rb by (auto simp: h1_def heap_get_set_same heap_get_update_other)
    have evs5: "evs st5 = h1" by (simp add: st5_def h1_def)
    have send: "chan_send (i_src i0) (EvCommResp resp3) st5 =
        Inr (st5\<lparr>outq := outq st @ [(i_src i0, EvCommResp resp3)]\<rparr>)"
      using opn by (simp add: chan_send_def st5_def st2_def)
    have "CommReqInfo_delete p info2 (st5\<lparr>outq := outq st @ [(i_src i0, EvCommResp resp3)]\<rparr>) =
        Inr (st5\<lparr>outq := outq st @ [(i_src i0, EvCommResp resp3)],
          evs := h1[i_resp i0 := None, i_ev i0 := None], infos := (infos st5)[unat p - 1 := None]\<rparr>)"
      using l1(1,2) dist(4) i5 evs5
      by (simp add: CommReqInfo_delete_def sr ev_free_def heap_free_live heap_get_update_other
          info_free_def)
    moreover have "ev_free ?a (st5\<lparr>outq := outq st @ [(i_src i0, EvCommResp resp3)],
          evs := h1[i_resp i0 := None, i_ev i0 := None], infos := (infos st5)[unat p - 1 := None]\<rparr>) = Inr st6"
      using l1(3) dist by (simp add: ev_free_def heap_free_live heap_get_update_other st6_def)
    ultimately have 1: "handle_event (EvCommResp r) ch st = Inr st6"
      using handle compl zero True send sr(1) by simp
    have "ev_get (i_ev i0) st6 = Inl NullDeref"
      using dist by (simp add: st6_def ev_get_def heap_get_update_other heap_get_freed)
    moreover have "info_get p st6 = Inl NullDeref"
      by (simp add: st6_def info_get_def heap_get_freed)
    moreover have "outq st6 = outq st @ [(i_src i0, EvCommResp resp3)]" by (simp add: st6_def)
    ultimately show ?thesis using 1 True id3 agg3 by auto
  next
    case False
    let ?st6 = "st5\<lparr>evs := (evs st5)[?a := None]\<rparr>"
    have 1: "handle_event (EvCommResp r) ch st = Inr ?st6"
      using handle compl zero False a5 by (simp add: ev_free_def heap_free_live)
    have same: "heap_get (evs ?st6) b = heap_get (evs st2) b" if "b \<notin> set qg" "b \<noteq> i_resp i0" for b
      using that h by (auto simp: st5_def heap_get_update_other qg_def)
    have "ev_get (i_ev i0) ?st6 = Inr ev"
      using same [of "i_ev i0"] dist keep [OF ev(1)] by (simp add: ev_get_def)
    moreover have "resp_get (i_resp i0) ?st6 = Inr resp3"
      using rb dist
      by (auto simp: resp_get_def ev_get_def st5_def heap_get_set_same heap_get_update_other as_CommResp_def)
    moreover have "queues_ok ?ks ?rs ?used (i_respQ info2) ?st6"
    proof -
      have "list_all2 (\<lambda>a r. resp_get a ?st6 = Inr r) (i_respQ info1 ! k) (grp k ?rs)"
        if k: "k < length ?ks" "\<not> complete ?ks ?rs k" for k
      proof -
        from k q2 have "list_all2 (\<lambda>a r. resp_get a st2 = Inr r) (i_respQ info1 ! k) (grp k ?rs)"
          by (simp add: queues_ok_def)
        then show ?thesis
        proof (rule list.rel_mono_strong)
          fix b x assume b: "b \<in> set (i_respQ info1 ! k)" and x: "resp_get b st2 = Inr x"
          have kg: "k \<noteq> ?g" using k(2) c(2) by auto
          have "set (i_respQ info1 ! k) \<inter> set (i_respQ info1 ! ?g) = {}"
            using distinct_concat_nth [of "i_respQ info1" k ?g] q2 k(1) g kg by (simp add: queues_ok_def)
          moreover have "i_respQ info1 ! ?g = qg" using g len by (simp add: info1_def)
          ultimately have "b \<notin> set qg" using b by auto
          moreover have "i_respQ info1 ! k \<in> set (i_respQ info1)"
            using q2 k(1) by (simp add: queues_ok_def)
          with b have "b \<in> set (concat (i_respQ info1))" by auto
          with q2 have "b \<noteq> i_resp i0" by (auto simp: queues_ok_def)
          ultimately show "resp_get b ?st6 = Inr x"
            using resp_get_heap [OF same] x by simp
        qed
      qed
      then show ?thesis using q2 lh evs2
        by (auto simp: queues_ok_def info2_def st5_def)
    qed
    moreover have "info_get p ?st6 = Inr info2" using i5 by simp
    ultimately have "agg_inv p i0 ident ?rs ?st6"
      unfolding agg_inv_def
      using info(2) pend ev(2) id3 agg3 opn n
      by (intro exI [of _ info2] exI [of _ resp3] exI [of _ ev])
        (simp add: same_request_def info1_def info2_def st5_def st2_def)
    with 1 False show ?thesis by (auto simp: st5_def st2_def)
  qed
qed

section \<open>A whole sequence of responses\<close>

definition all_responses :: "u64 \<Rightarrow> nat list \<Rightarrow> nat \<Rightarrow> CommRespEvent list \<Rightarrow> bool" where
  "all_responses p ks n rs \<longleftrightarrow>
     (\<forall>r \<in> set rs. resp_ok p ks n r) \<and> (\<forall>g < length ks. complete ks rs g) \<and> rs \<noteq> []"

lemma grp_take_less:
  assumes "k < length rs" "g = unat (r_grpIndex (rs ! k))"
  shows "length (grp g (take k rs)) < length (grp g rs)"
proof -
  have "grp g rs = grp g (take k rs) @ rs ! k # grp g (drop (Suc k) rs)"
    using assms by (subst id_take_nth_drop [OF assms(1)]) (simp add: grp_def)
  then show ?thesis by simp
qed

lemma not_complete_take:
  assumes "all_responses p ks n rs" "k < length rs"
  shows "\<not> complete ks (take k rs) (unat (r_grpIndex (rs ! k)))"
proof -
  have "unat (r_grpIndex (rs ! k)) < length ks"
    using assms by (auto simp: all_responses_def resp_ok_def)
  with assms have "complete ks rs (unat (r_grpIndex (rs ! k)))" by (simp add: all_responses_def)
  with grp_take_less [OF assms(2) refl] show ?thesis by (simp add: complete_def)
qed

lemma agg_prefix:
  assumes inv: "agg_inv p i0 ident [] st" and n: "n = length (i_valueOp i0)"
    and add: "set (i_valueOp i0) \<subseteq> {FP_ADD}" and small: "length (i_grpInfo i0) < 2 ^ 64"
    and all: "all_responses p (i_grpInfo i0) n rs" and k: "k < length rs"
  shows "\<exists>st'. foldM (\<lambda>r. handle_event (EvCommResp r) c) (take k rs) st = Inr st' \<and>
    agg_inv p i0 ident (take k rs) st' \<and> outq st' = outq st"
  using k
proof (induction k)
  case 0
  with inv show ?case by simp
next
  case (Suc k)
  let ?r = "rs ! k"
  from Suc obtain s where s: "foldM (\<lambda>r. handle_event (EvCommResp r) c) (take k rs) st = Inr s"
    "agg_inv p i0 ident (take k rs) s" "outq s = outq st" by auto
  have tk: "take (Suc k) rs = take k rs @ [?r]" using Suc.prems by (simp add: take_Suc_conv_app_nth)
  have nc: "\<not> complete (i_grpInfo i0) (take k rs) (unat (r_grpIndex ?r))"
    using all Suc.prems by (intro not_complete_take) auto
  have ok: "\<forall>x \<in> set (take k rs @ [?r]). resp_ok p (i_grpInfo i0) n x"
    using all Suc.prems by (auto simp: all_responses_def dest: in_set_takeD)
  have "unat (r_grpIndex (rs ! Suc k)) \<in> open_groups (i_grpInfo i0) (take (Suc k) rs)"
    using not_complete_take [OF all Suc.prems] all Suc.prems
    by (auto simp: open_groups_def all_responses_def resp_ok_def)
  then have opn: "open_groups (i_grpInfo i0) (take k rs @ [?r]) \<noteq> {}" by (auto simp: tk)
  obtain s' where "handle_event (EvCommResp ?r) c s = Inr s'"
    "agg_inv p i0 ident (take k rs @ [?r]) s'" "outq s' = outq s"
  proof (cases "complete (i_grpInfo i0) (take k rs @ [?r]) (unat (r_grpIndex ?r))")
    case True
    from agg_arrive_completes [OF s(2) n add small ok nc True, of c] opn that show ?thesis by auto
  next
    case False
    from agg_arrive_waits [OF s(2) _ nc False, of n c] ok that show ?thesis by auto
  qed
  with s show ?case by (auto simp: tk foldM_append)
qed

lemma agg_all:
  assumes inv: "agg_inv p i0 ident [] st" and n: "n = length (i_valueOp i0)"
    and add: "set (i_valueOp i0) \<subseteq> {FP_ADD}" and small: "length (i_grpInfo i0) < 2 ^ 64"
    and all: "all_responses p (i_grpInfo i0) n rs"
  shows "\<exists>st' resp. foldM (\<lambda>r. handle_event (EvCommResp r) c) rs st = Inr st' \<and>
    outq st' = outq st @ [(i_src i0, EvCommResp resp)] \<and> ev_id resp = ident \<and>
    agg_resp (i_grpInfo i0) n rs resp \<and> info_get p st' = Inl NullDeref \<and>
    ev_get (i_ev i0) st' = Inl NullDeref"
proof -
  let ?k = "length rs - 1" and ?r = "last rs"
  have ne: "rs \<noteq> []" using all by (simp add: all_responses_def)
  then have k: "?k < length rs" and r: "rs ! ?k = ?r" and tk: "take ?k rs @ [?r] = rs"
    by (simp_all add: last_conv_nth) (metis append_butlast_last_id butlast_conv_take last_conv_nth One_nat_def)
  from agg_prefix [OF inv n add small all k, of c] obtain s where
    s: "foldM (\<lambda>r. handle_event (EvCommResp r) c) (take ?k rs) st = Inr s"
    "agg_inv p i0 ident (take ?k rs) s" "outq s = outq st" by auto
  have nc: "\<not> complete (i_grpInfo i0) (take ?k rs) (unat (r_grpIndex ?r))"
    using not_complete_take [OF all k] r by simp
  have ok: "\<forall>x \<in> set (take ?k rs @ [?r]). resp_ok p (i_grpInfo i0) n x"
    and c': "complete (i_grpInfo i0) (take ?k rs @ [?r]) (unat (r_grpIndex ?r))"
    and empty: "open_groups (i_grpInfo i0) (take ?k rs @ [?r]) = {}"
    unfolding tk using all ne by (auto simp: all_responses_def resp_ok_def open_groups_def)
  from agg_arrive_completes [OF s(2) n add small ok nc c', of c, unfolded tk] empty [unfolded tk]
  obtain s' resp where "handle_event (EvCommResp ?r) c s = Inr s'"
    "outq s' = outq s @ [(i_src i0, EvCommResp resp)]" "ev_id resp = ident"
    "agg_resp (i_grpInfo i0) n rs resp" "info_get p s' = Inl NullDeref"
    "ev_get (i_ev i0) s' = Inl NullDeref"
    by auto
  moreover from this s have "foldM (\<lambda>r. handle_event (EvCommResp r) c) (take ?k rs @ [?r]) st = Inr s'"
    by (simp add: foldM_append)
  ultimately show ?thesis using s(3) unfolding tk by auto
qed

lemma agg_resp_all:
  assumes "agg_resp ks n rs resp" "all_responses p ks n rs"
  shows "r_value resp = map (\<lambda>g. agg_values n (grp g rs)) [0..<length ks]"
    and "r_timeStamp resp = map (\<lambda>g. agg_times n (grp g rs)) [0..<length ks]"
    and "mset (resp_errs resp) = mset (concat (map resp_errs rs))"
proof -
  have "filter (\<lambda>r. complete ks rs (unat (r_grpIndex r))) rs = rs"
    using assms(2) by (auto simp: all_responses_def resp_ok_def filter_id_conv)
  with assms show "mset (resp_errs resp) = mset (concat (map resp_errs rs))"
    by (simp add: agg_resp_def)
qed (use assms in \<open>auto simp: agg_resp_def all_responses_def intro!: nth_equalityI\<close>)

section \<open>The request\<close>

lemma chan_send_keeps:
  "chan_send c ev st = Inr st' \<Longrightarrow> evs st' = evs st \<and> infos st' = infos st"
  by (auto simp: chan_send_def split: if_splits)

lemma send_plain_keeps:
  assumes "Router_sendEvent dest a st = Inr st'" "ev_get a st = Inr ev" "plain_event ev"
  shows "infos st' = infos st \<and> length (evs st) \<le> length (evs st') \<and>
    (\<forall>b < length (evs st). heap_get (evs st') b = heap_get (evs st) b)"
proof -
  from assms obtain ec st1 re where hop: "next_hop dest st = Inr (ec, st1)"
    and d: "deliver ec (SERVER_ID dest) (length (evs st1)) True (st1\<lparr>evs := evs st1 @ [Some (EvRouter re)]\<rparr>) = Inr st'"
    by (subst (asm) Router_sendEvent.simps) (auto simp: rbind_eq_Inr plain_event_def ev_new_def)
  from hop have st1: "evs st1 = evs st \<and> infos st1 = infos st"
    by (auto simp: next_hop_def findServerChan_def rbind_eq_Inr split: if_splits option.splits)
  have old: "heap_get (evs st @ g) b = heap_get (evs st) b" if "b < length (evs st)" for b g
    using that by (simp add: heap_get_def nth_append)
  show ?thesis
  proof (cases ec)
    case None
    with d st1 old show ?thesis by (auto simp: deliver_def pending_push_def Let_def)
  next
    case (Some c)
    with d st1 obtain st2 where "evs st2 = evs st @ [Some (EvRouter re)]" "infos st2 = infos st"
      and "ev_free (length (evs st)) st2 = Inr st'"
      by (auto simp: deliver_def rbind_eq_Inr dest!: chan_send_keeps)
    then show ?thesis using old
      by (auto simp: ev_free_def rbind_eq_Inr heap_free_eq_Inr heap_get_update_other)
  qed
qed

lemma send_obj_keeps:
  assumes "Router_sendEvent_obj m a st = Inr st'" "ev_get a st = Inr ev" "plain_event ev"
  shows "infos st' = infos st \<and> length (evs st) \<le> length (evs st') \<and>
    (\<forall>b < length (evs st). heap_get (evs st') b = heap_get (evs st) b)"
  using assms send_plain_keeps by (auto simp: Router_sendEvent_obj_def Let_def split: if_splits)

lemma send_objs_keep:
  assumes "foldM (\<lambda>m. Router_sendEvent_obj m a) ms st = Inr st'" "ev_get a st = Inr ev" "plain_event ev"
  shows "infos st' = infos st \<and> length (evs st) \<le> length (evs st') \<and>
    (\<forall>b < length (evs st). heap_get (evs st') b = heap_get (evs st) b)"
  using assms(1,2)
proof (induction ms arbitrary: st)
  case (Cons m ms)
  then obtain st1 where st1: "Router_sendEvent_obj m a st = Inr st1"
    "foldM (\<lambda>m. Router_sendEvent_obj m a) ms st1 = Inr st'" by (auto simp: rbind_eq_Inr)
  note keep = send_obj_keeps [OF st1(1) Cons.prems(2) assms(3)]
  have "a < length (evs st)" using Cons.prems(2) by (auto simp: ev_get_def dest: heap_get_bound)
  with keep Cons.prems(2) have "ev_get a st1 = Inr ev" by (simp add: ev_get_def)
  from Cons.IH [OF st1(2) this] keep show ?case by auto
qed simp

lemma groups_keep:
  assumes "RtrCommReq_groups p a mss i st = Inr st'"
    and "info_get p st = Inr info" "i + length mss = length (i_grpInfo info)"
    and "ev_get a st = Inr (EvCommReq e)" "plain_event (EvCommReq e)"
  shows "info_get p st' = Inr (info\<lparr>i_grpInfo := take i (i_grpInfo info) @ map length mss\<rparr>) \<and>
    length (evs st) \<le> length (evs st') \<and>
    (\<exists>g. ev_get a st' = Inr (EvCommReq (e\<lparr>grpIndex := g\<rparr>))) \<and>
    (\<forall>b < length (evs st). b \<noteq> a \<longrightarrow> heap_get (evs st') b = heap_get (evs st) b)"
  using assms
proof (induction mss arbitrary: i st info e)
  case Nil
  then show ?case by (auto intro!: exI [of _ "grpIndex e"])
next
  case (Cons ms mss)
  let ?gi = "(i_grpInfo info)[i := length ms]"
  let ?info = "info\<lparr>i_grpInfo := ?gi\<rparr>" and ?e = "e\<lparr>grpIndex := of_nat i\<rparr>"
  let ?st1 = "st\<lparr>infos := (infos st)[unat p - 1 := Some ?info]\<rparr>"
  let ?st2 = "?st1\<lparr>evs := (evs st)[a := Some (EvCommReq ?e)]\<rparr>"
  have a: "a < length (evs st)" using Cons.prems(4) by (auto simp: ev_get_def dest: heap_get_bound)
  have i2: "info_get p ?st2 = Inr ?info" using info_set_get(2) [OF Cons.prems(2), of ?info] by simp
  from Cons.prems a info_set_get(1) [OF Cons.prems(2), of ?info] obtain st3 where
    st3: "foldM (\<lambda>m. Router_sendEvent_obj m a) ms ?st2 = Inr st3"
      "RtrCommReq_groups p a mss (Suc i) st3 = Inr st'"
    by (auto simp: rbind_eq_Inr ev_get_def ev_set_def heap_set_live)
  have e2: "ev_get a ?st2 = Inr (EvCommReq ?e)" using a by (simp add: ev_get_def heap_get_set_same)
  have pl: "plain_event (EvCommReq ?e)" using Cons.prems(5) by (simp add: plain_event_def any_type_def)
  note keep = send_objs_keep [OF st3(1) e2 pl]
  have "info_get p st3 = info_get p ?st2" using keep by (intro info_get_cong) simp
  with i2 have i3: "info_get p st3 = Inr ?info" by simp
  have e3: "ev_get a st3 = Inr (EvCommReq ?e)" using e2 keep a by (simp add: ev_get_def)
  have "Suc i + length mss = length (i_grpInfo ?info)" using Cons.prems(3) by simp
  note IH = Cons.IH [OF st3(2) i3 this e3 pl]
  have "take (Suc i) ?gi = take i (i_grpInfo info) @ [length ms]"
    using Cons.prems(3) by (simp add: take_Suc_conv_app_nth)
  moreover have "heap_get (evs st') b = heap_get (evs st) b" if "b < length (evs st)" "b \<noteq> a" for b
    using IH keep that by (simp add: heap_get_update_other)
  moreover have "length (evs st) \<le> length (evs st')" using IH keep by simp
  ultimately show ?case using IH by (auto intro: exI)
qed

lemma info_ptr_nonzero: "k < 2 ^ 64 - 1 \<Longrightarrow> info_ptr k \<noteq> 0 \<and> unat (info_ptr k) = Suc k"
proof -
  assume "k < 2 ^ 64 - 1"
  then have "unat (of_nat (Suc k) :: u64) = Suc k"
    by (subst unat_of_nat) (simp add: take_bit_nat_eq_self)
  then show ?thesis unfolding info_ptr_def by (metis nat.distinct(1) unat_0)
qed

lemma request_agg_inv:
  assumes h: "handle_event (EvCommReq this) ec st = Inr st'"
    and opn: "op this = OpGet" "ev_type this \<noteq> type_word Router2Router" "isOpen st ec"
    and cl: "clientMap st ec = Some m"
      "getCommList (commID this) m (st\<lparr>evs := evs st @ [Some (EvCommReq this)]\<rparr>) = Inr commList"
    and ne: "\<forall>ms \<in> set commList. ms \<noteq> []" and small: "length (infos st) < 2 ^ 64 - 1"
  shows "agg_inv (info_ptr (length (infos st)))
    \<lparr>i_src = ec, i_ev = length (evs st), i_grpInfo = map length commList, i_pending = 0,
     i_valueOp = valueOp this, i_respQ = [], i_resp = Suc (length (evs st))\<rparr> (ev_id this) [] st'"
    (is "agg_inv ?p ?i0 _ _ _")
proof -
  let ?a = "length (evs st)" and ?n = "length commList"
  let ?resp = "(new_CommRespEvent (junk st) (ev_id this))
      \<lparr>r_timeStamp := replicate ?n [], r_value := replicate ?n []\<rparr>"
  let ?info = "\<lparr>i_src = ec, i_ev = ?a, i_grpInfo = replicate ?n 0, i_pending = of_nat ?n,
     i_valueOp = valueOp this, i_respQ = replicate ?n [], i_resp = Suc ?a\<rparr>"
  let ?e = "this\<lparr>ev_id := ?p\<rparr>"
  let ?st1 = "st\<lparr>infos := infos st @ [Some ?info], evs := evs st @ [Some (EvCommReq ?e), Some (EvCommResp ?resp)]\<rparr>"
  from h cl opn have "RtrCommReq_groups ?p ?a commList 0 ?st1 = Inr st'"
    by (auto simp: handle_event_def ev_new_def rtr_process_def ev_get_def heap_get_new
        RtrCommReq_process_def getClient_def Let_def info_new_def ev_set_def heap_set_def heap_get_def
        nth_append rbind_eq_Inr)
  moreover have "info_get ?p ?st1 = Inr ?info"
    using info_ptr_nonzero [OF small] by (simp add: info_get_def heap_get_def)
  moreover have "ev_get ?a ?st1 = Inr (EvCommReq ?e)" by (simp add: ev_get_def heap_get_def nth_append)
  moreover have "plain_event (EvCommReq ?e)" using opn by (simp add: plain_event_def any_type_def)
  ultimately have keep: "info_get ?p st' = Inr (?info\<lparr>i_grpInfo := map length commList\<rparr>)"
      "Suc (Suc ?a) \<le> length (evs st')" "\<exists>g. ev_get ?a st' = Inr (EvCommReq (?e\<lparr>grpIndex := g\<rparr>))"
      "heap_get (evs st') (Suc ?a) = Inr (EvCommResp ?resp)"
    using groups_keep [of ?p ?a commList 0 ?st1 st' ?info ?e]
    by (auto simp: heap_get_def nth_append)
  from keep(3) obtain g where g: "ev_get ?a st' = Inr (EvCommReq (?e\<lparr>grpIndex := g\<rparr>))" ..
  have og: "open_groups (map length commList) [] = {..<?n}"
    using ne by (auto simp: open_groups_def complete_def grp_def)
  have "queues_ok (map length commList) [] [Suc ?a, ?a] (replicate ?n []) st'"
    using keep(2) by (auto simp: queues_ok_def grp_def)
  moreover have "agg_resp (map length commList) (length (valueOp this)) [] ?resp"
    using ne by (auto simp: agg_resp_def errs_ok_def resp_errs_def new_CommRespEvent_def complete_def grp_def)
  moreover have "resp_get (Suc ?a) st' = Inr ?resp"
    using keep(4) by (simp add: resp_get_def ev_get_def as_CommResp_def)
  moreover have "isOpen st' ec" using frame_handle [OF h] opn(3) by (simp add: frame_def)
  ultimately show ?thesis unfolding agg_inv_def
    using keep(1) g opn(1) og
    by (intro exI [of _ "?info\<lparr>i_grpInfo := map length commList\<rparr>"] exI [of _ ?resp]
        exI [of _ "EvCommReq (?e\<lparr>grpIndex := g\<rparr>)"])
      (simp add: same_request_def any_op_def new_CommRespEvent_def)
qed

end
