(* ===== verification/RouterReq.thy ===== *)
theory RouterReq
  imports RouterResp
begin

text \<open>
  How a client's request reaches the servers of its objects: one routed event per object,
  in order, whose payload a server reads back as the request with the index of the object's
  group and the router's own id for it.
\<close>

section \<open>One object\<close>

definition local_dest :: "RState \<Rightarrow> string \<Rightarrow> u32 \<Rightarrow> chan \<Rightarrow> bool" where
  "local_dest st m s c \<longleftrightarrow> routeTable st m = Some (APP_ID (rtrId st) s) \<and> s \<noteq> - 1 \<and>
     localMap st s = Some (Some c) \<and> isOpen st c"

definition same_net :: "RState \<Rightarrow> RState \<Rightarrow> bool" where
  "same_net st st' \<longleftrightarrow> routeTable st' = routeTable st \<and> rtrId st' = rtrId st \<and>
     localMap st' = localMap st \<and> isOpen st' = isOpen st"

text \<open>The event \<open>out\<close> on a channel carries \<open>ev\<close> to the server of object \<open>m\<close>.\<close>

definition carries :: "RState \<Rightarrow> AnyEvent \<Rightarrow> string \<Rightarrow> chan \<times> AnyEvent \<Rightarrow> bool" where
  "carries st ev m out \<longleftrightarrow>
     (\<exists>s re. local_dest st m s (fst out) \<and> snd out = EvRouter re \<and>
        rt_src re = APP_ID (rtrId st) (- 1) \<and> rt_dest re = APP_ID (rtrId st) s \<and>
        getPayload server_allocReqEvent re = Inr (ev, []))"

definition server_takes :: "AnyEvent \<Rightarrow> bool" where
  "server_takes ev \<longleftrightarrow> any_type ev = type_word (any_class ev) \<and>
     any_class ev \<in> {CommCreate, CommDestroy, CommReq, CommLogReq, CommGetSamplesReq} \<and>
     (\<exists>b. any_serialize_out ev [] = Inr b)"

lemma type_word_decode:
  "enum_decode eventtype_code all_eventtypes (sint (type_word t)) = Some t"
proof -
  have "sint (type_word t) = eventtype_code t"
    by (cases t) (simp_all add: type_word_def)
  then show ?thesis by (simp add: eventtype_enum.decode_code)
qed

lemma server_takes_plain: "server_takes ev \<Longrightarrow> plain_event ev"
  by (auto simp: server_takes_def plain_event_def dest: type_word_inj)

lemma new_RouterEvent_payload:
  assumes "server_takes ev"
  shows "\<exists>re. new_RouterEvent src dest ev = Inr re \<and> rt_src re = src \<and> rt_dest re = dest \<and>
    getPayload server_allocReqEvent re = Inr (ev, [])"
proof -
  from assms obtain b where b: "any_serialize_out ev [] = Inr b" by (auto simp: server_takes_def)
  with assms show ?thesis
    by (auto simp: new_RouterEvent_def server_takes_def type_word_decode getPayload_def
        server_allocReqEvent_def alloc_switch_hit new_from_buf_out)
qed

lemma send_obj_local:
  assumes "local_dest st m s c" "ev_get a st = Inr ev" "server_takes ev"
  shows "\<exists>out. Router_sendEvent_obj m a st =
      Inr (st\<lparr>evs := evs st @ [None], outq := outq st @ [out]\<rparr>) \<and> carries st ev m out"
proof -
  from assms(3) new_RouterEvent_payload obtain re where
    re: "new_RouterEvent (APP_ID (rtrId st) (- 1)) (APP_ID (rtrId st) s) ev = Inr re"
      "rt_src re = APP_ID (rtrId st) (- 1)" "rt_dest re = APP_ID (rtrId st) s"
      "getPayload server_allocReqEvent re = Inr (ev, [])" by blast
  then have "wraps st s ev re" using server_takes_plain [OF assms(3)] by (simp add: wraps_def)
  from send_local [OF this assms(2)] assms(1) have
    "Router_sendEvent (APP_ID (rtrId st) s) a st =
      Inr (st\<lparr>evs := evs st @ [None], outq := outq st @ [(c, EvRouter re)]\<rparr>)"
    by (simp add: local_dest_def)
  moreover have "APP_ID 0 (- 1) \<noteq> APP_ID (rtrId st) s" using assms(1) by (auto simp: local_dest_def APP_ID_inj)
  ultimately show ?thesis using assms(1) re
    by (intro exI [of _ "(c, EvRouter re)"])
      (auto simp: Router_sendEvent_obj_def findDestApp_def findRoute_def local_dest_def assert_value
        carries_def Let_def)
qed

lemma carries_cong: "same_net st st' \<Longrightarrow> carries st' = carries st"
  by (intro ext) (simp add: carries_def local_dest_def same_net_def)

lemma local_dest_cong: "same_net st st' \<Longrightarrow> local_dest st' = local_dest st"
  by (intro ext) (simp add: local_dest_def same_net_def)

lemma send_objs_local:
  assumes "\<forall>m \<in> set ms. \<exists>s c. local_dest st m s c" "ev_get a st = Inr ev" "server_takes ev"
  shows "\<exists>outs. foldM (\<lambda>m. Router_sendEvent_obj m a) ms st =
      Inr (st\<lparr>evs := evs st @ replicate (length ms) None, outq := outq st @ outs\<rparr>) \<and>
    list_all2 (carries st ev) ms outs"
  using assms(1,2)
proof (induction ms arbitrary: st)
  case (Cons m ms)
  then obtain s c where "local_dest st m s c" by auto
  from send_obj_local [OF this Cons.prems(2) assms(3)] obtain out where
    out: "Router_sendEvent_obj m a st = Inr (st\<lparr>evs := evs st @ [None], outq := outq st @ [out]\<rparr>)"
      "carries st ev m out" by blast
  let ?st1 = "st\<lparr>evs := evs st @ [None], outq := outq st @ [out]\<rparr>"
  have net: "same_net st ?st1" by (simp add: same_net_def)
  have "ev_get a ?st1 = Inr ev" using Cons.prems(2) by (simp add: ev_get_def heap_get_old)
  with Cons.IH [of ?st1] Cons.prems(1) obtain outs where
    "foldM (\<lambda>m. Router_sendEvent_obj m a) ms ?st1 =
      Inr (?st1\<lparr>evs := evs ?st1 @ replicate (length ms) None, outq := outq ?st1 @ outs\<rparr>)"
    "list_all2 (carries ?st1 ev) ms outs"
    by (auto simp: local_dest_cong [OF net])
  with out show ?case by (intro exI [of _ "out # outs"]) (simp add: carries_cong [OF net])
qed simp

section \<open>All groups\<close>

definition group_request :: "CommReqEvent \<Rightarrow> nat \<Rightarrow> AnyEvent" where
  "group_request e i = EvCommReq (e\<lparr>grpIndex := of_nat i\<rparr>)"

lemma groups_local:
  assumes "\<forall>ms \<in> set mss. \<forall>m \<in> set ms. \<exists>s c. local_dest st m s c"
    and "info_get p st = Inr info" "i + length mss = length (i_grpInfo info)"
    and "ev_get a st = Inr (EvCommReq e)" "\<And>k. server_takes (group_request e k)"
  shows "\<exists>st' outss. RtrCommReq_groups p a mss i st = Inr st' \<and> outq st' = outq st @ concat outss \<and>
    list_all2 (\<lambda>(k, ms) outs. list_all2 (carries st (group_request e k)) ms outs) (enumerate i mss) outss"
  using assms
proof (induction mss arbitrary: i st info e)
  case Nil
  then show ?case by simp
next
  case (Cons ms mss)
  let ?info = "info\<lparr>i_grpInfo := (i_grpInfo info)[i := length ms]\<rparr>" and ?e = "e\<lparr>grpIndex := of_nat i\<rparr>"
  let ?st1 = "st\<lparr>infos := (infos st)[unat p - 1 := Some ?info]\<rparr>"
  let ?st2 = "?st1\<lparr>evs := (evs st)[a := Some (EvCommReq ?e)]\<rparr>"
  have a: "a < length (evs st)" using Cons.prems(4) by (auto simp: ev_get_def dest: heap_get_bound)
  have net: "same_net st ?st2" by (simp add: same_net_def)
  have e2: "ev_get a ?st2 = Inr (group_request e i)"
    using a by (simp add: ev_get_def heap_get_set_same group_request_def)
  from Cons.prems(1) have "\<forall>m \<in> set ms. \<exists>s c. local_dest ?st2 m s c"
    unfolding local_dest_cong [OF net] by simp
  from send_objs_local [OF this e2 Cons.prems(5)] obtain outs where
    outs: "foldM (\<lambda>m. Router_sendEvent_obj m a) ms ?st2 =
        Inr (?st2\<lparr>evs := evs ?st2 @ replicate (length ms) None, outq := outq ?st2 @ outs\<rparr>)"
      "list_all2 (carries ?st2 (group_request e i)) ms outs" by blast
  let ?st3 = "?st2\<lparr>evs := evs ?st2 @ replicate (length ms) None, outq := outq ?st2 @ outs\<rparr>"
  have net3: "same_net st ?st3" by (simp add: same_net_def)
  have "info_get p ?st3 = info_get p ?st1" by (rule info_get_cong) simp
  then have i3: "info_get p ?st3 = Inr ?info" using info_set_get(2) [OF Cons.prems(2), of ?info] by simp
  have "ev_get a ?st3 = Inr (EvCommReq ?e)"
    using e2 by (simp add: ev_get_def group_request_def heap_get_old)
  moreover have "\<And>k. server_takes (group_request ?e k)" using Cons.prems(5) by (simp add: group_request_def)
  moreover have "Suc i + length mss = length (i_grpInfo ?info)" using Cons.prems(3) by simp
  moreover have "\<forall>ms \<in> set mss. \<forall>m \<in> set ms. \<exists>s c. local_dest ?st3 m s c"
    using Cons.prems(1) unfolding local_dest_cong [OF net3] by simp
  ultimately obtain st' outss where st': "RtrCommReq_groups p a mss (Suc i) ?st3 = Inr st'"
    "outq st' = outq ?st3 @ concat outss"
    "list_all2 (\<lambda>(k, ms) outs. list_all2 (carries ?st3 (group_request ?e k)) ms outs) (enumerate (Suc i) mss) outss"
    using Cons.IH [OF _ i3, of "Suc i" ?e] by blast
  have "RtrCommReq_groups p a (ms # mss) i st = RtrCommReq_groups p a mss (Suc i) ?st3"
    using Cons.prems info_set_get(1) [OF Cons.prems(2), of ?info] a outs(1)
    by (simp add: ev_get_def ev_set_def heap_set_live)
  moreover have "group_request ?e = group_request e" by (intro ext) (simp add: group_request_def)
  ultimately show ?case
    using st' outs(2) unfolding carries_cong [OF net] carries_cong [OF net3]
    by (intro exI [of _ st'] exI [of _ "outs # outss"]) simp
qed

lemma request_sent:
  assumes "clientMap st ec = Some m"
    and "getCommList (commID this) m (st\<lparr>evs := evs st @ [Some (EvCommReq this)]\<rparr>) = Inr commList"
    and "\<forall>ms \<in> set commList. \<forall>o' \<in> set ms. \<exists>s c. local_dest st o' s c"
    and "ev_type this = type_word CommReq" "length (infos st) < 2 ^ 64 - 1"
    and "length (attrName this) < 2 ^ 32" "length (setValues this) < 2 ^ 32" "length (valueOp this) < 2 ^ 32"
  shows "\<exists>st1 outss. handle_event (EvCommReq this) ec st = Inr st1 \<and> outq st1 = outq st @ concat outss \<and>
    list_all2 (\<lambda>(k, ms) outs.
      list_all2 (carries st (group_request (this\<lparr>ev_id := info_ptr (length (infos st))\<rparr>) k)) ms outs)
      (enumerate 0 commList) outss"
proof -
  let ?p = "info_ptr (length (infos st))" and ?a = "length (evs st)" and ?n = "length commList"
  let ?e = "this\<lparr>ev_id := ?p\<rparr>"
  let ?vo = "if op this = OpGet then valueOp this else []"
  let ?resp0 = "new_CommRespEvent (junk st) (ev_id this)"
  let ?resp = "if op this = OpGet
      then ?resp0\<lparr>r_timeStamp := replicate ?n [], r_value := replicate ?n []\<rparr> else ?resp0"
  let ?info = "\<lparr>i_src = ec, i_ev = ?a, i_grpInfo = replicate ?n 0, i_pending = of_nat ?n,
     i_valueOp = ?vo, i_respQ = replicate ?n [], i_resp = Suc ?a\<rparr>"
  let ?st1 = "st\<lparr>infos := infos st @ [Some ?info], evs := evs st @ [Some (EvCommReq ?e), Some (EvCommResp ?resp)]\<rparr>"
  have net: "same_net st ?st1" by (simp add: same_net_def)
  have ser: "\<exists>b. put_vec put_u64 (setValues this) b' = Inr b" "\<exists>b. put_vec (put_enum attr_code) (attrName this) b' = Inr b"
    "\<exists>b. put_vec (put_enum valueop_code) (valueOp this) b' = Inr b" for b'
    using assms(6-8) by (auto simp: fits_vec_def intro: u64v.put_total attrv.put_total valueopv.put_total)
  have takes: "server_takes (group_request ?e k)" for k
  proof -
    let ?ev = "?e\<lparr>grpIndex := of_nat k\<rparr>"
    obtain b where "CommEvent_serialize_out ?ev [] = Inr b"
      by (simp add: CommEvent_serialize_out_def Event_serialize_out_def put_u64_def put_u32_def
          put_i32_def put_enum_def)
    moreover obtain b1 where "put_vec put_u64 (setValues this) b = Inr b1" using ser(1) by blast
    moreover obtain b2 where "put_vec (put_enum attr_code) (attrName this) b1 = Inr b2" using ser(2) by blast
    moreover obtain b3 where "put_vec (put_enum valueop_code) (valueOp this) b2 = Inr b3" using ser(3) by blast
    ultimately have "\<exists>b. CommReqEvent_serialize_out ?ev [] = Inr b"
      by (simp add: CommReqEvent_serialize_out_def put_u64_def)
    then show ?thesis using assms(4) by (simp add: server_takes_def group_request_def any_type_def)
  qed
  have "\<forall>ms \<in> set commList. \<forall>m \<in> set ms. \<exists>s c. local_dest ?st1 m s c"
    using assms(3) unfolding local_dest_cong [OF net] .
  moreover have "info_get ?p ?st1 = Inr ?info"
    using info_ptr_nonzero [OF assms(5)] by (simp add: info_get_def heap_get_def)
  moreover have "ev_get ?a ?st1 = Inr (EvCommReq ?e)" by (simp add: ev_get_def heap_get_def nth_append)
  moreover have "0 + length commList = length (i_grpInfo ?info)" by simp
  ultimately obtain st' outss where st': "RtrCommReq_groups ?p ?a commList 0 ?st1 = Inr st'"
    "outq st' = outq ?st1 @ concat outss"
    "list_all2 (\<lambda>(k, ms) outs. list_all2 (carries ?st1 (group_request ?e k)) ms outs) (enumerate 0 commList) outss"
    using groups_local [of commList ?st1 ?p ?info 0 ?a ?e] takes by blast
  have "handle_event (EvCommReq this) ec st = Inr st'"
    using assms(1,2) st'(1)
    by (auto simp: handle_event_def ev_new_def rtr_process_def ev_get_def heap_get_new
        RtrCommReq_process_def getClient_def Let_def info_new_def ev_set_def heap_set_def heap_get_def
        nth_append)
  with st'(2,3) show ?thesis unfolding carries_cong [OF net] by auto
qed

section \<open>Properties\<close>

text \<open>
  C19: A request reaches the server of every object it is about: for a communicator whose
  objects are all served by connected servers of this router, handling the request of a client
  succeeds and sends, group by group and object by object, one event per object on the channel
  of the object's server, addressed to it and from this router, whose payload a server parses
  as the request with the index of the group and the router's id for the request.
\<close>

theorem request_reaches_servers:
  assumes "clientMap st ec = Some m"
    and "getCommList (commID this) m (st\<lparr>evs := evs st @ [Some (EvCommReq this)]\<rparr>) = Inr commList"
    and "\<forall>ms \<in> set commList. \<forall>o' \<in> set ms. \<exists>s c. local_dest st o' s c"
    and "ev_type this = type_word CommReq" "length (infos st) < 2 ^ 64 - 1"
    and "length (attrName this) < 2 ^ 32" "length (setValues this) < 2 ^ 32" "length (valueOp this) < 2 ^ 32"
  shows "\<exists>st1 outss. handle_event (EvCommReq this) ec st = Inr st1 \<and> outq st1 = outq st @ concat outss \<and>
    list_all2 (\<lambda>(k, ms) outs.
      list_all2 (carries st (group_request (this\<lparr>ev_id := info_ptr (length (infos st))\<rparr>) k)) ms outs)
      (enumerate 0 commList) outss"
  using assms by (rule request_sent)

definition req_state :: RState where
  "req_state = rtr_example\<lparr>routeTable := [''node'' \<mapsto> APP_ID 3 5, ''n2'' \<mapsto> APP_ID 3 5],
     localMap := [5 \<mapsto> Some 2], serverMap := [2 \<mapsto> ''node''], isOpen := (\<lambda>c. c < 10),
     clientMap := [4 \<mapsto> [(7, 0)]],
     evs := [Some (EvCommCreate (new_CommCreateEvent 7 [[''node'', ''n2'']]))]\<rparr>"

definition req_example :: CommReqEvent where
  "req_example = \<lparr>ev_type = type_word CommReq, ev_id = 99, ev_status = 0, commID = 7, op = OpGet,
     grpIndex = 0, attrName = [PWR_ATTR_POWER], setValues = [], valueOp = [FP_ADD]\<rparr>"

definition resp_example :: "u64 \<Rightarrow> CommRespEvent" where
  "resp_example v = \<lparr>ev_type = type_word CommResp, ev_id = info_ptr 0, ev_status = 0, commID = 0,
     op = OpGet, r_timeStamp = [[5]], r_value = [[v]], r_grpIndex = 0, r_errObj = [], r_errAttr = [],
     r_errValue = []\<rparr>"

lemma req_comm_list:
  "getCommList (commID req_example) [(7, 0)] (req_state\<lparr>evs := evs req_state @ [Some (EvCommReq req_example)]\<rparr>)
     = Inr [[''node'', ''n2'']]"
  by (simp add: getCommList_def req_example_def req_state_def ev_get_def heap_get_def as_CommCreate_def
      new_CommCreateEvent_def)

lemma req_example_dests: "\<forall>ms \<in> set [[''node'', ''n2'']]. \<forall>o' \<in> set ms. \<exists>s c. local_dest req_state o' s c"
proof -
  have "local_dest req_state ''node'' 5 2" "local_dest req_state ''n2'' 5 2"
    by (simp_all add: local_dest_def req_state_def rtr_example_def)
  then show ?thesis by auto
qed

lemma req_state_simps:
  "clientMap req_state 4 = Some [(7, 0)]" "outq req_state = []" "infos req_state = []" "isOpen req_state 4"
  by (simp_all add: req_state_def rtr_example_def)

lemma req_example_simps:
  "ev_type req_example = type_word CommReq" "attrName req_example = [PWR_ATTR_POWER]"
  "setValues req_example = []" "valueOp req_example = [FP_ADD]" "op req_example = OpGet"
  "ev_id req_example = 99"
  by (simp_all add: req_example_def)

lemma req_example_handled: "\<exists>st1. handle_event (EvCommReq req_example) 4 req_state = Inr st1"
proof -
  have "length (infos req_state) < 2 ^ 64 - 1" by (simp add: req_state_simps)
  from request_sent [OF req_state_simps(1) req_comm_list req_example_dests req_example_simps(1) this]
  show ?thesis by (auto simp: req_example_simps)
qed

theorem request_reaches_servers_witness:
  "\<exists>st1 o1 o2. handle_event (EvCommReq req_example) 4 req_state = Inr st1 \<and> outq st1 = [o1, o2] \<and>
     carries req_state (group_request (req_example\<lparr>ev_id := info_ptr 0\<rparr>) 0) ''node'' o1 \<and>
     carries req_state (group_request (req_example\<lparr>ev_id := info_ptr 0\<rparr>) 0) ''n2'' o2"
proof -
  have "length (infos req_state) < 2 ^ 64 - 1" by (simp add: req_state_simps)
  from request_reaches_servers [OF req_state_simps(1) req_comm_list req_example_dests req_example_simps(1) this]
  obtain st1 outss where "handle_event (EvCommReq req_example) 4 req_state = Inr st1"
    "outq st1 = concat outss"
    "list_all2 (\<lambda>(k, ms) outs.
      list_all2 (carries req_state (group_request (req_example\<lparr>ev_id := info_ptr 0\<rparr>) k)) ms outs)
      (enumerate 0 [[''node'', ''n2'']]) outss"
    by (auto simp: req_example_simps req_state_simps)
  then show ?thesis by (auto simp: list_all2_Cons1)
qed

text \<open>
  C18: A request to read attributes of groups of objects is answered exactly once, by the last
  of the responses of its objects, in whatever order they arrive: the answer goes to the
  client that asked, carries the id the client gave the request, has for every group and
  attribute the sum of the values of the group's objects in the order of their arrival, and
  has every error of every response; the record of the request and the request itself are
  deleted. The attributes are those that are summed as floating point numbers, no group is
  empty, and every object of a group answers once.
\<close>

theorem get_request_answered_once:
  assumes "handle_event (EvCommReq this) ec st = Inr st1"
    and "op this = OpGet" "ev_type this \<noteq> type_word Router2Router" "isOpen st ec"
    and "clientMap st ec = Some m"
    and "getCommList (commID this) m (st\<lparr>evs := evs st @ [Some (EvCommReq this)]\<rparr>) = Inr commList"
    and "\<forall>ms \<in> set commList. ms \<noteq> []" "length commList < 2 ^ 64" "length (infos st) < 2 ^ 64 - 1"
    and "set (valueOp this) \<subseteq> {FP_ADD}"
    and "all_responses (info_ptr (length (infos st))) (map length commList) (length (valueOp this)) rs"
  shows "\<exists>st2 resp. foldM (\<lambda>r. handle_event (EvCommResp r) c) rs st1 = Inr st2 \<and>
    outq st2 = outq st1 @ [(ec, EvCommResp resp)] \<and> ev_id resp = ev_id this \<and>
    r_value resp = map (\<lambda>g. agg_values (length (valueOp this)) (grp g rs)) [0..<length commList] \<and>
    r_timeStamp resp = map (\<lambda>g. agg_times (length (valueOp this)) (grp g rs)) [0..<length commList] \<and>
    mset (resp_errs resp) = mset (concat (map resp_errs rs)) \<and>
    info_get (info_ptr (length (infos st))) st2 = Inl NullDeref \<and>
    ev_get (length (evs st)) st2 = Inl NullDeref"
proof -
  note inv = request_agg_inv [OF assms(1-7) assms(9)]
  from agg_all [OF inv, of "length (valueOp this)" rs c] assms(8,10,11) obtain st2 resp where
    1: "foldM (\<lambda>r. handle_event (EvCommResp r) c) rs st1 = Inr st2"
      "outq st2 = outq st1 @ [(ec, EvCommResp resp)]" "ev_id resp = ev_id this"
      "agg_resp (map length commList) (length (valueOp this)) rs resp"
      "info_get (info_ptr (length (infos st))) st2 = Inl NullDeref"
      "ev_get (length (evs st)) st2 = Inl NullDeref"
    by auto
  from agg_resp_all [OF 1(4) assms(11)] 1 show ?thesis by auto
qed

theorem get_request_answered_once_witness:
  "\<exists>st1 st2 resp. handle_event (EvCommReq req_example) 4 req_state = Inr st1 \<and>
     foldM (\<lambda>r. handle_event (EvCommResp r) 2)
       [resp_example 0x3ff0000000000000, resp_example 0x4000000000000000] st1 = Inr st2 \<and>
     outq st2 = outq st1 @ [(4, EvCommResp resp)] \<and> ev_id resp = 99 \<and>
     (\<exists>v. r_value resp = [[v]] \<and> dval v = Some 3)"
proof -
  let ?rs = "[resp_example 0x3ff0000000000000, resp_example 0x4000000000000000]"
  obtain st1 where st1: "handle_event (EvCommReq req_example) 4 req_state = Inr st1"
    using req_example_handled by blast
  have g: "grp 0 ?rs = ?rs" by (simp add: grp_def resp_example_def)
  have all: "all_responses (info_ptr (length (infos req_state))) (map length [[''node'', ''n2'']]) (length (valueOp req_example)) ?rs"
    using g by (auto simp: all_responses_def resp_ok_def resp_example_def errs_ok_def complete_def
        req_state_simps req_example_simps)
  have ty: "ev_type req_example \<noteq> type_word Router2Router"
    by (simp add: req_example_simps type_word_def)
  have "\<forall>ms \<in> set [[''node'', ''n2'']]. ms \<noteq> []" "length [[''node'', ''n2'']] < 2 ^ 64"
    "length (infos req_state) < 2 ^ 64 - 1" "set (valueOp req_example) \<subseteq> {FP_ADD}"
    by (simp_all add: req_state_simps req_example_simps)
  from get_request_answered_once [OF st1 req_example_simps(5) ty req_state_simps(4,1) req_comm_list this all, of 2]
  obtain st2 resp where sent: "foldM (\<lambda>r. handle_event (EvCommResp r) 2) ?rs st1 = Inr st2"
    "outq st2 = outq st1 @ [(4, EvCommResp resp)]" "ev_id resp = ev_id req_example"
    and v: "r_value resp = map (\<lambda>g. agg_values (length (valueOp req_example)) (grp g ?rs)) [0..<length [[''node'', ''n2'']]]"
    by blast
  from v have "r_value resp = [agg_values 1 ?rs]" by (simp add: g req_example_simps)
  moreover have "dval (fadd (fadd 0 0x3ff0000000000000) 0x4000000000000000) = Some 3"
  proof -
    have one: "dval 0x3ff0000000000000 = Some 1" and two: "dval 0x4000000000000000 = Some 2"
      by (simp_all add: dval_def decode_def sg_def)
    have "dval (fadd 0 0x3ff0000000000000) = Some (0 + 1)"
      using representable_int [of 1] by (intro dval_fadd) (simp_all add: one)
    then have "dval (fadd (fadd 0 0x3ff0000000000000) 0x4000000000000000) = Some (1 + 2)"
      using representable_int [of 3] by (intro dval_fadd) (simp_all add: two)
    then show ?thesis by simp
  qed
  ultimately have "\<exists>v. r_value resp = [[v]] \<and> dval v = Some 3"
    by (simp add: agg_values_def resp_example_def fpAdd_def)
  with st1 sent show ?thesis by (auto simp: req_example_simps)
qed

end
