(* ===== verification/Tcp.thy ===== *)
theory Tcp
  imports EventChannel CString
begin

text \<open>
  The sockets under a channel (\<^verbatim>\<open>tcpEventChannel.cc\<close>, \<^verbatim>\<open>eventChannel.cc\<close>): the string that
  configures a channel, connecting and listening, the connection made at the first use, and the select call that a daemon waits
  in. The operating system is a parameter: what a call returns is a function of the calls made before it, and the calls made are
  part of the state. The bytes of an event are those of \<open>EventChannel\<close>.
\<close>

section \<open>System calls\<close>

datatype sockopt = TCP_NODELAY | SO_REUSEADDR

datatype syscall =
    SocketCall
  | SetSockOptCall int sockopt
  | HostByNameCall string
  | ConnectCall int u32 "16 word"
  | BindCall int "16 word"
  | ListenCall int int
  | AcceptCall int
  | SleepCall nat
  | CloseCall int

type_synonym os = "syscall list \<Rightarrow> syscall \<Rightarrow> int"

text \<open>
  \<^verbatim>\<open>gethostbyname\<close> returns the first address of the host, or a negative number for the null pointer.
\<close>

record net =
  calls :: "syscall list"
  ins :: "int \<Rightarrow> stream"
  outs :: "int \<Rightarrow> stream"

definition os_call :: "os \<Rightarrow> syscall \<Rightarrow> net \<Rightarrow> int \<times> net" where
  "os_call env c w = (env (calls w) c, w\<lparr>calls := calls w @ [c]\<rparr>)"

section \<open>The configuration string\<close>

definition find_first_not_of :: "char \<Rightarrow> string \<Rightarrow> nat option" where
  "find_first_not_of c s = (if \<forall>x \<in> set s. x = c then None else Some (length (takeWhile (\<lambda>x. x = c) s)))"

text \<open>One turn of the loop: a key, its value and what is left of the string.\<close>

definition split_pair :: "string \<Rightarrow> (string \<times> string \<times> string) res" where
  "split_pair str =
     rbind (substr str (pos_val (find_first_not_of CHR '' '' str)) npos) (\<lambda>tmp.
     let pos = pos_val (find_first_of CHR ''='' tmp) in
     rbind (substr tmp 0 pos) (\<lambda>key.
     rbind (substr tmp (pos_inc pos) npos) (\<lambda>tmp.
     let pos = find_first_of CHR '' '' tmp in
     rbind (substr tmp 0 (pos_val pos)) (\<lambda>val.
     case pos of
       None \<Rightarrow> Inr (key, val, [])
     | Some p \<Rightarrow> rbind (substr tmp (p + 1) npos) (\<lambda>rest. Inr (key, val, rest))))))"

lemma find_first_of_bound: "find_first_of c s = Some p \<Longrightarrow> p < length s"
  by (induction s arbitrary: p) (auto split: if_splits)

lemma substr_length: "substr s pos n = Inr t \<Longrightarrow> length t \<le> length s - pos"
  by (auto simp: substr_def split: if_splits)

lemma split_pair_shorter:
  assumes "str \<noteq> []" "split_pair str = Inr (k, v, rest)"
  shows "length rest < length str"
proof -
  from assms(2) obtain t u val where t: "substr str (pos_val (find_first_not_of CHR '' '' str)) npos = Inr t"
    and u: "substr t (pos_inc (pos_val (find_first_of CHR ''='' t))) npos = Inr u"
    and r: "(case find_first_of CHR '' '' u of None \<Rightarrow> Inr (k, val, [])
      | Some p \<Rightarrow> rbind (substr u (p + 1) npos) (\<lambda>rest. Inr (k, val, rest))) = Inr (k, v, rest)"
    unfolding split_pair_def Let_def by (force simp: rbind_eq_Inr split: option.splits)
  from substr_length [OF t] substr_length [OF u] have "length u \<le> length str" by simp
  with r assms(1) show ?thesis
    by (cases "find_first_of CHR '' '' u") (auto simp: rbind_eq_Inr dest!: find_first_of_bound substr_length)
qed

function tcp_split :: "string \<Rightarrow> (string \<rightharpoonup> string) \<Rightarrow> (string \<rightharpoonup> string) res" where
  "tcp_split str foo =
     (if str = [] then Inr foo
      else rbind (split_pair str) (\<lambda>(key, val, rest). tcp_split rest (foo(key \<mapsto> val))))"
  by pat_completeness auto

termination
  by (relation "measure (\<lambda>(str, foo). length str)") (auto simp: split_pair_shorter)

declare tcp_split.simps [simp del]

text \<open>The two strings the program makes.\<close>

definition client_config :: "string \<Rightarrow> string \<Rightarrow> string" where
  "client_config server port = ''server='' @ server @ '' serverPort='' @ port"

definition listen_config :: "string \<Rightarrow> string" where
  "listen_config port = ''listenPort='' @ port"

section \<open>Channels\<close>

record TcpEventChannel =
  m_fd :: int
  m_alloc :: alloc_func
  m_chname :: string
  m_clientServer :: string
  m_clientServerPort :: string

definition initClient :: "os \<Rightarrow> string \<Rightarrow> string \<Rightarrow> net \<Rightarrow> (int \<times> net) res" where
  "initClient env hostname portStr w =
     rbind (atoi portStr) (\<lambda>p.
     let (fd, w) = os_call env SocketCall w in
     rbind (assert_c (0 \<le> fd)) (\<lambda>_.
     let (rc, w) = os_call env (SetSockOptCall fd TCP_NODELAY) w in
     rbind (assert_c (rc = 0)) (\<lambda>_.
     let (he, w) = os_call env (HostByNameCall hostname) w in
     rbind (assert_c (0 \<le> he)) (\<lambda>_.
     let (ret, w) = os_call env (ConnectCall fd (word_of_int he) (word_of_int p)) w in
     Inr (if ret = 0 then fd else - 1, w)))))"

text \<open>Up to \<open>count\<close> more attempts, a second apart; a sleep that is interrupted ends them.\<close>

fun connect_loop :: "nat \<Rightarrow> os \<Rightarrow> TcpEventChannel \<Rightarrow> net \<Rightarrow> (int \<times> net) res" where
  "connect_loop count env this w =
     rbind (initClient env (m_clientServer this) (m_clientServerPort this) w) (\<lambda>(fd, w).
     if 0 \<le> fd then Inr (fd, w)
     else case count of
       0 \<Rightarrow> Inr (fd, w)
     | Suc n \<Rightarrow>
         (let (rc, w) = os_call env (SleepCall 1) w in
          if rc = 0 then connect_loop n env this w else Inr (fd, w)))"

declare connect_loop.simps [simp del]

definition tcp_xx :: "os \<Rightarrow> TcpEventChannel \<Rightarrow> net \<Rightarrow> (int \<times> net) res" where
  "tcp_xx = connect_loop 60"

definition MAXPENDING :: int where
  "MAXPENDING = 6"

definition setupRecv :: "os \<Rightarrow> int \<Rightarrow> net \<Rightarrow> (int \<times> net) res" where
  "setupRecv env port w =
     (let (fd, w) = os_call env SocketCall w in
      rbind (assert_c (0 \<le> fd)) (\<lambda>_.
      let (status, w) = os_call env (SetSockOptCall fd SO_REUSEADDR) w in
      rbind (assert_c (0 = status)) (\<lambda>_.
      let (rc, w) = os_call env (BindCall fd (word_of_int port)) w in
      if rc < 0 then Inl AssertFail
      else
        let (rc, w) = os_call env (ListenCall fd MAXPENDING) w in
        if rc < 0 then Inl AssertFail else Inr (fd, w))))"

text \<open>The port of a server is cut to 16 bits before it is passed on.\<close>

definition initServer :: "os \<Rightarrow> string \<Rightarrow> net \<Rightarrow> (int \<times> net) res" where
  "initServer env portStr w =
     rbind (atoi portStr) (\<lambda>p. setupRecv env (uint (word_of_int p :: 16 word)) w)"

definition str_or_empty :: "string option \<Rightarrow> string" where
  "str_or_empty v = (case v of None \<Rightarrow> [] | Some s \<Rightarrow> s)"

definition new_TcpEventChannel ::
    "os \<Rightarrow> alloc_func \<Rightarrow> string \<Rightarrow> string \<Rightarrow> net \<Rightarrow> (TcpEventChannel \<times> net) res" where
  "new_TcpEventChannel env func config name w =
     rbind (tcp_split config Map.empty) (\<lambda>foo.
     case foo ''server'' of
       None \<Rightarrow>
         rbind (initServer env (str_or_empty (foo ''listenPort'')) w) (\<lambda>(fd, w).
         Inr (\<lparr>m_fd = fd, m_alloc = func, m_chname = name, m_clientServer = [], m_clientServerPort = []\<rparr>, w))
     | Some server \<Rightarrow>
         Inr (\<lparr>m_fd = - 1, m_alloc = func, m_chname = name, m_clientServer = server,
               m_clientServerPort = str_or_empty (foo ''serverPort'')\<rparr>, w))"

definition getEventChannel ::
    "os \<Rightarrow> string \<Rightarrow> alloc_func \<Rightarrow> string \<Rightarrow> string \<Rightarrow> net \<Rightarrow> (TcpEventChannel option \<times> net) res" where
  "getEventChannel env type func config name w =
     (if type = ''TCP'' then rbind (new_TcpEventChannel env func config name w) (\<lambda>(c, w). Inr (Some c, w))
      else Inr (None, w))"

definition delete_TcpEventChannel :: "os \<Rightarrow> TcpEventChannel \<Rightarrow> net \<Rightarrow> net" where
  "delete_TcpEventChannel env this w = (if - 1 < m_fd this then snd (os_call env (CloseCall (m_fd this)) w) else w)"

definition tcp_accept :: "os \<Rightarrow> TcpEventChannel \<Rightarrow> net \<Rightarrow> (TcpEventChannel \<times> net) res" where
  "tcp_accept env this w =
     (let (cliFd, w) = os_call env (AcceptCall (m_fd this)) w in
      rbind (assert_c (0 \<le> cliFd)) (\<lambda>_.
      let (rc, w) = os_call env (SetSockOptCall cliFd TCP_NODELAY) w in
      rbind (assert_c (rc = 0)) (\<lambda>_.
      Inr (\<lparr>m_fd = cliFd, m_alloc = m_alloc this, m_chname = m_chname this @ ''-recv'', m_clientServer = [],
            m_clientServerPort = []\<rparr>, w))))"

text \<open>A client connects when it is first used. A read or write of the descriptor \<open>-1\<close> fails the assertion on its length.\<close>

definition tcp_connect :: "os \<Rightarrow> TcpEventChannel \<Rightarrow> net \<Rightarrow> (TcpEventChannel \<times> net) res" where
  "tcp_connect env this w =
     (if - 1 = m_fd this then rbind (tcp_xx env this w) (\<lambda>(fd, w). Inr (this\<lparr>m_fd := fd\<rparr>, w)) else Inr (this, w))"

definition tcp_getEvent :: "os \<Rightarrow> TcpEventChannel \<Rightarrow> net \<Rightarrow> (AnyEvent option \<times> TcpEventChannel \<times> net) res" where
  "tcp_getEvent env this w =
     rbind (tcp_connect env this w) (\<lambda>(this, w).
     rbind (assert_c (0 \<le> m_fd this)) (\<lambda>_.
     rbind (getEvent (m_alloc this) (ins w (m_fd this))) (\<lambda>(ev, s).
     Inr (ev, this, w\<lparr>ins := (ins w)(m_fd this := s)\<rparr>))))"

definition tcp_sendEvent :: "os \<Rightarrow> AnyEvent \<Rightarrow> TcpEventChannel \<Rightarrow> net \<Rightarrow> (bool \<times> TcpEventChannel \<times> net) res" where
  "tcp_sendEvent env ev this w =
     rbind (tcp_connect env this w) (\<lambda>(this, w).
     rbind (sendEvent ev (outs w (m_fd this))) (\<lambda>s.
     rbind (assert_c (0 \<le> m_fd this)) (\<lambda>_.
     Inr (True, this, w\<lparr>outs := (outs w)(m_fd this := s)\<rparr>))))"

section \<open>Waiting for a channel\<close>

text \<open>
  The channels in the order of the map: their descriptors are entered in the set of the call and in \<^verbatim>\<open>fdMap\<close>. The
  set holds descriptors below 1024.
\<close>

definition wait_fds :: "('c \<Rightarrow> int) \<Rightarrow> 'c list \<Rightarrow> int \<times> int list \<times> (int \<rightharpoonup> 'c) \<Rightarrow> (int \<times> int list \<times> (int \<rightharpoonup> 'c)) res" where
  "wait_fds fd_of cs =
     foldM (\<lambda>c (fdmax, fds, fdMap).
       let fd = fd_of c in
       if - 1 < fd then
         if fd < 1024 then Inr (if fdmax < fd then fd else fdmax, fds @ [fd], fdMap(fd \<mapsto> c)) else Inl OutOfBounds
       else Inr (fdmax, fds, fdMap)) cs"

text \<open>
  The pointer \<open>chan\<close> is not initialised. Each element of \<open>sels\<close> is what the next select call answers: its result and the
  descriptors it leaves in the set; after the last, the call does not return.
\<close>

fun select_loop ::
    "('c \<Rightarrow> int) \<Rightarrow> 'c list \<Rightarrow> (int list \<Rightarrow> int \<times> int list) list \<Rightarrow> 'c option \<Rightarrow> int \<times> (int \<rightharpoonup> 'c) \<Rightarrow> 'c res" where
  "select_loop fd_of cs [] chan st = Inl Diverges"
| "select_loop fd_of cs (sel # sels) chan (fdmax, fdMap) =
     rbind (wait_fds fd_of cs (fdmax, [], fdMap)) (\<lambda>(fdmax, fds, fdMap).
     let (ret, ready) = sel fds in
     rbind (assert_c (0 < ret)) (\<lambda>_.
     let chan = (case find (\<lambda>i. i \<in> set ready) [0..fdmax] of None \<Rightarrow> chan | Some i \<Rightarrow> fdMap i) in
     case chan of None \<Rightarrow> select_loop fd_of cs sels chan (fdmax, fdMap) | Some c \<Rightarrow> Inr c))"

definition TcpChannelSelect_wait ::
    "('c \<Rightarrow> int) \<Rightarrow> ('c \<times> 'd) list \<Rightarrow> (int list \<Rightarrow> int \<times> int list) list \<Rightarrow> 'c option \<Rightarrow> 'd option res" where
  "TcpChannelSelect_wait fd_of chanMap sels junk =
     rbind (select_loop fd_of (map fst chanMap) sels junk (0, Map.empty)) (\<lambda>c. Inr (map_of chanMap c))"

end
