(* ===== verification/TcpProps.thy ===== *)
theory TcpProps
  imports Tcp
begin

text \<open>
  The strings that configure a channel are taken apart as they were put together; a client connects to the server it is given, at
  its first use, and gives up after 61 attempts; the select call picks the channel of the smallest ready descriptor.
\<close>

section \<open>Configuration strings\<close>

lemma substr_all: "length s \<le> npos \<Longrightarrow> pos \<le> length s \<Longrightarrow> substr s pos npos = Inr (drop pos s)"
  by (simp add: substr_def)

lemma find_first_not_of_word: "s \<noteq> [] \<Longrightarrow> hd s \<noteq> c \<Longrightarrow> find_first_not_of c s = Some 0"
  by (cases s) (auto simp: find_first_not_of_def)

lemma split_pair_text:
  assumes "key \<noteq> []" "hd key \<noteq> CHR '' ''" "CHR ''='' \<notin> set key" "length (key @ CHR ''='' # body) \<le> npos"
  shows "split_pair (key @ CHR ''='' # body) =
    (case find_first_of CHR '' '' body of
       None \<Rightarrow> Inr (key, body, [])
     | Some p \<Rightarrow> Inr (key, take p body, drop (p + 1) body))"
proof -
  let ?s = "key @ CHR ''='' # body"
  have s: "substr ?s 0 npos = Inr ?s" using substr_all [of ?s 0] assms(4) by simp
  have f: "find_first_not_of CHR '' '' ?s = Some 0" "find_first_of CHR ''='' ?s = Some (length key)"
    using find_first_not_of_word [of ?s] assms(1,2) find_first_of_app [OF assms(3)] by simp_all
  have k: "substr ?s 0 (length key) = Inr key" by (simp add: substr_def)
  have t: "pos_inc (length key) = length key + 1" "substr ?s (length key + 1) npos = Inr body"
    using substr_all [of ?s "length key + 1"] assms(4) by (simp_all add: pos_inc_def)
  have n: "substr body 0 npos = Inr body" using substr_all [of body 0] assms(4) by simp
  have r: "substr body 0 p = Inr (take p body)" "substr body (p + 1) npos = Inr (drop (p + 1) body)"
    if "find_first_of CHR '' '' body = Some p" for p
    using find_first_of_bound [OF that] substr_all [of body "p + 1"] assms(4) by (simp_all add: substr_def)
  have p0: "pos_val (Some p) = p" "pos_val None = npos" for p by (simp_all add: pos_val_def)
  show ?thesis
    unfolding split_pair_def f p0 s Let_def rbind_Inr k t
    using n r by (auto simp: p0 split: option.splits)
qed

lemma split_pair_last:
  assumes "key \<noteq> []" "hd key \<noteq> CHR '' ''" "CHR ''='' \<notin> set key" "CHR '' '' \<notin> set val" "length (key @ CHR ''='' # val) \<le> npos"
  shows "split_pair (key @ CHR ''='' # val) = Inr (key, val, [])"
  using split_pair_text [OF assms(1-3,5)] assms(4) find_first_of_None [of "CHR '' ''" val] by simp

lemma split_pair_next:
  assumes "key \<noteq> []" "hd key \<noteq> CHR '' ''" "CHR ''='' \<notin> set key" "CHR '' '' \<notin> set val"
    and "length (key @ CHR ''='' # val @ CHR '' '' # rest) \<le> npos"
  shows "split_pair (key @ CHR ''='' # val @ CHR '' '' # rest) = Inr (key, val, rest)"
  using split_pair_text [OF assms(1-3,5)] find_first_of_app [OF assms(4), of rest] by simp

lemma tcp_split_step:
  "split_pair str = Inr (key, val, rest) \<Longrightarrow> str \<noteq> [] \<Longrightarrow> tcp_split str foo = tcp_split rest (foo(key \<mapsto> val))"
  "tcp_split [] foo = Inr foo"
  by (simp_all add: tcp_split.simps [of str] tcp_split.simps [of "[]"])

lemma split_client_config:
  assumes "CHR '' '' \<notin> set server" "CHR '' '' \<notin> set port" "length (client_config server port) \<le> npos"
  shows "tcp_split (client_config server port) Map.empty = Inr [''server'' \<mapsto> server, ''serverPort'' \<mapsto> port]"
proof -
  have eq: "client_config server port = ''server'' @ CHR ''='' # server @ CHR '' '' # ''serverPort'' @ CHR ''='' # port"
    by (simp add: client_config_def)
  have "split_pair (client_config server port) = Inr (''server'', server, ''serverPort'' @ CHR ''='' # port)"
    unfolding eq by (rule split_pair_next) (use assms eq in simp_all)
  moreover have "client_config server port \<noteq> []" by (simp add: client_config_def)
  ultimately have "tcp_split (client_config server port) Map.empty = tcp_split (''serverPort'' @ CHR ''='' # port) [''server'' \<mapsto> server]"
    by (rule tcp_split_step(1))
  also have "\<dots> = tcp_split [] [''server'' \<mapsto> server, ''serverPort'' \<mapsto> port]"
    by (rule tcp_split_step(1), rule split_pair_last) (use assms eq in simp_all)
  finally show ?thesis by (simp only: tcp_split_step(2))
qed

lemma split_listen_config:
  assumes "CHR '' '' \<notin> set port" "length (listen_config port) \<le> npos"
  shows "tcp_split (listen_config port) Map.empty = Inr [''listenPort'' \<mapsto> port]"
proof -
  have "split_pair (listen_config port) = Inr (''listenPort'', port, [])"
    using split_pair_last [of "''listenPort''" port] assms by (simp add: listen_config_def)
  moreover have "listen_config port \<noteq> []" by (simp add: listen_config_def)
  ultimately have "tcp_split (listen_config port) Map.empty = tcp_split [] [''listenPort'' \<mapsto> port]"
    by (rule tcp_split_step(1))
  then show ?thesis by (simp only: tcp_split_step(2))
qed

section \<open>Connecting\<close>

definition is_connect :: "syscall \<Rightarrow> bool" where
  "is_connect c = (case c of ConnectCall fd a p \<Rightarrow> True | _ \<Rightarrow> False)"

definition connects :: "net \<Rightarrow> nat" where
  "connects w = length (filter is_connect (calls w))"

definition attempt :: "int \<Rightarrow> string \<Rightarrow> int \<Rightarrow> int \<Rightarrow> syscall list" where
  "attempt fd host he p =
     [SocketCall, SetSockOptCall fd TCP_NODELAY, HostByNameCall host, ConnectCall fd (word_of_int he) (word_of_int p)]"

lemma connects_attempt: "length (filter is_connect (attempt fd host he p)) = 1"
  by (simp add: attempt_def is_connect_def)

lemma initClient_run:
  assumes "initClient env host port w = Inr (r, w')"
    and "fd = env (calls w) SocketCall" "he = env (calls w @ [SocketCall, SetSockOptCall fd TCP_NODELAY]) (HostByNameCall host)"
  shows "0 \<le> fd \<and> (\<exists>p. atoi port = Inr p \<and> w' = w\<lparr>calls := calls w @ attempt fd host he p\<rparr> \<and>
    r = (if env (calls w @ butlast (attempt fd host he p)) (last (attempt fd host he p)) = 0 then fd else - 1))"
  using assms by (auto simp: initClient_def os_call_def rbind_eq_Inr attempt_def Let_def)

lemma initClient_calls:
  assumes "initClient env host port w = Inr (r, w')"
  shows "\<exists>fd he p. 0 \<le> fd \<and> atoi port = Inr p \<and> w' = w\<lparr>calls := calls w @ attempt fd host he p\<rparr> \<and>
    r = (if env (calls w @ butlast (attempt fd host he p)) (last (attempt fd host he p)) = 0 then fd else - 1) \<and>
    he = env (calls w @ [SocketCall, SetSockOptCall fd TCP_NODELAY]) (HostByNameCall host)"
  using initClient_run [OF assms refl refl] by blast

text \<open>The last calls are an attempt that succeeded, with the address the host's name had.\<close>

definition connected :: "os \<Rightarrow> string \<Rightarrow> string \<Rightarrow> int \<Rightarrow> net \<Rightarrow> bool" where
  "connected env host port fd w \<longleftrightarrow> 0 \<le> fd \<and>
     (\<exists>h he p. atoi port = Inr p \<and> calls w = h @ attempt fd host he p \<and>
       he = env (h @ [SocketCall, SetSockOptCall fd TCP_NODELAY]) (HostByNameCall host) \<and>
       env (butlast (calls w)) (last (calls w)) = 0)"

lemma initClient_result:
  assumes "initClient env host port w = Inr (r, w')"
  shows "connects w' = connects w + 1 \<and> ins w' = ins w \<and> outs w' = outs w \<and> (r = - 1 \<or> connected env host port r w')"
proof -
  from initClient_calls [OF assms] obtain fd he p where c: "0 \<le> fd" "atoi port = Inr p" "w' = w\<lparr>calls := calls w @ attempt fd host he p\<rparr>"
    "r = (if env (calls w @ butlast (attempt fd host he p)) (last (attempt fd host he p)) = 0 then fd else - 1)"
    "he = env (calls w @ [SocketCall, SetSockOptCall fd TCP_NODELAY]) (HostByNameCall host)" by blast
  have "butlast (calls w') = calls w @ butlast (attempt fd host he p)" "last (calls w') = last (attempt fd host he p)"
    by (simp_all add: c(3) attempt_def butlast_append)
  with c show ?thesis by (auto simp: connected_def connects_def connects_attempt)
qed

text \<open>There are at most \<open>n + 1\<close> attempts.\<close>

lemma connect_loop_result:
  assumes "connect_loop n env this w = Inr (r, w')"
  shows "connects w' \<le> connects w + n + 1 \<and> ins w' = ins w \<and> outs w' = outs w \<and>
    (r = - 1 \<or> connected env (m_clientServer this) (m_clientServerPort this) r w')"
  using assms
proof (induction n arbitrary: w)
  case 0
  then show ?case
    by (auto simp: connect_loop.simps [of 0] rbind_eq_Inr split: if_splits dest!: initClient_result)
next
  case (Suc n)
  from Suc.prems obtain r1 w1 where i: "initClient env (m_clientServer this) (m_clientServerPort this) w = Inr (r1, w1)"
    and rest: "(if 0 \<le> r1 then Inr (r1, w1)
      else let (rc, w) = os_call env (SleepCall 1) w1 in if rc = 0 then connect_loop n env this w else Inr (r1, w)) = Inr (r, w')"
    by (auto simp: connect_loop.simps [of "Suc n"] rbind_eq_Inr cong: if_cong)
  note c1 = initClient_result [OF i]
  let ?w2 = "w1\<lparr>calls := calls w1 @ [SleepCall 1]\<rparr>"
  have c2: "connects ?w2 = connects w1" by (simp add: connects_def is_connect_def)
  consider "0 \<le> r1" "r = r1" "w' = w1" | "\<not> 0 \<le> r1" "r = r1" "w' = ?w2" | "connect_loop n env this ?w2 = Inr (r, w')"
    using rest by (cases "0 \<le> r1"; cases "env (calls w1) (SleepCall 1) = 0") (simp_all add: os_call_def)
  then show ?case
  proof cases
    case 1
    with c1 show ?thesis by auto
  next
    case 2
    with c1 c2 show ?thesis by (auto simp: connected_def)
  next
    case 3
    from Suc.IH [OF 3] c1 c2 show ?thesis by auto
  qed
qed

lemma tcp_connect_result:
  assumes "tcp_connect env this w = Inr (this', w')" "m_fd this = - 1" "0 \<le> m_fd this'"
  shows "connects w' \<le> connects w + 61 \<and> connected env (m_clientServer this) (m_clientServerPort this) (m_fd this') w' \<and>
    ins w' = ins w \<and> outs w' = outs w \<and> m_alloc this' = m_alloc this"
proof -
  from assms(1,2) obtain r where r: "connect_loop 60 env this w = Inr (r, w')" "this' = this\<lparr>m_fd := r\<rparr>"
    by (auto simp: tcp_connect_def tcp_xx_def rbind_eq_Inr)
  from connect_loop_result [OF r(1)] assms(3) show ?thesis by (auto simp: r(2))
qed


text \<open>A host that never accepts: every attempt opens a socket, and none is closed.\<close>

definition refuses :: "os \<Rightarrow> bool" where
  "refuses env \<longleftrightarrow> (\<forall>h. 0 \<le> env h SocketCall \<and> (\<forall>fd opt. env h (SetSockOptCall fd opt) = 0) \<and> (\<forall>nm. 0 \<le> env h (HostByNameCall nm)) \<and>
     (\<forall>fd a p. env h (ConnectCall fd a p) \<noteq> 0) \<and> env h (SleepCall 1) = 0)"

definition sockets :: "net \<Rightarrow> nat" where
  "sockets w = length (filter (\<lambda>c. c = SocketCall) (calls w))"

definition closes :: "net \<Rightarrow> nat" where
  "closes w = length (filter (\<lambda>c. case c of CloseCall fd \<Rightarrow> True | _ \<Rightarrow> False) (calls w))"

lemma initClient_refused:
  assumes "refuses env" "atoi port = Inr p"
  shows "\<exists>w'. initClient env host port w = Inr (- 1, w') \<and> connects w' = connects w + 1 \<and> sockets w' = sockets w + 1 \<and> closes w' = closes w"
  using assms
  by (simp add: initClient_def os_call_def refuses_def Let_def connects_def is_connect_def sockets_def closes_def)

lemma connect_loop_refused:
  assumes "refuses env" "atoi (m_clientServerPort this) = Inr p"
  shows "\<exists>w'. connect_loop n env this w = Inr (- 1, w') \<and> connects w' = connects w + n + 1 \<and> sockets w' = sockets w + n + 1 \<and>
    closes w' = closes w"
proof (induction n arbitrary: w)
  case 0
  from initClient_refused [OF assms, of "m_clientServer this" w] show ?case by (auto simp: connect_loop.simps [of 0])
next
  case (Suc n)
  from initClient_refused [OF assms, of "m_clientServer this" w] obtain w1 where
    w1: "initClient env (m_clientServer this) (m_clientServerPort this) w = Inr (- 1, w1)"
      "connects w1 = connects w + 1" "sockets w1 = sockets w + 1" "closes w1 = closes w" by blast
  let ?w2 = "w1\<lparr>calls := calls w1 @ [SleepCall 1]\<rparr>"
  have c2: "connects ?w2 = connects w1" "sockets ?w2 = sockets w1" "closes ?w2 = closes w1"
    by (simp_all add: connects_def is_connect_def sockets_def closes_def)
  have "connect_loop (Suc n) env this w = connect_loop n env this ?w2"
    using assms(1) by (simp add: connect_loop.simps [of "Suc n"] w1(1) os_call_def refuses_def)
  with Suc.IH [of ?w2] w1 c2 show ?case by auto
qed

text \<open>The calls of these attempts: before each but the first, a sleep of a second.\<close>

definition attempts :: "string \<Rightarrow> int \<Rightarrow> syscall list list \<Rightarrow> bool" where
  "attempts host p as \<longleftrightarrow> (\<forall>a \<in> set as. \<exists>fd he. 0 \<le> fd \<and> a = attempt fd host he p)"

lemma refused_calls:
  assumes "refuses env" "atoi (m_clientServerPort this) = Inr p" "connect_loop n env this w = Inr (r, w')"
  shows "\<exists>as. length as = Suc n \<and> attempts (m_clientServer this) p as \<and>
    calls w' = calls w @ tl (concat (map (\<lambda>a. SleepCall 1 # a) as))"
  using assms(3)
proof (induction n arbitrary: w)
  case (Suc n)
  from initClient_refused [OF assms(1,2), of "m_clientServer this" w] obtain w1 where
    w1: "initClient env (m_clientServer this) (m_clientServerPort this) w = Inr (- 1, w1)" by blast
  from initClient_calls [OF w1] assms(2) obtain fd he where c: "0 \<le> fd" "calls w1 = calls w @ attempt fd (m_clientServer this) he p" by auto
  let ?w2 = "w1\<lparr>calls := calls w1 @ [SleepCall 1]\<rparr>"
  have "connect_loop n env this ?w2 = Inr (r, w')"
    using assms(1) Suc.prems by (simp add: connect_loop.simps [of "Suc n"] w1 os_call_def refuses_def)
  from Suc.IH [OF this] obtain as where as: "length as = Suc n" "attempts (m_clientServer this) p as"
    "calls w' = (calls w1 @ [SleepCall 1]) @ tl (concat (map (\<lambda>a. SleepCall 1 # a) as))" by auto
  moreover from as(1) obtain b bs where "as = b # bs" by (cases as) auto
  ultimately show ?case using c by (intro exI [of _ "attempt fd (m_clientServer this) he p # as"]) (auto simp: attempts_def)
next
  case 0
  from initClient_refused [OF assms(1,2), of "m_clientServer this" w] obtain w1 where
    w1: "initClient env (m_clientServer this) (m_clientServerPort this) w = Inr (- 1, w1)" by blast
  from initClient_calls [OF w1] assms(2) obtain fd he where "0 \<le> fd" "calls w1 = calls w @ attempt fd (m_clientServer this) he p" by auto
  with 0 w1 show ?case
    by (intro exI [of _ "[attempt fd (m_clientServer this) he p]"]) (auto simp: attempts_def connect_loop.simps [of 0])
qed

text \<open>
  C35: A client whose host refuses it gives up after 61 attempts, with a sleep of a second before each but the first, and the event it
  was to send or receive fails an assertion; each attempt has opened a socket, and none of them has been closed.
\<close>

theorem refused_client_leaks:
  assumes "refuses env" "m_fd this = - 1" "atoi (m_clientServerPort this) = Inr p" "sendEvent ev (outs w (- 1)) = Inr s"
  shows "\<exists>w'. tcp_xx env this w = Inr (- 1, w') \<and> connects w' = connects w + 61 \<and> sockets w' = sockets w + 61 \<and>
    closes w' = closes w \<and>
    (\<exists>as. length as = 61 \<and> attempts (m_clientServer this) p as \<and> calls w' = calls w @ tl (concat (map (\<lambda>a. SleepCall 1 # a) as))) \<and>
    tcp_getEvent env this w = Inl AssertFail \<and> tcp_sendEvent env ev this w = Inl AssertFail"
proof -
  from connect_loop_refused [where n = 60, OF assms(1,3), of w] obtain w' where
    w': "tcp_xx env this w = Inr (- 1, w')" "connects w' = connects w + 61" "sockets w' = sockets w + 61" "closes w' = closes w"
    by (auto simp: tcp_xx_def)
  have "outs w' = outs w" using connect_loop_result [of 60 env this w "- 1" w'] w'(1) by (simp add: tcp_xx_def)
  moreover have "\<exists>as. length as = 61 \<and> attempts (m_clientServer this) p as \<and> calls w' = calls w @ tl (concat (map (\<lambda>a. SleepCall 1 # a) as))"
    using refused_calls [OF assms(1,3), of 60 w "- 1" w'] w'(1) by (simp add: tcp_xx_def)
  ultimately show ?thesis using w' assms by (simp add: tcp_getEvent_def tcp_sendEvent_def tcp_connect_def)
qed

definition deaf_host :: os where
  "deaf_host h c = (case c of ConnectCall fd a p \<Rightarrow> - 1 | SocketCall \<Rightarrow> int (length h) | _ \<Rightarrow> 0)"

definition demo_client :: "string \<Rightarrow> TcpEventChannel" where
  "demo_client port =
     \<lparr>m_fd = - 1, m_alloc = router_allocRtrEvent, m_chname = ''router'', m_clientServer = ''h'', m_clientServerPort = port\<rparr>"

definition idle_net :: net where
  "idle_net = \<lparr>calls = [], ins = \<lambda>_. [], outs = \<lambda>_. []\<rparr>"

theorem refused_client_leaks_witness:
  "\<exists>w'. tcp_xx deaf_host (demo_client ''80'') idle_net = Inr (- 1, w') \<and> sockets w' = 61 \<and> closes w' = 0 \<and>
     tcp_sendEvent deaf_host connect_example (demo_client ''80'') idle_net = Inl AssertFail"
proof -
  have r: "refuses deaf_host" by (simp add: refuses_def deaf_host_def)
  have a: "atoi (m_clientServerPort (demo_client ''80'')) = Inr 80"
    by (simp add: demo_client_def atoi_def is_space_def digits_val_def is_digit_def digit_val_def)
  obtain s where s: "sendEvent connect_example (outs idle_net (- 1)) = Inr s"
    by (simp add: connect_example_def sendEvent_def ser_eval any_type_def)
  have "m_fd (demo_client ''80'') = - 1" "sockets idle_net = 0" "closes idle_net = 0"
    by (simp_all add: demo_client_def idle_net_def sockets_def closes_def)
  with refused_client_leaks [OF r _ a s] show ?thesis by auto
qed

section \<open>The select call\<close>

lemma wait_fds_eq:
  assumes "\<forall>c \<in> set cs. fd_of c < 1024"
  shows "wait_fds fd_of cs (m, fds, f) =
    Inr (foldl (\<lambda>m fd. if m < fd then fd else m) m (filter ((\<le>) 0) (map fd_of cs)), fds @ filter ((\<le>) 0) (map fd_of cs),
         f ++ map_of (rev (map (\<lambda>c. (fd_of c, c)) (filter (\<lambda>c. 0 \<le> fd_of c) cs))))"
  using assms by (induction cs arbitrary: m fds f) (auto simp: wait_fds_def Let_def)

lemma foldl_max: "x \<in> set (m # xs) \<Longrightarrow> x \<le> foldl (\<lambda>m fd. if m < fd then fd else m) (m :: int) xs"
proof (induction xs arbitrary: m x)
  case (Cons y xs)
  from Cons.IH [of "if m < y then y else m" "if m < y then y else m"] Cons.IH [of x "if m < y then y else m"] Cons.prems
  show ?case by (auto split: if_splits)
qed simp

lemma find_upto_least:
  assumes "P i" "0 \<le> i" "i \<le> m"
  shows "\<exists>j. find P [0..m] = Some j \<and> P j \<and> 0 \<le> j \<and> (\<forall>k. 0 \<le> k \<and> P k \<longrightarrow> j \<le> k)"
proof -
  have "find P [0..m] \<noteq> None" using assms by (auto simp: find_None_iff)
  then obtain j where j: "find P [0..m] = Some j" by blast
  then obtain n where n: "n < length [0..m]" "P ([0..m] ! n)" "j = [0..m] ! n" "\<forall>k < n. \<not> P ([0..m] ! k)"
    by (auto simp: find_Some_iff)
  then have jn: "j = int n" by (simp add: nth_upto)
  have "j \<le> k" if "0 \<le> k" "P k" for k
  proof (rule ccontr)
    assume "\<not> j \<le> k"
    then have "nat k < n" using jn that by simp
    with n(1,4) have "\<not> P ([0..m] ! nat k)" by blast
    moreover have "[0..m] ! nat k = k" using \<open>nat k < n\<close> n(1) that(1) by (simp add: nth_upto)
    ultimately show False using that(2) by simp
  qed
  with j n jn show ?thesis by auto
qed

text \<open>
  A daemon that waits goes on with the data of the channel that has the smallest of the descriptors the select call left in its
  set, whatever the uninitialised pointer held; a client that has not connected yet, whose descriptor is \<open>-1\<close>, is not waited for.
\<close>

theorem select_picks_least:
  assumes "\<forall>c \<in> fst ` set chanMap. fd_of c < 1024" "sel (filter (\<lambda>fd. 0 \<le> fd) (map (fd_of \<circ> fst) chanMap)) = (n, ready)"
    and "0 < n" "ready \<noteq> []" "set ready \<subseteq> {fd. 0 \<le> fd \<and> fd \<in> fd_of ` fst ` set chanMap}"
  shows "\<exists>c \<in> fst ` set chanMap. TcpChannelSelect_wait fd_of chanMap (sel # sels) junk = Inr (map_of chanMap c) \<and>
    0 \<le> fd_of c \<and> fd_of c \<in> set ready \<and> (\<forall>fd \<in> set ready. fd_of c \<le> fd)"
proof -
  let ?cs = "map fst chanMap"
  let ?fds = "filter (\<lambda>fd. 0 \<le> fd) (map fd_of ?cs)"
  let ?max = "foldl (\<lambda>m fd. if m < fd then fd else m) 0 ?fds"
  let ?map = "map_of (rev (map (\<lambda>c. (fd_of c, c)) (filter (\<lambda>c. 0 \<le> fd_of c) ?cs)))"
  from assms(4) obtain r where r: "r \<in> set ready" by (cases ready) auto
  with assms(5) have "r \<in> set ?fds" "0 \<le> r" by auto
  then have "r \<le> ?max" using foldl_max [of r 0 ?fds] by simp
  from find_upto_least [of "\<lambda>i. i \<in> set ready", OF r \<open>0 \<le> r\<close> this] obtain i where
    i: "find (\<lambda>i. i \<in> set ready) [0..?max] = Some i" "i \<in> set ready" "0 \<le> i" "\<forall>k. 0 \<le> k \<and> k \<in> set ready \<longrightarrow> i \<le> k"
    by blast
  from i(2) assms(5) have "i \<in> fst ` set (rev (map (\<lambda>c. (fd_of c, c)) (filter (\<lambda>c. 0 \<le> fd_of c) ?cs)))" by force
  then have "?map i \<noteq> None" by (simp only: map_of_eq_None_iff not_not)
  then obtain c where c: "?map i = Some c" by blast
  then have fc: "c \<in> fst ` set chanMap" "fd_of c = i" by (auto dest!: map_of_SomeD)
  have "wait_fds fd_of ?cs (0, [], Map.empty) = Inr (?max, ?fds, ?map)"
    using wait_fds_eq [of ?cs fd_of 0 "[]" Map.empty] assms(1) by simp
  then have "TcpChannelSelect_wait fd_of chanMap (sel # sels) junk = Inr (map_of chanMap c)"
    using assms(2,3) i(1) c by (simp add: TcpChannelSelect_wait_def comp_def)
  with i fc assms(5) show ?thesis by auto
qed

text \<open>Two connected channels, both ready, and one that is not connected.\<close>

theorem select_picks_least_witness:
  "TcpChannelSelect_wait (\<lambda>c. if c = ''a'' then 7 else if c = ''b'' then 5 else - 1)
     [(''a'', 1), (''b'', 2), (''c'', 3 :: nat)] [\<lambda>fds. (2, fds)] (Some ''x'') = Inr (Some 2)"
proof -
  let ?fd = "\<lambda>c. if c = ''a'' then 7 else if c = ''b'' then 5 else (- 1 :: int)"
  let ?m = "[(''a'', 1), (''b'', 2), (''c'', 3 :: nat)]"
  have "\<exists>c \<in> fst ` set ?m. TcpChannelSelect_wait ?fd ?m [\<lambda>fds. (2, fds)] (Some ''x'') = Inr (map_of ?m c) \<and>
      0 \<le> ?fd c \<and> ?fd c \<in> set [7, 5] \<and> (\<forall>fd \<in> set [7, 5]. ?fd c \<le> fd)"
    by (rule select_picks_least [where n = 2 and ready = "[7, 5]"]) simp_all
  then show ?thesis by simp
qed

end
