(* ===== verification/Getopt.thy ===== *)
theory Getopt
  imports CString
begin

text \<open>
  The command lines of the daemons: \<^verbatim>\<open>getopt_long\<close> for options that all take an argument, as the router, the server
  and the logger call it (no short options), and the arguments that \<^verbatim>\<open>pwrdaemon.cc\<close> hands to each of them.
\<close>

section \<open>getopt\_long\<close>

text \<open>What the calls return one after the other: an option and its argument, or the error character.\<close>

datatype optres = Opt string string | BadOpt

text \<open>An exact name, or the only one that starts with what is given.\<close>

definition opt_lookup :: "string list \<Rightarrow> string \<Rightarrow> string option" where
  "opt_lookup names n =
     (if n \<in> set names then Some n
      else case filter (\<lambda>m. take (length n) m = n) names of [m] \<Rightarrow> Some m | _ \<Rightarrow> None)"

fun getopt_long :: "string list \<Rightarrow> string list \<Rightarrow> optres list" where
  "getopt_long names [] = []"
| "getopt_long names (a # as) =
     (if a = ''--'' then []
      else if take 2 a = ''--'' then
        (case opt_lookup names (takeWhile (\<lambda>c. c \<noteq> CHR ''='') (drop 2 a)) of
           None \<Rightarrow> BadOpt # getopt_long names as
         | Some n \<Rightarrow>
             (case find_first_of CHR ''='' a of
                Some p \<Rightarrow> Opt n (drop (p + 1) a) # getopt_long names as
              | None \<Rightarrow> (case as of [] \<Rightarrow> [BadOpt] | v # vs \<Rightarrow> Opt n v # getopt_long names vs)))
      else if take 1 a = ''-'' \<and> a \<noteq> ''-'' then replicate (length a - 1) BadOpt @ getopt_long names as
      else getopt_long names as)"

definition long_opt :: "string \<Rightarrow> string \<Rightarrow> string" where
  "long_opt n v = ''--'' @ n @ ''='' @ v"

lemma getopt_long_opt:
  assumes "n \<in> set names" "CHR ''='' \<notin> set n"
  shows "getopt_long names (long_opt n v # as) = Opt n v # getopt_long names as"
proof -
  have t: "takeWhile (\<lambda>c. c \<noteq> CHR ''='') (n @ CHR ''='' # v) = n" using assms(2) by (subst takeWhile_append2) auto
  have "find_first_of CHR ''='' (''--'' @ n @ CHR ''='' # v) = Some (2 + length n)"
    using find_first_of_app [of "CHR ''=''" "''--'' @ n" v] assms(2) by simp
  then show ?thesis using assms(1) t by (simp add: long_opt_def opt_lookup_def)
qed

declare getopt_long.simps(2) [simp del]

lemma getopt_long_opts:
  assumes "\<forall>(n, v) \<in> set os. n \<in> set names \<and> CHR ''='' \<notin> set n"
  shows "getopt_long names (map (\<lambda>(n, v). long_opt n v) os) = map (\<lambda>(n, v). Opt n v) os"
  using assms by (induction os) (auto simp: getopt_long_opt)

section \<open>The arguments of a daemon's parts\<close>

text \<open>
  \<^verbatim>\<open>findArgs\<close>: the strings that start with the prefix are overwritten with dashes as far as the prefix goes, in
  place, and handed on from two characters before its end. What is returned are the strings as they are after it and those handed on.
\<close>

definition findArgs :: "string \<Rightarrow> string list \<Rightarrow> string list \<times> string list" where
  "findArgs prefix argv =
     (let pre = ''--'' @ prefix @ ''.''; n = length pre;
          hit = (\<lambda>a. take n a = pre)
      in (map (\<lambda>a. if hit a then replicate n (CHR ''-'') @ drop n a else a) argv,
          map (\<lambda>a. ''--'' @ drop n a) (filter hit argv)))"

text \<open>
  The threads \<^verbatim>\<open>main\<close> starts, with their arguments after the program's name: the router if it has any, the servers
  \<^verbatim>\<open>srvr\<close>, \<^verbatim>\<open>srvr0\<close>, \<^verbatim>\<open>srvr1\<close> and on up to
  the first that has none, and the logger.
\<close>

datatype thread = RtrThread "string list" | SrvrThread "string list" | LgrThread "string list"

definition srvr_prefix :: "int \<Rightarrow> string" where
  "srvr_prefix count = (if - 1 < count then ''srvr'' @ show_nat (nat count) else ''srvr'')"

text \<open>Every turn but the last overwrites a string that starts with two dashes and a letter.\<close>

definition lettered :: "string list \<Rightarrow> nat" where
  "lettered argv = length (filter (\<lambda>a. \<exists>c rest. a = ''--'' @ c # rest \<and> c \<noteq> CHR ''-'') argv)"

lemma filter_map_less:
  assumes "\<And>a. h a \<Longrightarrow> P a \<and> \<not> P (f a)" "\<And>a. \<not> h a \<Longrightarrow> f a = a"
  shows "length (filter P (map f xs)) + length (filter h xs) = length (filter P xs)"
proof (induction xs)
  case (Cons x xs)
  with assms [of x] show ?case by (cases "h x") auto
qed simp

lemma lettered_findArgs:
  assumes "snd (findArgs (c # p) argv) \<noteq> []" "c \<noteq> CHR ''-''"
  shows "lettered (fst (findArgs (c # p) argv)) < lettered argv"
proof -
  let ?pre = "''--'' @ (c # p) @ ''.''"
  define n where "n = length ?pre"
  define h where "h = (\<lambda>a. take n a = ?pre)"
  define f where "f = (\<lambda>a. if h a then replicate n (CHR ''-'') @ drop n a else a)"
  let ?P = "\<lambda>a. \<exists>c rest. a = ''--'' @ c # rest \<and> c \<noteq> CHR ''-''"
  have hit: "?P a \<and> \<not> ?P (f a)" if "h a" for a
  proof -
    from that have "a = ?pre @ drop n a" by (metis h_def append_take_drop_id)
    then have "a = ''--'' @ c # (p @ ''.'' @ drop n a)" by simp
    with assms(2) that show ?thesis by (auto simp: f_def n_def)
  qed
  have miss: "\<not> h a \<Longrightarrow> f a = a" for a by (simp add: f_def)
  have eq: "findArgs (c # p) argv = (map f argv, map (\<lambda>a. ''--'' @ drop n a) (filter h argv))"
    by (simp add: findArgs_def Let_def f_def h_def n_def)
  with assms(1) have "filter h argv \<noteq> []" by simp
  then have "0 < length (filter h argv)" by simp
  then show ?thesis
    unfolding eq lettered_def fst_conv using filter_map_less [of h ?P f argv, OF hit miss] by linarith
qed

function srvr_loop :: "int \<Rightarrow> string list \<Rightarrow> thread list \<times> string list" where
  "srvr_loop count argv =
     (let (argv', as) = findArgs (srvr_prefix count) argv in
      if as = [] then ([], argv')
      else let (ts, argv'') = srvr_loop (count + 1) argv' in (SrvrThread as # ts, argv''))"
  by pat_completeness auto

lemma srvr_prefix_letter: "\<exists>p. srvr_prefix count = CHR ''s'' # p"
  by (simp add: srvr_prefix_def)

termination srvr_loop
proof (relation "measure (\<lambda>(count, argv). lettered argv)")
  fix count argv x argv' as
  assume a: "x = findArgs (srvr_prefix count) argv" "(argv', as) = x" "as \<noteq> []"
  from srvr_prefix_letter [of count] obtain p where p: "srvr_prefix count = CHR ''s'' # p" by blast
  from a have f: "argv' = fst (findArgs (CHR ''s'' # p) argv)" "snd (findArgs (CHR ''s'' # p) argv) \<noteq> []"
    by (simp_all add: p [symmetric]) (metis fst_conv snd_conv)+
  from lettered_findArgs [OF f(2)] show "((count + 1, argv'), count, argv) \<in> measure (\<lambda>(count, argv). lettered argv)"
    by (simp add: f(1))
qed simp

declare srvr_loop.simps [simp del]

text \<open>A part is started if it has at least one argument (with the name and the null pointer, more than two).\<close>

definition daemon_threads :: "string list \<Rightarrow> thread list" where
  "daemon_threads argv =
     (let (argv, rtr) = findArgs ''rtr'' argv; (srvs, argv) = srvr_loop (- 1) argv; (argv, lgr) = findArgs ''lgr'' argv in
      (if rtr = [] then [] else [RtrThread rtr]) @ srvs @ (if lgr = [] then [] else [LgrThread lgr]))"

section \<open>Who gets an argument\<close>

datatype part = PRtr | PSrvr nat | PLgr

fun part_prefix :: "part \<Rightarrow> string" where
  "part_prefix PRtr = ''rtr''"
| "part_prefix (PSrvr 0) = ''srvr''"
| "part_prefix (PSrvr (Suc k)) = ''srvr'' @ show_nat k"
| "part_prefix PLgr = ''lgr''"

text \<open>The command line for a list of options, once the parts of \<open>D\<close> have been served.\<close>

definition part_arg :: "part set \<Rightarrow> part \<times> string \<Rightarrow> string" where
  "part_arg D e = (case e of (p, t) \<Rightarrow>
     if p \<in> D then replicate (length (part_prefix p) + 3) (CHR ''-'') @ t else ''--'' @ part_prefix p @ ''.'' @ t)"

definition opts_of :: "part \<Rightarrow> (part \<times> string) list \<Rightarrow> string list" where
  "opts_of p ps = map (\<lambda>e. ''--'' @ snd e) (filter (\<lambda>e. fst e = p) ps)"

lemma show_nat_inj: "show_nat m = show_nat n \<Longrightarrow> m = n"
  by (metis show_nat_fold)

lemma part_prefix_inj: "part_prefix p = part_prefix q \<Longrightarrow> p = q"
  by (cases p rule: part_prefix.cases; cases q rule: part_prefix.cases) (auto simp: show_nat_ne show_nat_ne [symmetric] dest: show_nat_inj)

lemma part_prefix_no_dot: "CHR ''.'' \<notin> set (part_prefix p)"
  using show_nat_digits [of "CHR ''.''"] by (cases p rule: part_prefix.cases) (auto simp: is_digit_def)

lemma part_prefix_letter: "\<exists>c r. part_prefix p = c # r \<and> c \<noteq> CHR ''-''"
  by (cases p rule: part_prefix.cases) auto

lemma prefix_to_dot:
  "d \<notin> set xs \<Longrightarrow> d \<notin> set ys \<Longrightarrow> take (length xs + 1) (ys @ d # t) = xs @ [d] \<Longrightarrow> xs = ys"
proof (induction xs arbitrary: ys)
  case Nil
  then show ?case by (cases ys) auto
next
  case (Cons x xs)
  then show ?case by (cases ys) auto
qed

lemma part_arg_hit:
  assumes "p \<notin> D"
  shows "take (length (part_prefix p) + 3) (part_arg D (q, t)) = ''--'' @ part_prefix p @ ''.'' \<longleftrightarrow> q = p"
proof (cases "q \<in> D")
  case True
  obtain c r where c: "part_prefix p = c # r" "c \<noteq> CHR ''-''" using part_prefix_letter by blast
  let ?w = "replicate (length (part_prefix q) + 3) (CHR ''-'') @ t"
  have "take (length (part_prefix p) + 3) ?w ! 2 = CHR ''-''" by (simp add: nth_append)
  moreover have "(''--'' @ part_prefix p @ ''.'') ! 2 = c" by (simp add: c(1))
  ultimately have "take (length (part_prefix p) + 3) ?w \<noteq> ''--'' @ part_prefix p @ ''.''" using c(2) by metis
  with True assms show ?thesis by (auto simp: part_arg_def)
next
  case False
  have "take (length (part_prefix p) + 1) (part_prefix q @ CHR ''.'' # t) = part_prefix p @ [CHR ''.''] \<longleftrightarrow> q = p"
    using prefix_to_dot [OF part_prefix_no_dot part_prefix_no_dot, of p q t] part_prefix_inj [of p q] by auto
  with False show ?thesis by (simp add: part_arg_def numeral_3_eq_3)
qed

lemma findArgs_parts:
  assumes "p \<notin> D" "take 2 prog \<noteq> ''--''"
  shows "findArgs (part_prefix p) (prog # map (part_arg D) ps) = (prog # map (part_arg (insert p D)) ps, opts_of p ps)"
proof -
  let ?n = "length (part_prefix p) + 3"
  let ?pre = "''--'' @ part_prefix p @ ''.''"
  have n: "length ?pre = ?n" by simp
  have prog: "take ?n prog \<noteq> ?pre"
  proof
    assume "take ?n prog = ?pre"
    then have "take 2 (take ?n prog) = ''--''" by simp
    with assms(2) show False by (simp add: min_def)
  qed
  have 1: "(if take ?n (part_arg D e) = ?pre then replicate ?n (CHR ''-'') @ drop ?n (part_arg D e) else part_arg D e) =
      part_arg (insert p D) e" for e
    using part_arg_hit [OF assms(1), of "fst e" "snd e"] assms(1) by (cases e) (auto simp: part_arg_def numeral_3_eq_3)
  have 2: "filter (\<lambda>a. take ?n a = ?pre) (map (part_arg D) ps) = map (part_arg D) (filter (\<lambda>e. fst e = p) ps)"
    using part_arg_hit [OF assms(1)] by (induction ps) auto
  have 3: "map (\<lambda>a. ''--'' @ drop ?n a) (map (part_arg D) (filter (\<lambda>e. fst e = p) ps)) = opts_of p ps"
    using assms(1) by (induction ps) (auto simp: opts_of_def part_arg_def numeral_3_eq_3)
  show ?thesis
    unfolding findArgs_def Let_def n using prog 1 2 3 by simp
qed

lemma srvr_prefix_part: "srvr_prefix (int k - 1) = part_prefix (PSrvr k)"
  by (cases k) (simp_all add: srvr_prefix_def)

lemma srvr_loop_parts:
  assumes "k \<le> m" "\<forall>j. k \<le> j \<and> j < m \<longrightarrow> opts_of (PSrvr j) ps \<noteq> []" "opts_of (PSrvr m) ps = []" "take 2 prog \<noteq> ''--''"
    and "\<forall>j \<ge> k. PSrvr j \<notin> D"
  shows "srvr_loop (int k - 1) (prog # map (part_arg D) ps) =
    (map (\<lambda>j. SrvrThread (opts_of (PSrvr j) ps)) [k..<m], prog # map (part_arg (D \<union> PSrvr ` {k..m})) ps)"
  using assms
proof (induction "m - k" arbitrary: k D)
  case 0
  then have "k = m" by simp
  with 0 show ?case
    by (simp add: srvr_loop.simps [of "int m - 1"] srvr_prefix_part findArgs_parts)
next
  case (Suc n)
  then have km: "k < m" "[k..<m] = k # [Suc k..<m]" by (simp_all add: upt_conv_Cons)
  have "srvr_loop (int (Suc k) - 1) (prog # map (part_arg (insert (PSrvr k) D)) ps) =
      (map (\<lambda>j. SrvrThread (opts_of (PSrvr j) ps)) [Suc k..<m], prog # map (part_arg (insert (PSrvr k) D \<union> PSrvr ` {Suc k..m})) ps)"
    using Suc.hyps(2) Suc.prems by (intro Suc.hyps(1)) auto
  moreover have "insert (PSrvr k) D \<union> PSrvr ` {Suc k..m} = D \<union> PSrvr ` {k..m}"
  proof -
    have "{k..m} = insert k {Suc k..m}" using km(1) by auto
    then show ?thesis by auto
  qed
  ultimately show ?case
    using Suc.prems km
    by (simp add: srvr_loop.simps [of "int k - 1"] srvr_prefix_part findArgs_parts)
qed

text \<open>
  C34: The daemon starts a router, servers and a logger with the options that carry the prefix of each, in their order and with the
  prefix taken off, and nothing for a part without options; the servers are those before the first number without options.
\<close>

theorem daemon_parts:
  assumes "take 2 prog \<noteq> ''--''" "\<forall>j < m. opts_of (PSrvr j) ps \<noteq> []" "opts_of (PSrvr m) ps = []"
  shows "daemon_threads (prog # map (\<lambda>(p, t). ''--'' @ part_prefix p @ ''.'' @ t) ps) =
    (if opts_of PRtr ps = [] then [] else [RtrThread (opts_of PRtr ps)]) @
    map (\<lambda>j. SrvrThread (opts_of (PSrvr j) ps)) [0..<m] @
    (if opts_of PLgr ps = [] then [] else [LgrThread (opts_of PLgr ps)])"
proof -
  have e: "map (\<lambda>(p, t). ''--'' @ part_prefix p @ ''.'' @ t) ps = map (part_arg {}) ps" by (auto simp: part_arg_def)
  have "findArgs ''rtr'' (prog # map (part_arg {}) ps) = (prog # map (part_arg {PRtr}) ps, opts_of PRtr ps)"
    using findArgs_parts [of PRtr "{}" prog ps] assms(1) by simp
  moreover have "srvr_loop (- 1) (prog # map (part_arg {PRtr}) ps) =
      (map (\<lambda>j. SrvrThread (opts_of (PSrvr j) ps)) [0..<m], prog # map (part_arg ({PRtr} \<union> PSrvr ` {0..m})) ps)"
    using srvr_loop_parts [of 0 m ps prog "{PRtr}"] assms by simp
  moreover have "findArgs ''lgr'' (prog # map (part_arg ({PRtr} \<union> PSrvr ` {0..m})) ps) =
      (prog # map (part_arg (insert PLgr ({PRtr} \<union> PSrvr ` {0..m}))) ps, opts_of PLgr ps)"
    using findArgs_parts [of PLgr "{PRtr} \<union> PSrvr ` {0..m}" prog ps] assms(1) by auto
  ultimately show ?thesis unfolding e by (simp add: daemon_threads_def)
qed

theorem daemon_parts_witness:
  "daemon_threads [''pwrdaemon'', ''--srvr.name=a'', ''--rtr.routerId=0'', ''--srvr0.name=b'', ''--rtr.routeTable=t'', ''--srvr7.name=c''] =
     [RtrThread [''--routerId=0'', ''--routeTable=t''], SrvrThread [''--name=a''], SrvrThread [''--name=b'']]"
proof -
  let ?ps = "[(PSrvr 0, ''name=a''), (PRtr, ''routerId=0''), (PSrvr 1, ''name=b''), (PRtr, ''routeTable=t''), (PSrvr 8, ''name=c'')]"
  have "\<forall>j < 2. opts_of (PSrvr j) ?ps \<noteq> []" "opts_of (PSrvr 2) ?ps = []"
    by (auto simp: opts_of_def less_Suc_eq numeral_2_eq_2)
  moreover have "part_prefix (PSrvr 1) = ''srvr0''" "part_prefix (PSrvr 8) = ''srvr7''"
    using part_prefix.simps(3) [of 0] part_prefix.simps(3) [of 7] by (simp_all add: show_nat.simps char_of_def bit_Suc_0_iff)
  ultimately show ?thesis using daemon_parts [of "''pwrdaemon''" 2 ?ps] by (simp add: opts_of_def upt_rec numeral_2_eq_2)
qed

end
