(* ===== verification/RouterStart.thy ===== *)
theory RouterStart
  imports RouterProc TcpProps Getopt
begin

text \<open>
  How a router comes to be: its command line (\<^verbatim>\<open>initArgs\<close>, \<^verbatim>\<open>initTreeInfo\<close>,
  \<^verbatim>\<open>initTorusInfo\<close> of \<^verbatim>\<open>router.cc\<close>), its listening channels and the channels to
  other routers (\<^verbatim>\<open>treeCore.cc\<close>, \<^verbatim>\<open>torusCore.cc\<close>), and its route file. The channel
  objects are a list, whose index is the channel of the router's state.
\<close>

section \<open>The command line\<close>

record Link =
  myListenPort :: string
  otherHost :: string
  otherHostListenPort :: string
  l_nidStart :: string
  l_nidStop :: string

record Dim =
  posPort :: string
  negSrvr :: string
  negSrvrPort :: string

datatype RouterCoreArgs = TreeArgs "Link list" | TorusArgs "Dim list"

record RtrArgs =
  a_rtrId :: u32
  a_routeTable :: string
  a_serverPort :: string
  a_clientPort :: string
  a_coreArgs :: "RouterCoreArgs option"

definition new_RtrArgs :: RtrArgs where
  "new_RtrArgs = \<lparr>a_rtrId = - 1, a_routeTable = [], a_serverPort = [], a_clientPort = [], a_coreArgs = None\<rparr>"

definition vec_resize :: "nat \<Rightarrow> 'a \<Rightarrow> 'a list \<Rightarrow> 'a list" where
  "vec_resize n d xs = take n xs @ replicate (n - length xs) d"

text \<open>The characters up to the next colon, and what comes after it: all of the string again if there is none.\<close>

definition next_field :: "string \<Rightarrow> (string \<times> string) res" where
  "next_field info =
     (let pos = pos_val (find_first_of CHR '':'' info) in
      rbind (substr info 0 pos) (\<lambda>f. rbind (substr info (pos_inc pos) npos) (\<lambda>rest. Inr (f, rest))))"

text \<open>
  The last field is cut at the position of the colon before, plus one: the variable \<open>pos\<close> is not searched for again. The vector of
  links is resized to end with the link of the option.
\<close>

definition initTreeInfo :: "Link list \<Rightarrow> string \<Rightarrow> Link list res" where
  "initTreeInfo links info =
     rbind (substr info 0 (pos_val (find_first_of CHR '':'' info))) (\<lambda>s.
     rbind (atoi s) (\<lambda>k.
     let link = word_of_int k :: u32;
         links = vec_resize (unat (link + 1)) \<lparr>myListenPort = [], otherHost = [], otherHostListenPort = [], l_nidStart = [], l_nidStop = []\<rparr> links in
     rbind (next_field info) (\<lambda>(_, info).
     rbind (next_field info) (\<lambda>(port, info1).
     rbind (aread links (unat link)) (\<lambda>l.
     let pos = pos_val (find_first_of CHR '':'' info1) in
     rbind (next_field info1) (\<lambda>(host, info2).
     let l = l\<lparr>myListenPort := port, otherHost := host\<rparr> in
     if 0 < link then
       rbind (next_field info2) (\<lambda>(oport, info3).
       let pos = pos_val (find_first_of CHR '':'' info3) in
       rbind (next_field info3) (\<lambda>(start, info4).
       rbind (substr info4 0 (pos_inc pos)) (\<lambda>stop.
       awrite links (unat link) (l\<lparr>otherHostListenPort := oport, l_nidStart := start, l_nidStop := stop\<rparr>))))
     else
       rbind (substr info2 0 (pos_inc pos)) (\<lambda>oport.
       awrite links (unat link) (l\<lparr>otherHostListenPort := oport\<rparr>))))))))"

definition initTorusInfo :: "Dim list \<Rightarrow> string \<Rightarrow> Dim list res" where
  "initTorusInfo dims info =
     rbind (substr info 0 (pos_val (find_first_of CHR '':'' info))) (\<lambda>s.
     rbind (atoi s) (\<lambda>k.
     let dim = word_of_int k :: u32; dims = vec_resize (unat (dim + 1)) \<lparr>posPort = [], negSrvr = [], negSrvrPort = []\<rparr> dims in
     if unat dim < length dims then
       rbind (next_field info) (\<lambda>(_, info).
       rbind (next_field info) (\<lambda>(port, info1).
       let pos = pos_val (find_first_of CHR '':'' info1) in
       rbind (next_field info1) (\<lambda>(srvr, info2).
       rbind (substr info2 0 (pos_inc pos)) (\<lambda>sport.
       awrite dims (unat dim) \<lparr>posPort = port, negSrvr = srvr, negSrvrPort = sport\<rparr>))))
     else Inr dims))"

definition rtr_options :: "string list" where
  "rtr_options = [''clientPort'', ''serverPort'', ''routerType'', ''routerInfo'', ''routerId'', ''routeTable'']"

definition rtr_option :: "optres \<Rightarrow> RtrArgs \<Rightarrow> RtrArgs res" where
  "rtr_option r args =
     (case r of
        BadOpt \<Rightarrow> Inl (ExitCall (- 1))
      | Opt n v \<Rightarrow>
          if n = ''clientPort'' then Inr (args\<lparr>a_clientPort := v\<rparr>)
          else if n = ''serverPort'' then Inr (args\<lparr>a_serverPort := v\<rparr>)
          else if n = ''routerId'' then rbind (atoi v) (\<lambda>k. Inr (args\<lparr>a_rtrId := word_of_int k\<rparr>))
          else if n = ''routeTable'' then Inr (args\<lparr>a_routeTable := v\<rparr>)
          else if n = ''routerType'' then
            rbind (assert_c (a_coreArgs args = None)) (\<lambda>_.
            if v = ''torus'' then Inr (args\<lparr>a_coreArgs := Some (TorusArgs [])\<rparr>)
            else if v = ''tree'' then Inr (args\<lparr>a_coreArgs := Some (TreeArgs [])\<rparr>)
            else Inl AssertFail)
          else if n = ''routerInfo'' then
            rbind (assert_c (a_coreArgs args \<noteq> None)) (\<lambda>_.
            rbind (deref (a_coreArgs args)) (\<lambda>core.
            case core of
              TorusArgs dims \<Rightarrow> rbind (initTorusInfo dims v) (\<lambda>dims. Inr (args\<lparr>a_coreArgs := Some (TorusArgs dims)\<rparr>))
            | TreeArgs links \<Rightarrow> rbind (initTreeInfo links v) (\<lambda>links. Inr (args\<lparr>a_coreArgs := Some (TreeArgs links)\<rparr>))))
          else Inl (ExitCall (- 1)))"

definition rtr_initArgs :: "string list \<Rightarrow> RtrArgs res" where
  "rtr_initArgs argv =
     rbind (foldM rtr_option (getopt_long rtr_options (drop 1 argv)) new_RtrArgs) (\<lambda>args.
     if a_rtrId args = - 1 \<or> a_routeTable args = [] then Inl (ExitCall (- 1)) else Inr args)"

section \<open>Channels to other routers\<close>

record rstart =
  rs_net :: net
  rs_chans :: "TcpEventChannel list"
  rs_st :: RState

definition rtr_channel :: "os \<Rightarrow> alloc_func \<Rightarrow> string \<Rightarrow> string \<Rightarrow> rstart \<Rightarrow> (chan \<times> rstart) res" where
  "rtr_channel env func config name s =
     rbind (getEventChannel env ''TCP'' func config name (rs_net s)) (\<lambda>(ec, w).
     rbind (deref ec) (\<lambda>ec.
     let c = length (rs_chans s) in
     Inr (c, \<lparr>rs_net = w, rs_chans = rs_chans s @ [ec], rs_st = (rs_st s)\<lparr>isOpen := (isOpen (rs_st s))(c := True)\<rparr>\<rparr>)))"

definition rtr_add :: "chan \<Rightarrow> SelectData \<Rightarrow> rstart \<Rightarrow> rstart res" where
  "rtr_add c d s = rbind (addChannel c d (rs_st s)) (\<lambda>st. Inr (s\<lparr>rs_st := st\<rparr>))"

text \<open>A link without a listening port leaves an entry without channels and with the range from 0 to 0.\<close>

definition tree_link :: "os \<Rightarrow> nat \<Rightarrow> Link \<Rightarrow> rstart \<Rightarrow> (ABC \<times> rstart) res" where
  "tree_link env i l s =
     (if myListenPort l = [] then Inr (\<lparr>a_send = None, a_recv = None, nidStart = 0, nidStop = 0\<rparr>, s)
      else
        rbind (rtr_channel env router_allocRtrEvent (client_config (otherHost l) (otherHostListenPort l)) ''router'' s) (\<lambda>(send, s).
        rbind (rtr_add send RouterData s) (\<lambda>s.
        rbind (rtr_channel env router_allocRtrEvent (listen_config (myListenPort l)) ''router'' s) (\<lambda>(recv, s).
        rbind (rtr_add recv (AcceptData RRouter) s) (\<lambda>s.
        if 0 < i then
          rbind (atoi (l_nidStart l)) (\<lambda>a. rbind (atoi (l_nidStop l)) (\<lambda>b.
          Inr (\<lparr>a_send = Some send, a_recv = Some recv, nidStart = word_of_int a, nidStop = word_of_int b\<rparr>, s)))
        else Inr (\<lparr>a_send = Some send, a_recv = Some recv, nidStart = 0, nidStop = 0\<rparr>, s))))))"

definition new_TreeCore :: "os \<Rightarrow> Link list \<Rightarrow> rstart \<Rightarrow> (ABC list \<times> rstart) res" where
  "new_TreeCore env links s =
     foldM (\<lambda>i (abcs, s). rbind (tree_link env i (links ! i) s) (\<lambda>(abc, s). Inr (abcs @ [abc], s))) [0..<length links] ([], s)"

definition torus_link :: "os \<Rightarrow> Dim \<Rightarrow> rstart \<Rightarrow> (ABC \<times> rstart) res" where
  "torus_link env d s =
     rbind (rtr_channel env router_allocRtrEvent (client_config (negSrvr d) (negSrvrPort d)) ''router-send'' s) (\<lambda>(send, s).
     rbind (rtr_add send RouterData s) (\<lambda>s.
     rbind (rtr_channel env router_allocRtrEvent (listen_config (posPort d)) ''router-listen'' s) (\<lambda>(recv, s).
     rbind (rtr_add recv (AcceptData RRouter) s) (\<lambda>s.
     Inr (\<lparr>a_send = Some send, a_recv = Some recv, nidStart = 0, nidStop = 0\<rparr>, s)))))"

definition new_TorusCore :: "os \<Rightarrow> Dim list \<Rightarrow> rstart \<Rightarrow> (ABC list list \<times> rstart) res" where
  "new_TorusCore env dims s =
     foldM (\<lambda>i (abcs, s). rbind (torus_link env (dims ! i) s) (\<lambda>(abc, s). Inr (abcs @ [[abc]], s))) [0..<length dims] ([], s)"

section \<open>The router\<close>

definition new_RState :: "RtrArgs \<Rightarrow> u64 \<Rightarrow> RState" where
  "new_RState args jnk =
     \<lparr>rtrId = a_rtrId args, rcore = TreeCore [], routeTable = Map.empty, localMap = Map.empty, serverMap = Map.empty,
      clientMap = Map.empty, pendingEvents = Map.empty, evs = [], infos = [], isOpen = \<lambda>_. False, chans = Map.empty,
      outq = [], junk = jnk\<rparr>"

definition listen_channel :: "os \<Rightarrow> alloc_func \<Rightarrow> string \<Rightarrow> string \<Rightarrow> rtr_role \<Rightarrow> rstart \<Rightarrow> rstart res" where
  "listen_channel env func port name r s =
     (if port = [] then Inr s
      else rbind (rtr_channel env func (listen_config port) name s) (\<lambda>(c, s). rtr_add c (AcceptData r) s))"

definition new_Router ::
    "os \<Rightarrow> (string \<Rightarrow> string option) \<Rightarrow> u64 \<Rightarrow> string list \<Rightarrow> net \<Rightarrow> (RtrArgs \<times> rstart) res" where
  "new_Router env files jnk argv w =
     rbind (rtr_initArgs argv) (\<lambda>args.
     rbind (listen_channel env router_allocClientEvent (a_clientPort args) ''client-listen'' RClient
              \<lparr>rs_net = w, rs_chans = [], rs_st = new_RState args jnk\<rparr>) (\<lambda>s.
     rbind (listen_channel env router_allocServerEvent (a_serverPort args) ''server-listen'' RServer s) (\<lambda>s.
     rbind (deref (a_coreArgs args)) (\<lambda>core.
     rbind (case core of
              TorusArgs dims \<Rightarrow> rbind (new_TorusCore env dims s) (\<lambda>(ls, s). Inr (s\<lparr>rs_st := (rs_st s)\<lparr>rcore := TorusCore ls\<rparr>\<rparr>))
            | TreeArgs links \<Rightarrow> rbind (new_TreeCore env links s) (\<lambda>(ls, s). Inr (s\<lparr>rs_st := (rs_st s)\<lparr>rcore := TreeCore ls\<rparr>\<rparr>))) (\<lambda>s.
     rbind (initRouteTable (files (a_routeTable args)) (rs_st s)) (\<lambda>st. Inr (args, s\<lparr>rs_st := st\<rparr>)))))))"

end
