(* ===== verification/CLib.thy ===== *)
theory CLib
  imports CString Double
begin

text \<open>
  More of the C library, for the device plugins: \<^verbatim>\<open>strtok\<close>, \<^verbatim>\<open>atol\<close>,
  \<^verbatim>\<open>atof\<close>, \<^verbatim>\<open>sprintf\<close> of a double with \<^verbatim>\<open>%lf\<close>,
  \<^verbatim>\<open>fgets\<close>, \<^verbatim>\<open>strncmp\<close> and the conversions of \<^verbatim>\<open>sscanf\<close> the
  sources use.
\<close>

section \<open>strtok\<close>

text \<open>
  One call on the string that starts at the given position: the token, if there is one, and
  the position \<^verbatim>\<open>strtok\<close> keeps for the next call.
\<close>

definition strtok_from :: "char set \<Rightarrow> string \<Rightarrow> string option \<times> string" where
  "strtok_from ds s =
     (let t = dropWhile (\<lambda>c. c \<in> ds) s in
      if t = [] then (None, [])
      else (Some (takeWhile (\<lambda>c. c \<notin> ds) t), tl (dropWhile (\<lambda>c. c \<notin> ds) t)))"

lemma strtok_word:
  assumes "w \<noteq> []" "\<forall>c \<in> set w. c \<notin> ds" "d \<in> ds"
  shows "strtok_from ds (w @ d # s) = (Some w, s)"
proof -
  have "dropWhile (\<lambda>c. c \<in> ds) (w @ d # s) = w @ d # s" using assms by (cases w) auto
  then show ?thesis
    using assms by (simp add: strtok_from_def takeWhile_append2 dropWhile_append2)
qed

lemma strtok_last:
  assumes "w \<noteq> []" "\<forall>c \<in> set w. c \<notin> ds"
  shows "strtok_from ds w = (Some w, [])"
proof -
  have 1: "dropWhile (\<lambda>c. c \<in> ds) w = w" using assms by (cases w) auto
  have 2: "takeWhile (\<lambda>c. c \<notin> ds) w = w" using assms by (simp add: takeWhile_eq_all_conv)
  have 3: "dropWhile (\<lambda>c. c \<notin> ds) w = []" using assms by (simp add: dropWhile_eq_Nil_conv)
  show ?thesis using assms(1) unfolding strtok_from_def Let_def 1 2 3 by simp
qed

section \<open>Numbers\<close>

text \<open>\<^verbatim>\<open>atol\<close>: outside the range of \<^verbatim>\<open>long\<close> the C standard leaves it undefined.\<close>

definition parse_int :: "string \<Rightarrow> int" where
  "parse_int s =
     (let t = dropWhile is_space s in
      case t of [] \<Rightarrow> 0
      | c # cs \<Rightarrow> if c = CHR ''-'' then - int (digits_val cs)
                 else if c = CHR ''+'' then int (digits_val cs)
                 else int (digits_val t))"

definition atol :: "string \<Rightarrow> int res" where
  "atol s = (let n = parse_int s in if - (2 ^ 63) \<le> n \<and> n < 2 ^ 63 then Inr n else Inl Unspecified)"

lemma parse_int_show:
  assumes "rest = [] \<or> \<not> is_digit (hd rest)"
  shows "parse_int (show_nat n @ rest) = int n"
proof -
  obtain c cs where c: "show_nat n = c # cs" using show_nat_ne by (cases "show_nat n") auto
  then have d: "is_digit c" using show_nat_digits [of c n] by simp
  then have "c \<noteq> CHR ''-''" "c \<noteq> CHR ''+''" by (auto simp: is_digit_def)
  moreover have "dropWhile is_space (show_nat n @ rest) = c # cs @ rest"
    using c not_space_digit [OF d] by simp
  moreover have "digits_val (c # cs @ rest) = n" using digits_val_show [OF assms, of n] c by simp
  ultimately show ?thesis by (simp add: parse_int_def)
qed

lemma atol_show: "n < 2 ^ 63 \<Longrightarrow> atol (show_nat n) = Inr (int n)"
  using parse_int_show [of "[]" n] by (simp add: atol_def)

lemma show_nat_no_sep: "d = CHR ''.'' \<or> d = CHR '':'' \<Longrightarrow> d \<notin> set (show_nat n)"
  using show_nat_digits [of d n] by (auto simp: is_digit_def)

lemma strtok_number:
  assumes "d = CHR ''.'' \<or> d = CHR '':''"
  shows "strtok_from {d} (show_nat n @ d # rest) = (Some (show_nat n), rest)"
    "strtok_from {d} (show_nat n) = (Some (show_nat n), [])"
  using strtok_word [of "show_nat n" "{d}" d rest] strtok_last [of "show_nat n" "{d}"]
    show_nat_no_sep [OF assms] show_nat_ne [of n] by auto

lemma atoi_show_nat: "n < 2 ^ 31 \<Longrightarrow> atoi (show_nat n) = Inr (int n)"
  using atoi_show [of "[]" n] by simp

text \<open>Words with a separator between them, to state what \<^verbatim>\<open>strtok\<close> takes apart.\<close>

fun join :: "char \<Rightarrow> string list \<Rightarrow> string" where
  "join d [] = []"
| "join d [w] = w"
| "join d (w # v # ws) = w @ d # join d (v # ws)"

lemma strtok_join:
  assumes "w \<noteq> []" "d \<notin> set w"
  shows "strtok_from {d} (join d (w # ws)) = (Some w, join d ws)"
  using assms strtok_word [of w "{d}" d] strtok_last [of w "{d}"] by (cases ws) auto

text \<open>
  \<^verbatim>\<open>atof\<close> of a decimal number, correctly rounded: the digits before and after the
  point, and the exponent. Hexadecimal numbers, infinities and NaNs, which
  \<^verbatim>\<open>strtod\<close> also reads, are not modelled (no device prints them).
\<close>

definition round_quot :: "bool \<Rightarrow> nat \<Rightarrow> nat \<Rightarrow> u64" where
  "round_quot s m d =
     (let k = 64 + bitlen d; q = (m * 2 ^ k) div d; sticky = (if (m * 2 ^ k) mod d = 0 then 0 else 1)
      in fround s (2 * q + sticky) (- int k - 1))"

definition dec_double :: "bool \<Rightarrow> nat \<Rightarrow> int \<Rightarrow> u64" where
  "dec_double s m k =
     (if 0 \<le> k then fround s (m * 10 ^ nat k) 0 else round_quot s m (10 ^ nat (- k)))"

definition atof_exp :: "string \<Rightarrow> int" where
  "atof_exp t =
     (case t of
        e # c # cs \<Rightarrow>
          if e = CHR ''e'' \<or> e = CHR ''E''
          then if (c = CHR ''-'' \<or> c = CHR ''+'') \<and> cs \<noteq> [] \<and> is_digit (hd cs)
               then (if c = CHR ''-'' then - int (digits_val cs) else int (digits_val cs))
               else if is_digit c then int (digits_val (c # cs)) else 0
          else 0
      | _ \<Rightarrow> 0)"

definition atof :: "string \<Rightarrow> u64" where
  "atof str =
     (let t = dropWhile is_space str;
          s = (t \<noteq> [] \<and> hd t = CHR ''-'');
          u = (if t \<noteq> [] \<and> (hd t = CHR ''-'' \<or> hd t = CHR ''+'') then tl t else t);
          ip = takeWhile is_digit u; v = dropWhile is_digit u;
          fp = (if v \<noteq> [] \<and> hd v = CHR ''.'' then takeWhile is_digit (tl v) else []);
          w = (if v \<noteq> [] \<and> hd v = CHR ''.'' then dropWhile is_digit (tl v) else v)
      in if ip = [] \<and> fp = [] then 0
         else dec_double s (digits_val (ip @ fp)) (atof_exp w - int (length fp)))"

lemma atof_exp_space: "t = [] \<or> hd t \<noteq> CHR ''e'' \<and> hd t \<noteq> CHR ''E'' \<Longrightarrow> atof_exp t = 0"
  by (auto simp: atof_exp_def split: list.splits)

text \<open>A counter printed as an integer reads back as that number.\<close>

lemma atof_show:
  assumes "rest = [] \<or> \<not> is_digit (hd rest) \<and> hd rest \<notin> {CHR ''.'', CHR ''e'', CHR ''E''}"
  shows "atof (show_nat n @ rest) = f_of_int (int n)"
proof -
  obtain c cs where c: "show_nat n = c # cs" using show_nat_ne by (cases "show_nat n") auto
  then have d: "is_digit c" using show_nat_digits [of c n] by simp
  then have ns: "c \<noteq> CHR ''-''" "c \<noteq> CHR ''+''" by (auto simp: is_digit_def)
  have 1: "dropWhile is_space (show_nat n @ rest) = show_nat n @ rest"
    using c not_space_digit [OF d] by simp
  have hd1: "hd (show_nat n @ rest) = c" "show_nat n @ rest \<noteq> []" using c by simp_all
  have all: "\<forall>x \<in> set (show_nat n). is_digit x" using show_nat_digits by blast
  have nd: "takeWhile is_digit rest = []" "dropWhile is_digit rest = rest"
    using assms by (cases rest; simp)+
  have 2: "takeWhile is_digit (show_nat n @ rest) = show_nat n" and 3: "dropWhile is_digit (show_nat n @ rest) = rest"
    using all nd by (simp_all add: takeWhile_append2 dropWhile_append2)
  have 4: "digits_val (show_nat n) = n" using digits_val_show [of "[]" n] by simp
  have 5: "(rest \<noteq> [] \<and> hd rest = CHR ''.'') = False" "atof_exp rest = 0"
    using assms atof_exp_space [of rest] by auto
  show ?thesis
    unfolding atof_def 1 Let_def hd1(1)
    using hd1(2) ns show_nat_ne [of n]
    by (simp add: 2 3 4 5 dec_double_def f_of_int_def del: if_bool_eq_conj)
qed

text \<open>
  \<^verbatim>\<open>sprintf\<close> with \<^verbatim>\<open>%lf\<close>: six digits after the point, rounded to nearest.
\<close>

definition round_div :: "nat \<Rightarrow> nat \<Rightarrow> nat" where
  "round_div n d = (let q = n div d; r = n mod d in if d < 2 * r \<or> (2 * r = d \<and> odd q) then q + 1 else q)"

definition pad6 :: "nat \<Rightarrow> string" where
  "pad6 n = replicate (6 - length (show_nat n)) (CHR ''0'') @ show_nat n"

definition print_lf :: "u64 \<Rightarrow> string" where
  "print_lf w =
     (let sign = (if bit w 63 then ''-'' else '''') in
      case decode w of
        FNaN \<Rightarrow> sign @ ''nan''
      | FInf _ \<Rightarrow> sign @ ''inf''
      | FFin _ m e \<Rightarrow>
          (let t = (if 0 \<le> e then m * 2 ^ nat e * 10 ^ 6 else round_div (m * 10 ^ 6) (2 ^ nat (- e)))
           in sign @ show_nat (t div 10 ^ 6) @ ''.'' @ pad6 (t mod 10 ^ 6)))"

text \<open>\<^verbatim>\<open>%d\<close>, and \<^verbatim>\<open>%lx\<close>.\<close>

definition show_int :: "int \<Rightarrow> string" where
  "show_int n = (if n < 0 then CHR ''-'' # show_nat (nat (- n)) else show_nat (nat n))"

fun show_hex :: "nat \<Rightarrow> string" where
  "show_hex n =
     (let d = n mod 16; c = char_of (if d < 10 then 48 + d else 87 + d) in
      if n < 16 then [c] else show_hex (n div 16) @ [c])"

declare show_hex.simps [simp del]

text \<open>The characters of a buffer before the first NUL.\<close>

definition cstr :: "string \<Rightarrow> string" where
  "cstr buf = takeWhile (\<lambda>c. c \<noteq> CHR 0x00) buf"

section \<open>Lines and sscanf\<close>

text \<open>
  \<^verbatim>\<open>while( fgets( buf, n + 1, file ) )\<close>: the pieces it sees, at most \<open>n\<close> characters each.
\<close>

fun fgets_all :: "nat \<Rightarrow> string \<Rightarrow> string \<Rightarrow> string list" where
  "fgets_all n acc [] = (if acc = [] then [] else [rev acc])"
| "fgets_all n acc (c # cs) =
     (if c = CHR 0x0A \<or> Suc (length acc) = n then rev (c # acc) # fgets_all n [] cs
      else fgets_all n (c # acc) cs)"

definition strncmp_eq :: "string \<Rightarrow> string \<Rightarrow> nat \<Rightarrow> bool" where
  "strncmp_eq s t n \<longleftrightarrow> take n s = take n t"

text \<open>\<^verbatim>\<open>%*s\<close> skips a word, \<^verbatim>\<open>%s\<close> reads one, \<^verbatim>\<open>%d\<close> a number.\<close>

definition scan_word :: "string \<Rightarrow> (string \<times> string) option" where
  "scan_word s =
     (let t = dropWhile is_space s in
      if t = [] then None else Some (takeWhile (\<lambda>c. \<not> is_space c) t, dropWhile (\<lambda>c. \<not> is_space c) t))"

fun skip_words :: "nat \<Rightarrow> string \<Rightarrow> string option" where
  "skip_words 0 s = Some s"
| "skip_words (Suc n) s = (case scan_word s of None \<Rightarrow> None | Some (_, t) \<Rightarrow> skip_words n t)"

definition scan_int :: "string \<Rightarrow> int option" where
  "scan_int s =
     (let t = dropWhile is_space s;
          u = (if t \<noteq> [] \<and> (hd t = CHR ''-'' \<or> hd t = CHR ''+'') then tl t else t)
      in if u \<noteq> [] \<and> is_digit (hd u) then Some (parse_int t) else None)"

text \<open>\<^verbatim>\<open>%lx\<close>: hexadecimal digits, after an optional \<^verbatim>\<open>0x\<close>.\<close>

definition hex_val :: "char \<Rightarrow> nat option" where
  "hex_val c =
     (let n = of_char c in
      if 48 \<le> n \<and> n \<le> 57 then Some (n - 48)
      else if 97 \<le> n \<and> n \<le> 102 then Some (n - 87)
      else if 65 \<le> n \<and> n \<le> 70 then Some (n - 55) else None)"

definition scan_hex :: "string \<Rightarrow> nat option" where
  "scan_hex s =
     (let t = dropWhile is_space s;
          u = (if take 2 t = ''0x'' \<or> take 2 t = ''0X'' then drop 2 t else t);
          ds = takeWhile (\<lambda>c. hex_val c \<noteq> None) u
      in if ds = [] then (if u = t then None else Some 0)
         else Some (fold (\<lambda>c n. 16 * n + the (hex_val c)) ds 0))"

section \<open>Conversions\<close>

text \<open>
  A double converted to a signed integer of 64 bits or an unsigned one of 32; out of range it is undefined.
\<close>

definition f_to_i64 :: "u64 \<Rightarrow> u64 res" where
  "f_to_i64 x =
     (case f_trunc x of
        None \<Rightarrow> Inl Unspecified
      | Some k \<Rightarrow> if - (2 ^ 63) \<le> k \<and> k < 2 ^ 63 then Inr (word_of_int k) else Inl Unspecified)"

definition f_to_u32 :: "u64 \<Rightarrow> u32 res" where
  "f_to_u32 x =
     (case f_trunc x of
        None \<Rightarrow> Inl Unspecified
      | Some k \<Rightarrow> if 0 \<le> k \<and> k < 2 ^ 32 then Inr (word_of_int k) else Inl Unspecified)"

end
