(* ===== verification/RouterBoot.thy ===== *)
theory RouterBoot
  imports RouterStart RouterSend CLib
begin

text \<open>
  What a router is after its constructor: what its options mean, a state from which the invariant of \<open>RouterInv\<close> holds for
  ever, and channels that lead to the hosts of its links.
\<close>

section \<open>The options of a tree\<close>

lemma next_field_colon:
  assumes "CHR '':'' \<notin> set f" "length (f @ CHR '':'' # rest) \<le> npos"
  shows "next_field (f @ CHR '':'' # rest) = Inr (f, rest)"
proof -
  have "substr (f @ CHR '':'' # rest) (length f + 1) npos = Inr rest"
    using substr_all [of "f @ CHR '':'' # rest" "length f + 1"] assms(2) by simp
  then show ?thesis
    using find_first_of_app [OF assms(1), of rest] assms(2)
    by (simp add: next_field_def Let_def pos_val_def pos_inc_def substr_def)
qed

lemma find_colon: "CHR '':'' \<notin> set f \<Longrightarrow> pos_val (find_first_of CHR '':'' (f @ CHR '':'' # rest)) = length f"
  by (simp add: find_first_of_app pos_val_def)

lemma substr_0: "substr s 0 n = Inr (take n s)"
  by (simp add: substr_def)

definition tree_info :: "nat \<Rightarrow> string list \<Rightarrow> string" where
  "tree_info k fs = join CHR '':'' (show_nat k # fs)"

definition no_link :: Link where
  "no_link = \<lparr>myListenPort = [], otherHost = [], otherHostListenPort = [], l_nidStart = [], l_nidStop = []\<rparr>"

lemma unat_link: "k < 2 ^ 31 \<Longrightarrow> unat (word_of_int (int k) :: u32) = k \<and> unat ((word_of_int (int k) :: u32) + 1) = k + 1"
proof -
  assume "k < 2 ^ 31"
  moreover have "(word_of_int (int k) :: u32) + 1 = of_nat (Suc k)" by simp
  ultimately show ?thesis by (simp only: unat_of_nat) (simp add: take_bit_nat_eq_self unat_of_nat)
qed

lemma length_vec_resize [simp]: "length (vec_resize n d xs) = n"
  by (simp add: vec_resize_def)

lemma link_number:
  assumes "k < 2 ^ 31"
  shows "rbind (substr (show_nat k @ CHR '':'' # rest) 0 (pos_val (find_first_of CHR '':'' (show_nat k @ CHR '':'' # rest)))) atoi = Inr (int k)"
  using assms by (simp add: find_colon [OF colon_show_nat(1)] substr_0 atoi_show_nat)

lemma tree_info_link:
  assumes "k < 2 ^ 31" "\<forall>f \<in> {lp, host, port, start}. CHR '':'' \<notin> set f" "length (tree_info k [lp, host, port, start, stop]) \<le> npos"
  shows "initTreeInfo links (tree_info k [lp, host, port, start, stop]) =
    Inr ((vec_resize (k + 1) no_link links)[k := (vec_resize (k + 1) no_link links ! k)
      \<lparr>myListenPort := lp, otherHost := host,
       otherHostListenPort := if 0 < k then port else take (length host + 1) (join CHR '':'' [port, start, stop]),
       l_nidStart := if 0 < k then start else l_nidStart (vec_resize (k + 1) no_link links ! k),
       l_nidStop := if 0 < k then take (length start + 1) stop else l_nidStop (vec_resize (k + 1) no_link links ! k)\<rparr>])"
proof -
  let ?r5 = "stop"
  let ?r4 = "start @ CHR '':'' # ?r5"
  let ?r3 = "port @ CHR '':'' # ?r4"
  let ?r2 = "host @ CHR '':'' # ?r3"
  let ?r1 = "lp @ CHR '':'' # ?r2"
  let ?info = "show_nat k @ CHR '':'' # ?r1"
  let ?v = "vec_resize (k + 1) no_link links"
  have info: "tree_info k [lp, host, port, start, stop] = ?info" "join CHR '':'' [port, start, stop] = ?r3"
    by (simp_all add: tree_info_def)
  have len: "length ?info \<le> npos" using assms(3) info by simp
  have lv: "length ?v = k + 1" by (simp add: vec_resize_def)
  note u = unat_link [OF assms(1)]
  have f: "next_field ?info = Inr (show_nat k, ?r1)" "next_field ?r1 = Inr (lp, ?r2)" "next_field ?r2 = Inr (host, ?r3)"
    "next_field ?r3 = Inr (port, ?r4)" "next_field ?r4 = Inr (start, ?r5)"
    using assms(2) len by (simp_all add: next_field_colon colon_show_nat)
  have p: "pos_inc (pos_val (find_first_of CHR '':'' ?r2)) = length host + 1" "pos_inc (pos_val (find_first_of CHR '':'' ?r4)) = length start + 1"
    using assms(2) len by (simp_all add: find_colon pos_inc_def)
  have z: "(0 :: u32) < word_of_int (int k) \<longleftrightarrow> 0 < k" using u by (simp add: word_less_nat_alt)
  have a: "rbind (substr ?info 0 (pos_val (find_first_of CHR '':'' ?info))) (\<lambda>s. rbind (atoi s) g) = g (int k)" for g :: "int \<Rightarrow> Link list res"
    using link_number [OF assms(1), of ?r1] by (auto simp: rbind_eq_Inr)
  show ?thesis
    unfolding info initTreeInfo_def a Let_def no_link_def [symmetric]
    using u lv by (simp add: f p z substr_0 no_link_def [symmetric] del: of_int_of_nat_eq)
qed

text \<open>
  The option of a link towards other routers is split at the colons, but its last field is cut after one character more than
  the first number of the range has; the option of link 0 has its port cut after one character more than the name of the host.
\<close>

theorem tree_info_read:
  assumes "k < 2 ^ 31" "\<forall>f \<in> {lp, host, port, start}. CHR '':'' \<notin> set f" "length (tree_info k [lp, host, port, start, stop]) \<le> npos"
  shows "initTreeInfo links (tree_info k [lp, host, port, start, stop]) =
    Inr ((vec_resize (k + 1) no_link links)[k := (vec_resize (k + 1) no_link links ! k)
      \<lparr>myListenPort := lp, otherHost := host,
       otherHostListenPort := if 0 < k then port else take (length host + 1) (join CHR '':'' [port, start, stop]),
       l_nidStart := if 0 < k then start else l_nidStart (vec_resize (k + 1) no_link links ! k),
       l_nidStop := if 0 < k then take (length start + 1) stop else l_nidStop (vec_resize (k + 1) no_link links ! k)\<rparr>])"
  by (rule tree_info_link [OF assms])

theorem tree_info_read_witness:
  "initTreeInfo [no_link] (tree_info 1 [''15011'', ''node'', ''15021'', ''5'', ''100'']) =
     Inr [no_link, no_link\<lparr>myListenPort := ''15011'', otherHost := ''node'', otherHostListenPort := ''15021'',
       l_nidStart := ''5'', l_nidStop := ''10''\<rparr>]"
proof -
  have "length (tree_info 1 [''15011'', ''node'', ''15021'', ''5'', ''100'']) \<le> npos"
    by (simp add: tree_info_def show_nat.simps npos_def)
  then show ?thesis
    using tree_info_read [of 1 "''15011''" "''node''" "''15021''" "''5''" "''100''" "[no_link]"]
    by (simp add: vec_resize_def)
qed

section \<open>Channels of a router that starts\<close>

definition start_ok :: "rstart \<Rightarrow> bool" where
  "start_ok s \<longleftrightarrow> rtr_initial (rs_st s) \<and> (\<forall>c. isOpen (rs_st s) c \<longleftrightarrow> c < length (rs_chans s))"

definition grows :: "rstart \<Rightarrow> rstart \<Rightarrow> bool" where
  "grows s s' \<longleftrightarrow> (\<exists>ext. rs_chans s' = rs_chans s @ ext) \<and>
     (\<forall>c d. chans (rs_st s) c = Some d \<longrightarrow> chans (rs_st s') c = Some d)"

named_theorems boot \<open>what a step of the constructor keeps\<close>

lemma rgrows_refl: "grows s s"
  by (simp add: grows_def)

lemma rgrows_trans: "grows s s' \<Longrightarrow> grows s' s'' \<Longrightarrow> grows s s''"
  by (auto simp: grows_def)

lemma rtr_channel_run:
  assumes "rtr_channel env func cfg name s = Inr (c, s')"
  shows "c = length (rs_chans s) \<and> (\<exists>ec. rs_chans s' = rs_chans s @ [ec]) \<and>
    rs_st s' = (rs_st s)\<lparr>isOpen := (isOpen (rs_st s))(c := True)\<rparr>"
  using assms by (auto simp: rtr_channel_def rbind_eq_Inr Let_def)

lemma rtr_add_run:
  "rtr_add c d s = Inr s' \<Longrightarrow> chans (rs_st s) c = None \<and> s' = s\<lparr>rs_st := (rs_st s)\<lparr>chans := (chans (rs_st s))(c \<mapsto> d)\<rparr>\<rparr>"
  by (auto simp: rtr_add_def addChannel_def rbind_eq_Inr)

lemma channel_add [boot]:
  assumes "rtr_channel env func cfg name s = Inr (c, s1)" "rtr_add c d s1 = Inr s'" "start_ok s" "\<forall>r. d \<noteq> EventData r"
  shows "start_ok s' \<and> grows s s' \<and> chans (rs_st s') c = Some d \<and> c < length (rs_chans s')"
  using rtr_channel_run [OF assms(1)] rtr_add_run [OF assms(2)] assms(3,4)
  by (auto simp: start_ok_def rtr_initial_def grows_def less_Suc_eq split: if_splits)

lemma listen_channel_ok [boot]:
  "listen_channel env func port name r s = Inr s' \<Longrightarrow> start_ok s \<Longrightarrow> start_ok s' \<and> grows s s'"
  by (auto simp: listen_channel_def rbind_eq_Inr rgrows_refl split: if_splits dest!: channel_add)

lemma tree_link_ok [boot]:
  "tree_link env i l s = Inr (abc, s') \<Longrightarrow> start_ok s \<Longrightarrow> start_ok s' \<and> grows s s'"
  by (auto simp: tree_link_def rbind_eq_Inr rgrows_refl split: if_splits dest!: channel_add intro: rgrows_trans)

lemma torus_link_ok [boot]:
  "torus_link env d s = Inr (abc, s') \<Longrightarrow> start_ok s \<Longrightarrow> start_ok s' \<and> grows s s'"
  by (auto simp: torus_link_def rbind_eq_Inr dest!: channel_add intro: rgrows_trans)

text \<open>A link with a port has a channel that is going to connect to its host, and its range of routers.\<close>

definition client_chan :: "string \<Rightarrow> string \<Rightarrow> string \<Rightarrow> TcpEventChannel" where
  "client_chan name host port =
     \<lparr>m_fd = - 1, m_alloc = router_allocRtrEvent, m_chname = name, m_clientServer = host, m_clientServerPort = port\<rparr>"

definition config_ok :: "string \<Rightarrow> string \<Rightarrow> bool" where
  "config_ok host port \<longleftrightarrow> CHR '' '' \<notin> set host \<and> CHR '' '' \<notin> set port \<and> length (client_config host port) \<le> npos"

lemma rtr_channel_client:
  assumes "rtr_channel env router_allocRtrEvent (client_config host port) name s = Inr (c, s')" "config_ok host port"
  shows "rs_chans s' = rs_chans s @ [client_chan name host port]"
  using assms split_client_config [of host port]
  by (auto simp: rtr_channel_def getEventChannel_def new_TcpEventChannel_def config_ok_def client_chan_def str_or_empty_def
      rbind_eq_Inr Let_def)

definition link_entry :: "nat \<Rightarrow> Link \<Rightarrow> ABC \<Rightarrow> rstart \<Rightarrow> bool" where
  "link_entry i l abc s \<longleftrightarrow>
     (\<exists>c. a_send abc = Some c \<and> c < length (rs_chans s) \<and> chans (rs_st s) c = Some RouterData \<and>
        rs_chans s ! c = client_chan ''router'' (otherHost l) (otherHostListenPort l)) \<and>
     (0 < i \<longrightarrow> (\<exists>a b. atoi (l_nidStart l) = Inr a \<and> atoi (l_nidStop l) = Inr b \<and> nidStart abc = word_of_int a \<and> nidStop abc = word_of_int b))"

lemma link_entry_grows: "link_entry i l abc s \<Longrightarrow> grows s s' \<Longrightarrow> link_entry i l abc s'"
  by (fastforce simp: link_entry_def grows_def nth_append)

lemma tree_link_entry:
  assumes "tree_link env i l s = Inr (abc, s')" "start_ok s" "myListenPort l \<noteq> []" "config_ok (otherHost l) (otherHostListenPort l)"
  shows "link_entry i l abc s'"
proof -
  from assms(1,3) obtain c s1 s2 r s3 where s1: "rtr_channel env router_allocRtrEvent (client_config (otherHost l) (otherHostListenPort l)) ''router'' s = Inr (c, s1)"
    and s2: "rtr_add c RouterData s1 = Inr s2"
    and s3: "rtr_channel env router_allocRtrEvent (listen_config (myListenPort l)) ''router'' s2 = Inr (r, s3)" "rtr_add r (AcceptData RRouter) s3 = Inr s'"
    and abc: "a_send abc = Some c" "0 < i \<longrightarrow> (\<exists>a b. atoi (l_nidStart l) = Inr a \<and> atoi (l_nidStop l) = Inr b \<and>
      nidStart abc = word_of_int a \<and> nidStop abc = word_of_int b)"
    by (auto simp: tree_link_def rbind_eq_Inr split: if_splits)
  from channel_add [OF s1 s2 assms(2)] have ok: "start_ok s2" "chans (rs_st s2) c = Some RouterData" "c < length (rs_chans s2)" by auto
  have c: "c = length (rs_chans s)" "rs_chans s2 = rs_chans s @ [client_chan ''router'' (otherHost l) (otherHostListenPort l)]"
    using rtr_channel_run [OF s1] rtr_channel_client [OF s1 assms(4)] rtr_add_run [OF s2] by auto
  then have "link_entry i l abc s2" using ok abc by (simp add: link_entry_def)
  moreover have "grows s2 s'" using channel_add [OF s3 ok(1)] by auto
  ultimately show ?thesis by (rule link_entry_grows)
qed

lemma link_loop:
  assumes "foldM (\<lambda>i (abcs, s). rbind (f i s) (\<lambda>(abc, s). Inr (abcs @ [g abc], s))) [0..<n] ([], s) = Inr (abcs, s')" "start_ok s"
    and "\<And>i s abc s'. f i s = Inr (abc, s') \<Longrightarrow> start_ok s \<Longrightarrow> start_ok s' \<and> grows s s'"
  shows "start_ok s' \<and> grows s s' \<and> length abcs = n \<and>
    (\<forall>i < n. \<exists>abc s1 s2. f i s1 = Inr (abc, s2) \<and> abcs ! i = g abc \<and> start_ok s1 \<and> grows s2 s')"
  using assms(1)
proof (induction n arbitrary: abcs s')
  case 0
  with assms(2) show ?case by (simp add: rgrows_refl)
next
  case (Suc n)
  from Suc.prems obtain as s1 abc where as: "foldM (\<lambda>i (abcs, s). rbind (f i s) (\<lambda>(abc, s). Inr (abcs @ [g abc], s))) [0..<n] ([], s) = Inr (as, s1)"
    and f: "f n s1 = Inr (abc, s')" "abcs = as @ [g abc]"
    by (auto simp: foldM_append rbind_eq_Inr)
  note ih = Suc.IH [OF as]
  from ih assms(3) [OF f(1)] have ok: "start_ok s'" "grows s1 s'" by auto
  have "\<exists>abc' s3 s2. f i s3 = Inr (abc', s2) \<and> abcs ! i = g abc' \<and> start_ok s3 \<and> grows s2 s'" if "i < Suc n" for i
  proof (cases "i < n")
    case True
    with ih ok(2) show ?thesis by (fastforce simp: f(2) nth_append intro: rgrows_trans)
  next
    case False
    with that have "i = n" by simp
    with f ih show ?thesis by (fastforce simp: nth_append rgrows_refl)
  qed
  with ih ok f(2) show ?case by (auto intro: rgrows_trans)
qed

lemma new_TreeCore_ok:
  assumes "new_TreeCore env links s = Inr (abcs, s')" "start_ok s"
  shows "start_ok s' \<and> grows s s' \<and> length abcs = length links \<and>
    (\<forall>i < length links. myListenPort (links ! i) \<noteq> [] \<longrightarrow> config_ok (otherHost (links ! i)) (otherHostListenPort (links ! i)) \<longrightarrow>
      link_entry i (links ! i) (abcs ! i) s')"
proof -
  have l: "start_ok s' \<and> grows s s' \<and> length abcs = length links \<and>
      (\<forall>i < length links. \<exists>abc s1 s2. tree_link env i (links ! i) s1 = Inr (abc, s2) \<and> abcs ! i = abc \<and> start_ok s1 \<and> grows s2 s')"
    by (rule link_loop [where g = "\<lambda>abc. abc", OF assms(1) [unfolded new_TreeCore_def] assms(2)]) (rule tree_link_ok)
  have "link_entry i (links ! i) (abcs ! i) s'"
    if i: "i < length links" "myListenPort (links ! i) \<noteq> []" "config_ok (otherHost (links ! i)) (otherHostListenPort (links ! i))" for i
  proof -
    from l i(1) obtain s1 s2 where "tree_link env i (links ! i) s1 = Inr (abcs ! i, s2)" "start_ok s1" "grows s2 s'" by blast
    with tree_link_entry i show ?thesis by (blast intro: link_entry_grows)
  qed
  with l show ?thesis by blast
qed

lemma new_TorusCore_ok:
  assumes "new_TorusCore env dims s = Inr (abcs, s')" "start_ok s"
  shows "start_ok s' \<and> grows s s'"
proof -
  have "start_ok s' \<and> grows s s' \<and> length abcs = length dims \<and>
      (\<forall>i < length dims. \<exists>abc s1 s2. torus_link env (dims ! i) s1 = Inr (abc, s2) \<and> abcs ! i = [abc] \<and> start_ok s1 \<and> grows s2 s')"
    by (rule link_loop [where g = "\<lambda>abc. [abc]", OF assms(1) [unfolded new_TorusCore_def] assms(2)]) (rule torus_link_ok)
  then show ?thesis by blast
qed

lemma start_ok_core: "start_ok (s\<lparr>rs_st := (rs_st s)\<lparr>rcore := x\<rparr>\<rparr>) = start_ok s"
  by (simp add: start_ok_def rtr_initial_def)

lemma initRouteTable_run: "initRouteTable f st = Inr st' \<Longrightarrow> \<exists>t. st' = st\<lparr>routeTable := t\<rparr>"
  by (auto simp: initRouteTable_def rbind_eq_Inr split: option.splits)

lemma new_Router_run:
  assumes "new_Router env files jnk argv w = Inr (args, s)"
  shows "start_ok s \<and> (\<forall>links. a_coreArgs args = Some (TreeArgs links) \<longrightarrow>
    (\<exists>abcs s0 s1. new_TreeCore env links s0 = Inr (abcs, s1) \<and> start_ok s0 \<and> rs_chans s = rs_chans s1 \<and>
      rcore (rs_st s) = TreeCore abcs \<and> chans (rs_st s) = chans (rs_st s1)))"
proof -
  let ?s0 = "\<lparr>rs_net = w, rs_chans = [], rs_st = new_RState args jnk\<rparr>"
  from assms obtain s1 s2 core s3 st where s1: "listen_channel env router_allocClientEvent (a_clientPort args) ''client-listen'' RClient ?s0 = Inr s1"
    and s2: "listen_channel env router_allocServerEvent (a_serverPort args) ''server-listen'' RServer s1 = Inr s2"
    and core: "a_coreArgs args = Some core"
    and s3: "(case core of
              TorusArgs dims \<Rightarrow> rbind (new_TorusCore env dims s2) (\<lambda>(ls, s). Inr (s\<lparr>rs_st := (rs_st s)\<lparr>rcore := TorusCore ls\<rparr>\<rparr>))
            | TreeArgs links \<Rightarrow> rbind (new_TreeCore env links s2) (\<lambda>(ls, s). Inr (s\<lparr>rs_st := (rs_st s)\<lparr>rcore := TreeCore ls\<rparr>\<rparr>))) = Inr s3"
    and st: "initRouteTable (files (a_routeTable args)) (rs_st s3) = Inr st" "s = s3\<lparr>rs_st := st\<rparr>"
    by (auto simp: new_Router_def rbind_eq_Inr)
  have "start_ok ?s0" by (simp add: start_ok_def rtr_initial_def new_RState_def)
  then have ok2: "start_ok s2" using listen_channel_ok [OF s1] listen_channel_ok [OF s2] by blast
  from initRouteTable_run [OF st(1)] obtain t where t: "st = (rs_st s3)\<lparr>routeTable := t\<rparr>" by blast
  have keep: "start_ok s = start_ok s3" by (simp add: st(2) t start_ok_def rtr_initial_def)
  show ?thesis
  proof (cases core)
    case (TreeArgs links)
    with s3 obtain abcs s4 where s4: "new_TreeCore env links s2 = Inr (abcs, s4)" "s3 = s4\<lparr>rs_st := (rs_st s4)\<lparr>rcore := TreeCore abcs\<rparr>\<rparr>"
      by (auto simp: rbind_eq_Inr)
    have "start_ok s" using new_TreeCore_ok [OF s4(1) ok2] by (simp add: keep s4(2) start_ok_core)
    moreover have "rs_chans s = rs_chans s4" "rcore (rs_st s) = TreeCore abcs" "chans (rs_st s) = chans (rs_st s4)"
      by (simp_all add: st(2) t s4(2))
    ultimately show ?thesis using s4(1) ok2 core TreeArgs by auto
  next
    case (TorusArgs dims)
    with s3 obtain ls s4 where s4: "new_TorusCore env dims s2 = Inr (ls, s4)" "s3 = s4\<lparr>rs_st := (rs_st s4)\<lparr>rcore := TorusCore ls\<rparr>\<rparr>"
      by (auto simp: rbind_eq_Inr)
    have "start_ok s" using new_TorusCore_ok [OF s4(1) ok2] by (simp add: keep s4(2) start_ok_core)
    with core TorusArgs show ?thesis by simp
  qed
qed

section \<open>Properties\<close>

definition in_range :: "Link \<Rightarrow> u32 \<Rightarrow> bool" where
  "in_range l i \<longleftrightarrow> (case (atoi (l_nidStart l), atoi (l_nidStop l)) of
     (Inr a, Inr b) \<Rightarrow> word_of_int a \<le> i \<and> i \<le> word_of_int b | _ \<Rightarrow> False)"

lemma link_entry_range: "link_entry k l abc s \<Longrightarrow> 0 < k \<Longrightarrow> nidStart abc \<le> i \<and> i \<le> nidStop abc \<longleftrightarrow> in_range l i"
  by (auto simp: link_entry_def in_range_def)

lemma tree_channel_nth:
  assumes "k < length abcs" "\<forall>j. 0 < j \<and> j < (if k = 0 then length abcs else k) \<longrightarrow> \<not> (nidStart (abcs ! j) \<le> i \<and> i \<le> nidStop (abcs ! j))"
    and "0 < k \<longrightarrow> nidStart (abcs ! k) \<le> i \<and> i \<le> nidStop (abcs ! k)"
  shows "TreeCore_getChannel abcs i = Inr (a_send (abcs ! k))"
proof -
  from assms(1) obtain l0 ls where abcs: "abcs = l0 # ls" by (cases abcs) auto
  show ?thesis
  proof (cases k)
    case 0
    have "\<forall>l \<in> set ls. \<not> (nidStart l \<le> i \<and> i \<le> nidStop l)"
    proof
      fix l assume "l \<in> set ls"
      then obtain j where "j < length ls" "l = ls ! j" by (auto simp: in_set_conv_nth)
      with assms(2) [rule_format, of "Suc j"] show "\<not> (nidStart l \<le> i \<and> i \<le> nidStop l)" by (simp add: abcs 0)
    qed
    with tree_channel [of ls i] 0 show ?thesis by (simp add: abcs)
  next
    case (Suc j)
    then have j: "j < length ls" using assms(1) by (simp add: abcs)
    have "\<forall>l \<in> set (take j ls). \<not> (nidStart l \<le> i \<and> i \<le> nidStop l)"
    proof
      fix l assume "l \<in> set (take j ls)"
      then obtain m where "m < j" "l = ls ! m" by (auto simp: in_set_conv_nth)
      with assms(2) [rule_format, of "Suc m"] Suc show "\<not> (nidStart l \<le> i \<and> i \<le> nidStop l)" by (simp add: abcs)
    qed
    from tree_channel [OF this, of "ls ! j" l0 "drop (Suc j) ls"] assms(3) Suc id_take_nth_drop [OF j]
    show ?thesis by (simp add: abcs)
  qed
qed

text \<open>The channels to other routers stay, and so does the core, whatever the router does.\<close>

lemma peer_step:
  assumes "rtr_step st st'" "rtr_inv st"
  shows "rcore st' = rcore st \<and> rtrId st' = rtrId st \<and> (chans st c = Some RouterData \<longrightarrow> chans st' c = Some RouterData)"
  using assms
proof (induction rule: rtr_step.induct)
  case (accept st l r new st')
  then show ?case
    by (cases r) (auto simp: AcceptData_process_def addChannel_def chan_add_def addClientChan_def addServerChan_def rbind_eq_Inr)
next
  case (event st c' r ev del st')
  then have "frame st st'" by (auto simp: EventData_process_def rbind_eq_Inr dest!: frames)
  then show ?case by (simp add: frame_def)
next
  case (closed st c' r del st')
  let ?st0 = "st\<lparr>chans := (chans st)(c' := None)\<rparr>"
  from closed obtain st1 where d: "chan_del r c' ?st0 = Inr st1"
    and st': "st' = st1\<lparr>isOpen := (isOpen st1)(c' := False)\<rparr>"
    by (auto simp: EventData_process_def delChannel_def rbind_eq_Inr)
  have "frame ?st0 st1 \<or> (rcore st1 = rcore st \<and> rtrId st1 = rtrId st \<and> chans st1 = chans ?st0)"
  proof (cases r)
    case RClient
    with d obtain st2 where
      s: "foldM destroy_comm (case clientMap st c' of None \<Rightarrow> [] | Some m \<Rightarrow> m) ?st0 = Inr st2"
      and st1: "st1 = st2\<lparr>clientMap := (clientMap st2)(c' := None)\<rparr>"
      by (auto simp: chan_del_def delClientChan_def rbind_eq_Inr)
    have "frame ?st0 st2" by (rule foldM_frame [OF _ s]) (rule frames)
    then show ?thesis by (simp add: st1 frame_def)
  qed (use d in \<open>auto simp: chan_del_def delServerChan_def delServer_def Let_def split: option.splits if_splits\<close>)
  with closed.hyps(1) st' show ?case by (auto simp: frame_def)
next
  case (peer st c' got del st')
  then have "frame st st'" by (auto simp: RouterData_process_def rbind_eq_Inr split: option.splits dest!: frames)
  then show ?case by (simp add: frame_def)
qed

lemma peer_reachable:
  assumes "rtr_step\<^sup>*\<^sup>* st0 st" "rtr_inv st0"
  shows "rtr_inv st \<and> rcore st = rcore st0 \<and> rtrId st = rtrId st0 \<and> (chans st0 c = Some RouterData \<longrightarrow> chans st c = Some RouterData)"
  using assms
proof (induction rule: rtranclp_induct)
  case (step st st')
  with peer_step [OF step.hyps(2), of c] rtr_inv_step [OF step.hyps(2)] show ?case by simp
qed simp

lemma forward_to_peer:
  assumes "findRtrChan (RTR_ID (rt_dest re)) st = Inr (Some c)" "isOpen st c" "RTR_ID (rt_dest re) \<noteq> rtrId st"
    and "ev_type re = type_word Router2Router"
  shows "EventData_process r c' (Some (EvRouter re)) st =
    Inr (False, st\<lparr>evs := evs st @ [None], outq := outq st @ [(c, EvRouter re)]\<rparr>)"
proof -
  let ?st1 = "st\<lparr>evs := evs st @ [Some (EvRouter re)]\<rparr>" and ?a = "length (evs st)"
  have g: "ev_get ?a ?st1 = Inr (EvRouter re)" by (simp add: ev_get_def heap_get_new)
  have "findRtrChan (RTR_ID (rt_dest re)) ?st1 = Inr (Some c)" using assms(1) by (simp add: findRtrChan_def)
  then have "Router_sendEvent (rt_dest re) ?a ?st1 = Inr (?st1\<lparr>outq := outq st @ [(c, EvRouter re)]\<rparr>)"
    using assms(2-4) g by (subst Router_sendEvent.simps) (simp add: next_hop_def as_Router_def deliver_def chan_send_def any_type_def)
  then show ?thesis
    using g by (simp add: EventData_process_def handle_event_def ev_new_def rtr_process_def ev_free_def heap_free_def heap_get_new)
qed

text \<open>
  C23: A router started with a tree of links, in every state it can reach, forwards an event for another router, unchanged, on a
  channel that it waits for and that, at its first use, is going to connect to the host and port of the first link whose range has the router's
  id, or of link 0 if no range has it; if every link has a port to listen on and no host's name or port has a blank. Nothing else is sent.
\<close>

theorem tree_router_routes:
  assumes "new_Router env files jnk argv w = Inr (args, s)" "a_coreArgs args = Some (TreeArgs links)"
    and "rtr_step\<^sup>*\<^sup>* (rs_st s) st" "ev_type re = type_word Router2Router" "RTR_ID (rt_dest re) = i" "i \<noteq> rtrId (rs_st s)"
    and "\<forall>l \<in> set links. myListenPort l \<noteq> [] \<and> config_ok (otherHost l) (otherHostListenPort l)"
    and "k < length links" "\<forall>j. 0 < j \<and> j < (if k = 0 then length links else k) \<longrightarrow> \<not> in_range (links ! j) i"
    and "0 < k \<longrightarrow> in_range (links ! k) i"
  shows "\<exists>c. chans st c = Some RouterData \<and> isOpen st c \<and>
    rs_chans s ! c = client_chan ''router'' (otherHost (links ! k)) (otherHostListenPort (links ! k)) \<and>
    EventData_process r c' (Some (EvRouter re)) st = Inr (False, st\<lparr>evs := evs st @ [None], outq := outq st @ [(c, EvRouter re)]\<rparr>)"
proof -
  from new_Router_run [OF assms(1)] assms(2) obtain abcs s0 s1 where r: "new_TreeCore env links s0 = Inr (abcs, s1)" "start_ok s0"
    "rs_chans s = rs_chans s1" "rcore (rs_st s) = TreeCore abcs" "chans (rs_st s) = chans (rs_st s1)" "start_ok s" by blast
  from new_TreeCore_ok [OF r(1,2)] assms(7) have len: "length abcs = length links"
    by blast
  from new_TreeCore_ok [OF r(1,2)] assms(7) have entry: "link_entry j (links ! j) (abcs ! j) s1" if "j < length links" for j using that by auto
  have "TreeCore_getChannel abcs i = Inr (a_send (abcs ! k))"
  proof (rule tree_channel_nth)
    show "k < length abcs" using assms(8) by (simp add: len)
    show "\<forall>j. 0 < j \<and> j < (if k = 0 then length abcs else k) \<longrightarrow> \<not> (nidStart (abcs ! j) \<le> i \<and> i \<le> nidStop (abcs ! j))"
    proof (intro allI impI)
      fix j assume j: "0 < j \<and> j < (if k = 0 then length abcs else k)"
      then have "j < length links" using assms(8) len by (cases "k = 0") auto
      moreover have "\<not> in_range (links ! j) i" using assms(9) j unfolding len by blast
      ultimately show "\<not> (nidStart (abcs ! j) \<le> i \<and> i \<le> nidStop (abcs ! j))"
        using link_entry_range [OF entry, of j i] j by simp
    qed
    show "0 < k \<longrightarrow> nidStart (abcs ! k) \<le> i \<and> i \<le> nidStop (abcs ! k)"
      using link_entry_range [OF entry [OF assms(8)]] assms(10) by simp
  qed
  moreover from entry [OF assms(8)] obtain c where "a_send (abcs ! k) = Some c" "c < length (rs_chans s1)"
    "chans (rs_st s1) c = Some RouterData" "rs_chans s1 ! c = client_chan ''router'' (otherHost (links ! k)) (otherHostListenPort (links ! k))"
    by (auto simp: link_entry_def)
  moreover have "rtr_inv (rs_st s)" using r(6) rtr_inv_initial by (auto simp: start_ok_def)
  note peer = peer_reachable [OF assms(3) this]
  ultimately have c: "findRtrChan i st = Inr (Some c)" "chans st c = Some RouterData"
    using r peer [of c] by (simp_all add: findRtrChan_def)
  then have o: "isOpen st c" using peer by (auto simp: rtr_inv_def)
  have "EventData_process r c' (Some (EvRouter re)) st = Inr (False, st\<lparr>evs := evs st @ [None], outq := outq st @ [(c, EvRouter re)]\<rparr>)"
    by (rule forward_to_peer) (use c(1) o peer assms(4-6) in simp_all)
  with c(2) o show ?thesis using r(3) \<open>rs_chans s1 ! c = _\<close> by auto
qed

text \<open>A router with two links: the one to its parent, and one to the routers 5 to 9.\<close>

definition idle_host :: os where
  "idle_host h c = (case c of SocketCall \<Rightarrow> 3 | _ \<Rightarrow> 0)"

definition two_links_argv :: "string list" where
  "two_links_argv = ''router'' # map (\<lambda>(n, v). long_opt n v)
     [(''routerId'', ''2''), (''routeTable'', ''routes''), (''routerType'', ''tree''),
      (''routerInfo'', tree_info 0 [''15010'', ''host'', ''15020'', [], []]),
      (''routerInfo'', tree_info 1 [''15011'', ''node'', ''15021'', ''5'', ''9''])]"

definition two_links :: "Link list" where
  "two_links =
     [\<lparr>myListenPort = ''15010'', otherHost = ''host'', otherHostListenPort = ''15020'', l_nidStart = [], l_nidStop = []\<rparr>,
      \<lparr>myListenPort = ''15011'', otherHost = ''node'', otherHostListenPort = ''15021'', l_nidStart = ''5'', l_nidStop = ''9''\<rparr>]"

lemma two_links_read:
  "initTreeInfo [] (tree_info 0 [''15010'', ''host'', ''15020'', [], []]) = Inr [hd two_links]"
  "initTreeInfo [hd two_links] (tree_info 1 [''15011'', ''node'', ''15021'', ''5'', ''9'']) = Inr two_links"
proof -
  have "length (tree_info 0 [''15010'', ''host'', ''15020'', [], []]) \<le> npos" "length (tree_info 1 [''15011'', ''node'', ''15021'', ''5'', ''9'']) \<le> npos"
    by (simp_all add: tree_info_def show_nat.simps npos_def)
  then show "initTreeInfo [] (tree_info 0 [''15010'', ''host'', ''15020'', [], []]) = Inr [hd two_links]"
    "initTreeInfo [hd two_links] (tree_info 1 [''15011'', ''node'', ''15021'', ''5'', ''9'']) = Inr two_links"
    using tree_info_link [of 0 "''15010''" "''host''" "''15020''" "[]" "[]" "[]"]
      tree_info_link [of 1 "''15011''" "''node''" "''15021''" "''5''" "''9''" "[hd two_links]"]
    by (simp_all add: vec_resize_def no_link_def two_links_def)
qed

lemma two_links_args: "\<exists>args. rtr_initArgs two_links_argv = Inr args \<and> a_coreArgs args = Some (TreeArgs two_links) \<and>
    a_clientPort args = [] \<and> a_serverPort args = [] \<and> a_rtrId args = 2"
proof -
  let ?os = "[(''routerId'', ''2''), (''routeTable'', ''routes''), (''routerType'', ''tree''),
      (''routerInfo'', tree_info 0 [''15010'', ''host'', ''15020'', [], []]),
      (''routerInfo'', tree_info 1 [''15011'', ''node'', ''15021'', ''5'', ''9''])]"
  have "getopt_long rtr_options (map (\<lambda>(n, v). long_opt n v) ?os) = map (\<lambda>(n, v). Opt n v) ?os"
    by (rule getopt_long_opts) (simp add: rtr_options_def)
  moreover have "atoi ''2'' = Inr 2" using atoi_show_nat [of 2] by (simp add: show_nat.simps char_of_def bit_Suc_0_iff)
  ultimately show ?thesis
    by (simp add: rtr_initArgs_def two_links_argv_def rtr_option_def new_RtrArgs_def two_links_read two_links_read(2) [unfolded One_nat_def] assert_c_def)
qed

lemma two_links_start:
  "\<exists>args s c. new_Router idle_host (\<lambda>_. Some []) 0 two_links_argv idle_net = Inr (args, s) \<and> a_coreArgs args = Some (TreeArgs two_links) \<and>
     rtrId (rs_st s) = 2 \<and> chans (rs_st s) c = Some (AcceptData RRouter)"
proof -
  obtain args where args: "rtr_initArgs two_links_argv = Inr args" "a_coreArgs args = Some (TreeArgs two_links)"
    "a_clientPort args = []" "a_serverPort args = []" "a_rtrId args = 2" using two_links_args by blast
  have len: "length (client_config ''host'' ''15020'') \<le> npos" "length (client_config ''node'' ''15021'') \<le> npos"
    "length (listen_config ''15010'') \<le> npos" "length (listen_config ''15011'') \<le> npos"
    by (simp_all add: client_config_def listen_config_def npos_def)
  have a: "atoi ''15010'' = Inr 15010" "atoi ''15011'' = Inr 15011" "atoi ''5'' = Inr 5" "atoi ''9'' = Inr 9"
    using atoi_show_nat [of 15010] atoi_show_nat [of 15011] atoi_show_nat [of 5] atoi_show_nat [of 9]
    by (simp_all add: show_nat.simps char_of_def bit_Suc_0_iff)
  have cl: "\<exists>s'. rtr_channel idle_host func (client_config h p) nm s = Inr (length (rs_chans s), s') \<and>
      rs_st s' = (rs_st s)\<lparr>isOpen := (isOpen (rs_st s))(length (rs_chans s) := True)\<rparr> \<and> length (rs_chans s') = Suc (length (rs_chans s))"
    if "(h, p) \<in> {(''host'', ''15020''), (''node'', ''15021'')}" for func h p nm s
    using that split_client_config len
    by (auto simp: rtr_channel_def getEventChannel_def new_TcpEventChannel_def str_or_empty_def Let_def)
  have ls: "\<exists>s'. rtr_channel idle_host func (listen_config p) nm s = Inr (length (rs_chans s), s') \<and>
      rs_st s' = (rs_st s)\<lparr>isOpen := (isOpen (rs_st s))(length (rs_chans s) := True)\<rparr> \<and> length (rs_chans s') = Suc (length (rs_chans s))"
    if "p \<in> {''15010'', ''15011''}" for func p nm s
    using that split_listen_config len
    by (auto simp: rtr_channel_def getEventChannel_def new_TcpEventChannel_def str_or_empty_def Let_def initServer_def setupRecv_def
        os_call_def idle_host_def a)
  have tl: "\<exists>abc s'. tree_link idle_host i (two_links ! i) s = Inr (abc, s') \<and> (\<forall>c \<ge> length (rs_chans s'). chans (rs_st s') c = None) \<and>
      rtrId (rs_st s') = rtrId (rs_st s) \<and> (\<exists>c. chans (rs_st s') c = Some (AcceptData RRouter))"
    if "i < 2" "\<forall>c \<ge> length (rs_chans s). chans (rs_st s) c = None" for i s
  proof -
    let ?l = "two_links ! i"
    from that(1) have l: "(otherHost ?l, otherHostListenPort ?l) \<in> {(''host'', ''15020''), (''node'', ''15021'')}"
      "myListenPort ?l \<in> {''15010'', ''15011''}" "0 < i \<Longrightarrow> l_nidStart ?l = ''5'' \<and> l_nidStop ?l = ''9''"
      by (auto simp: two_links_def less_Suc_eq numeral_2_eq_2)
    obtain s1 where s1: "rtr_channel idle_host router_allocRtrEvent (client_config (otherHost ?l) (otherHostListenPort ?l)) ''router'' s = Inr (length (rs_chans s), s1)"
      "rs_st s1 = (rs_st s)\<lparr>isOpen := (isOpen (rs_st s))(length (rs_chans s) := True)\<rparr>" "length (rs_chans s1) = Suc (length (rs_chans s))"
      using cl [OF l(1)] by blast
    define s2 where "s2 = s1\<lparr>rs_st := (rs_st s1)\<lparr>chans := (chans (rs_st s1))(length (rs_chans s) \<mapsto> RouterData)\<rparr>\<rparr>"
    have s2: "rtr_add (length (rs_chans s)) RouterData s1 = Inr s2" using that(2) s1(2) by (simp add: rtr_add_def addChannel_def s2_def)
    obtain s3 where s3: "rtr_channel idle_host router_allocRtrEvent (listen_config (myListenPort ?l)) ''router'' s2 = Inr (length (rs_chans s2), s3)"
      "rs_st s3 = (rs_st s2)\<lparr>isOpen := (isOpen (rs_st s2))(length (rs_chans s2) := True)\<rparr>" "length (rs_chans s3) = Suc (length (rs_chans s2))"
      using ls [OF l(2)] by blast
    have n: "length (rs_chans s2) = Suc (length (rs_chans s))" by (simp add: s2_def s1(3))
    define s4 where "s4 = s3\<lparr>rs_st := (rs_st s3)\<lparr>chans := (chans (rs_st s3))(length (rs_chans s2) \<mapsto> AcceptData RRouter)\<rparr>\<rparr>"
    have s4: "rtr_add (length (rs_chans s2)) (AcceptData RRouter) s3 = Inr s4"
      using that(2) s1(2) s3(2) n by (simp add: rtr_add_def addChannel_def s4_def s2_def)
    have free: "\<forall>c \<ge> length (rs_chans s4). chans (rs_st s4) c = None"
      using that(2) s1(2,3) s3(2,3) n by (auto simp: s4_def s2_def)
    have "myListenPort ?l \<noteq> []" using l(2) by auto
    then have "\<exists>abc. tree_link idle_host i ?l s = Inr (abc, s4)"
      using s1(1) s2 s3(1) s4 l(3) by (simp add: tree_link_def a)
    moreover have "rtrId (rs_st s4) = rtrId (rs_st s) \<and> chans (rs_st s4) (length (rs_chans s2)) = Some (AcceptData RRouter)"
      using s1(2) s3(2) by (simp add: s4_def s2_def)
    ultimately show ?thesis using free by blast
  qed
  let ?s = "\<lparr>rs_net = idle_net, rs_chans = [], rs_st = new_RState args 0\<rparr>"
  obtain abc0 s1 where s1: "tree_link idle_host 0 (two_links ! 0) ?s = Inr (abc0, s1)" "\<forall>c \<ge> length (rs_chans s1). chans (rs_st s1) c = None"
    "rtrId (rs_st s1) = rtrId (rs_st ?s)"
    using tl [of 0 ?s] by (auto simp: new_RState_def)
  obtain abc1 s2 c where s2: "tree_link idle_host 1 (two_links ! 1) s1 = Inr (abc1, s2)" "rtrId (rs_st s2) = 2"
    "chans (rs_st s2) c = Some (AcceptData RRouter)"
    using tl [of 1 s1] s1(2,3) args(5) by (auto simp: new_RState_def)
  have "length two_links = 2" by (simp add: two_links_def)
  then have "new_TreeCore idle_host two_links ?s = Inr ([abc0, abc1], s2)"
    using s1(1) s2(1) by (simp add: new_TreeCore_def upt_rec)
  then have "\<exists>s. new_Router idle_host (\<lambda>_. Some []) 0 two_links_argv idle_net = Inr (args, s) \<and>
      rtrId (rs_st s) = 2 \<and> chans (rs_st s) c = Some (AcceptData RRouter)"
    using args s2(2,3) by (simp add: new_Router_def listen_channel_def initRouteTable_def)
  with args(2) show ?thesis by blast
qed

definition to_seven :: RouterEvent where
  "to_seven = \<lparr>ev_type = type_word Router2Router, ev_id = 1, ev_status = 0, rt_src = APP_ID 3 0, rt_dest = APP_ID 7 0,
     rt_eventType = CommReq, rt_payload = []\<rparr>"

lemma to_seven_dest: "ev_type to_seven = type_word Router2Router" "RTR_ID (rt_dest to_seven) = 7"
  by (simp_all add: to_seven_def RTR_ID_def APP_ID_def)

theorem tree_router_routes_witness:
  "\<exists>args s c. new_Router idle_host (\<lambda>_. Some []) 0 two_links_argv idle_net = Inr (args, s) \<and>
     rs_chans s ! c = client_chan ''router'' ''node'' ''15021'' \<and>
     EventData_process RServer 8 (Some (EvRouter to_seven)) (rs_st s) =
       Inr (False, (rs_st s)\<lparr>evs := evs (rs_st s) @ [None], outq := outq (rs_st s) @ [(c, EvRouter to_seven)]\<rparr>)"
proof -
  obtain args s where s: "new_Router idle_host (\<lambda>_. Some []) 0 two_links_argv idle_net = Inr (args, s)"
    "a_coreArgs args = Some (TreeArgs two_links)" "rtrId (rs_st s) = 2"
    using two_links_start by blast
  have l: "\<forall>l \<in> set two_links. myListenPort l \<noteq> [] \<and> config_ok (otherHost l) (otherHostListenPort l)"
    by (simp add: two_links_def config_ok_def client_config_def npos_def)
  have "in_range (two_links ! 1) 7"
    using atoi_show_nat [of 5] atoi_show_nat [of 9]
    by (simp add: in_range_def two_links_def show_nat.simps char_of_def bit_Suc_0_iff)
  with tree_router_routes [OF s(1,2) rtranclp.rtrancl_refl to_seven_dest _ l, of 1 RServer 8] s
  show ?thesis by (fastforce simp: two_links_def)
qed

text \<open>
  C24: In every state a router can reach from its constructor, the clients and the servers it knows are exactly
  those whose channels it listens to, and every channel it listens to is open: a request that
  arrives on a client's channel always finds its client.
\<close>

theorem started_router_channels:
  assumes "new_Router env files jnk argv w = Inr (args, s)" "rtr_step\<^sup>*\<^sup>* (rs_st s) st"
  shows "(\<forall>c. (clientMap st c = None) = (chans st c \<noteq> Some (EventData RClient))) \<and>
    (\<forall>c. (serverMap st c = None) = (chans st c \<noteq> Some (EventData RServer))) \<and>
    (\<forall>c. chans st c = None \<or> isOpen st c)"
proof -
  have "rtr_initial (rs_st s)" using new_Router_run [OF assms(1)] by (simp add: start_ok_def)
  from rtr_inv_reachable [OF assms(2) rtr_inv_initial [OF this]] show ?thesis by (auto simp: rtr_inv_def)
qed

theorem started_router_channels_witness:
  "\<exists>args s c st. new_Router idle_host (\<lambda>_. Some []) 0 two_links_argv idle_net = Inr (args, s) \<and>
     rtr_step (rs_st s) st \<and> chans (rs_st s) c = None \<and> chans st c = Some (EventData RRouter) \<and>
     (\<forall>c. chans st c = None \<or> isOpen st c)"
proof -
  obtain args s l where s: "new_Router idle_host (\<lambda>_. Some []) 0 two_links_argv idle_net = Inr (args, s)"
    and l: "chans (rs_st s) l = Some (AcceptData RRouter)"
    using two_links_start by blast
  let ?c = "length (rs_chans s)"
  have free: "\<not> isOpen (rs_st s) ?c" "chans (rs_st s) ?c = None"
    using new_Router_run [OF s] by (auto simp: start_ok_def rtr_initial_def)
  then have "\<exists>st. AcceptData_process RRouter ?c (rs_st s) = Inr st \<and> chans st ?c = Some (EventData RRouter)"
    by (simp add: AcceptData_process_def addChannel_def chan_add_def)
  then obtain st where st: "AcceptData_process RRouter ?c (rs_st s) = Inr st" "chans st ?c = Some (EventData RRouter)" by blast
  have "rtr_step (rs_st s) st" by (rule rtr_step.accept [OF l free(1) st(1)])
  with started_router_channels [OF s r_into_rtranclp] s free st(2) show ?thesis by blast
qed

end
