(* ===== verification/PluginBase.thy ===== *)
theory PluginBase
  imports CLib PwrTypes
begin

text \<open>
  What the device plugins under \<^verbatim>\<open>src/plugins\<close> share: the operating system they
  call, the objects they allocate, and the vector operations each of them builds from its
  single read and write (\<^verbatim>\<open>pwrdev.h\<close> is the table of these operations).

  The system is a record: what a file holds at each moment, which calls fail and what the clock
  shows are arguments of the model; open files, the data written and the position
  \<^verbatim>\<open>strtok\<close> keeps are its state. A value or time stamp a plugin writes through a
  pointer is a 64-bit cell, passed in and returned.
\<close>

section \<open>The operating system\<close>

record os =
  ticks :: nat
  file_at :: "nat \<Rightarrow> string \<Rightarrow> string option"
  read_fails :: "nat \<Rightarrow> bool"
  wr_open :: "nat \<Rightarrow> string \<Rightarrow> bool"
  wr_fails :: "nat \<Rightarrow> bool"
  clock :: "nat \<Rightarrow> u64 \<times> u64"
  fdtab :: "(string \<times> string) heap"
  written :: "(string \<times> string) list"
  tok :: "string option"

text \<open>A file is read as it was when it was opened.\<close>

definition sys_open_rd :: "string \<Rightarrow> 'b os_scheme \<Rightarrow> int \<times> 'b os_scheme" where
  "sys_open_rd path s =
     (case file_at s (ticks s) path of
        None \<Rightarrow> (-1, s\<lparr>ticks := Suc (ticks s)\<rparr>)
      | Some c \<Rightarrow> (int (length (fdtab s)),
                  s\<lparr>ticks := Suc (ticks s), fdtab := fdtab s @ [Some (path, c)]\<rparr>))"

definition sys_open_wr :: "string \<Rightarrow> 'b os_scheme \<Rightarrow> int \<times> 'b os_scheme" where
  "sys_open_wr path s =
     (if wr_open s (ticks s) path
      then (int (length (fdtab s)),
            s\<lparr>ticks := Suc (ticks s), fdtab := fdtab s @ [Some (path, [])]\<rparr>)
      else (-1, s\<lparr>ticks := Suc (ticks s)\<rparr>))"

definition fd_get :: "int \<Rightarrow> 'b os_scheme \<Rightarrow> (string \<times> string) option" where
  "fd_get fd s =
     (if 0 \<le> fd then (case heap_get (fdtab s) (nat fd) of Inr x \<Rightarrow> Some x | Inl _ \<Rightarrow> None) else None)"

text \<open>\<^verbatim>\<open>read( fd, p, 1 )\<close>: its result and the character, if it read one.\<close>

definition sys_read1 :: "int \<Rightarrow> 'b os_scheme \<Rightarrow> int \<times> char option \<times> 'b os_scheme" where
  "sys_read1 fd s =
     (let s' = s\<lparr>ticks := Suc (ticks s)\<rparr> in
      case fd_get fd s of
        None \<Rightarrow> (-1, None, s')
      | Some (path, c) \<Rightarrow>
          if read_fails s (ticks s) then (-1, None, s')
          else (case c of
                  [] \<Rightarrow> (0, None, s')
                | x # xs \<Rightarrow> (1, Some x, s'\<lparr>fdtab := (fdtab s)[nat fd := Some (path, xs)]\<rparr>)))"

definition sys_write :: "int \<Rightarrow> string \<Rightarrow> 'b os_scheme \<Rightarrow> int \<times> 'b os_scheme" where
  "sys_write fd str s =
     (let s' = s\<lparr>ticks := Suc (ticks s)\<rparr> in
      case fd_get fd s of
        None \<Rightarrow> (-1, s')
      | Some (path, _) \<Rightarrow>
          if wr_fails s (ticks s) then (-1, s')
          else (int (length str), s'\<lparr>written := written s @ [(path, str)]\<rparr>))"

definition sys_close :: "int \<Rightarrow> 'b os_scheme \<Rightarrow> 'b os_scheme" where
  "sys_close fd s = (if 0 \<le> fd then s\<lparr>fdtab := (fdtab s)[nat fd := None]\<rparr> else s)"

definition gettimeofday :: "'b os_scheme \<Rightarrow> (u64 \<times> u64) \<times> 'b os_scheme" where
  "gettimeofday s = (clock s (ticks s), s\<lparr>ticks := Suc (ticks s)\<rparr>)"

text \<open>\<^verbatim>\<open>tv.tv_sec*1000000000ULL + tv.tv_usec*1000\<close>, modulo $2^{64}$.\<close>

definition tv_nsec :: "u64 \<times> u64 \<Rightarrow> u64" where
  "tv_nsec tv = fst tv * 1000000000 + snd tv * 1000"

definition open_files :: "'b os_scheme \<Rightarrow> nat" where
  "open_files s = length (filter (\<lambda>x. x \<noteq> None) (fdtab s))"

text \<open>
  \<^verbatim>\<open>strtok\<close> on a string, and on the one it was last called with; before the first
  call there is none.
\<close>

definition strtok_start :: "char set \<Rightarrow> string \<Rightarrow> 'b os_scheme \<Rightarrow> string option \<times> 'b os_scheme" where
  "strtok_start ds str s = (case strtok_from ds str of (t, rest) \<Rightarrow> (t, s\<lparr>tok := Some rest\<rparr>))"

definition strtok_next :: "char set \<Rightarrow> 'b os_scheme \<Rightarrow> (string option \<times> 'b os_scheme) res" where
  "strtok_next ds s =
     rbind (deref (tok s)) (\<lambda>rest.
     case strtok_from ds rest of (t, rest) \<Rightarrow> Inr (t, s\<lparr>tok := Some rest\<rparr>))"

section \<open>The objects of a plugin\<close>

text \<open>The private data of each device made by \<^verbatim>\<open>init\<close> and each descriptor made by \<^verbatim>\<open>open\<close>.\<close>

record ('dev, 'fd) pstate = os +
  devs :: "'dev heap"
  fds :: "'fd heap"

definition dev_new :: "'d \<Rightarrow> ('d, 'f) pstate \<Rightarrow> addr \<times> ('d, 'f) pstate" where
  "dev_new d s = (length (devs s), s\<lparr>devs := devs s @ [Some d]\<rparr>)"

definition dev_final :: "addr \<Rightarrow> ('d, 'f) pstate \<Rightarrow> ('d, 'f) pstate res" where
  "dev_final d s = rbind (heap_free d (devs s)) (\<lambda>h. Inr (s\<lparr>devs := h\<rparr>))"

definition pfd_new :: "'f \<Rightarrow> ('d, 'f) pstate \<Rightarrow> addr \<times> ('d, 'f) pstate" where
  "pfd_new f s = (length (fds s), s\<lparr>fds := fds s @ [Some f]\<rparr>)"

definition pfd_get :: "addr option \<Rightarrow> ('d, 'f) pstate \<Rightarrow> 'f res" where
  "pfd_get p s = rbind (deref p) (heap_get (fds s))"

definition pfd_set :: "addr option \<Rightarrow> 'f \<Rightarrow> ('d, 'f) pstate \<Rightarrow> ('d, 'f) pstate res" where
  "pfd_set p f s =
     rbind (deref p) (\<lambda>a. rbind (heap_set a f (fds s)) (\<lambda>h. Inr (s\<lparr>fds := h\<rparr>)))"

definition pfd_close :: "addr option \<Rightarrow> ('d, 'f) pstate \<Rightarrow> (int \<times> ('d, 'f) pstate) res" where
  "pfd_close p s =
     rbind (deref p) (\<lambda>a. rbind (heap_free a (fds s)) (\<lambda>h. Inr (0, s\<lparr>fds := h\<rparr>)))"

text \<open>No read fails.\<close>

definition reads_ok :: "'b os_scheme \<Rightarrow> bool" where
  "reads_ok s \<longleftrightarrow> (\<forall>n. \<not> read_fails s n)"

text \<open>A system for examples: every file has the given content, no call fails.\<close>

definition demo_state :: "(string \<Rightarrow> string option) \<Rightarrow> 'f list \<Rightarrow> ('d, 'f) pstate" where
  "demo_state files fs =
     \<lparr>ticks = 0, file_at = \<lambda>_. files, read_fails = \<lambda>_. False, wr_open = \<lambda>_ _. True,
      wr_fails = \<lambda>_. False, clock = \<lambda>k. (1, of_nat k), fdtab = [], written = [], tok = None,
      devs = [], fds = map Some fs\<rparr>"

lemma demo_state_simps [simp]:
  "ticks (demo_state files fs) = 0" "file_at (demo_state files fs) k = files"
  "fds (demo_state files fs) = map Some fs" "fdtab (demo_state files fs) = []"
  "tok (demo_state files fs) = None" "devs (demo_state files fs) = []"
  "clock (demo_state files fs) k = (1, of_nat k)" "reads_ok (demo_state files fs)"
  by (simp_all add: demo_state_def reads_ok_def)

lemma show_nat_42: "show_nat 42 = ''42''"
  by (simp add: show_nat.simps char_of_def bit_0)

section \<open>Vector operations\<close>

type_synonym 's read_op = "PWR_AttrName \<Rightarrow> u64 \<Rightarrow> u32 \<Rightarrow> u64 \<Rightarrow> 's \<Rightarrow> ((int \<times> u64 \<times> u64) \<times> 's) res"
type_synonym 's write_op = "PWR_AttrName \<Rightarrow> u64 \<Rightarrow> u32 \<Rightarrow> 's \<Rightarrow> ((int \<times> u64) \<times> 's) res"

text \<open>
  \<^verbatim>\<open>for( i = 0; i < arraysize; i++ ) status[i] = read( fd, attrs[i], values+i, 8, timestamp+i )\<close>,
  from index \<open>i\<close> with \<open>n\<close> iterations left.
\<close>

fun readv_loop ::
    "'s read_op \<Rightarrow> nat \<Rightarrow> nat \<Rightarrow> PWR_AttrName list \<Rightarrow> u64 list \<Rightarrow> u64 list \<Rightarrow> int list \<Rightarrow> 's \<Rightarrow>
     ((u64 list \<times> u64 list \<times> int list) \<times> 's) res" where
  "readv_loop rd 0 i attrs vs ts sts s = Inr ((vs, ts, sts), s)"
| "readv_loop rd (Suc n) i attrs vs ts sts s =
     rbind (aread attrs i) (\<lambda>a.
     rbind (aread vs i) (\<lambda>v.
     rbind (aread ts i) (\<lambda>t.
     rbind (rd a v 8 t s) (\<lambda>((r, v, t), s).
     rbind (awrite vs i v) (\<lambda>vs.
     rbind (awrite ts i t) (\<lambda>ts.
     rbind (awrite sts i r) (\<lambda>sts.
     readv_loop rd n (Suc i) attrs vs ts sts s)))))))"

definition readv_of ::
    "'s read_op \<Rightarrow> u32 \<Rightarrow> PWR_AttrName list \<Rightarrow> u64 list \<Rightarrow> u64 list \<Rightarrow> int list \<Rightarrow> 's \<Rightarrow>
     ((int \<times> u64 list \<times> u64 list \<times> int list) \<times> 's) res" where
  "readv_of rd n attrs vs ts sts s =
     rbind (readv_loop rd (unat n) 0 attrs vs ts sts s) (\<lambda>(x, s). Inr ((0, x), s))"

fun writev_loop ::
    "'s write_op \<Rightarrow> nat \<Rightarrow> nat \<Rightarrow> PWR_AttrName list \<Rightarrow> u64 list \<Rightarrow> int list \<Rightarrow> 's \<Rightarrow>
     ((u64 list \<times> int list) \<times> 's) res" where
  "writev_loop wr 0 i attrs vs sts s = Inr ((vs, sts), s)"
| "writev_loop wr (Suc n) i attrs vs sts s =
     rbind (aread attrs i) (\<lambda>a.
     rbind (aread vs i) (\<lambda>v.
     rbind (wr a v 8 s) (\<lambda>((r, v), s).
     rbind (awrite vs i v) (\<lambda>vs.
     rbind (awrite sts i r) (\<lambda>sts.
     writev_loop wr n (Suc i) attrs vs sts s)))))"

definition writev_of ::
    "'s write_op \<Rightarrow> u32 \<Rightarrow> PWR_AttrName list \<Rightarrow> u64 list \<Rightarrow> int list \<Rightarrow> 's \<Rightarrow>
     ((int \<times> u64 list \<times> int list) \<times> 's) res" where
  "writev_of wr n attrs vs sts s =
     rbind (writev_loop wr (unat n) 0 attrs vs sts s) (\<lambda>(x, s). Inr ((0, x), s))"

section \<open>The contract of a read\<close>

text \<open>
  What the layer above relies on: a read returns 0 or -1, and one that fails has written
  neither the value nor the time stamp. From the contract follows what the vector read built from
  it does: it is the sequence of the single reads, a failure of one attribute leaves
  the cells of that attribute alone and does not stop the others.
\<close>

fun read_each ::
    "'s read_op \<Rightarrow> (PWR_AttrName \<times> u64 \<times> u64) list \<Rightarrow> 's \<Rightarrow> ((int \<times> u64 \<times> u64) list \<times> 's) res" where
  "read_each rd [] s = Inr ([], s)"
| "read_each rd ((a, v, t) # xs) s =
     rbind (rd a v 8 t s) (\<lambda>(y, s). rbind (read_each rd xs s) (\<lambda>(ys, s). Inr (y # ys, s)))"

lemma read_each_length: "read_each rd xs s = Inr (ys, s') \<Longrightarrow> length ys = length xs"
  by (induction rd xs s arbitrary: ys s' rule: read_each.induct) (auto simp: rbind_eq_Inr)

lemma take_Suc_update: "i < length xs \<Longrightarrow> take (Suc i) (xs[i := v]) = take i xs @ [v]"
  by (simp add: take_Suc_conv_app_nth)

lemma drop_Suc_update: "drop (Suc i) (xs[i := v]) = drop (Suc i) xs"
  by simp

lemma readv_loop_spec:
  assumes "length attrs = i + n" "length vs = i + n" "length ts = i + n" "length sts = i + n"
  shows "readv_loop rd n i attrs vs ts sts s =
    rbind (read_each rd (zip (drop i attrs) (zip (drop i vs) (drop i ts))) s) (\<lambda>(ys, s).
    Inr ((take i vs @ map (fst \<circ> snd) ys, take i ts @ map (snd \<circ> snd) ys, take i sts @ map fst ys), s))"
  using assms
proof (induction n arbitrary: i vs ts sts s)
  case 0
  then show ?case by simp
next
  case (Suc n)
  then have i: "i < length attrs" "i < length vs" "i < length ts" "i < length sts" by simp_all
  show ?case
  proof (cases "rd (attrs ! i) (vs ! i) 8 (ts ! i) s")
    case (Inl e)
    then show ?thesis using i by (simp add: Cons_nth_drop_Suc [symmetric])
  next
    case (Inr y)
    obtain r v t s' where y: "y = ((r, v, t), s')" by (metis prod.collapse)
    have IH: "readv_loop rd n (Suc i) attrs (vs[i := v]) (ts[i := t]) (sts[i := r]) s' =
      rbind (read_each rd (zip (drop (Suc i) attrs) (zip (drop (Suc i) vs) (drop (Suc i) ts))) s')
       (\<lambda>(ys, s). Inr ((take i vs @ v # map (fst \<circ> snd) ys, take i ts @ t # map (snd \<circ> snd) ys,
                        take i sts @ r # map fst ys), s))"
      using Suc.IH [of "Suc i" "vs[i := v]" "ts[i := t]" "sts[i := r]" s'] Suc.prems i
      by (simp add: take_Suc_update comp_def)
    have Z: "zip (drop i attrs) (zip (drop i vs) (drop i ts)) =
      (attrs ! i, vs ! i, ts ! i) # zip (drop (Suc i) attrs) (zip (drop (Suc i) vs) (drop (Suc i) ts))"
      using i by (simp add: Cons_nth_drop_Suc [symmetric])
    have R: "readv_loop rd (Suc n) i attrs vs ts sts s =
      readv_loop rd n (Suc i) attrs (vs[i := v]) (ts[i := t]) (sts[i := r]) s'"
      using i Inr y by simp
    show ?thesis
      unfolding R IH Z using Inr y by (simp add: rbind_assoc split_def comp_def)
  qed
qed

lemma readv_of_spec:
  assumes "length attrs = unat n" "length vs = unat n" "length ts = unat n" "length sts = unat n"
  shows "readv_of rd n attrs vs ts sts s =
    rbind (read_each rd (zip attrs (zip vs ts)) s) (\<lambda>(ys, s).
    Inr ((0, map (fst \<circ> snd) ys, map (snd \<circ> snd) ys, map fst ys), s))"
  using assms by (simp add: readv_of_def readv_loop_spec rbind_assoc split_def)

locale plugin_read =
  fixes rd :: "'s read_op"
  assumes ret_code: "rd a v len t s = Inr ((r, v', t'), s') \<Longrightarrow> r = 0 \<or> r = -1"
    and fail_keeps: "rd a v len t s = Inr ((-1, v', t'), s') \<Longrightarrow> v' = v \<and> t' = t"
begin

lemma read_each_entry:
  "read_each rd xs s = Inr (ys, s') \<Longrightarrow> i < length xs \<Longrightarrow>
   fst (ys ! i) = 0 \<or> ys ! i = (-1, snd (xs ! i))"
proof (induction xs arbitrary: s ys i)
  case (Cons x xs)
  obtain a v t where x: "x = (a, v, t)" by (cases x)
  from Cons.prems(1) x obtain r v' t' s1 zs where
    h: "rd a v 8 t s = Inr ((r, v', t'), s1)" "read_each rd xs s1 = Inr (zs, s')"
       "ys = (r, v', t') # zs" by (auto simp: rbind_eq_Inr)
  show ?case
  proof (cases i)
    case 0
    with h(1,3) x ret_code [OF h(1)] fail_keeps show ?thesis by fastforce
  next
    case (Suc j)
    with Cons.IH [OF h(2), of j] Cons.prems(2) h(3) show ?thesis by simp
  qed
qed simp

theorem readv_entries:
  assumes "length attrs = unat n" "length vs = unat n" "length ts = unat n" "length sts = unat n"
    and "readv_of rd n attrs vs ts sts s = Inr ((r, vs', ts', sts'), s')"
  shows "r = 0 \<and> length vs' = unat n \<and> length ts' = unat n \<and> length sts' = unat n \<and>
    (\<forall>i < unat n. sts' ! i = 0 \<or> (sts' ! i = -1 \<and> vs' ! i = vs ! i \<and> ts' ! i = ts ! i))"
proof -
  from assms obtain ys where ys: "read_each rd (zip attrs (zip vs ts)) s = Inr (ys, s')"
    and r: "r = 0" "vs' = map (fst \<circ> snd) ys" "ts' = map (snd \<circ> snd) ys" "sts' = map fst ys"
    by (auto simp: readv_of_spec rbind_eq_Inr)
  have l: "length ys = unat n" using read_each_length [OF ys] assms(1-3) by simp
  have "fst (ys ! i) = 0 \<or> ys ! i = (-1, vs ! i, ts ! i)" if "i < unat n" for i
    using read_each_entry [OF ys, of i] that assms(1-3) by simp
  with r l show ?thesis by fastforce
qed

end

end
