(* ===== verification/CounterDev.thy ===== *)
theory CounterDev
  imports PluginBase
begin

text \<open>
  The three plugins that read counters from files: the Cray XTPM counters
  (\<^verbatim>\<open>pwr_xtpmdev.c\<close>), the CPU files of sysfs (\<^verbatim>\<open>pwr_cpudev.c\<close>) and the
  performance counters (\<^verbatim>\<open>pwr_pmcdev.c\<close>). A counter is read one character at a time into
  a buffer of 20 until a space is seen.
\<close>

section \<open>The reading loop\<close>

text \<open>
  \<^verbatim>\<open>while( read( fd, strval+offset, 1 ) != EOF )\<close>: only an error ends it, not the end
  of the file, where \<^verbatim>\<open>read\<close> returns 0 and the cell keeps what it held.
\<close>

function read_token :: "int \<Rightarrow> string \<Rightarrow> nat \<Rightarrow> 'b os_scheme \<Rightarrow> (string option \<times> 'b os_scheme) res" where
  "read_token fd buf off s =
     (case sys_read1 fd s of (n, c, s) \<Rightarrow>
      if n = -1 then Inr (None, s)
      else rbind (case c of None \<Rightarrow> Inr buf | Some x \<Rightarrow> awrite buf off x) (\<lambda>buf.
           rbind (aread buf off) (\<lambda>x.
           if x = CHR '' '' then Inr (Some buf, s) else read_token fd buf (Suc off) s)))"
  by auto

termination
  by (relation "measure (\<lambda>(fd, buf, off, s). length buf - off)")
    (auto simp: aread_eq_Inr awrite_eq_Inr split: option.splits)

declare read_token.simps [simp del]

definition strval0 :: string where
  "strval0 = replicate 20 (CHR 0x00)"

section \<open>XTPM\<close>

definition xtpm_path :: "string \<Rightarrow> string" where
  "xtpm_path name = ''/sys/cray/pm_counters/'' @ name"

definition xtpmdev_read :: "string \<Rightarrow> u64 \<Rightarrow> 'b os_scheme \<Rightarrow> ((int \<times> u64) \<times> 'b os_scheme) res" where
  "xtpmdev_read name v s =
     (case sys_open_rd (xtpm_path name) s of (fd, s) \<Rightarrow>
      if fd < 0 then Inr ((-1, v), s)
      else rbind (read_token fd strval0 0 s) (\<lambda>(found, s).
           case found of
             Some buf \<Rightarrow> Inr ((0, atof (cstr buf)), sys_close fd s)
           | None \<Rightarrow> Inr ((-1, v), sys_close fd s)))"

text \<open>The number is printed into the 20 characters of \<^verbatim>\<open>strval\<close>.\<close>

definition sprintf_lf20 :: "u64 \<Rightarrow> string res" where
  "sprintf_lf20 v = (let str = print_lf v in if length str < 20 then Inr str else Inl OutOfBounds)"

definition xtpmdev_write :: "string \<Rightarrow> u64 \<Rightarrow> 'b os_scheme \<Rightarrow> (int \<times> 'b os_scheme) res" where
  "xtpmdev_write name v s =
     (case sys_open_wr (xtpm_path name) s of (fd, s) \<Rightarrow>
      if fd < 0 then Inr (-1, s)
      else rbind (sprintf_lf20 v) (\<lambda>str.
           case sys_write fd str s of (n, s) \<Rightarrow>
           if n < 0 then Inr (-1, sys_close fd s) else Inr (0, sys_close fd s)))"

record xtpmfd =
  xf_dev :: addr
  xf_generation :: u64

type_synonym xtpm_state = "(int, xtpmfd) pstate"

definition pwr_xtpmdev_init :: "xtpm_state \<Rightarrow> addr \<times> xtpm_state" where
  "pwr_xtpmdev_init s = dev_new 0 s"

definition pwr_xtpmdev_final :: "addr \<Rightarrow> xtpm_state \<Rightarrow> (int \<times> xtpm_state) res" where
  "pwr_xtpmdev_final d s = rbind (dev_final d s) (\<lambda>s. Inr (0, s))"

definition pwr_xtpmdev_open :: "addr \<Rightarrow> xtpm_state \<Rightarrow> (addr option \<times> xtpm_state) res" where
  "pwr_xtpmdev_open d s =
     (case pfd_new \<lparr>xf_dev = d, xf_generation = 0\<rparr> s of (p, s) \<Rightarrow>
      rbind (xtpmdev_read ''generation'' 0 s) (\<lambda>((r, g), s).
      rbind (pfd_set (Some p) \<lparr>xf_dev = d, xf_generation = g\<rparr> s) (\<lambda>s.
      if r < 0 then Inr (None, s) else Inr (Some p, s))))"

definition pwr_xtpmdev_close :: "addr option \<Rightarrow> xtpm_state \<Rightarrow> (int \<times> xtpm_state) res" where
  "pwr_xtpmdev_close p s = pfd_close p s"

definition xtpm_generation :: "addr option \<Rightarrow> u64 \<Rightarrow> xtpm_state \<Rightarrow> xtpm_state res" where
  "xtpm_generation p g s =
     rbind (pfd_get p s) (\<lambda>f.
     if \<not> feq (xf_generation f) g then pfd_set p (f\<lparr>xf_generation := g\<rparr>) s else Inr s)"

definition pwr_xtpmdev_read :: "addr option \<Rightarrow> xtpm_state read_op" where
  "pwr_xtpmdev_read p attr v len t s =
     (if len \<noteq> 8 then Inr ((-1, v, t), s)
      else
        rbind (case attr of
                 PWR_ATTR_ENERGY \<Rightarrow> xtpmdev_read ''energy'' v s
               | PWR_ATTR_POWER \<Rightarrow> xtpmdev_read ''power'' v s
               | PWR_ATTR_POWER_LIMIT_MAX \<Rightarrow> xtpmdev_read ''power_cap'' v s
               | _ \<Rightarrow> Inr ((0, v), s)) (\<lambda>((r, v), s).
        if r < 0 then Inr ((-1, v, t), s)
        else
          case gettimeofday s of (tv, s) \<Rightarrow>
          rbind (xtpmdev_read ''generation'' 0 s) (\<lambda>((r, g), s).
          if r < 0 then Inr ((0, v, tv_nsec tv), s)
          else rbind (xtpm_generation p g s) (\<lambda>s. Inr ((0, v, tv_nsec tv), s)))))"

definition pwr_xtpmdev_write :: "addr option \<Rightarrow> xtpm_state write_op" where
  "pwr_xtpmdev_write p attr v len s =
     (if len \<noteq> 8 then Inr ((-1, v), s)
      else
        rbind (case attr of
                 PWR_ATTR_POWER_LIMIT_MAX \<Rightarrow> xtpmdev_write ''power_cap'' v s
               | _ \<Rightarrow> Inr (0, s)) (\<lambda>(r, s).
        Inr ((if r < 0 then -1 else 0, v), s)))"

definition pwr_xtpmdev_readv ::
    "addr option \<Rightarrow> u32 \<Rightarrow> PWR_AttrName list \<Rightarrow> u64 list \<Rightarrow> u64 list \<Rightarrow> int list \<Rightarrow> xtpm_state \<Rightarrow>
     ((int \<times> u64 list \<times> u64 list \<times> int list) \<times> xtpm_state) res" where
  "pwr_xtpmdev_readv p = readv_of (pwr_xtpmdev_read p)"

definition pwr_xtpmdev_writev ::
    "addr option \<Rightarrow> u32 \<Rightarrow> PWR_AttrName list \<Rightarrow> u64 list \<Rightarrow> int list \<Rightarrow> xtpm_state \<Rightarrow>
     ((int \<times> u64 list \<times> int list) \<times> xtpm_state) res" where
  "pwr_xtpmdev_writev p = writev_of (pwr_xtpmdev_write p)"

definition pwr_xtpmdev_time :: "addr option \<Rightarrow> u64 \<Rightarrow> u64 \<Rightarrow> xtpm_state \<Rightarrow> ((int \<times> u64) \<times> xtpm_state) res" where
  "pwr_xtpmdev_time p junk_v t s =
     rbind (pwr_xtpmdev_read p PWR_ATTR_ENERGY junk_v 8 t s) (\<lambda>((r, _, t), s). Inr ((r, t), s))"

definition pwr_xtpmdev_clear :: "addr option \<Rightarrow> int" where
  "pwr_xtpmdev_clear p = 0"

section \<open>CPU files\<close>

definition cpu_path :: "int \<Rightarrow> string \<Rightarrow> string" where
  "cpu_path cpu name = ''/sys/devices/system/cpu/cpu'' @ show_int cpu @ ''/'' @ name"

text \<open>Here the file is not closed after a value has been read.\<close>

definition cpudev_read :: "int \<Rightarrow> string \<Rightarrow> u64 \<Rightarrow> 'b os_scheme \<Rightarrow> ((int \<times> u64) \<times> 'b os_scheme) res" where
  "cpudev_read cpu name v s =
     (case sys_open_rd (cpu_path cpu name) s of (fd, s) \<Rightarrow>
      if fd < 0 then Inr ((-1, v), s)
      else rbind (read_token fd strval0 0 s) (\<lambda>(found, s).
           case found of
             Some buf \<Rightarrow> Inr ((0, atof (cstr buf)), s)
           | None \<Rightarrow> Inr ((-1, v), s)))"

definition cpudev_write :: "int \<Rightarrow> string \<Rightarrow> u64 \<Rightarrow> 'b os_scheme \<Rightarrow> (int \<times> 'b os_scheme) res" where
  "cpudev_write cpu name v s =
     (case sys_open_wr (cpu_path cpu name) s of (fd, s) \<Rightarrow>
      if fd < 0 then Inr (-1, s)
      else rbind (sprintf_lf20 v) (\<lambda>str.
           case sys_write fd str s of (n, s) \<Rightarrow>
           if n < 0 then Inr (-1, sys_close fd s) else Inr (0, sys_close fd s)))"

text \<open>
  The list of frequencies: the same loop, a value taken at each space. \<^verbatim>\<open>bzero( val, strlen( val ) )\<close>
  clears the buffer up to its first NUL.
\<close>

definition bzero_str :: "string \<Rightarrow> string" where
  "bzero_str buf = (let n = length (cstr buf) in replicate n (CHR 0x00) @ drop n buf)"

lemma length_bzero_str [simp]: "length (bzero_str buf) = length buf"
  unfolding bzero_str_def Let_def cstr_def
  by (simp add: length_takeWhile_le)

function read_freqs ::
    "int \<Rightarrow> string \<Rightarrow> nat \<Rightarrow> int list \<Rightarrow> nat \<Rightarrow> 'b os_scheme \<Rightarrow> ((int list \<times> nat) \<times> 'b os_scheme) res" where
  "read_freqs fd val off freq count s =
     (case sys_read1 fd s of (n, c, s) \<Rightarrow>
      if n = -1 then Inr ((freq, count), s)
      else rbind (case c of None \<Rightarrow> Inr val | Some x \<Rightarrow> awrite val off x) (\<lambda>val.
           rbind (aread val off) (\<lambda>x.
           if x = CHR '' ''
           then rbind (atoi (cstr val)) (\<lambda>k.
                rbind (awrite freq count k) (\<lambda>freq.
                read_freqs fd (bzero_str val) 0 freq (Suc count) s))
           else read_freqs fd val (Suc off) freq count s)))"
  by auto

termination
  by (relation "measures [\<lambda>(fd, val, off, freq, count, s). length freq - count,
                          \<lambda>(fd, val, off, freq, count, s). length val - off]")
    (auto simp: aread_eq_Inr awrite_eq_Inr split: option.splits)

declare read_freqs.simps [simp del]

record cpudev =
  cd_num_cpus :: int
  cd_num_freq :: nat
  cd_avail_freqlist :: "int list"

record cpufd =
  cf_dev :: addr
  cf_cpu :: int

type_synonym cpu_state = "(cpudev, cpufd) pstate"

definition cpudev_avail_freq :: "int \<Rightarrow> int list \<Rightarrow> nat \<Rightarrow> 'b os_scheme \<Rightarrow> ((int list \<times> nat) \<times> 'b os_scheme) res" where
  "cpudev_avail_freq cpu freq count s =
     (case sys_open_rd (cpu_path cpu ''cpufreq/scaling_available_frequencies'') s of (fd, s) \<Rightarrow>
      rbind (read_freqs fd strval0 0 freq count s) (\<lambda>(r, s). Inr (r, sys_close fd s)))"

definition pwr_cpudev_init :: "int \<Rightarrow> cpu_state \<Rightarrow> (addr \<times> cpu_state) res" where
  "pwr_cpudev_init ncpu s =
     rbind (cpudev_avail_freq 0 (replicate 100 0) 0 s) (\<lambda>((fl, n), s).
     Inr (dev_new \<lparr>cd_num_cpus = ncpu, cd_num_freq = n, cd_avail_freqlist = fl\<rparr> s))"

definition pwr_cpudev_final :: "addr \<Rightarrow> cpu_state \<Rightarrow> (int \<times> cpu_state) res" where
  "pwr_cpudev_final d s = rbind (dev_final d s) (\<lambda>s. Inr (0, s))"

text \<open>The open string holds the number of the cpu; \<^verbatim>\<open>None\<close> is a null pointer.\<close>

definition open_token :: "string option \<Rightarrow> 'b os_scheme \<Rightarrow> string option \<times> 'b os_scheme" where
  "open_token openstr s =
     (case openstr of None \<Rightarrow> (None, s) | Some str \<Rightarrow> strtok_start {CHR '':''} str s)"

definition pwr_cpudev_open :: "addr \<Rightarrow> string option \<Rightarrow> cpu_state \<Rightarrow> (addr option \<times> cpu_state) res" where
  "pwr_cpudev_open d openstr s =
     (case pfd_new \<lparr>cf_dev = d, cf_cpu = 0\<rparr> s of (p, s) \<Rightarrow>
      case open_token openstr s of (tk, s) \<Rightarrow>
      (case tk of
         None \<Rightarrow> Inr (None, s)
       | Some w \<Rightarrow>
           rbind (atoi w) (\<lambda>cpu.
           rbind (pfd_set (Some p) \<lparr>cf_dev = d, cf_cpu = cpu\<rparr> s) (\<lambda>s. Inr (Some p, s)))))"

definition pwr_cpudev_close :: "addr option \<Rightarrow> cpu_state \<Rightarrow> (int \<times> cpu_state) res" where
  "pwr_cpudev_close p s = pfd_close p s"

definition pwr_cpudev_read :: "addr option \<Rightarrow> cpu_state read_op" where
  "pwr_cpudev_read p attr v len t s =
     (if len \<noteq> 8 then Inr ((-1, v, t), s)
      else
        rbind (case attr of
                 PWR_ATTR_PSTATE \<Rightarrow> Inr ((0, 0), s)
               | PWR_ATTR_CSTATE \<Rightarrow> Inr ((0, 0), s)
               | PWR_ATTR_SSTATE \<Rightarrow> rbind (pfd_get p s) (\<lambda>f. cpudev_read (cf_cpu f) ''online'' v s)
               | PWR_ATTR_FREQ \<Rightarrow> rbind (pfd_get p s) (\<lambda>f. cpudev_read (cf_cpu f) ''cpufreq'' v s)
               | PWR_ATTR_TEMP \<Rightarrow> Inr ((0, fzero), s)
               | _ \<Rightarrow> Inr ((0, v), s)) (\<lambda>((r, v), s).
        if r < 0 then Inr ((-1, v, t), s)
        else case gettimeofday s of (tv, s) \<Rightarrow> Inr ((0, v, tv_nsec tv), s)))"

definition pwr_cpudev_write :: "addr option \<Rightarrow> cpu_state write_op" where
  "pwr_cpudev_write p attr v len s =
     (if len \<noteq> 8 then Inr ((-1, v), s)
      else
        rbind (case attr of
                 PWR_ATTR_PSTATE \<Rightarrow> Inr ((0, 0), s)
               | PWR_ATTR_CSTATE \<Rightarrow> Inr ((0, 0), s)
               | PWR_ATTR_SSTATE \<Rightarrow>
                   rbind (pfd_get p s) (\<lambda>f.
                   rbind (cpudev_write (cf_cpu f) ''online'' v s) (\<lambda>(r, s). Inr ((r, v), s)))
               | PWR_ATTR_FREQ \<Rightarrow>
                   rbind (pfd_get p s) (\<lambda>f.
                   rbind (cpudev_write (cf_cpu f) ''cpufreq'' v s) (\<lambda>(r, s). Inr ((r, v), s)))
               | PWR_ATTR_TEMP \<Rightarrow> Inr ((0, fzero), s)
               | _ \<Rightarrow> Inr ((0, v), s)) (\<lambda>((r, v), s).
        Inr ((if r < 0 then -1 else 0, v), s)))"

definition pwr_cpudev_readv ::
    "addr option \<Rightarrow> u32 \<Rightarrow> PWR_AttrName list \<Rightarrow> u64 list \<Rightarrow> u64 list \<Rightarrow> int list \<Rightarrow> cpu_state \<Rightarrow>
     ((int \<times> u64 list \<times> u64 list \<times> int list) \<times> cpu_state) res" where
  "pwr_cpudev_readv p = readv_of (pwr_cpudev_read p)"

definition pwr_cpudev_writev ::
    "addr option \<Rightarrow> u32 \<Rightarrow> PWR_AttrName list \<Rightarrow> u64 list \<Rightarrow> int list \<Rightarrow> cpu_state \<Rightarrow>
     ((int \<times> u64 list \<times> int list) \<times> cpu_state) res" where
  "pwr_cpudev_writev p = writev_of (pwr_cpudev_write p)"

definition pwr_cpudev_time :: "addr option \<Rightarrow> u64 \<Rightarrow> u64 \<Rightarrow> cpu_state \<Rightarrow> ((int \<times> u64) \<times> cpu_state) res" where
  "pwr_cpudev_time p junk_v t s =
     rbind (pwr_cpudev_read p PWR_ATTR_FREQ junk_v 8 t s) (\<lambda>((r, _, t), s). Inr ((r, t), s))"

definition pwr_cpudev_clear :: "addr option \<Rightarrow> int" where
  "pwr_cpudev_clear p = 0"

section \<open>Performance counters\<close>

definition pmc_path :: "u32 \<Rightarrow> nat \<Rightarrow> string" where
  "pmc_path cpu counter =
     ''/sys/devices/system/cpu/cpu'' @ show_nat (unat cpu) @ ''/pmc'' @ show_nat counter"

definition PMC_COUNTER1 :: nat where "PMC_COUNTER1 = 1"
definition PMC_COUNTER2 :: nat where "PMC_COUNTER2 = 2"
definition PMC_COUNTER3 :: nat where "PMC_COUNTER3 = 3"

definition pmcdev_read :: "u32 \<Rightarrow> nat \<Rightarrow> u64 \<Rightarrow> 'b os_scheme \<Rightarrow> ((int \<times> u64) \<times> 'b os_scheme) res" where
  "pmcdev_read cpu counter v s =
     (case sys_open_rd (pmc_path cpu counter) s of (fd, s) \<Rightarrow>
      if fd < 0 then Inr ((-1, v), s)
      else rbind (read_token fd strval0 0 s) (\<lambda>(found, s).
           case found of
             Some buf \<Rightarrow> Inr ((0, atof (cstr buf)), sys_close fd s)
           | None \<Rightarrow> Inr ((-1, v), sys_close fd s)))"

definition pmcdev_write :: "u32 \<Rightarrow> nat \<Rightarrow> u64 \<Rightarrow> 'b os_scheme \<Rightarrow> (int \<times> 'b os_scheme) res" where
  "pmcdev_write cpu counter v s =
     (case sys_open_wr (pmc_path cpu counter) s of (fd, s) \<Rightarrow>
      if fd < 0 then Inr (-1, s)
      else rbind (sprintf_lf20 v) (\<lambda>str.
           case sys_write fd str s of (n, s) \<Rightarrow>
           if n < 0 then Inr (-1, sys_close fd s) else Inr (0, sys_close fd s)))"

record pmcfd =
  mf_dev :: addr
  mf_cpu :: u32

type_synonym pmc_state = "(int, pmcfd) pstate"

definition pwr_pmcdev_init :: "pmc_state \<Rightarrow> addr \<times> pmc_state" where
  "pwr_pmcdev_init s = dev_new 0 s"

definition pwr_pmcdev_final :: "addr \<Rightarrow> pmc_state \<Rightarrow> (int \<times> pmc_state) res" where
  "pwr_pmcdev_final d s = rbind (dev_final d s) (\<lambda>s. Inr (0, s))"

definition pwr_pmcdev_open :: "addr \<Rightarrow> string option \<Rightarrow> pmc_state \<Rightarrow> (addr option \<times> pmc_state) res" where
  "pwr_pmcdev_open d openstr s =
     (case pfd_new \<lparr>mf_dev = d, mf_cpu = 0\<rparr> s of (p, s) \<Rightarrow>
      case open_token openstr s of (tk, s) \<Rightarrow>
      (case tk of
         None \<Rightarrow> Inr (None, s)
       | Some w \<Rightarrow>
           rbind (atoi w) (\<lambda>cpu.
           rbind (pfd_set (Some p) \<lparr>mf_dev = d, mf_cpu = word_of_int cpu\<rparr> s) (\<lambda>s. Inr (Some p, s)))))"

definition pwr_pmcdev_close :: "addr option \<Rightarrow> pmc_state \<Rightarrow> (int \<times> pmc_state) res" where
  "pwr_pmcdev_close p s = pfd_close p s"

definition pwr_pmcdev_read :: "addr option \<Rightarrow> pmc_state read_op" where
  "pwr_pmcdev_read p attr v len t s =
     (if len \<noteq> 8 then Inr ((-1, v, t), s)
      else
        rbind (case attr of
                 PWR_ATTR_ENERGY \<Rightarrow> rbind (pfd_get p s) (\<lambda>f. pmcdev_read (mf_cpu f) PMC_COUNTER1 v s)
               | PWR_ATTR_POWER \<Rightarrow> rbind (pfd_get p s) (\<lambda>f. pmcdev_read (mf_cpu f) PMC_COUNTER2 v s)
               | PWR_ATTR_POWER_LIMIT_MAX \<Rightarrow>
                   rbind (pfd_get p s) (\<lambda>f. pmcdev_read (mf_cpu f) PMC_COUNTER3 v s)
               | _ \<Rightarrow> Inr ((0, v), s)) (\<lambda>((r, v), s).
        if r < 0 then Inr ((-1, v, t), s)
        else case gettimeofday s of (tv, s) \<Rightarrow> Inr ((0, v, tv_nsec tv), s)))"

definition pwr_pmcdev_write :: "addr option \<Rightarrow> pmc_state write_op" where
  "pwr_pmcdev_write p attr v len s =
     (if len \<noteq> 8 then Inr ((-1, v), s)
      else
        rbind (case attr of
                 PWR_ATTR_POWER_LIMIT_MAX \<Rightarrow>
                   rbind (pfd_get p s) (\<lambda>f. pmcdev_write (mf_cpu f) PMC_COUNTER3 v s)
               | _ \<Rightarrow> Inr (0, s)) (\<lambda>(r, s).
        Inr ((if r < 0 then -1 else 0, v), s)))"

definition pwr_pmcdev_readv ::
    "addr option \<Rightarrow> u32 \<Rightarrow> PWR_AttrName list \<Rightarrow> u64 list \<Rightarrow> u64 list \<Rightarrow> int list \<Rightarrow> pmc_state \<Rightarrow>
     ((int \<times> u64 list \<times> u64 list \<times> int list) \<times> pmc_state) res" where
  "pwr_pmcdev_readv p = readv_of (pwr_pmcdev_read p)"

definition pwr_pmcdev_writev ::
    "addr option \<Rightarrow> u32 \<Rightarrow> PWR_AttrName list \<Rightarrow> u64 list \<Rightarrow> int list \<Rightarrow> pmc_state \<Rightarrow>
     ((int \<times> u64 list \<times> int list) \<times> pmc_state) res" where
  "pwr_pmcdev_writev p = writev_of (pwr_pmcdev_write p)"

definition pwr_pmcdev_time :: "addr option \<Rightarrow> u64 \<Rightarrow> u64 \<Rightarrow> pmc_state \<Rightarrow> ((int \<times> u64) \<times> pmc_state) res" where
  "pwr_pmcdev_time p junk_v t s =
     rbind (pwr_pmcdev_read p PWR_ATTR_ENERGY junk_v 8 t s) (\<lambda>((r, _, t), s). Inr ((r, t), s))"

definition pwr_pmcdev_clear :: "addr option \<Rightarrow> int" where
  "pwr_pmcdev_clear p = 0"

section \<open>Lemmas about the reading loop\<close>

lemma sys_read1_char:
  assumes "fdtab s ! fd = Some (path, x # xs)" "fd < length (fdtab s)" "reads_ok s"
  shows "sys_read1 (int fd) s =
    (1, Some x, s\<lparr>ticks := Suc (ticks s), fdtab := (fdtab s)[fd := Some (path, xs)]\<rparr>)"
  using assms by (simp add: sys_read1_def fd_get_def heap_get_def reads_ok_def)

lemma sys_read1_eof:
  assumes "fdtab s ! fd = Some (path, [])" "fd < length (fdtab s)" "reads_ok s"
  shows "sys_read1 (int fd) s = (0, None, s\<lparr>ticks := Suc (ticks s)\<rparr>)"
  using assms by (simp add: sys_read1_def fd_get_def heap_get_def reads_ok_def)

lemma read_token_found:
  assumes "fdtab s ! fd = Some (path, w @ CHR '' '' # rest)" "fd < length (fdtab s)" "reads_ok s"
    and "CHR '' '' \<notin> set w" "off + length w < length buf"
  shows "read_token (int fd) buf off s =
    Inr (Some (take off buf @ w @ CHR '' '' # drop (Suc (off + length w)) buf),
         s\<lparr>ticks := ticks s + Suc (length w), fdtab := (fdtab s)[fd := Some (path, rest)]\<rparr>)"
  using assms
proof (induction w arbitrary: s buf off)
  case Nil
  then have "read_token (int fd) buf off s = Inr (Some (buf[off := CHR '' '']),
      s\<lparr>ticks := Suc (ticks s), fdtab := (fdtab s)[fd := Some (path, rest)]\<rparr>)"
    by (subst read_token.simps) (simp add: sys_read1_char)
  with Nil show ?case by (simp add: upd_conv_take_nth_drop)
next
  case (Cons x w)
  let ?s = "s\<lparr>ticks := Suc (ticks s), fdtab := (fdtab s)[fd := Some (path, w @ CHR '' '' # rest)]\<rparr>"
  have "read_token (int fd) buf off s = read_token (int fd) (buf[off := x]) (Suc off) ?s"
    using Cons.prems by (subst read_token.simps) (auto simp: sys_read1_char)
  also have "\<dots> = Inr (Some (take (Suc off) (buf[off := x]) @ w @ CHR '' '' #
        drop (Suc (Suc off + length w)) (buf[off := x])),
      ?s\<lparr>ticks := ticks ?s + Suc (length w), fdtab := (fdtab ?s)[fd := Some (path, rest)]\<rparr>)"
    using Cons.prems by (intro Cons.IH) (auto simp: reads_ok_def)
  finally show ?case
    using Cons.prems by (simp add: take_Suc_update)
qed

text \<open>Without a space in the characters that fit, the loop leaves the buffer.\<close>

lemma read_token_overrun:
  assumes "fdtab s ! fd = Some (path, c)" "fd < length (fdtab s)" "reads_ok s"
    and "CHR '' '' \<notin> set (take (length buf - off) c)"
    and "CHR '' '' \<notin> set (drop off buf)"
  shows "read_token (int fd) buf off s = Inl OutOfBounds"
  using assms
proof (induction "length buf - off" arbitrary: s buf off c)
  case 0
  then show ?case
    by (cases c; subst read_token.simps) (simp_all add: sys_read1_char sys_read1_eof aread_def awrite_def)
next
  case (Suc n)
  then have off: "off < length buf" by simp
  then have nb: "buf ! off \<noteq> CHR '' ''" "CHR '' '' \<notin> set (drop (Suc off) buf)"
    using Suc.prems(5) by (metis Cons_nth_drop_Suc list.set_intros(1), metis Cons_nth_drop_Suc list.set_intros(2))
  show ?case
  proof (cases c)
    case Nil
    with Suc.prems off nb have "read_token (int fd) buf off s =
      read_token (int fd) buf (Suc off) (s\<lparr>ticks := Suc (ticks s)\<rparr>)"
      by (subst read_token.simps) (simp add: sys_read1_eof)
    also have "\<dots> = Inl OutOfBounds"
      using Suc.prems Suc.hyps(2) nb Nil
      by (intro Suc.hyps(1) [of _ _ _ "[]"]) (auto simp: reads_ok_def)
    finally show ?thesis .
  next
    case (Cons x xs)
    with Suc.prems(4) off have x: "x \<noteq> CHR '' ''" "CHR '' '' \<notin> set (take (length buf - Suc off) xs)"
      by (auto simp: Suc_diff_Suc [symmetric])
    let ?s = "s\<lparr>ticks := Suc (ticks s), fdtab := (fdtab s)[fd := Some (path, xs)]\<rparr>"
    from Cons Suc.prems off x have "read_token (int fd) buf off s =
      read_token (int fd) (buf[off := x]) (Suc off) ?s"
      by (subst read_token.simps) (simp add: sys_read1_char)
    also have "\<dots> = Inl OutOfBounds"
      using Suc.prems Suc.hyps(2) nb Cons x
      by (intro Suc.hyps(1) [of _ _ _ xs]) (auto simp: reads_ok_def)
    finally show ?thesis .
  qed
qed

section \<open>The value of a counter file\<close>

lemma cstr_token:
  assumes "\<forall>c \<in> set w. is_digit c"
  shows "cstr (w @ CHR '' '' # replicate k (CHR 0x00)) = w @ '' ''"
proof -
  have "\<forall>c \<in> set w. c \<noteq> CHR 0x00" using assms by (auto simp: is_digit_def)
  then show ?thesis by (cases k) (simp_all add: cstr_def takeWhile_append2)
qed

lemma read_token_number:
  assumes "file_at s (ticks s) path = Some (show_nat n @ CHR '' '' # rest)" "reads_ok s"
    and "length (show_nat n) < 20"
  obtains buf k where
    "sys_open_rd path s = (int (length (fdtab s)),
       s\<lparr>ticks := Suc (ticks s), fdtab := fdtab s @ [Some (path, show_nat n @ CHR '' '' # rest)]\<rparr>)"
    "read_token (int (length (fdtab s))) strval0 0
       (s\<lparr>ticks := Suc (ticks s), fdtab := fdtab s @ [Some (path, show_nat n @ CHR '' '' # rest)]\<rparr>) =
     Inr (Some buf, s\<lparr>ticks := k, fdtab := fdtab s @ [Some (path, rest)]\<rparr>)"
    "atof (cstr buf) = f_of_int (int n)"
proof -
  let ?fd = "length (fdtab s)" and ?w = "show_nat n"
  let ?s = "s\<lparr>ticks := Suc (ticks s), fdtab := fdtab s @ [Some (path, ?w @ CHR '' '' # rest)]\<rparr>"
  let ?buf = "?w @ CHR '' '' # replicate (19 - length ?w) (CHR 0x00)"
  have dg: "\<forall>c \<in> set ?w. is_digit c" using show_nat_digits by blast
  then have sp: "CHR '' '' \<notin> set ?w" by (auto simp: is_digit_def)
  have "drop (Suc (length ?w)) strval0 = replicate (19 - length ?w) (CHR 0x00)"
    using assms(3) by (simp add: strval0_def)
  then have "read_token (int ?fd) strval0 0 ?s =
    Inr (Some ?buf, s\<lparr>ticks := Suc (ticks s) + Suc (length ?w), fdtab := fdtab s @ [Some (path, rest)]\<rparr>)"
    using read_token_found [of ?s ?fd path ?w rest 0 strval0] assms(2,3) sp
    by (simp add: reads_ok_def strval0_def)
  moreover have "atof (cstr ?buf) = f_of_int (int n)"
    using cstr_token [OF dg] atof_show [of "'' ''" n] by (simp add: is_digit_def)
  moreover have "sys_open_rd path s = (int ?fd, ?s)" using assms(1) by (simp add: sys_open_rd_def)
  ultimately show ?thesis using that by blast
qed

lemma xtpmdev_read_number:
  assumes "file_at s (ticks s) (xtpm_path name) = Some (show_nat n @ CHR '' '' # rest)" "reads_ok s"
    and "length (show_nat n) < 20"
  obtains k where "xtpmdev_read name v s =
    Inr ((0, f_of_int (int n)), s\<lparr>ticks := k, fdtab := fdtab s @ [None]\<rparr>)"
proof -
  from assms show ?thesis
    by (rule read_token_number) (simp add: xtpmdev_read_def sys_close_def that)
qed

lemma pmcdev_read_number:
  assumes "file_at s (ticks s) (pmc_path cpu i) = Some (show_nat n @ CHR '' '' # rest)" "reads_ok s"
    and "length (show_nat n) < 20"
  obtains k where "pmcdev_read cpu i v s =
    Inr ((0, f_of_int (int n)), s\<lparr>ticks := k, fdtab := fdtab s @ [None]\<rparr>)"
proof -
  from assms show ?thesis
    by (rule read_token_number) (simp add: pmcdev_read_def sys_close_def that)
qed

lemma cpudev_read_number:
  assumes "file_at s (ticks s) (cpu_path cpu name) = Some (show_nat n @ CHR '' '' # rest)" "reads_ok s"
    and "length (show_nat n) < 20"
  obtains k where "cpudev_read cpu name v s =
    Inr ((0, f_of_int (int n)),
         s\<lparr>ticks := k, fdtab := fdtab s @ [Some (cpu_path cpu name, rest)]\<rparr>)"
proof -
  from assms show ?thesis
    by (rule read_token_number) (simp add: cpudev_read_def that)
qed

section \<open>The contract\<close>

lemma xtpmdev_read_fails: "xtpmdev_read name v s = Inr ((r, v'), s') \<Longrightarrow> r < 0 \<Longrightarrow> v' = v"
  by (auto simp: xtpmdev_read_def rbind_eq_Inr split: if_splits option.splits prod.splits)

lemma cpudev_read_fails: "cpudev_read cpu name v s = Inr ((r, v'), s') \<Longrightarrow> r < 0 \<Longrightarrow> v' = v"
  by (auto simp: cpudev_read_def rbind_eq_Inr split: if_splits option.splits prod.splits)

lemma pmcdev_read_fails: "pmcdev_read cpu i v s = Inr ((r, v'), s') \<Longrightarrow> r < 0 \<Longrightarrow> v' = v"
  by (auto simp: pmcdev_read_def rbind_eq_Inr split: if_splits option.splits prod.splits)

interpretation xtpm: plugin_read "pwr_xtpmdev_read p" for p
proof
  fix a v len t s r v' t' s'
  assume h: "pwr_xtpmdev_read p a v len t s = Inr ((r, v', t'), s')"
  then show "r = 0 \<or> r = -1"
    by (auto simp: pwr_xtpmdev_read_def rbind_eq_Inr split: if_splits prod.splits)
next
  fix a v len t s v' t' s'
  assume "pwr_xtpmdev_read p a v len t s = Inr ((-1, v', t'), s')"
  then show "v' = v \<and> t' = t"
    by (cases a) (auto simp: pwr_xtpmdev_read_def rbind_eq_Inr
        split: if_splits prod.splits dest: xtpmdev_read_fails)
qed

interpretation cpu: plugin_read "pwr_cpudev_read p" for p
proof
  fix a v len t s r v' t' s'
  assume h: "pwr_cpudev_read p a v len t s = Inr ((r, v', t'), s')"
  then show "r = 0 \<or> r = -1"
    by (auto simp: pwr_cpudev_read_def rbind_eq_Inr split: if_splits prod.splits)
next
  fix a v len t s v' t' s'
  assume "pwr_cpudev_read p a v len t s = Inr ((-1, v', t'), s')"
  then show "v' = v \<and> t' = t"
    by (cases a) (auto simp: pwr_cpudev_read_def rbind_eq_Inr
        split: if_splits prod.splits dest: cpudev_read_fails)
qed

interpretation pmc: plugin_read "pwr_pmcdev_read p" for p
proof
  fix a v len t s r v' t' s'
  assume h: "pwr_pmcdev_read p a v len t s = Inr ((r, v', t'), s')"
  then show "r = 0 \<or> r = -1"
    by (auto simp: pwr_pmcdev_read_def rbind_eq_Inr split: if_splits prod.splits)
next
  fix a v len t s v' t' s'
  assume "pwr_pmcdev_read p a v len t s = Inr ((-1, v', t'), s')"
  then show "v' = v \<and> t' = t"
    by (cases a) (auto simp: pwr_pmcdev_read_def rbind_eq_Inr
        split: if_splits prod.splits dest: pmcdev_read_fails)
qed

section \<open>Properties\<close>

lemma reads_ok_upd [simp]: "reads_ok (s\<lparr>ticks := k\<rparr>) = reads_ok s" "reads_ok (s\<lparr>fdtab := f\<rparr>) = reads_ok s"
  by (simp_all add: reads_ok_def)

lemma open_files_app [simp]:
  "open_files (s\<lparr>ticks := k, fdtab := fdtab s @ [None]\<rparr>) = open_files s"
  "open_files (s\<lparr>ticks := k, fdtab := fdtab s @ [Some x]\<rparr>) = Suc (open_files s)"
  by (simp_all add: open_files_def)

text \<open>A file that can be opened is read without end: the loop only stops at a read error.\<close>

lemma sys_read1_live:
  assumes "fd < length (fdtab s)" "fdtab s ! fd = Some (path, c)" "reads_ok s"
    and "sys_read1 (int fd) s = (n, ch, s1)"
  shows "n \<noteq> -1 \<and> fd < length (fdtab s1) \<and> (\<exists>c'. fdtab s1 ! fd = Some (path, c')) \<and> reads_ok s1"
proof (cases c)
  case Nil
  with assms sys_read1_eof [of s fd path] show ?thesis by auto
next
  case (Cons x xs)
  with assms sys_read1_char [of s fd path x xs] have "n = 1"
    "s1 = s\<lparr>ticks := Suc (ticks s), fdtab := (fdtab s)[fd := Some (path, xs)]\<rparr>" by simp_all
  with assms(1,3) show ?thesis by simp
qed

lemma read_freqs_no_return:
  assumes "fd < length (fdtab s)" "fdtab s ! fd = Some (path, c)" "reads_ok s"
  shows "read_freqs (int fd) val off freq count s \<noteq> Inr x"
  using assms
proof (induction "int fd" val off freq count s arbitrary: c rule: read_freqs.induct)
  case (1 val off freq count s)
  obtain n ch s1 where r: "sys_read1 (int fd) s = (n, ch, s1)" by (metis prod_cases3)
  have n: "n \<noteq> -1" and s1: "fd < length (fdtab s1)" "\<exists>c'. fdtab s1 ! fd = Some (path, c')" "reads_ok s1"
    using sys_read1_live [OF 1(3-5) r] by simp_all
  from s1(2) obtain c' where c': "fdtab s1 ! fd = Some (path, c')" ..
  show ?case
  proof
    assume h: "read_freqs (int fd) val off freq count s = Inr x"
    obtain val' y where v: "(case ch of None \<Rightarrow> Inr val | Some x \<Rightarrow> awrite val off x) = Inr val'"
      "aread val' off = Inr y"
      using h n r by (subst (asm) read_freqs.simps) (auto simp: rbind_eq_Inr)
    show False
    proof (cases "y = CHR '' ''")
      case True
      from h n r v True obtain k freq' where "atoi (cstr val') = Inr k" "awrite freq count k = Inr freq'"
        "read_freqs (int fd) (bzero_str val') 0 freq' (Suc count) s1 = Inr x"
        by (subst (asm) read_freqs.simps) (auto simp: rbind_eq_Inr)
      with 1(1) [OF r [symmetric] refl n v(1) v(2) True _ _ s1(1) c' s1(3)] show False by metis
    next
      case False
      from h n r v False have "read_freqs (int fd) val' (Suc off) freq count s1 = Inr x"
        by (subst (asm) read_freqs.simps) simp
      with 1(2) [OF r [symmetric] refl n v(1) v(2) False s1(1) c' s1(3)] show False by blast
    qed
  qed
qed

text \<open>
  Reading an energy counter through the XTPM plugin (\<^verbatim>\<open>pwr_xtpmdev_read\<close>), where the
  counter file and the generation file each hold a number of fewer than 20 digits followed by a
  space, returns 0, stores that number as a double and the time of the clock, and leaves as many
  files open as there were.
\<close>

theorem xtpm_reads_counter:
  assumes "\<forall>k. file_at s k (xtpm_path ''energy'') = Some (show_nat n @ CHR '' '' # u1)"
    and "\<forall>k. file_at s k (xtpm_path ''generation'') = Some (show_nat g @ CHR '' '' # u2)"
    and "reads_ok s" "length (show_nat n) < 20" "length (show_nat g) < 20"
    and "heap_get (fds s) p = Inr f"
  shows "\<exists>k s'. pwr_xtpmdev_read (Some p) PWR_ATTR_ENERGY v 8 t s =
      Inr ((0, f_of_int (int n), tv_nsec (clock s k)), s') \<and> open_files s' = open_files s"
proof -
  from assms(1,3,4) obtain k where k: "xtpmdev_read ''energy'' v s =
    Inr ((0, f_of_int (int n)), s\<lparr>ticks := k, fdtab := fdtab s @ [None]\<rparr>)"
    using xtpmdev_read_number [of s "''energy''"] by metis
  let ?s = "s\<lparr>ticks := Suc k, fdtab := fdtab s @ [None]\<rparr>"
  from assms(2,3,5) obtain k2 where k2: "xtpmdev_read ''generation'' 0 ?s =
    Inr ((0, f_of_int (int g)), ?s\<lparr>ticks := k2, fdtab := fdtab ?s @ [None]\<rparr>)"
    using xtpmdev_read_number [of ?s "''generation''" g u2 0] by auto
  let ?s2 = "s\<lparr>ticks := k2, fdtab := fdtab s @ [None, None]\<rparr>"
  have "xtpm_generation (Some p) (f_of_int (int g)) ?s2 = Inr ?s2 \<or>
    (\<exists>f'. xtpm_generation (Some p) (f_of_int (int g)) ?s2 = Inr (?s2\<lparr>fds := (fds s)[p := Some f']\<rparr>))"
    using assms(6) by (auto simp: xtpm_generation_def pfd_get_def pfd_set_def heap_set_def)
  moreover have "open_files ?s2 = open_files s" "open_files (?s2\<lparr>fds := h\<rparr>) = open_files s" for h
    by (simp_all add: open_files_def)
  moreover have "gettimeofday (s\<lparr>ticks := k, fdtab := fdtab s @ [None]\<rparr>) = (clock s k, ?s)"
    by (simp add: gettimeofday_def)
  ultimately show ?thesis
    using k k2 by (auto simp: pwr_xtpmdev_read_def)
qed

theorem xtpm_reads_counter_witness:
  "\<exists>k s'. pwr_xtpmdev_read (Some 0) PWR_ATTR_ENERGY 0 8 0
      (demo_state (\<lambda>_. Some ''42 J'') [\<lparr>xf_dev = 0, xf_generation = 0\<rparr>]) =
    Inr ((0, f_of_int 42, tv_nsec (1, of_nat k)), s') \<and> open_files s' = 0"
  using xtpm_reads_counter [of "demo_state (\<lambda>_. Some ''42 J'') [\<lparr>xf_dev = 0, xf_generation = 0\<rparr>]"
      42 "''J''" 42 "''J''" 0 "\<lparr>xf_dev = 0, xf_generation = 0\<rparr>" 0 0]
  by (simp add: show_nat_42 heap_get_def open_files_def)

text \<open>
  C36: The loop that reads a counter (\<^verbatim>\<open>xtpmdev_read\<close>, \<^verbatim>\<open>pmcdev_read\<close> and
  \<^verbatim>\<open>cpudev_read\<close>) compares the result of \<^verbatim>\<open>read\<close> with \<^verbatim>\<open>EOF\<close>, which is -1,
  while \<^verbatim>\<open>read\<close> returns 0 at the end of a file. A file without a space in its first 20
  characters, such as one that holds a number and a newline, makes all three read past
  the end of the buffer.
\<close>

theorem counter_without_space:
  assumes "file_at s (ticks s) path = Some c" "reads_ok s" "CHR '' '' \<notin> set (take 20 c)"
  shows "(path = xtpm_path name \<longrightarrow> xtpmdev_read name v s = Inl OutOfBounds) \<and>
    (path = pmc_path u i \<longrightarrow> pmcdev_read u i v s = Inl OutOfBounds) \<and>
    (path = cpu_path cpu name \<longrightarrow> cpudev_read cpu name v s = Inl OutOfBounds)"
proof -
  let ?fd = "length (fdtab s)" and ?s = "s\<lparr>ticks := Suc (ticks s), fdtab := fdtab s @ [Some (path, c)]\<rparr>"
  have "read_token (int ?fd) strval0 0 ?s = Inl OutOfBounds"
    using assms by (intro read_token_overrun [of _ _ path c]) (auto simp: strval0_def)
  moreover have "sys_open_rd path s = (int ?fd, ?s)" using assms(1) by (simp add: sys_open_rd_def)
  ultimately show ?thesis
    by (intro conjI impI) (simp_all add: xtpmdev_read_def pmcdev_read_def cpudev_read_def)
qed

theorem counter_without_space_witness:
  "xtpmdev_read ''power'' 0 (demo_state (\<lambda>_. Some (''42'' @ [CHR 0x0A])) [()] :: (int, unit) pstate) = Inl OutOfBounds"
  using counter_without_space [of "demo_state (\<lambda>_. Some (''42'' @ [CHR 0x0A])) [()] :: (int, unit) pstate"
      "xtpm_path ''power''" "''42'' @ [CHR 0x0A]"] by simp

text \<open>
  \<^verbatim>\<open>cpudev_read\<close> returns without closing its file when it has found the value: each
  successful read of a CPU file leaves one more file open, where the same read of a performance
  counter (\<^verbatim>\<open>pmcdev_read\<close>) leaves none.
\<close>

theorem cpu_read_leaks_file:
  assumes "file_at s (ticks s) (cpu_path cpu name) = Some (show_nat n @ CHR '' '' # u1)"
    and "file_at s (ticks s) (pmc_path cpu' i) = Some (show_nat m @ CHR '' '' # u2)"
    and "reads_ok s" "length (show_nat n) < 20" "length (show_nat m) < 20"
  shows "(\<exists>s'. cpudev_read cpu name v s = Inr ((0, f_of_int (int n)), s') \<and>
            open_files s' = Suc (open_files s)) \<and>
    (\<exists>s'. pmcdev_read cpu' i v s = Inr ((0, f_of_int (int m)), s') \<and> open_files s' = open_files s)"
  using cpudev_read_number [OF assms(1,3,4), of v] pmcdev_read_number [OF assms(2,3,5), of v]
  by (metis open_files_app)

theorem cpu_read_leaks_file_witness:
  "\<exists>s'. cpudev_read 0 ''online'' 0 (demo_state (\<lambda>_. Some ''42 '') [()] :: (int, unit) pstate) =
      Inr ((0, f_of_int 42), s') \<and> open_files s' = 1"
  using cpu_read_leaks_file [of "demo_state (\<lambda>_. Some ''42 '') [()] :: (int, unit) pstate"
      0 "''online''" 42 "[]" 0 1 42 "[]" 0]
  by (simp add: show_nat_42 open_files_def)

text \<open>
  C37: \<^verbatim>\<open>pwr_cpudev_init\<close> does not return when the list of frequencies of cpu 0 can be
  opened and read: the loop of \<^verbatim>\<open>cpudev_avail_freq\<close> ends at a read error only, so it runs
  past the end of its buffer, whatever the file holds. When the file cannot be opened, it returns a device
  without frequencies.
\<close>

theorem cpu_init_overruns:
  assumes "reads_ok s"
  shows "(case file_at s (ticks s) (cpu_path 0 ''cpufreq/scaling_available_frequencies'') of
      Some c \<Rightarrow> \<forall>x. pwr_cpudev_init ncpu s \<noteq> Inr x
    | None \<Rightarrow> \<exists>k. pwr_cpudev_init ncpu s =
        Inr (dev_new \<lparr>cd_num_cpus = ncpu, cd_num_freq = 0, cd_avail_freqlist = replicate 100 0\<rparr>
               (s\<lparr>ticks := k\<rparr>)))"
proof (cases "file_at s (ticks s) (cpu_path 0 ''cpufreq/scaling_available_frequencies'')")
  case None
  have "read_freqs (-1) strval0 0 (replicate 100 0) 0 (s\<lparr>ticks := Suc (ticks s)\<rparr>) =
    Inr ((replicate 100 0, 0), s\<lparr>ticks := Suc (Suc (ticks s))\<rparr>)"
    by (subst read_freqs.simps) (simp add: sys_read1_def fd_get_def)
  with None show ?thesis
    by (auto simp: pwr_cpudev_init_def cpudev_avail_freq_def sys_open_rd_def sys_close_def)
next
  case (Some c)
  let ?p = "cpu_path 0 ''cpufreq/scaling_available_frequencies''"
  let ?s = "s\<lparr>ticks := Suc (ticks s), fdtab := fdtab s @ [Some (?p, c)]\<rparr>"
  have "read_freqs (int (length (fdtab s))) strval0 0 (replicate 100 0) 0 ?s \<noteq> Inr x" for x
    using assms by (intro read_freqs_no_return [of _ _ ?p c]) simp_all
  with Some show ?thesis
    by (auto simp: pwr_cpudev_init_def cpudev_avail_freq_def sys_open_rd_def rbind_eq_Inr)
qed

theorem cpu_init_overruns_witness:
  "\<forall>x. pwr_cpudev_init 4 (demo_state (\<lambda>_. Some ''1200000 800000 '') []) \<noteq> Inr x"
  using cpu_init_overruns [of "demo_state (\<lambda>_. Some ''1200000 800000 '') []" 4] by simp
end
