(* ===== verification/MeterDev.thy ===== *)
theory MeterDev
  imports PluginBase
begin

text \<open>
  The plugins for power meters: Watts Up (\<^verbatim>\<open>pwr_wudev.c\<close>, a serial line),
  PowerInsight (\<^verbatim>\<open>pwr_pidev.c\<close> over \<^verbatim>\<open>pidev\<close>,
  \<^verbatim>\<open>pwr_piapidev.c\<close> over \<^verbatim>\<open>piapi\<close>) and the Intel Power Gadget
  (\<^verbatim>\<open>pwr_pgdev.c\<close>). The libraries and the terminal are not part of the sources: what
  their calls return is an argument of the model.
\<close>

section \<open>Parsing the strings of the configuration\<close>

text \<open>\<^verbatim>\<open>strtok( s, ":" )\<close> and \<^verbatim>\<open>atoi\<close> of the token; \<^verbatim>\<open>None\<close> without a token.\<close>

definition token_int :: "(string option \<times> 'b os_scheme) res \<Rightarrow> (int option \<times> 'b os_scheme) res" where
  "token_int m =
     rbind m (\<lambda>(t, s).
     case t of None \<Rightarrow> Inr (None, s) | Some w \<Rightarrow> rbind (atoi w) (\<lambda>k. Inr (Some k, s)))"

section \<open>Watts Up\<close>

definition wudev_parse :: "string \<Rightarrow> 'b os_scheme \<Rightarrow> ((string \<times> int) option \<times> 'b os_scheme) res" where
  "wudev_parse initstr s =
     (case strtok_start {CHR '':''} initstr s of (t, s) \<Rightarrow>
      case t of
        None \<Rightarrow> Inr (None, s)
      | Some port \<Rightarrow>
          if 256 \<le> length port then Inl OutOfBounds
          else rbind (token_int (strtok_next {CHR '':''} s)) (\<lambda>(b, s).
               Inr (map_option (\<lambda>baud. (port, baud)) b, s)))"

text \<open>
  The terminal: the settings \<^verbatim>\<open>wudev_open\<close> changes, and what \<^verbatim>\<open>tcgetattr\<close> and
  \<^verbatim>\<open>tcsetattr\<close> do.
\<close>

record termios =
  ispeed :: int
  ospeed :: int
  parenb :: bool
  cstopb :: bool
  cs8 :: bool
  crtscts :: bool
  cread :: bool
  clocal :: bool
  ixon_ixoff_ixany :: bool
  icanon_echo_isig :: bool
  opost :: bool
  vmin :: nat
  vtime :: nat

record tty =
  tcgetattr :: "nat \<Rightarrow> int \<Rightarrow> termios option"
  tcsetattr :: "nat \<Rightarrow> int \<Rightarrow> termios \<Rightarrow> int"

definition baud_ok :: "int \<Rightarrow> bool" where
  "baud_ok baud \<longleftrightarrow> baud \<in> {4800, 9600, 19200, 38400, 57600, 115200}"

definition wu_opts :: "int \<Rightarrow> termios \<Rightarrow> termios" where
  "wu_opts rate opts =
     opts\<lparr>ispeed := rate, ospeed := rate, parenb := False, cstopb := False, cs8 := True,
          crtscts := False, cread := True, clocal := True, ixon_ixoff_ixany := False,
          icanon_echo_isig := False, opost := False, vmin := 0, vtime := 20\<rparr>"

definition wudev_open :: "tty \<Rightarrow> string \<Rightarrow> int \<Rightarrow> 'b os_scheme \<Rightarrow> int \<times> 'b os_scheme" where
  "wudev_open term port baud s =
     (case sys_open_rd port s of (fd, s) \<Rightarrow>
      if fd = -1 then (-1, s)
      else (case tcgetattr term (ticks s) fd of
              None \<Rightarrow> (-1, s)
            | Some opts \<Rightarrow>
                if \<not> baud_ok baud then (-1, s)
                else if tcsetattr term (ticks s) fd (wu_opts baud opts) < 0 then (-1, s)
                else (fd, s)))"

definition wudev_write :: "int \<Rightarrow> string \<Rightarrow> 'b os_scheme \<Rightarrow> int \<times> 'b os_scheme" where
  "wudev_write fd str s =
     (if str = [] then (0, s)
      else case sys_write fd str s of (n, s) \<Rightarrow> (if n \<noteq> int (length str) then -1 else 0, s))"

text \<open>
  The loop of \<^verbatim>\<open>wudev_read\<close>. \<open>c\<close> is the local variable of that name, \<open>None\<close> before
  the first character: after a read of nothing, \<^verbatim>\<open>continue\<close> goes to the test of
  \<open>c\<close>. When the line stays silent the loop does not end.
\<close>

definition wu_finish :: "string \<Rightarrow> nat \<Rightarrow> 'b os_scheme \<Rightarrow> ((int \<times> string) \<times> 'b os_scheme) res" where
  "wu_finish buf i s = rbind (awrite buf i (CHR 0x00)) (\<lambda>buf. Inr ((0, buf), s))"

partial_function (option) wudev_loop ::
    "int \<Rightarrow> char \<Rightarrow> char option \<Rightarrow> string \<Rightarrow> nat \<Rightarrow> 'b os_scheme \<Rightarrow>
     ((int \<times> string) \<times> 'b os_scheme) res option" where
  "wudev_loop fd term c buf i s =
     (case sys_read1 fd s of (n, x, s) \<Rightarrow>
      if n = -1 then Some (Inr ((-1, buf), s))
      else (case x of
              None \<Rightarrow>
                (case c of
                   None \<Rightarrow> Some (Inl Unspecified)
                 | Some d \<Rightarrow> if d \<noteq> term then wudev_loop fd term c buf i s else Some (wu_finish buf i s))
            | Some d \<Rightarrow>
                (let keep = (d \<noteq> CHR 0x0D \<and> d \<noteq> CHR 0x0A) in
                 if keep \<and> length buf \<le> i then Some (Inl OutOfBounds)
                 else
                   (let buf = (if keep then buf[i := d] else buf); i = (if keep then Suc i else i) in
                    if d \<noteq> term then wudev_loop fd term (Some d) buf i s
                    else Some (wu_finish buf i s)))))"

definition wudev_read :: "int \<Rightarrow> string \<Rightarrow> char \<Rightarrow> 'b os_scheme \<Rightarrow> ((int \<times> string) \<times> 'b os_scheme) res" where
  "wudev_read fd buf term s =
     (case wudev_loop fd term None buf 0 s of None \<Rightarrow> Inl Diverges | Some r \<Rightarrow> r)"

fun wudev_tokens :: "nat \<Rightarrow> nat \<Rightarrow> string \<Rightarrow> string option \<Rightarrow> 'b os_scheme \<Rightarrow> (string option \<times> 'b os_scheme) res" where
  "wudev_tokens 0 i buf token s = Inr (token, s)"
| "wudev_tokens (Suc n) i buf token s =
     rbind (if i = 0 then Inr (strtok_start {CHR '',''} buf s) else strtok_next {CHR '',''} s) (\<lambda>(t, s).
     case t of None \<Rightarrow> Inr (None, s) | Some w \<Rightarrow> wudev_tokens n (Suc i) buf (Some w) s)"

definition wudev_extract :: "string \<Rightarrow> nat \<Rightarrow> 'b os_scheme \<Rightarrow> (int \<times> 'b os_scheme) res" where
  "wudev_extract buf pos s =
     (if pos = 0 then Inl Unspecified
      else rbind (wudev_tokens pos 0 buf None s) (\<lambda>(t, s).
           case t of None \<Rightarrow> Inr (0, s) | Some w \<Rightarrow> rbind (atol w) (\<lambda>k. Inr (k, s))))"

record wufd = wf_dev :: addr

type_synonym wu_state = "(int, wufd) pstate"

text \<open>On the error paths the memory of the device stays allocated.\<close>

definition pwr_wudev_init :: "tty \<Rightarrow> string option \<Rightarrow> wu_state \<Rightarrow> (addr option \<times> wu_state) res" where
  "pwr_wudev_init term initstr s =
     (case dev_new 0 s of (d, s) \<Rightarrow>
      case initstr of
        None \<Rightarrow> Inr (None, s)
      | Some str \<Rightarrow>
          rbind (wudev_parse str s) (\<lambda>(pb, s).
          case pb of
            None \<Rightarrow> Inr (None, s)
          | Some (port, baud) \<Rightarrow>
              (case wudev_open term port baud s of (fd, s) \<Rightarrow>
               rbind (heap_set d fd (devs s)) (\<lambda>h.
               Inr (if fd < 0 then None else Some d, s\<lparr>devs := h\<rparr>)))))"

definition pwr_wudev_final :: "addr \<Rightarrow> wu_state \<Rightarrow> (int \<times> wu_state) res" where
  "pwr_wudev_final d s =
     rbind (heap_get (devs s) d) (\<lambda>fd.
     rbind (dev_final d (sys_close fd s)) (\<lambda>s. Inr (0, s)))"

definition pwr_wudev_open :: "addr \<Rightarrow> wu_state \<Rightarrow> addr option \<times> wu_state" where
  "pwr_wudev_open d s = (case pfd_new \<lparr>wf_dev = d\<rparr> s of (p, s) \<Rightarrow> (Some p, s))"

definition pwr_wudev_close :: "addr option \<Rightarrow> wu_state \<Rightarrow> (int \<times> wu_state) res" where
  "pwr_wudev_close p s = pfd_close p s"

definition wu_cmd :: string where
  "wu_cmd = ''#L,W,3,E,0,1;''"

definition fconst :: "int \<Rightarrow> u64" where
  "fconst n = f_of_int n"

definition wu_value :: "PWR_AttrName \<Rightarrow> string \<Rightarrow> u64 \<Rightarrow> 'b os_scheme \<Rightarrow> (u64 \<times> 'b os_scheme) res" where
  "wu_value attr buf v s =
     (case attr of
        PWR_ATTR_VOLTAGE \<Rightarrow>
          rbind (wudev_extract buf 5 s) (\<lambda>(k, s). Inr (fdiv (f_of_int k) (fconst 10), s))
      | PWR_ATTR_CURRENT \<Rightarrow>
          rbind (wudev_extract buf 6 s) (\<lambda>(k, s). Inr (fdiv (f_of_int k) (fconst 1000), s))
      | PWR_ATTR_POWER \<Rightarrow>
          rbind (wudev_extract buf 4 s) (\<lambda>(k, s). Inr (fdiv (f_of_int k) (fconst 10), s))
      | PWR_ATTR_ENERGY \<Rightarrow>
          rbind (wudev_extract buf 7 s) (\<lambda>(k, s).
          Inr (fmul (fdiv (f_of_int k) (fconst 10)) (fconst 3600), s))
      | _ \<Rightarrow> Inr (v, s))"

definition pwr_wudev_read :: "addr option \<Rightarrow> wu_state read_op" where
  "pwr_wudev_read p attr v len t s =
     rbind (pfd_get p s) (\<lambda>f.
     rbind (heap_get (devs s) (wf_dev f)) (\<lambda>fd.
     case wudev_write fd wu_cmd s of (r, s) \<Rightarrow>
     if r = -1 then Inr ((-1, v, t), s)
     else
       rbind (wudev_read fd (replicate 256 (CHR 0x00)) (CHR '';'') s) (\<lambda>((r, buf), s).
       if r \<noteq> 0 then Inr ((-1, v, t), s)
       else if 0 < length (cstr buf) then
         rbind (wu_value attr (cstr buf) v s) (\<lambda>(v, s).
         case gettimeofday s of (tv, s) \<Rightarrow> Inr ((0, v, tv_nsec tv), s))
       else Inr ((0, v, t), s))))"

definition pwr_wudev_write :: "addr option \<Rightarrow> wu_state write_op" where
  "pwr_wudev_write p attr v len s = Inr ((0, v), s)"

definition pwr_wudev_readv ::
    "addr option \<Rightarrow> u32 \<Rightarrow> PWR_AttrName list \<Rightarrow> u64 list \<Rightarrow> u64 list \<Rightarrow> int list \<Rightarrow> wu_state \<Rightarrow>
     ((int \<times> u64 list \<times> u64 list \<times> int list) \<times> wu_state) res" where
  "pwr_wudev_readv p = readv_of (pwr_wudev_read p)"

definition pwr_wudev_writev ::
    "addr option \<Rightarrow> u32 \<Rightarrow> PWR_AttrName list \<Rightarrow> u64 list \<Rightarrow> int list \<Rightarrow> wu_state \<Rightarrow>
     ((int \<times> u64 list \<times> int list) \<times> wu_state) res" where
  "pwr_wudev_writev p = writev_of (pwr_wudev_write p)"

definition pwr_wudev_time :: "addr option \<Rightarrow> u64 \<Rightarrow> u64 \<Rightarrow> wu_state \<Rightarrow> ((int \<times> u64) \<times> wu_state) res" where
  "pwr_wudev_time p junk_v t s =
     rbind (pwr_wudev_read p PWR_ATTR_POWER junk_v 8 t s) (\<lambda>((r, _, t), s). Inr ((r, t), s))"

definition pwr_wudev_clear :: "addr option \<Rightarrow> int" where
  "pwr_wudev_clear p = 0"

section \<open>PowerInsight through pidev\<close>

text \<open>The library: results of its calls, a reading is volts, amperes and watts.\<close>

record pidev_lib =
  pidev_open :: "nat \<Rightarrow> int"
  pidev_close :: "nat \<Rightarrow> int"
  pidev_read :: "nat \<Rightarrow> int \<Rightarrow> int \<times> u64 \<times> u64 \<times> u64"

record pifd = pf_port :: int

type_synonym pi_state = "(int, pifd) pstate"

definition pwr_pidev_init :: "pidev_lib \<Rightarrow> pi_state \<Rightarrow> (addr option \<times> pi_state) res" where
  "pwr_pidev_init lib s =
     (case dev_new 0 s of (d, s) \<Rightarrow>
      let r = pidev_open lib (ticks s); s = s\<lparr>ticks := Suc (ticks s)\<rparr> in
      if r < 0 then rbind (dev_final d s) (\<lambda>s. Inr (None, s)) else Inr (Some d, s))"

definition pwr_pidev_final :: "pidev_lib \<Rightarrow> addr \<Rightarrow> pi_state \<Rightarrow> (int \<times> pi_state) res" where
  "pwr_pidev_final lib d s =
     rbind (dev_final d s) (\<lambda>s.
     let r = pidev_close lib (ticks s); s = s\<lparr>ticks := Suc (ticks s)\<rparr> in
     Inr (if r < 0 then -1 else 0, s))"

definition pwr_pidev_open :: "string option \<Rightarrow> pi_state \<Rightarrow> (addr option \<times> pi_state) res" where
  "pwr_pidev_open openstr s =
     (case pfd_new \<lparr>pf_port = 0\<rparr> s of (p, s) \<Rightarrow>
      case openstr of
        None \<Rightarrow> Inr (None, s)
      | Some str \<Rightarrow>
          rbind (token_int (Inr (strtok_start {CHR '':''} str s))) (\<lambda>(k, s).
          case k of
            None \<Rightarrow> Inr (None, s)
          | Some port \<Rightarrow> rbind (pfd_set (Some p) \<lparr>pf_port = port\<rparr> s) (\<lambda>s. Inr (Some p, s))))"

definition pwr_pidev_close :: "addr option \<Rightarrow> pi_state \<Rightarrow> (int \<times> pi_state) res" where
  "pwr_pidev_close p s = pfd_close p s"

definition pwr_pidev_read :: "pidev_lib \<Rightarrow> addr option \<Rightarrow> pi_state read_op" where
  "pwr_pidev_read lib p attr v len t s =
     rbind (pfd_get p s) (\<lambda>f.
     case pidev_read lib (ticks s) (pf_port f) of (r, volt, amp, watt) \<Rightarrow>
     let s = s\<lparr>ticks := Suc (ticks s)\<rparr> in
     if r < 0 then Inr ((-1, v, t), s)
     else if len \<noteq> 8 then Inr ((-1, v, t), s)
     else
       (let v = (case attr of
                   PWR_ATTR_VOLTAGE \<Rightarrow> volt
                 | PWR_ATTR_CURRENT \<Rightarrow> amp
                 | PWR_ATTR_POWER \<Rightarrow> watt
                 | _ \<Rightarrow> v) in
        case gettimeofday s of (tv, s) \<Rightarrow> Inr ((0, v, tv_nsec tv), s)))"

definition pwr_pidev_write :: "addr option \<Rightarrow> pi_state write_op" where
  "pwr_pidev_write p attr v len s = Inr ((0, v), s)"

definition pwr_pidev_readv ::
    "pidev_lib \<Rightarrow> addr option \<Rightarrow> u32 \<Rightarrow> PWR_AttrName list \<Rightarrow> u64 list \<Rightarrow> u64 list \<Rightarrow> int list \<Rightarrow> pi_state \<Rightarrow>
     ((int \<times> u64 list \<times> u64 list \<times> int list) \<times> pi_state) res" where
  "pwr_pidev_readv lib p = readv_of (pwr_pidev_read lib p)"

definition pwr_pidev_writev ::
    "addr option \<Rightarrow> u32 \<Rightarrow> PWR_AttrName list \<Rightarrow> u64 list \<Rightarrow> int list \<Rightarrow> pi_state \<Rightarrow>
     ((int \<times> u64 list \<times> int list) \<times> pi_state) res" where
  "pwr_pidev_writev p = writev_of (pwr_pidev_write p)"

definition pwr_pidev_time ::
    "pidev_lib \<Rightarrow> addr option \<Rightarrow> u64 \<Rightarrow> u64 \<Rightarrow> pi_state \<Rightarrow> ((int \<times> u64) \<times> pi_state) res" where
  "pwr_pidev_time lib p junk_v t s =
     rbind (pwr_pidev_read lib p PWR_ATTR_POWER junk_v 8 t s) (\<lambda>((r, _, t), s). Inr ((r, t), s))"

definition pwr_pidev_clear :: "addr option \<Rightarrow> int" where
  "pwr_pidev_clear p = 0"

section \<open>PowerInsight through piapi\<close>

text \<open>
  The library calls \<^verbatim>\<open>piapidev_callback\<close> for each sample it receives, from a thread of its
  own. \<open>piapi_samples\<close> gives the samples it delivers while the plugin waits for
  \<^verbatim>\<open>piapidev_reading\<close> to be cleared; a wait in which no sample clears it does not end.
\<close>

record sample =
  sm_number :: u32
  sm_total :: u32
  sm_time_sec :: u64
  sm_time_usec :: u64
  sm_volts :: u64
  sm_amps :: u64
  sm_watts :: u64
  sm_min_watts :: u64
  sm_max_watts :: u64
  sm_energy :: u64

record piapi_lib =
  piapi_init :: "nat \<Rightarrow> u32 \<Rightarrow> u32 \<Rightarrow> int"
  piapi_destroy :: "nat \<Rightarrow> int"
  piapi_counter :: "nat \<Rightarrow> int \<Rightarrow> int"
  piapi_samples :: "nat \<Rightarrow> sample list"

record papifd =
  pa_dev :: addr
  pa_port :: int

record papi_state = "(unit, papifd) pstate" +
  piapidev_counter :: sample
  piapidev_reading :: bool

definition piapidev_callback :: "sample \<Rightarrow> papi_state \<Rightarrow> papi_state" where
  "piapidev_callback x s =
     (let s = s\<lparr>piapidev_counter := x\<rparr> in
      if sm_total x \<noteq> 0 \<and> sm_number x = sm_total x then s\<lparr>piapidev_reading := False\<rparr> else s)"

fun deliver_until :: "sample list \<Rightarrow> papi_state \<Rightarrow> papi_state res" where
  "deliver_until xs s =
     (if \<not> piapidev_reading s then Inr s
      else case xs of [] \<Rightarrow> Inl Diverges | x # xs \<Rightarrow> deliver_until xs (piapidev_callback x s))"

declare deliver_until.simps [simp del]

text \<open>\<^verbatim>\<open>while( piapidev_reading ) sched_yield();\<close>\<close>

definition piapi_wait :: "piapi_lib \<Rightarrow> papi_state \<Rightarrow> papi_state res" where
  "piapi_wait lib s = deliver_until (piapi_samples lib (ticks s)) (s\<lparr>ticks := Suc (ticks s)\<rparr>)"

text \<open>The four numbers of the address, shifted by 24, 16, 8 and 0, and the port.\<close>

fun parse_addr :: "nat \<Rightarrow> u32 \<Rightarrow> string \<Rightarrow> papi_state \<Rightarrow> (u32 option \<times> papi_state) res" where
  "parse_addr n saddr str s =
     (let shift = 8 * n; delims = (if n \<noteq> 0 then {CHR ''.''} else {CHR '':''}) in
      rbind (token_int (if n = 3 then Inr (strtok_start delims str s) else strtok_next delims s)) (\<lambda>(k, s).
      case k of
        None \<Rightarrow> Inr (None, s)
      | Some k \<Rightarrow>
          (let saddr = saddr OR push_bit shift (word_of_int k) in
           if n = 0 then Inr (Some saddr, s) else parse_addr (n - 1) saddr str s)))"

declare parse_addr.simps [simp del]

definition piapidev_parse :: "string \<Rightarrow> papi_state \<Rightarrow> ((u32 \<times> u32) option \<times> papi_state) res" where
  "piapidev_parse initstr s =
     rbind (parse_addr 3 0 initstr s) (\<lambda>(a, s).
     case a of
       None \<Rightarrow> Inr (None, s)
     | Some saddr \<Rightarrow>
         rbind (token_int (strtok_next {CHR '':''} s)) (\<lambda>(k, s).
         Inr (map_option (\<lambda>port. (saddr, word_of_int port)) k, s)))"

definition papi_dev_new :: "papi_state \<Rightarrow> addr \<times> papi_state" where
  "papi_dev_new s = (length (devs s), s\<lparr>devs := devs s @ [Some ()]\<rparr>)"

definition pwr_piapidev_init :: "piapi_lib \<Rightarrow> string option \<Rightarrow> papi_state \<Rightarrow> (addr option \<times> papi_state) res" where
  "pwr_piapidev_init lib initstr s =
     (case papi_dev_new s of (d, s) \<Rightarrow>
      case initstr of
        None \<Rightarrow> Inr (None, s)
      | Some str \<Rightarrow>
          rbind (piapidev_parse str s) (\<lambda>(ap, s).
          case ap of
            None \<Rightarrow> Inr (None, s)
          | Some (saddr, sport) \<Rightarrow>
              (let r = piapi_init lib (ticks s) saddr sport; s = s\<lparr>ticks := Suc (ticks s)\<rparr> in
               Inr (if r < 0 then None else Some d, s))))"

definition pwr_piapidev_final :: "piapi_lib \<Rightarrow> addr \<Rightarrow> papi_state \<Rightarrow> (int \<times> papi_state) res" where
  "pwr_piapidev_final lib d s =
     rbind (heap_get (devs s) d) (\<lambda>_.
     let r = piapi_destroy lib (ticks s); s = s\<lparr>ticks := Suc (ticks s)\<rparr> in
     if r < 0 then Inr (-1, s)
     else rbind (heap_free d (devs s)) (\<lambda>h. Inr (0, s\<lparr>devs := h\<rparr>)))"

definition papi_get :: "addr option \<Rightarrow> papi_state \<Rightarrow> papifd res" where
  "papi_get p s = rbind (deref p) (heap_get (fds s))"

definition pwr_piapidev_open ::
    "addr \<Rightarrow> string option \<Rightarrow> papi_state \<Rightarrow> (addr option \<times> papi_state) res" where
  "pwr_piapidev_open d openstr s =
     (let p = length (fds s); s = s\<lparr>fds := fds s @ [Some \<lparr>pa_dev = d, pa_port = 0\<rparr>]\<rparr> in
      case openstr of
        None \<Rightarrow> Inr (None, s)
      | Some str \<Rightarrow>
          rbind (token_int (Inr (strtok_start {CHR '':''} str s))) (\<lambda>(k, s).
          case k of
            None \<Rightarrow> Inr (None, s)
          | Some port \<Rightarrow>
              rbind (heap_set p \<lparr>pa_dev = d, pa_port = port\<rparr> (fds s)) (\<lambda>h.
              Inr (Some p, s\<lparr>fds := h\<rparr>))))"

definition pwr_piapidev_close :: "addr option \<Rightarrow> papi_state \<Rightarrow> (int \<times> papi_state) res" where
  "pwr_piapidev_close p s =
     rbind (deref p) (\<lambda>a. rbind (heap_free a (fds s)) (\<lambda>h. Inr (0, s\<lparr>fds := h\<rparr>)))"

text \<open>Asking for a sample and waiting for it: -1 when the library refuses.\<close>

definition piapi_request :: "piapi_lib \<Rightarrow> addr option \<Rightarrow> papi_state \<Rightarrow> (int \<times> papi_state) res" where
  "piapi_request lib p s =
     rbind (piapi_wait lib s) (\<lambda>s.
     let s = s\<lparr>piapidev_reading := True\<rparr> in
     rbind (papi_get p s) (\<lambda>f.
     rbind (heap_get (devs s) (pa_dev f)) (\<lambda>_.
     let r = piapi_counter lib (ticks s) (pa_port f); s = s\<lparr>ticks := Suc (ticks s)\<rparr> in
     if r < 0 then Inr (-1, s)
     else rbind (piapi_wait lib s) (\<lambda>s. Inr (0, s)))))"

definition sample_value :: "sample \<Rightarrow> PWR_AttrName \<Rightarrow> u64 \<Rightarrow> u64" where
  "sample_value x attr v =
     (case attr of
        PWR_ATTR_VOLTAGE \<Rightarrow> sm_volts x
      | PWR_ATTR_CURRENT \<Rightarrow> sm_amps x
      | PWR_ATTR_POWER \<Rightarrow> sm_watts x
      | PWR_ATTR_POWER_LIMIT_MIN \<Rightarrow> sm_min_watts x
      | PWR_ATTR_POWER_LIMIT_MAX \<Rightarrow> sm_max_watts x
      | PWR_ATTR_ENERGY \<Rightarrow> sm_energy x
      | _ \<Rightarrow> v)"

definition sample_nsec :: "sample \<Rightarrow> u64" where
  "sample_nsec x = sm_time_sec x * 1000000000 + sm_time_usec x * 1000"

definition pwr_piapidev_read :: "piapi_lib \<Rightarrow> addr option \<Rightarrow> papi_state read_op" where
  "pwr_piapidev_read lib p attr v len t s =
     rbind (piapi_request lib p s) (\<lambda>(r, s).
     if r < 0 then Inr ((-1, v, t), s)
     else if len \<noteq> 8 then Inr ((-1, v, t), s)
     else Inr ((0, sample_value (piapidev_counter s) attr v, sample_nsec (piapidev_counter s)), s))"

definition pwr_piapidev_write :: "addr option \<Rightarrow> papi_state write_op" where
  "pwr_piapidev_write p attr v len s = Inr ((0, v), s)"

text \<open>
  \<^verbatim>\<open>pwr_piapidev_readv\<close> asks for one sample and fills in a value for each attribute, and
  then reads the attribute once more with \<^verbatim>\<open>pwr_piapidev_read\<close>.
\<close>

definition piapi_read_twice :: "piapi_lib \<Rightarrow> addr option \<Rightarrow> papi_state read_op" where
  "piapi_read_twice lib p attr v len t s =
     (let v = sample_value (piapidev_counter s) attr v; t = sample_nsec (piapidev_counter s) in
      pwr_piapidev_read lib p attr v len t s)"

definition pwr_piapidev_readv ::
    "piapi_lib \<Rightarrow> addr option \<Rightarrow> u32 \<Rightarrow> PWR_AttrName list \<Rightarrow> u64 list \<Rightarrow> u64 list \<Rightarrow> int list \<Rightarrow> papi_state \<Rightarrow>
     ((int \<times> u64 list \<times> u64 list \<times> int list) \<times> papi_state) res" where
  "pwr_piapidev_readv lib p n attrs vs ts sts s =
     rbind (piapi_request lib p s) (\<lambda>(r, s).
     if r < 0 then Inr ((-1, vs, ts, sts), s)
     else readv_of (piapi_read_twice lib p) n attrs vs ts sts s)"

definition pwr_piapidev_writev ::
    "addr option \<Rightarrow> u32 \<Rightarrow> PWR_AttrName list \<Rightarrow> u64 list \<Rightarrow> int list \<Rightarrow> papi_state \<Rightarrow>
     ((int \<times> u64 list \<times> int list) \<times> papi_state) res" where
  "pwr_piapidev_writev p = writev_of (pwr_piapidev_write p)"

definition pwr_piapidev_time ::
    "piapi_lib \<Rightarrow> addr option \<Rightarrow> u64 \<Rightarrow> u64 \<Rightarrow> papi_state \<Rightarrow> ((int \<times> u64) \<times> papi_state) res" where
  "pwr_piapidev_time lib p junk_v t s =
     rbind (pwr_piapidev_read lib p PWR_ATTR_POWER junk_v 8 t s) (\<lambda>((r, _, t), s). Inr ((r, t), s))"

definition pwr_piapidev_clear :: "addr option \<Rightarrow> int" where
  "pwr_piapidev_clear p = 0"

section \<open>Intel Power Gadget\<close>

text \<open>
  The library: each call gets the number of calls made before it; a call that stores a result
  through a pointer gives that result next to its return value.
\<close>

record pg_lib =
  pg_NumNodes :: "nat \<Rightarrow> int"
  pg_NumMsrs :: "nat \<Rightarrow> int"
  pg_SysTime :: "nat \<Rightarrow> u64"
  pg_MsrFunc :: "nat \<Rightarrow> int \<Rightarrow> int \<times> int"
  pg_PowerData :: "nat \<Rightarrow> int \<Rightarrow> int \<times> u64 list"
  pg_IAFrequency :: "nat \<Rightarrow> int \<Rightarrow> int \<times> int"
  pg_GTFrequency :: "nat \<Rightarrow> int \<times> int"
  pg_Temperature :: "nat \<Rightarrow> int \<Rightarrow> int"
  MSR_FUNC_POWER :: int

record pgdev =
  pg_num_nodes :: int
  pg_num_msrs :: int

record pgfd =
  pg_dev :: addr
  pg_node :: int
  pg_gpu :: int

type_synonym pg_state = "(pgdev, pgfd) pstate"

definition pgdev_parse :: "string \<Rightarrow> pg_state \<Rightarrow> ((int \<times> int) option \<times> pg_state) res" where
  "pgdev_parse openstr s =
     rbind (token_int (Inr (strtok_start {CHR '':''} openstr s))) (\<lambda>(k, s).
     case k of
       None \<Rightarrow> Inr (None, s)
     | Some node \<Rightarrow>
         rbind (token_int (strtok_next {CHR '':''} s)) (\<lambda>(k, s).
         Inr (map_option (\<lambda>gpu. (node, gpu)) k, s)))"

definition pwr_pgdev_init :: "pg_lib \<Rightarrow> pg_state \<Rightarrow> addr \<times> pg_state" where
  "pwr_pgdev_init lib s =
     (let n = pg_NumNodes lib (ticks s); m = pg_NumMsrs lib (Suc (ticks s)) in
      dev_new \<lparr>pg_num_nodes = n, pg_num_msrs = m\<rparr> (s\<lparr>ticks := Suc (Suc (ticks s))\<rparr>))"

definition pwr_pgdev_final :: "addr \<Rightarrow> pg_state \<Rightarrow> (int \<times> pg_state) res" where
  "pwr_pgdev_final d s = rbind (dev_final d s) (\<lambda>s. Inr (0, s))"

definition pwr_pgdev_open :: "addr \<Rightarrow> string option \<Rightarrow> pg_state \<Rightarrow> (addr option \<times> pg_state) res" where
  "pwr_pgdev_open d openstr s =
     (case pfd_new \<lparr>pg_dev = d, pg_node = 0, pg_gpu = 0\<rparr> s of (p, s) \<Rightarrow>
      case openstr of
        None \<Rightarrow> Inr (None, s)
      | Some str \<Rightarrow>
          rbind (pgdev_parse str s) (\<lambda>(ng, s).
          case ng of
            None \<Rightarrow> Inr (None, s)
          | Some (node, gpu) \<Rightarrow>
              rbind (pfd_set (Some p) \<lparr>pg_dev = d, pg_node = node, pg_gpu = gpu\<rparr> s) (\<lambda>s.
              Inr (Some p, s))))"

definition pwr_pgdev_close :: "addr option \<Rightarrow> pg_state \<Rightarrow> (int \<times> pg_state) res" where
  "pwr_pgdev_close p s = pfd_close p s"

text \<open>
  The search for the register that measures power. For the energy a register whose function
  cannot be read is skipped; for the power the result of the call is not looked at.
\<close>

fun pg_search :: "bool \<Rightarrow> pg_lib \<Rightarrow> nat \<Rightarrow> int \<Rightarrow> nat \<Rightarrow> nat \<Rightarrow> (u64 option \<times> nat) res" where
  "pg_search energy lib 0 i j k = Inr (None, k)"
| "pg_search energy lib (Suc n) i j k =
     (case pg_MsrFunc lib k i of (r, func) \<Rightarrow>
      if (energy \<and> r < 0) \<or> func \<noteq> MSR_FUNC_POWER lib then pg_search energy lib n (i + 1) j (Suc k)
      else rbind (aread (snd (pg_PowerData lib (Suc k) i)) j) (\<lambda>x. Inr (Some x, Suc (Suc k))))"

definition pg_value ::
    "pg_lib \<Rightarrow> pgfd \<Rightarrow> PWR_AttrName \<Rightarrow> u64 \<Rightarrow> pg_state \<Rightarrow> (u64 \<times> pg_state) res" where
  "pg_value lib f attr v s =
     (case attr of
        PWR_ATTR_ENERGY \<Rightarrow>
          rbind (heap_get (devs s) (pg_dev f)) (\<lambda>d.
          rbind (pg_search True lib (nat (pg_num_msrs d)) 0 1 (ticks s)) (\<lambda>(x, k).
          Inr (case x of None \<Rightarrow> v | Some y \<Rightarrow> y, s\<lparr>ticks := k\<rparr>)))
      | PWR_ATTR_POWER \<Rightarrow>
          rbind (heap_get (devs s) (pg_dev f)) (\<lambda>d.
          rbind (pg_search False lib (nat (pg_num_msrs d)) 0 0 (ticks s)) (\<lambda>(x, k).
          Inr (case x of None \<Rightarrow> v | Some y \<Rightarrow> y, s\<lparr>ticks := k\<rparr>)))
      | PWR_ATTR_FREQ \<Rightarrow>
          (let val = snd (if pg_gpu f = 0 then pg_IAFrequency lib (ticks s) (pg_node f)
                          else pg_GTFrequency lib (ticks s)) in
           Inr (fmul (f_of_int val) (fconst 10000000), s\<lparr>ticks := Suc (ticks s)\<rparr>))
      | PWR_ATTR_TEMP \<Rightarrow>
          Inr (f_of_int (pg_Temperature lib (ticks s) (pg_node f)), s\<lparr>ticks := Suc (ticks s)\<rparr>)
      | _ \<Rightarrow> Inr (v, s))"

definition pwr_pgdev_read :: "pg_lib \<Rightarrow> addr option \<Rightarrow> pg_state read_op" where
  "pwr_pgdev_read lib p attr v len t s =
     (let systime = pg_SysTime lib (ticks s); s = s\<lparr>ticks := Suc (ticks s)\<rparr> in
      rbind (pfd_get p s) (\<lambda>f.
      rbind (pg_value lib f attr v s) (\<lambda>(v, s).
      Inr ((0, v, drop_bit 32 systime * 1000000000 + take_bit 32 systime), s))))"

definition pwr_pgdev_write :: "addr option \<Rightarrow> pg_state write_op" where
  "pwr_pgdev_write p attr v len s = Inr ((0, v), s)"

definition pwr_pgdev_readv ::
    "pg_lib \<Rightarrow> addr option \<Rightarrow> u32 \<Rightarrow> PWR_AttrName list \<Rightarrow> u64 list \<Rightarrow> u64 list \<Rightarrow> int list \<Rightarrow> pg_state \<Rightarrow>
     ((int \<times> u64 list \<times> u64 list \<times> int list) \<times> pg_state) res" where
  "pwr_pgdev_readv lib p = readv_of (pwr_pgdev_read lib p)"

definition pwr_pgdev_writev ::
    "addr option \<Rightarrow> u32 \<Rightarrow> PWR_AttrName list \<Rightarrow> u64 list \<Rightarrow> int list \<Rightarrow> pg_state \<Rightarrow>
     ((int \<times> u64 list \<times> int list) \<times> pg_state) res" where
  "pwr_pgdev_writev p = writev_of (pwr_pgdev_write p)"

definition pwr_pgdev_time ::
    "pg_lib \<Rightarrow> addr option \<Rightarrow> u64 \<Rightarrow> u64 \<Rightarrow> pg_state \<Rightarrow> ((int \<times> u64) \<times> pg_state) res" where
  "pwr_pgdev_time lib p junk_v t s =
     rbind (pwr_pgdev_read lib p PWR_ATTR_POWER junk_v 8 t s) (\<lambda>((r, _, t), s). Inr ((r, t), s))"

definition pwr_pgdev_clear :: "addr option \<Rightarrow> int" where
  "pwr_pgdev_clear p = 0"

section \<open>The contract of a read\<close>

interpretation wu: plugin_read "pwr_wudev_read p" for p
  by unfold_locales
    (auto simp: pwr_wudev_read_def gettimeofday_def rbind_eq_Inr split_def split: if_split_asm)

interpretation pidev: plugin_read "pwr_pidev_read lib p" for lib p
  by unfold_locales
    (auto simp: pwr_pidev_read_def gettimeofday_def rbind_eq_Inr Let_def split_def split: if_split_asm)

interpretation piapi: plugin_read "pwr_piapidev_read lib p" for lib p
  by unfold_locales
    (auto simp: pwr_piapidev_read_def rbind_eq_Inr split_def split: if_split_asm)

interpretation pg: plugin_read "pwr_pgdev_read lib p" for lib p
  by unfold_locales
    (auto simp: pwr_pgdev_read_def rbind_eq_Inr Let_def split_def split: if_split_asm)

section \<open>Reading the Watts Up line\<close>

definition not_eol :: "char \<Rightarrow> bool" where
  "not_eol d \<longleftrightarrow> d \<noteq> CHR 0x0D \<and> d \<noteq> CHR 0x0A"

lemma wu_read1_char:
  assumes "fdtab s ! fd = Some (path, x # xs)" "fd < length (fdtab s)" "\<forall>k. \<not> read_fails s k"
  shows "sys_read1 (int fd) s =
    (1, Some x, s\<lparr>ticks := Suc (ticks s), fdtab := (fdtab s)[fd := Some (path, xs)]\<rparr>)"
  using assms by (simp add: sys_read1_def fd_get_def heap_get_def)

lemma wudev_loop_line:
  assumes "fdtab s ! fd = Some (path, c @ term # rest)" "fd < length (fdtab s)" "\<forall>k. \<not> read_fails s k"
    and "term \<notin> set c" "not_eol term" "i + length (filter not_eol c) + 2 \<le> length buf"
  shows "\<exists>tl. wudev_loop (int fd) term d buf i s =
    Some (Inr ((0, take i buf @ filter not_eol c @ term # CHR 0x00 # tl),
               s\<lparr>ticks := Suc (ticks s + length c), fdtab := (fdtab s)[fd := Some (path, rest)]\<rparr>))"
  using assms
proof (induction c arbitrary: s d buf i)
  case Nil
  then have "wudev_loop (int fd) term d buf i s =
    Some (Inr ((0, buf[i := term, Suc i := CHR 0x00]),
               s\<lparr>ticks := Suc (ticks s), fdtab := (fdtab s)[fd := Some (path, rest)]\<rparr>))"
    by (subst wudev_loop.simps) (simp add: wu_read1_char not_eol_def wu_finish_def Let_def)
  moreover have "buf[i := term, Suc i := CHR 0x00] =
    take i buf @ term # CHR 0x00 # drop (Suc (Suc i)) buf"
    using Nil.prems(6) by (simp add: upd_conv_take_nth_drop take_Suc_update)
  ultimately show ?case by auto
next
  case (Cons x c)
  let ?s = "s\<lparr>ticks := Suc (ticks s), fdtab := (fdtab s)[fd := Some (path, c @ term # rest)]\<rparr>"
  let ?buf = "if not_eol x then buf[i := x] else buf" and ?i = "if not_eol x then Suc i else i"
  have "wudev_loop (int fd) term d buf i s = wudev_loop (int fd) term (Some x) ?buf ?i ?s"
    using Cons.prems by (subst wudev_loop.simps) (auto simp: wu_read1_char not_eol_def Let_def)
  moreover have "take ?i ?buf = take i buf @ filter not_eol [x]"
    using Cons.prems by (simp add: take_Suc_update)
  moreover have "\<exists>tl. wudev_loop (int fd) term (Some x) ?buf ?i ?s =
    Some (Inr ((0, take ?i ?buf @ filter not_eol c @ term # CHR 0x00 # tl),
               ?s\<lparr>ticks := Suc (ticks ?s + length c), fdtab := (fdtab ?s)[fd := Some (path, rest)]\<rparr>))"
    using Cons.prems by (intro Cons.IH) auto
  ultimately show ?case by auto
qed

lemma wudev_tokens_join:
  assumes "tok s = Some (join (CHR '','') ws)" "\<forall>w \<in> set ws. w \<noteq> [] \<and> CHR '','' \<notin> set w"
    and "n \<le> length ws"
  shows "\<exists>r. wudev_tokens n (Suc i) buf token s =
    Inr (if n = 0 then token else Some (ws ! (n - 1)), s\<lparr>tok := r\<rparr>)"
  using assms
proof (induction n arbitrary: i token s ws)
  case 0
  then show ?case by (auto intro!: exI [of _ "tok s"])
next
  case (Suc n)
  then obtain w vs where ws: "ws = w # vs" by (cases ws) auto
  let ?s = "s\<lparr>tok := Some (join (CHR '','') vs)\<rparr>"
  have "wudev_tokens (Suc n) (Suc i) buf token s = wudev_tokens n (Suc (Suc i)) buf (Some w) ?s"
    using Suc.prems ws by (simp add: strtok_next_def strtok_join)
  moreover obtain r where "wudev_tokens n (Suc (Suc i)) buf (Some w) ?s =
    Inr (if n = 0 then Some w else Some (vs ! (n - 1)), ?s\<lparr>tok := r\<rparr>)"
    using Suc.IH [of ?s vs "Suc i" "Some w"] Suc.prems ws by auto
  ultimately show ?case using ws by (cases n) auto
qed

lemma wudev_extract_join:
  assumes "\<forall>w \<in> set ws. w \<noteq> [] \<and> CHR '','' \<notin> set w" "0 < pos" "pos \<le> length ws"
    and "ws ! (pos - 1) = show_nat n" "n < 2 ^ 63"
  shows "\<exists>r. wudev_extract (join (CHR '','') ws) pos s = Inr (int n, s\<lparr>tok := r\<rparr>)"
proof -
  obtain w vs m where ws: "ws = w # vs" "pos = Suc m" using assms(2,3) by (cases ws; cases pos) auto
  let ?s = "s\<lparr>tok := Some (join (CHR '','') vs)\<rparr>"
  have "wudev_tokens pos 0 (join (CHR '','') ws) None s =
    wudev_tokens m (Suc 0) (join (CHR '','') ws) (Some w) ?s"
    using ws assms(1) by (simp add: strtok_start_def strtok_join)
  moreover have "\<exists>r. wudev_tokens m (Suc 0) (join (CHR '','') ws) (Some w) ?s =
    Inr (if m = 0 then Some w else Some (vs ! (m - 1)), ?s\<lparr>tok := r\<rparr>)"
    by (rule wudev_tokens_join) (use assms(1,3) ws in auto)
  then obtain r where "wudev_tokens m (Suc 0) (join (CHR '','') ws) (Some w) ?s =
    Inr (if m = 0 then Some w else Some (vs ! (m - 1)), ?s\<lparr>tok := r\<rparr>)" ..
  moreover have "(if m = 0 then Some w else Some (vs ! (m - 1))) = Some (show_nat n)" 
    using assms(4) ws by (cases m) auto
  ultimately have "wudev_extract (join (CHR '','') ws) pos s = Inr (int n, s\<lparr>tok := r\<rparr>)"
    using assms(2,5) by (simp add: wudev_extract_def atol_show)
  then show ?thesis ..
qed

text \<open>A meter that has sent something, and no end of it, is read for ever.\<close>

lemma sys_read1_cases:
  assumes "fd < length (fdtab s)" "fdtab s ! fd = Some (path, c)" "\<forall>k. \<not> read_fails s k"
    and "sys_read1 (int fd) s = (n, x, s')"
  shows "n \<noteq> -1 \<and> fd < length (fdtab s') \<and> (\<forall>k. \<not> read_fails s' k) \<and>
    (case c of [] \<Rightarrow> x = None \<and> fdtab s' ! fd = Some (path, [])
     | y # ys \<Rightarrow> x = Some y \<and> fdtab s' ! fd = Some (path, ys))"
  using assms by (cases c) (auto simp: sys_read1_def fd_get_def heap_get_def)

lemma wudev_loop_silent:
  assumes "wudev_loop (int fd) term d buf i s = Some r"
    and "fd < length (fdtab s)" "fdtab s ! fd = Some (path, c)" "\<forall>k. \<not> read_fails s k"
    and "term \<notin> set c" "c \<noteq> [] \<or> d \<noteq> None" "d \<noteq> Some term" "i + length c < length buf"
  shows False
proof -
  let ?Q = "\<lambda>fd' tm d buf i s c. fd' = int fd \<and> tm = term \<and> fd < length (fdtab s) \<and>
      fdtab s ! fd = Some (path, c) \<and> (\<forall>k. \<not> read_fails s k) \<and> term \<notin> set c \<and>
      (c \<noteq> [] \<or> d \<noteq> None) \<and> d \<noteq> Some term \<and> i + length c < length buf"
  have "\<forall>c. \<not> ?Q (int fd) term d buf i s c"
  proof (rule wudev_loop.raw_induct
      [where P = "\<lambda>fd' tm d buf i s _. \<forall>c. \<not> ?Q fd' tm d buf i s c", OF _ assms(1)], intro allI notI)
    fix loop fd' tm d buf i s r c
    assume IH: "\<And>fd' tm d buf i s r. loop fd' tm d buf i s = Some r \<Longrightarrow> \<forall>c. \<not> ?Q fd' tm d buf i s c"
      and run: "(case sys_read1 fd' s of (n, x, s) \<Rightarrow>
        if n = -1 then Some (Inr ((-1, buf), s))
        else (case x of
              None \<Rightarrow>
                (case d of
                   None \<Rightarrow> Some (Inl Unspecified)
                 | Some e \<Rightarrow> if e \<noteq> tm then loop fd' tm d buf i s else Some (wu_finish buf i s))
            | Some e \<Rightarrow>
                (let keep = (e \<noteq> CHR 0x0D \<and> e \<noteq> CHR 0x0A) in
                 if keep \<and> length buf \<le> i then Some (Inl OutOfBounds)
                 else
                   (let buf = (if keep then buf[i := e] else buf); i = (if keep then Suc i else i) in
                    if e \<noteq> tm then loop fd' tm (Some e) buf i s
                    else Some (wu_finish buf i s))))) = Some r"
      and q: "?Q fd' tm d buf i s c"
    obtain n x s' where r: "sys_read1 (int fd) s = (n, x, s')" by (metis prod_cases3)
    have st: "n \<noteq> -1 \<and> fd < length (fdtab s') \<and> (\<forall>k. \<not> read_fails s' k) \<and>
      (case c of [] \<Rightarrow> x = None \<and> fdtab s' ! fd = Some (path, [])
       | y # ys \<Rightarrow> x = Some y \<and> fdtab s' ! fd = Some (path, ys))"
      using q r by (intro sys_read1_cases [of fd s]) auto
    show False
    proof (cases c)
      case Nil
      with q st obtain e where e: "d = Some e" "e \<noteq> term" "x = None" by auto
      with run q r st have "loop (int fd) term d buf i s' = Some r" by simp
      from IH [OF this] st Nil e q show False by auto
    next
      case (Cons y ys)
      with q st have y: "y \<noteq> term" "x = Some y" by auto
      let ?keep = "y \<noteq> CHR 0x0D \<and> y \<noteq> CHR 0x0A"
      from run q r st Cons y have "loop (int fd) term (Some y)
          (if ?keep then buf[i := y] else buf) (if ?keep then Suc i else i) s' = Some r"
        by (simp add: Let_def split: if_split_asm)
      from IH [OF this] st Cons y q show False by (auto split: if_splits)
    qed
  qed
  with assms show False by blast
qed

text \<open>
  C38: A read of the Watts Up meter (\<^verbatim>\<open>pwr_wudev_read\<close>) sends the request, collects the
  answer up to the semicolon without line ends, and takes voltage, current, power and energy from its
  fifth, sixth, fourth and seventh comma-separated field, in tenths, thousandths, tenths, and tenths
  of watt hours converted to joules; it returns 0 with the time of the clock after the last character. The request has been written once,
  and the answer up to the semicolon has been taken from the line; nothing else has changed but the position of
  \<^verbatim>\<open>strtok\<close>. A tick is a call of the operating system.
\<close>

theorem wu_reads_meter:
  assumes "heap_get (fds s) p = Inr f" "heap_get (devs s) (wf_dev f) = Inr (int fd)"
    and "fdtab s ! fd = Some (path, c @ CHR '';'' # rest)" "fd < length (fdtab s)"
    and "\<forall>k. \<not> read_fails s k" "\<forall>k. \<not> wr_fails s k"
    and "filter not_eol c @ '';'' = join (CHR '','') ws"
    and "\<forall>w \<in> set ws. w \<noteq> [] \<and> CHR '','' \<notin> set w"
    and "CHR '';'' \<notin> set c" "CHR 0x00 \<notin> set c" "length c \<le> 254"
    and "pos \<le> length ws" "ws ! (pos - 1) = show_nat n" "n < 2 ^ 63"
    and "(attr, pos, val) \<in>
      {(PWR_ATTR_VOLTAGE, 5, fdiv (f_of_int n) (fconst 10)),
       (PWR_ATTR_CURRENT, 6, fdiv (f_of_int n) (fconst 1000)),
       (PWR_ATTR_POWER, 4, fdiv (f_of_int n) (fconst 10)),
       (PWR_ATTR_ENERGY, 7, fmul (fdiv (f_of_int n) (fconst 10)) (fconst 3600))}"
  shows "\<exists>q. pwr_wudev_read (Some p) attr v len t s =
    Inr ((0, val, tv_nsec (clock s (ticks s + length c + 2))),
      s\<lparr>ticks := ticks s + length c + 3, written := written s @ [(path, wu_cmd)],
        fdtab := (fdtab s)[fd := Some (path, rest)], tok := q\<rparr>)"
proof -
  let ?s = "s\<lparr>ticks := Suc (ticks s), written := written s @ [(path, wu_cmd)]\<rparr>"
  let ?line = "filter not_eol c @ '';''"
  have w: "wudev_write (int fd) wu_cmd s = (0, ?s)"
    using assms(3,4,6) by (simp add: wudev_write_def sys_write_def fd_get_def heap_get_def wu_cmd_def)
  let ?s1 = "?s\<lparr>ticks := Suc (ticks ?s + length c), fdtab := (fdtab ?s)[fd := Some (path, rest)]\<rparr>"
  have "\<exists>tl. wudev_loop (int fd) (CHR '';'') None (replicate 256 (CHR 0x00)) 0 ?s =
    Some (Inr ((0, take 0 (replicate 256 (CHR 0x00)) @ filter not_eol c @ CHR '';'' # CHR 0x00 # tl), ?s1))"
    using assms(3-5,9,11) le_trans [OF length_filter_le assms(11), of not_eol]
    by (intro wudev_loop_line) (auto simp: not_eol_def)
  then obtain tl where r: "wudev_read (int fd) (replicate 256 (CHR 0x00)) (CHR '';'') ?s = Inr ((0, ?line @ CHR 0x00 # tl), ?s1)"
    by (auto simp: wudev_read_def)
  have "x \<noteq> CHR 0x00" if "x \<in> set ?line" for x using that assms(10) by auto
  then have l: "cstr (?line @ CHR 0x00 # tl) = ?line"
    unfolding cstr_def by (subst takeWhile_append2) auto
  obtain q where q: "wudev_extract ?line pos ?s1 = Inr (int n, ?s1\<lparr>tok := q\<rparr>)"
    using wudev_extract_join [OF assms(8) _ assms(12-14), of ?s1] assms(7,15) by auto
  then have "wu_value attr ?line v ?s1 = Inr (val, ?s1\<lparr>tok := q\<rparr>)"
    using assms(15) by (auto simp: wu_value_def)
  then show ?thesis
    using assms(1,2) w r l by (intro exI [of _ q]) (simp add: pwr_wudev_read_def pfd_get_def gettimeofday_def numeral_3_eq_3)
qed

theorem wu_reads_meter_witness:
  "\<exists>s'. pwr_wudev_read (Some 0) PWR_ATTR_POWER 0 8 0
      (demo_state (\<lambda>_. None) [\<lparr>wf_dev = 0\<rparr>]
         \<lparr>devs := [Some 0], fdtab := [Some (''tty'', ''#d,-,18,42,1200,0;'')]\<rparr>) =
    Inr ((0, fdiv (f_of_int 42) (fconst 10), tv_nsec (1, 19)), s') \<and> written s' = [(''tty'', wu_cmd)] \<and> fdtab s' = [Some (''tty'', [])]"
  using wu_reads_meter [of "demo_state (\<lambda>_. None) [\<lparr>wf_dev = 0\<rparr>]
         \<lparr>devs := [Some 0], fdtab := [Some (''tty'', ''#d,-,18,42,1200,0;'')]\<rparr>" 0 "\<lparr>wf_dev = 0\<rparr>" 0
      "''tty''" "''#d,-,18,42,1200,0''" "[]"
      "[''#d'', ''-'', ''18'', ''42'', ''1200'', ''0;'']" 4 42 PWR_ATTR_POWER "fdiv (f_of_int 42) (fconst 10)" 0 8 0]
  by (auto simp add: heap_get_def demo_state_def not_eol_def show_nat_42)

text \<open>
  C39: If the answer of the meter stops before its semicolon, \<^verbatim>\<open>pwr_wudev_read\<close> never
  returns; if nothing has arrived at the first read, it tests a character that was never set.
\<close>

theorem wu_waits_for_ever:
  assumes "heap_get (fds s) p = Inr f" "heap_get (devs s) (wf_dev f) = Inr (int fd)"
    and "fdtab s ! fd = Some (path, c)" "fd < length (fdtab s)"
    and "\<forall>k. \<not> read_fails s k" "\<forall>k. \<not> wr_fails s k"
    and "CHR '';'' \<notin> set c" "length c < 256"
  shows "pwr_wudev_read (Some p) attr v len t s = Inl (if c = [] then Unspecified else Diverges)"
proof -
  let ?s = "s\<lparr>ticks := Suc (ticks s), written := written s @ [(path, wu_cmd)]\<rparr>"
  have w: "wudev_write (int fd) wu_cmd s = (0, ?s)"
    using assms(3,4,6) by (simp add: wudev_write_def sys_write_def fd_get_def heap_get_def wu_cmd_def)
  have "wudev_read (int fd) (replicate 256 (CHR 0x00)) (CHR '';'') ?s =
    Inl (if c = [] then Unspecified else Diverges)"
  proof (cases "c = []")
    case True
    with assms(3-5) show ?thesis
      by (simp add: wudev_read_def wudev_loop.simps sys_read1_def fd_get_def heap_get_def)
  next
    case False
    then have "wudev_loop (int fd) (CHR '';'') None (replicate 256 (CHR 0x00)) 0 ?s = None"
      using wudev_loop_silent [of fd "CHR '';''" None "replicate 256 (CHR 0x00)" 0 ?s _ path c] assms(3-5,7,8)
      by (cases "wudev_loop (int fd) (CHR '';'') None (replicate 256 (CHR 0x00)) 0 ?s") auto
    with False show ?thesis by (simp add: wudev_read_def)
  qed
  then show ?thesis using assms(1,2) w by (simp add: pwr_wudev_read_def pfd_get_def)
qed

theorem wu_waits_for_ever_witness:
  "pwr_wudev_read (Some 0) PWR_ATTR_POWER 0 8 0
      (demo_state (\<lambda>_. None) [\<lparr>wf_dev = 0\<rparr>]
         \<lparr>devs := [Some 0], fdtab := [Some (''tty'', ''#d,-,18'')]\<rparr>) = Inl Diverges"
  using wu_waits_for_ever [of "demo_state (\<lambda>_. None) [\<lparr>wf_dev = 0\<rparr>]
         \<lparr>devs := [Some 0], fdtab := [Some (''tty'', ''#d,-,18'')]\<rparr>" 0 "\<lparr>wf_dev = 0\<rparr>" 0
      "''tty''" "''#d,-,18''" PWR_ATTR_POWER 0 8 0]
  by (simp add: heap_get_def demo_state_def)

section \<open>PowerInsight\<close>

lemma token_start:
  assumes "d = CHR ''.'' \<or> d = CHR '':''" "n < 2 ^ 31"
  shows "token_int (Inr (strtok_start {d} (show_nat n @ d # rest) s)) = Inr (Some (int n), s\<lparr>tok := Some rest\<rparr>)"
  unfolding token_int_def strtok_start_def strtok_number(1) [OF assms(1)]
  by (simp add: atoi_show_nat [OF assms(2)])

lemma token_next:
  assumes "d = CHR ''.'' \<or> d = CHR '':''" "n < 2 ^ 31" "tok s = Some (show_nat n @ d # rest)"
  shows "token_int (strtok_next {d} s) = Inr (Some (int n), s\<lparr>tok := Some rest\<rparr>)"
  unfolding token_int_def strtok_next_def assms(3) deref_simps rbind_Inr strtok_number(1) [OF assms(1)]
  by (simp add: atoi_show_nat [OF assms(2)])

lemma token_last:
  assumes "n < 2 ^ 31" "tok s = Some (show_nat n)"
  shows "token_int (strtok_next {CHR '':''} s) = Inr (Some (int n), s\<lparr>tok := Some []\<rparr>)"
  unfolding token_int_def strtok_next_def assms(2) deref_simps rbind_Inr
  using strtok_number(2) [of "CHR '':''" n] by (simp add: atoi_show_nat [OF assms(1)])

lemma nat_or_shift: "y < 2 ^ k \<Longrightarrow> push_bit k x OR y = x * 2 ^ k + (y :: nat)"
proof -
  assume "y < 2 ^ k"
  then have "y = take_bit k y" by (simp add: take_bit_nat_eq_self)
  moreover have "push_bit k x AND take_bit k y = 0" by (auto simp: bit_eq_iff bit_simps)
  ultimately have "push_bit k x AND y = 0" by simp
  then show ?thesis by (simp flip: disjunctive_add_eq_or add: push_bit_eq_mult)
qed

lemma parse_addr_first:
  assumes "k < 2 ^ 31"
  shows "parse_addr 3 saddr (show_nat k @ CHR ''.'' # rest) s =
    parse_addr 2 (saddr OR push_bit 24 (of_nat k)) (show_nat k @ CHR ''.'' # rest) (s\<lparr>tok := Some rest\<rparr>)"
  using token_start [of "CHR ''.''" k rest s] assms by (subst parse_addr.simps) (simp add: Let_def)

lemma parse_addr_middle:
  assumes "k < 2 ^ 31" "n = 1 \<or> n = 2" "tok s = Some (show_nat k @ CHR ''.'' # rest)"
  shows "parse_addr n saddr str s =
    parse_addr (n - 1) (saddr OR push_bit (8 * n) (of_nat k)) str (s\<lparr>tok := Some rest\<rparr>)"
  using token_next [of "CHR ''.''" k s rest] assms by (subst parse_addr.simps) (auto simp: Let_def)

lemma parse_addr_end:
  assumes "k < 2 ^ 31" "tok s = Some (show_nat k @ CHR '':'' # rest)"
  shows "parse_addr 0 saddr str s = Inr (Some (saddr OR of_nat k), s\<lparr>tok := Some rest\<rparr>)"
  using token_next [of "CHR '':''" k s rest] assms by (subst parse_addr.simps) (simp add: Let_def)

text \<open>
  \<^verbatim>\<open>piapidev_parse\<close> reads back the address and the port of the server: from
  the string of four numbers below 256 with points between them, a colon and a port, it gets the
  32-bit address with the first number in its top byte, and the port.
\<close>

theorem piapi_address_parsed:
  assumes "a < 256" "b < 256" "c < 256" "d < 256" "port < 2 ^ 31"
  shows "\<exists>s'. piapidev_parse (show_nat a @ CHR ''.'' # show_nat b @ CHR ''.'' # show_nat c @ CHR ''.'' #
      show_nat d @ CHR '':'' # show_nat port) s =
    Inr (Some (of_nat (a * 2 ^ 24 + b * 2 ^ 16 + c * 2 ^ 8 + d), of_nat port), s')"
proof -
  let ?x = "push_bit 24 (of_nat a) OR push_bit 16 (of_nat b) OR push_bit 8 (of_nat c) OR of_nat d :: u32"
  have "?x = of_nat (a * 2 ^ 24 + b * 2 ^ 16 + c * 2 ^ 8 + d)"
  proof -
    have "push_bit 8 c OR d = c * 2 ^ 8 + d" using assms nat_or_shift [of d 8 c] by simp
    moreover have "push_bit 16 b OR (c * 2 ^ 8 + d) = b * 2 ^ 16 + (c * 2 ^ 8 + d)"
      using assms by (intro nat_or_shift) simp
    moreover have "push_bit 24 a OR (b * 2 ^ 16 + (c * 2 ^ 8 + d)) = a * 2 ^ 24 + (b * 2 ^ 16 + (c * 2 ^ 8 + d))"
      using assms by (intro nat_or_shift) simp
    ultimately have "push_bit 24 a OR (push_bit 16 b OR (push_bit 8 c OR d)) =
      a * 2 ^ 24 + b * 2 ^ 16 + c * 2 ^ 8 + d" by (simp only: add.assoc)
    moreover have "?x = of_nat (push_bit 24 a OR (push_bit 16 b OR (push_bit 8 c OR d)))"
      by (simp only: of_nat_or_eq push_bit_of_nat or.assoc)
    ultimately show ?thesis by simp
  qed
  moreover define str where "str = show_nat a @ CHR ''.'' # show_nat b @ CHR ''.'' # show_nat c @ CHR ''.'' #
      show_nat d @ CHR '':'' # show_nat port"
  moreover have "parse_addr 3 0 str s = Inr (Some ?x, s\<lparr>tok := Some (show_nat port)\<rparr>)"
  proof -
    let ?r3 = "show_nat d @ CHR '':'' # show_nat port"
    let ?r2 = "show_nat c @ CHR ''.'' # ?r3"
    let ?r1 = "show_nat b @ CHR ''.'' # ?r2"
    let ?a = "0 OR push_bit 24 (of_nat a) :: u32"
    let ?ab = "?a OR push_bit 16 (of_nat b)"
    let ?abc = "?ab OR push_bit 8 (of_nat c)"
    have "parse_addr 3 0 str s = parse_addr 2 ?a str (s\<lparr>tok := Some ?r1\<rparr>)"
      unfolding str_def by (rule parse_addr_first) (use assms in simp)
    also have "\<dots> = parse_addr 1 ?ab str (s\<lparr>tok := Some ?r2\<rparr>)"
      using parse_addr_middle [of b 2 "s\<lparr>tok := Some ?r1\<rparr>" ?r2 ?a str] assms by simp
    also have "\<dots> = parse_addr 0 ?abc str (s\<lparr>tok := Some ?r3\<rparr>)"
      using parse_addr_middle [of c 1 "s\<lparr>tok := Some ?r2\<rparr>" ?r3 ?ab str] assms by simp
    also have "\<dots> = Inr (Some (?abc OR of_nat d), s\<lparr>tok := Some (show_nat port)\<rparr>)"
      using parse_addr_end [of d "s\<lparr>tok := Some ?r3\<rparr>"] assms by simp
    finally show ?thesis by (simp add: or.assoc)
  qed
  ultimately show ?thesis
    using token_last [of port "s\<lparr>tok := Some (show_nat port)\<rparr>"] assms(5)
    by (simp add: piapidev_parse_def)
qed

theorem piapi_address_parsed_witness:
  "\<forall>s. \<exists>s'. piapidev_parse (show_nat 10 @ CHR ''.'' # show_nat 0 @ CHR ''.'' # show_nat 0 @ CHR ''.'' #
      show_nat 2 @ CHR '':'' # show_nat 20201) s = Inr (Some (167772162, 20201), s')"
  using piapi_address_parsed [of 10 0 0 2 20201] by simp

text \<open>
  When \<^verbatim>\<open>piapi_counter\<close> fails, \<^verbatim>\<open>pwr_piapidev_read\<close> returns -1 and leaves
  \<^verbatim>\<open>piapidev_reading\<close> set: the next read of any descriptor waits for ever, unless a sample
  arrives all the same.
\<close>

theorem piapi_stuck_after_failure:
  assumes "pwr_piapidev_read lib p attr v 8 t s = Inr ((-1, v', t'), s')"
    and "\<forall>k. piapi_samples lib k = []"
  shows "piapidev_reading s' \<and> pwr_piapidev_read lib p' attr' w len u s' = Inl Diverges"
proof -
  have "deliver_until [] s = (if piapidev_reading s then Inl Diverges else Inr s)" for s
    by (simp add: deliver_until.simps)
  moreover from assms(1) have "\<exists>s1. piapi_request lib p s = Inr (-1, s1) \<and> s1 = s'"
    by (auto simp: pwr_piapidev_read_def piapi_request_def rbind_eq_Inr Let_def split_def split: if_split_asm)
  ultimately have "piapidev_reading s'"
    by (auto simp: piapi_request_def rbind_eq_Inr Let_def split: if_split_asm)
  then show ?thesis
    using assms(2) by (simp add: pwr_piapidev_read_def piapi_request_def piapi_wait_def deliver_until.simps)
qed

definition demo_sample :: sample where
  "demo_sample = \<lparr>sm_number = 0, sm_total = 0, sm_time_sec = 0, sm_time_usec = 0, sm_volts = 0,
     sm_amps = 0, sm_watts = 0, sm_min_watts = 0, sm_max_watts = 0, sm_energy = 0\<rparr>"

definition demo_papi :: papi_state where
  "demo_papi = pstate.extend (demo_state (\<lambda>_. None) [\<lparr>pa_dev = 0, pa_port = 1\<rparr>] \<lparr>devs := [Some ()]\<rparr>)
     (papi_state.fields demo_sample False)"

definition demo_piapi_lib :: piapi_lib where
  "demo_piapi_lib = \<lparr>piapi_init = \<lambda>_ _ _. 0, piapi_destroy = \<lambda>_. 0, piapi_counter = \<lambda>_ _. -1,
     piapi_samples = \<lambda>_. []\<rparr>"

theorem piapi_stuck_after_failure_witness:
  "\<exists>s'. pwr_piapidev_read demo_piapi_lib (Some 0) PWR_ATTR_POWER 0 8 0 demo_papi = Inr ((-1, 0, 0), s') \<and>
     pwr_piapidev_read demo_piapi_lib (Some 0) PWR_ATTR_POWER 0 8 0 s' = Inl Diverges"
proof -
  have "\<exists>s'. pwr_piapidev_read demo_piapi_lib (Some 0) PWR_ATTR_POWER 0 8 0 demo_papi = Inr ((-1, 0, 0), s')"
    by (simp add: pwr_piapidev_read_def piapi_request_def piapi_wait_def deliver_until.simps
      papi_get_def heap_get_def demo_papi_def demo_state_def demo_piapi_lib_def pstate.defs papi_state.defs Let_def)
  then obtain s' where s': "pwr_piapidev_read demo_piapi_lib (Some 0) PWR_ATTR_POWER 0 8 0 demo_papi =
    Inr ((-1, 0, 0), s')" ..
  then show ?thesis
    using piapi_stuck_after_failure [OF s', of "Some 0" PWR_ATTR_POWER 0 8 0]
    by (simp add: demo_piapi_lib_def)
qed
end
