(* ===== verification/MsrDev.thy ===== *)
theory MsrDev
  imports PluginBase
begin

text \<open>
  The plugins that read processor registers: Intel RAPL (\<^verbatim>\<open>pwr_rapldev.c\<close>) through
  \<^verbatim>\<open>/dev/cpu/N/msr\<close>, and AMD APM (\<^verbatim>\<open>pwr_apmdev.c\<close>) through the program
  \<^verbatim>\<open>setpci\<close>. What a register holds at each moment is an argument of the model.
\<close>

section \<open>/proc/cpuinfo\<close>

text \<open>
  One line of the scan both plugins make: the vendor, the family and the model. \<open>model\<close> is
  the variable the caller passed in, which keeps its value when no number can be read.
\<close>

definition cpuinfo_line ::
    "string \<Rightarrow> int \<Rightarrow> int list \<Rightarrow> string \<Rightarrow> int \<times> int \<times> string \<times> int option \<Rightarrow>
     (int \<times> int \<times> string \<times> int option) res" where
  "cpuinfo_line vendor_id family_ok models str st =
     (case st of (retval, model, vendor, family) \<Rightarrow>
      if strncmp_eq str ''vendor_id'' 8 then
        (let vendor = (case skip_words 2 str of
                         None \<Rightarrow> vendor
                       | Some r \<Rightarrow> (case scan_word r of None \<Rightarrow> vendor | Some (w, _) \<Rightarrow> w)) in
         Inr (if strncmp_eq vendor vendor_id 12 then retval else -1, model, vendor, family))
      else if strncmp_eq str ''cpu_family'' 10 then
        (let family = (case skip_words 3 str of
                         None \<Rightarrow> family
                       | Some r \<Rightarrow> (case scan_int r of None \<Rightarrow> family | Some k \<Rightarrow> Some k)) in
         case family of
           None \<Rightarrow> Inl Unspecified
         | Some k \<Rightarrow> Inr (if k \<noteq> family_ok then -1 else retval, model, vendor, family))
      else if strncmp_eq str ''model'' 5 then
        (let model = (case skip_words 2 str of
                        None \<Rightarrow> model
                      | Some r \<Rightarrow> (case scan_int r of None \<Rightarrow> model | Some k \<Rightarrow> k)) in
         Inr (if model \<in> set models then retval else -1, model, vendor, family))
      else Inr (retval, model, vendor, family))"

text \<open>The result and the model; without the file the variable is not set.\<close>

definition cpuinfo_identify ::
    "string \<Rightarrow> int \<Rightarrow> int list \<Rightarrow> int \<Rightarrow> 'b os_scheme \<Rightarrow> ((int \<times> int) \<times> 'b os_scheme) res" where
  "cpuinfo_identify vendor_id family_ok models model s =
     (case sys_open_rd ''/proc/cpuinfo'' s of (fd, s) \<Rightarrow>
      case fd_get fd s of
        None \<Rightarrow> Inr ((-1, model), s)
      | Some (_, text) \<Rightarrow>
          rbind (foldM (cpuinfo_line vendor_id family_ok models) (fgets_all 79 [] text) (0, -1, [], None))
            (\<lambda>(retval, model, _, _). Inr ((retval, model), sys_close fd s)))"

text \<open>\<^verbatim>\<open>strtok( initstr, ":" )\<close> and \<^verbatim>\<open>atoi\<close>: the core of both plugins.\<close>

definition parse_core :: "string \<Rightarrow> 'b os_scheme \<Rightarrow> (int option \<times> 'b os_scheme) res" where
  "parse_core initstr s =
     (case strtok_start {CHR '':''} initstr s of (t, s) \<Rightarrow>
      case t of None \<Rightarrow> Inr (None, s) | Some w \<Rightarrow> rbind (atoi w) (\<lambda>k. Inr (Some k, s)))"

section \<open>RAPL\<close>

definition CPU_MODEL_SANDY :: int where "CPU_MODEL_SANDY = 42"
definition CPU_MODEL_SANDY_EP :: int where "CPU_MODEL_SANDY_EP = 45"
definition CPU_MODEL_IVY :: int where "CPU_MODEL_IVY = 58"
definition CPU_MODEL_IVY_EP :: int where "CPU_MODEL_IVY_EP = 62"
definition CPU_MODEL_HASWELL :: int where "CPU_MODEL_HASWELL = 60"

lemmas cpu_models = CPU_MODEL_SANDY_def CPU_MODEL_SANDY_EP_def CPU_MODEL_IVY_def
  CPU_MODEL_IVY_EP_def CPU_MODEL_HASWELL_def

definition MSR_RAPL_POWER_UNIT :: nat where "MSR_RAPL_POWER_UNIT = 0x606"
definition MSR_POWER_LIMIT :: nat where "MSR_POWER_LIMIT = 0x610"
definition MSR_ENERGY_STATUS :: nat where "MSR_ENERGY_STATUS = 0x611"
definition MSR_PERF_STATUS :: nat where "MSR_PERF_STATUS = 0x613"
definition MSR_POWER_INFO :: nat where "MSR_POWER_INFO = 0x614"
definition MSR_PP0_ENERGY_STATUS :: nat where "MSR_PP0_ENERGY_STATUS = 0x639"
definition MSR_PP0_POLICY_STATUS :: nat where "MSR_PP0_POLICY_STATUS = 0x63a"
definition MSR_PP0_PERF_STATUS :: nat where "MSR_PP0_PERF_STATUS = 0x63b"
definition MSR_PP1_ENERGY_STATUS :: nat where "MSR_PP1_ENERGY_STATUS = 0x641"
definition MSR_PP1_POLICY_STATUS :: nat where "MSR_PP1_POLICY_STATUS = 0x642"
definition MSR_DRAM_ENERGY_STATUS :: nat where "MSR_DRAM_ENERGY_STATUS = 0x619"

text \<open>\<^verbatim>\<open>MSR( X, Y, Z )\<close> and \<^verbatim>\<open>MSR_BIT( X, Y )\<close> of a \<^verbatim>\<open>long long\<close>.\<close>

definition MSR :: "u64 \<Rightarrow> nat \<Rightarrow> u64 \<Rightarrow> u64" where
  "MSR x y z = signed_drop_bit y x AND z"

definition MSR_BIT :: "u64 \<Rightarrow> nat \<Rightarrow> bool" where
  "MSR_BIT x y = (x AND push_bit y 1 \<noteq> 0)"

text \<open>\<^verbatim>\<open>INTEL_LAYER_DRAM\<close> has the value of \<^verbatim>\<open>INTEL_LAYER_PP1\<close>.\<close>

datatype layer_t = INTEL_LAYER_PKG | INTEL_LAYER_PP0 | INTEL_LAYER_PP1

abbreviation INTEL_LAYER_DRAM :: layer_t where "INTEL_LAYER_DRAM \<equiv> INTEL_LAYER_PP1"

record units_t =
  u_power :: u64
  u_energy :: u64
  u_time :: u64

record power_t =
  p_thermal :: u64
  p_minimum :: u64
  p_maximum :: u64
  p_window :: u64

record limit_t =
  l_power1 :: u64
  l_window1 :: u64
  l_enabled1 :: bool
  l_clamped1 :: bool
  l_power2 :: u64
  l_window2 :: u64
  l_enabled2 :: bool
  l_clamped2 :: bool

record rapldev =
  rd_fd :: int
  rd_cpu_model :: int
  rd_units :: units_t
  rd_power :: power_t
  rd_limit :: limit_t

record raplfd =
  rf_dev :: addr
  rf_layer :: "layer_t option"

type_synonym rapl_state = "(rapldev, raplfd) pstate"

text \<open>A register of the file behind a descriptor: the number of calls so far, the path and the offset.\<close>

type_synonym msr_hw = "nat \<Rightarrow> string \<Rightarrow> nat \<Rightarrow> u64 option"

definition rapldev_parse_init :: "string \<Rightarrow> rapl_state \<Rightarrow> (int option \<times> rapl_state) res" where
  "rapldev_parse_init initstr s = parse_core initstr s"

text \<open>\<^verbatim>\<open>strtok( NULL, ":" )\<close>: the next token of the string given last, not of \<open>openstr\<close>.\<close>

definition rapldev_parse_open :: "string \<Rightarrow> rapl_state \<Rightarrow> (layer_t option \<times> rapl_state) res" where
  "rapldev_parse_open openstr s =
     rbind (strtok_next {CHR '':''} s) (\<lambda>(t, s).
     case t of
       None \<Rightarrow> Inr (None, s)
     | Some w \<Rightarrow>
         Inr (if w = ''pkg'' then Some INTEL_LAYER_PKG
              else if w = ''pp0'' then Some INTEL_LAYER_PP0
              else if w = ''pp1'' then Some INTEL_LAYER_PP1
              else if w = ''dram'' then Some INTEL_LAYER_DRAM
              else None, s))"

definition rapldev_identify :: "int \<Rightarrow> rapl_state \<Rightarrow> ((int \<times> int) \<times> rapl_state) res" where
  "rapldev_identify model s =
     cpuinfo_identify ''GenuineIntel'' 6
       [CPU_MODEL_SANDY, CPU_MODEL_SANDY_EP, CPU_MODEL_IVY, CPU_MODEL_IVY_EP, CPU_MODEL_HASWELL] model s"

definition rapldev_read :: "msr_hw \<Rightarrow> int \<Rightarrow> nat \<Rightarrow> 'b os_scheme \<Rightarrow> u64 option \<times> 'b os_scheme" where
  "rapldev_read hw fd offset s =
     (case fd_get fd s of
        None \<Rightarrow> (None, s\<lparr>ticks := Suc (ticks s)\<rparr>)
      | Some (path, _) \<Rightarrow> (hw (ticks s) path offset, s\<lparr>ticks := Suc (ticks s)\<rparr>))"

text \<open>\<^verbatim>\<open>(double)msr\<close> of a \<^verbatim>\<open>long long\<close>.\<close>

definition msr_double :: "u64 \<Rightarrow> u64" where
  "msr_double m = f_of_int (sint m)"

definition rapl_has_time :: "int \<Rightarrow> bool" where
  "rapl_has_time cpu_model \<longleftrightarrow> cpu_model = CPU_MODEL_SANDY_EP \<or> cpu_model = CPU_MODEL_IVY_EP"

definition rapl_has_pp1 :: "int \<Rightarrow> bool" where
  "rapl_has_pp1 cpu_model \<longleftrightarrow>
     cpu_model = CPU_MODEL_SANDY \<or> cpu_model = CPU_MODEL_IVY \<or> cpu_model = CPU_MODEL_HASWELL"

text \<open>The time a layer was throttled, for the processors that count it.\<close>

definition gather_time ::
    "msr_hw \<Rightarrow> int \<Rightarrow> int \<Rightarrow> nat \<Rightarrow> units_t \<Rightarrow> u64 \<times> u64 \<times> int \<Rightarrow> 'b os_scheme \<Rightarrow>
     (int \<times> u64 \<times> u64 \<times> int) \<times> 'b os_scheme" where
  "gather_time hw fd cpu_model reg units st s =
     (case st of (energy, time, policy) \<Rightarrow>
      if rapl_has_time cpu_model
      then (case rapldev_read hw fd reg s of (m, s) \<Rightarrow>
            case m of
              None \<Rightarrow> ((-1, energy, time, policy), s)
            | Some m \<Rightarrow> ((0, energy, fmul (msr_double m) (u_time units), policy), s))
      else ((0, energy, time, policy), s))"

definition rapldev_gather ::
    "msr_hw \<Rightarrow> int \<Rightarrow> int \<Rightarrow> layer_t \<Rightarrow> units_t \<Rightarrow> u64 \<times> u64 \<times> int \<Rightarrow> 'b os_scheme \<Rightarrow>
     (int \<times> u64 \<times> u64 \<times> int) \<times> 'b os_scheme" where
  "rapldev_gather hw fd cpu_model layer units st s =
     (case st of (energy, time, policy) \<Rightarrow>
      case layer of
        INTEL_LAYER_PKG \<Rightarrow>
          (case rapldev_read hw fd MSR_ENERGY_STATUS s of (m, s) \<Rightarrow>
           case m of
             None \<Rightarrow> ((-1, energy, time, policy), s)
           | Some m \<Rightarrow>
               gather_time hw fd cpu_model MSR_PERF_STATUS units
                 (fmul (msr_double m) (u_energy units), time, policy) s)
      | INTEL_LAYER_PP0 \<Rightarrow>
          (case rapldev_read hw fd MSR_PP0_ENERGY_STATUS s of (m, s) \<Rightarrow>
           case m of
             None \<Rightarrow> ((-1, energy, time, policy), s)
           | Some m \<Rightarrow>
               (let energy = fmul (msr_double m) (u_energy units) in
                case rapldev_read hw fd MSR_PP0_POLICY_STATUS s of (m, s) \<Rightarrow>
                case m of
                  None \<Rightarrow> ((-1, energy, time, policy), s)
                | Some m \<Rightarrow>
                    gather_time hw fd cpu_model MSR_PP0_PERF_STATUS units
                      (energy, time, sint (MSR m 0 0x1f)) s))
      | INTEL_LAYER_PP1 \<Rightarrow>
          if rapl_has_pp1 cpu_model then
            (case rapldev_read hw fd MSR_PP1_ENERGY_STATUS s of (m, s) \<Rightarrow>
             case m of
               None \<Rightarrow> ((-1, energy, time, policy), s)
             | Some m \<Rightarrow>
                 (let energy = fmul (msr_double m) (u_energy units) in
                  case rapldev_read hw fd MSR_PP1_POLICY_STATUS s of (m, s) \<Rightarrow>
                  case m of
                    None \<Rightarrow> ((-1, energy, time, policy), s)
                  | Some m \<Rightarrow> ((0, energy, time, sint (MSR m 0 0x1f)), s)))
          else
            (case rapldev_read hw fd MSR_DRAM_ENERGY_STATUS s of (m, s) \<Rightarrow>
             case m of
               None \<Rightarrow> ((-1, energy, time, policy), s)
             | Some m \<Rightarrow> ((0, fmul (msr_double m) (u_energy units), time, policy), s)))"

text \<open>\<^verbatim>\<open>pow( 0.5, n )\<close> for the numbers of halvings a unit field can hold: exact.\<close>

definition pow_half :: "nat \<Rightarrow> u64" where
  "pow_half n = fround False 1 (- int n)"

definition units_of :: "u64 \<Rightarrow> units_t" where
  "units_of msr =
     \<lparr>u_power = pow_half (unat (MSR msr 0 0xf)),
      u_energy = pow_half (unat (MSR msr 8 0x1f)),
      u_time = pow_half (unat (MSR msr 16 0xf))\<rparr>"

definition power_of :: "units_t \<Rightarrow> u64 \<Rightarrow> power_t" where
  "power_of u msr =
     \<lparr>p_thermal = fmul (u_power u) (msr_double (MSR msr 0 0x7fff)),
      p_minimum = fmul (u_power u) (msr_double (MSR msr 16 0x7fff)),
      p_maximum = fmul (u_power u) (msr_double (MSR msr 32 0x7fff)),
      p_window = fmul (u_time u) (msr_double (MSR msr 48 0x7fff))\<rparr>"

definition limit_of :: "units_t \<Rightarrow> u64 \<Rightarrow> limit_t" where
  "limit_of u msr =
     \<lparr>l_power1 = fmul (u_power u) (msr_double (MSR msr 0 0x7fff)),
      l_window1 = fmul (u_time u) (msr_double (MSR msr 17 0x007f)),
      l_enabled1 = MSR_BIT msr 15, l_clamped1 = MSR_BIT msr 16,
      l_power2 = fmul (u_power u) (msr_double (MSR msr 32 0x7fff)),
      l_window2 = fmul (u_time u) (msr_double (MSR msr 49 0x007f)),
      l_enabled2 = MSR_BIT msr 47, l_clamped2 = MSR_BIT msr 48\<rparr>"

definition rapldev0 :: rapldev where
  "rapldev0 =
     \<lparr>rd_fd = 0, rd_cpu_model = 0, rd_units = \<lparr>u_power = 0, u_energy = 0, u_time = 0\<rparr>,
      rd_power = \<lparr>p_thermal = 0, p_minimum = 0, p_maximum = 0, p_window = 0\<rparr>,
      rd_limit = \<lparr>l_power1 = 0, l_window1 = 0, l_enabled1 = False, l_clamped1 = False,
                  l_power2 = 0, l_window2 = 0, l_enabled2 = False, l_clamped2 = False\<rparr>\<rparr>"

definition dev_upd :: "addr \<Rightarrow> ('d \<Rightarrow> 'd) \<Rightarrow> ('d, 'f) pstate \<Rightarrow> ('d, 'f) pstate res" where
  "dev_upd d f s =
     rbind (heap_get (devs s) d) (\<lambda>x.
     rbind (heap_set d (f x) (devs s)) (\<lambda>h. Inr (s\<lparr>devs := h\<rparr>)))"

definition msr_path :: "int \<Rightarrow> string" where
  "msr_path core = ''/dev/cpu/'' @ show_int core @ ''/msr''"

text \<open>
  \<^verbatim>\<open>pwr_rapldev_init\<close> after the file has been opened: the units, the power range and
  the limits. Each failing read gives up with a null pointer.
\<close>

definition rapl_setup :: "msr_hw \<Rightarrow> addr \<Rightarrow> int \<Rightarrow> rapl_state \<Rightarrow> (addr option \<times> rapl_state) res" where
  "rapl_setup hw d fd s =
     (case rapldev_read hw fd MSR_RAPL_POWER_UNIT s of (m, s) \<Rightarrow>
      case m of
        None \<Rightarrow> Inr (None, s)
      | Some m \<Rightarrow>
          (let u = units_of m in
           rbind (dev_upd d (\<lambda>x. x\<lparr>rd_units := u\<rparr>) s) (\<lambda>s.
           case rapldev_read hw fd MSR_POWER_INFO s of (m, s) \<Rightarrow>
           case m of
             None \<Rightarrow> Inr (None, s)
           | Some m \<Rightarrow>
               rbind (dev_upd d (\<lambda>x. x\<lparr>rd_power := power_of u m\<rparr>) s) (\<lambda>s.
               case rapldev_read hw fd MSR_POWER_LIMIT s of (m, s) \<Rightarrow>
               case m of
                 None \<Rightarrow> Inr (None, s)
               | Some m \<Rightarrow>
                   rbind (dev_upd d (\<lambda>x. x\<lparr>rd_limit := limit_of u m\<rparr>) s) (\<lambda>s. Inr (Some d, s))))))"

definition pwr_rapldev_init :: "msr_hw \<Rightarrow> string \<Rightarrow> rapl_state \<Rightarrow> (addr option \<times> rapl_state) res" where
  "pwr_rapldev_init hw initstr s =
     (case dev_new rapldev0 s of (d, s) \<Rightarrow>
      rbind (rapldev_parse_init initstr s) (\<lambda>(core, s).
      case core of
        None \<Rightarrow> Inr (None, s)
      | Some core \<Rightarrow>
          rbind (rapldev_identify 0 s) (\<lambda>((r, model), s).
          rbind (dev_upd d (\<lambda>x. x\<lparr>rd_cpu_model := model\<rparr>) s) (\<lambda>s.
          if r < 0 then Inr (None, s)
          else
            (case sys_open_rd (msr_path core) s of (fd, s) \<Rightarrow>
             rbind (dev_upd d (\<lambda>x. x\<lparr>rd_fd := fd\<rparr>) s) (\<lambda>s.
             if fd < 0 then Inr (None, s) else rapl_setup hw d fd s))))))"

definition pwr_rapldev_final :: "addr \<Rightarrow> rapl_state \<Rightarrow> (int \<times> rapl_state) res" where
  "pwr_rapldev_final d s =
     rbind (heap_get (devs s) d) (\<lambda>x.
     rbind (dev_final d (sys_close (rd_fd x) s)) (\<lambda>s. Inr (0, s)))"

definition pwr_rapldev_open :: "addr \<Rightarrow> string \<Rightarrow> rapl_state \<Rightarrow> (addr option \<times> rapl_state) res" where
  "pwr_rapldev_open d openstr s =
     (case pfd_new \<lparr>rf_dev = d, rf_layer = None\<rparr> s of (p, s) \<Rightarrow>
      rbind (rapldev_parse_open openstr s) (\<lambda>(l, s).
      case l of
        None \<Rightarrow> Inr (None, s)
      | Some l \<Rightarrow>
          rbind (pfd_set (Some p) \<lparr>rf_dev = d, rf_layer = Some l\<rparr> s) (\<lambda>s. Inr (Some p, s))))"

definition pwr_rapldev_close :: "addr option \<Rightarrow> rapl_state \<Rightarrow> (int \<times> rapl_state) res" where
  "pwr_rapldev_close p s = pfd_close p s"

text \<open>
  \<^verbatim>\<open>(unsigned int)time*1000000000ULL + (time-(unsigned int)time)*1000000000ULL\<close>: the sum is
  one of doubles. A conversion outside the range of its type is undefined.
\<close>

definition f_to_word :: "nat \<Rightarrow> u64 \<Rightarrow> int res" where
  "f_to_word w x =
     (case f_trunc x of
        None \<Rightarrow> Inl Unspecified
      | Some k \<Rightarrow> if 0 \<le> k \<and> k < 2 ^ w then Inr k else Inl Unspecified)"

definition rapl_nsec :: "u64 \<Rightarrow> u64 res" where
  "rapl_nsec time =
     rbind (f_to_word 32 time) (\<lambda>k.
     rbind (f_to_word 64
              (fadd (f_of_int (k * 1000000000))
                    (fmul (fsub time (f_of_int k)) (f_of_int 1000000000)))) (\<lambda>n.
     Inr (word_of_int n)))"

definition pwr_rapldev_read :: "msr_hw \<Rightarrow> addr option \<Rightarrow> rapl_state read_op" where
  "pwr_rapldev_read hw p attr v len t s =
     (if len \<noteq> 8 then Inr ((-1, v, t), s)
      else
        rbind (pfd_get p s) (\<lambda>f.
        rbind (heap_get (devs s) (rf_dev f)) (\<lambda>d.
        rbind (case rf_layer f of None \<Rightarrow> Inl Unspecified | Some l \<Rightarrow> Inr l) (\<lambda>l.
        case rapldev_gather hw (rd_fd d) (rd_cpu_model d) l (rd_units d) (fzero, fzero, 0) s of
          ((r, energy, time, policy), s) \<Rightarrow>
        if r < 0 then Inr ((-1, v, t), s)
        else
          rbind (rapl_nsec time) (\<lambda>t.
          Inr ((0, if attr = PWR_ATTR_ENERGY then energy else v, t), s))))))"

definition pwr_rapldev_write :: "addr option \<Rightarrow> rapl_state write_op" where
  "pwr_rapldev_write p attr v len s = Inr ((0, v), s)"

definition pwr_rapldev_readv ::
    "msr_hw \<Rightarrow> addr option \<Rightarrow> u32 \<Rightarrow> PWR_AttrName list \<Rightarrow> u64 list \<Rightarrow> u64 list \<Rightarrow> int list \<Rightarrow> rapl_state \<Rightarrow>
     ((int \<times> u64 list \<times> u64 list \<times> int list) \<times> rapl_state) res" where
  "pwr_rapldev_readv hw p = readv_of (pwr_rapldev_read hw p)"

definition pwr_rapldev_writev ::
    "addr option \<Rightarrow> u32 \<Rightarrow> PWR_AttrName list \<Rightarrow> u64 list \<Rightarrow> int list \<Rightarrow> rapl_state \<Rightarrow>
     ((int \<times> u64 list \<times> int list) \<times> rapl_state) res" where
  "pwr_rapldev_writev p = writev_of (pwr_rapldev_write p)"

definition pwr_rapldev_time ::
    "msr_hw \<Rightarrow> addr option \<Rightarrow> u64 \<Rightarrow> u64 \<Rightarrow> rapl_state \<Rightarrow> ((int \<times> u64) \<times> rapl_state) res" where
  "pwr_rapldev_time hw p junk_v t s =
     rbind (pwr_rapldev_read hw p PWR_ATTR_POWER junk_v 8 t s) (\<lambda>((r, _, t), s). Inr ((r, t), s))"

definition pwr_rapldev_clear :: "addr option \<Rightarrow> int" where
  "pwr_rapldev_clear p = 0"

section \<open>APM\<close>

text \<open>\<^verbatim>\<open>MSR( X, Y, Z )\<close> and \<^verbatim>\<open>LMSR( X, Y, Z )\<close> of this plugin, on \<^verbatim>\<open>unsigned long\<close>.\<close>

definition AMSR :: "u64 \<Rightarrow> u64 \<Rightarrow> nat \<Rightarrow> u64" where
  "AMSR x y z = drop_bit z (x AND y)"

definition LMSR :: "u64 \<Rightarrow> u64 \<Rightarrow> nat \<Rightarrow> u64" where
  "LMSR x y z = push_bit z (x AND y)"

definition APM_NODE_MAX :: nat where "APM_NODE_MAX = 8"

record node_t =
  n_number :: nat
  n_tdp_to_watt :: u64
  n_run_avg_range :: u64
  n_avg_divide_by :: u64
  n_proc_tdp :: u64

record apmdev =
  ad_cpu_model :: int
  ad_node_count :: nat
  ad_node :: "node_t list"
  ad_core :: nat

record apmfd = af_dev :: addr

type_synonym apm_state = "(apmdev, apmfd) pstate"

text \<open>The first line \<^verbatim>\<open>setpci\<close> prints for a command, if it prints one.\<close>

type_synonym setpci = "nat \<Rightarrow> string \<Rightarrow> string option"

definition apmdev_parse :: "string \<Rightarrow> apm_state \<Rightarrow> (int option \<times> apm_state) res" where
  "apmdev_parse initstr s = parse_core initstr s"

definition apmdev_identify :: "int \<Rightarrow> apm_state \<Rightarrow> ((int \<times> int) \<times> apm_state) res" where
  "apmdev_identify model s = cpuinfo_identify ''AuthenticAMD'' 21 [1, 16, 48] model s"

definition setpci_cmd :: "nat \<Rightarrow> nat \<Rightarrow> nat \<Rightarrow> string" where
  "setpci_cmd node reg offset =
     ''setpci -f -s 0:'' @ show_hex (node + 0x18) @ ''.'' @ show_hex reg @ '' 0x'' @ show_hex offset @ ''.l 2>&1''"

text \<open>The variable for the register is \<open>None\<close> while it has not been set.\<close>

definition apmdev_read ::
    "setpci \<Rightarrow> nat \<Rightarrow> nat \<Rightarrow> nat \<Rightarrow> u64 option \<Rightarrow> 'b os_scheme \<Rightarrow> (int \<times> u64 option) \<times> 'b os_scheme" where
  "apmdev_read hw node reg offset msr s =
     (case hw (ticks s) (setpci_cmd node reg offset) of
        None \<Rightarrow> ((-1, msr), s\<lparr>ticks := Suc (ticks s)\<rparr>)
      | Some line \<Rightarrow>
          ((0, case scan_hex line of None \<Rightarrow> msr | Some n \<Rightarrow> Some (of_nat n)), s\<lparr>ticks := Suc (ticks s)\<rparr>))"

definition msr_set :: "u64 option \<Rightarrow> u64 res" where
  "msr_set m = (case m of None \<Rightarrow> Inl Unspecified | Some x \<Rightarrow> Inr x)"

definition run_avg_acc_cap :: "u64 \<Rightarrow> u64" where
  "run_avg_acc_cap msr =
     (let cap = AMSR msr 0x03ffffff 4 in
      if 0x00200000 \<le> cap then - ((NOT (cap AND 0x001fffff) AND 0x001fffff) + 1) else cap)"

definition apmdev_gather :: "setpci \<Rightarrow> node_t \<Rightarrow> u64 \<Rightarrow> 'b os_scheme \<Rightarrow> ((int \<times> u64) \<times> 'b os_scheme) res" where
  "apmdev_gather hw node pw s =
     (case apmdev_read hw (n_number node) 0x5 0xe8 None s of ((r, m1), s) \<Rightarrow>
      if r < 0 then Inr ((-1, pw), s)
      else
        rbind (msr_set m1) (\<lambda>msr.
        let limit = f_of_int (uint (AMSR msr 0x1fffffff 16)) in
        case apmdev_read hw (n_number node) 0x5 0xe0 m1 s of ((r, m2), s) \<Rightarrow>
        if r < 0 then Inr ((-1, pw), s)
        else
          rbind (msr_set m2) (\<lambda>msr.
          Inr ((0, fmul (fsub limit (fdiv (f_of_int (uint (run_avg_acc_cap msr))) (n_avg_divide_by node)))
                     (n_tdp_to_watt node)), s))))"

definition node0 :: node_t where
  "node0 = \<lparr>n_number = 0, n_tdp_to_watt = 0, n_run_avg_range = 0, n_avg_divide_by = 0, n_proc_tdp = 0\<rparr>"

definition apmdev0 :: apmdev where
  "apmdev0 = \<lparr>ad_cpu_model = 0, ad_node_count = 0, ad_node = replicate APM_NODE_MAX node0, ad_core = 0\<rparr>"

definition apm_add_node :: "nat \<Rightarrow> node_t list \<times> nat \<Rightarrow> (node_t list \<times> nat) res" where
  "apm_add_node i nc =
     (case nc of (nodes, count) \<Rightarrow>
      rbind (aread nodes count) (\<lambda>nd.
      rbind (awrite nodes count (nd\<lparr>n_number := i\<rparr>)) (\<lambda>nodes. Inr (nodes, Suc count))))"

text \<open>
  The scan for nodes. \<open>None\<close> is the return of a null pointer in the middle of it; the variable
  for the register lives across the iterations.
\<close>

fun apm_scan ::
    "setpci \<Rightarrow> nat list \<Rightarrow> u64 option \<Rightarrow> node_t list \<times> nat \<Rightarrow> 'b os_scheme \<Rightarrow>
     (((node_t list \<times> nat) \<times> u64 option) option \<times> 'b os_scheme) res" where
  "apm_scan hw [] m nc s = Inr (Some (nc, m), s)"
| "apm_scan hw (i # is) m nc s =
     (case apmdev_read hw i 0x0 0x0 m s of ((r, m), s) \<Rightarrow>
      if r < 0 then apm_scan hw is m nc s
      else
        rbind (msr_set m) (\<lambda>x.
        if AMSR x 0xffff 0 = 0x1022 then
          (case apmdev_read hw i 0x3 0xe8 m s of ((r, m), s) \<Rightarrow>
           if r < 0 then Inr (None, s)
           else
             rbind (msr_set m) (\<lambda>x.
             if MSR_BIT x 29 \<and> (MSR_BIT x 30 \<or> MSR_BIT x 31) then apm_scan hw is m nc s
             else rbind (apm_add_node i nc) (\<lambda>nc. apm_scan hw is m nc s)))
        else apm_scan hw is m nc s))"

text \<open>\<^verbatim>\<open>pow( 2.0, n )\<close>.\<close>

definition pow_two :: "nat \<Rightarrow> u64" where
  "pow_two n = fround False 1 (int n)"

definition tdp_to_watt :: "u64 \<Rightarrow> u64" where
  "tdp_to_watt msr =
     fdiv (f_of_int (uint (LMSR msr 0x03ff 6 OR AMSR msr 0xfc00 10))) (f_of_int 65536)"

text \<open>The three registers of a node; \<open>None\<close> when a read fails.\<close>

definition apm_node_regs ::
    "setpci \<Rightarrow> node_t \<Rightarrow> u64 option \<Rightarrow> 'b os_scheme \<Rightarrow> ((node_t \<times> u64 option) option \<times> 'b os_scheme) res" where
  "apm_node_regs hw nd m s =
     (case apmdev_read hw (n_number nd) 0x5 0xe8 m s of ((r, m), s) \<Rightarrow>
      if r < 0 then Inr (None, s)
      else rbind (msr_set m) (\<lambda>x1.
        case apmdev_read hw (n_number nd) 0x5 0xe0 m s of ((r, m), s) \<Rightarrow>
        if r < 0 then Inr (None, s)
        else rbind (msr_set m) (\<lambda>x2.
          case apmdev_read hw (n_number nd) 0x4 0x1b8 m s of ((r, m), s) \<Rightarrow>
          if r < 0 then Inr (None, s)
          else rbind (msr_set m) (\<lambda>x3.
            Inr (Some (nd\<lparr>n_tdp_to_watt := tdp_to_watt x1,
                          n_run_avg_range := f_of_int (uint (AMSR x2 0x000f 0)),
                          n_avg_divide_by := pow_two (unat (AMSR x2 0x000f 0) + 1),
                          n_proc_tdp := f_of_int (uint (AMSR x3 0xffff 0))\<rparr>, m), s)))))"

fun apm_setup ::
    "setpci \<Rightarrow> nat \<Rightarrow> nat \<Rightarrow> u64 option \<Rightarrow> node_t list \<Rightarrow> 'b os_scheme \<Rightarrow>
     (node_t list option \<times> 'b os_scheme) res" where
  "apm_setup hw 0 i m nodes s = Inr (Some nodes, s)"
| "apm_setup hw (Suc n) i m nodes s =
     rbind (aread nodes i) (\<lambda>nd.
     rbind (apm_node_regs hw nd m s) (\<lambda>(x, s).
     case x of
       None \<Rightarrow> Inr (None, s)
     | Some (nd, m) \<Rightarrow> rbind (awrite nodes i nd) (\<lambda>nodes. apm_setup hw n (Suc i) m nodes s)))"

text \<open>The core the string names is parsed into a local variable and not kept.\<close>

definition pwr_apmdev_init :: "setpci \<Rightarrow> string \<Rightarrow> apm_state \<Rightarrow> (addr option \<times> apm_state) res" where
  "pwr_apmdev_init hw initstr s =
     (case dev_new apmdev0 s of (d, s) \<Rightarrow>
      rbind (apmdev_parse initstr s) (\<lambda>(core, s).
      case core of
        None \<Rightarrow> Inr (None, s)
      | Some _ \<Rightarrow>
          rbind (apmdev_identify 0 s) (\<lambda>((r, model), s).
          if r < 0 then Inr (None, s)
          else
            rbind (apm_scan hw [0..<APM_NODE_MAX] None (ad_node apmdev0, 0) s) (\<lambda>(x, s).
            case x of
              None \<Rightarrow> Inr (None, s)
            | Some ((nodes, count), m) \<Rightarrow>
                rbind (apm_setup hw count 0 m nodes s) (\<lambda>(y, s).
                case y of
                  None \<Rightarrow> Inr (None, s)
                | Some nodes \<Rightarrow>
                    rbind (dev_upd d (\<lambda>x. x\<lparr>ad_cpu_model := model, ad_node_count := count, ad_node := nodes\<rparr>) s)
                      (\<lambda>s. Inr (Some d, s)))))))"

definition pwr_apmdev_final :: "addr \<Rightarrow> apm_state \<Rightarrow> (int \<times> apm_state) res" where
  "pwr_apmdev_final d s = rbind (dev_final d s) (\<lambda>s. Inr (0, s))"

definition pwr_apmdev_open :: "addr \<Rightarrow> apm_state \<Rightarrow> addr option \<times> apm_state" where
  "pwr_apmdev_open d s = (case pfd_new \<lparr>af_dev = d\<rparr> s of (p, s) \<Rightarrow> (Some p, s))"

definition pwr_apmdev_close :: "addr option \<Rightarrow> apm_state \<Rightarrow> (int \<times> apm_state) res" where
  "pwr_apmdev_close p s = pfd_close p s"

definition pwr_apmdev_read :: "setpci \<Rightarrow> addr option \<Rightarrow> apm_state read_op" where
  "pwr_apmdev_read hw p attr v len t s =
     (if len \<noteq> 8 then Inr ((-1, v, t), s)
      else
        rbind (pfd_get p s) (\<lambda>f.
        rbind (heap_get (devs s) (af_dev f)) (\<lambda>d.
        rbind (aread (ad_node d) (ad_core d)) (\<lambda>nd.
        rbind (apmdev_gather hw nd fzero s) (\<lambda>((r, pw), s).
        if r < 0 then Inr ((-1, v, t), s)
        else
          case gettimeofday s of (tv, s) \<Rightarrow>
          Inr ((0, if attr = PWR_ATTR_POWER then pw else v, tv_nsec tv), s))))))"

definition pwr_apmdev_write :: "addr option \<Rightarrow> apm_state write_op" where
  "pwr_apmdev_write p attr v len s = Inr ((0, v), s)"

definition pwr_apmdev_readv ::
    "setpci \<Rightarrow> addr option \<Rightarrow> u32 \<Rightarrow> PWR_AttrName list \<Rightarrow> u64 list \<Rightarrow> u64 list \<Rightarrow> int list \<Rightarrow> apm_state \<Rightarrow>
     ((int \<times> u64 list \<times> u64 list \<times> int list) \<times> apm_state) res" where
  "pwr_apmdev_readv hw p = readv_of (pwr_apmdev_read hw p)"

definition pwr_apmdev_writev ::
    "addr option \<Rightarrow> u32 \<Rightarrow> PWR_AttrName list \<Rightarrow> u64 list \<Rightarrow> int list \<Rightarrow> apm_state \<Rightarrow>
     ((int \<times> u64 list \<times> int list) \<times> apm_state) res" where
  "pwr_apmdev_writev p = writev_of (pwr_apmdev_write p)"

definition pwr_apmdev_time ::
    "setpci \<Rightarrow> addr option \<Rightarrow> u64 \<Rightarrow> u64 \<Rightarrow> apm_state \<Rightarrow> ((int \<times> u64) \<times> apm_state) res" where
  "pwr_apmdev_time hw p junk_v t s =
     rbind (pwr_apmdev_read hw p PWR_ATTR_POWER junk_v 8 t s) (\<lambda>((r, _, t), s). Inr ((r, t), s))"

definition pwr_apmdev_clear :: "addr option \<Rightarrow> int" where
  "pwr_apmdev_clear p = 0"

section \<open>The contract of a read\<close>

interpretation rapl: plugin_read "pwr_rapldev_read hw p" for hw p
  by unfold_locales
    (auto simp: pwr_rapldev_read_def rbind_eq_Inr split_def split: if_split_asm)

interpretation apm: plugin_read "pwr_apmdev_read hw p" for hw p
  by unfold_locales
    (auto simp: pwr_apmdev_read_def gettimeofday_def rbind_eq_Inr split_def split: if_split_asm)

section \<open>Fields of a register\<close>

lemma MSR_mask:
  assumes "y + w \<le> 64"
  shows "unat (MSR x y (mask w)) = (unat x div 2 ^ y) mod 2 ^ w"
proof -
  have "MSR x y (mask w) = take_bit w (drop_bit y x)"
    unfolding MSR_def
    by (rule bit_eqI) (use assms in \<open>auto simp: bit_simps\<close>)
  then show ?thesis by (simp only: unsigned_take_bit_eq unat_drop_bit_eq) (simp only: take_bit_eq_mod drop_bit_eq_div)
qed

lemma pow_half_val: "n < 1000 \<Longrightarrow> dval (pow_half n) = Some (1 / 2 ^ n)"
proof -
  assume "n < 1000"
  then have "representable (sg False * real 1 * 2 powi (- int n))"
    using representable_pow2 [of "- int n"] by (simp add: sg_def)
  from dval_fround [OF this] show ?thesis
    by (simp add: pow_half_def sg_def power_int_minus divide_inverse)
qed

lemma representable_scaled:
  assumes "n < 2 ^ 53" "e < 1000"
  shows "representable (real n * (1 / 2 ^ e))"
proof -
  have "real n * (1 / 2 ^ e) = real_of_int (int n) * 2 powi (- int e)"
    by (simp add: power_int_minus divide_inverse)
  with assms show ?thesis
    unfolding representable_def by (intro exI [of _ "int n"] exI [of _ "- int e"]) simp
qed

lemma msr_double_val: "n < 2 ^ 53 \<Longrightarrow> dval (msr_double (of_nat n)) = Some (real n)"
proof -
  assume n: "n < 2 ^ 53"
  then have "sint (of_nat n :: u64) = int n" by (simp add: signed_of_nat signed_take_bit_int_eq_self)
  with n dval_f_of_int [of "int n"] show ?thesis by (simp add: msr_double_def)
qed

lemma scaled_register:
  assumes "n < 2 ^ 53" "dval u = Some (1 / 2 ^ e)" "e < 1000"
  shows "dval (fmul (msr_double (of_nat n)) u) = Some (real n / 2 ^ e)"
  using dval_fmul [OF msr_double_val [OF assms(1)] assms(2) representable_scaled [OF assms(1,3)]] by simp

section \<open>RAPL\<close>

definition energy_reg :: "layer_t \<Rightarrow> int \<Rightarrow> nat" where
  "energy_reg l model =
     (case l of
        INTEL_LAYER_PKG \<Rightarrow> MSR_ENERGY_STATUS
      | INTEL_LAYER_PP0 \<Rightarrow> MSR_PP0_ENERGY_STATUS
      | INTEL_LAYER_PP1 \<Rightarrow> if rapl_has_pp1 model then MSR_PP1_ENERGY_STATUS else MSR_DRAM_ENERGY_STATUS)"

lemma f_trunc_0: "f_trunc fzero = Some 0"
  by (simp add: f_trunc_def decode_def)

lemma f_of_int_0: "f_of_int 0 = fzero"
  by (simp add: f_of_int_def fround_def pack_def)

lemma fd_get_ticks: "fd_get fd (s\<lparr>ticks := k\<rparr>) = fd_get fd s"
  by (simp add: fd_get_def)

lemma rapl_nsec_0: "rapl_nsec fzero = Inr 0"
proof -
  have z: "decode 0 = FFin False 0 (- 1074)" by (simp add: decode_def)
  have d: "decode 9223372036854775808 = FFin True 0 (- 1074)" by (simp add: decode_def)
  have "fsub fzero fzero = fzero"
    by (simp add: fsub_def fneg_def fadd_def z d signed_mant_def pack_def)
  moreover have "fmul fzero (f_of_int 1000000000) = fzero"
  proof -
    have "dval (f_of_int 1000000000) = Some 1000000000" using dval_f_of_int [of 1000000000] by simp
    then obtain s m e where e: "decode (f_of_int 1000000000) = FFin s m e" "sg s * real m * 2 powi e = 1000000000"
      by (elim dval_SomeE) simp
    have "\<not> s" using e(2) by (cases s) (auto simp: sg_def, smt (verit) mult_nonneg_nonneg of_nat_0_le_iff zero_le_power_int)
    with e(1) z show ?thesis by (simp add: fmul_def fround_def pack_def)
  qed
  moreover have "fadd fzero fzero = fzero" by (simp add: fadd_def z signed_mant_def pack_def)
  ultimately show ?thesis by (simp add: rapl_nsec_def f_to_word_def f_trunc_0 f_of_int_0)
qed

text \<open>The register of the time a layer was throttled, on the processors that have one for it.\<close>

definition time_reg :: "layer_t \<Rightarrow> int \<Rightarrow> nat option" where
  "time_reg l model =
     (if rapl_has_time model
      then (case l of INTEL_LAYER_PKG \<Rightarrow> Some MSR_PERF_STATUS | INTEL_LAYER_PP0 \<Rightarrow> Some MSR_PP0_PERF_STATUS | INTEL_LAYER_PP1 \<Rightarrow> None)
      else None)"

lemma rapl_gather:
  assumes "\<And>off k. rapldev_read hw fd off (s\<lparr>ticks := k\<rparr>) = (hw k path off, s\<lparr>ticks := Suc k\<rparr>)"
    and "\<forall>k off. hw k path off \<noteq> None" "\<forall>k. hw k path (energy_reg l model) = Some n"
    and "\<forall>k r. time_reg l model = Some r \<longrightarrow> hw k path r = Some q"
  shows "\<exists>tk pol. rapldev_gather hw fd model l u (e0, t0, p0) s =
    ((0, fmul (msr_double n) (u_energy u), if time_reg l model = None then t0 else fmul (msr_double q) (u_time u), pol), s\<lparr>ticks := tk\<rparr>)"
proof -
  obtain y z where yz: "hw (Suc (ticks s)) path MSR_PP0_POLICY_STATUS = Some y"
    "hw (Suc (ticks s)) path MSR_PP1_POLICY_STATUS = Some z" using assms(2) by blast
  have r0: "rapldev_read hw fd off s = (hw (ticks s) path off, s\<lparr>ticks := Suc (ticks s)\<rparr>)" for off
    using assms(1) [of off "ticks s"] by simp
  show ?thesis
    using assms(3,4) r0 assms(1) yz
    by (cases l; cases "rapl_has_pp1 model"; cases "rapl_has_time model")
      (auto simp: rapldev_gather_def gather_time_def energy_reg_def time_reg_def Let_def)
qed

text \<open>
  C40: A RAPL energy reading is the register of its layer times the energy unit the device was
  set up with, $2^{-u}$ joules for the 5-bit field \<open>u\<close> of the unit register, exactly as
  long as the register is below $2^{53}$, on every processor. The time stamp is not the time of the reading: where the
  processor has a register for the time its layer was throttled, it is that time, the register times its own unit, in
  nanoseconds, and elsewhere it is always 0.
\<close>

theorem rapl_energy_read:
  assumes "heap_get (fds s) p = Inr \<lparr>rf_dev = d, rf_layer = Some l\<rparr>"
    and "heap_get (devs s) d = Inr x" "rd_units x = units_of (of_nat m)" "m < 2 ^ 64"
    and "fd_get (rd_fd x) s = Some (path, c)"
    and "\<forall>k off. hw k path off \<noteq> None"
    and "\<forall>k. hw k path (energy_reg l (rd_cpu_model x)) = Some (of_nat n)" "n < 2 ^ 53"
    and "\<forall>k r. time_reg l (rd_cpu_model x) = Some r \<longrightarrow> hw k path r = Some (of_nat q)" "q < 2 ^ 53"
  shows "\<exists>e s'. dval e = Some (real n / 2 ^ ((m div 2 ^ 8) mod 2 ^ 5)) \<and>
    (case time_reg l (rd_cpu_model x) of
       None \<Rightarrow> pwr_rapldev_read hw (Some p) PWR_ATTR_ENERGY v 8 t s = Inr ((0, e, 0), s')
     | Some r \<Rightarrow> \<exists>tm. dval tm = Some (real q / 2 ^ ((m div 2 ^ 16) mod 2 ^ 4)) \<and>
         pwr_rapldev_read hw (Some p) PWR_ATTR_ENERGY v 8 t s = rbind (rapl_nsec tm) (\<lambda>ns. Inr ((0, e, ns), s')))"
proof -
  let ?u = "(m div 2 ^ 8) mod 2 ^ 5" and ?w = "(m div 2 ^ 16) mod 2 ^ 4"
  have "unat (MSR (of_nat m) 8 (mask 5)) = ?u" "unat (MSR (of_nat m) 16 (mask 4)) = ?w"
    using MSR_mask [of 8 5 "of_nat m"] MSR_mask [of 16 4 "of_nat m"] assms(4) by (simp_all add: unat_of_nat)
  then have u: "u_energy (rd_units x) = pow_half ?u" "u_time (rd_units x) = pow_half ?w"
    unfolding assms(3) units_of_def by (simp_all add: mask_eq_exp_minus_1)
  let ?e = "fmul (msr_double (of_nat n)) (u_energy (rd_units x))" and ?t = "fmul (msr_double (of_nat q)) (u_time (rd_units x))"
  have "?u < 1000" by (rule order_less_trans [of _ "2 ^ 5"]) simp_all
  moreover have "?w < 1000" by (rule order_less_trans [of _ "2 ^ 4"]) simp_all
  ultimately have e: "dval ?e = Some (real n / 2 ^ ?u)" "dval ?t = Some (real q / 2 ^ ?w)"
    using scaled_register [OF assms(8) pow_half_val] scaled_register [OF assms(10) pow_half_val] u by metis+
  have rd: "rapldev_read hw (rd_fd x) off (s\<lparr>ticks := k\<rparr>) = (hw k path off, s\<lparr>ticks := Suc k\<rparr>)" for off k
    using assms(5) fd_get_ticks [of "rd_fd x" k s] by (simp add: rapldev_read_def)
  from rapl_gather [OF rd assms(6,7,9), of "rd_units x" fzero fzero 0] obtain tk pol where
    "rapldev_gather hw (rd_fd x) (rd_cpu_model x) l (rd_units x) (fzero, fzero, 0) s =
      ((0, ?e, if time_reg l (rd_cpu_model x) = None then fzero else ?t, pol), s\<lparr>ticks := tk\<rparr>)" by blast
  then have "pwr_rapldev_read hw (Some p) PWR_ATTR_ENERGY v 8 t s =
      rbind (rapl_nsec (if time_reg l (rd_cpu_model x) = None then fzero else ?t)) (\<lambda>ns. Inr ((0, ?e, ns), s\<lparr>ticks := tk\<rparr>))"
    using assms(1,2) by (simp add: pwr_rapldev_read_def pfd_get_def)
  with e show ?thesis
    by (intro exI [of _ ?e] exI [of _ "s\<lparr>ticks := tk\<rparr>"]) (auto simp: rapl_nsec_0 split: option.splits)
qed

definition demo_rapl :: "int \<Rightarrow> rapl_state" where
  "demo_rapl model = (demo_state (\<lambda>_. None) [\<lparr>rf_dev = 0, rf_layer = Some INTEL_LAYER_PKG\<rparr>])
     \<lparr>devs := [Some (rapldev0\<lparr>rd_units := units_of (of_nat 0xa1003), rd_cpu_model := model\<rparr>)],
      fdtab := [Some (''/dev/cpu/0/msr'', [])]\<rparr>"

theorem rapl_energy_read_witness:
  "(\<exists>e s'. pwr_rapldev_read (\<lambda>_ _ _. Some (of_nat 65536)) (Some 0) PWR_ATTR_ENERGY 0 8 0 (demo_rapl 42) =
      Inr ((0, e, 0), s') \<and> dval e = Some 1) \<and>
   (\<exists>e tm s'. pwr_rapldev_read (\<lambda>_ _ _. Some (of_nat 65536)) (Some 0) PWR_ATTR_ENERGY 0 8 0 (demo_rapl 45) =
      rbind (rapl_nsec tm) (\<lambda>ns. Inr ((0, e, ns), s')) \<and> dval e = Some 1 \<and> dval tm = Some 64)"
  using rapl_energy_read [of "demo_rapl 42" 0 0 INTEL_LAYER_PKG
      "rapldev0\<lparr>rd_units := units_of (of_nat 0xa1003), rd_cpu_model := 42\<rparr>" "0xa1003"
      "''/dev/cpu/0/msr''" "[]" "\<lambda>_ _ _. Some (of_nat 65536)" 65536 65536 0 0]
    rapl_energy_read [of "demo_rapl 45" 0 0 INTEL_LAYER_PKG
      "rapldev0\<lparr>rd_units := units_of (of_nat 0xa1003), rd_cpu_model := 45\<rparr>" "0xa1003"
      "''/dev/cpu/0/msr''" "[]" "\<lambda>_ _ _. Some (of_nat 65536)" 65536 65536 0 0]
  by (auto simp add: demo_rapl_def rapldev0_def heap_get_def fd_get_def rapl_has_time_def cpu_models time_reg_def)

text \<open>What keeps the position of \<^verbatim>\<open>strtok\<close>.\<close>

lemma tok_frames:
  "cpuinfo_identify v f ms m s = Inr (r, s') \<Longrightarrow> tok s' = tok s"
  "rapldev_read hw fd off s = (m', s') \<Longrightarrow> tok s' = tok s"
  "dev_upd d g st = Inr st' \<Longrightarrow> tok st' = tok st"
  "sys_open_rd path s = (fd, s') \<Longrightarrow> tok s' = tok s"
  by (auto simp: cpuinfo_identify_def rapldev_read_def dev_upd_def sys_open_rd_def sys_close_def rbind_eq_Inr
      split: option.splits prod.splits if_splits)

lemma tok_rapldev_read: "tok (snd (rapldev_read hw fd off s)) = tok s"
  by (simp add: rapldev_read_def split: option.splits prod.splits)

lemma rapl_setup_tok: "rapl_setup hw d fd s = Inr (r, s') \<Longrightarrow> tok s' = tok s"
  unfolding rapl_setup_def Let_def split_def
  by (auto simp: rbind_eq_Inr tok_rapldev_read split: option.splits dest!: tok_frames(3))

text \<open>
  \<^verbatim>\<open>pwr_rapldev_open\<close> takes the layer from the string \<^verbatim>\<open>strtok\<close> saw last, the
  one given to \<^verbatim>\<open>pwr_rapldev_init\<close>, and not from its own argument: after an initialisation
  with a string that is only the number of the core, as in the example configuration, every open
  fails, whatever layer it names.
\<close>

theorem rapl_open_ignores_string:
  assumes "core < 2 ^ 31" "pwr_rapldev_init hw (show_nat core) s = Inr (Some d, s')"
  shows "\<exists>s''. pwr_rapldev_open d openstr s' = Inr (None, s'')"
proof -
  have "strtok_from {CHR '':''} (show_nat core) = (Some (show_nat core), [])"
    by (rule strtok_number) simp
  moreover have "atoi (show_nat core) = Inr (int core)" by (rule atoi_show_nat [OF assms(1)])
  ultimately have parse: "rapldev_parse_init (show_nat core) st = Inr (Some (int core), st\<lparr>tok := Some []\<rparr>)" for st
    by (simp add: rapldev_parse_init_def parse_core_def strtok_start_def)
  have "tok s' = Some []"
    using assms(2) unfolding pwr_rapldev_init_def rapldev_identify_def
    by (auto simp: parse rbind_eq_Inr split_def split: if_split_asm dest!: rapl_setup_tok tok_frames(3)
        tok_frames(1) simp: tok_frames(4) [OF prod.collapse [symmetric]])
  then show ?thesis
    by (simp add: pwr_rapldev_open_def rapldev_parse_open_def strtok_next_def strtok_from_def pfd_new_def)
qed

lemma demo_cpuinfo:
  "rapldev_identify m (demo_state (\<lambda>_. Some ''model : 42'') []\<lparr>devs := [Some rapldev0], tok := Some []\<rparr>) =
     Inr ((0, 42), demo_state (\<lambda>_. Some ''model : 42'') []
       \<lparr>devs := [Some rapldev0], tok := Some [], ticks := 1, fdtab := [None]\<rparr>)"
  by (simp add: rapldev_identify_def cpuinfo_identify_def sys_open_rd_def fd_get_def heap_get_def
      cpuinfo_line_def strncmp_eq_def scan_word_def scan_int_def is_space_def is_digit_def parse_int_def
      digits_val_def digit_val_def sys_close_def cpu_models demo_state_def numeral_2_eq_2 Let_def)

theorem rapl_open_ignores_string_witness:
  "\<exists>d s' s''. pwr_rapldev_init (\<lambda>_ _ _. Some 0) (show_nat 0) (demo_state (\<lambda>_. Some ''model : 42'') []) =
      Inr (Some d, s') \<and> pwr_rapldev_open d ''pkg'' s' = Inr (None, s'')"
proof -
  have "show_nat 0 = ''0''" by (simp add: show_nat.simps char_of_def bit_0)
  then have "rapldev_parse_init (show_nat 0) st = Inr (Some 0, st\<lparr>tok := Some []\<rparr>)" for st
    by (simp add: rapldev_parse_init_def parse_core_def strtok_start_def strtok_from_def atoi_def
      is_space_def is_digit_def digits_val_def digit_val_def)
  then have "\<exists>d s'. pwr_rapldev_init (\<lambda>_ _ _. Some 0) (show_nat 0) (demo_state (\<lambda>_. Some ''model : 42'') []) =
      Inr (Some d, s')"
    by (simp add: pwr_rapldev_init_def dev_new_def demo_cpuinfo dev_upd_def heap_get_def heap_set_def
      sys_open_rd_def rapl_setup_def rapldev_read_def fd_get_def Let_def)
  then show ?thesis using rapl_open_ignores_string [of 0 _ _ _ _ "''pkg''"] by fastforce
qed

text \<open>
  The check of the processor family in \<^verbatim>\<open>rapldev_identify\<close> and
  \<^verbatim>\<open>apmdev_identify\<close> never happens: a line of \<^verbatim>\<open>/proc/cpuinfo\<close> that begins with
  \<^verbatim>\<open>cpu family\<close>, with a space, changes nothing, since the code looks for an underscore.
\<close>

theorem family_never_checked:
  "cpuinfo_line vendor_id family_ok models (''cpu family'' @ rest) st = Inr st"
  by (cases st) (simp add: cpuinfo_line_def strncmp_eq_def)

section \<open>APM\<close>

text \<open>The 22 bits of the accumulator, and a negative number as a word.\<close>

definition cap_field :: "u64 \<Rightarrow> nat" where
  "cap_field msr = (unat msr div 2 ^ 4) mod 2 ^ 22"

lemma AMSR_cap: "AMSR msr 0x03ffffff 4 = of_nat (cap_field msr)"
proof -
  have m: "(0x03ffffff :: u64) = mask 26" by (simp add: mask_eq_exp_minus_1)
  have "AMSR msr 0x03ffffff 4 = take_bit 22 (drop_bit 4 msr)"
    unfolding AMSR_def m by (intro bit_eqI) (auto simp: bit_simps)
  then have cap: "unat (AMSR msr 0x03ffffff 4) = cap_field msr"
    by (simp only: cap_field_def unsigned_take_bit_eq unat_drop_bit_eq) (simp only: take_bit_eq_mod drop_bit_eq_div)
  show ?thesis by (simp flip: cap)
qed

lemma cap_field_less: "cap_field msr < 2 ^ 22"
  by (simp add: cap_field_def)

lemma low_bits_negated:
  assumes "a < 2 ^ 21"
  shows "- ((NOT (of_nat (2 ^ 21 + a) AND 0x001fffff) AND 0x001fffff) + 1) = (word_of_int (int a - 2 ^ 21) :: u64)"
proof -
  have m: "(0x001fffff :: u64) = mask 21" by (simp add: mask_eq_exp_minus_1)
  have "take_bit 21 (2 ^ 21 + a) = a" using assms by (simp add: take_bit_eq_mod)
  then have "(of_nat (2 ^ 21 + a) :: u64) AND mask 21 = of_nat a"
    unfolding take_bit_eq_mask [symmetric] by (simp only: take_bit_of_nat)
  moreover have "NOT (of_nat a :: u64) AND mask 21 = mask 21 - of_nat a"
  proof -
    have "take_bit 21 (of_nat a :: u64) = of_nat a"
      using assms by (simp add: take_bit_of_nat take_bit_nat_eq_self)
    then show ?thesis by (simp only: take_bit_not_eq_mask_diff flip: take_bit_eq_mask)
  qed
  ultimately have "- ((NOT (of_nat (2 ^ 21 + a) AND mask 21) AND mask 21) + 1) = - (mask 21 - of_nat a + (1 :: u64))"
    by (simp only:)
  then show ?thesis unfolding m by (simp only:) (simp add: mask_eq_exp_minus_1)
qed

lemma run_avg_acc_cap_eq:
  "run_avg_acc_cap msr =
     word_of_int (if cap_field msr < 2 ^ 21 then int (cap_field msr) else int (cap_field msr) - 2 ^ 22)"
proof -
  have ge: "0x00200000 \<le> (of_nat (cap_field msr) :: u64) \<longleftrightarrow> 2 ^ 21 \<le> cap_field msr"
    using cap_field_less [of msr] by (simp add: word_le_nat_alt unsigned_of_nat take_bit_nat_eq_self)
  show ?thesis
  proof (cases "cap_field msr < 2 ^ 21")
    case True
    then show ?thesis using ge by (simp add: run_avg_acc_cap_def AMSR_cap)
  next
    case False
    then obtain a where "cap_field msr = 2 ^ 21 + a" by (metis le_Suc_ex not_less)
    with False show ?thesis
      using low_bits_negated [of a] cap_field_less [of msr] ge
      by (simp add: run_avg_acc_cap_def AMSR_cap Let_def)
  qed
qed

text \<open>
  The accumulator of the running average is a 22-bit signed number. The plugin extends
  its sign correctly, but into an unsigned variable: read as signed the result is the number, read as the code
  reads it, in the division of \<^verbatim>\<open>apmdev_gather\<close>, a negative one is at least $2^{64} - 2^{21}$.
\<close>

theorem apm_negative_cap:
  "sint (run_avg_acc_cap msr) =
     (if cap_field msr < 2 ^ 21 then int (cap_field msr) else int (cap_field msr) - 2 ^ 22) \<and>
   uint (run_avg_acc_cap msr) =
     (if cap_field msr < 2 ^ 21 then int (cap_field msr) else 2 ^ 64 - (2 ^ 22 - int (cap_field msr)))"
proof -
  define c where "c = int (cap_field msr)"
  have c: "0 \<le> c" "c < 2 ^ 22" using cap_field_less [of msr] by (simp_all add: c_def)
  have "(c - 2 ^ 22) mod 2 ^ 64 = 2 ^ 64 - (2 ^ 22 - c)"
  proof -
    have "(c - 2 ^ 22) mod 2 ^ 64 = (c - 2 ^ 22 + 2 ^ 64) mod 2 ^ 64"
      by (simp only: mod_add_self2)
    also have "\<dots> = c - 2 ^ 22 + 2 ^ 64" using c by (intro mod_pos_pos_trivial) simp_all
    finally show ?thesis by simp
  qed
  with c show ?thesis
    by (simp add: run_avg_acc_cap_eq c_def [symmetric] uint_word_of_int signed_of_int
        signed_take_bit_int_eq_self mod_pos_pos_trivial)
qed

text \<open>The table of nodes while it is being filled.\<close>

definition node_table :: "node_t list \<times> nat \<Rightarrow> nat \<Rightarrow> bool" where
  "node_table nc i \<longleftrightarrow>
     (case nc of (nodes, count) \<Rightarrow>
      length nodes = APM_NODE_MAX \<and> count \<le> i \<and>
      distinct (map n_number (take count nodes)) \<and> (\<forall>nd \<in> set (take count nodes). n_number nd < i))"

lemma apm_add_node_table:
  assumes "node_table nc i" "i < APM_NODE_MAX"
  obtains nc' where "apm_add_node i nc = Inr nc'" "node_table nc' (Suc i)"
proof -
  obtain nodes count where nc: "nc = (nodes, count)" by (cases nc)
  have c: "count < length nodes" using assms nc by (simp add: node_table_def)
  let ?nodes = "nodes[count := (nodes ! count)\<lparr>n_number := i\<rparr>]"
  have "apm_add_node i nc = Inr (?nodes, Suc count)" using c nc by (simp add: apm_add_node_def)
  moreover have "node_table (?nodes, Suc count) (Suc i)"
    using assms nc c by (auto simp: node_table_def take_Suc_update)
  ultimately show ?thesis by (rule that)
qed

lemma node_table_Suc: "node_table nc i \<Longrightarrow> node_table nc (Suc i)"
  by (auto simp: node_table_def)

lemma apm_scan_table:
  fixes s :: "'b os_scheme"
  assumes "node_table nc i" "i \<le> APM_NODE_MAX"
  shows "case apm_scan hw [i..<APM_NODE_MAX] m nc s of
      Inl e \<Rightarrow> e = Unspecified | Inr (None, _) \<Rightarrow> True
    | Inr (Some (nc', _), _) \<Rightarrow> node_table nc' APM_NODE_MAX"
  using assms
proof (induction "APM_NODE_MAX - i" arbitrary: i m nc s)
  case 0
  then show ?case by simp
next
  case (Suc n)
  then have i: "i < APM_NODE_MAX" "[i..<APM_NODE_MAX] = i # [Suc i..<APM_NODE_MAX]"
    by (simp_all add: upt_conv_Cons)
  have IH: "case apm_scan hw [Suc i..<APM_NODE_MAX] m nc s of
      Inl e \<Rightarrow> e = Unspecified | Inr (None, _) \<Rightarrow> True
    | Inr (Some (nc', _), _) \<Rightarrow> node_table nc' APM_NODE_MAX" if "node_table nc (Suc i)"
    for m nc and s :: "'b os_scheme"
    using Suc.hyps(1) [of "Suc i" nc m s] Suc.hyps(2) that i(1) by simp
  obtain nc2 where nc2: "apm_add_node i nc = Inr nc2" "node_table nc2 (Suc i)"
    using apm_add_node_table [OF Suc.prems(1) i(1)] .
  have skip: "node_table nc (Suc i)" by (rule node_table_Suc [OF Suc.prems(1)])
  obtain r1 m1 s1 where r1: "apmdev_read hw i 0x0 0x0 m s = ((r1, m1), s1)" by (metis prod.collapse)
  obtain r2 m2 s2 where r2: "apmdev_read hw i 0x3 0xe8 m1 s1 = ((r2, m2), s2)" by (metis prod.collapse)
  show ?case
    unfolding i(2) using IH [OF skip] IH [OF nc2(2)] nc2(1) r1 r2
    by (cases m1; cases m2) (simp_all add: msr_set_def)
qed

text \<open>
  The scan of \<^verbatim>\<open>pwr_apmdev_init\<close> stays within its table: it never writes outside the
  eight nodes, and when it succeeds the nodes it has counted are different ones, with numbers
  below eight.
\<close>

theorem apm_nodes_in_table:
  "case apm_scan hw [0..<APM_NODE_MAX] m (ad_node apmdev0, 0) s of
     Inl e \<Rightarrow> e \<noteq> OutOfBounds
   | Inr (None, _) \<Rightarrow> True
   | Inr (Some ((nodes, count), _), _) \<Rightarrow>
       length nodes = APM_NODE_MAX \<and> count \<le> APM_NODE_MAX \<and>
       distinct (map n_number (take count nodes)) \<and>
       set (map n_number (take count nodes)) \<subseteq> {..<APM_NODE_MAX}"
proof -
  have "node_table (ad_node apmdev0, 0) 0" by (simp add: node_table_def apmdev0_def)
  from apm_scan_table [OF this, of hw m s] show ?thesis
    by (auto simp: node_table_def split: sum.splits option.splits prod.splits)
qed

lemma devs_frames:
  fixes s s' :: apm_state
  shows "devs (snd (apmdev_read hw n r off m s)) = devs s"
    "cpuinfo_identify v f ms k s = Inr (res, s') \<Longrightarrow> devs s' = devs s"
    "parse_core str s = Inr (c, s') \<Longrightarrow> devs s' = devs s"
  by (auto simp: apmdev_read_def cpuinfo_identify_def sys_open_rd_def sys_close_def parse_core_def
      strtok_start_def rbind_eq_Inr split: option.splits prod.splits if_splits)

lemma apm_node_regs_devs:
  fixes s :: apm_state
  assumes "apm_node_regs hw nd m s = Inr (x, s')"
  shows "devs s' = devs s"
  using assms unfolding apm_node_regs_def split_def
  by (auto simp: rbind_eq_Inr devs_frames(1) split: if_split_asm)

lemma apm_scan_devs:
  fixes s :: apm_state
  shows "apm_scan hw is m (nodes, count) s = Inr (x, s') \<Longrightarrow> devs s' = devs s"
proof (induction "is" arbitrary: m nodes count s)
  case (Cons i "is")
  obtain r1 m1 s1 where r1: "apmdev_read hw i 0x0 0x0 m s = ((r1, m1), s1)" by (metis prod.collapse)
  obtain r2 m2 s2 where r2: "apmdev_read hw i 0x3 0xe8 m1 s1 = ((r2, m2), s2)" by (metis prod.collapse)
  have "devs s1 = devs s" "devs s2 = devs s1"
    using r1 r2 by (metis devs_frames(1) snd_conv)+
  moreover have "devs s' = devs t" if "apm_scan hw is m' nc' t = Inr (x, s')" for m' nc' t
    using Cons.IH [of m' "fst nc'" "snd nc'" t] that by simp
  ultimately show ?case
    using Cons.prems r1 r2
    by (cases m1; cases m2; cases "apm_add_node i (nodes, count)")
      (simp_all add: msr_set_def split: if_split_asm)
qed simp

lemma apm_setup_devs:
  fixes s :: apm_state
  shows "apm_setup hw n i m nodes s = Inr (x, s') \<Longrightarrow> devs s' = devs s"
proof (induction n arbitrary: i m nodes s)
  case (Suc n)
  then show ?case
    by (auto simp: split_def rbind_eq_Inr split: option.splits dest!: apm_node_regs_devs)
qed simp

text \<open>
  The core named in the initialisation string of the APM plugin is parsed and dropped: every
  device \<^verbatim>\<open>pwr_apmdev_init\<close> makes reads the power of its first node.
\<close>

theorem apm_core_dropped:
  assumes "pwr_apmdev_init hw initstr s = Inr (Some d, s')"
  shows "\<exists>x. heap_get (devs s') d = Inr x \<and> ad_core x = 0"
proof -
  have dn: "dev_new apmdev0 s = (length (devs s), s\<lparr>devs := devs s @ [Some apmdev0]\<rparr>)"
    by (simp add: dev_new_def)
  from assms obtain s1 g where d: "d = length (devs s)" and "devs s1 = devs s @ [Some apmdev0]"
    and "dev_upd d (\<lambda>x. x\<lparr>ad_cpu_model := fst g, ad_node_count := fst (snd g), ad_node := snd (snd g)\<rparr>) s1 = Inr s'"
    unfolding pwr_apmdev_init_def dn apmdev_parse_def apmdev_identify_def
    by (fastforce simp: rbind_eq_Inr split_def split: option.splits if_split_asm
        dest!: devs_frames(2,3) apm_scan_devs apm_setup_devs)
  then show ?thesis
    by (auto simp: dev_upd_def heap_get_def heap_set_def apmdev0_def)
qed

lemma apm_scan_zero:
  "\<exists>m' k. apm_scan (\<lambda>_ _. Some ''0'') is m nc s = Inr (Some (nc, m'), s\<lparr>ticks := k\<rparr>)"
proof (induction "is" arbitrary: m s)
  case Nil
  then show ?case by (auto intro!: exI [of _ "ticks s"])
next
  case (Cons i "is")
  have "apmdev_read (\<lambda>_ _. Some ''0'') i 0 0 m s = ((0, Some 0), s\<lparr>ticks := Suc (ticks s)\<rparr>)"
    by (simp add: apmdev_read_def scan_hex_def is_space_def hex_val_def)
  then show ?case
    using Cons.IH [of "Some 0" "s\<lparr>ticks := Suc (ticks s)\<rparr>"] by (simp add: msr_set_def AMSR_def)
qed

theorem apm_core_dropped_witness:
  "\<exists>d s' x. pwr_apmdev_init (\<lambda>_ _. Some ''0'') ''5'' (demo_state (\<lambda>_. Some ''model : 16'') []) = Inr (Some d, s') \<and>
     heap_get (devs s') d = Inr x \<and> ad_core x = 0"
proof -
  let ?hw = "\<lambda>(_ :: nat) (_ :: string). Some ''0''"
  let ?s = "demo_state (\<lambda>_. Some ''model : 16'') [] :: apm_state"
  let ?s1 = "?s\<lparr>devs := [Some apmdev0], tok := Some [], ticks := 1, fdtab := [None]\<rparr>"
  have parse: "apmdev_parse ''5'' s = Inr (Some 5, s\<lparr>tok := Some []\<rparr>)" for s :: apm_state
    by (simp add: apmdev_parse_def parse_core_def strtok_start_def strtok_from_def atoi_def
      is_space_def is_digit_def digits_val_def digit_val_def)
  have ident: "apmdev_identify m (?s\<lparr>devs := [Some apmdev0], tok := Some []\<rparr>) = Inr ((0, 16), ?s1)" for m
    by (simp add: apmdev_identify_def cpuinfo_identify_def sys_open_rd_def fd_get_def heap_get_def
      cpuinfo_line_def strncmp_eq_def scan_word_def scan_int_def is_space_def is_digit_def parse_int_def
      digits_val_def digit_val_def sys_close_def demo_state_def numeral_2_eq_2 Let_def)
  obtain m' k where scan: "apm_scan ?hw [0..<APM_NODE_MAX] None (ad_node apmdev0, 0) ?s1 =
      Inr (Some ((ad_node apmdev0, 0), m'), ?s1\<lparr>ticks := k\<rparr>)"
    using apm_scan_zero by blast
  have "pwr_apmdev_init ?hw ''5'' ?s = Inr (Some 0, ?s1\<lparr>ticks := k,
      devs := [Some (apmdev0\<lparr>ad_cpu_model := 16, ad_node_count := 0\<rparr>)]\<rparr>)"
    using ident [of 0] scan
    by (simp add: pwr_apmdev_init_def dev_new_def parse dev_upd_def heap_get_def heap_set_def)
  from apm_core_dropped [OF this] this show ?thesis by blast
qed

end
