(* ===== verification/Status.thy ===== *)
theory Status
  imports PwrTypes
begin

text \<open>
  \<^verbatim>\<open>src/pwr/status.h\<close>: the queue of attribute access errors behind a \<^verbatim>\<open>PWR_Status\<close>.
  Objects are identified by a value of type \<open>'o\<close> (their address, or name).
\<close>

record 'o PWR_AttrAccessError =
  err_obj :: 'o
  err_name :: PWR_AttrName
  err_error :: int

type_synonym 'o status = "'o PWR_AttrAccessError list"

definition status_empty :: "'o status \<Rightarrow> bool" where
  "status_empty st \<longleftrightarrow> st = []"

definition status_pop :: "'o status \<Rightarrow> int \<times> 'o PWR_AttrAccessError option \<times> 'o status" where
  "status_pop st =
    (case st of [] \<Rightarrow> (PWR_RET_EMPTY, None, []) | e # es \<Rightarrow> (PWR_RET_SUCCESS, Some e, es))"

definition status_add :: "'o \<Rightarrow> PWR_AttrName \<Rightarrow> int \<Rightarrow> 'o status \<Rightarrow> 'o status" where
  "status_add obj name err st = st @ [\<lparr>err_obj = obj, err_name = name, err_error = err\<rparr>]"

definition status_clear :: "'o status \<Rightarrow> int \<times> 'o status" where
  "status_clear st = (PWR_RET_SUCCESS, [])"

text \<open>
  What the users of a status rely on: errors come out first in, first out, and
  \<^verbatim>\<open>PWR_RET_EMPTY\<close> marks the end. Draining (the loops of the server that pop until empty)
  is derived once for every such queue.
\<close>

primrec drain_queue :: "('q \<Rightarrow> int \<times> 'e option \<times> 'q) \<Rightarrow> nat \<Rightarrow> 'q \<Rightarrow> 'e list \<times> 'q" where
  "drain_queue pop 0 q = ([], q)"
| "drain_queue pop (Suc n) q =
    (case pop q of (ret, e, q') \<Rightarrow>
       if ret = PWR_RET_EMPTY then ([], q')
       else (case drain_queue pop n q' of (es, q'') \<Rightarrow> (the e # es, q'')))"

locale error_queue =
  fixes empty :: "'q \<Rightarrow> bool"
    and pop :: "'q \<Rightarrow> int \<times> 'e option \<times> 'q"
    and push :: "'e \<Rightarrow> 'q \<Rightarrow> 'q"
    and contents :: "'q \<Rightarrow> 'e list"
  assumes empty_contents: "empty q \<longleftrightarrow> contents q = []"
    and push_contents: "contents (push e q) = contents q @ [e]"
    and pop_empty: "contents q = [] \<Longrightarrow> pop q = (PWR_RET_EMPTY, None, q)"
    and pop_front: "contents q = e # es \<Longrightarrow>
          \<exists>q'. pop q = (PWR_RET_SUCCESS, Some e, q') \<and> contents q' = es"
begin

lemma contents_pushes: "contents (fold push es q) = contents q @ es"
  by (induction es arbitrary: q) (simp_all add: push_contents)

lemma drain_contents:
  "length (contents q) < n \<Longrightarrow> fst (drain_queue pop n q) = contents q \<and> contents (snd (drain_queue pop n q)) = []"
proof (induction n arbitrary: q)
  case 0
  then show ?case by simp
next
  case (Suc n)
  show ?case
  proof (cases "contents q")
    case Nil
    then show ?thesis by (simp add: pop_empty)
  next
    case (Cons e es)
    then obtain q' where q': "pop q = (PWR_RET_SUCCESS, Some e, q')" "contents q' = es"
      using pop_front by blast
    with Suc Cons have "fst (drain_queue pop n q') = es \<and> contents (snd (drain_queue pop n q')) = []" by simp
    with q' Cons show ?thesis by (cases "drain_queue pop n q'") simp
  qed
qed

end

interpretation stq: error_queue status_empty status_pop
  "\<lambda>e. status_add (err_obj e) (err_name e) (err_error e)" "\<lambda>st. st"
  by unfold_locales
    (auto simp: status_empty_def status_add_def status_pop_def)

lemma status_add_not_empty [simp]: "\<not> status_empty (status_add ob a e st)"
  by (simp add: status_empty_def status_add_def)

lemma status_add_append: "status_add ob a e st = st @ status_add ob a e []"
  by (simp add: status_add_def)

end
