(* ===== verification/Device.thy ===== *)
theory Device
  imports PluginBase Status
begin

text \<open>
  The table of operations a plugin exports (\<^verbatim>\<open>src/pwr/pwrdev.h\<close>) and the class
  \<^verbatim>\<open>Device\<close> on top of it (\<^verbatim>\<open>src/pwr/device.h\<close>): a table and a descriptor opened
  with it. An entry that may be a null pointer is an option. \<open>'s\<close> is the state of all plugins.
\<close>

record 's plugin_devops_t =
  op_open :: "addr \<Rightarrow> string \<Rightarrow> 's \<Rightarrow> (addr option \<times> 's) res"
  op_close :: "addr option \<Rightarrow> 's \<Rightarrow> (int \<times> 's) res"
  op_read :: "addr option \<Rightarrow> 's read_op"
  op_write :: "addr option \<Rightarrow> 's write_op"
  op_readv :: "addr option \<Rightarrow> u32 \<Rightarrow> PWR_AttrName list \<Rightarrow> u64 list \<Rightarrow> u64 list \<Rightarrow> int list \<Rightarrow> 's \<Rightarrow>
    ((int \<times> u64 list \<times> u64 list \<times> int list) \<times> 's) res"
  op_writev :: "addr option \<Rightarrow> u32 \<Rightarrow> PWR_AttrName list \<Rightarrow> u64 list \<Rightarrow> int list \<Rightarrow> 's \<Rightarrow>
    ((int \<times> u64 list \<times> int list) \<times> 's) res"
  op_time :: "addr option \<Rightarrow> u64 \<Rightarrow> 's \<Rightarrow> ((int \<times> u64) \<times> 's) res"
  op_clear :: "addr option \<Rightarrow> int"
  op_log_start :: "(addr option \<Rightarrow> PWR_AttrName \<Rightarrow> 's \<Rightarrow> (int \<times> 's) res) option"
  op_log_stop :: "(addr option \<Rightarrow> PWR_AttrName \<Rightarrow> 's \<Rightarrow> (int \<times> 's) res) option"
  op_get_samples :: "(addr option \<Rightarrow> PWR_AttrName \<Rightarrow> u64 \<Rightarrow> u64 \<Rightarrow> u32 \<Rightarrow> u64 list \<Rightarrow> 's \<Rightarrow>
    ((int \<times> u64 \<times> u32 \<times> u64 list) \<times> 's) res) option"
  private_data :: addr

text \<open>\<^verbatim>\<open>init\<close> may return a null table.\<close>

record 's plugin_dev_t =
  pd_init :: "string \<Rightarrow> 's \<Rightarrow> ('s plugin_devops_t option \<times> 's) res"
  pd_final :: "'s plugin_devops_t \<Rightarrow> 's \<Rightarrow> (int \<times> 's) res"

record 's Device =
  d_ops :: "'s plugin_devops_t"
  d_fd :: addr

definition new_Device :: "'s plugin_devops_t \<Rightarrow> string \<Rightarrow> 's \<Rightarrow> ('s Device \<times> 's) res" where
  "new_Device ops config s =
     rbind (op_open ops (private_data ops) config s) (\<lambda>(fd, s).
     case fd of None \<Rightarrow> Inl AssertFail | Some fd \<Rightarrow> Inr (\<lparr>d_ops = ops, d_fd = fd\<rparr>, s))"

definition delete_Device :: "'s Device \<Rightarrow> 's \<Rightarrow> 's res" where
  "delete_Device d s = rbind (op_close (d_ops d) (Some (d_fd d)) s) (\<lambda>(_, s). Inr s)"

text \<open>The sizes of the vectors are the caller's; the number of names is truncated to 32 bits.\<close>

definition device_getValues ::
    "'s Device \<Rightarrow> PWR_AttrName list \<Rightarrow> u64 list \<Rightarrow> u64 list \<Rightarrow> int list \<Rightarrow> 's \<Rightarrow>
     ((int \<times> u64 list \<times> u64 list \<times> int list) \<times> 's) res" where
  "device_getValues d names vs ts sts s =
     op_readv (d_ops d) (Some (d_fd d)) (of_nat (length names)) names vs ts sts s"

definition device_setValues ::
    "'s Device \<Rightarrow> PWR_AttrName list \<Rightarrow> u64 list \<Rightarrow> int list \<Rightarrow> 's \<Rightarrow>
     ((int \<times> u64 list \<times> int list) \<times> 's) res" where
  "device_setValues d names vs sts s =
     op_writev (d_ops d) (Some (d_fd d)) (of_nat (length names)) names vs sts s"

definition device_getValue :: "'s Device \<Rightarrow> 's read_op" where
  "device_getValue d name v len t s = op_read (d_ops d) (Some (d_fd d)) name v len t s"

definition device_setValue :: "'s Device \<Rightarrow> 's write_op" where
  "device_setValue d name v len s = op_write (d_ops d) (Some (d_fd d)) name v len s"

definition device_startLog :: "'s Device \<Rightarrow> PWR_AttrName \<Rightarrow> 's \<Rightarrow> (int \<times> 's) res" where
  "device_startLog d name s =
     (case op_log_start (d_ops d) of
        Some f \<Rightarrow> f (Some (d_fd d)) name s
      | None \<Rightarrow> Inr (PWR_RET_FAILURE, s))"

definition device_stopLog :: "'s Device \<Rightarrow> PWR_AttrName \<Rightarrow> 's \<Rightarrow> (int \<times> 's) res" where
  "device_stopLog d name s =
     (case op_log_stop (d_ops d) of
        Some f \<Rightarrow> f (Some (d_fd d)) name s
      | None \<Rightarrow> Inr (PWR_RET_FAILURE, s))"

definition device_getSamples ::
    "'s Device \<Rightarrow> PWR_AttrName \<Rightarrow> u64 \<Rightarrow> u64 \<Rightarrow> u32 \<Rightarrow> u64 list \<Rightarrow> 's \<Rightarrow>
     ((int \<times> u64 \<times> u32 \<times> u64 list) \<times> 's) res" where
  "device_getSamples d name t period n results s =
     (case op_get_samples (d_ops d) of
        Some f \<Rightarrow> f (Some (d_fd d)) name t period n results s
      | None \<Rightarrow> Inr ((PWR_RET_FAILURE, t, n, results), s))"

end
