(* ===== verification/Object.thy ===== *)
theory Object
  imports Device
begin

text \<open>
  Objects and groups: \<^verbatim>\<open>attrInfo.h\<close>, \<^verbatim>\<open>object.h\<close>, \<^verbatim>\<open>object.cc\<close> and \<^verbatim>\<open>group.h\<close>.
  An object has, for every attribute, the devices that provide it and the operation that combines their
  values. A buffer of the caller is a list of cells and the position it begins at; errors are appended
  to a status. Devices do not change once they are open, so that a pointer to one is the
  device itself; objects and communicators are addresses. In a status an object is what its owner calls
  it, an address or a pointer that may be null.
\<close>

section \<open>Attributes\<close>

record 's AttrInfo =
  ai_devices :: "'s Device list"
  ai_comm :: "addr option"
  ai_operation :: "(u64 list \<Rightarrow> u64) option"
  ai_calcTime :: "u64 list \<Rightarrow> u64 res"
  ai_valueOp :: ValueOp

definition new_AttrInfo :: "(u64 list \<Rightarrow> u64) option \<Rightarrow> (u64 list \<Rightarrow> u64 res) \<Rightarrow> ValueOp \<Rightarrow> 's AttrInfo" where
  "new_AttrInfo fptr tptr op =
     \<lparr>ai_devices = [], ai_comm = None, ai_operation = fptr, ai_calcTime = tptr, ai_valueOp = op\<rparr>"

definition attr_isValid :: "'s AttrInfo \<Rightarrow> bool" where
  "attr_isValid info \<longleftrightarrow> ai_devices info \<noteq> [] \<or> ai_comm info \<noteq> None"

record 's Object =
  m_name :: string
  m_objType :: PWR_ObjType
  m_attrInfo :: "'s AttrInfo list"
  m_parent :: "addr option"
  m_children :: "addr option"

definition getAttrInfo :: "'s Object \<Rightarrow> PWR_AttrName \<Rightarrow> 's AttrInfo res" where
  "getAttrInfo ob attr = rbind (attr_index attr) (aread (m_attrInfo ob))"

definition attrIsValid :: "'s Object \<Rightarrow> PWR_AttrName \<Rightarrow> bool res" where
  "attrIsValid ob attr = rbind (getAttrInfo ob attr) (\<lambda>info. Inr (attr_isValid info))"

section \<open>Reading and writing an object\<close>

text \<open>
  The loop of \<^verbatim>\<open>attrGetValuesDevice\<close> fills two vectors of zeros, one cell for each device, and
  leaves at the first device that fails.
\<close>

fun read_devices :: "'s Device list \<Rightarrow> PWR_AttrName \<Rightarrow> 's \<Rightarrow> ((int \<times> u64 list \<times> u64 list) \<times> 's) res" where
  "read_devices [] name s = Inr ((PWR_RET_SUCCESS, [], []), s)"
| "read_devices (d # ds) name s =
     rbind (device_getValue d name 0 8 0 s) (\<lambda>((r, v, t), s).
     if r \<noteq> PWR_RET_SUCCESS then Inr ((r, [], []), s)
     else rbind (read_devices ds name s) (\<lambda>((r, vs, ts), s). Inr ((r, v # vs, t # ts), s)))"

definition attrGetValuesDevice ::
    "'s AttrInfo \<Rightarrow> PWR_AttrName \<Rightarrow> u64 \<Rightarrow> u64 \<Rightarrow> 's \<Rightarrow> ((int \<times> u64 \<times> u64) \<times> 's) res" where
  "attrGetValuesDevice info name v t s =
     rbind (read_devices (ai_devices info) name s) (\<lambda>((r, vs, ts), s).
     if r \<noteq> PWR_RET_SUCCESS then Inr ((r, v, t), s)
     else if ai_devices info \<noteq> [] then
       rbind (deref (ai_operation info)) (\<lambda>f.
       rbind (ai_calcTime info ts) (\<lambda>t'.
       Inr ((PWR_RET_SUCCESS, f vs, t'), s)))
     else Inr ((PWR_RET_SUCCESS, v, t), s))"

fun getValues_loop ::
    "'s Object \<Rightarrow> 'o \<Rightarrow> nat \<Rightarrow> nat \<Rightarrow> PWR_AttrName list \<Rightarrow> nat \<Rightarrow>
     u64 list \<times> u64 list \<times> 'o status \<Rightarrow> 's \<Rightarrow> ((u64 list \<times> u64 list \<times> 'o status) \<times> 's) res" where
  "getValues_loop ob self 0 i names off (vs, ts, st) s = Inr ((vs, ts, st), s)"
| "getValues_loop ob self (Suc n) i names off (vs, ts, st) s =
     rbind (awrite vs (off + i) 0) (\<lambda>vs.
     rbind (awrite ts (off + i) 0) (\<lambda>ts.
     rbind (aread names i) (\<lambda>name.
     rbind (getAttrInfo ob name) (\<lambda>info.
     if \<not> attr_isValid info then Inr ((vs, ts, status_add self name PWR_RET_INVALID st), s)
     else
       rbind (attrGetValuesDevice info name 0 0 s) (\<lambda>((r, v, t), s).
       rbind (awrite vs (off + i) v) (\<lambda>vs.
       rbind (awrite ts (off + i) t) (\<lambda>ts.
       if r \<noteq> PWR_RET_SUCCESS then Inr ((vs, ts, status_add self name r st), s)
       else getValues_loop ob self n (Suc i) names off (vs, ts, st) s)))))))"

definition attrGetValues ::
    "'s Object \<Rightarrow> 'o \<Rightarrow> int \<Rightarrow> PWR_AttrName list \<Rightarrow> nat \<Rightarrow> u64 list \<times> u64 list \<times> 'o status \<Rightarrow> 's \<Rightarrow>
     ((int \<times> u64 list \<times> u64 list \<times> 'o status) \<times> 's) res" where
  "attrGetValues ob self count names off b s =
     rbind (getValues_loop ob self (nat count) 0 names off b s) (\<lambda>((vs, ts, st), s).
     Inr ((if status_empty st then PWR_RET_SUCCESS else PWR_RET_STATUS, vs, ts, st), s))"

text \<open>A plugin may change the value it is given to write; the next device is given the changed one.\<close>

fun write_devices :: "'s Device list \<Rightarrow> PWR_AttrName \<Rightarrow> u64 \<Rightarrow> 's \<Rightarrow> ((int \<times> u64) \<times> 's) res" where
  "write_devices [] name v s = Inr ((PWR_RET_SUCCESS, v), s)"
| "write_devices (d # ds) name v s =
     rbind (device_setValue d name v 8 s) (\<lambda>((r, v), s).
     if r \<noteq> PWR_RET_SUCCESS then Inr ((r, v), s) else write_devices ds name v s)"

definition attrSetValuesDevice ::
    "'s AttrInfo \<Rightarrow> PWR_AttrName \<Rightarrow> u64 \<Rightarrow> 's \<Rightarrow> ((int \<times> u64) \<times> 's) res" where
  "attrSetValuesDevice info name v s = write_devices (ai_devices info) name v s"

fun setValues_loop ::
    "'s Object \<Rightarrow> 'o \<Rightarrow> nat \<Rightarrow> nat \<Rightarrow> PWR_AttrName list \<Rightarrow> nat \<Rightarrow> u64 list \<times> 'o status \<Rightarrow> 's \<Rightarrow>
     ((u64 list \<times> 'o status) \<times> 's) res" where
  "setValues_loop ob self 0 i names off (vs, st) s = Inr ((vs, st), s)"
| "setValues_loop ob self (Suc n) i names off (vs, st) s =
     rbind (aread names i) (\<lambda>name.
     rbind (getAttrInfo ob name) (\<lambda>info.
     if \<not> attr_isValid info then Inr ((vs, status_add self name PWR_RET_INVALID st), s)
     else
       rbind (aread vs (off + i)) (\<lambda>v.
       rbind (attrSetValuesDevice info name v s) (\<lambda>((r, v), s).
       rbind (awrite vs (off + i) v) (\<lambda>vs.
       if r \<noteq> PWR_RET_SUCCESS then Inr ((vs, status_add self name r st), s)
       else setValues_loop ob self n (Suc i) names off (vs, st) s)))))"

definition attrSetValues ::
    "'s Object \<Rightarrow> 'o \<Rightarrow> int \<Rightarrow> PWR_AttrName list \<Rightarrow> nat \<Rightarrow> u64 list \<times> 'o status \<Rightarrow> 's \<Rightarrow>
     ((int \<times> u64 list \<times> 'o status) \<times> 's) res" where
  "attrSetValues ob self count names off b s =
     rbind (setValues_loop ob self (nat count) 0 names off b s) (\<lambda>((vs, st), s).
     Inr ((if status_empty st then PWR_RET_SUCCESS else PWR_RET_STATUS, vs, st), s))"

text \<open>
  The operations on one attribute go through a fresh status and return the first error in it.
\<close>

definition first_error :: "'o status \<Rightarrow> int res" where
  "first_error st =
     (case status_pop st of (r, e, _) \<Rightarrow>
      rbind (assert_c (r = PWR_RET_SUCCESS)) (\<lambda>_. rbind (deref e) (\<lambda>e. Inr (err_error e))))"

definition attrGetValue ::
    "'s Object \<Rightarrow> 'o \<Rightarrow> PWR_AttrName \<Rightarrow> u64 \<Rightarrow> u64 \<Rightarrow> 's \<Rightarrow> ((int \<times> u64 \<times> u64) \<times> 's) res" where
  "attrGetValue ob self attr v t s =
     rbind (attrGetValues ob self 1 [attr] 0 ([v], [t], []) s) (\<lambda>((r, vs, ts, st), s).
     rbind (aread vs 0) (\<lambda>v.
     rbind (aread ts 0) (\<lambda>t.
     if r \<noteq> PWR_RET_SUCCESS then rbind (first_error st) (\<lambda>e. Inr ((e, v, t), s))
     else Inr ((PWR_RET_SUCCESS, v, t), s))))"

definition attrSetValue ::
    "'s Object \<Rightarrow> 'o \<Rightarrow> PWR_AttrName \<Rightarrow> u64 \<Rightarrow> 's \<Rightarrow> ((int \<times> u64) \<times> 's) res" where
  "attrSetValue ob self attr v s =
     rbind (attrSetValues ob self 1 [attr] 0 ([v], []) s) (\<lambda>((r, vs, st), s).
     rbind (aread vs 0) (\<lambda>v.
     if r \<noteq> PWR_RET_SUCCESS then rbind (first_error st) (\<lambda>e. Inr ((e, v), s))
     else Inr ((PWR_RET_SUCCESS, v), s)))"

section \<open>Logs and samples\<close>

fun devices_log :: "('s Device \<Rightarrow> PWR_AttrName \<Rightarrow> 's \<Rightarrow> (int \<times> 's) res) \<Rightarrow> 's Device list \<Rightarrow> PWR_AttrName \<Rightarrow> 's \<Rightarrow> (int \<times> 's) res" where
  "devices_log f [] name s = Inr (PWR_RET_SUCCESS, s)"
| "devices_log f (d # ds) name s =
     rbind (f d name s) (\<lambda>(r, s). if r \<noteq> PWR_RET_SUCCESS then Inr (r, s) else devices_log f ds name s)"

definition attrStartLog :: "'s Object \<Rightarrow> PWR_AttrName \<Rightarrow> 's \<Rightarrow> (int \<times> 's) res" where
  "attrStartLog ob name s =
     rbind (getAttrInfo ob name) (\<lambda>info.
     if \<not> attr_isValid info then Inr (PWR_RET_FAILURE, s)
     else devices_log device_startLog (ai_devices info) name s)"

definition attrStopLog :: "'s Object \<Rightarrow> PWR_AttrName \<Rightarrow> 's \<Rightarrow> (int \<times> 's) res" where
  "attrStopLog ob name s =
     rbind (getAttrInfo ob name) (\<lambda>info.
     if \<not> attr_isValid info then Inr (PWR_RET_FAILURE, s)
     else devices_log device_stopLog (ai_devices info) name s)"

text \<open>
  The samples are added, as integers, to what the buffer holds; the number of samples
  the device returns is dropped.
\<close>

fun add_samples :: "u64 list \<Rightarrow> nat \<Rightarrow> u64 list \<Rightarrow> u64 list res" where
  "add_samples [] i buf = Inr buf"
| "add_samples (x # xs) i buf =
     rbind (aread buf i) (\<lambda>v. rbind (awrite buf i (v + x)) (\<lambda>buf. add_samples xs (Suc i) buf))"

definition attrGetSamples ::
    "'s Object \<Rightarrow> PWR_AttrName \<Rightarrow> u64 \<Rightarrow> u64 \<Rightarrow> u32 \<Rightarrow> u64 list \<Rightarrow> 's \<Rightarrow> ((int \<times> u64 \<times> u64 list) \<times> 's) res" where
  "attrGetSamples ob name start period count buf s =
     rbind (getAttrInfo ob name) (\<lambda>info.
     if \<not> attr_isValid info then Inr ((PWR_RET_FAILURE, start, buf), s)
     else
       rbind (assert_c (length (ai_devices info) \<le> 1)) (\<lambda>_.
       case ai_devices info of
         [] \<Rightarrow> Inr ((PWR_RET_SUCCESS, start, buf), s)
       | d # _ \<Rightarrow>
           rbind (device_getSamples d name 0 period count (replicate (unat count) 0) s)
             (\<lambda>((r, tStart, _, data), s).
           if r \<noteq> PWR_RET_SUCCESS then Inr ((r, start, buf), s)
           else rbind (add_samples data 0 buf) (\<lambda>buf. Inr ((PWR_RET_SUCCESS, tStart, buf), s)))))"

section \<open>What a read of an object does\<close>

text \<open>
  The reference: the attributes are read one after the other, up to and including the first that
  fails; an attribute that fails has value and time 0.
\<close>

definition read_attr :: "'s Object \<Rightarrow> PWR_AttrName \<Rightarrow> 's \<Rightarrow> ((int \<times> u64 \<times> u64) \<times> 's) res" where
  "read_attr ob name s =
     rbind (getAttrInfo ob name) (\<lambda>info.
     if \<not> attr_isValid info then Inr ((PWR_RET_INVALID, 0, 0), s)
     else attrGetValuesDevice info name 0 0 s)"

fun read_attrs ::
    "'s Object \<Rightarrow> PWR_AttrName list \<Rightarrow> 's \<Rightarrow> (((u64 \<times> u64) list \<times> (PWR_AttrName \<times> int) option) \<times> 's) res" where
  "read_attrs ob [] s = Inr (([], None), s)"
| "read_attrs ob (a # as) s =
     rbind (read_attr ob a s) (\<lambda>((r, v, t), s).
     if r \<noteq> PWR_RET_SUCCESS then Inr (([(0, 0)], Some (a, r)), s)
     else rbind (read_attrs ob as s) (\<lambda>((xs, e), s). Inr (((v, t) # xs, e), s)))"

definition add_error :: "'o \<Rightarrow> (PWR_AttrName \<times> int) option \<Rightarrow> 'o status \<Rightarrow> 'o status" where
  "add_error self e st = (case e of None \<Rightarrow> st | Some (a, r) \<Rightarrow> status_add self a r st)"

lemma read_attr_error:
  "read_attr ob a s = Inr ((r, v, t), s') \<Longrightarrow> r \<noteq> PWR_RET_SUCCESS \<Longrightarrow> v = 0 \<and> t = 0"
  by (auto simp: read_attr_def attrGetValuesDevice_def rbind_eq_Inr split: if_split_asm)

lemma read_attrs_length: "read_attrs ob as s = Inr ((xs, e), s') \<Longrightarrow> length xs \<le> length as"
  by (induction as arbitrary: s xs e s') (fastforce simp: rbind_eq_Inr split: if_split_asm)+

lemma splice_Cons: "i < length vs \<Longrightarrow> splice (vs[i := v]) (Suc i) xs = splice vs i (v # xs)"
  by (simp add: splice_def take_Suc_update drop_update_cancel)

lemma splice_Nil [simp]: "splice vs i [] = vs"
  by (simp add: splice_def)

lemma getValues_loop_step:
  assumes "i < length names" "off + i < length vs" "off + i < length ts"
  shows "getValues_loop ob self (Suc n) i names off (vs, ts, st) s =
    rbind (read_attr ob (names ! i) s) (\<lambda>((r, v, t), s).
    if r \<noteq> PWR_RET_SUCCESS
    then Inr ((vs[off + i := v], ts[off + i := t], status_add self (names ! i) r st), s)
    else getValues_loop ob self n (Suc i) names off (vs[off + i := v], ts[off + i := t], st) s)"
proof (cases "getAttrInfo ob (names ! i)")
  case (Inl e)
  then show ?thesis using assms by (simp add: read_attr_def)
next
  case (Inr info)
  then show ?thesis
    using assms by (cases "attr_isValid info") (simp_all add: read_attr_def split_def)
qed

lemma getValues_loop_spec:
  assumes "off + i + n \<le> length vs" "off + i + n \<le> length ts" "i + n \<le> length names"
  shows "getValues_loop ob self n i names off (vs, ts, st) s =
    rbind (read_attrs ob (take n (drop i names)) s) (\<lambda>((xs, e), s).
    Inr ((splice vs (off + i) (map fst xs), splice ts (off + i) (map snd xs), add_error self e st), s))"
  using assms
proof (induction n arbitrary: i vs ts s)
  case 0
  then show ?case by (simp add: add_error_def)
next
  case (Suc n)
  then have i: "i < length names" "off + i < length vs" "off + i < length ts" by simp_all
  have d: "take (Suc n) (drop i names) = names ! i # take n (drop (Suc i) names)"
    using i by (simp add: Cons_nth_drop_Suc [symmetric])
  have IH: "getValues_loop ob self n (Suc i) names off (vs[off + i := v], ts[off + i := t], st) s' =
    rbind (read_attrs ob (take n (drop (Suc i) names)) s') (\<lambda>((xs, e), s).
    Inr ((splice vs (off + i) (v # map fst xs), splice ts (off + i) (t # map snd xs), add_error self e st), s))"
    for v t s'
    using Suc.IH [of "Suc i" "vs[off + i := v]" "ts[off + i := t]" s'] Suc.prems i
    by (simp add: splice_Cons)
  show ?case
  proof (cases "read_attr ob (names ! i) s")
    case (Inl e)
    then show ?thesis using i by (simp add: getValues_loop_step d del: getValues_loop.simps)
  next
    case (Inr y)
    obtain r v t s' where y: "y = ((r, v, t), s')" by (metis prod.collapse)
    show ?thesis
    proof (cases "r = PWR_RET_SUCCESS")
      case True
      with Inr y show ?thesis using i
        by (simp add: getValues_loop_step d IH rbind_assoc split_def del: getValues_loop.simps)
    next
      case False
      then have "v = 0" "t = 0" using read_attr_error [OF Inr [unfolded y]] by simp_all
      with False Inr y i show ?thesis
        by (simp add: getValues_loop_step d add_error_def splice_def upd_conv_take_nth_drop
            del: getValues_loop.simps)
    qed
  qed
qed

text \<open>The status a call starts from, and what it leaves.\<close>

lemma attrGetValues_spec:
  assumes "off + nat count \<le> length vs" "off + nat count \<le> length ts" "nat count \<le> length names"
  shows "attrGetValues ob self count names off (vs, ts, st) s =
    rbind (read_attrs ob (take (nat count) names) s) (\<lambda>((xs, e), s).
    Inr ((if add_error self e st = [] then PWR_RET_SUCCESS else PWR_RET_STATUS,
          splice vs off (map fst xs), splice ts off (map snd xs), add_error self e st), s))"
  using getValues_loop_spec [of off 0 "nat count" vs ts names ob self st s] assms
  by (simp add: attrGetValues_def rbind_assoc split_def status_empty_def)

lemma attrGetValue_spec: "attrGetValue ob self a v t s = read_attr ob a s"
proof (cases "read_attr ob a s")
  case (Inl e)
  then show ?thesis by (simp add: attrGetValue_def attrGetValues_spec)
next
  case (Inr y)
  obtain r v t s' where y: "y = ((r, v, t), s')" by (metis prod.collapse)
  with Inr read_attr_error [of ob a s r v t s'] show ?thesis
    by (cases "r = 0")
      (auto simp: attrGetValue_def attrGetValues_spec add_error_def splice_def first_error_def
        status_pop_def status_add_def)
qed

section \<open>Groups\<close>

text \<open>
  \<^verbatim>\<open>Grp\<close> of \<^verbatim>\<open>group.h\<close>. The operations of the members are virtual, so that those of
  the group take them as an argument: the address of a member, the attributes, where its row of the
  buffer begins.
\<close>

record Grp =
  g_name :: string
  g_list :: "addr list"

type_synonym 'w member_get =
  "addr \<Rightarrow> int \<Rightarrow> PWR_AttrName list \<Rightarrow> nat \<Rightarrow> u64 list \<times> u64 list \<times> addr status \<Rightarrow> 'w \<Rightarrow>
   ((int \<times> u64 list \<times> u64 list \<times> addr status) \<times> 'w) res"

type_synonym 'w member_set =
  "addr \<Rightarrow> int \<Rightarrow> PWR_AttrName list \<Rightarrow> nat \<Rightarrow> u64 list \<times> addr status \<Rightarrow> 'w \<Rightarrow>
   ((int \<times> u64 list \<times> addr status) \<times> 'w) res"

definition grp_size :: "Grp \<Rightarrow> nat" where
  "grp_size g = length (g_list g)"

definition grp_empty :: "Grp \<Rightarrow> bool" where
  "grp_empty g \<longleftrightarrow> g_list g = []"

definition grp_getObj :: "Grp \<Rightarrow> nat \<Rightarrow> addr res" where
  "grp_getObj g i = aread (g_list g) i"

definition grp_add :: "addr \<Rightarrow> Grp \<Rightarrow> int \<times> Grp" where
  "grp_add ob g =
     (if ob \<in> set (g_list g) then (PWR_RET_FAILURE, g)
      else (PWR_RET_SUCCESS, g\<lparr>g_list := g_list g @ [ob]\<rparr>))"

definition grp_remove :: "addr \<Rightarrow> Grp \<Rightarrow> int \<times> Grp" where
  "grp_remove ob g = (PWR_RET_SUCCESS, g\<lparr>g_list := remove1 ob (g_list g)\<rparr>)"

fun grp_get_loop ::
    "'w member_get \<Rightarrow> addr list \<Rightarrow> nat \<Rightarrow> int \<Rightarrow> PWR_AttrName list \<Rightarrow> nat \<Rightarrow>
     u64 list \<times> u64 list \<times> addr status \<Rightarrow> 'w \<Rightarrow> ((u64 list \<times> u64 list \<times> addr status) \<times> 'w) res" where
  "grp_get_loop get [] i num attr off b w = Inr (b, w)"
| "grp_get_loop get (ob # obs) i num attr off b w =
     rbind (get ob num attr (off + i * nat num) b w) (\<lambda>((_, b), w).
     grp_get_loop get obs (Suc i) num attr off b w)"

definition grp_attrGetValues ::
    "'w member_get \<Rightarrow> Grp \<Rightarrow> int \<Rightarrow> PWR_AttrName list \<Rightarrow> nat \<Rightarrow> u64 list \<times> u64 list \<times> addr status \<Rightarrow> 'w \<Rightarrow>
     ((int \<times> u64 list \<times> u64 list \<times> addr status) \<times> 'w) res" where
  "grp_attrGetValues get g num attr off b w =
     rbind (grp_get_loop get (g_list g) 0 num attr off b w) (\<lambda>((vs, ts, st), w).
     Inr ((if status_empty st then PWR_RET_SUCCESS else PWR_RET_FAILURE, vs, ts, st), w))"

definition grp_attrGetValue ::
    "'w member_get \<Rightarrow> Grp \<Rightarrow> PWR_AttrName \<Rightarrow> nat \<Rightarrow> u64 list \<times> u64 list \<times> addr status \<Rightarrow> 'w \<Rightarrow>
     ((int \<times> u64 list \<times> u64 list \<times> addr status) \<times> 'w) res" where
  "grp_attrGetValue get g attr off b w = grp_attrGetValues get g 1 [attr] off b w"

fun grp_set_loop ::
    "'w member_set \<Rightarrow> addr list \<Rightarrow> int \<Rightarrow> PWR_AttrName list \<Rightarrow> nat \<Rightarrow> u64 list \<times> addr status \<Rightarrow> 'w \<Rightarrow>
     ((u64 list \<times> addr status) \<times> 'w) res" where
  "grp_set_loop put [] num attr off b w = Inr (b, w)"
| "grp_set_loop put (ob # obs) num attr off b w =
     rbind (put ob num attr off b w) (\<lambda>((_, b), w). grp_set_loop put obs num attr off b w)"

definition grp_attrSetValues ::
    "'w member_set \<Rightarrow> Grp \<Rightarrow> int \<Rightarrow> PWR_AttrName list \<Rightarrow> nat \<Rightarrow> u64 list \<times> addr status \<Rightarrow> 'w \<Rightarrow>
     ((int \<times> u64 list \<times> addr status) \<times> 'w) res" where
  "grp_attrSetValues put g num attr off b w =
     rbind (grp_set_loop put (g_list g) num attr off b w) (\<lambda>((vs, st), w).
     Inr ((if status_empty st then PWR_RET_SUCCESS else PWR_RET_FAILURE, vs, st), w))"

text \<open>The set of one attribute uses the member's operation on one attribute and records its error itself.\<close>

fun grp_setValue_loop ::
    "(addr \<Rightarrow> PWR_AttrName \<Rightarrow> u64 \<Rightarrow> 'w \<Rightarrow> ((int \<times> u64) \<times> 'w) res) \<Rightarrow> addr list \<Rightarrow> PWR_AttrName \<Rightarrow>
     u64 \<times> addr status \<Rightarrow> 'w \<Rightarrow> ((u64 \<times> addr status) \<times> 'w) res" where
  "grp_setValue_loop put [] attr b w = Inr (b, w)"
| "grp_setValue_loop put (ob # obs) attr (v, st) w =
     rbind (put ob attr v w) (\<lambda>((r, v), w).
     grp_setValue_loop put obs attr (v, if r \<noteq> PWR_RET_SUCCESS then status_add ob attr r st else st) w)"

definition grp_attrSetValue ::
    "(addr \<Rightarrow> PWR_AttrName \<Rightarrow> u64 \<Rightarrow> 'w \<Rightarrow> ((int \<times> u64) \<times> 'w) res) \<Rightarrow> Grp \<Rightarrow> PWR_AttrName \<Rightarrow>
     u64 \<times> addr status \<Rightarrow> 'w \<Rightarrow> ((int \<times> u64 \<times> addr status) \<times> 'w) res" where
  "grp_attrSetValue put g attr b w =
     rbind (grp_setValue_loop put (g_list g) attr b w) (\<lambda>((v, st), w).
     Inr ((if status_empty st then PWR_RET_SUCCESS else PWR_RET_FAILURE, v, st), w))"

text \<open>The objects of a table as members of a group (the class \<^verbatim>\<open>Object\<close> itself, no derived one).\<close>

definition member_getValues :: "(addr \<Rightarrow> 's Object option) \<Rightarrow> 's member_get" where
  "member_getValues tab self count names off b s =
     rbind (deref (tab self)) (\<lambda>ob. attrGetValues ob self count names off b s)"

definition member_setValues :: "(addr \<Rightarrow> 's Object option) \<Rightarrow> 's member_set" where
  "member_setValues tab self count names off b s =
     rbind (deref (tab self)) (\<lambda>ob. attrSetValues ob self count names off b s)"

end
