(* ===== verification/Cntxt.thy ===== *)
theory Cntxt
  imports Object Double "HOL-Library.List_Lexorder" "HOL-Library.Char_ord"
begin

text \<open>
  The context: \<^verbatim>\<open>cntxt.h\<close>, \<^verbatim>\<open>cntxt.cc\<close>, \<^verbatim>\<open>distCntxt.h\<close>, \<^verbatim>\<open>distCntxt.cc\<close>, with
  the constructors of \<^verbatim>\<open>DistObject\<close> and \<^verbatim>\<open>DistComm\<close> and the members of \<^verbatim>\<open>DistGrp\<close>.
  It builds objects from the configuration on demand, finds out which devices and which remote objects
  provide an attribute, and loads plugins and opens devices when they are first needed.

  The configuration is the interface \<^verbatim>\<open>Config\<close> of \<^verbatim>\<open>config.h\<close>, a record of its
  queries: they do not change it, and a query may be a fault, which is a fault of the operation that asks. What a plugin library exports
  is an argument of the model: nothing if the library cannot be loaded, and no device in it if it has no function for one. A set of
  strings is its increasing list, the order in which the code iterates over it.
\<close>

section \<open>The configuration\<close>

record SysDev =
  sd_name :: string
  sd_plugin :: string
  sd_initString :: string

record ObjDev =
  od_device :: string
  od_openString :: string

record PluginLib =
  pl_name :: string
  pl_lib :: string

record config =
  ask_findParent :: "string \<Rightarrow> string res"
  ask_findAttrHz :: "string \<Rightarrow> PWR_AttrName \<Rightarrow> string res"
  ask_findAttrOp :: "string \<Rightarrow> PWR_AttrName \<Rightarrow> string res"
  ask_findAttrType :: "string \<Rightarrow> PWR_AttrName \<Rightarrow> string res"
  ask_findAttrChildren :: "string \<Rightarrow> PWR_AttrName \<Rightarrow> string list res"
  ask_findChildren :: "string \<Rightarrow> string list res"
  ask_hasServer :: "string \<Rightarrow> bool res"
  ask_findObjDevs :: "string \<Rightarrow> PWR_AttrName \<Rightarrow> ObjDev list res"
  ask_findPlugins :: "PluginLib list res"
  ask_findSysDevs :: "SysDev list res"
  ask_objType :: "string \<Rightarrow> PWR_ObjType res"

text \<open>
  The answer of a query, for statements about operations that have asked it and have not failed; the operations themselves take the
  queries.
\<close>

definition answer :: "'a \<Rightarrow> 'a res \<Rightarrow> 'a" where
  "answer d r = (case r of Inr x \<Rightarrow> x | Inl _ \<Rightarrow> d)"

lemma answer_Inr [simp]: "answer d (Inr x) = x"
  by (simp add: answer_def)

lemma answer_Inl [simp]: "answer d (Inl e) = d"
  by (simp add: answer_def)

definition findParent :: "config \<Rightarrow> string \<Rightarrow> string" where
  "findParent cfg nm = answer [] (ask_findParent cfg nm)"

definition findAttrOp :: "config \<Rightarrow> string \<Rightarrow> PWR_AttrName \<Rightarrow> string" where
  "findAttrOp cfg nm a = answer [] (ask_findAttrOp cfg nm a)"

definition findAttrChildren :: "config \<Rightarrow> string \<Rightarrow> PWR_AttrName \<Rightarrow> string list" where
  "findAttrChildren cfg nm a = answer [] (ask_findAttrChildren cfg nm a)"

definition findChildren :: "config \<Rightarrow> string \<Rightarrow> string list" where
  "findChildren cfg nm = answer [] (ask_findChildren cfg nm)"

definition hasServer :: "config \<Rightarrow> string \<Rightarrow> bool" where
  "hasServer cfg nm = answer False (ask_hasServer cfg nm)"

definition findObjDevs :: "config \<Rightarrow> string \<Rightarrow> PWR_AttrName \<Rightarrow> ObjDev list" where
  "findObjDevs cfg nm a = answer [] (ask_findObjDevs cfg nm a)"

definition cfg_objType :: "config \<Rightarrow> string \<Rightarrow> PWR_ObjType" where
  "cfg_objType cfg nm = answer PWR_OBJ_INVALID (ask_objType cfg nm)"

lemmas answers = findParent_def findAttrOp_def findAttrChildren_def findChildren_def hasServer_def findObjDevs_def cfg_objType_def

section \<open>The state of a context\<close>

text \<open>
  A \<^verbatim>\<open>DistObject\<close> is an object and the communicator of its attributes; a \<^verbatim>\<open>DistGrp\<close>
  keeps its local members in the list of \<^verbatim>\<open>Grp\<close>, the remote ones and all of them in lists of its own.
\<close>

record 's DistObject =
  d_obj :: "'s Object"
  d_comm :: "addr option"

record DistGrp =
  dg_grp :: Grp
  dg_distObjs :: "addr list"
  dg_allObjs :: "addr list"
  dg_comm :: "addr option"

datatype AnyGrp = PlainGrp Grp | DGrp DistGrp

record DistComm =
  dc_commID :: u64
  dc_objects :: "string list"
  dc_ec :: bool

record 's cntxt =
  world :: 's
  m_config :: config
  m_rootName :: string
  m_rootObj :: "addr option"
  getDev :: "string \<Rightarrow> string \<Rightarrow> 's plugin_dev_t option option"
  sysname :: string
  gettid :: u32
  m_currentCommID :: u32
  m_objMap :: "string \<rightharpoonup> addr"
  m_groupMap :: "string \<rightharpoonup> addr"
  m_pluginLibMap :: "string \<rightharpoonup> 's plugin_dev_t"
  m_devMap :: "string \<rightharpoonup> 's plugin_dev_t \<times> addr"
  m_deviceMap :: "addr \<times> string \<rightharpoonup> 's Device"
  m_commMap :: "string list \<rightharpoonup> addr"
  c_ops :: "'s plugin_devops_t list"
  c_objs :: "'s DistObject heap"
  c_grps :: "AnyGrp heap"
  c_comms :: "DistComm heap"

section \<open>Plugins and devices\<close>

definition init_plugin :: "PluginLib \<Rightarrow> 's cntxt \<Rightarrow> 's cntxt res" where
  "init_plugin p c =
     (let lib = pl_lib p @ (if sysname c = ''Darwin'' then ''.dylib'' else ''.so'') in
      case getDev c lib (pl_name p) of
        None \<Rightarrow> Inl (ExitCall (-1))
      | Some None \<Rightarrow> Inl AssertFail
      | Some (Some d) \<Rightarrow> Inr (c\<lparr>m_pluginLibMap := (m_pluginLibMap c)(pl_name p \<mapsto> d)\<rparr>))"

definition initPlugins :: "'s cntxt \<Rightarrow> 's cntxt res" where
  "initPlugins c = rbind (ask_findPlugins (m_config c)) (\<lambda>ps. foldM init_plugin ps c)"

text \<open>The first device with the name; a plugin that is not in the configuration is a null pointer.\<close>

fun init_sysdev :: "string \<Rightarrow> SysDev list \<Rightarrow> 's cntxt \<Rightarrow> (bool \<times> 's cntxt) res" where
  "init_sysdev devName [] c = Inr (False, c)"
| "init_sysdev devName (dev # sds) c =
     (if devName = sd_name dev then
        rbind (deref (m_pluginLibMap c (sd_plugin dev))) (\<lambda>pl.
        rbind (pd_init pl (sd_initString dev) (world c)) (\<lambda>(ops, w).
        case ops of
          None \<Rightarrow> Inl AssertFail
        | Some ops \<Rightarrow>
            Inr (True, c\<lparr>world := w, m_devMap := (m_devMap c)(sd_name dev \<mapsto> (pl, length (c_ops c))),
                         c_ops := c_ops c @ [ops]\<rparr>)))
      else init_sysdev devName sds c)"

definition initDevice :: "string \<Rightarrow> 's cntxt \<Rightarrow> (bool \<times> 's cntxt) res" where
  "initDevice devName c =
     rbind (initPlugins c) (\<lambda>c. rbind (ask_findSysDevs (m_config c)) (\<lambda>sds. init_sysdev devName sds c))"

definition need_device :: "string \<Rightarrow> 's cntxt \<Rightarrow> 's cntxt res" where
  "need_device devName c =
     (if m_devMap c devName = None
      then rbind (initDevice devName c) (\<lambda>(ok, c). rbind (assert_c ok) (\<lambda>_. Inr c))
      else Inr c)"

definition open_device :: "addr \<Rightarrow> string \<Rightarrow> 's cntxt \<Rightarrow> ('s Device \<times> 's cntxt) res" where
  "open_device a openString c =
     (case m_deviceMap c (a, openString) of
        Some d \<Rightarrow> Inr (d, c)
      | None \<Rightarrow>
          rbind (aread (c_ops c) a) (\<lambda>ops.
          rbind (new_Device ops openString (world c)) (\<lambda>(d, w).
          Inr (d, c\<lparr>world := w, m_deviceMap := (m_deviceMap c)((a, openString) \<mapsto> d)\<rparr>))))"

section \<open>Attributes\<close>

definition add_local :: "ObjDev \<Rightarrow> ('s Device list \<times> string list) \<times> 's cntxt \<Rightarrow>
    (('s Device list \<times> string list) \<times> 's cntxt) res" where
  "add_local dev st =
     (case st of ((local, remote), c) \<Rightarrow>
      rbind (need_device (od_device dev) c) (\<lambda>c.
      rbind (deref (m_devMap c (od_device dev))) (\<lambda>(_, a).
      rbind (open_device a (od_openString dev) c) (\<lambda>(d, c).
      Inr ((local @ [d], remote), c)))))"

primrec traverse :: "nat \<Rightarrow> PWR_AttrName \<Rightarrow> string \<Rightarrow> ('s Device list \<times> string list) \<times> 's cntxt \<Rightarrow>
    (('s Device list \<times> string list) \<times> 's cntxt) res" where
  "traverse 0 attr objName st = Inl Diverges"
| "traverse (Suc n) attr objName st =
     (case st of ((local, remote), c) \<Rightarrow>
      rbind (ask_hasServer (m_config c) objName) (\<lambda>srv.
      if srv \<and> objName \<noteq> m_rootName c
      then Inr ((local, insort_insert objName remote), c)
      else
        rbind (ask_findObjDevs (m_config c) objName attr) (\<lambda>ds.
        rbind (foldM add_local ds st) (\<lambda>st.
        rbind (ask_findAttrChildren (m_config c) objName attr) (\<lambda>chs. foldM (traverse n attr) chs st)))))"

definition sumOp :: "u64 list \<Rightarrow> u64" where
  "sumOp xs = fold (\<lambda>x t. fadd t x) xs fzero"

definition avgOp :: "u64 list \<Rightarrow> u64" where
  "avgOp xs = fdiv (sumOp xs) (f_of_int (int (length xs)))"

definition timeOp :: "u64 list \<Rightarrow> u64 res" where
  "timeOp x = aread x 0"

text \<open>\<^verbatim>\<open>DistComm::DistComm\<close>: the number of the thread and a counter make the identifier.\<close>

definition new_commID :: "'s cntxt \<Rightarrow> u64" where
  "new_commID c = push_bit 32 (ucast (gettid c)) OR ucast (m_currentCommID c)"

definition new_DistComm :: "string list \<Rightarrow> bool \<Rightarrow> 's cntxt \<Rightarrow> addr \<times> 's cntxt" where
  "new_DistComm objects ec c =
     (length (c_comms c),
      c\<lparr>c_comms := c_comms c @ [Some \<lparr>dc_commID = new_commID c, dc_objects = objects, dc_ec = ec\<rparr>],
        m_currentCommID := m_currentCommID c + 1\<rparr>)"

definition getCommunicator :: "string list \<Rightarrow> 's cntxt \<Rightarrow> addr \<times> 's cntxt" where
  "getCommunicator objects c =
     (case m_commMap c objects of
        Some a \<Rightarrow> (a, c)
      | None \<Rightarrow> (case new_DistComm objects False c of (a, c) \<Rightarrow> (a, c\<lparr>m_commMap := (m_commMap c)(objects \<mapsto> a)\<rparr>)))"

text \<open>The operation and the value operation of an attribute; anything but SUM and AVG is no operation.\<close>

definition attr_op :: "string \<Rightarrow> string \<Rightarrow> ((u64 list \<Rightarrow> u64) option \<times> ValueOp) res" where
  "attr_op op ty =
     (if op = ''SUM'' then
        if ty = ''Float'' then Inr (Some sumOp, FP_ADD)
        else if ty = ''Integer'' then Inr (Some sumOp, INT_ADD)
        else Inl AssertFail
      else if op = ''AVG'' then
        if ty = ''Float'' then Inr (Some avgOp, FP_AVG)
        else if ty = ''Integer'' then Inr (Some avgOp, INT_AVG)
        else Inl AssertFail
      else Inr (None, NO_OP))"

definition initAttr :: "nat \<Rightarrow> string \<Rightarrow> PWR_AttrName \<Rightarrow> 's cntxt \<Rightarrow> ('s AttrInfo \<times> 's cntxt) res" where
  "initAttr n name attr c =
     rbind (ask_findAttrOp (m_config c) name attr) (\<lambda>op.
     rbind (ask_findAttrType (m_config c) name attr) (\<lambda>ty.
     rbind (attr_op op ty) (\<lambda>(f, vOp).
     let info = new_AttrInfo f timeOp vOp in
     if vOp \<noteq> NO_OP then
       rbind (traverse n attr name (([], []), c)) (\<lambda>((local, remote), c).
       if remote \<noteq> [] then
         (case getCommunicator remote c of (a, c) \<Rightarrow> Inr (info\<lparr>ai_devices := local, ai_comm := Some a\<rparr>, c))
       else Inr (info\<lparr>ai_devices := local\<rparr>, c))
     else Inr (info, c))))"

section \<open>Objects\<close>

definition init_attrs :: "nat \<Rightarrow> string \<Rightarrow> 's cntxt \<Rightarrow> ('s AttrInfo list \<times> 's cntxt) res" where
  "init_attrs n name c =
     foldM (\<lambda>attr (infos, c). rbind (initAttr n name attr c) (\<lambda>(i, c). Inr (infos @ [i], c))) real_attrs ([], c)"

text \<open>
  The constructor of \<^verbatim>\<open>DistObject\<close>. Its first loop takes the communicator of attribute 0
  when any attribute has one, the second the first one there is; all must be the same.
\<close>

fun check_comms :: "'s AttrInfo list \<Rightarrow> addr option \<Rightarrow> addr option res" where
  "check_comms [] m = Inr m"
| "check_comms (i # is) m =
     rbind (assert_c (\<not> (ai_comm i \<noteq> None \<and> ai_devices i \<noteq> []))) (\<lambda>_.
     if m = None then check_comms is (ai_comm i)
     else if ai_comm i \<noteq> None then rbind (assert_c (m = ai_comm i)) (\<lambda>_. check_comms is m)
     else check_comms is m)"

definition dist_comm :: "'s AttrInfo list \<Rightarrow> addr option res" where
  "dist_comm infos =
     rbind (if \<exists>i \<in> set infos. ai_comm i \<noteq> None then rbind (aread infos 0) (\<lambda>i. Inr (ai_comm i)) else Inr None)
       (check_comms infos)"

definition createObject :: "nat \<Rightarrow> string \<Rightarrow> PWR_ObjType \<Rightarrow> 's cntxt \<Rightarrow> (addr \<times> 's cntxt) res" where
  "createObject n name type c =
     rbind (init_attrs n name c) (\<lambda>(infos, c).
     rbind (dist_comm infos) (\<lambda>m.
     Inr (length (c_objs c),
          c\<lparr>c_objs := c_objs c @ [Some \<lparr>d_obj = \<lparr>m_name = name, m_objType = type, m_attrInfo = infos,
                                     m_parent = None, m_children = None\<rparr>, d_comm = m\<rparr>]\<rparr>)))"

definition findObject :: "nat \<Rightarrow> string \<Rightarrow> 's cntxt \<Rightarrow> (addr option \<times> 's cntxt) res" where
  "findObject n name c =
     (case m_objMap c name of
        Some a \<Rightarrow> Inr (Some a, c)
      | None \<Rightarrow>
          rbind (ask_objType (m_config c) name) (\<lambda>type.
           if type = PWR_OBJ_INVALID then Inr (None, c)
           else
             rbind (createObject n name type c) (\<lambda>(a, c).
             Inr (Some a, c\<lparr>m_objMap := (m_objMap c)(name \<mapsto> a)\<rparr>))))"

text \<open>The part of the constructor of \<^verbatim>\<open>DistCntxt\<close> that finds the root: without it the program ends.\<close>

definition init_root :: "nat \<Rightarrow> string \<Rightarrow> 's cntxt \<Rightarrow> 's cntxt res" where
  "init_root n env c =
     rbind (findObject n env (c\<lparr>m_rootName := env\<rparr>)) (\<lambda>(r, c).
     case r of None \<Rightarrow> Inl (ExitCall (-1)) | Some a \<Rightarrow> Inr (c\<lparr>m_rootObj := Some a\<rparr>))"

definition getObjByName :: "nat \<Rightarrow> string \<Rightarrow> 's cntxt \<Rightarrow> (addr option \<times> 's cntxt) res" where
  "getObjByName n name c = findObject n name c"

definition getSelf :: "'s cntxt \<Rightarrow> addr option" where
  "getSelf c = m_rootObj c"

definition getEntryPoint :: "'s cntxt \<Rightarrow> addr option" where
  "getEntryPoint c = getSelf c"

definition obj_name :: "addr \<Rightarrow> 's cntxt \<Rightarrow> string res" where
  "obj_name a c = rbind (heap_get (c_objs c) a) (\<lambda>x. Inr (m_name (d_obj x)))"

definition must_find :: "nat \<Rightarrow> string \<Rightarrow> 's cntxt \<Rightarrow> (addr \<times> 's cntxt) res" where
  "must_find n name c =
     rbind (findObject n name c) (\<lambda>(r, c). case r of None \<Rightarrow> Inl AssertFail | Some a \<Rightarrow> Inr (a, c))"

definition getParent :: "nat \<Rightarrow> addr \<Rightarrow> 's cntxt \<Rightarrow> (addr option \<times> 's cntxt) res" where
  "getParent n ob c =
     (if Some ob = m_rootObj c then Inr (None, c)
      else
        rbind (obj_name ob c) (\<lambda>nm.
        rbind (ask_findParent (m_config c) nm) (\<lambda>parentName.
        if parentName = [] then Inr (None, c)
        else
          (case m_objMap c parentName of
             Some a \<Rightarrow> Inr (Some a, c)
           | None \<Rightarrow>
               rbind (must_find n parentName c) (\<lambda>(a, c).
               Inr (Some a, c\<lparr>m_objMap := (m_objMap c)(parentName \<mapsto> a)\<rparr>))))))"

section \<open>Groups\<close>

definition is_local :: "addr \<Rightarrow> 's cntxt \<Rightarrow> bool res" where
  "is_local ob c = rbind (heap_get (c_objs c) ob) (\<lambda>x. Inr (d_comm x = None))"

definition distgrp_add :: "addr \<Rightarrow> bool \<Rightarrow> DistGrp \<Rightarrow> int \<times> DistGrp" where
  "distgrp_add ob loc g =
     (if loc then
        (PWR_RET_SUCCESS, g\<lparr>dg_grp := snd (grp_add ob (dg_grp g)), dg_allObjs := dg_allObjs g @ [ob]\<rparr>)
      else if ob \<in> set (dg_distObjs g) then (PWR_RET_FAILURE, g)
      else (PWR_RET_SUCCESS, g\<lparr>dg_distObjs := dg_distObjs g @ [ob], dg_allObjs := dg_allObjs g @ [ob]\<rparr>))"

definition distgrp_size :: "DistGrp \<Rightarrow> nat" where
  "distgrp_size g = length (dg_allObjs g)"

definition distgrp_getObj :: "DistGrp \<Rightarrow> nat \<Rightarrow> addr res" where
  "distgrp_getObj g i = aread (dg_allObjs g) i"

definition new_DistGrp :: "string \<Rightarrow> DistGrp" where
  "new_DistGrp nm = \<lparr>dg_grp = \<lparr>g_name = nm, g_list = []\<rparr>, dg_distObjs = [], dg_allObjs = [], dg_comm = None\<rparr>"

text \<open>The virtual operations; \<^verbatim>\<open>remove\<close> is not virtual and always that of \<^verbatim>\<open>Grp\<close>.\<close>

definition any_add :: "addr \<Rightarrow> addr \<Rightarrow> 's cntxt \<Rightarrow> (int \<times> 's cntxt) res" where
  "any_add g ob c =
     rbind (heap_get (c_grps c) g) (\<lambda>x.
     rbind (case x of
              PlainGrp y \<Rightarrow> (case grp_add ob y of (r, y) \<Rightarrow> Inr (r, PlainGrp y))
            | DGrp y \<Rightarrow> rbind (is_local ob c) (\<lambda>l. case distgrp_add ob l y of (r, y) \<Rightarrow> Inr (r, DGrp y)))
       (\<lambda>(r, x). rbind (heap_set g x (c_grps c)) (\<lambda>h. Inr (r, c\<lparr>c_grps := h\<rparr>))))"

definition any_remove :: "addr \<Rightarrow> addr \<Rightarrow> 's cntxt \<Rightarrow> (int \<times> 's cntxt) res" where
  "any_remove g ob c =
     rbind (heap_get (c_grps c) g) (\<lambda>x.
     rbind (heap_set g (case x of
                          PlainGrp y \<Rightarrow> PlainGrp (snd (grp_remove ob y))
                        | DGrp y \<Rightarrow> DGrp (y\<lparr>dg_grp := snd (grp_remove ob (dg_grp y))\<rparr>)) (c_grps c)) (\<lambda>h.
     Inr (PWR_RET_SUCCESS, c\<lparr>c_grps := h\<rparr>)))"

definition any_size :: "addr \<Rightarrow> 's cntxt \<Rightarrow> nat res" where
  "any_size g c =
     rbind (heap_get (c_grps c) g) (\<lambda>x.
     Inr (case x of PlainGrp y \<Rightarrow> grp_size y | DGrp y \<Rightarrow> distgrp_size y))"

definition any_getObj :: "addr \<Rightarrow> nat \<Rightarrow> 's cntxt \<Rightarrow> addr res" where
  "any_getObj g i c =
     rbind (heap_get (c_grps c) g) (\<lambda>x. case x of PlainGrp y \<Rightarrow> grp_getObj y i | DGrp y \<Rightarrow> distgrp_getObj y i)"

definition new_grp :: "AnyGrp \<Rightarrow> 's cntxt \<Rightarrow> addr \<times> 's cntxt" where
  "new_grp g c = (length (c_grps c), c\<lparr>c_grps := c_grps c @ [Some g]\<rparr>)"

text \<open>\<^verbatim>\<open>DistCntxt::createGrp\<close> and \<^verbatim>\<open>destroyGrp\<close>, which leave \<^verbatim>\<open>m_groupMap\<close> alone.\<close>

definition createGrp :: "string \<Rightarrow> 's cntxt \<Rightarrow> addr \<times> 's cntxt" where
  "createGrp nm c = new_grp (DGrp (new_DistGrp nm)) c"

definition destroyGrp :: "addr \<Rightarrow> 's cntxt \<Rightarrow> (int \<times> 's cntxt) res" where
  "destroyGrp g c = rbind (heap_free g (c_grps c)) (\<lambda>h. Inr (PWR_RET_SUCCESS, c\<lparr>c_grps := h\<rparr>))"

definition getGrpByName :: "string \<Rightarrow> 's cntxt \<Rightarrow> addr option" where
  "getGrpByName nm c = m_groupMap c nm"

definition getChildren :: "nat \<Rightarrow> addr \<Rightarrow> 's cntxt \<Rightarrow> (addr \<times> 's cntxt) res" where
  "getChildren n ob c =
     (case new_grp (PlainGrp \<lparr>g_name = [], g_list = []\<rparr>) c of (g, c) \<Rightarrow>
      rbind (obj_name ob c) (\<lambda>nm.
      rbind (ask_findChildren (m_config c) nm) (\<lambda>chs.
      rbind (foldM (\<lambda>ch c. rbind (must_find n ch c) (\<lambda>(a, c). rbind (any_add g a c) (\<lambda>(_, c). Inr c))) chs c) (\<lambda>c.
      Inr (g, c)))))"

definition object_upd :: "addr \<Rightarrow> ('s Object \<Rightarrow> 's Object) \<Rightarrow> 's cntxt \<Rightarrow> 's cntxt res" where
  "object_upd ob f c =
     rbind (heap_get (c_objs c) ob) (\<lambda>x.
     rbind (heap_set ob (x\<lparr>d_obj := f (d_obj x)\<rparr>) (c_objs c)) (\<lambda>h. Inr (c\<lparr>c_objs := h\<rparr>)))"

text \<open>\<^verbatim>\<open>Object::parent\<close> and \<^verbatim>\<open>Object::children\<close> keep what the context found.\<close>

definition obj_parent :: "nat \<Rightarrow> addr \<Rightarrow> 's cntxt \<Rightarrow> (addr option \<times> 's cntxt) res" where
  "obj_parent n ob c =
     rbind (heap_get (c_objs c) ob) (\<lambda>x.
     if m_parent (d_obj x) \<noteq> None then Inr (m_parent (d_obj x), c)
     else
       rbind (getParent n ob c) (\<lambda>(p, c).
       rbind (object_upd ob (\<lambda>x. x\<lparr>m_parent := p\<rparr>) c) (\<lambda>c. Inr (p, c))))"

definition obj_children :: "nat \<Rightarrow> addr \<Rightarrow> 's cntxt \<Rightarrow> (addr \<times> 's cntxt) res" where
  "obj_children n ob c =
     rbind (heap_get (c_objs c) ob) (\<lambda>x.
     case m_children (d_obj x) of
       Some g \<Rightarrow> Inr (g, c)
     | None \<Rightarrow>
         rbind (getChildren n ob c) (\<lambda>(g, c).
         rbind (object_upd ob (\<lambda>x. x\<lparr>m_children := Some g\<rparr>) c) (\<lambda>c. Inr (g, c))))"

text \<open>\<^verbatim>\<open>Grp::find\<close>: the member whose name is its parent's name, a dot and \<open>name\<close>.\<close>

fun grp_find :: "nat \<Rightarrow> string \<Rightarrow> addr list \<Rightarrow> 's cntxt \<Rightarrow> (addr option \<times> 's cntxt) res" where
  "grp_find n name [] c = Inr (None, c)"
| "grp_find n name (ob # obs) c =
     rbind (obj_parent n ob c) (\<lambda>(p, c).
     case p of
       None \<Rightarrow> grp_find n name obs c
     | Some p \<Rightarrow>
         rbind (obj_name p c) (\<lambda>pn.
         rbind (obj_name ob c) (\<lambda>on.
         if pn @ ''.'' @ name = on then Inr (Some ob, c) else grp_find n name obs c)))"

primrec findAllObjType :: "nat \<Rightarrow> PWR_ObjType \<Rightarrow> addr \<Rightarrow> addr \<Rightarrow> 's cntxt \<Rightarrow> 's cntxt res" where
  "findAllObjType 0 type g ob c = Inl Diverges"
| "findAllObjType (Suc n) type g ob c =
     rbind (heap_get (c_objs c) ob) (\<lambda>x.
     if m_objType (d_obj x) = type then rbind (any_add g ob c) (\<lambda>(_, c). Inr c)
     else
       rbind (ask_findChildren (m_config c) (m_name (d_obj x))) (\<lambda>chs.
       foldM (\<lambda>ch c. rbind (must_find n ch c) (\<lambda>(a, c). findAllObjType n type g a c)) chs c))"

text \<open>A group that is already in the map is not returned: the variable keeps its null pointer.\<close>

definition getGrp :: "nat \<Rightarrow> PWR_ObjType \<Rightarrow> 's cntxt \<Rightarrow> (addr option \<times> 's cntxt) res" where
  "getGrp n type c =
     (let nm = ''internal'' @ objTypeToString type in
      case m_groupMap c nm of
        Some _ \<Rightarrow> Inr (None, c)
      | None \<Rightarrow>
          (case createGrp nm c of (g, c) \<Rightarrow>
           rbind (deref (getSelf c)) (\<lambda>root.
           rbind (findAllObjType n type g root c) (\<lambda>c.
           rbind (any_size g c) (\<lambda>k.
           if k = 0 then rbind (destroyGrp g c) (\<lambda>(_, c). Inr (None, c)) else Inr (Some g, c))))))"

end
