(* ===== verification/Dist.thy ===== *)
theory Dist
  imports Cntxt EventChannel
begin

text \<open>
  The client side of the distributed objects: \<^verbatim>\<open>request.h\<close>, \<^verbatim>\<open>distRequest\<close>,
  \<^verbatim>\<open>communicator.h\<close>, \<^verbatim>\<open>distComm\<close>, \<^verbatim>\<open>distGrpComm\<close>, \<^verbatim>\<open>distObject\<close>,
  \<^verbatim>\<open>distGroup\<close> and \<^verbatim>\<open>DistCntxt::makeProgress\<close>. An operation on an attribute
  that another process provides sends an event that carries the address of a communication request as its
  id, and the response that comes back with that id is dispatched to the request.

  Buffers are blocks on two heaps, one of values and one of times, and a pointer is a block with an
  offset; requests, communication requests and statuses live on heaps of their own. \<open>ec_in\<close> is
  what the event channel is going to deliver before it is closed, \<open>ec_out\<close> what was sent on it,
  and \<open>cjunk\<close> what an uninitialised word reads. The callback of a request is code of the user:
  \<open>app\<close>, applied to the data pointer and the whole state, of which \<open>user\<close> is his part.
\<close>

section \<open>State\<close>

type_synonym ptr = "(addr \<times> nat) option"

datatype creq_kind = SetCommReq | GetCommReq | StartLogCommReq | StopLogCommReq | GetSamplesCommReq

record DistCommReq =
  cr_kind :: creq_kind
  cr_req :: addr

record DistRequest =
  rq_value :: "ptr list"
  rq_timeStamp :: "ptr list"
  rq_status :: addr
  rq_callback :: "nat option"
  rq_commReqs :: "addr set"

record ('s, 'u) client =
  cx :: "'s cntxt"
  m_evChan :: bool
  vmem :: "u64 list heap"
  tmem :: "u64 list heap"
  stats :: "addr option status heap"
  reqs :: "DistRequest heap"
  creqs :: "DistCommReq heap"
  ec_in :: "AnyEvent list"
  ec_out :: "AnyEvent list"
  cjunk :: u64
  user :: 'u

type_synonym ('s, 'u) app = "nat \<Rightarrow> ('s, 'u) client \<Rightarrow> ('s, 'u) client res"

definition vwrite :: "ptr \<Rightarrow> nat \<Rightarrow> u64 \<Rightarrow> ('s, 'u) client \<Rightarrow> ('s, 'u) client res" where
  "vwrite p j v c =
     rbind (deref p) (\<lambda>(b, off).
     rbind (heap_get (vmem c) b) (\<lambda>xs.
     rbind (awrite xs (off + j) v) (\<lambda>xs. Inr (c\<lparr>vmem := (vmem c)[b := Some xs]\<rparr>))))"

definition twrite :: "ptr \<Rightarrow> nat \<Rightarrow> u64 \<Rightarrow> ('s, 'u) client \<Rightarrow> ('s, 'u) client res" where
  "twrite p j v c =
     rbind (deref p) (\<lambda>(b, off).
     rbind (heap_get (tmem c) b) (\<lambda>xs.
     rbind (awrite xs (off + j) v) (\<lambda>xs. Inr (c\<lparr>tmem := (tmem c)[b := Some xs]\<rparr>))))"

section \<open>Requests\<close>

text \<open>The vectors of a request begin with one null pointer.\<close>

definition new_DistRequest :: "addr \<Rightarrow> nat option \<Rightarrow> ('s, 'u) client \<Rightarrow> addr \<times> ('s, 'u) client" where
  "new_DistRequest status callback c =
     (length (reqs c),
      c\<lparr>reqs := reqs c @ [Some \<lparr>rq_value = [None], rq_timeStamp = [None], rq_status = status,
                              rq_callback = callback, rq_commReqs = {}\<rparr>]\<rparr>)"

definition req_upd :: "addr \<Rightarrow> (DistRequest \<Rightarrow> DistRequest) \<Rightarrow> ('s, 'u) client \<Rightarrow> ('s, 'u) client res" where
  "req_upd q f c =
     rbind (heap_get (reqs c) q) (\<lambda>r. Inr (c\<lparr>reqs := (reqs c)[q := Some (f r)]\<rparr>))"

definition req_delete :: "addr \<Rightarrow> ('s, 'u) client \<Rightarrow> ('s, 'u) client res" where
  "req_delete q c = rbind (heap_free q (reqs c)) (\<lambda>h. Inr (c\<lparr>reqs := h\<rparr>))"

definition req_finished :: "addr \<Rightarrow> ('s, 'u) client \<Rightarrow> bool res" where
  "req_finished q c = rbind (heap_get (reqs c) q) (\<lambda>r. Inr (rq_commReqs r = {}))"

definition req_insert :: "addr \<Rightarrow> addr \<Rightarrow> ('s, 'u) client \<Rightarrow> ('s, 'u) client res" where
  "req_insert q a = req_upd q (\<lambda>r. r\<lparr>rq_commReqs := insert a (rq_commReqs r)\<rparr>)"

definition req_erase :: "addr \<Rightarrow> addr \<Rightarrow> ('s, 'u) client \<Rightarrow> ('s, 'u) client res" where
  "req_erase q a = req_upd q (\<lambda>r. r\<lparr>rq_commReqs := rq_commReqs r - {a}\<rparr>)"

definition execCallback :: "('s, 'u) app \<Rightarrow> addr \<Rightarrow> ('s, 'u) client \<Rightarrow> (bool \<times> ('s, 'u) client) res" where
  "execCallback app q c =
     rbind (heap_get (reqs c) q) (\<lambda>r.
     case rq_callback r of
       None \<Rightarrow> Inr (False, c)
     | Some d \<Rightarrow> rbind (app d c) (\<lambda>c. Inr (False, c)))"

definition new_Status :: "('s, 'u) client \<Rightarrow> addr \<times> ('s, 'u) client" where
  "new_Status c = (length (stats c), c\<lparr>stats := stats c @ [Some []]\<rparr>)"

definition delete_Status :: "addr \<Rightarrow> ('s, 'u) client \<Rightarrow> ('s, 'u) client res" where
  "delete_Status a c = rbind (heap_free a (stats c)) (\<lambda>h. Inr (c\<lparr>stats := h\<rparr>))"

definition status_push :: "addr \<Rightarrow> addr option \<Rightarrow> PWR_AttrName \<Rightarrow> int \<Rightarrow> ('s, 'u) client \<Rightarrow> ('s, 'u) client res" where
  "status_push a ob attr e c =
     rbind (heap_get (stats c) a) (\<lambda>st. Inr (c\<lparr>stats := (stats c)[a := Some (status_add ob attr e st)]\<rparr>))"

section \<open>Responses\<close>

text \<open>The errors of a response go to the status, with the object of that name, or a null pointer.\<close>

fun report_errors ::
    "nat \<Rightarrow> addr \<Rightarrow> string list \<Rightarrow> PWR_AttrName list \<Rightarrow> u32 list \<Rightarrow> ('s, 'u) client \<Rightarrow> ('s, 'u) client res" where
  "report_errors n q objs attrs [] c = Inr c"
| "report_errors n q (ob # objs) (a # attrs) (e # es) c =
     rbind (getObjByName n ob (cx c)) (\<lambda>(o', x).
     rbind (heap_get (reqs c) q) (\<lambda>r.
     rbind (status_push (rq_status r) o' a (sint e) (c\<lparr>cx := x\<rparr>)) (\<lambda>c.
     report_errors n q objs attrs es c)))"
| "report_errors n q objs attrs (e # es) c = Inl OutOfBounds"

fun put_row ::
    "ptr \<Rightarrow> ptr list \<Rightarrow> u64 list list \<Rightarrow> nat \<Rightarrow> nat \<Rightarrow> u64 list \<Rightarrow> ('s, 'u) client \<Rightarrow> ('s, 'u) client res" where
  "put_row pv pts tss i j [] c = Inr c"
| "put_row pv pts tss i j (v # vs) c =
     rbind (vwrite pv j v c) (\<lambda>c.
     rbind (aread pts i) (\<lambda>pt.
     rbind (aread tss i) (\<lambda>ts.
     rbind (aread ts j) (\<lambda>t.
     rbind (twrite pt j t c) (\<lambda>c. put_row pv pts tss i (Suc j) vs c)))))"

fun put_rows ::
    "ptr list \<Rightarrow> u64 list list \<Rightarrow> nat \<Rightarrow> (ptr \<times> u64 list) list \<Rightarrow> ('s, 'u) client \<Rightarrow> ('s, 'u) client res" where
  "put_rows pts tss i [] c = Inr c"
| "put_rows pts tss i ((pv, vs) # rs) c =
     rbind (put_row pv pts tss i 0 vs c) (\<lambda>c. put_rows pts tss (Suc i) rs c)"

definition req_getValue :: "nat \<Rightarrow> addr \<Rightarrow> addr \<Rightarrow> CommRespEvent \<Rightarrow> ('s, 'u) client \<Rightarrow> ('s, 'u) client res" where
  "req_getValue n q a ev c =
     rbind (heap_get (reqs c) q) (\<lambda>r.
     rbind (assert_c (length (rq_value r) = length (r_value ev))) (\<lambda>_.
     rbind (put_rows (rq_timeStamp r) (r_timeStamp ev) 0 (zip (rq_value r) (r_value ev)) c) (\<lambda>c.
     rbind (report_errors n q (r_errObj ev) (r_errAttr ev) (r_errValue ev) c) (\<lambda>c.
     req_erase q a c))))"

definition req_setValue :: "nat \<Rightarrow> addr \<Rightarrow> addr \<Rightarrow> CommRespEvent \<Rightarrow> ('s, 'u) client \<Rightarrow> ('s, 'u) client res" where
  "req_setValue n q a ev c =
     rbind (report_errors n q (r_errObj ev) (r_errAttr ev) (r_errValue ev) c) (\<lambda>c. req_erase q a c)"

definition req_setRetval :: "nat \<Rightarrow> addr \<Rightarrow> addr \<Rightarrow> CommLogRespEvent \<Rightarrow> ('s, 'u) client \<Rightarrow> ('s, 'u) client res" where
  "req_setRetval n q a ev c =
     rbind (report_errors n q (l_errObj ev) (l_errAttr ev) (l_errValue ev) c) (\<lambda>c. req_erase q a c)"

text \<open>The errors of a response with samples are dropped.\<close>

fun put_samples :: "ptr \<Rightarrow> nat \<Rightarrow> nat \<Rightarrow> u64 list \<Rightarrow> ('s, 'u) client \<Rightarrow> ('s, 'u) client res" where
  "put_samples p 0 i xs c = Inr c"
| "put_samples p (Suc k) i xs c =
     rbind (aread xs i) (\<lambda>x. rbind (vwrite p i x c) (\<lambda>c. put_samples p k (Suc i) xs c))"

definition req_getSamples :: "addr \<Rightarrow> addr \<Rightarrow> CommGetSamplesRespEvent \<Rightarrow> ('s, 'u) client \<Rightarrow> ('s, 'u) client res" where
  "req_getSamples q a ev c =
     rbind (heap_get (reqs c) q) (\<lambda>r.
     rbind (aread (rq_value r) 0) (\<lambda>p.
     rbind (put_samples p (unat (sr_count ev)) 0 (sr_data ev) c) (\<lambda>c.
     rbind (aread (rq_timeStamp r) 0) (\<lambda>pt.
     rbind (twrite pt 0 (sr_startTime ev) c) (\<lambda>c. req_erase q a c)))))"

section \<open>Communication requests\<close>

text \<open>
  A communication request is known to the peers by the address the id of an event carries; 0 is the
  null pointer. The class of a request decides to which class its response is cast.
\<close>

definition creq_id :: "addr \<Rightarrow> u64" where
  "creq_id a = of_nat (Suc a)"

definition id_creq :: "u64 \<Rightarrow> addr res" where
  "id_creq i = (if i = 0 then Inl NullDeref else Inr (unat i - 1))"

definition new_creq :: "creq_kind \<Rightarrow> addr \<Rightarrow> ('s, 'u) client \<Rightarrow> addr \<times> ('s, 'u) client" where
  "new_creq k q c = (length (creqs c), c\<lparr>creqs := creqs c @ [Some \<lparr>cr_kind = k, cr_req = q\<rparr>]\<rparr>)"

definition creq_delete :: "addr \<Rightarrow> ('s, 'u) client \<Rightarrow> ('s, 'u) client res" where
  "creq_delete a c = rbind (heap_free a (creqs c)) (\<lambda>h. Inr (c\<lparr>creqs := h\<rparr>))"

definition creq_process :: "nat \<Rightarrow> addr \<Rightarrow> AnyEvent \<Rightarrow> ('s, 'u) client \<Rightarrow> ('s, 'u) client res" where
  "creq_process n a ev c =
     rbind (heap_get (creqs c) a) (\<lambda>cr.
     case (cr_kind cr, ev) of
       (GetCommReq, EvCommResp e) \<Rightarrow> req_getValue n (cr_req cr) a e c
     | (SetCommReq, EvCommResp e) \<Rightarrow> req_setValue n (cr_req cr) a e c
     | (StartLogCommReq, EvCommLogResp e) \<Rightarrow> req_setRetval n (cr_req cr) a e c
     | (StopLogCommReq, EvCommLogResp e) \<Rightarrow> req_setRetval n (cr_req cr) a e c
     | (GetSamplesCommReq, EvCommGetSamplesResp e) \<Rightarrow> req_getSamples (cr_req cr) a e c
     | _ \<Rightarrow> Inl Unspecified)"

section \<open>Waiting\<close>

text \<open>
  \<^verbatim>\<open>DistRequest::wait\<close>: the loop takes events off the channel until the request is
  finished or the channel is closed. Each turn takes one event, so that it recurses on the events to come.
\<close>

fun wait_loop :: "nat \<Rightarrow> addr \<Rightarrow> AnyEvent list \<Rightarrow> ('s, 'u) client \<Rightarrow> (bool \<times> ('s, 'u) client) res" where
  "wait_loop n q [] c =
     rbind (req_finished q c) (\<lambda>fin.
     if fin then Inr (True, c)
     else if \<not> m_evChan c then Inl NullDeref
     else Inr (False, c))"
| "wait_loop n q (ev # es) c =
     rbind (req_finished q c) (\<lambda>fin.
     if fin then Inr (True, c)
     else if \<not> m_evChan c then Inl NullDeref
     else
       rbind (id_creq (any_id ev)) (\<lambda>a.
       rbind (creq_process n a ev (c\<lparr>ec_in := es\<rparr>)) (\<lambda>c. wait_loop n q es c)))"

definition req_wait :: "nat \<Rightarrow> ('s, 'u) app \<Rightarrow> addr \<Rightarrow> ('s, 'u) client \<Rightarrow> (int \<times> ('s, 'u) client) res" where
  "req_wait n app q c =
     rbind (wait_loop n q (ec_in c) c) (\<lambda>(fin, c).
     if \<not> fin then Inr (PWR_RET_IPC, c)
     else rbind (execCallback app q c) (\<lambda>(_, c). Inr (PWR_RET_SUCCESS, c)))"

text \<open>\<^verbatim>\<open>DistCntxt::makeProgress\<close>: one event; the end of the channel is not checked for.\<close>

definition makeProgress :: "nat \<Rightarrow> ('s, 'u) app \<Rightarrow> ('s, 'u) client \<Rightarrow> (int \<times> ('s, 'u) client) res" where
  "makeProgress n app c =
     (if \<not> m_evChan c then Inl NullDeref
      else
        case ec_in c of
          [] \<Rightarrow> Inl NullDeref
        | ev # es \<Rightarrow>
            rbind (id_creq (any_id ev)) (\<lambda>a.
            rbind (creq_process n a ev (c\<lparr>ec_in := es\<rparr>)) (\<lambda>c.
            rbind (heap_get (creqs c) a) (\<lambda>cr.
            rbind (execCallback app (cr_req cr) c) (\<lambda>(_, c). Inr (PWR_RET_SUCCESS, c))))))"

section \<open>Communicators\<close>

definition send :: "AnyEvent \<Rightarrow> ('s, 'u) client \<Rightarrow> ('s, 'u) client" where
  "send ev c = c\<lparr>ec_out := ec_out c @ [ev]\<rparr>"

definition new_CommCreateEvent :: "u64 \<Rightarrow> string list list \<Rightarrow> CommCreateEvent" where
  "new_CommCreateEvent i ms =
     \<lparr>ev_type = type_word CommCreate, ev_id = 0, ev_status = 0, commID = i, op = Noop, members = ms\<rparr>"

text \<open>The first use of a communicator makes it known to the peer.\<close>

definition getChannel :: "addr \<Rightarrow> ('s, 'u) client \<Rightarrow> ('s, 'u) client res" where
  "getChannel a c =
     rbind (heap_get (c_comms (cx c)) a) (\<lambda>cm.
     if dc_ec cm then Inr c
     else
       rbind (assert_c (m_evChan c)) (\<lambda>_.
       let x = cx c; cm' = cm\<lparr>dc_ec := True\<rparr> in
       Inr (send (EvCommCreate (new_CommCreateEvent (dc_commID cm) [dc_objects cm]))
              (c\<lparr>cx := x\<lparr>c_comms := (c_comms x)[a := Some cm']\<rparr>\<rparr>))))"

definition comm_id :: "addr \<Rightarrow> ('s, 'u) client \<Rightarrow> u64 res" where
  "comm_id a c = rbind (heap_get (c_comms (cx c)) a) (\<lambda>cm. Inr (dc_commID cm))"

definition aread_n :: "'a list \<Rightarrow> nat \<Rightarrow> 'a list res" where
  "aread_n xs n = (if n \<le> length xs then Inr (take n xs) else Inl OutOfBounds)"

text \<open>The first cells at a pointer; a null pointer has none.\<close>

definition vblock :: "ptr \<Rightarrow> ('s, 'u) client \<Rightarrow> u64 list res" where
  "vblock p c = (case p of None \<Rightarrow> Inr [] | Some (b, off) \<Rightarrow> rbind (heap_get (vmem c) b) (\<lambda>xs. Inr (drop off xs)))"

definition tblock :: "ptr \<Rightarrow> ('s, 'u) client \<Rightarrow> u64 list res" where
  "tblock p c = (case p of None \<Rightarrow> Inr [] | Some (b, off) \<Rightarrow> rbind (heap_get (tmem c) b) (\<lambda>xs. Inr (drop off xs)))"

definition set_vblock :: "ptr \<Rightarrow> u64 list \<Rightarrow> ('s, 'u) client \<Rightarrow> ('s, 'u) client res" where
  "set_vblock p ys c =
     (case p of
        None \<Rightarrow> Inr c
      | Some (b, off) \<Rightarrow>
          rbind (heap_get (vmem c) b) (\<lambda>xs. Inr (c\<lparr>vmem := (vmem c)[b := Some (take off xs @ ys)]\<rparr>)))"

definition set_tblock :: "ptr \<Rightarrow> u64 list \<Rightarrow> ('s, 'u) client \<Rightarrow> ('s, 'u) client res" where
  "set_tblock p ys c =
     (case p of
        None \<Rightarrow> Inr c
      | Some (b, off) \<Rightarrow>
          rbind (heap_get (tmem c) b) (\<lambda>xs. Inr (c\<lparr>tmem := (tmem c)[b := Some (take off xs @ ys)]\<rparr>)))"

text \<open>\<^verbatim>\<open>setValues\<close> leaves the group index of its event uninitialised.\<close>

definition new_CommReqEvent :: "u64 \<Rightarrow> u64 \<Rightarrow> CommReqEvent" where
  "new_CommReqEvent jk i =
     \<lparr>ev_type = type_word CommReq, ev_id = i, ev_status = 0, commID = jk, op = Noop,
      grpIndex = jk, attrName = [], setValues = [], valueOp = []\<rparr>"

definition comm_getValues ::
    "addr \<Rightarrow> int \<Rightarrow> PWR_AttrName list \<Rightarrow> ValueOp list \<Rightarrow> addr \<Rightarrow> ('s, 'u) client \<Rightarrow> ('s, 'u) client res" where
  "comm_getValues cm count attr vop cr c =
     rbind (comm_id cm c) (\<lambda>i.
     rbind (aread_n vop (nat count)) (\<lambda>vop.
     rbind (aread_n attr (nat count)) (\<lambda>attr.
     rbind (getChannel cm c) (\<lambda>c.
     Inr (send (EvCommReq ((new_CommReqEvent (cjunk c) (creq_id cr))
            \<lparr>commID := i, op := OpGet, valueOp := vop, attrName := attr, grpIndex := 0\<rparr>)) c)))))"

definition comm_setValues ::
    "addr \<Rightarrow> int \<Rightarrow> PWR_AttrName list \<Rightarrow> ptr \<Rightarrow> addr \<Rightarrow> ('s, 'u) client \<Rightarrow> ('s, 'u) client res" where
  "comm_setValues cm count attr buf cr c =
     rbind (comm_id cm c) (\<lambda>i.
     rbind (aread_n attr (nat count)) (\<lambda>attr.
     rbind (vblock buf c) (\<lambda>vs.
     rbind (aread_n vs (nat count)) (\<lambda>vs.
     rbind (getChannel cm c) (\<lambda>c.
     Inr (send (EvCommReq ((new_CommReqEvent (cjunk c) (creq_id cr))
            \<lparr>commID := i, op := OpSet, attrName := attr, setValues := vs\<rparr>)) c))))))"

definition new_CommLogReqEvent :: "u64 \<Rightarrow> OpType \<Rightarrow> PWR_AttrName \<Rightarrow> u64 \<Rightarrow> CommLogReqEvent" where
  "new_CommLogReqEvent i opr attr cr =
     \<lparr>ev_type = type_word CommLogReq, ev_id = cr, ev_status = 0, commID = i, op = opr, l_attrName = attr\<rparr>"

definition comm_startLog :: "addr \<Rightarrow> PWR_AttrName \<Rightarrow> addr \<Rightarrow> ('s, 'u) client \<Rightarrow> ('s, 'u) client res" where
  "comm_startLog cm attr cr c =
     rbind (comm_id cm c) (\<lambda>i.
     rbind (getChannel cm c) (\<lambda>c. Inr (send (EvCommLogReq (new_CommLogReqEvent i OpStart attr (creq_id cr))) c)))"

definition comm_stopLog :: "addr \<Rightarrow> PWR_AttrName \<Rightarrow> addr \<Rightarrow> ('s, 'u) client \<Rightarrow> ('s, 'u) client res" where
  "comm_stopLog cm attr cr c =
     rbind (comm_id cm c) (\<lambda>i.
     rbind (getChannel cm c) (\<lambda>c. Inr (send (EvCommLogReq (new_CommLogReqEvent i OpStop attr (creq_id cr))) c)))"

definition comm_getSamples ::
    "addr \<Rightarrow> PWR_AttrName \<Rightarrow> u64 \<Rightarrow> u64 \<Rightarrow> u32 \<Rightarrow> addr \<Rightarrow> ('s, 'u) client \<Rightarrow> ('s, 'u) client res" where
  "comm_getSamples cm attr start period count cr c =
     rbind (comm_id cm c) (\<lambda>i.
     rbind (getChannel cm c) (\<lambda>c.
     Inr (send (EvCommGetSamplesReq
            \<lparr>ev_type = type_word CommGetSamplesReq, ev_id = creq_id cr, ev_status = 0, commID = i, op = Noop,
             s_attrName = attr, s_startTime = start, s_period = period, s_count = count\<rparr>) c)))"

text \<open>\<^verbatim>\<open>DistGrpComm\<close>: one group of members for every remote object, announced at once.\<close>

fun comm_members :: "addr list \<Rightarrow> 's cntxt \<Rightarrow> string list list res" where
  "comm_members [] x = Inr []"
| "comm_members (ob # obs) x =
     rbind (heap_get (c_objs x) ob) (\<lambda>o'.
     rbind (deref (d_comm o')) (\<lambda>a.
     rbind (heap_get (c_comms x) a) (\<lambda>cm.
     rbind (comm_members obs x) (\<lambda>mss. Inr (dc_objects cm # mss)))))"

definition new_DistGrpComm :: "addr list \<Rightarrow> ('s, 'u) client \<Rightarrow> (addr \<times> ('s, 'u) client) res" where
  "new_DistGrpComm obs c =
     rbind (assert_c (m_evChan c)) (\<lambda>_.
     rbind (comm_members obs (cx c)) (\<lambda>mss.
     case new_DistComm [] True (cx c) of (a, x) \<Rightarrow>
     Inr (a, send (EvCommCreate (new_CommCreateEvent (new_commID (cx c)) mss)) (c\<lparr>cx := x\<rparr>))))"

section \<open>Distributed objects\<close>

definition client_obj :: "addr \<Rightarrow> ('s, 'u) client \<Rightarrow> 's DistObject res" where
  "client_obj self c = heap_get (c_objs (cx c)) self"

definition set_world :: "'s \<Rightarrow> ('s, 'u) client \<Rightarrow> ('s, 'u) client" where
  "set_world w c = c\<lparr>cx := (cx c)\<lparr>world := w\<rparr>\<rparr>"

text \<open>The operations of the base class, on the buffers and the status of the caller.\<close>

definition base_getValues ::
    "addr \<Rightarrow> int \<Rightarrow> PWR_AttrName list \<Rightarrow> ptr \<Rightarrow> ptr \<Rightarrow> addr \<Rightarrow> ('s, 'u) client \<Rightarrow> (int \<times> ('s, 'u) client) res" where
  "base_getValues self count names buf ts st c =
     rbind (client_obj self c) (\<lambda>x.
     rbind (vblock buf c) (\<lambda>vs.
     rbind (tblock ts c) (\<lambda>tl.
     rbind (heap_get (stats c) st) (\<lambda>es.
     rbind (attrGetValues (d_obj x) (Some self) count names 0 (vs, tl, es) (world (cx c)))
       (\<lambda>((r, vs, tl, es), w).
     rbind (set_vblock buf vs (set_world w c)) (\<lambda>c.
     rbind (set_tblock ts tl c) (\<lambda>c.
     Inr (r, c\<lparr>stats := (stats c)[st := Some es]\<rparr>))))))))"

definition base_setValues ::
    "addr \<Rightarrow> int \<Rightarrow> PWR_AttrName list \<Rightarrow> ptr \<Rightarrow> addr \<Rightarrow> ('s, 'u) client \<Rightarrow> (int \<times> ('s, 'u) client) res" where
  "base_setValues self count names buf st c =
     rbind (client_obj self c) (\<lambda>x.
     rbind (vblock buf c) (\<lambda>vs.
     rbind (heap_get (stats c) st) (\<lambda>es.
     rbind (attrSetValues (d_obj x) (Some self) count names 0 (vs, es) (world (cx c))) (\<lambda>((r, vs, es), w).
     rbind (set_vblock buf vs (set_world w c)) (\<lambda>c.
     Inr (r, c\<lparr>stats := (stats c)[st := Some es]\<rparr>))))))"

text \<open>All attributes of a request must have the same communicator.\<close>

fun same_comm :: "'s Object \<Rightarrow> addr option \<Rightarrow> nat \<Rightarrow> nat \<Rightarrow> PWR_AttrName list \<Rightarrow> ValueOp list res" where
  "same_comm ob m 0 i names = Inr []"
| "same_comm ob m (Suc k) i names =
     rbind (aread names i) (\<lambda>nm.
     rbind (getAttrInfo ob nm) (\<lambda>info.
     rbind (assert_c (m = ai_comm info)) (\<lambda>_.
     rbind (same_comm ob m k (Suc i) names) (\<lambda>vop. Inr (ai_valueOp info # vop)))))"

definition status_result :: "addr \<Rightarrow> ('s, 'u) client \<Rightarrow> int res" where
  "status_result st c =
     rbind (heap_get (stats c) st) (\<lambda>es. Inr (if status_empty es then PWR_RET_SUCCESS else PWR_RET_STATUS))"

text \<open>
  The end of an operation that does not block: a request that is already finished runs its callback, and
  is deleted if the callback asks for that.
\<close>

definition finish_now :: "('s, 'u) app \<Rightarrow> int \<Rightarrow> addr \<Rightarrow> ('s, 'u) client \<Rightarrow> ('s, 'u) client res" where
  "finish_now app r q c =
     (if r \<noteq> PWR_RET_SUCCESS then Inr c
      else
        rbind (req_finished q c) (\<lambda>fin.
        if \<not> fin then Inr c
        else rbind (execCallback app q c) (\<lambda>(del, c). if del then req_delete q c else Inr c)))"

definition dist_getValues_req ::
    "('s, 'u) app \<Rightarrow> addr \<Rightarrow> int \<Rightarrow> PWR_AttrName list \<Rightarrow> ptr \<Rightarrow> ptr \<Rightarrow> addr \<Rightarrow> addr \<Rightarrow> ('s, 'u) client \<Rightarrow>
     (int \<times> ('s, 'u) client) res" where
  "dist_getValues_req app self count names buf ts st q c =
     rbind (req_upd q (\<lambda>r. r\<lparr>rq_value := (rq_value r)[0 := buf], rq_timeStamp := (rq_timeStamp r)[0 := ts]\<rparr>) c) (\<lambda>c.
     rbind (base_getValues self count names buf ts st c) (\<lambda>(_, c).
     rbind (client_obj self c) (\<lambda>x.
     rbind (aread names 0) (\<lambda>nm.
     rbind (getAttrInfo (d_obj x) nm) (\<lambda>info.
     rbind (if count < 0 then Inl Thrown else if count = 0 then Inl OutOfBounds else Inr ()) (\<lambda>_.
     rbind (same_comm (d_obj x) (ai_comm info) (nat count - 1) 1 names) (\<lambda>vop.
     rbind (case ai_comm info of
              None \<Rightarrow> Inr c
            | Some cm \<Rightarrow>
                (case new_creq GetCommReq q c of (a, c) \<Rightarrow>
                 rbind (req_insert q a c) (\<lambda>c. comm_getValues cm count names (ai_valueOp info # vop) a c)))
       (\<lambda>c.
     rbind (status_result st c) (\<lambda>r.
     rbind (finish_now app r q c) (\<lambda>c. Inr (r, c)))))))))))"

definition dist_setValues_req ::
    "('s, 'u) app \<Rightarrow> addr \<Rightarrow> int \<Rightarrow> PWR_AttrName list \<Rightarrow> ptr \<Rightarrow> addr \<Rightarrow> addr \<Rightarrow> ('s, 'u) client \<Rightarrow>
     (int \<times> ('s, 'u) client) res" where
  "dist_setValues_req app self count names buf st q c =
     rbind (base_setValues self count names buf st c) (\<lambda>(_, c).
     rbind (client_obj self c) (\<lambda>x.
     rbind (aread names 0) (\<lambda>nm.
     rbind (getAttrInfo (d_obj x) nm) (\<lambda>info.
     rbind (same_comm (d_obj x) (ai_comm info) (nat count - 1) 1 names) (\<lambda>_.
     rbind (case ai_comm info of
              None \<Rightarrow> Inr c
            | Some cm \<Rightarrow>
                (case new_creq SetCommReq q c of (a, c) \<Rightarrow>
                 rbind (req_insert q a c) (\<lambda>c. comm_setValues cm count names buf a c)))
       (\<lambda>c.
     rbind (status_result st c) (\<lambda>r.
     rbind (finish_now app r q c) (\<lambda>c. Inr (r, c)))))))))"

text \<open>
  A function that declares a \<^verbatim>\<open>Status\<close>, a \<^verbatim>\<open>DistRequest\<close> or one value on its
  stack: the object is there during the call and is gone after it.
\<close>

definition with_status :: "(addr \<Rightarrow> ('s, 'u) client \<Rightarrow> ('a \<times> ('s, 'u) client) res) \<Rightarrow>
    ('s, 'u) client \<Rightarrow> ('a \<times> ('s, 'u) client) res" where
  "with_status f c =
     (case new_Status c of (st, c) \<Rightarrow>
      rbind (f st c) (\<lambda>(r, c). rbind (delete_Status st c) (\<lambda>c. Inr (r, c))))"

definition with_request :: "addr \<Rightarrow> (addr \<Rightarrow> ('s, 'u) client \<Rightarrow> ('a \<times> ('s, 'u) client) res) \<Rightarrow>
    ('s, 'u) client \<Rightarrow> ('a \<times> ('s, 'u) client) res" where
  "with_request st f c =
     (case new_DistRequest st None c of (q, c) \<Rightarrow>
      rbind (f q c) (\<lambda>(r, c). rbind (req_delete q c) (\<lambda>c. Inr (r, c))))"

definition pop_error :: "addr \<Rightarrow> ('s, 'u) client \<Rightarrow> (int \<times> ('s, 'u) client) res" where
  "pop_error st c =
     rbind (heap_get (stats c) st) (\<lambda>es.
     case status_pop es of (r, e, es) \<Rightarrow>
       rbind (assert_c (r = PWR_RET_SUCCESS)) (\<lambda>_.
       rbind (deref e) (\<lambda>e. Inr (err_error e, c\<lparr>stats := (stats c)[st := Some es]\<rparr>))))"

text \<open>The operations that block and take a status.\<close>

definition dist_getValues ::
    "nat \<Rightarrow> ('s, 'u) app \<Rightarrow> addr \<Rightarrow> int \<Rightarrow> PWR_AttrName list \<Rightarrow> ptr \<Rightarrow> ptr \<Rightarrow> addr \<Rightarrow> ('s, 'u) client \<Rightarrow>
     (int \<times> ('s, 'u) client) res" where
  "dist_getValues n app self count names buf ts st =
     with_request st (\<lambda>q c.
       rbind (dist_getValues_req app self count names buf ts st q c) (\<lambda>(_, c).
       rbind (req_wait n app q c) (\<lambda>(r, c).
       if r \<noteq> PWR_RET_SUCCESS then Inr (r, c) else rbind (status_result st c) (\<lambda>r. Inr (r, c)))))"

definition dist_setValues ::
    "nat \<Rightarrow> ('s, 'u) app \<Rightarrow> addr \<Rightarrow> int \<Rightarrow> PWR_AttrName list \<Rightarrow> ptr \<Rightarrow> addr \<Rightarrow> ('s, 'u) client \<Rightarrow>
     (int \<times> ('s, 'u) client) res" where
  "dist_setValues n app self count names buf st =
     with_request st (\<lambda>q c.
       rbind (dist_setValues_req app self count names buf st q c) (\<lambda>(_, c).
       rbind (req_wait n app q c) (\<lambda>(r, c).
       if r \<noteq> PWR_RET_SUCCESS then Inr (r, c) else rbind (status_result st c) (\<lambda>r. Inr (r, c)))))"

text \<open>The operations on one attribute.\<close>

definition dist_getValue ::
    "nat \<Rightarrow> ('s, 'u) app \<Rightarrow> addr \<Rightarrow> PWR_AttrName \<Rightarrow> ptr \<Rightarrow> ptr \<Rightarrow> ('s, 'u) client \<Rightarrow> (int \<times> ('s, 'u) client) res" where
  "dist_getValue n app self attr buf ts =
     with_status (\<lambda>st c.
       rbind (dist_getValues n app self 1 [attr] buf ts st c) (\<lambda>(r, c).
       if r = PWR_RET_STATUS then pop_error st c else Inr (r, c)))"

definition dist_setValue ::
    "nat \<Rightarrow> ('s, 'u) app \<Rightarrow> addr \<Rightarrow> PWR_AttrName \<Rightarrow> ptr \<Rightarrow> ('s, 'u) client \<Rightarrow> (int \<times> ('s, 'u) client) res" where
  "dist_setValue n app self attr buf =
     with_status (\<lambda>st c.
       rbind (dist_setValues n app self 1 [attr] buf st c) (\<lambda>(r, c).
       if r = PWR_RET_STATUS then pop_error st c else Inr (r, c)))"

text \<open>The operations that take a request: the status is one of their own, not that of the request.\<close>

definition dist_getValues_nb ::
    "('s, 'u) app \<Rightarrow> addr \<Rightarrow> int \<Rightarrow> PWR_AttrName list \<Rightarrow> ptr \<Rightarrow> ptr \<Rightarrow> addr \<Rightarrow> ('s, 'u) client \<Rightarrow>
     (int \<times> ('s, 'u) client) res" where
  "dist_getValues_nb app self count names buf ts q =
     with_status (\<lambda>st c.
       rbind (dist_getValues_req app self count names buf ts st q c) (\<lambda>(r, c).
       if r = PWR_RET_STATUS then pop_error st c else Inr (r, c)))"

definition dist_setValues_nb ::
    "('s, 'u) app \<Rightarrow> addr \<Rightarrow> int \<Rightarrow> PWR_AttrName list \<Rightarrow> ptr \<Rightarrow> addr \<Rightarrow> ('s, 'u) client \<Rightarrow>
     (int \<times> ('s, 'u) client) res" where
  "dist_setValues_nb app self count names buf q =
     with_status (\<lambda>st c.
       rbind (dist_setValues_req app self count names buf st q c) (\<lambda>(r, c).
       if r = PWR_RET_STATUS then pop_error st c else Inr (r, c)))"

section \<open>Logs and samples of distributed objects\<close>

text \<open>
  Unlike the reads and writes, an error of the base class ends these operations; once it is past, they
  return success.
\<close>

definition dist_log_req ::
    "('s Object \<Rightarrow> PWR_AttrName \<Rightarrow> 's \<Rightarrow> (int \<times> 's) res) \<Rightarrow> creq_kind \<Rightarrow>
     (addr \<Rightarrow> PWR_AttrName \<Rightarrow> addr \<Rightarrow> ('s, 'u) client \<Rightarrow> ('s, 'u) client res) \<Rightarrow>
     ('s, 'u) app \<Rightarrow> addr \<Rightarrow> PWR_AttrName \<Rightarrow> addr \<Rightarrow> ('s, 'u) client \<Rightarrow> (int \<times> ('s, 'u) client) res" where
  "dist_log_req base kind remote app self attr q c =
     rbind (client_obj self c) (\<lambda>x.
     rbind (base (d_obj x) attr (world (cx c))) (\<lambda>(r, w).
     let c = set_world w c in
     if r \<noteq> PWR_RET_SUCCESS then Inr (r, c)
     else
       rbind (getAttrInfo (d_obj x) attr) (\<lambda>info.
       rbind (case ai_comm info of
                None \<Rightarrow> Inr c
              | Some cm \<Rightarrow>
                  (case new_creq kind q c of (a, c) \<Rightarrow>
                   rbind (req_insert q a c) (\<lambda>c. remote cm attr a c)))
         (\<lambda>c. rbind (finish_now app r q c) (\<lambda>c. Inr (PWR_RET_SUCCESS, c))))))"

definition dist_startLog_req ::
    "('s, 'u) app \<Rightarrow> addr \<Rightarrow> PWR_AttrName \<Rightarrow> addr \<Rightarrow> ('s, 'u) client \<Rightarrow> (int \<times> ('s, 'u) client) res" where
  "dist_startLog_req = dist_log_req attrStartLog StartLogCommReq comm_startLog"

definition dist_stopLog_req ::
    "('s, 'u) app \<Rightarrow> addr \<Rightarrow> PWR_AttrName \<Rightarrow> addr \<Rightarrow> ('s, 'u) client \<Rightarrow> (int \<times> ('s, 'u) client) res" where
  "dist_stopLog_req = dist_log_req attrStopLog StopLogCommReq comm_stopLog"

text \<open>The result of the wait is ignored; an error is looked for in the status only.\<close>

definition wait_ignored :: "nat \<Rightarrow> ('s, 'u) app \<Rightarrow> int \<Rightarrow> addr \<Rightarrow> addr \<Rightarrow> ('s, 'u) client \<Rightarrow> (int \<times> ('s, 'u) client) res" where
  "wait_ignored n app r st q c =
     (if r \<noteq> PWR_RET_SUCCESS then Inr (r, c)
      else
        rbind (req_wait n app q c) (\<lambda>(_, c).
        rbind (heap_get (stats c) st) (\<lambda>es.
        case es of
          [] \<Rightarrow> Inr (r, c)
        | e # es \<Rightarrow> Inr (err_error e, c\<lparr>stats := (stats c)[st := Some es]\<rparr>))))"

definition dist_startLog ::
    "nat \<Rightarrow> ('s, 'u) app \<Rightarrow> addr \<Rightarrow> PWR_AttrName \<Rightarrow> ('s, 'u) client \<Rightarrow> (int \<times> ('s, 'u) client) res" where
  "dist_startLog n app self attr =
     with_status (\<lambda>st. with_request st (\<lambda>q c.
       rbind (dist_startLog_req app self attr q c) (\<lambda>(r, c). wait_ignored n app r st q c)))"

definition dist_stopLog ::
    "nat \<Rightarrow> ('s, 'u) app \<Rightarrow> addr \<Rightarrow> PWR_AttrName \<Rightarrow> ('s, 'u) client \<Rightarrow> (int \<times> ('s, 'u) client) res" where
  "dist_stopLog n app self attr =
     with_status (\<lambda>st. with_request st (\<lambda>q c.
       rbind (dist_stopLog_req app self attr q c) (\<lambda>(r, c). wait_ignored n app r st q c)))"

definition base_getSamples ::
    "addr \<Rightarrow> PWR_AttrName \<Rightarrow> ptr \<Rightarrow> u64 \<Rightarrow> u32 \<Rightarrow> ptr \<Rightarrow> ('s, 'u) client \<Rightarrow> (int \<times> ('s, 'u) client) res" where
  "base_getSamples self attr start period count buf c =
     rbind (client_obj self c) (\<lambda>x.
     rbind (vblock buf c) (\<lambda>vs.
     rbind (attrGetSamples (d_obj x) attr 0 period count vs (world (cx c))) (\<lambda>((r, t, vs), w).
     rbind (set_vblock buf vs (set_world w c)) (\<lambda>c.
     rbind (getAttrInfo (d_obj x) attr) (\<lambda>info.
     rbind (if r = PWR_RET_SUCCESS \<and> ai_devices info \<noteq> [] then twrite start 0 t c else Inr c) (\<lambda>c.
     Inr (r, c)))))))"

definition dist_getSamples_req ::
    "('s, 'u) app \<Rightarrow> addr \<Rightarrow> PWR_AttrName \<Rightarrow> ptr \<Rightarrow> u64 \<Rightarrow> u32 \<Rightarrow> ptr \<Rightarrow> addr \<Rightarrow> ('s, 'u) client \<Rightarrow>
     (int \<times> ('s, 'u) client) res" where
  "dist_getSamples_req app self attr start period count buf q c =
     rbind (base_getSamples self attr start period count buf c) (\<lambda>(r, c).
     if r \<noteq> PWR_RET_SUCCESS then Inr (r, c)
     else
       rbind (client_obj self c) (\<lambda>x.
       rbind (getAttrInfo (d_obj x) attr) (\<lambda>info.
       rbind (case ai_comm info of
                None \<Rightarrow> Inr c
              | Some cm \<Rightarrow>
                  rbind (req_upd q (\<lambda>r. r\<lparr>rq_value := (rq_value r)[0 := buf],
                                         rq_timeStamp := (rq_timeStamp r)[0 := start]\<rparr>) c) (\<lambda>c.
                  case new_creq GetSamplesCommReq q c of (a, c) \<Rightarrow>
                  rbind (req_insert q a c) (\<lambda>c.
                  rbind (tblock start c) (\<lambda>tl.
                  rbind (aread tl 0) (\<lambda>t. comm_getSamples cm attr t period count a c)))))
         (\<lambda>c. rbind (finish_now app r q c) (\<lambda>c. Inr (PWR_RET_SUCCESS, c))))))"

definition dist_getSamples ::
    "nat \<Rightarrow> ('s, 'u) app \<Rightarrow> addr \<Rightarrow> PWR_AttrName \<Rightarrow> ptr \<Rightarrow> u64 \<Rightarrow> u32 \<Rightarrow> ptr \<Rightarrow> ('s, 'u) client \<Rightarrow>
     (int \<times> ('s, 'u) client) res" where
  "dist_getSamples n app self attr start period count buf =
     with_status (\<lambda>st. with_request st (\<lambda>q c.
       rbind (dist_getSamples_req app self attr start period count buf q c) (\<lambda>(r, c).
       wait_ignored n app r st q c)))"

section \<open>Distributed groups\<close>

definition client_grp :: "addr \<Rightarrow> ('s, 'u) client \<Rightarrow> DistGrp res" where
  "client_grp g c =
     rbind (heap_get (c_grps (cx c)) g) (\<lambda>x. case x of DGrp y \<Rightarrow> Inr y | PlainGrp _ \<Rightarrow> Inl Unspecified)"

definition ptr_add :: "ptr \<Rightarrow> nat \<Rightarrow> ptr" where
  "ptr_add p k = map_option (\<lambda>(b, off). (b, off + k)) p"

text \<open>The communicator of the group is made when it is first needed.\<close>

definition grp_comm :: "addr \<Rightarrow> ('s, 'u) client \<Rightarrow> (addr \<times> ('s, 'u) client) res" where
  "grp_comm g c =
     rbind (client_grp g c) (\<lambda>y.
     case dg_comm y of
       Some cm \<Rightarrow> Inr (cm, c)
     | None \<Rightarrow>
         rbind (new_DistGrpComm (dg_distObjs y) c) (\<lambda>(cm, c).
         let x = cx c in
         rbind (heap_set g (DGrp (y\<lparr>dg_comm := Some cm\<rparr>)) (c_grps x)) (\<lambda>h.
         Inr (cm, c\<lparr>cx := x\<lparr>c_grps := h\<rparr>\<rparr>))))"

text \<open>The loops over the local members, left when a member fails otherwise than with its status.\<close>

fun dgrp_get_local ::
    "nat \<Rightarrow> ('s, 'u) app \<Rightarrow> addr list \<Rightarrow> nat \<Rightarrow> int \<Rightarrow> PWR_AttrName list \<Rightarrow> ptr \<Rightarrow> ptr \<Rightarrow> addr \<Rightarrow> ('s, 'u) client \<Rightarrow>
     (int \<times> ('s, 'u) client) res" where
  "dgrp_get_local n app [] i num attr buf ts st c = Inr (PWR_RET_SUCCESS, c)"
| "dgrp_get_local n app (ob # obs) i num attr buf ts st c =
     rbind (dist_getValues n app ob num attr (ptr_add buf (i * nat num)) (ptr_add ts (i * nat num)) st c) (\<lambda>(r, c).
     if r \<noteq> PWR_RET_SUCCESS \<and> r \<noteq> PWR_RET_STATUS then Inr (r, c)
     else dgrp_get_local n app obs (Suc i) num attr buf ts st c)"

fun dgrp_set_local ::
    "nat \<Rightarrow> ('s, 'u) app \<Rightarrow> addr list \<Rightarrow> int \<Rightarrow> PWR_AttrName list \<Rightarrow> ptr \<Rightarrow> addr \<Rightarrow> ('s, 'u) client \<Rightarrow>
     (int \<times> ('s, 'u) client) res" where
  "dgrp_set_local n app [] num attr buf st c = Inr (PWR_RET_SUCCESS, c)"
| "dgrp_set_local n app (ob # obs) num attr buf st c =
     rbind (dist_setValues n app ob num attr buf st c) (\<lambda>(r, c).
     if r \<noteq> PWR_RET_SUCCESS \<and> r \<noteq> PWR_RET_STATUS then Inr (r, c)
     else dgrp_set_local n app obs num attr buf st c)"

text \<open>
  The row of a remote member: the code looks the member up in the list of all members, but then uses
  its index in the list of the remote ones.
\<close>

definition remote_row :: "addr list \<Rightarrow> addr list \<Rightarrow> nat \<Rightarrow> ptr \<Rightarrow> nat \<Rightarrow> ptr" where
  "remote_row dist_objs all_objs num p i =
     (if dist_objs ! i \<in> set all_objs then ptr_add p (i * num) else None)"

definition dgrp_setValues ::
    "nat \<Rightarrow> ('s, 'u) app \<Rightarrow> addr \<Rightarrow> int \<Rightarrow> PWR_AttrName list \<Rightarrow> ptr \<Rightarrow> addr \<Rightarrow> ('s, 'u) client \<Rightarrow>
     (int \<times> ('s, 'u) client) res" where
  "dgrp_setValues n app g num attr buf st c =
     rbind (client_grp g c) (\<lambda>y.
     rbind (dgrp_set_local n app (g_list (dg_grp y)) num attr buf st c) (\<lambda>(r, c).
     if r \<noteq> PWR_RET_SUCCESS then Inr (r, c)
     else
       rbind (if dg_distObjs y = [] then Inr ((), c)
              else
                with_request st (\<lambda>q c.
                  rbind (grp_comm g c) (\<lambda>(cm, c).
                  case new_creq SetCommReq q c of (a, c) \<Rightarrow>
                  rbind (req_insert q a c) (\<lambda>c.
                  rbind (comm_setValues cm num attr buf a c) (\<lambda>c.
                  rbind (req_wait n app q c) (\<lambda>(_, c). Inr ((), c)))))) c)
         (\<lambda>(_, c). rbind (status_result st c) (\<lambda>r. Inr (r, c)))))"

definition dgrp_valueOps :: "addr \<Rightarrow> int \<Rightarrow> PWR_AttrName list \<Rightarrow> ('s, 'u) client \<Rightarrow> ValueOp list res" where
  "dgrp_valueOps ob num attr c =
     (if num < 0 then Inl Thrown
      else
        rbind (client_obj ob c) (\<lambda>x.
        rbind (aread_n attr (nat num)) (\<lambda>as.
        foldM (\<lambda>a vop. rbind (getAttrInfo (d_obj x) a) (\<lambda>info. Inr (vop @ [ai_valueOp info]))) as [])))"

definition dgrp_get_remote ::
    "nat \<Rightarrow> ('s, 'u) app \<Rightarrow> addr \<Rightarrow> DistGrp \<Rightarrow> int \<Rightarrow> PWR_AttrName list \<Rightarrow> ptr \<Rightarrow> ptr \<Rightarrow> addr \<Rightarrow> ('s, 'u) client \<Rightarrow>
     ('s, 'u) client res" where
  "dgrp_get_remote n app g y num attr buf ts st c =
     (case dg_distObjs y of
        [] \<Rightarrow> Inr c
      | ob # _ \<Rightarrow>
          rbind (dgrp_valueOps ob num attr c) (\<lambda>vop.
          rbind (with_request st (\<lambda>q c.
            rbind (grp_comm g c) (\<lambda>(cm, c).
            let row = remote_row (dg_distObjs y) (dg_allObjs y) (nat num);
                is = [0..<length (dg_distObjs y)] in
            rbind (req_upd q (\<lambda>r. r\<lparr>rq_value := map (row buf) is, rq_timeStamp := map (row ts) is\<rparr>) c) (\<lambda>c.
            case new_creq GetCommReq q c of (a, c) \<Rightarrow>
            rbind (req_insert q a c) (\<lambda>c.
            rbind (comm_getValues cm num attr vop a c) (\<lambda>c.
            rbind (req_wait n app q c) (\<lambda>(_, c).
            rbind (creq_delete a c) (\<lambda>c. Inr ((), c)))))))) c) (\<lambda>(_, c).
          Inr c)))"

definition dgrp_getValues ::
    "nat \<Rightarrow> ('s, 'u) app \<Rightarrow> addr \<Rightarrow> int \<Rightarrow> PWR_AttrName list \<Rightarrow> ptr \<Rightarrow> ptr \<Rightarrow> addr \<Rightarrow> ('s, 'u) client \<Rightarrow>
     (int \<times> ('s, 'u) client) res" where
  "dgrp_getValues n app g num attr buf ts st c =
     rbind (client_grp g c) (\<lambda>y.
     rbind (dgrp_get_local n app (g_list (dg_grp y)) 0 num attr buf ts st c) (\<lambda>(r, c).
     if r \<noteq> PWR_RET_SUCCESS then Inr (r, c)
     else
       rbind (dgrp_get_remote n app g y num attr buf ts st c) (\<lambda>c.
       rbind (status_result st c) (\<lambda>r. Inr (r, c)))))"

definition dgrp_setValue ::
    "nat \<Rightarrow> ('s, 'u) app \<Rightarrow> addr \<Rightarrow> PWR_AttrName \<Rightarrow> ptr \<Rightarrow> addr \<Rightarrow> ('s, 'u) client \<Rightarrow> (int \<times> ('s, 'u) client) res" where
  "dgrp_setValue n app g attr buf st = dgrp_setValues n app g 1 [attr] buf st"

definition dgrp_getValue ::
    "nat \<Rightarrow> ('s, 'u) app \<Rightarrow> addr \<Rightarrow> PWR_AttrName \<Rightarrow> ptr \<Rightarrow> ptr \<Rightarrow> addr \<Rightarrow> ('s, 'u) client \<Rightarrow> (int \<times> ('s, 'u) client) res" where
  "dgrp_getValue n app g attr buf ts st = dgrp_getValues n app g 1 [attr] buf ts st"

end
