(* ===== verification/Server.thy ===== *)
theory Server
  imports Dist RouterProc
begin

text \<open>
  The server of \<^verbatim>\<open>src/tools/pwrdaemon/server\<close>: it takes requests off its channel to the
  router, runs them on the objects of its context with the operations that do not block, and answers each
  when its callback runs. The server is the user of the context, \<open>server\<close> of type \<open>'s sclient\<close>,
  and \<open>server_app\<close> is the code of its callbacks, whose data pointer is the request event.

  Request events live on a heap, each with its response under construction. The vectors a request
  hands to the context are blocks of the context's memory, with which they are freed. The channel to the
  router is the only one a request can come from, so that it is left out of the map of pending requests.
\<close>

section \<open>State\<close>

record SrvrReq =
  q_ev :: AnyEvent
  q_resp :: AnyEvent
  q_values :: "addr option"
  q_times :: "addr option"
  q_req :: "addr option"
  q_status :: addr

record Server =
  sv_commMap :: "u64 \<rightharpoonup> addr option list"
  sv_finiMap :: "addr \<rightharpoonup> addr"
  sv_keys :: "SrvrReq heap"
  sv_rtr :: "RouterEvent heap"
  sv_out :: "RouterEvent list"

type_synonym 's sclient = "('s, Server) client"

definition sv_upd :: "(Server \<Rightarrow> Server) \<Rightarrow> 's sclient \<Rightarrow> 's sclient" where
  "sv_upd f c = c\<lparr>user := f (user c)\<rparr>"

definition key_get :: "addr \<Rightarrow> 's sclient \<Rightarrow> SrvrReq res" where
  "key_get k c = heap_get (sv_keys (user c)) k"

definition key_new :: "SrvrReq \<Rightarrow> 's sclient \<Rightarrow> addr \<times> 's sclient" where
  "key_new x c =
     (length (sv_keys (user c)), sv_upd (\<lambda>s. s\<lparr>sv_keys := sv_keys s @ [Some x]\<rparr>) c)"

definition key_upd :: "addr \<Rightarrow> (SrvrReq \<Rightarrow> SrvrReq) \<Rightarrow> 's sclient \<Rightarrow> 's sclient res" where
  "key_upd k f c =
     rbind (key_get k c) (\<lambda>x. Inr (sv_upd (\<lambda>s. s\<lparr>sv_keys := (sv_keys s)[k := Some (f x)]\<rparr>) c))"

section \<open>Pending requests\<close>

definition initFini :: "addr \<Rightarrow> addr \<Rightarrow> 's sclient \<Rightarrow> 's sclient" where
  "initFini key re = sv_upd (\<lambda>s. s\<lparr>sv_finiMap := (sv_finiMap s)(key \<mapsto> re)\<rparr>)"

definition freeFini :: "addr \<Rightarrow> 's sclient \<Rightarrow> 's sclient res" where
  "freeFini key c =
     rbind (assert_c (sv_finiMap (user c) key \<noteq> None)) (\<lambda>_.
     Inr (sv_upd (\<lambda>s. s\<lparr>sv_finiMap := (sv_finiMap s)(key := None)\<rparr>) c))"

text \<open>A request event goes with its request and its vectors.\<close>

definition free_block :: "addr option \<Rightarrow> u64 list heap \<Rightarrow> u64 list heap res" where
  "free_block p h = (case p of None \<Rightarrow> Inr h | Some b \<Rightarrow> heap_free b h)"

definition key_delete :: "addr \<Rightarrow> 's sclient \<Rightarrow> 's sclient res" where
  "key_delete k c =
     rbind (key_get k c) (\<lambda>x.
     rbind (case q_req x of None \<Rightarrow> Inr c | Some q \<Rightarrow> req_delete q c) (\<lambda>c.
     rbind (free_block (q_values x) (vmem c)) (\<lambda>vm.
     rbind (free_block (q_times x) (tmem c)) (\<lambda>tm.
     Inr (sv_upd (\<lambda>s. s\<lparr>sv_keys := (sv_keys s)[k := None]\<rparr>) (c\<lparr>vmem := vm, tmem := tm\<rparr>))))))"

definition fini :: "addr \<Rightarrow> AnyEvent \<Rightarrow> 's sclient \<Rightarrow> 's sclient res" where
  "fini key payload c =
     (case sv_finiMap (user c) key of
        None \<Rightarrow> Inl AssertFail
      | Some a \<Rightarrow>
          rbind (heap_get (sv_rtr (user c)) a) (\<lambda>re.
          rbind (new_RouterEvent (rt_dest re) (rt_src re) payload) (\<lambda>ev.
          rbind (key_delete key
                   (sv_upd (\<lambda>s. s\<lparr>sv_out := sv_out s @ [ev], sv_rtr := (sv_rtr s)[a := None]\<rparr>) c)) (\<lambda>c.
          Inr (sv_upd (\<lambda>s. s\<lparr>sv_finiMap := (sv_finiMap s)(key := None)\<rparr>) c)))))"

section \<open>Callbacks\<close>

text \<open>
  \<^verbatim>\<open>PWR_ObjGetName\<close> copies with \<^verbatim>\<open>strncpy\<close>: a name as long as the array
  is not terminated, and reading such an array as a string runs off it.
\<close>

definition c_str :: "string \<Rightarrow> string" where
  "c_str = takeWhile (\<lambda>c. c \<noteq> CHR 0x00)"

definition strncpy :: "string \<Rightarrow> nat \<Rightarrow> string" where
  "strncpy src len = take len (c_str src @ replicate len CHR 0x00)"

definition PWR_ObjGetName :: "addr option \<Rightarrow> nat \<Rightarrow> ('s, 'u) client \<Rightarrow> (int \<times> string) res" where
  "PWR_ObjGetName ob len c =
     rbind (deref ob) (\<lambda>a.
     rbind (obj_name a (cx c)) (\<lambda>nm.
     Inr (if 0 < len \<and> len - 1 < length nm then PWR_RET_WARN_TRUNC else PWR_RET_SUCCESS, strncpy nm len)))"

definition read_cstr :: "string \<Rightarrow> string res" where
  "read_cstr buf = (if CHR 0x00 \<in> set buf then Inr (c_str buf) else Inl OutOfBounds)"

text \<open>The loop that pops the errors of a status into the three vectors of a response.\<close>

fun pop_errors ::
    "addr option status \<Rightarrow> 's sclient \<Rightarrow> (string list \<times> PWR_AttrName list \<times> u32 list) res" where
  "pop_errors [] c = Inr ([], [], [])"
| "pop_errors (e # es) c =
     rbind (PWR_ObjGetName (err_obj e) 100 c) (\<lambda>(_, buf).
     rbind (read_cstr buf) (\<lambda>nm.
     rbind (pop_errors es c) (\<lambda>(os, as, vs). Inr (nm # os, err_name e # as, word_of_int (err_error e) # vs))))"

definition block_get :: "addr option \<Rightarrow> u64 list heap \<Rightarrow> u64 list res" where
  "block_get p h = rbind (deref p) (heap_get h)"

text \<open>\<^verbatim>\<open>requestFini\<close>, \<^verbatim>\<open>logReqFini\<close> and \<^verbatim>\<open>getSamplesFini\<close>.\<close>

definition take_errors :: "SrvrReq \<Rightarrow> 's sclient \<Rightarrow> ((string list \<times> PWR_AttrName list \<times> u32 list) \<times> 's sclient) res" where
  "take_errors x c =
     rbind (heap_get (stats c) (q_status x)) (\<lambda>es.
     rbind (pop_errors es c) (\<lambda>errs.
     rbind (delete_Status (q_status x) c) (\<lambda>c. Inr (errs, c))))"

definition requestFini :: "addr \<Rightarrow> SrvrReq \<Rightarrow> CommRespEvent \<Rightarrow> 's sclient \<Rightarrow> 's sclient res" where
  "requestFini k x e c =
     rbind (take_errors x c) (\<lambda>((os, as, vs), c).
     rbind (if op e = OpGet
            then rbind (block_get (q_values x) (vmem c)) (\<lambda>v. rbind (block_get (q_times x) (tmem c)) (\<lambda>t.
              Inr ([v], [t])))
            else Inr ([], [])) (\<lambda>(v, t).
     fini k (EvCommResp (e\<lparr>r_value := v, r_timeStamp := t, r_errObj := os, r_errAttr := as, r_errValue := vs\<rparr>)) c))"

definition logReqFini :: "addr \<Rightarrow> SrvrReq \<Rightarrow> CommLogRespEvent \<Rightarrow> 's sclient \<Rightarrow> 's sclient res" where
  "logReqFini k x e c =
     rbind (take_errors x c) (\<lambda>((os, as, vs), c).
     fini k (EvCommLogResp (e\<lparr>l_errObj := os, l_errAttr := as, l_errValue := vs\<rparr>)) c)"

definition getSamplesFini :: "addr \<Rightarrow> SrvrReq \<Rightarrow> CommGetSamplesRespEvent \<Rightarrow> 's sclient \<Rightarrow> 's sclient res" where
  "getSamplesFini k x e c =
     rbind (take_errors x c) (\<lambda>((os, as, vs), c).
     rbind (block_get (q_values x) (vmem c)) (\<lambda>d.
     rbind (block_get (q_times x) (tmem c)) (\<lambda>t.
     rbind (aread t 0) (\<lambda>t.
     fini k (EvCommGetSamplesResp (e\<lparr>sr_data := d, sr_startTime := t, sr_errObj := os, sr_errAttr := as,
                                     sr_errValue := vs\<rparr>)) c))))"

definition server_app :: "('s, Server) app" where
  "server_app k c =
     rbind (key_get k c) (\<lambda>x.
     case q_resp x of
       EvCommResp e \<Rightarrow> requestFini k x e c
     | EvCommLogResp e \<Rightarrow> logReqFini k x e c
     | EvCommGetSamplesResp e \<Rightarrow> getSamplesFini k x e c
     | _ \<Rightarrow> Inl Unspecified)"

section \<open>Requests\<close>

definition comm_object :: "u64 \<Rightarrow> 's sclient \<Rightarrow> (addr option \<times> 's sclient) res" where
  "comm_object i c =
     (case sv_commMap (user c) i of
        None \<Rightarrow> Inl OutOfBounds
      | Some obs \<Rightarrow> rbind (aread obs 0) (\<lambda>ob. Inr (ob, c)))"

definition new_vblock :: "u64 list \<Rightarrow> 's sclient \<Rightarrow> addr \<times> 's sclient" where
  "new_vblock xs c = (length (vmem c), c\<lparr>vmem := vmem c @ [Some xs]\<rparr>)"

definition new_tblock :: "u64 list \<Rightarrow> 's sclient \<Rightarrow> addr \<times> 's sclient" where
  "new_tblock xs c = (length (tmem c), c\<lparr>tmem := tmem c @ [Some xs]\<rparr>)"

text \<open>The part all requests share: the name of the object is looked up, a status and a request are made.\<close>

definition start_req ::
    "addr \<Rightarrow> addr option \<Rightarrow> AnyEvent \<Rightarrow> addr option \<Rightarrow> addr option \<Rightarrow> 's sclient \<Rightarrow> ((addr \<times> addr) \<times> 's sclient) res" where
  "start_req k ob resp vb tb c =
     rbind (deref ob) (\<lambda>a.
     rbind (PWR_ObjGetName ob 100 c) (\<lambda>_.
     case new_Status c of (st, c) \<Rightarrow>
     case new_DistRequest st (Some k) c of (q, c) \<Rightarrow>
     rbind (key_upd k (\<lambda>x. x\<lparr>q_resp := resp, q_values := vb, q_times := tb, q_req := Some q, q_status := st\<rparr>) c) (\<lambda>c.
     Inr ((a, q), c))))"

definition end_req :: "addr \<Rightarrow> int \<Rightarrow> 's sclient \<Rightarrow> (bool \<times> 's sclient) res" where
  "end_req k r c =
     rbind (if r \<noteq> PWR_RET_SUCCESS then server_app k c else Inr c) (\<lambda>c. Inr (False, c))"

definition SrvrCommReq_process :: "addr \<Rightarrow> CommReqEvent \<Rightarrow> 's sclient \<Rightarrow> (bool \<times> 's sclient) res" where
  "SrvrCommReq_process k e c =
     rbind (comm_object (commID e) c) (\<lambda>(ob, c).
     let m = length (attrName e);
         resp = (new_CommRespEvent (cjunk c) (ev_id e))\<lparr>op := op e, r_grpIndex := grpIndex e, commID := 0\<rparr> in
     if op e = OpGet then
       (case new_vblock (replicate m 0) c of (vb, c) \<Rightarrow>
        case new_tblock (replicate m 0) c of (tb, c) \<Rightarrow>
        rbind (start_req k ob (EvCommResp resp) (Some vb) (Some tb) c) (\<lambda>((a, q), c).
        rbind (dist_getValues_nb server_app a (int m) (attrName e) (Some (vb, 0)) (Some (tb, 0)) q c) (\<lambda>(r, c).
        end_req k r c)))
     else
       (case new_vblock (setValues e) c of (vb, c) \<Rightarrow>
        rbind (start_req k ob (EvCommResp resp) (Some vb) None c) (\<lambda>((a, q), c).
        rbind (dist_setValues_nb server_app a (int m) (attrName e) (Some (vb, 0)) q c) (\<lambda>(r, c).
        end_req k r c))))"

definition SrvrCommLogReq_process :: "addr \<Rightarrow> CommLogReqEvent \<Rightarrow> 's sclient \<Rightarrow> (bool \<times> 's sclient) res" where
  "SrvrCommLogReq_process k e c =
     rbind (comm_object (commID e) c) (\<lambda>(ob, c).
     let resp = (new_CommLogRespEvent (cjunk c) (ev_id e))\<lparr>op := op e, commID := 0\<rparr> in
     rbind (start_req k ob (EvCommLogResp resp) None None c) (\<lambda>((a, q), c).
     rbind (if op e = OpStart then dist_startLog_req server_app a (l_attrName e) q c
            else dist_stopLog_req server_app a (l_attrName e) q c) (\<lambda>(r, c).
     end_req k r c)))"

definition SrvrCommGetSamplesReq_process ::
    "addr \<Rightarrow> CommGetSamplesReqEvent \<Rightarrow> 's sclient \<Rightarrow> (bool \<times> 's sclient) res" where
  "SrvrCommGetSamplesReq_process k e c =
     rbind (comm_object (commID e) c) (\<lambda>(ob, c).
     let resp = (new_CommGetSamplesRespEvent (cjunk c) (ev_id e))\<lparr>sr_count := s_count e\<rparr> in
     case new_vblock (replicate (unat (s_count e)) 0) c of (vb, c) \<Rightarrow>
     case new_tblock [cjunk c] c of (tb, c) \<Rightarrow>
     rbind (start_req k ob (EvCommGetSamplesResp resp) (Some vb) (Some tb) c) (\<lambda>((a, q), c).
     rbind (dist_getSamples_req server_app a (s_attrName e) (Some (tb, 0)) (s_period e) (s_count e)
              (Some (vb, 0)) q c) (\<lambda>(r, c).
     end_req k r c)))"

text \<open>The communicator has one object for each group, but only the first is looked up.\<close>

definition SrvrCommCreate_process :: "nat \<Rightarrow> CommCreateEvent \<Rightarrow> 's sclient \<Rightarrow> (bool \<times> 's sclient) res" where
  "SrvrCommCreate_process n e c =
     (let old = (case sv_commMap (user c) (commID e) of None \<Rightarrow> [] | Some obs \<Rightarrow> obs);
          obs = take (length (members e)) old @ replicate (length (members e) - length old) None in
      rbind (aread (members e) 0) (\<lambda>ms.
      rbind (assert_c (length ms = 1)) (\<lambda>_.
      rbind (aread ms 0) (\<lambda>nm.
      rbind (getObjByName n nm (cx c)) (\<lambda>(ob, x).
      rbind (assert_c (ob \<noteq> None)) (\<lambda>_.
      Inr (True, sv_upd (\<lambda>s. s\<lparr>sv_commMap := (sv_commMap s)(commID e \<mapsto> obs[0 := ob])\<rparr>) (c\<lparr>cx := x\<rparr>))))))))"

definition SrvrCommDestroy_process :: "CommEvent \<Rightarrow> 's sclient \<Rightarrow> (bool \<times> 's sclient) res" where
  "SrvrCommDestroy_process e c =
     Inr (True, sv_upd (\<lambda>s. s\<lparr>sv_commMap := (sv_commMap s)(commID e := None)\<rparr>) c)"

definition srvr_process :: "nat \<Rightarrow> addr \<Rightarrow> 's sclient \<Rightarrow> (bool \<times> 's sclient) res" where
  "srvr_process n k c =
     rbind (key_get k c) (\<lambda>x.
     case q_ev x of
       EvCommCreate e \<Rightarrow> SrvrCommCreate_process n e c
     | EvCommDestroy e \<Rightarrow> SrvrCommDestroy_process e c
     | EvCommReq e \<Rightarrow> SrvrCommReq_process k e c
     | EvCommLogReq e \<Rightarrow> SrvrCommLogReq_process k e c
     | EvCommGetSamplesReq e \<Rightarrow> SrvrCommGetSamplesReq_process k e c
     | _ \<Rightarrow> Inl Unspecified)"

text \<open>
  \<^verbatim>\<open>SrvrRouterEvent::process\<close>, with the deletion of the router event by the loop of the
  server when it returns true.
\<close>

definition new_SrvrReq :: "AnyEvent \<Rightarrow> SrvrReq" where
  "new_SrvrReq ev = \<lparr>q_ev = ev, q_resp = ev, q_values = None, q_times = None, q_req = None, q_status = 0\<rparr>"

definition SrvrRouterEvent_process :: "nat \<Rightarrow> addr \<Rightarrow> RouterEvent \<Rightarrow> 's sclient \<Rightarrow> (bool \<times> 's sclient) res" where
  "SrvrRouterEvent_process n a re c =
     rbind (getPayload server_allocReqEvent re) (\<lambda>(ev, _).
     case key_new (new_SrvrReq ev) c of (k, c) \<Rightarrow>
     rbind (srvr_process n k (initFini k a c)) (\<lambda>(del, c).
     if del then rbind (key_delete k c) (\<lambda>c. rbind (freeFini k c) (\<lambda>c. Inr (True, c)))
     else Inr (False, c)))"

definition RouterData_process :: "nat \<Rightarrow> AnyEvent option \<Rightarrow> 's sclient \<Rightarrow> (bool \<times> 's sclient) res" where
  "RouterData_process n ev c =
     (case ev of
        None \<Rightarrow> Inr (True, c)
      | Some (EvRouter re) \<Rightarrow>
          (let a = length (sv_rtr (user c)) in
           rbind (SrvrRouterEvent_process n a re (sv_upd (\<lambda>s. s\<lparr>sv_rtr := sv_rtr s @ [Some re]\<rparr>) c)) (\<lambda>(del, c).
           Inr (False, if del then sv_upd (\<lambda>s. s\<lparr>sv_rtr := (sv_rtr s)[a := None]\<rparr>) c else c)))
      | Some _ \<Rightarrow> Inl AssertFail)"

definition CntxtData_process :: "nat \<Rightarrow> 's sclient \<Rightarrow> (bool \<times> 's sclient) res" where
  "CntxtData_process n c =
     rbind (makeProgress n server_app c) (\<lambda>(r, c). Inr (r \<noteq> PWR_RET_SUCCESS, c))"

text \<open>
  \<^verbatim>\<open>Server::work\<close> over what the select reports, in order: an event of the router's channel
  (or its end), or something to read on the channel of the context.
\<close>

datatype ready = RouterReady "AnyEvent option" | CntxtReady

fun server_work :: "nat \<Rightarrow> ready list \<Rightarrow> 's sclient \<Rightarrow> 's sclient res" where
  "server_work n [] c = Inr c"
| "server_work n (r # rs) c =
     rbind (case r of RouterReady ev \<Rightarrow> RouterData_process n ev c | CntxtReady \<Rightarrow> CntxtData_process n c)
       (\<lambda>(stop, c). if stop then Inr c else server_work n rs c)"

text \<open>The first message of a server gives the router the name of its root.\<close>

definition server_hello :: "string \<Rightarrow> ServerConnectEvent" where
  "server_hello nm = \<lparr>ev_type = type_word ServerConnect, ev_id = 0, ev_status = 0, sc_name = nm\<rparr>"

end
