(* ===== verification/DummyDev.thy ===== *)
theory DummyDev
  imports Device Double
begin

text \<open>
  \<^verbatim>\<open>src/plugins/dummy_dev.c\<close>: the plugin without a device behind it. A descriptor is a table
  of one value and one time stamp per attribute (only element 0 of each buffer is ever used);
  \<^verbatim>\<open>malloc\<close> makes room for two tables and leaves all but two cells uninitialised. Also the two
  log operations of \<^verbatim>\<open>pwr_dev.c\<close>.
\<close>

record dummyFdInfo =
  db_values :: "u64 option list"
  db_stamps :: "u64 option list"

type_synonym dummy_state = "(unit, dummyFdInfo) pstate"

definition dummy_cells :: nat where "dummy_cells = 2 * nat (attr_code PWR_NUM_ATTR_NAMES)"

lemma dummy_cells_eq [simp]: "dummy_cells = 34" by (simp add: dummy_cells_def)

text \<open>
  \<^verbatim>\<open>getTime\<close> computes in \<^verbatim>\<open>double\<close>; a time stamp is the truncation of the result to
  64 bits (\<open>f_to_i64\<close>).
\<close>

definition dummy_getTime :: "'b os_scheme \<Rightarrow> u64 \<times> 'b os_scheme" where
  "dummy_getTime s =
     (case gettimeofday s of (tv, s) \<Rightarrow>
      (fadd (f_of_int (sint (fst tv * 1000000000))) (f_of_int (sint (snd tv * 1000))), s))"

definition dummy_dev_open :: "addr \<Rightarrow> string \<Rightarrow> dummy_state \<Rightarrow> (addr option \<times> dummy_state) res" where
  "dummy_dev_open ops openstr s =
     rbind (attr_index PWR_ATTR_POWER) (\<lambda>i.
     rbind (awrite (replicate dummy_cells None) i (Some 0x40243f2e48e8a71e)) (\<lambda>vs.
     rbind (attr_index PWR_ATTR_ENERGY) (\<lambda>i.
     rbind (awrite vs i (Some (f_of_int 100000000))) (\<lambda>vs.
     case pfd_new \<lparr>db_values = vs, db_stamps = replicate dummy_cells None\<rparr> s of (p, s) \<Rightarrow> Inr (Some p, s)))))"

definition dummy_dev_close :: "addr option \<Rightarrow> dummy_state \<Rightarrow> (int \<times> dummy_state) res" where
  "dummy_dev_close p s = pfd_close p s"

text \<open>An uninitialised cell has no specified value.\<close>

definition cell_value :: "u64 option \<Rightarrow> u64 res" where
  "cell_value c = (case c of None \<Rightarrow> Inl Unspecified | Some v \<Rightarrow> Inr v)"

definition dummy_dev_read :: "addr option \<Rightarrow> dummy_state read_op" where
  "dummy_dev_read p attr v len t s =
     rbind (pfd_get p s) (\<lambda>f.
     rbind (attr_index attr) (\<lambda>i.
     rbind (aread (db_values f) i) (\<lambda>c.
     rbind (cell_value c) (\<lambda>v.
     case dummy_getTime s of (d, s) \<Rightarrow>
     rbind (f_to_i64 d) (\<lambda>t.
     Inr ((PWR_RET_SUCCESS, v, t), s))))))"

definition dummy_dev_write :: "addr option \<Rightarrow> dummy_state write_op" where
  "dummy_dev_write p attr v len s =
     rbind (pfd_get p s) (\<lambda>f.
     rbind (attr_index attr) (\<lambda>i.
     rbind (awrite (db_values f) i (Some v)) (\<lambda>vs.
     rbind (pfd_set p (f\<lparr>db_values := vs\<rparr>) s) (\<lambda>s.
     Inr ((PWR_RET_SUCCESS, v), s)))))"

definition dummy_dev_readv ::
    "addr option \<Rightarrow> u32 \<Rightarrow> PWR_AttrName list \<Rightarrow> u64 list \<Rightarrow> u64 list \<Rightarrow> int list \<Rightarrow> dummy_state \<Rightarrow>
     ((int \<times> u64 list \<times> u64 list \<times> int list) \<times> dummy_state) res" where
  "dummy_dev_readv p = readv_of (dummy_dev_read p)"

definition dummy_dev_writev ::
    "addr option \<Rightarrow> u32 \<Rightarrow> PWR_AttrName list \<Rightarrow> u64 list \<Rightarrow> int list \<Rightarrow> dummy_state \<Rightarrow>
     ((int \<times> u64 list \<times> int list) \<times> dummy_state) res" where
  "dummy_dev_writev p = writev_of (dummy_dev_write p)"

definition dummy_dev_time :: "addr option \<Rightarrow> u64 \<Rightarrow> dummy_state \<Rightarrow> ((int \<times> u64) \<times> dummy_state) res" where
  "dummy_dev_time p t s = Inr ((0, t), s)"

definition dummy_dev_clear :: "addr option \<Rightarrow> int" where
  "dummy_dev_clear p = 0"

definition dummy_dev_log_start :: "addr option \<Rightarrow> PWR_AttrName \<Rightarrow> dummy_state \<Rightarrow> (int \<times> dummy_state) res" where
  "dummy_dev_log_start p name s =
     rbind (pfd_get p s) (\<lambda>f.
     rbind (attr_index name) (\<lambda>i.
     case dummy_getTime s of (d, s) \<Rightarrow>
     rbind (f_to_i64 d) (\<lambda>t.
     rbind (awrite (db_stamps f) i (Some t)) (\<lambda>ts.
     rbind (pfd_set p (f\<lparr>db_stamps := ts\<rparr>) s) (\<lambda>s.
     Inr (PWR_RET_SUCCESS, s))))))"

definition dummy_dev_log_stop :: "addr option \<Rightarrow> PWR_AttrName \<Rightarrow> dummy_state \<Rightarrow> (int \<times> dummy_state) res" where
  "dummy_dev_log_stop p name s = Inr (PWR_RET_SUCCESS, s)"

text \<open>\<open>rnd i\<close> stands for \<^verbatim>\<open>(float)rand()/(float)(RAND_MAX/2.0)\<close>, converted to double.\<close>

fun dummy_samples :: "(nat \<Rightarrow> u64) \<Rightarrow> nat \<Rightarrow> nat \<Rightarrow> u64 list \<Rightarrow> u64 list res" where
  "dummy_samples rnd i 0 buf = Inr buf"
| "dummy_samples rnd i (Suc n) buf =
     rbind (awrite buf i (fadd (f_of_int 100) (rnd i))) (\<lambda>buf. dummy_samples rnd (Suc i) n buf)"

definition dummy_dev_get_samples ::
    "(nat \<Rightarrow> u64) \<Rightarrow> addr option \<Rightarrow> PWR_AttrName \<Rightarrow> u64 \<Rightarrow> u64 \<Rightarrow> u32 \<Rightarrow> u64 list \<Rightarrow> dummy_state \<Rightarrow>
     ((int \<times> u64 \<times> u32 \<times> u64 list) \<times> dummy_state) res" where
  "dummy_dev_get_samples rnd p name t period n buf s =
     (case gettimeofday s of (tv, s) \<Rightarrow>
      rbind (dummy_samples rnd 0 (unat n) buf) (\<lambda>buf.
      case dummy_getTime s of (d, s) \<Rightarrow>
      rbind (f_to_i64 (fsub d (fmul (fmul (f_of_int (uint n)) period) (f_of_int 1000000000)))) (\<lambda>t.
      Inr ((PWR_RET_SUCCESS, t, n, buf), s))))"

definition dummy_devOps :: "(nat \<Rightarrow> u64) \<Rightarrow> addr \<Rightarrow> dummy_state plugin_devops_t" where
  "dummy_devOps rnd priv =
     \<lparr>op_open = dummy_dev_open, op_close = dummy_dev_close, op_read = dummy_dev_read,
      op_write = dummy_dev_write, op_readv = dummy_dev_readv, op_writev = dummy_dev_writev,
      op_time = dummy_dev_time, op_clear = dummy_dev_clear,
      op_log_start = Some dummy_dev_log_start, op_log_stop = Some dummy_dev_log_stop,
      op_get_samples = Some (dummy_dev_get_samples rnd), private_data = priv\<rparr>"

definition dummy_dev_init ::
    "(nat \<Rightarrow> u64) \<Rightarrow> string \<Rightarrow> dummy_state \<Rightarrow> (dummy_state plugin_devops_t option \<times> dummy_state) res" where
  "dummy_dev_init rnd initstr s = (case dev_new () s of (d, s) \<Rightarrow> Inr (Some (dummy_devOps rnd d), s))"

definition dummy_dev_final :: "dummy_state plugin_devops_t \<Rightarrow> dummy_state \<Rightarrow> (int \<times> dummy_state) res" where
  "dummy_dev_final ops s = rbind (dev_final (private_data ops) s) (\<lambda>s. Inr (0, s))"

definition dummy_dev :: "(nat \<Rightarrow> u64) \<Rightarrow> dummy_state plugin_dev_t" where
  "dummy_dev rnd = \<lparr>pd_init = dummy_dev_init rnd, pd_final = dummy_dev_final\<rparr>"

text \<open>\<^verbatim>\<open>pwr_dev.c\<close>.\<close>

definition pwr_dev_log_start :: "addr option \<Rightarrow> PWR_AttrName \<Rightarrow> int" where
  "pwr_dev_log_start p name = 0"

definition pwr_dev_log_stop :: "addr option \<Rightarrow> PWR_AttrName \<Rightarrow> int" where
  "pwr_dev_log_stop p name = 0"

section \<open>Writing and reading\<close>

lemma pfd_set_get:
  "pfd_set p f s = Inr s' \<Longrightarrow> pfd_get q s' = (if q = p then Inr f else pfd_get q s)"
  by (cases q) (auto simp: pfd_set_def pfd_get_def rbind_eq_Inr heap_set_eq_Inr heap_get_def,
      metis nth_list_update_neq)

lemma pfd_get_gettimeofday: "gettimeofday s = (tv, s') \<Longrightarrow> pfd_get p s' = pfd_get p s"
  by (auto simp: gettimeofday_def pfd_get_def)

lemma dummy_getTime_of_set:
  assumes "pfd_set p f s = Inr s'"
  shows "fst (dummy_getTime s') = fst (dummy_getTime s)"
  using assms by (auto simp: pfd_set_def rbind_eq_Inr dummy_getTime_def gettimeofday_def)

text \<open>
  A value written to an attribute of the dummy device is the value the next read of it
  returns; a read of another attribute returns what it would have returned before the write. Neither
  fails once the descriptor is live and the cell that is read has been written.
\<close>

theorem dummy_write_read:
  assumes w: "dummy_dev_write p a v len s = Inr ((r, v'), s1)"
    and rd: "dummy_dev_read p b junk len' t s1 = Inr ((r', w, t'), s2)"
  shows "r = PWR_RET_SUCCESS \<and> r' = PWR_RET_SUCCESS \<and>
    (if b = a then w = v
     else fst (projr (dummy_dev_read p b junk len' t s)) = (PWR_RET_SUCCESS, w, t'))"
proof -
  from w obtain f i vs where i: "attr_index a = Inr i" and f: "pfd_get p s = Inr f"
    and vs: "vs = (db_values f)[i := Some v]" "i < length (db_values f)"
    and s1: "pfd_set p (f\<lparr>db_values := vs\<rparr>) s = Inr s1" and r: "r = PWR_RET_SUCCESS"
    by (auto simp: dummy_dev_write_def rbind_eq_Inr awrite_eq_Inr)
  have g: "pfd_get p s1 = Inr (f\<lparr>db_values := vs\<rparr>)" using pfd_set_get [OF s1] by simp
  from rd obtain j where j: "attr_index b = Inr j" by (auto simp: dummy_dev_read_def rbind_eq_Inr)
  show ?thesis
  proof (cases "b = a")
    case True
    then show ?thesis
      using rd g i vs r by (auto simp: dummy_dev_read_def rbind_eq_Inr split_def aread_eq_Inr cell_value_def)
  next
    case False
    then have ji: "j \<noteq> i" using attr_index_inj i j by blast
    then have "aread vs j = aread (db_values f) j" by (simp add: vs aread_def)
    then show ?thesis
      using False rd g j f r dummy_getTime_of_set [OF s1]
      by (auto simp: dummy_dev_read_def rbind_eq_Inr split_def)
  qed
qed

lemma dummy_clock:
  assumes "clock s (ticks s) = (1, 0)"
  shows "f_to_i64 (fst (dummy_getTime s)) = Inr 1000000000"
proof -
  have "dval (fadd (f_of_int 1000000000) (f_of_int 0)) = Some (real_of_int 1000000000 + real_of_int 0)"
    by (rule dval_fadd) (simp_all add: dval_f_of_int representable_int [of 1000000000, simplified])
  then have "f_trunc (fadd (f_of_int 1000000000) (f_of_int 0)) = Some 1000000000"
    by (intro f_trunc_dval) simp
  with assms show ?thesis by (simp add: dummy_getTime_def gettimeofday_def f_to_i64_def)
qed

lemma snd_dummy_getTime: "snd (dummy_getTime s) = s\<lparr>ticks := Suc (ticks s)\<rparr>"
  by (simp add: dummy_getTime_def gettimeofday_def split_def)

definition demo_dummy :: dummy_state where
  "demo_dummy = (demo_state (\<lambda>_. None)
     [\<lparr>db_values = replicate dummy_cells (Some 5), db_stamps = replicate dummy_cells None\<rparr>])\<lparr>clock := \<lambda>_. (1, 0)\<rparr>"

text \<open>Reading it, whatever has been read before.\<close>

lemma demo_dummy_read:
  assumes "is_real_attr a"
  shows "dummy_dev_read (Some 0) a v len t (demo_dummy\<lparr>ticks := k\<rparr>) =
    Inr ((0, 5, 1000000000), demo_dummy\<lparr>ticks := Suc k\<rparr>)"
proof -
  have "nat (attr_code a) < 34" using assms by (simp add: is_real_attr_def nat_less_iff)
  then show ?thesis
    using assms by (simp add: dummy_dev_read_def split_def attr_index_real cell_value_def pfd_get_def
        heap_get_def demo_dummy_def snd_dummy_getTime dummy_clock)
qed

theorem dummy_write_read_witness:
  "\<exists>s1 s2. dummy_dev_write (Some 0) PWR_ATTR_FREQ 7 8 demo_dummy = Inr ((PWR_RET_SUCCESS, 7), s1) \<and>
     dummy_dev_read (Some 0) PWR_ATTR_FREQ 0 8 0 s1 = Inr ((PWR_RET_SUCCESS, 7, 1000000000), s2)"
proof -
  let ?vs = "(replicate dummy_cells (Some 5))[9 := Some 7]"
  have w: "dummy_dev_write (Some 0) PWR_ATTR_FREQ 7 8 demo_dummy = Inr ((0, 7),
      demo_dummy\<lparr>fds := [Some \<lparr>db_values = ?vs, db_stamps = replicate dummy_cells None\<rparr>]\<rparr>)" (is "_ = Inr (_, ?s)")
    by (simp add: dummy_dev_write_def demo_dummy_def pfd_get_def pfd_set_def heap_get_def heap_set_def
        attr_index_def)
  have "\<exists>x s2. dummy_dev_read (Some 0) PWR_ATTR_FREQ 0 8 0 ?s = Inr ((0, x, 1000000000), s2)"
    by (simp add: dummy_dev_read_def split_def attr_index_def cell_value_def pfd_get_def heap_get_def
        dummy_clock demo_dummy_def)
  then obtain x s2 where rd: "dummy_dev_read (Some 0) PWR_ATTR_FREQ 0 8 0 ?s = Inr ((0, x, 1000000000), s2)"
    by blast
  from dummy_write_read [OF w rd] w rd show ?thesis by auto
qed

end
