(* ===== verification/ObjectProps.thy ===== *)
theory ObjectProps
  imports Object DummyDev
begin

text \<open>
  What a caller of \<^verbatim>\<open>PWR_ObjAttrGetValues\<close> and \<^verbatim>\<open>PWR_GrpAttrGetValues\<close> is left with:
  the buffer of an object is its attributes in order up to the first error, the buffer of a group is one
  such row for each member.
\<close>

section \<open>Objects\<close>

text \<open>An object for examples: its power is provided by the dummy device, its energy by another server.\<close>

definition demo_device :: "dummy_state Device" where
  "demo_device = \<lparr>d_ops = dummy_devOps (\<lambda>_. 0) 0, d_fd = 0\<rparr>"

definition demo_info :: "dummy_state AttrInfo" where
  "demo_info = (new_AttrInfo (Some hd) (\<lambda>ts. aread ts 0) FP_ADD)\<lparr>ai_devices := [demo_device, demo_device]\<rparr>"

definition demo_object :: "dummy_state Object" where
  "demo_object =
     \<lparr>m_name = ''plat.node0'', m_objType = PWR_OBJ_NODE,
      m_attrInfo = (replicate 17 (new_AttrInfo None (\<lambda>ts. aread ts 0) NO_OP))
        [6 := demo_info, 12 := (new_AttrInfo (Some hd) (\<lambda>ts. aread ts 0) FP_ADD)\<lparr>ai_comm := Some 3\<rparr>],
      m_parent = None, m_children = None\<rparr>"

lemma demo_object_attrs:
  "getAttrInfo demo_object PWR_ATTR_POWER = Inr demo_info"
  "getAttrInfo demo_object PWR_ATTR_ENERGY =
     Inr ((new_AttrInfo (Some hd) (\<lambda>ts. aread ts 0) FP_ADD)\<lparr>ai_comm := Some 3\<rparr>)"
  "getAttrInfo demo_object PWR_ATTR_TEMP = Inr (new_AttrInfo None (\<lambda>ts. aread ts 0) NO_OP)"
  by (simp_all add: getAttrInfo_def attr_index_def demo_object_def)

lemma demo_device_read:
  "is_real_attr a \<Longrightarrow> device_getValue demo_device a v 8 t (demo_dummy\<lparr>ticks := k\<rparr>) =
     Inr ((0, 5, 1000000000), demo_dummy\<lparr>ticks := Suc k\<rparr>)"
  by (simp add: device_getValue_def demo_device_def dummy_devOps_def demo_dummy_read)

lemma demo_object_read:
  "read_attr demo_object PWR_ATTR_POWER (demo_dummy\<lparr>ticks := k\<rparr>) =
     Inr ((0, 5, 1000000000), demo_dummy\<lparr>ticks := Suc (Suc k)\<rparr>)"
  "read_attr demo_object PWR_ATTR_ENERGY s = Inr ((0, 0, 0), s)"
  "read_attr demo_object PWR_ATTR_TEMP s = Inr ((PWR_RET_INVALID, 0, 0), s)"
  by (simp_all add: read_attr_def demo_object_attrs demo_info_def new_AttrInfo_def attr_isValid_def
      attrGetValuesDevice_def demo_device_read is_real_attr_def)

text \<open>
  C5: \<^verbatim>\<open>Object::attrGetValues\<close> refines the scan of the attributes: cell $i$ of the two
  buffers is the value and time of attribute $i$, up to and including the first attribute that fails,
  which is recorded in the status with its error and leaves zeros; everything else in the buffers is
  left as it was.
\<close>

theorem object_reads_until_error:
  assumes "off + nat count \<le> length vs" "off + nat count \<le> length ts" "nat count \<le> length names"
  shows "attrGetValues ob self count names off (vs, ts, st) s =
    rbind (read_attrs ob (take (nat count) names) s) (\<lambda>((xs, e), s).
    Inr ((if add_error self e st = [] then PWR_RET_SUCCESS else PWR_RET_STATUS,
          splice vs off (map fst xs), splice ts off (map snd xs), add_error self e st), s))"
  using assms by (rule attrGetValues_spec)

theorem object_reads_until_error_witness:
  "attrGetValues demo_object 7 3 [PWR_ATTR_POWER, PWR_ATTR_TEMP, PWR_ATTR_ENERGY] 1
     ([9, 9, 9, 9], [8, 8, 8, 8], []) (demo_dummy\<lparr>ticks := 0\<rparr>) =
   Inr ((PWR_RET_STATUS, [9, 5, 0, 9], [8, 1000000000, 0, 8],
         [\<lparr>err_obj = 7, err_name = PWR_ATTR_TEMP, err_error = PWR_RET_INVALID\<rparr>]), demo_dummy\<lparr>ticks := 2\<rparr>)"
  using object_reads_until_error [of 1 3 "[9, 9, 9, 9]" "[8, 8, 8, 8]"
    "[PWR_ATTR_POWER, PWR_ATTR_TEMP, PWR_ATTR_ENERGY]" demo_object 7 "[]" "demo_dummy\<lparr>ticks := 0\<rparr>"]
  by (simp add: demo_object_read add_error_def status_add_def splice_def numeral_2_eq_2)

text \<open>
  \<^verbatim>\<open>Object::attrGetValue\<close> is the read of that one attribute: it returns the error of
  the device, or \<^verbatim>\<open>PWR_RET_INVALID\<close>, itself, and the assertion that the status holds the error
  never fails.
\<close>

theorem object_get_value: "attrGetValue ob self a v t s = read_attr ob a s"
  by (rule attrGetValue_spec)

lemma read_attrs_cases:
  "read_attrs ob as s = Inr ((xs, e), s') \<Longrightarrow>
     e = None \<and> length xs = length as \<or>
     (\<exists>r. xs \<noteq> [] \<and> length xs \<le> length as \<and> e = Some (as ! (length xs - 1), r) \<and>
        r \<noteq> PWR_RET_SUCCESS \<and> last xs = (0, 0))"
proof (induction as arbitrary: s xs e s')
  case (Cons a as)
  then obtain r v t s1 where r: "read_attr ob a s = Inr ((r, v, t), s1)" by (auto simp: rbind_eq_Inr)
  show ?case
  proof (cases "r = PWR_RET_SUCCESS")
    case True
    with Cons.prems r obtain ys where ys: "read_attrs ob as s1 = Inr ((ys, e), s')" "xs = (v, t) # ys"
      by (auto simp: rbind_eq_Inr)
    from Cons.IH [OF ys(1)] ys(2) show ?thesis by (cases ys) auto
  next
    case False
    with Cons.prems r show ?thesis by auto
  qed
qed simp

text \<open>
  A read of several attributes fills $k$ cells of its row and touches no other. Either these are
  all of them and the status is as it was, or the last one belongs to the first attribute that
  failed: it is 0, and the status has grown by that error.
\<close>

theorem object_error_frame:
  assumes "off + nat count \<le> length vs" "off + nat count \<le> length ts" "nat count \<le> length names"
    and run: "attrGetValues ob self count names off (vs, ts, st) s = Inr ((r, vs', ts', st'), s')"
  shows "\<exists>k \<le> nat count. length vs' = length vs \<and> length ts' = length ts \<and>
    (\<forall>j. j < off \<or> off + k \<le> j \<longrightarrow> vs' ! j = vs ! j \<and> ts' ! j = ts ! j) \<and>
    (k = nat count \<and> st' = st \<or>
     (\<exists>e. 0 < k \<and> e \<noteq> PWR_RET_SUCCESS \<and> st' = status_add self (names ! (k - 1)) e st \<and>
        r = PWR_RET_STATUS \<and> vs' ! (off + k - 1) = 0 \<and> ts' ! (off + k - 1) = 0))"
proof -
  from run obtain xs e where xs: "read_attrs ob (take (nat count) names) s = Inr ((xs, e), s')"
    and v: "vs' = splice vs off (map fst xs)" "ts' = splice ts off (map snd xs)" "st' = add_error self e st"
    and r: "r = (if st' = [] then PWR_RET_SUCCESS else PWR_RET_STATUS)"
    unfolding attrGetValues_spec [OF assms(1-3)] by (auto simp: rbind_eq_Inr)
  have len: "length xs \<le> nat count" using read_attrs_length [OF xs] by simp
  have frame: "splice b off (map g xs) ! j = b ! j"
    if "off + nat count \<le> length b" "j < off \<or> off + length xs \<le> j" for b j and g :: "_ \<Rightarrow> u64"
    using that len by (auto simp: splice_def nth_append)
  have "length xs = nat count \<and> st' = st \<or>
     (\<exists>e. 0 < length xs \<and> e \<noteq> PWR_RET_SUCCESS \<and> st' = status_add self (names ! (length xs - 1)) e st \<and>
        r = PWR_RET_STATUS \<and> vs' ! (off + length xs - 1) = 0 \<and> ts' ! (off + length xs - 1) = 0)"
    using read_attrs_cases [OF xs]
  proof (elim disjE exE conjE)
    fix q assume ne: "xs \<noteq> []" and e: "e = Some (take (nat count) names ! (length xs - 1), q)" "q \<noteq> PWR_RET_SUCCESS"
      and l: "last xs = (0, 0)"
    have z: "splice b off (map g xs) ! (off + length xs - 1) = g (0, 0)"
      if "off + nat count \<le> length b" for b and g :: "_ \<Rightarrow> u64"
      using that len ne l by (cases xs rule: rev_cases) (auto simp: splice_def nth_append)
    have "take (nat count) names ! (length xs - 1) = names ! (length xs - 1)"
      using ne len by (cases xs) auto
    with e v r ne z [OF assms(1)] z [OF assms(2)] show ?thesis
      by (auto simp: add_error_def status_add_def)
  qed (use v assms(3) in \<open>simp add: add_error_def\<close>)
  then show ?thesis
    using len v frame assms(1,2) by (intro exI [of _ "length xs"]) auto
qed

theorem object_error_frame_witness:
  "\<exists>k \<le> 2. \<forall>j. j < 1 \<or> 1 + k \<le> j \<longrightarrow> [9, 5, 0 :: u64, 9] ! j = [9, 9, 9, 9] ! j"
  using object_error_frame [of 1 2 "[9, 9, 9, 9]" "[8, 8, 8, 8]"
    "[PWR_ATTR_POWER, PWR_ATTR_TEMP]" demo_object 7 "[]" "demo_dummy\<lparr>ticks := 0\<rparr>" PWR_RET_STATUS
    "[9, 5, 0, 9]" "[8, 1000000000, 0, 8]"
    "[\<lparr>err_obj = 7, err_name = PWR_ATTR_TEMP, err_error = PWR_RET_INVALID\<rparr>]" "demo_dummy\<lparr>ticks := 2\<rparr>"]
  by (simp add: attrGetValues_spec demo_object_read add_error_def status_add_def splice_def numeral_2_eq_2) blast

section \<open>Groups\<close>

text \<open>
  The rows of a group: what each member reads, in order, and all errors. The buffer is laid out
  row after row.
\<close>

fun read_rows ::
    "(addr \<Rightarrow> PWR_AttrName list \<Rightarrow> 'w \<Rightarrow> (((u64 \<times> u64) list \<times> addr status) \<times> 'w) res) \<Rightarrow> addr list \<Rightarrow>
     PWR_AttrName list \<Rightarrow> 'w \<Rightarrow> (((u64 \<times> u64) list list \<times> addr status) \<times> 'w) res" where
  "read_rows row [] names w = Inr (([], []), w)"
| "read_rows row (ob # obs) names w =
     rbind (row ob names w) (\<lambda>((xs, es), w).
     rbind (read_rows row obs names w) (\<lambda>((xss, es'), w). Inr ((xs # xss, es @ es'), w)))"

fun splice_rows :: "nat \<Rightarrow> nat \<Rightarrow> 'a list list \<Rightarrow> 'a list \<Rightarrow> 'a list" where
  "splice_rows num off [] vs = vs"
| "splice_rows num off (r # rs) vs = splice_rows num (off + num) rs (splice vs off r)"

lemma length_splice_rows:
  "off + num * length rs \<le> length vs \<Longrightarrow> \<forall>r \<in> set rs. length r \<le> num \<Longrightarrow>
   length (splice_rows num off rs vs) = length vs"
  by (induction num off rs vs rule: splice_rows.induct) simp_all

lemma nth_splice_rows:
  assumes "off + num * length rs \<le> length vs" "\<forall>r \<in> set rs. length r \<le> num" "k < length vs"
  shows "splice_rows num off rs vs ! k =
    (if off \<le> k \<and> k < off + num * length rs \<and> (k - off) mod num < length (rs ! ((k - off) div num))
     then rs ! ((k - off) div num) ! ((k - off) mod num) else vs ! k)"
  using assms
proof (induction num off rs vs rule: splice_rows.induct)
  case (2 num off r rs vs)
  from "2.prems" have r: "length r \<le> num" and len: "length (splice vs off r) = length vs" by simp_all
  from "2.IH" [unfolded len] "2.prems" have IH: "splice_rows num (off + num) rs (splice vs off r) ! k =
    (if off + num \<le> k \<and> k < off + num + num * length rs \<and>
        (k - (off + num)) mod num < length (rs ! ((k - (off + num)) div num))
     then rs ! ((k - (off + num)) div num) ! ((k - (off + num)) mod num) else splice vs off r ! k)"
    by simp
  show ?case
  proof (cases "off + num \<le> k")
    case True
    then obtain m where k: "k = off + num + m" using le_Suc_ex by blast
    have "splice vs off r ! k = vs ! k" using r k "2.prems" by (subst nth_splice) auto
    with IH k show ?thesis by (cases "num = 0") simp_all
  next
    case False
    with IH r "2.prems" show ?thesis by (cases "off \<le> k") (auto simp: nth_splice)
  qed
qed auto

text \<open>
  What a group relies on from its members: a member writes its row, the cells it does not
  reach stay as they were, and it appends its errors to the status.
\<close>

locale group_member =
  fixes get :: "'w member_get"
    and row :: "addr \<Rightarrow> PWR_AttrName list \<Rightarrow> 'w \<Rightarrow> (((u64 \<times> u64) list \<times> addr status) \<times> 'w) res"
  assumes get_row: "off + length names \<le> length vs \<Longrightarrow> off + length names \<le> length ts \<Longrightarrow>
      get ob (int (length names)) names off (vs, ts, st) w =
      rbind (row ob names w) (\<lambda>((xs, es), w).
      Inr ((if st @ es = [] then PWR_RET_SUCCESS else PWR_RET_STATUS,
            splice vs off (map fst xs), splice ts off (map snd xs), st @ es), w))"
    and row_length: "row ob names w = Inr ((xs, es), w') \<Longrightarrow> length xs \<le> length names"
begin

lemma read_rows_length:
  "read_rows row obs names w = Inr ((rows, es), w') \<Longrightarrow>
   length rows = length obs \<and> (\<forall>r \<in> set rows. length r \<le> length names)"
  by (induction obs arbitrary: w rows es w') (fastforce simp: rbind_eq_Inr dest: row_length)+

lemma loop_rows:
  assumes "off + (i + length obs) * length names \<le> length vs" "off + (i + length obs) * length names \<le> length ts"
  shows "grp_get_loop get obs i (int (length names)) names off (vs, ts, st) w =
    rbind (read_rows row obs names w) (\<lambda>((rows, es), w).
    Inr ((splice_rows (length names) (off + i * length names) (map (map fst) rows) vs,
          splice_rows (length names) (off + i * length names) (map (map snd) rows) ts, st @ es), w))"
  using assms
proof (induction obs arbitrary: i vs ts st w)
  case (Cons ob obs)
  let ?n = "length names"
  let ?o = "off + i * ?n"
  have b: "?o + ?n \<le> length vs" "?o + ?n \<le> length ts" using Cons.prems by (simp_all add: algebra_simps)
  have G: "get ob (int ?n) names ?o (vs, ts, st) w =
      rbind (row ob names w) (\<lambda>((xs, es), w).
      Inr ((if st @ es = [] then PWR_RET_SUCCESS else PWR_RET_STATUS,
            splice vs ?o (map fst xs), splice ts ?o (map snd xs), st @ es), w))"
    by (rule get_row) (use b in simp_all)
  show ?case
  proof (cases "row ob names w")
    case (Inl e)
    with G show ?thesis by simp
  next
    case (Inr y)
    obtain xs es w' where y: "y = ((xs, es), w')" by (metis prod.collapse)
    have xs: "length xs \<le> ?n" using row_length Inr y by simp
    have o: "off + Suc i * ?n = ?o + ?n" by simp
    have "grp_get_loop get obs (Suc i) (int ?n) names off
        (splice vs ?o (map fst xs), splice ts ?o (map snd xs), st @ es) w' =
      rbind (read_rows row obs names w') (\<lambda>((rows, es'), w).
      Inr ((splice_rows ?n (?o + ?n) (map (map fst) rows) (splice vs ?o (map fst xs)),
            splice_rows ?n (?o + ?n) (map (map snd) rows) (splice ts ?o (map snd xs)), (st @ es) @ es'), w))"
      unfolding o [symmetric]
      by (rule Cons.IH) (use Cons.prems b xs in \<open>simp_all add: algebra_simps\<close>)
    with G Inr y show ?thesis by (simp add: rbind_assoc split_def)
  qed
qed simp

lemma group_rows:
  assumes "off + grp_size g * length names \<le> length vs" "off + grp_size g * length names \<le> length ts"
    and run: "grp_attrGetValues get g (int (length names)) names off (vs, ts, st) w = Inr ((r, vs', ts', st'), w')"
  obtains rows es where "read_rows row (g_list g) names w = Inr ((rows, es), w')"
    "st' = st @ es" "r = (if st' = [] then PWR_RET_SUCCESS else PWR_RET_FAILURE)"
    "\<And>i j. i < grp_size g \<Longrightarrow> j < length (rows ! i) \<Longrightarrow>
      vs' ! (off + i * length names + j) = fst (rows ! i ! j) \<and>
      ts' ! (off + i * length names + j) = snd (rows ! i ! j)"
    "\<And>k. k < off \<or> off + grp_size g * length names \<le> k \<Longrightarrow> k < length vs \<Longrightarrow> vs' ! k = vs ! k"
proof -
  let ?n = "length names"
  have L: "grp_get_loop get (g_list g) 0 (int ?n) names off (vs, ts, st) w =
    rbind (read_rows row (g_list g) names w) (\<lambda>((rows, es), w).
    Inr ((splice_rows ?n off (map (map fst) rows) vs, splice_rows ?n off (map (map snd) rows) ts, st @ es), w))"
    using loop_rows [of off 0 "g_list g" names vs ts st w] assms(1,2) by (simp add: grp_size_def)
  from run obtain rows es where R: "read_rows row (g_list g) names w = Inr ((rows, es), w')"
    and v: "vs' = splice_rows ?n off (map (map fst) rows) vs" "ts' = splice_rows ?n off (map (map snd) rows) ts"
      "st' = st @ es" "r = (if st' = [] then PWR_RET_SUCCESS else PWR_RET_FAILURE)"
    unfolding grp_attrGetValues_def L by (auto simp: rbind_eq_Inr status_empty_def)
  from read_rows_length [OF R] have len: "length rows = grp_size g" "\<forall>r \<in> set rows. length r \<le> ?n"
    by (simp_all add: grp_size_def)
  have cell: "splice_rows ?n off (map (map h) rows) b ! (off + i * ?n + j) = h (rows ! i ! j)"
    if "i < grp_size g" "j < length (rows ! i)" "off + grp_size g * ?n \<le> length b"
      for i j b and h :: "u64 \<times> u64 \<Rightarrow> u64"
  proof -
    have "rows ! i \<in> set rows" using that(1) len(1) by simp
    then have "length (rows ! i) \<le> ?n" using len(2) by blast
    with that(2) have j: "j < ?n" by simp
    have "i * ?n + j < Suc i * ?n" using j by simp
    also have "\<dots> \<le> grp_size g * ?n" using that(1) by (intro mult_le_mono1) simp
    finally have k: "i * ?n + j < ?n * grp_size g" by (simp only: mult.commute [of ?n])
    have n: "?n \<noteq> 0" using j by auto
    have dm: "(off + i * ?n + j - off) div ?n = i" "(off + i * ?n + j - off) mod ?n = j"
      using j div_mult_self3 [OF n, of i j] by simp_all
    have b: "off + ?n * length (map (map h) rows) \<le> length b" using that(3) len(1) by (simp only: length_map mult.commute [of ?n])
    have r: "\<forall>r \<in> set (map (map h) rows). length r \<le> ?n" using len(2) by simp
    have "off + i * ?n + j < length b" using k that(3) by (simp only: mult.commute [of ?n])
    note nth_splice_rows [OF b r this]
    then show ?thesis unfolding dm using that(1,2) len(1) k by simp
  qed
  have out: "vs' ! k = vs ! k" if "k < off \<or> off + grp_size g * ?n \<le> k" "k < length vs" for k
    unfolding v using that len assms(1) by (subst nth_splice_rows) (auto simp: mult.commute)
  show thesis
    by (rule that [OF R v(3,4)]) (use v cell assms(1,2) out in auto)
qed

end

definition object_row ::
    "(addr \<Rightarrow> 's Object option) \<Rightarrow> addr \<Rightarrow> PWR_AttrName list \<Rightarrow> 's \<Rightarrow> (((u64 \<times> u64) list \<times> addr status) \<times> 's) res" where
  "object_row tab ob names s =
     rbind (deref (tab ob)) (\<lambda>x. rbind (read_attrs x names s) (\<lambda>((xs, e), s). Inr ((xs, add_error ob e []), s)))"

lemma add_error_append: "add_error ob e st = st @ add_error ob e []"
  by (cases e) (simp_all add: add_error_def status_add_append [of _ _ _ st] split_def)

interpretation obj_member: group_member "member_getValues tab" "object_row tab" for tab
proof
  show "member_getValues tab ob (int (length names)) names off (vs, ts, st) w =
      rbind (object_row tab ob names w) (\<lambda>((xs, es), w).
      Inr ((if st @ es = [] then PWR_RET_SUCCESS else PWR_RET_STATUS,
            splice vs off (map fst xs), splice ts off (map snd xs), st @ es), w))"
    if "off + length names \<le> length vs" "off + length names \<le> length ts"
    for off names vs ts ob st and w :: 'a
    using that by (cases "tab ob")
      (simp_all add: member_getValues_def object_row_def attrGetValues_spec rbind_assoc split_def
        add_error_append [of _ _ st])
  show "length xs \<le> length names" if "object_row tab ob names w = Inr ((xs, es), w')"
    for ob names xs es and w w' :: 'a
    using that read_attrs_length by (fastforce simp: object_row_def rbind_eq_Inr)
qed

text \<open>
  A read of \<^verbatim>\<open>num\<close> attributes of a group of objects writes the value of attribute $j$ of
  member $i$ to cell $i \cdot num + j$, touches no cell outside the rows, appends the errors of all
  members, in the order of the members, to the status, and fails exactly when the status is not
  empty: the failure of one member does not keep the others from being read.
\<close>

theorem group_get_values:
  assumes "off + grp_size g * length names \<le> length vs" "off + grp_size g * length names \<le> length ts"
    and "grp_attrGetValues (member_getValues tab) g (int (length names)) names off (vs, ts, st) s =
      Inr ((r, vs', ts', st'), s')"
  shows "\<exists>rows es. read_rows (object_row tab) (g_list g) names s = Inr ((rows, es), s') \<and>
    st' = st @ es \<and> r = (if st' = [] then PWR_RET_SUCCESS else PWR_RET_FAILURE) \<and>
    (\<forall>i < grp_size g. \<forall>j < length (rows ! i).
      vs' ! (off + i * length names + j) = fst (rows ! i ! j) \<and>
      ts' ! (off + i * length names + j) = snd (rows ! i ! j)) \<and>
    (\<forall>k < length vs. k < off \<or> off + grp_size g * length names \<le> k \<longrightarrow> vs' ! k = vs ! k)"
  by (rule obj_member.group_rows [OF assms]) blast

definition demo_table :: "addr \<Rightarrow> dummy_state Object option" where
  "demo_table a = (if a < 2 then Some demo_object else None)"

theorem group_get_values_witness:
  "\<exists>vs' ts' st'. grp_attrGetValues (member_getValues demo_table) \<lparr>g_name = [], g_list = [1, 0]\<rparr> 2
     [PWR_ATTR_POWER, PWR_ATTR_TEMP] 0 ([9, 9, 9, 9], [8, 8, 8, 8], []) (demo_dummy\<lparr>ticks := 0\<rparr>) =
       Inr ((PWR_RET_FAILURE, vs', ts', st'), demo_dummy\<lparr>ticks := 4\<rparr>) \<and> vs' ! 0 = 5 \<and> vs' ! 2 = 5 \<and> length st' = 2"
proof -
  let ?g = "\<lparr>g_name = [], g_list = [1, 0]\<rparr>" and ?a = "[PWR_ATTR_POWER, PWR_ATTR_TEMP]"
  have run: "\<exists>vs' ts' st'. grp_attrGetValues (member_getValues demo_table) ?g (int (length ?a)) ?a 0
      ([9, 9, 9, 9], [8, 8, 8, 8], []) (demo_dummy\<lparr>ticks := 0\<rparr>) =
       Inr ((PWR_RET_FAILURE, vs', ts', st'), demo_dummy\<lparr>ticks := 4\<rparr>)"
    by (simp add: grp_attrGetValues_def member_getValues_def demo_table_def attrGetValues_spec demo_object_read
        add_error_def status_add_def status_empty_def)
  then obtain vs' ts' st' where run: "grp_attrGetValues (member_getValues demo_table) ?g (int (length ?a)) ?a 0
      ([9, 9, 9, 9], [8, 8, 8, 8], []) (demo_dummy\<lparr>ticks := 0\<rparr>) =
       Inr ((PWR_RET_FAILURE, vs', ts', st'), demo_dummy\<lparr>ticks := 4\<rparr>)" by blast
  have rows: "read_rows (object_row demo_table) (g_list ?g) ?a (demo_dummy\<lparr>ticks := 0\<rparr>) =
    Inr (([[(5, 1000000000), (0, 0)], [(5, 1000000000), (0, 0)]],
      [\<lparr>err_obj = 1, err_name = PWR_ATTR_TEMP, err_error = PWR_RET_INVALID\<rparr>,
       \<lparr>err_obj = 0, err_name = PWR_ATTR_TEMP, err_error = PWR_RET_INVALID\<rparr>]), demo_dummy\<lparr>ticks := 4\<rparr>)"
    by (simp add: object_row_def demo_table_def demo_object_read add_error_def status_add_def)
  from group_get_values [OF _ _ run] rows have "vs' ! 0 = 5 \<and> vs' ! 2 = 5 \<and> length st' = 2"
    by (auto simp: grp_size_def numeral_2_eq_2 less_Suc_eq all_conj_distrib)
  with run show ?thesis by simp
qed

text \<open>A history of a group, and the set it stands for.\<close>

datatype grp_op = GrpAdd addr | GrpRemove addr

fun grp_step :: "grp_op \<Rightarrow> Grp \<Rightarrow> Grp" where
  "grp_step (GrpAdd a) g = snd (grp_add a g)"
| "grp_step (GrpRemove a) g = snd (grp_remove a g)"

fun set_step :: "grp_op \<Rightarrow> addr set \<Rightarrow> addr set" where
  "set_step (GrpAdd a) S = insert a S"
| "set_step (GrpRemove a) S = S - {a}"

definition grp_history :: "string \<Rightarrow> grp_op list \<Rightarrow> Grp" where
  "grp_history nm ops = fold grp_step ops \<lparr>g_name = nm, g_list = []\<rparr>"

definition set_history :: "grp_op list \<Rightarrow> addr set" where
  "set_history ops = fold set_step ops {}"

text \<open>
  A group is a set of objects: after any history of \<^verbatim>\<open>add\<close> and \<^verbatim>\<open>remove\<close> its
  members are those of the set the same history builds, each once, its size is the size of the set, and
  \<^verbatim>\<open>add\<close> fails exactly for a member.
\<close>

theorem group_is_a_set:
  "set (g_list (grp_history nm ops)) = set_history ops \<and> distinct (g_list (grp_history nm ops)) \<and>
   grp_size (grp_history nm ops) = card (set_history ops) \<and>
   (fst (grp_add a (grp_history nm ops)) = PWR_RET_FAILURE \<longleftrightarrow> a \<in> set_history ops)"
proof -
  have "set (g_list (fold grp_step ops x)) = fold set_step ops (set (g_list x)) \<and>
      distinct (g_list (fold grp_step ops x))" if "distinct (g_list x)" for x
    using that
  proof (induction ops arbitrary: x)
    case (Cons op ops)
    have "set (g_list (grp_step op x)) = set_step op (set (g_list x)) \<and> distinct (g_list (grp_step op x))"
      using Cons.prems by (cases op) (auto simp: grp_add_def grp_remove_def)
    with Cons.IH [of "grp_step op x"] show ?case by simp
  qed simp
  from this [of "\<lparr>g_name = nm, g_list = []\<rparr>"] show ?thesis
    by (auto simp: grp_history_def set_history_def grp_size_def grp_add_def dest: distinct_card [symmetric])
qed

end
