(* ===== verification/CntxtProps.thy ===== *)
theory CntxtProps
  imports Cntxt DummyDev
begin

text \<open>
  What the context promises: the devices and remote objects of an attribute are exactly those
  at and below the object, devices and objects are made once and shared, and what it makes is safe to use.
\<close>

section \<open>What initialising an attribute changes\<close>

definition comms_ok :: "'s cntxt \<Rightarrow> bool" where
  "comms_ok c \<longleftrightarrow> (\<forall>ks a. m_commMap c ks = Some a \<longrightarrow>
     (\<exists>x. heap_get (c_comms c) a = Inr x \<and> dc_objects x = ks))"

definition grows :: "'s cntxt \<Rightarrow> 's cntxt \<Rightarrow> bool" where
  "grows c c' \<longleftrightarrow>
     m_config c' = m_config c \<and> m_rootName c' = m_rootName c \<and> m_rootObj c' = m_rootObj c \<and>
     m_objMap c' = m_objMap c \<and> c_objs c' = c_objs c \<and> c_grps c' = c_grps c \<and>
     m_devMap c \<subseteq>\<^sub>m m_devMap c' \<and> m_deviceMap c \<subseteq>\<^sub>m m_deviceMap c' \<and>
     (\<exists>ys. c_comms c' = c_comms c @ ys) \<and> (comms_ok c \<longrightarrow> comms_ok c')"

lemma grows_refl [simp]: "grows c c"
  by (simp add: grows_def)

lemma grows_trans [trans]: "grows c c' \<Longrightarrow> grows c' c'' \<Longrightarrow> grows c c''"
  unfolding grows_def by (auto intro: map_le_trans)

lemma init_plugin_grows: "init_plugin p c = Inr c' \<Longrightarrow> grows c c' \<and> m_devMap c' = m_devMap c"
  by (auto simp: init_plugin_def Let_def grows_def comms_ok_def split: option.splits)

lemma initPlugins_grows: "initPlugins c = Inr c' \<Longrightarrow> grows c c' \<and> m_devMap c' = m_devMap c"
proof -
  have "foldM init_plugin ps c = Inr c' \<Longrightarrow> grows c c' \<and> m_devMap c' = m_devMap c" for ps c c'
    by (induction ps arbitrary: c) (force simp: rbind_eq_Inr dest: init_plugin_grows intro: grows_trans)+
  then show "initPlugins c = Inr c' \<Longrightarrow> grows c c' \<and> m_devMap c' = m_devMap c"
    by (auto simp: initPlugins_def rbind_eq_Inr)
qed

lemma init_sysdev_grows:
  "init_sysdev nm sds c = Inr (b, c') \<Longrightarrow> m_devMap c nm = None \<Longrightarrow> grows c c' \<and> (b \<longrightarrow> m_devMap c' nm \<noteq> None)"
  by (induction sds)
    (auto simp: rbind_eq_Inr grows_def comms_ok_def map_le_def split: option.splits if_split_asm)

lemma need_device_grows: "need_device nm c = Inr c' \<Longrightarrow> grows c c' \<and> m_devMap c' nm \<noteq> None"
  by (auto simp: need_device_def initDevice_def rbind_eq_Inr split: if_split_asm
      dest!: initPlugins_grows init_sysdev_grows intro: grows_trans)

lemma open_device_grows:
  "open_device a os c = Inr (d, c') \<Longrightarrow> grows c c' \<and> m_devMap c' = m_devMap c \<and> m_deviceMap c' (a, os) = Some d"
  by (auto simp: open_device_def rbind_eq_Inr grows_def comms_ok_def map_le_def split: option.splits)

text \<open>The device the context keeps for a device and open string of the configuration.\<close>

definition dev_of :: "'s cntxt \<Rightarrow> ObjDev \<Rightarrow> 's Device option" where
  "dev_of c d = (case m_devMap c (od_device d) of None \<Rightarrow> None | Some (_, a) \<Rightarrow> m_deviceMap c (a, od_openString d))"

lemma dev_of_grows: "dev_of c d = Some x \<Longrightarrow> grows c c' \<Longrightarrow> dev_of c' d = Some x"
  by (auto simp: dev_of_def grows_def map_le_def dom_def split: option.splits prod.splits)

lemma add_local_grows:
  assumes "add_local d ((l, r), c) = Inr ((l', r'), c')"
  shows "grows c c' \<and> r' = r \<and> (\<exists>x. l' = l @ [x] \<and> dev_of c' d = Some x)"
proof -
  from assms obtain c1 y a x where 1: "need_device (od_device d) c = Inr c1"
    and 2: "m_devMap c1 (od_device d) = Some (y, a)" and 3: "open_device a (od_openString d) c1 = Inr (x, c')"
    and l: "l' = l @ [x]" "r' = r"
    by (auto simp: add_local_def rbind_eq_Inr)
  from open_device_grows [OF 3] 2 have "dev_of c' d = Some x" by (simp add: dev_of_def)
  with need_device_grows [OF 1] open_device_grows [OF 3] l show ?thesis by (auto intro: grows_trans)
qed

section \<open>The sites of an attribute\<close>

text \<open>
  Without the devices: where an attribute is provided, in the order of the traversal. An object with a
  server of its own, other than the root, is a boundary. A query that is a fault is a site at which the traversal ends.
\<close>

datatype site = LocalSite ObjDev | RemoteSite string | FaultSite fault

definition boundary :: "config \<Rightarrow> string \<Rightarrow> string \<Rightarrow> bool" where
  "boundary cfg rt nm \<longleftrightarrow> hasServer cfg nm \<and> nm \<noteq> rt"

primrec sites :: "nat \<Rightarrow> config \<Rightarrow> string \<Rightarrow> PWR_AttrName \<Rightarrow> string \<Rightarrow> site list option" where
  "sites 0 cfg rt attr nm = None"
| "sites (Suc n) cfg rt attr nm =
     (case ask_hasServer cfg nm of
        Inl e \<Rightarrow> Some [FaultSite e]
      | Inr srv \<Rightarrow>
          if srv \<and> nm \<noteq> rt then Some [RemoteSite nm]
          else
            (case ask_findObjDevs cfg nm attr of
               Inl e \<Rightarrow> Some [FaultSite e]
             | Inr ds \<Rightarrow>
                 (case ask_findAttrChildren cfg nm attr of
                    Inl e \<Rightarrow> Some (map LocalSite ds @ [FaultSite e])
                  | Inr chs \<Rightarrow> map_option (\<lambda>ss. map LocalSite ds @ concat ss) (those (map (sites n cfg rt attr) chs)))))"

fun visit :: "site \<Rightarrow> ('s Device list \<times> string list) \<times> 's cntxt \<Rightarrow> (('s Device list \<times> string list) \<times> 's cntxt) res" where
  "visit (LocalSite d) st = add_local d st"
| "visit (RemoteSite nm) ((local, remote), c) = Inr ((local, insort_insert nm remote), c)"
| "visit (FaultSite e) st = Inl e"

lemma visits_no_fault: "foldM visit ss st = Inr st' \<Longrightarrow> FaultSite e \<notin> set ss"
  by (induction ss arbitrary: st) (auto simp: rbind_eq_Inr)

lemma visit_grows: "visit x ((l, r), c) = Inr ((l', r'), c') \<Longrightarrow> grows c c'"
  by (cases x) (auto dest: add_local_grows)

lemma visits_grows: "foldM visit ss ((l, r), c) = Inr ((l', r'), c') \<Longrightarrow> grows c c'"
proof (induction ss arbitrary: l r c)
  case (Cons x ss)
  then obtain l1 r1 c1 where "visit x ((l, r), c) = Inr ((l1, r1), c1)" "foldM visit ss ((l1, r1), c1) = Inr ((l', r'), c')"
    by (auto simp: rbind_eq_Inr)
  with Cons.IH visit_grows show ?case by (blast intro: grows_trans)
qed simp

lemma foldM_visit_local: "foldM visit (map LocalSite ds) = foldM add_local ds"
proof (induction ds)
  case (Cons d ds)
  then show ?case by (intro ext) simp
qed (intro ext, simp)

lemma traverse_children_sites:
  fixes c :: "'s cntxt"
  assumes "\<And>ch s1 l r (c' :: 's cntxt). sites n (m_config c') (m_rootName c') attr ch = Some s1 \<Longrightarrow>
      traverse n attr ch ((l, r), c') = foldM visit s1 ((l, r), c')"
    and "those (map (sites n (m_config c) (m_rootName c) attr) chs) = Some sss" "grows c c'"
  shows "foldM (traverse n attr) chs ((l, r), c') = foldM visit (concat sss) ((l, r), c')"
  using assms(2,3)
proof (induction chs arbitrary: sss l r c')
  case (Cons ch chs)
  then obtain s1 rest where s1: "sites n (m_config c) (m_rootName c) attr ch = Some s1"
    and rest: "those (map (sites n (m_config c) (m_rootName c) attr) chs) = Some rest" and sss: "sss = s1 # rest"
    by (auto split: option.splits)
  have "traverse n attr ch ((l, r), c') = foldM visit s1 ((l, r), c')"
    by (rule assms(1)) (use s1 Cons.prems(2) in \<open>simp add: grows_def\<close>)
  moreover have "foldM (traverse n attr) chs y = foldM visit (concat rest) y"
    if "foldM visit s1 ((l, r), c') = Inr y" for y
  proof -
    obtain l1 r1 c1 where y: "y = ((l1, r1), c1)" by (metis prod.collapse)
    with that visits_grows Cons.prems(2) have "grows c c1" by (blast intro: grows_trans)
    with Cons.IH [OF rest, of c1 l1 r1] y show ?thesis by simp
  qed
  ultimately show ?case by (auto simp: sss foldM_append intro!: rbind_cong)
qed simp

lemma traverse_sites:
  "sites n (m_config c) (m_rootName c) attr nm = Some ss \<Longrightarrow>
   traverse n attr nm ((l, r), c) = foldM visit ss ((l, r), c)"
proof (induction n arbitrary: nm ss l r c)
  case (Suc n)
  have locals: "foldM visit (map LocalSite ds @ ss') ((l, r), c) =
      rbind (foldM add_local ds ((l, r), c)) (foldM visit ss')" for ds ss'
    by (simp add: foldM_append foldM_visit_local)
  show ?case
  proof (cases "ask_hasServer (m_config c) nm")
    case (Inr srv)
    show ?thesis
    proof (cases "srv \<and> nm \<noteq> m_rootName c")
      case False
      show ?thesis
      proof (cases "ask_findObjDevs (m_config c) nm attr")
        case devs: (Inr ds)
        show ?thesis
        proof (cases "ask_findAttrChildren (m_config c) nm attr")
          case (Inl e)
          have "rbind (foldM add_local ds ((l, r), c)) (\<lambda>_. Inl e) = rbind (foldM add_local ds ((l, r), c)) (foldM visit [FaultSite e])"
            by (intro rbind_cong) auto
          moreover have "ss = map LocalSite ds @ [FaultSite e]" using Suc.prems Inr False devs Inl by auto
          ultimately show ?thesis using Inr False devs Inl locals [of ds "[FaultSite e]"] by (auto simp del: foldM_append)
        next
          case chs: (Inr chs)
          with Suc.prems Inr False devs obtain sss where
            sss: "those (map (sites n (m_config c) (m_rootName c) attr) chs) = Some sss"
            and ss: "ss = map LocalSite ds @ concat sss" by auto
          have "foldM (traverse n attr) chs y = foldM visit (concat sss) y"
            if "foldM add_local ds ((l, r), c) = Inr y" for y
          proof -
            obtain l1 r1 c1 where y: "y = ((l1, r1), c1)" by (metis prod.collapse)
            from that have "foldM visit (map LocalSite ds) ((l, r), c) = Inr y"
              by (simp add: foldM_visit_local)
            with y visits_grows have "grows c c1" by blast
            with traverse_children_sites [OF Suc.IH sss] y show ?thesis by simp
          qed
          with Inr False devs chs show ?thesis unfolding ss locals by (auto intro!: rbind_cong)
        qed
      qed (use Suc.prems Inr False in auto)
    qed (use Suc.prems Inr in auto)
  qed (use Suc.prems in auto)
qed simp

text \<open>The configuration is a tree: something decreases from an object to its children.\<close>

definition ranked :: "config \<Rightarrow> PWR_AttrName \<Rightarrow> (string \<Rightarrow> nat) \<Rightarrow> bool" where
  "ranked cfg attr rank \<longleftrightarrow> (\<forall>x. \<forall>y \<in> set (findAttrChildren cfg x attr). rank y < rank x)"

lemma sites_defined:
  assumes "ranked cfg attr rank"
  shows "rank nm < n \<Longrightarrow> \<exists>ss. sites n cfg rt attr nm = Some ss"
proof (induction n arbitrary: nm)
  case (Suc n)
  have "\<exists>sss. those (map (sites n cfg rt attr) chs) = Some sss"
    if "set chs \<subseteq> set (findAttrChildren cfg nm attr)" for chs
    using that
  proof (induction chs)
    case (Cons ch chs)
    then have "rank ch < n" using assms Suc.prems by (fastforce simp: ranked_def)
    with Suc.IH obtain ss where "sites n cfg rt attr ch = Some ss" by blast
    with Cons show ?case by auto
  qed simp
  from this [of "findAttrChildren cfg nm attr"] show ?case by (auto simp: findAttrChildren_def split: sum.splits)
qed simp

section \<open>Where an attribute is provided\<close>

inductive reaches :: "config \<Rightarrow> string \<Rightarrow> PWR_AttrName \<Rightarrow> string \<Rightarrow> string \<Rightarrow> bool" for cfg rt attr where
  here: "reaches cfg rt attr x x"
| child: "\<not> boundary cfg rt x \<Longrightarrow> y \<in> set (findAttrChildren cfg x attr) \<Longrightarrow> reaches cfg rt attr y z \<Longrightarrow>
    reaches cfg rt attr x z"

lemma reaches_iff:
  "reaches cfg rt attr x z \<longleftrightarrow>
     x = z \<or> \<not> boundary cfg rt x \<and> (\<exists>y \<in> set (findAttrChildren cfg x attr). reaches cfg rt attr y z)"
  by (auto intro: reaches.intros elim: reaches.cases)

definition site_at :: "config \<Rightarrow> string \<Rightarrow> PWR_AttrName \<Rightarrow> string \<Rightarrow> site \<Rightarrow> bool" where
  "site_at cfg rt attr x s \<longleftrightarrow>
     (case s of
        LocalSite d \<Rightarrow> \<not> boundary cfg rt x \<and> d \<in> set (findObjDevs cfg x attr)
      | RemoteSite y \<Rightarrow> boundary cfg rt x \<and> y = x
      | FaultSite e \<Rightarrow> False)"

lemma sites_set:
  "sites n cfg rt attr nm = Some ss \<Longrightarrow> \<forall>e. FaultSite e \<notin> set ss \<Longrightarrow>
   s \<in> set ss \<longleftrightarrow> (\<exists>x. reaches cfg rt attr nm x \<and> site_at cfg rt attr x s)"
proof (induction n arbitrary: nm ss)
  case (Suc n)
  then obtain srv where srv: "ask_hasServer cfg nm = Inr srv" by (cases "ask_hasServer cfg nm") auto
  then have bd: "boundary cfg rt nm \<longleftrightarrow> srv \<and> nm \<noteq> rt" by (simp add: boundary_def hasServer_def)
  show ?case
  proof (cases "boundary cfg rt nm")
    case True
    with Suc.prems srv bd show ?thesis by (auto simp: reaches_iff [of _ _ _ nm] site_at_def split: site.splits)
  next
    case False
    with Suc.prems srv bd obtain ds chs sss where ds: "ask_findObjDevs cfg nm attr = Inr ds" and chs: "ask_findAttrChildren cfg nm attr = Inr chs"
      and sss: "those (map (sites n cfg rt attr) chs) = Some sss"
      and ss: "ss = map LocalSite ds @ concat sss"
      by (cases "ask_findObjDevs cfg nm attr"; cases "ask_findAttrChildren cfg nm attr") (auto simp: all_conj_distrib)
    have "s \<in> set (concat sss) \<longleftrightarrow> (\<exists>y \<in> set chs. \<exists>x. reaches cfg rt attr y x \<and> site_at cfg rt attr x s)"
      if "those (map (sites n cfg rt attr) chs) = Some sss" "\<forall>e. FaultSite e \<notin> set (concat sss)" for chs sss
      using that
    proof (induction chs arbitrary: sss)
      case (Cons ch chs)
      then obtain s1 rest where s1: "sites n cfg rt attr ch = Some s1" "those (map (sites n cfg rt attr) chs) = Some rest" "sss = s1 # rest"
        by (auto split: option.splits)
      with Cons.prems have "s \<in> set s1 \<longleftrightarrow> (\<exists>x. reaches cfg rt attr ch x \<and> site_at cfg rt attr x s)"
        by (intro Suc.IH) auto
      with s1 Cons show ?case by auto
    qed simp
    note below = this [OF sss]
    have "(\<exists>x. reaches cfg rt attr nm x \<and> site_at cfg rt attr x s) \<longleftrightarrow> site_at cfg rt attr nm s \<or>
        (\<exists>y \<in> set chs. \<exists>x. reaches cfg rt attr y x \<and> site_at cfg rt attr x s)"
    proof -
      have E: "reaches cfg rt attr nm x \<longleftrightarrow> nm = x \<or> (\<exists>y \<in> set chs. reaches cfg rt attr y x)"
        for x using False reaches_iff [of cfg rt attr nm x] chs by (simp add: findAttrChildren_def)
      show ?thesis unfolding E by blast
    qed
    moreover have "site_at cfg rt attr nm s \<longleftrightarrow> s \<in> set (map LocalSite ds)"
      using False Suc.prems(2) ds by (auto simp: ss site_at_def findObjDevs_def split: site.splits)
    ultimately show ?thesis using below Suc.prems(2) unfolding ss by (simp only: set_append Un_iff) simp
  qed
qed simp

primrec locals :: "site list \<Rightarrow> ObjDev list" where
  "locals [] = []"
| "locals (s # ss) = (case s of LocalSite d \<Rightarrow> d # locals ss | _ \<Rightarrow> locals ss)"

primrec remotes :: "site list \<Rightarrow> string list" where
  "remotes [] = []"
| "remotes (s # ss) = (case s of RemoteSite y \<Rightarrow> y # remotes ss | _ \<Rightarrow> remotes ss)"

lemma set_locals: "d \<in> set (locals ss) \<longleftrightarrow> LocalSite d \<in> set ss"
  by (induction ss) (auto split: site.splits)

lemma set_remotes: "y \<in> set (remotes ss) \<longleftrightarrow> RemoteSite y \<in> set ss"
  by (induction ss) (auto split: site.splits)

lemma visits_result:
  "foldM visit ss ((l, r), c) = Inr ((l', r'), c') \<Longrightarrow>
   (\<exists>xs. l' = l @ xs \<and> map Some xs = map (dev_of c') (locals ss)) \<and> r' = fold insort_insert (remotes ss) r"
proof (induction ss arbitrary: l r c)
  case (Cons s ss)
  then obtain l1 r1 c1 where v: "visit s ((l, r), c) = Inr ((l1, r1), c1)"
    and rest: "foldM visit ss ((l1, r1), c1) = Inr ((l', r'), c')" by (auto simp: rbind_eq_Inr)
  from Cons.IH [OF rest] obtain xs where IH: "l' = l1 @ xs" "map Some xs = map (dev_of c') (locals ss)"
    "r' = fold insort_insert (remotes ss) r1" by blast
  show ?case
  proof (cases s)
    case (LocalSite d)
    with v add_local_grows obtain x where "l1 = l @ [x]" "dev_of c1 d = Some x" "r1 = r" by fastforce
    with IH LocalSite dev_of_grows [OF _ visits_grows [OF rest]] show ?thesis by auto
  next
    case (RemoteSite y)
    with v IH show ?thesis by auto
  qed (use v in auto)
qed simp

lemma fold_insort_insert: "fold insort_insert (xs :: string list) [] = sorted_list_of_set (set xs)"
proof -
  have "sorted (fold insort_insert xs r) \<and> distinct (fold insort_insert xs r) \<and>
      set (fold insort_insert xs r) = set xs \<union> set r" if "sorted r" "distinct r" for r :: "string list"
    using that by (induction xs arbitrary: r)
      (auto simp: sorted_insort_insert distinct_insort_insert set_insort_insert)
  from this [of "[]"] show ?thesis
    by (intro sorted_distinct_set_unique) simp_all
qed

lemma getCommunicator_spec:
  assumes "getCommunicator ks c = (a, c')" "comms_ok c"
  shows "grows c c' \<and> dev_of c' = dev_of c \<and> (\<exists>x. heap_get (c_comms c') a = Inr x \<and> dc_objects x = ks)"
proof (cases "m_commMap c ks")
  case None
  with assms show ?thesis
    by (auto simp: getCommunicator_def new_DistComm_def grows_def dev_of_def comms_ok_def fun_eq_iff
        heap_get_new split: option.splits if_split_asm) (metis heap_get_old)
next
  case (Some b)
  with assms show ?thesis by (auto simp: getCommunicator_def comms_ok_def)
qed

lemma initAttr_spec:
  assumes "ranked (m_config c) attr rank" "rank nm < n"
    and ok: "comms_ok c" and run: "initAttr n nm attr c = Inr (info, c')"
  shows "grows c c' \<and> (ai_valueOp info = NO_OP \<and> ai_devices info = [] \<and> ai_comm info = None \<or>
    ai_valueOp info \<noteq> NO_OP \<and>
    (\<exists>ss. sites n (m_config c) (m_rootName c) attr nm = Some ss \<and> (\<forall>e. FaultSite e \<notin> set ss) \<and>
       map Some (ai_devices info) = map (dev_of c') (locals ss) \<and>
       (if remotes ss = [] then ai_comm info = None
        else \<exists>a x. ai_comm info = Some a \<and> heap_get (c_comms c') a = Inr x \<and>
               dc_objects x = sorted_list_of_set (set (remotes ss)))))"
proof -
  from run obtain f op where run: "(if op \<noteq> NO_OP then
       rbind (traverse n attr nm (([], []), c)) (\<lambda>((local, remote), c).
       if remote \<noteq> [] then
         (case getCommunicator remote c of (a, c) \<Rightarrow>
            Inr ((new_AttrInfo f timeOp op)\<lparr>ai_devices := local, ai_comm := Some a\<rparr>, c))
       else Inr ((new_AttrInfo f timeOp op)\<lparr>ai_devices := local\<rparr>, c))
     else Inr (new_AttrInfo f timeOp op, c)) = Inr (info, c')"
    by (auto simp: initAttr_def rbind_eq_Inr Let_def)
  show ?thesis
  proof (cases "op = NO_OP")
    case True
    with run show ?thesis by (auto simp: new_AttrInfo_def)
  next
    case False
    from sites_defined [OF assms(1,2)] obtain ss
      where ss: "sites n (m_config c) (m_rootName c) attr nm = Some ss" by blast
    from run False obtain l r c1 where "traverse n attr nm (([], []), c) = Inr ((l, r), c1)"
      and rest: "(if r \<noteq> [] then
         (case getCommunicator r c1 of (a, c) \<Rightarrow>
            Inr ((new_AttrInfo f timeOp op)\<lparr>ai_devices := l, ai_comm := Some a\<rparr>, c))
       else Inr ((new_AttrInfo f timeOp op)\<lparr>ai_devices := l\<rparr>, c1)) = (Inr (info, c') :: _ res)"
      by (auto simp: rbind_eq_Inr)
    then have v: "foldM visit ss (([], []), c) = Inr ((l, r), c1)" by (simp add: traverse_sites [OF ss])
    from visits_result [OF v] have l: "map Some l = map (dev_of c1) (locals ss)"
      and r: "r = sorted_list_of_set (set (remotes ss))" by (auto simp: fold_insort_insert)
    have g: "grows c c1" by (rule visits_grows [OF v])
    then have ok1: "comms_ok c1" using ok by (simp add: grows_def)
    have nf: "\<forall>e. FaultSite e \<notin> set ss" using visits_no_fault [OF v] by blast
    have rem: "r = [] \<longleftrightarrow> remotes ss = []" by (simp add: r)
    show ?thesis
    proof (cases "r = []")
      case True
      with rest g l rem False ss nf show ?thesis by (auto simp: new_AttrInfo_def)
    next
      case nonempty: False
      obtain a c2 where gc: "getCommunicator r c1 = (a, c2)" by fastforce
      from getCommunicator_spec [OF gc ok1] grows_trans [OF g] rest gc nonempty l rem False ss r nf
      show ?thesis by (auto simp: new_AttrInfo_def)
    qed
  qed
qed

section \<open>A context for examples\<close>

definition demo_config :: config where
  "demo_config =
     \<lparr>ask_findParent = \<lambda>x. Inr (if x = ''p'' then [] else ''p''), ask_findAttrHz = \<lambda>_ _. Inr [],
      ask_findAttrOp = \<lambda>_ a. Inr (if a = PWR_ATTR_POWER then ''SUM'' else []), ask_findAttrType = \<lambda>_ _. Inr ''Float'',
      ask_findAttrChildren = \<lambda>x _. Inr (if x = ''p'' then [''p.a'', ''p.b''] else []),
      ask_findChildren = \<lambda>x. Inr (if x = ''p'' then [''p.a'', ''p.b''] else []),
      ask_hasServer = \<lambda>x. Inr (x = ''p.b''),
      ask_findObjDevs = \<lambda>x _. Inr (if x = ''p.a'' then [\<lparr>od_device = ''d'', od_openString = ''0''\<rparr>] else []),
      ask_findPlugins = Inr [\<lparr>pl_name = ''dummy'', pl_lib = ''dummy_dev''\<rparr>],
      ask_findSysDevs = Inr [\<lparr>sd_name = ''d'', sd_plugin = ''dummy'', sd_initString = []\<rparr>],
      ask_objType = \<lambda>x. Inr (if x = ''p'' then PWR_OBJ_PLATFORM
                        else if x = ''p.a'' \<or> x = ''p.b'' then PWR_OBJ_NODE else PWR_OBJ_INVALID)\<rparr>"

definition demo_cntxt :: "dummy_state cntxt" where
  "demo_cntxt =
     \<lparr>world = demo_dummy, m_config = demo_config, m_rootName = ''p'', m_rootObj = None,
      getDev = \<lambda>_ _. Some (Some (dummy_dev (\<lambda>_. 0))), sysname = ''Linux'', gettid = 7, m_currentCommID = 1,
      m_objMap = Map.empty, m_groupMap = Map.empty, m_pluginLibMap = Map.empty, m_devMap = Map.empty,
      m_deviceMap = Map.empty, m_commMap = Map.empty, c_ops = [], c_objs = [], c_grps = [], c_comms = []\<rparr>"

text \<open>
  C4: \<^verbatim>\<open>DistCntxt::initAttr\<close> finds exactly the providers of an attribute: the devices
  configured at the objects from the object down to the next ones with a server of their own, and a
  communicator to all of those servers' objects, in increasing order and each once; where there is none it makes
  no communicator. A device that is configured in several places is opened once: all of them
  share what the context keeps for its name and open string.
\<close>

theorem attribute_providers:
  assumes "ranked (m_config c) attr rank" "rank nm < n" "comms_ok c"
    and run: "initAttr n nm attr c = Inr (info, c')" and op: "ai_valueOp info \<noteq> NO_OP"
  defines "R \<equiv> {y. reaches (m_config c) (m_rootName c) attr nm y \<and> boundary (m_config c) (m_rootName c) y}"
  shows "(\<exists>ds. map Some (ai_devices info) = map (dev_of c') ds \<and>
      (\<forall>d. d \<in> set ds \<longleftrightarrow> (\<exists>x. reaches (m_config c) (m_rootName c) attr nm x \<and>
         \<not> boundary (m_config c) (m_rootName c) x \<and> d \<in> set (findObjDevs (m_config c) x attr)))) \<and>
    (if R = {} then ai_comm info = None
     else \<exists>a x. ai_comm info = Some a \<and> heap_get (c_comms c') a = Inr x \<and> dc_objects x = sorted_list_of_set R)"
proof -
  from initAttr_spec [OF assms(1-3) run] op obtain ss
    where ss: "sites n (m_config c) (m_rootName c) attr nm = Some ss" and nf: "\<forall>e. FaultSite e \<notin> set ss"
      and dev: "map Some (ai_devices info) = map (dev_of c') (locals ss)"
      and rem: "if remotes ss = [] then ai_comm info = None
        else \<exists>a x. ai_comm info = Some a \<and> heap_get (c_comms c') a = Inr x \<and>
               dc_objects x = sorted_list_of_set (set (remotes ss))" by blast
  have "d \<in> set (locals ss) \<longleftrightarrow> (\<exists>x. reaches (m_config c) (m_rootName c) attr nm x \<and>
         \<not> boundary (m_config c) (m_rootName c) x \<and> d \<in> set (findObjDevs (m_config c) x attr))" for d
    by (simp add: set_locals sites_set [OF ss nf] site_at_def)
  moreover have "set (remotes ss) = R"
    by (auto simp: R_def set_remotes sites_set [OF ss nf] site_at_def)
  moreover from this have "remotes ss = [] \<longleftrightarrow> R = {}" by auto
  ultimately show ?thesis using dev rem by auto
qed

lemma demo_ranked: "ranked demo_config attr (\<lambda>x. if x = ''p'' then 1 else 0)"
  by (auto simp: ranked_def demo_config_def findAttrChildren_def)

lemma demo_initAttr:
  "\<exists>info c'. initAttr 2 ''p'' PWR_ATTR_POWER demo_cntxt = Inr (info, c') \<and> ai_valueOp info = FP_ADD"
  by (simp add: initAttr_def demo_cntxt_def demo_config_def attr_op_def numeral_2_eq_2 add_local_def
      need_device_def initDevice_def initPlugins_def init_plugin_def dummy_dev_def dummy_dev_init_def
      dev_new_def open_device_def new_Device_def dummy_devOps_def dummy_dev_open_def attr_index_def
      pfd_new_def getCommunicator_def new_DistComm_def new_AttrInfo_def insort_insert_key_def Let_def)

theorem attribute_providers_witness:
  "\<exists>info c' a x. initAttr 2 ''p'' PWR_ATTR_POWER demo_cntxt = Inr (info, c') \<and>
     ai_comm info = Some a \<and> heap_get (c_comms c') a = Inr x \<and> dc_objects x = [''p.b'']"
proof -
  obtain info c' where run: "initAttr 2 ''p'' PWR_ATTR_POWER demo_cntxt = Inr (info, c')" "ai_valueOp info = FP_ADD"
    using demo_initAttr by blast
  have ok: "comms_ok demo_cntxt" "m_config demo_cntxt = demo_config" "m_rootName demo_cntxt = ''p''"
    by (simp_all add: comms_ok_def demo_cntxt_def)
  have "{y. reaches demo_config ''p'' PWR_ATTR_POWER ''p'' y \<and> boundary demo_config ''p'' y} = {''p.b''}"
    by (subst reaches_iff)
      (auto simp: boundary_def demo_config_def findAttrChildren_def hasServer_def reaches_iff [of _ _ _ "''p.b''"] split: if_splits)
  with attribute_providers [of demo_cntxt PWR_ATTR_POWER "\<lambda>x. if x = ''p'' then 1 else 0" "''p''" 2 info c']
    run ok demo_ranked show ?thesis by auto
qed

text \<open>More fuel than the depth of an object makes no difference.\<close>

lemma traverse_fuel:
  assumes "ranked (m_config c) attr rank" "rank nm < n" "n \<le> k"
  shows "\<exists>ss. traverse n attr nm ((l, r), c) = foldM visit ss ((l, r), c) \<and>
    traverse k attr nm ((l, r), c) = foldM visit ss ((l, r), c)"
proof -
  have mono: "sites (Suc n) cfg rt attr nm = Some ss" if "sites n cfg rt attr nm = Some ss" for n cfg rt nm ss
    using that
  proof (induction n arbitrary: nm ss)
    case (Suc n)
    have "those (map (sites (Suc n) cfg rt attr) chs) = Some sss"
      if "those (map (sites n cfg rt attr) chs) = Some sss" for chs sss
      using that by (induction chs arbitrary: sss) (auto dest!: Suc.IH simp del: sites.simps split: option.splits)
    with Suc.prems show ?case
      by (auto simp: sites.simps(2) [of n] sites.simps(2) [of "Suc n"] simp del: sites.simps split: if_splits sum.splits)
  qed simp
  obtain ss where ss: "sites n (m_config c) (m_rootName c) attr nm = Some ss"
    using sites_defined [OF assms(1,2)] by blast
  from assms(3) have "sites k (m_config c) (m_rootName c) attr nm = Some ss"
    by (induction k rule: dec_induct) (use ss mono in auto)
  with ss show ?thesis by (blast intro: traverse_sites)
qed

lemma initAttr_fuel:
  assumes "ranked (m_config c) attr rank" "rank nm < n" "n \<le> k"
  shows "initAttr k nm attr c = initAttr n nm attr c"
proof -
  from traverse_fuel [OF assms] have "traverse k attr nm (([], []), c) = traverse n attr nm (([], []), c)" by metis
  then show ?thesis by (simp only: initAttr_def)
qed

lemma foldM_same:
  assumes "\<And>x y. x \<in> set xs \<Longrightarrow> Q y \<Longrightarrow> f x y = g x y" "\<And>x y y'. f x y = Inr y' \<Longrightarrow> Q y \<Longrightarrow> Q y'" "Q y"
  shows "foldM f xs y = foldM g xs y"
  using assms
proof (induction xs arbitrary: y)
  case (Cons x xs)
  have "f x y = g x y" using Cons.prems by simp
  moreover have "foldM f xs z = foldM g xs z" if "f x y = Inr z" for z
    using Cons.IH [of z] Cons.prems that by fastforce
  ultimately show ?case by (cases "g x y") simp_all
qed simp



section \<open>The objects of a context\<close>

definition info_ok :: "addr option \<Rightarrow> 's AttrInfo \<Rightarrow> bool" where
  "info_ok m i \<longleftrightarrow> (ai_devices i \<noteq> [] \<longrightarrow> ai_operation i \<noteq> None \<and> ai_comm i = None) \<and> ai_calcTime i = timeOp \<and>
     (ai_comm i \<noteq> None \<longrightarrow> ai_comm i = m)"

definition object_ok :: "'s DistObject \<Rightarrow> bool" where
  "object_ok x \<longleftrightarrow> length (m_attrInfo (d_obj x)) = nat (attr_code PWR_NUM_ATTR_NAMES) \<and>
     (\<forall>i \<in> set (m_attrInfo (d_obj x)). info_ok (d_comm x) i)"

definition cntxt_ok :: "'s cntxt \<Rightarrow> bool" where
  "cntxt_ok c \<longleftrightarrow> comms_ok c \<and>
     (\<forall>nm a. m_objMap c nm = Some a \<longrightarrow>
       (\<exists>x. heap_get (c_objs c) a = Inr x \<and> m_name (d_obj x) = nm \<and> object_ok x))"

lemma cntxt_okD:
  "cntxt_ok c \<Longrightarrow> m_objMap c nm = Some a \<Longrightarrow>
   \<exists>x. heap_get (c_objs c) a = Inr x \<and> m_name (d_obj x) = nm \<and> object_ok x"
  by (simp add: cntxt_ok_def)

lemma foldM_grows:
  assumes "\<And>x l r c l' r' c'. f x ((l, r), c) = Inr ((l', r'), c') \<Longrightarrow> grows c c'"
  shows "foldM f xs ((l, r), c) = Inr ((l', r'), c') \<Longrightarrow> grows c c'"
proof (induction xs arbitrary: l r c)
  case (Cons x xs)
  then obtain l1 r1 c1 where 1: "f x ((l, r), c) = Inr ((l1, r1), c1)"
    and 2: "foldM f xs ((l1, r1), c1) = Inr ((l', r'), c')"
    by (auto simp: rbind_eq_Inr)
  from grows_trans [OF assms [OF 1] Cons.IH [OF 2]] show ?case .
qed simp

lemma traverse_grows: "traverse n attr nm ((l, r), c) = Inr ((l', r'), c') \<Longrightarrow> grows c c'"
proof (induction n arbitrary: nm l r c l' r' c')
  case (Suc n)
  then obtain srv where srv: "ask_hasServer (m_config c) nm = Inr srv" by (auto simp: rbind_eq_Inr)
  show ?case
  proof (cases "srv \<and> nm \<noteq> m_rootName c")
    case False
    with Suc.prems srv obtain l1 r1 c1 ds chs where
      1: "foldM add_local ds ((l, r), c) = Inr ((l1, r1), c1)"
      and 2: "foldM (traverse n attr) chs ((l1, r1), c1) = Inr ((l', r'), c')"
      by (auto simp: rbind_eq_Inr)
    have "grows c c1" by (rule foldM_grows [OF _ 1]) (use add_local_grows in blast)
    also have "grows c1 c'" by (rule foldM_grows [OF Suc.IH 2])
    finally show ?thesis .
  qed (use Suc.prems srv in auto)
qed simp

lemma attr_op_ok: "attr_op o' ty = Inr (f, v) \<Longrightarrow> v \<noteq> NO_OP \<Longrightarrow> f \<noteq> None"
  by (auto simp: attr_op_def split: if_split_asm)

definition info_safe :: "'s AttrInfo \<Rightarrow> bool" where
  "info_safe i \<longleftrightarrow> ai_calcTime i = timeOp \<and> (ai_devices i \<noteq> [] \<longrightarrow> ai_operation i \<noteq> None)"

lemma initAttr_ok:
  assumes run: "initAttr n nm attr c = Inr (i, c')" and ok: "comms_ok c"
  shows "grows c c' \<and> info_safe i"
proof -
  from run obtain f op o' ty where op: "attr_op o' ty = Inr (f, op)"
    and run: "(if op \<noteq> NO_OP then
       rbind (traverse n attr nm (([], []), c)) (\<lambda>((local, remote), c).
       if remote \<noteq> [] then
         (case getCommunicator remote c of (a, c) \<Rightarrow>
            Inr ((new_AttrInfo f timeOp op)\<lparr>ai_devices := local, ai_comm := Some a\<rparr>, c))
       else Inr ((new_AttrInfo f timeOp op)\<lparr>ai_devices := local\<rparr>, c))
     else Inr (new_AttrInfo f timeOp op, c)) = Inr (i, c')"
    by (auto simp: initAttr_def rbind_eq_Inr Let_def)
  show ?thesis
  proof (cases "op = NO_OP")
    case True
    with run show ?thesis by (auto simp: new_AttrInfo_def info_safe_def)
  next
    case False
    with attr_op_ok [OF op] have f: "f \<noteq> None" by simp
    from run False obtain l r c1 where t: "traverse n attr nm (([], []), c) = Inr ((l, r), c1)"
      and rest: "(if r \<noteq> [] then
         (case getCommunicator r c1 of (a, c) \<Rightarrow>
            Inr ((new_AttrInfo f timeOp op)\<lparr>ai_devices := l, ai_comm := Some a\<rparr>, c))
       else Inr ((new_AttrInfo f timeOp op)\<lparr>ai_devices := l\<rparr>, c1)) = (Inr (i, c') :: _ res)"
      by (auto simp: rbind_eq_Inr)
    from traverse_grows [OF t] have g: "grows c c1" .
    with ok have ok1: "comms_ok c1" by (simp add: grows_def)
    obtain a c2 where gc: "getCommunicator r c1 = (a, c2)" by fastforce
    from getCommunicator_spec [OF gc ok1] g have "grows c c2" by (blast intro: grows_trans)
    with rest g gc f show ?thesis by (auto simp: new_AttrInfo_def info_safe_def split: if_split_asm)
  qed
qed

lemma init_attrs_ok:
  assumes "init_attrs n nm c = Inr (infos, c')" "comms_ok c"
  shows "grows c c' \<and> length infos = length real_attrs \<and> (\<forall>i \<in> set infos. info_safe i)"
proof -
  have "grows c c' \<and> length infos = length is + length attrs \<and> (\<forall>i \<in> set infos. info_safe i)"
    if "foldM (\<lambda>attr (infos, c). rbind (initAttr n nm attr c) (\<lambda>(i, c). Inr (infos @ [i], c))) attrs (is, c) = Inr (infos, c')"
      "comms_ok c" "\<forall>i \<in> set is. info_safe i" for attrs "is" and c :: "'a cntxt"
    using that
  proof (induction attrs arbitrary: "is" c)
    case (Cons a attrs)
    then obtain i c1 where i: "initAttr n nm a c = Inr (i, c1)"
      and rest: "foldM (\<lambda>attr (infos, c). rbind (initAttr n nm attr c) (\<lambda>(i, c). Inr (infos @ [i], c))) attrs
        (is @ [i], c1) = Inr (infos, c')" by (auto simp: rbind_eq_Inr)
    from initAttr_ok [OF i] Cons.prems(2) have g: "grows c c1" "info_safe i" "comms_ok c1" by (auto simp: grows_def)
    from Cons.IH [OF rest g(3)] g(2) Cons.prems(3) have
      "grows c1 c'" "length infos = length (is @ [i]) + length attrs" "\<forall>i \<in> set infos. info_safe i" by simp_all
    with grows_trans [OF g(1)] show ?case by simp
  qed simp
  from this [of real_attrs "[]" c] assms show ?thesis by (simp add: init_attrs_def)
qed

lemma findObject_fuel:
  assumes "\<forall>a. ranked (m_config c) a rank" "rank nm < n" "n \<le> k" "comms_ok c"
  shows "findObject k nm c = findObject n nm c"
proof -
  define Q where "Q y \<longleftrightarrow> comms_ok (snd y) \<and> m_config (snd y) = m_config c" for y :: "'a AttrInfo list \<times> 'a cntxt"
  have "init_attrs k nm c = init_attrs n nm c"
    unfolding init_attrs_def
  proof (rule foldM_same [where Q = Q])
    fix attr y assume "Q y"
    then show "(case y of (infos, d) \<Rightarrow> rbind (initAttr k nm attr d) (\<lambda>(i, d). Inr (infos @ [i], d))) =
        (case y of (infos, d) \<Rightarrow> rbind (initAttr n nm attr d) (\<lambda>(i, d). Inr (infos @ [i], d)))"
      using initAttr_fuel [of "snd y" attr rank nm n k] assms(1-3) by (auto simp: Q_def split: prod.splits)
  next
    fix attr y y' assume "(case y of (infos, d) \<Rightarrow> rbind (initAttr k nm attr d) (\<lambda>(i, d). Inr (infos @ [i], d))) = Inr y'" "Q y"
    then show "Q y'" by (auto simp: Q_def rbind_eq_Inr grows_def dest!: initAttr_ok split: prod.splits)
  next
    show "Q ([], c)" using assms(4) by (simp add: Q_def)
  qed
  then have "createObject k nm t c = createObject n nm t c" for t by (simp add: createObject_def)
  then show ?thesis unfolding findObject_def by presburger
qed

lemma check_comms_ok:
  "check_comms is m = Inr m' \<Longrightarrow>
   (m \<noteq> None \<longrightarrow> m' = m) \<and>
   (\<forall>i \<in> set is. ai_comm i \<noteq> None \<longrightarrow> ai_comm i = m' \<and> ai_devices i = [])"
proof (induction "is" arbitrary: m)
  case (Cons i "is")
  then have i: "ai_comm i = None \<or> ai_devices i = []" by (auto simp: rbind_eq_Inr)
  show ?case
  proof (cases m)
    case None
    with Cons.prems have "check_comms is (ai_comm i) = Inr m'" by (auto simp: rbind_eq_Inr)
    from Cons.IH [OF this] None i show ?thesis by auto
  next
    case (Some a)
    with Cons.prems have "check_comms is m = Inr m'" "ai_comm i \<noteq> None \<longrightarrow> m = ai_comm i"
      by (auto simp: rbind_eq_Inr split: if_split_asm)
    from Cons.IH [OF this(1)] this(2) Some i show ?thesis by auto
  qed
qed simp

lemma createObject_ok:
  assumes "createObject n nm ty c = Inr (a, c')" "comms_ok c"
  shows "\<exists>x. a = length (c_objs c) \<and> c_objs c' = c_objs c @ [Some x] \<and> m_objMap c' = m_objMap c \<and>
    comms_ok c' \<and> m_config c' = m_config c \<and> m_rootObj c' = m_rootObj c \<and> c_grps c' = c_grps c \<and> m_name (d_obj x) = nm \<and> object_ok x"
proof -
  from assms obtain infos c1 m where i: "init_attrs n nm c = Inr (infos, c1)" and m: "dist_comm infos = Inr m"
    and a: "a = length (c_objs c1)"
    and c': "c' = c1\<lparr>c_objs := c_objs c1 @ [Some \<lparr>d_obj = \<lparr>m_name = nm, m_objType = ty, m_attrInfo = infos,
                                     m_parent = None, m_children = None\<rparr>, d_comm = m\<rparr>]\<rparr>"
    by (auto simp: createObject_def rbind_eq_Inr)
  from init_attrs_ok [OF i assms(2)] have g: "grows c c1" "length infos = length real_attrs"
    "\<forall>i \<in> set infos. info_safe i" by simp_all
  from m obtain m0 where "check_comms infos m0 = Inr m" by (auto simp: dist_comm_def rbind_eq_Inr)
  from check_comms_ok [OF this] g(3) have "\<forall>i \<in> set infos. info_ok m i"
    by (auto simp: info_ok_def info_safe_def)
  then have "object_ok \<lparr>d_obj = \<lparr>m_name = nm, m_objType = ty, m_attrInfo = infos,
                                     m_parent = None, m_children = None\<rparr>, d_comm = m\<rparr>"
    by (simp add: object_ok_def g(2) real_attrs_def)
  with g(1) a assms(2) show ?thesis by (auto simp: c' grows_def comms_ok_def)
qed

lemma findObject_type:
  "findObject n nm c = Inr y \<Longrightarrow> m_objMap c nm = None \<Longrightarrow> ask_objType (m_config c) nm = Inr (cfg_objType (m_config c) nm)"
  by (auto simp: findObject_def rbind_eq_Inr cfg_objType_def)

lemma context_facts:
  assumes ok: "cntxt_ok c" and run: "findObject n nm c = Inr (r, c')"
  shows "cntxt_ok c' \<and> m_objMap c \<subseteq>\<^sub>m m_objMap c' \<and> m_objMap c' nm = r \<and>
    (r = None \<longleftrightarrow> m_objMap c nm = None \<and> cfg_objType (m_config c) nm = PWR_OBJ_INVALID)"
proof (cases "m_objMap c nm")
  case (Some a)
  with ok run show ?thesis by (auto simp: findObject_def)
next
  case None
  note ty = findObject_type [OF run None]
  show ?thesis
  proof (cases "cfg_objType (m_config c) nm = PWR_OBJ_INVALID")
    case True
    with None ok run ty show ?thesis by (auto simp: findObject_def)
  next
    case False
    with None run obtain a c1 where cr: "createObject n nm (cfg_objType (m_config c) nm) c = Inr (a, c1)"
      and c': "c' = c1\<lparr>m_objMap := (m_objMap c1)(nm \<mapsto> a)\<rparr>" "r = Some a"
      by (auto simp: findObject_def rbind_eq_Inr ty)
    from createObject_ok [OF cr] ok obtain x where x: "a = length (c_objs c)" "c_objs c1 = c_objs c @ [Some x]"
      "m_objMap c1 = m_objMap c" "comms_ok c1" "m_name (d_obj x) = nm" "object_ok x"
      by (auto simp: cntxt_ok_def)
    have "cntxt_ok c'"
      unfolding cntxt_ok_def
    proof (intro conjI allI impI)
      show "comms_ok c'" using x(4) by (simp add: c' comms_ok_def)
      show "\<exists>y. heap_get (c_objs c') b = Inr y \<and> m_name (d_obj y) = k \<and> object_ok y"
        if "m_objMap c' k = Some b" for k b
      proof (cases "k = nm")
        case True
        with that x have "b = length (c_objs c)" by (simp add: c')
        with True x heap_get_new [of "c_objs c" x] show ?thesis by (auto simp: c')
      next
        case False
        with that x ok obtain y where "heap_get (c_objs c) b = Inr y" "m_name (d_obj y) = k" "object_ok y"
          by (auto simp: c' cntxt_ok_def)
        with x(2) heap_get_old [of "c_objs c" b y "[Some x]"] show ?thesis by (auto simp: c')
      qed
    qed
    with None False x show ?thesis by (auto simp: c' map_le_def)
  qed
qed

text \<open>
  C8: The invariant of a context: every object in its map is live, has the name it is found by,
  and is safe to use; every communicator in its map is the one for its objects. \<^verbatim>\<open>findObject\<close> keeps
  it, never forgets an object, returns what it has put into the map, and returns a null pointer exactly for a
  name the configuration does not have.
\<close>

theorem context_invariant:
  assumes ok: "cntxt_ok c" and run: "findObject n nm c = Inr (r, c')"
  shows "cntxt_ok c' \<and> m_objMap c \<subseteq>\<^sub>m m_objMap c' \<and> m_objMap c' nm = r \<and>
    (r = None \<longleftrightarrow> m_objMap c nm = None \<and> cfg_objType (m_config c) nm = PWR_OBJ_INVALID)"
  by (rule context_facts [OF assms])

lemma demo_found:
  "\<exists>a c'. findObject 2 ''p.a'' demo_cntxt = Inr (Some a, c')"
  by (simp add: findObject_def createObject_def init_attrs_def real_attrs_def initAttr_def demo_cntxt_def demo_config_def
      attr_op_def numeral_2_eq_2 add_local_def dist_comm_def new_AttrInfo_def
      need_device_def initDevice_def initPlugins_def init_plugin_def dummy_dev_def dummy_dev_init_def
      dev_new_def open_device_def new_Device_def dummy_devOps_def dummy_dev_open_def attr_index_def
      pfd_new_def insort_insert_key_def Let_def)

lemma demo_cntxt_ok: "cntxt_ok demo_cntxt"
  by (simp add: cntxt_ok_def comms_ok_def demo_cntxt_def)

theorem context_invariant_witness:
  "\<exists>a c'. findObject 2 ''p.a'' demo_cntxt = Inr (Some a, c') \<and> cntxt_ok c' \<and> m_objMap c' ''p.a'' = Some a"
proof -
  obtain a c' where "findObject 2 ''p.a'' demo_cntxt = Inr (Some a, c')" using demo_found by blast
  with context_invariant [OF demo_cntxt_ok this] show ?thesis by blast
qed

text \<open>
  An object is made once: looked up again, however many other objects have been made in
  between, a name gives the same object, and different names give different objects.
\<close>

theorem object_made_once:
  assumes "cntxt_ok c" "findObject n nm c = Inr (Some a, c1)" "findObject k nm' c1 = Inr (Some b, c2)"
  shows "findObject j nm c2 = Inr (Some a, c2) \<and> (a = b \<longleftrightarrow> nm = nm')"
proof -
  from context_facts [OF assms(1,2)] have 1: "cntxt_ok c1" "m_objMap c1 nm = Some a" by simp_all
  from context_facts [OF 1(1) assms(3)] have 2: "cntxt_ok c2" "m_objMap c1 \<subseteq>\<^sub>m m_objMap c2" "m_objMap c2 nm' = Some b"
    by simp_all
  from 1(2) 2(2) have "m_objMap c2 nm = Some a" by (auto simp: map_le_def dom_def)
  with cntxt_okD [OF 2(1) this] cntxt_okD [OF 2(1) 2(3)] 2(3) show ?thesis by (auto simp: findObject_def)
qed

theorem object_made_once_witness:
  "\<exists>a c1. findObject 2 ''p.a'' demo_cntxt = Inr (Some a, c1) \<and> findObject 9 ''p.a'' c1 = Inr (Some a, c1)"
proof -
  obtain a c1 where f: "findObject 2 ''p.a'' demo_cntxt = Inr (Some a, c1)" using demo_found by blast
  with context_facts [OF demo_cntxt_ok this] have "findObject 2 ''p.a'' c1 = Inr (Some a, c1)"
    by (simp add: findObject_def)
  from object_made_once [OF demo_cntxt_ok f this] f show ?thesis by blast
qed

text \<open>
  C10: The local part of a read of an object the context has made (the read of \<^verbatim>\<open>Object\<close> through the object's own devices): for an
  attribute that indexes its table it finishes, with a value or an error code, if the devices' own reads do (in the states \<open>P\<close>, which they
  keep); it never calls an operation through a null pointer, takes the time of no device, or leaves a table. What a remote attribute
  asks of its communicator is not part of it.
\<close>

theorem found_object_safe:
  assumes "cntxt_ok c" "findObject n nm c = Inr (Some a, c')" "heap_get (c_objs c') a = Inr x" "is_real_attr attr"
    and devs: "\<And>i d v t s. getAttrInfo (d_obj x) attr = Inr i \<Longrightarrow> d \<in> set (ai_devices i) \<Longrightarrow> P s \<Longrightarrow>
      \<exists>y s'. device_getValue d attr v 8 t s = Inr (y, s') \<and> P s'"
    and "P s"
  shows "\<exists>y. read_attr (d_obj x) attr s = Inr y"
proof -
  from context_facts [OF assms(1,2)] have "cntxt_ok c'" "m_objMap c' nm = Some a" by simp_all
  from cntxt_okD [OF this] assms(3) have x: "object_ok x" by auto
  from assms(4) have "nat (attr_code attr) < 17" by (simp add: is_real_attr_def nat_less_iff)
  with x assms(4) obtain i where i: "getAttrInfo (d_obj x) attr = Inr i" and iok: "info_ok (d_comm x) i"
    by (auto simp: getAttrInfo_def attr_index_real object_ok_def)
  have "\<exists>r vs ts s'. read_devices ds attr s = Inr ((r, vs, ts), s') \<and> (r = 0 \<longrightarrow> length ts = length ds)"
    if "set ds \<subseteq> set (ai_devices i)" "P s" for ds s
    using that
  proof (induction ds arbitrary: s)
    case (Cons d ds)
    from devs [OF i, of d s 0 0] Cons.prems obtain r v t s1
      where "device_getValue d attr 0 8 0 s = Inr ((r, v, t), s1)" "P s1"
      by (metis list.set_intros(1) prod.collapse subset_iff)
    with Cons.IH [of s1] Cons.prems show ?case by (cases "r = 0") auto
  qed simp
  from this [of "ai_devices i" s] assms(6) obtain r vs ts s' where
    "read_devices (ai_devices i) attr s = Inr ((r, vs, ts), s')" "r = 0 \<longrightarrow> length ts = length (ai_devices i)" by blast
  with i iok show ?thesis
    by (cases "ai_devices i")
      (auto simp: read_attr_def attrGetValuesDevice_def info_ok_def timeOp_def split: option.splits)
qed

lemma demo_found_object:
  "\<exists>a c' x i. findObject 2 ''p.a'' demo_cntxt = Inr (Some a, c') \<and> heap_get (c_objs c') a = Inr x \<and>
     getAttrInfo (d_obj x) PWR_ATTR_POWER = Inr i \<and> ai_devices i = [\<lparr>d_ops = dummy_devOps (\<lambda>_. 0) 0, d_fd = 1\<rparr>]"
  by (simp add: findObject_def createObject_def init_attrs_def real_attrs_def initAttr_def demo_cntxt_def demo_config_def
      attr_op_def numeral_2_eq_2 add_local_def dist_comm_def new_AttrInfo_def
      need_device_def initDevice_def initPlugins_def init_plugin_def dummy_dev_def dummy_dev_init_def
      dev_new_def open_device_def new_Device_def dummy_devOps_def dummy_dev_open_def attr_index_def
      pfd_new_def insort_insert_key_def Let_def heap_get_def getAttrInfo_def demo_dummy_def)

definition power_cell :: "dummy_state \<Rightarrow> bool" where
  "power_cell s \<longleftrightarrow> clock s = (\<lambda>_. (1, 0)) \<and>
     (\<exists>f v. pfd_get (Some 1) s = Inr f \<and> 6 < length (db_values f) \<and> db_values f ! 6 = Some v)"

lemma power_cell_read:
  "power_cell s \<Longrightarrow> \<exists>y s'. dummy_dev_read (Some 1) PWR_ATTR_POWER v len t s = Inr (y, s') \<and> power_cell s'"
  by (auto simp: power_cell_def dummy_dev_read_def attr_index_def cell_value_def split_def dummy_clock
      snd_dummy_getTime pfd_get_def)

theorem found_object_safe_witness:
  "\<exists>a c' x. findObject 2 ''p.a'' demo_cntxt = Inr (Some a, c') \<and> heap_get (c_objs c') a = Inr x \<and>
     (\<exists>y. read_attr (d_obj x) PWR_ATTR_POWER (demo_dummy\<lparr>fds := fds demo_dummy @ fds demo_dummy\<rparr>) = Inr y)"
proof -
  obtain a c' x i where f: "findObject 2 ''p.a'' demo_cntxt = Inr (Some a, c')" "heap_get (c_objs c') a = Inr x"
    "getAttrInfo (d_obj x) PWR_ATTR_POWER = Inr i" "ai_devices i = [\<lparr>d_ops = dummy_devOps (\<lambda>_. 0) 0, d_fd = 1\<rparr>]"
    using demo_found_object by blast
  have "\<exists>y. read_attr (d_obj x) PWR_ATTR_POWER (demo_dummy\<lparr>fds := fds demo_dummy @ fds demo_dummy\<rparr>) = Inr y"
  proof (rule found_object_safe [OF demo_cntxt_ok f(1,2), where P = power_cell])
    show "is_real_attr PWR_ATTR_POWER" by (simp add: is_real_attr_def)
    show "\<exists>y s'. device_getValue d PWR_ATTR_POWER v 8 t s = Inr (y, s') \<and> power_cell s'"
      if "getAttrInfo (d_obj x) PWR_ATTR_POWER = Inr j" "d \<in> set (ai_devices j)" "power_cell s" for j d v t s
      using that f(3,4) power_cell_read [OF that(3)]
      by (simp add: device_getValue_def dummy_devOps_def)
    show "power_cell (demo_dummy\<lparr>fds := fds demo_dummy @ fds demo_dummy\<rparr>)"
      by (simp add: power_cell_def demo_dummy_def pfd_get_def heap_get_def)
  qed
  with f show ?thesis by blast
qed

end
