(* ===== verification/DistProps.thy ===== *)
theory DistProps
  imports Dist ObjectProps CntxtProps
begin

text \<open>
  What an operation on a remote attribute does: the request it sends, and what the response makes of the
  caller's buffers, times and status.
\<close>

section \<open>Blocks and statuses\<close>

lemma heap_same: "heap_get h a = Inr x \<Longrightarrow> h[a := Some x] = h"
  by (metis heap_get_eq_Inr list_update_id)

lemma put_row_spec:
  assumes "heap_get (vmem c) vb = Inr V" "heap_get (tmem c) tb = Inr T"
    and "i < length pts" "pts ! i = Some (tb, to)" "i < length tss" "tss ! i = tr"
    and "vo + j + length vs \<le> length V" "to + j + length vs \<le> length T" "j + length vs \<le> length tr"
  shows "put_row (Some (vb, vo)) pts tss i j vs c =
    Inr (c\<lparr>vmem := (vmem c)[vb := Some (splice V (vo + j) vs)],
           tmem := (tmem c)[tb := Some (splice T (to + j) (take (length vs) (drop j tr)))]\<rparr>)"
  using assms
proof (induction vs arbitrary: c j V T)
  case Nil
  then show ?case by (simp add: heap_same)
next
  case (Cons v vs)
  have d: "take (Suc (length vs)) (drop j tr) = tr ! j # take (length vs) (drop (Suc j) tr)"
    using Cons.prems by (simp add: Cons_nth_drop_Suc [symmetric])
  let ?c = "c\<lparr>vmem := (vmem c)[vb := Some (V[vo + j := v])], tmem := (tmem c)[tb := Some (T[to + j := tr ! j])]\<rparr>"
  have "heap_get (vmem ?c) vb = Inr (V[vo + j := v])" "heap_get (tmem ?c) tb = Inr (T[to + j := tr ! j])"
    using Cons.prems(1,2) by (simp_all add: heap_get_eq_Inr)
  note IH = Cons.IH [OF this, of "Suc j"]
  show ?case
    using Cons.prems IH by (simp add: vwrite_def twrite_def splice_Cons d)
qed

definition resp_errors :: "('s, 'u) client \<Rightarrow> string list \<Rightarrow> PWR_AttrName list \<Rightarrow> u32 list \<Rightarrow> addr option status" where
  "resp_errors c objs attrs vals =
     map (\<lambda>(o', a, e). \<lparr>err_obj = m_objMap (cx c) o', err_name = a, err_error = sint e\<rparr>) (zip objs (zip attrs vals))"

text \<open>The objects a response names are known to the context.\<close>

definition known :: "('s, 'u) client \<Rightarrow> string list \<Rightarrow> bool" where
  "known c objs \<longleftrightarrow> set objs \<subseteq> dom (m_objMap (cx c))"

lemma report_errors_spec:
  assumes "known c objs" "length objs = length attrs" "length attrs = length vals"
    and "heap_get (reqs c) q = Inr r" "heap_get (stats c) (rq_status r) = Inr es"
  shows "report_errors n q objs attrs vals c =
    Inr (c\<lparr>stats := (stats c)[rq_status r := Some (es @ resp_errors c objs attrs vals)]\<rparr>)"
  using assms(2,3,1,4,5)
proof (induction objs attrs vals arbitrary: c es rule: list_induct3)
  case Nil
  then show ?case by (simp add: resp_errors_def heap_same)
next
  case (Cons ob objs a attrs v vals)
  then obtain b where b: "m_objMap (cx c) ob = Some b" by (auto simp: known_def)
  let ?es = "status_add (Some b) a (sint v) es"
  let ?c = "c\<lparr>stats := (stats c)[rq_status r := Some ?es]\<rparr>"
  have "known ?c objs" "heap_get (reqs ?c) q = Inr r" "heap_get (stats ?c) (rq_status r) = Inr ?es"
    using Cons.prems by (auto simp: known_def heap_get_eq_Inr)
  from Cons.IH [OF this] Cons.prems b show ?case
    by (simp add: getObjByName_def findObject_def status_push_def resp_errors_def status_add_def)
qed

section \<open>Remote attributes\<close>

definition all_remote :: "'s DistObject \<Rightarrow> addr \<Rightarrow> PWR_AttrName list \<Rightarrow> bool" where
  "all_remote x cm names \<longleftrightarrow>
     list_all (\<lambda>a. case getAttrInfo (d_obj x) a of Inl _ \<Rightarrow> False | Inr i \<Rightarrow> ai_devices i = [] \<and> ai_comm i = Some cm) names"

definition value_op :: "'s DistObject \<Rightarrow> PWR_AttrName \<Rightarrow> ValueOp" where
  "value_op x a = (case getAttrInfo (d_obj x) a of Inl _ \<Rightarrow> NO_OP | Inr i \<Rightarrow> ai_valueOp i)"

lemma all_remote_Cons:
  "all_remote x cm (a # as) \<longleftrightarrow>
   (\<exists>i. getAttrInfo (d_obj x) a = Inr i \<and> ai_devices i = [] \<and> ai_comm i = Some cm) \<and> all_remote x cm as"
  by (auto simp: all_remote_def split: sum.splits)

lemma remote_reads:
  "all_remote x cm names \<Longrightarrow>
   read_attrs (d_obj x) names s = Inr ((replicate (length names) (0, 0), None), s)"
  by (induction names)
    (auto simp: all_remote_Cons read_attr_def attr_isValid_def attrGetValuesDevice_def)

lemma same_comm_remote:
  "all_remote x cm (take k (drop i names)) \<Longrightarrow> i + k \<le> length names \<Longrightarrow>
   same_comm (d_obj x) (Some cm) k i names = Inr (map (value_op x) (take k (drop i names)))"
proof (induction k arbitrary: i)
  case (Suc k)
  then have d: "take (Suc k) (drop i names) = names ! i # take k (drop (Suc i) names)"
    by (simp add: Cons_nth_drop_Suc [symmetric])
  with Suc show ?case by (auto simp: all_remote_Cons value_op_def)
qed simp

lemma same_comm_tail:
  assumes "all_remote x cm (a # as)"
  shows "same_comm (d_obj x) (Some cm) (length as) (Suc 0) (a # as) = Inr (map (value_op x) as)"
  using same_comm_remote [of x cm "length as" 1 "a # as"] assms by (simp add: all_remote_Cons)

lemma creq_id_inverse: "Suc a < 2 ^ 64 \<Longrightarrow> id_creq (creq_id a) = Inr a"
proof -
  assume "Suc a < 2 ^ 64"
  then have "unat (creq_id a) = Suc a" by (simp add: creq_id_def unat_of_nat take_bit_nat_eq_self del: of_nat_Suc)
  then show ?thesis by (auto simp: id_creq_def)
qed

lemma base_getValues_remote:
  assumes "client_obj self c = Inr x" "all_remote x cm names"
    and "heap_get (vmem c) vb = Inr V" "vo + length names \<le> length V"
    and "heap_get (tmem c) tb = Inr T" "to + length names \<le> length T"
    and "heap_get (stats c) st = Inr es"
  shows "base_getValues self (int (length names)) names (Some (vb, vo)) (Some (tb, to)) st c =
    Inr (if es = [] then PWR_RET_SUCCESS else PWR_RET_STATUS,
         c\<lparr>vmem := (vmem c)[vb := Some (splice V vo (replicate (length names) 0))],
           tmem := (tmem c)[tb := Some (splice T to (replicate (length names) 0))]\<rparr>)"
proof -
  have split: "take k xs @ splice (drop k xs) 0 ys = splice xs k ys" for k and xs ys :: "u64 list"
    by (simp add: splice_def add.commute)
  show ?thesis
    using assms
    by (simp add: base_getValues_def vblock_def tblock_def attrGetValues_spec remote_reads add_error_def
        set_vblock_def set_tblock_def set_world_def split heap_same)
qed

definition opened :: "addr \<Rightarrow> DistComm \<Rightarrow> ('s, 'u) client \<Rightarrow> ('s, 'u) client" where
  "opened cm m c =
     (if dc_ec m then c
      else send (EvCommCreate (new_CommCreateEvent (dc_commID m) [dc_objects m]))
             (c\<lparr>cx := (cx c)\<lparr>c_comms := (c_comms (cx c))[cm := Some (m\<lparr>dc_ec := True\<rparr>)]\<rparr>\<rparr>))"

lemma getChannel_spec:
  "heap_get (c_comms (cx c)) cm = Inr m \<Longrightarrow> m_evChan c \<Longrightarrow> getChannel cm c = Inr (opened cm m c)"
  by (simp add: getChannel_def opened_def Let_def)

lemma opened_simps [simp]:
  "vmem (opened cm m c) = vmem c" "tmem (opened cm m c) = tmem c" "stats (opened cm m c) = stats c"
  "reqs (opened cm m c) = reqs c" "creqs (opened cm m c) = creqs c" "ec_in (opened cm m c) = ec_in c"
  "m_evChan (opened cm m c) = m_evChan c" "cjunk (opened cm m c) = cjunk c" "user (opened cm m c) = user c"
  "c_objs (cx (opened cm m c)) = c_objs (cx c)" "m_objMap (cx (opened cm m c)) = m_objMap (cx c)"
  "world (cx (opened cm m c)) = world (cx c)"
  by (simp_all add: opened_def send_def)

lemma send_simps [simp]:
  "vmem (send e c) = vmem c" "tmem (send e c) = tmem c" "stats (send e c) = stats c"
  "reqs (send e c) = reqs c" "creqs (send e c) = creqs c" "ec_in (send e c) = ec_in c"
  "m_evChan (send e c) = m_evChan c" "cjunk (send e c) = cjunk c" "user (send e c) = user c"
  "cx (send e c) = cx c" "ec_out (send e c) = ec_out c @ [e]"
  by (simp_all add: send_def)

lemma resp_errors_frame [simp]:
  "resp_errors (send ev c) = resp_errors c" "resp_errors (c\<lparr>ec_in := a\<rparr>) = resp_errors c"
  "resp_errors (c\<lparr>creqs := b\<rparr>) = resp_errors c" "resp_errors (c\<lparr>reqs := d\<rparr>) = resp_errors c"
  "resp_errors (c\<lparr>vmem := v\<rparr>) = resp_errors c" "resp_errors (c\<lparr>tmem := t\<rparr>) = resp_errors c"
  "resp_errors (c\<lparr>stats := e\<rparr>) = resp_errors c" "resp_errors (opened cm m c) = resp_errors c"
  by (intro ext, simp add: resp_errors_def)+

text \<open>The request a read sends.\<close>

definition get_event :: "DistComm \<Rightarrow> u64 \<Rightarrow> 's DistObject \<Rightarrow> PWR_AttrName list \<Rightarrow> CommReqEvent" where
  "get_event m i x names =
     \<lparr>ev_type = type_word CommReq, ev_id = i, ev_status = 0, commID = dc_commID m, op = OpGet,
      grpIndex = 0, attrName = names, setValues = [], valueOp = map (value_op x) names\<rparr>"

definition announce :: "DistComm \<Rightarrow> AnyEvent list" where
  "announce m = (if dc_ec m then [] else [EvCommCreate (new_CommCreateEvent (dc_commID m) [dc_objects m])])"

lemma opened_out: "ec_out (opened cm m c) = ec_out c @ announce m"
  by (simp add: opened_def announce_def)

definition asked ::
    "addr \<Rightarrow> DistComm \<Rightarrow> 's DistObject \<Rightarrow> PWR_AttrName list \<Rightarrow> addr \<times> nat \<Rightarrow> addr \<times> nat \<Rightarrow> u64 list \<Rightarrow> u64 list \<Rightarrow>
     addr \<Rightarrow> DistRequest \<Rightarrow> ('s, 'u) client \<Rightarrow> ('s, 'u) client" where
  "asked cm m x names b t V T q r c =
     send (EvCommReq (get_event m (creq_id (length (creqs c))) x names))
       (opened cm m
          (c\<lparr>vmem := (vmem c)[fst b := Some (splice V (snd b) (replicate (length names) 0))],
             tmem := (tmem c)[fst t := Some (splice T (snd t) (replicate (length names) 0))],
             creqs := creqs c @ [Some \<lparr>cr_kind = GetCommReq, cr_req = q\<rparr>],
             reqs := (reqs c)[q := Some (r\<lparr>rq_value := [Some b], rq_timeStamp := [Some t],
                                            rq_commReqs := {length (creqs c)}\<rparr>)]\<rparr>))"

lemma resp_errors_asked [simp]: "resp_errors (asked cm m x names b t V T q r c) = resp_errors c"
  by (simp add: asked_def)

lemma getValues_req_remote:
  assumes x: "client_obj self c = Inr x" and rem: "all_remote x cm names" and ne: "names \<noteq> []"
    and V: "heap_get (vmem c) vb = Inr V" "vo + length names \<le> length V"
    and T: "heap_get (tmem c) tb = Inr T" "to + length names \<le> length T"
    and st: "heap_get (stats c) st = Inr es"
    and q: "heap_get (reqs c) q = Inr r" "rq_value r = [None]" "rq_timeStamp r = [None]" "rq_commReqs r = {}"
    and m: "heap_get (c_comms (cx c)) cm = Inr m" "m_evChan c"
  shows "dist_getValues_req app self (int (length names)) names (Some (vb, vo)) (Some (tb, to)) st q c =
    Inr (if es = [] then PWR_RET_SUCCESS else PWR_RET_STATUS,
         asked cm m x names (vb, vo) (tb, to) V T q r c)"
proof -
  obtain a as where names: "names = a # as" using ne by (cases names) auto
  with rem obtain i where i: "getAttrInfo (d_obj x) a = Inr i" "ai_comm i = Some cm"
    by (auto simp: all_remote_Cons)
  let ?c = "c\<lparr>reqs := (reqs c)[q := Some (r\<lparr>rq_value := [Some (vb, vo)], rq_timeStamp := [Some (tb, to)]\<rparr>)]\<rparr>"
  have b: "base_getValues self (int (length names)) names (Some (vb, vo)) (Some (tb, to)) st ?c =
    Inr (if es = [] then PWR_RET_SUCCESS else PWR_RET_STATUS,
         ?c\<lparr>vmem := (vmem c)[vb := Some (splice V vo (replicate (length names) 0))],
           tmem := (tmem c)[tb := Some (splice T to (replicate (length names) 0))]\<rparr>)"
    using base_getValues_remote [of self ?c x cm names vb V vo tb T to st es] x rem V T st
    by (simp add: client_obj_def)
  have ql: "q < length (reqs c)" using q(1) by (simp add: heap_get_eq_Inr)
  have n1: "nat (1 + int (length as)) = Suc (length as)" by arith
  from b show ?thesis
    using x i same_comm_tail [OF rem [unfolded names]] m q st ql
    by (simp add: dist_getValues_req_def req_upd_def names n1 client_obj_def new_creq_def req_insert_def
        heap_get_set_same comm_getValues_def comm_id_def aread_n_def getChannel_spec status_result_def
        finish_now_def req_finished_def asked_def get_event_def new_CommReqEvent_def value_op_def
        status_empty_def)
qed

text \<open>A response to the request \<open>i\<close> for one row of \<open>k\<close> attributes.\<close>

definition answers :: "u64 \<Rightarrow> nat \<Rightarrow> CommRespEvent \<Rightarrow> bool" where
  "answers i k e \<longleftrightarrow>
     ev_id e = i \<and> list_all (\<lambda>row. length row = k) (r_value e) \<and> length (r_value e) = 1 \<and>
     list_all (\<lambda>row. length row = k) (r_timeStamp e) \<and> length (r_timeStamp e) = 1 \<and>
     length (r_errObj e) = length (r_errAttr e) \<and> length (r_errAttr e) = length (r_errValue e)"

lemma answers_rows:
  assumes "answers i k e"
  obtains xs ts where "r_value e = [xs]" "r_timeStamp e = [ts]" "length xs = k" "length ts = k"
proof -
  from assms obtain xs ts where "r_value e = [xs]" "r_timeStamp e = [ts]"
    by (auto simp: answers_def length_Suc_conv)
  with assms that show thesis by (auto simp: answers_def)
qed

lemma get_response:
  assumes q: "heap_get (reqs c) q = Inr r" "rq_value r = [Some (vb, vo)]" "rq_timeStamp r = [Some (tb, to)]"
      "rq_commReqs r = {a}"
    and a: "heap_get (creqs c) a = Inr \<lparr>cr_kind = GetCommReq, cr_req = q\<rparr>"
    and e: "answers i k e" "r_value e = [xs]" "r_timeStamp e = [ts]" "known c (r_errObj e)"
    and V: "heap_get (vmem c) vb = Inr V" "vo + k \<le> length V"
    and T: "heap_get (tmem c) tb = Inr T" "to + k \<le> length T"
    and st: "heap_get (stats c) (rq_status r) = Inr es"
  shows "creq_process n a (EvCommResp e) c =
    Inr (c\<lparr>vmem := (vmem c)[vb := Some (splice V vo xs)], tmem := (tmem c)[tb := Some (splice T to ts)],
           stats := (stats c)[rq_status r :=
             Some (es @ resp_errors c (r_errObj e) (r_errAttr e) (r_errValue e))],
           reqs := (reqs c)[q := Some (r\<lparr>rq_commReqs := {}\<rparr>)]\<rparr>)"
proof -
  from e have l: "length xs = k" "length ts = k" "length (r_errObj e) = length (r_errAttr e)"
      "length (r_errAttr e) = length (r_errValue e)"
    by (auto simp: answers_def)
  let ?c = "c\<lparr>vmem := (vmem c)[vb := Some (splice V vo xs)], tmem := (tmem c)[tb := Some (splice T to ts)]\<rparr>"
  have p: "put_row (Some (vb, vo)) [Some (tb, to)] [ts] 0 0 xs c = Inr ?c"
    using put_row_spec [of c vb V tb T 0 "[Some (tb, to)]" to "[ts]" ts vo 0 xs] V T l by simp
  have "known ?c (r_errObj e)" using e(4) by (simp add: known_def)
  from report_errors_spec [OF this l(3,4), of q r es n] q st
  have "report_errors n q (r_errObj e) (r_errAttr e) (r_errValue e) ?c =
    Inr (?c\<lparr>stats := (stats c)[rq_status r :=
             Some (es @ resp_errors c (r_errObj e) (r_errAttr e) (r_errValue e))]\<rparr>)"
    by (simp add: resp_errors_def)
  with p show ?thesis
    using q a e(2,3) by (simp add: creq_process_def req_getValue_def req_erase_def req_upd_def)
qed

lemma remote_read_all:
  assumes x: "client_obj self c = Inr x" and rem: "all_remote x cm names" and ne: "names \<noteq> []"
    and V: "heap_get (vmem c) vb = Inr V" "vo + length names \<le> length V"
    and T: "heap_get (tmem c) tb = Inr T" "to + length names \<le> length T"
    and st: "heap_get (stats c) st = Inr es"
    and m: "heap_get (c_comms (cx c)) cm = Inr m" "m_evChan c"
    and e: "answers (creq_id (length (creqs c))) (length names) e" "known c (r_errObj e)"
    and rows: "r_value e = [xs]" "r_timeStamp e = [ts]"
    and i: "ec_in c = EvCommResp e # rest" "Suc (length (creqs c)) < 2 ^ 64"
  shows "\<exists>c'. dist_getValues n app self (int (length names)) names (Some (vb, vo)) (Some (tb, to)) st c =
      Inr (if es @ resp_errors c (r_errObj e) (r_errAttr e) (r_errValue e) = [] then PWR_RET_SUCCESS
           else PWR_RET_STATUS, c') \<and>
    heap_get (vmem c') vb = Inr (splice V vo xs) \<and> heap_get (tmem c') tb = Inr (splice T to ts) \<and>
    heap_get (stats c') st = Inr (es @ resp_errors c (r_errObj e) (r_errAttr e) (r_errValue e)) \<and>
    ec_out c' = ec_out c @ announce m @ [EvCommReq (get_event m (creq_id (length (creqs c))) x names)] \<and>
    ec_in c' = rest"
proof -
  let ?r = "\<lparr>rq_value = [None], rq_timeStamp = [None], rq_status = st, rq_callback = None, rq_commReqs = {}\<rparr>"
  let ?q = "length (reqs c)" and ?a = "length (creqs c)"
  let ?c0 = "c\<lparr>reqs := reqs c @ [Some ?r]\<rparr>"
  let ?c1 = "asked cm m x names (vb, vo) (tb, to) V T ?q ?r ?c0"
  let ?r1 = "?r\<lparr>rq_value := [Some (vb, vo)], rq_timeStamp := [Some (tb, to)], rq_commReqs := {?a}\<rparr>"
  let ?es = "es @ resp_errors c (r_errObj e) (r_errAttr e) (r_errValue e)"
  have bounds: "vb < length (vmem c)" "tb < length (tmem c)" "st < length (stats c)"
    using V T st by (auto simp: heap_get_eq_Inr)
  have ask: "dist_getValues_req app self (int (length names)) names (Some (vb, vo)) (Some (tb, to)) st ?q ?c0 =
    Inr (if es = [] then PWR_RET_SUCCESS else PWR_RET_STATUS, ?c1)"
    by (rule getValues_req_remote) (use x rem ne V T st m in \<open>simp_all add: client_obj_def heap_get_new\<close>)
  let ?c2 = "?c1\<lparr>ec_in := rest\<rparr>"
  have q2: "heap_get (reqs ?c2) ?q = Inr ?r1" and a2: "heap_get (creqs ?c2) ?a = Inr \<lparr>cr_kind = GetCommReq, cr_req = ?q\<rparr>"
    and v2: "heap_get (vmem ?c2) vb = Inr (splice V vo (replicate (length names) 0))"
    and t2: "heap_get (tmem ?c2) tb = Inr (splice T to (replicate (length names) 0))"
    and s2: "heap_get (stats ?c2) st = Inr es"
    using bounds st by (simp_all add: asked_def heap_get_new heap_get_set_same)
  have k2: "known ?c2 (r_errObj e)" using e(2) by (simp add: known_def asked_def)
  have l: "length xs = length names" "length ts = length names" using e(1) rows by (auto simp: answers_def)
  have over: "splice (splice Z k (replicate (length ys) 0)) k ys = splice Z k ys"
    if "k + length ys \<le> length Z" for Z ys :: "u64 list" and k
    using that by (simp add: splice_def)
  have resp: "creq_process n ?a (EvCommResp e) ?c2 =
    Inr (?c2\<lparr>vmem := (vmem ?c2)[vb := Some (splice V vo xs)], tmem := (tmem ?c2)[tb := Some (splice T to ts)],
           stats := (stats ?c2)[st := Some ?es], reqs := (reqs ?c2)[?q := Some (?r1\<lparr>rq_commReqs := {}\<rparr>)]\<rparr>)"
    using get_response [OF q2 _ _ _ a2 e(1) rows k2 v2 _ t2 _, of vo to es n] s2 V T l over [of vo xs V] over [of "to" ts T]
    by simp
  let ?c3 = "?c2\<lparr>vmem := (vmem ?c2)[vb := Some (splice V vo xs)], tmem := (tmem ?c2)[tb := Some (splice T to ts)],
           stats := (stats ?c2)[st := Some ?es], reqs := (reqs ?c2)[?q := Some (?r1\<lparr>rq_commReqs := {}\<rparr>)]\<rparr>"
  have q3: "heap_get (reqs ?c3) ?q = Inr (?r1\<lparr>rq_commReqs := {}\<rparr>)"
    by (simp add: asked_def heap_get_set_same heap_get_new)
  have "id_creq (any_id (EvCommResp e)) = Inr ?a"
    using e(1) i(2) by (simp add: any_id_def answers_def creq_id_inverse)
  then have w: "wait_loop n ?q (EvCommResp e # rest) ?c1 = Inr (True, ?c3)"
    using q2 q3 m(2) resp by (cases rest) (simp_all add: req_finished_def asked_def)
  have "ec_in ?c1 = EvCommResp e # rest" using i(1) by (simp add: asked_def)
  with w q3 have wait: "req_wait n app ?q ?c1 = Inr (PWR_RET_SUCCESS, ?c3)"
    by (simp add: req_wait_def execCallback_def)
  have s3: "heap_get (stats ?c3) st = Inr ?es" using bounds by (simp add: asked_def heap_get_set_same)
  let ?c4 = "?c3\<lparr>reqs := (reqs ?c3)[?q := None]\<rparr>"
  have "dist_getValues n app self (int (length names)) names (Some (vb, vo)) (Some (tb, to)) st c =
      Inr (if ?es = [] then PWR_RET_SUCCESS else PWR_RET_STATUS, ?c4)"
    using ask wait s3 q3 heap_free_live [OF q3]
    by (simp add: dist_getValues_def with_request_def new_DistRequest_def status_result_def status_empty_def
        req_delete_def del: append_is_Nil_conv)
  moreover have "heap_get (vmem ?c4) vb = Inr (splice V vo xs) \<and> heap_get (tmem ?c4) tb = Inr (splice T to ts) \<and>
    heap_get (stats ?c4) st = Inr ?es \<and>
    ec_out ?c4 = ec_out c @ announce m @ [EvCommReq (get_event m (creq_id ?a) x names)] \<and> ec_in ?c4 = rest"
    using bounds by (simp add: asked_def heap_get_set_same opened_out)
  ultimately show ?thesis by blast
qed

section \<open>The peer that provides an attribute\<close>

text \<open>
  What a client relies on: a provider that has a row for a request answers it, under the id of the request,
  with that row and no error. What is read through it is then the row.
\<close>

locale attr_provider =
  fixes serve :: "CommReqEvent \<Rightarrow> 'st \<Rightarrow> (CommRespEvent \<times> 'st) res"
    and has_row :: "CommReqEvent \<Rightarrow> 'st \<Rightarrow> (u64 \<times> u64) list \<Rightarrow> bool"
  assumes serve_total: "has_row e s row \<Longrightarrow> \<exists>r s'. serve e s = Inr (r, s')"
    and serve_answers: "has_row e s row \<Longrightarrow> serve e s = Inr (r, s') \<Longrightarrow>
      answers (ev_id e) (length (attrName e)) r \<and> r_value r = [map fst row] \<and> r_timeStamp r = [map snd row] \<and>
      r_errValue r = []"
begin

lemma read_through:
  assumes x: "client_obj self c = Inr x" and rem: "all_remote x cm names" and ne: "names \<noteq> []"
    and V: "heap_get (vmem c) vb = Inr V" "vo + length names \<le> length V"
    and T: "heap_get (tmem c) tb = Inr T" "to + length names \<le> length T"
    and st: "heap_get (stats c) st = Inr es"
    and m: "heap_get (c_comms (cx c)) cm = Inr m" "m_evChan c"
    and s: "has_row (get_event m (creq_id (length (creqs c))) x names) s row"
      "serve (get_event m (creq_id (length (creqs c))) x names) s = Inr (r, s')"
    and i: "ec_in c = EvCommResp r # rest" "Suc (length (creqs c)) < 2 ^ 64"
  shows "\<exists>c'. dist_getValues n app self (int (length names)) names (Some (vb, vo)) (Some (tb, to)) st c =
      Inr (if es = [] then PWR_RET_SUCCESS else PWR_RET_STATUS, c') \<and>
    heap_get (vmem c') vb = Inr (splice V vo (map fst row)) \<and>
    heap_get (tmem c') tb = Inr (splice T to (map snd row)) \<and> heap_get (stats c') st = Inr es \<and>
    ec_out c' = ec_out c @ announce m @ [EvCommReq (get_event m (creq_id (length (creqs c))) x names)] \<and>
    ec_in c' = rest"
proof -
  have r: "answers (creq_id (length (creqs c))) (length names) r" "r_value r = [map fst row]"
    "r_timeStamp r = [map snd row]" "r_errValue r = []"
    using serve_answers [OF s] by (simp_all add: get_event_def)
  then have e: "r_errAttr r = []" "r_errObj r = []" by (auto simp: answers_def)
  then have "known c (r_errObj r)" by (simp add: known_def)
  from remote_read_all [OF x rem ne V T st m r(1) this r(2,3) i, of n app] e r(4) show ?thesis
    by (simp add: resp_errors_def)
qed

end

text \<open>A channel that is closed before the answer comes.\<close>

lemma remote_read_closed:
  assumes x: "client_obj self c = Inr x" and rem: "all_remote x cm names" and ne: "names \<noteq> []"
    and V: "heap_get (vmem c) vb = Inr V" "vo + length names \<le> length V"
    and T: "heap_get (tmem c) tb = Inr T" "to + length names \<le> length T"
    and st: "heap_get (stats c) st = Inr es"
    and m: "heap_get (c_comms (cx c)) cm = Inr m" "m_evChan c"
    and i: "ec_in c = []"
  shows "\<exists>c'. dist_getValues n app self (int (length names)) names (Some (vb, vo)) (Some (tb, to)) st c =
      Inr (PWR_RET_IPC, c') \<and>
    heap_get (vmem c') vb = Inr (splice V vo (replicate (length names) 0)) \<and> stats c' = stats c"
proof -
  let ?r = "\<lparr>rq_value = [None], rq_timeStamp = [None], rq_status = st, rq_callback = None, rq_commReqs = {}\<rparr>"
  let ?q = "length (reqs c)"
  let ?c0 = "c\<lparr>reqs := reqs c @ [Some ?r]\<rparr>"
  let ?c1 = "asked cm m x names (vb, vo) (tb, to) V T ?q ?r ?c0"
  have ask: "dist_getValues_req app self (int (length names)) names (Some (vb, vo)) (Some (tb, to)) st ?q ?c0 =
    Inr (if es = [] then PWR_RET_SUCCESS else PWR_RET_STATUS, ?c1)"
    by (rule getValues_req_remote) (use x rem ne V T st m in \<open>simp_all add: client_obj_def heap_get_new\<close>)
  have q1: "heap_get (reqs ?c1) ?q = Inr (?r\<lparr>rq_value := [Some (vb, vo)], rq_timeStamp := [Some (tb, to)],
      rq_commReqs := {length (creqs c)}\<rparr>)"
    by (simp add: asked_def heap_get_new heap_get_set_same)
  have "m_evChan ?c1" "ec_in ?c1 = []" using m i by (simp_all add: asked_def)
  with q1 have w: "req_wait n app ?q ?c1 = Inr (PWR_RET_IPC, ?c1)"
    by (simp add: req_wait_def req_finished_def)
  have vb: "vb < length (vmem c)" using V by (auto simp: heap_get_eq_Inr)
  show ?thesis
    using ask w heap_free_live [OF q1] vb
    by (simp add: dist_getValues_def with_request_def new_DistRequest_def req_delete_def asked_def heap_get_set_same)
qed

section \<open>Local attributes\<close>

definition all_local :: "'s DistObject \<Rightarrow> PWR_AttrName list \<Rightarrow> bool" where
  "all_local x names \<longleftrightarrow>
     list_all (\<lambda>a. case getAttrInfo (d_obj x) a of Inl _ \<Rightarrow> False | Inr i \<Rightarrow> ai_comm i = None) names"

lemma all_local_Cons:
  "all_local x (a # as) \<longleftrightarrow> (\<exists>i. getAttrInfo (d_obj x) a = Inr i \<and> ai_comm i = None) \<and> all_local x as"
  by (auto simp: all_local_def split: sum.splits)

lemma same_comm_local:
  "all_local x (take k (drop i names)) \<Longrightarrow> i + k \<le> length names \<Longrightarrow>
   \<exists>vop. same_comm (d_obj x) None k i names = Inr vop"
proof (induction k arbitrary: i)
  case (Suc k)
  then have d: "take (Suc k) (drop i names) = names ! i # take k (drop (Suc i) names)"
    by (simp add: Cons_nth_drop_Suc [symmetric])
  with Suc.prems have "all_local x (take k (drop (Suc i) names))" by (auto simp: all_local_Cons)
  from Suc.IH [OF this] Suc.prems obtain vop where "same_comm (d_obj x) None k (Suc i) names = Inr vop" by auto
  with d Suc.prems show ?case by (auto simp: all_local_Cons)
qed simp

lemma same_comm_local_tail:
  assumes "all_local x (a # as)"
  shows "\<exists>vop. same_comm (d_obj x) None (length as) (Suc 0) (a # as) = Inr vop"
  using same_comm_local [of x "length as" 1 "a # as"] assms by (simp add: all_local_Cons)

lemma base_getValues_off:
  assumes "client_obj self c = Inr x" "read_attrs (d_obj x) names (world (cx c)) = Inr ((xs, e), w)"
    and "heap_get (vmem c) vb = Inr V" "vo + length names \<le> length V"
    and "heap_get (tmem c) tb = Inr T" "to + length names \<le> length T"
    and "heap_get (stats c) st = Inr es"
  shows "base_getValues self (int (length names)) names (Some (vb, vo)) (Some (tb, to)) st c =
    Inr (if add_error (Some self) e es = [] then PWR_RET_SUCCESS else PWR_RET_STATUS,
         c\<lparr>cx := (cx c)\<lparr>world := w\<rparr>, vmem := (vmem c)[vb := Some (splice V vo (map fst xs))],
           tmem := (tmem c)[tb := Some (splice T to (map snd xs))],
           stats := (stats c)[st := Some (add_error (Some self) e es)]\<rparr>)"
proof -
  have split: "take k b @ splice (drop k b) 0 ys = splice b k ys" for k and b ys :: "u64 list"
    by (simp add: splice_def add.commute)
  show ?thesis
    using assms
    by (simp add: base_getValues_def vblock_def tblock_def attrGetValues_spec set_vblock_def set_tblock_def
        set_world_def split)
qed

text \<open>A read of local attributes is over when it returns: it waits for nothing and sends nothing.\<close>

definition quiet :: "('s, 'u) client \<Rightarrow> ('s, 'u) client \<Rightarrow> bool" where
  "quiet c c' \<longleftrightarrow> m_evChan c' = m_evChan c \<and> creqs c' = creqs c \<and> reqs c' = reqs c @ [None] \<and> ec_in c' = ec_in c \<and>
     ec_out c' = ec_out c \<and> user c' = user c \<and> cjunk c' = cjunk c"

lemma local_read:
  assumes x: "client_obj self c = Inr x" and loc: "all_local x names" and ne: "names \<noteq> []"
    and rd: "read_attrs (d_obj x) names (world (cx c)) = Inr ((xs, e), w)"
    and V: "heap_get (vmem c) vb = Inr V" "vo + length names \<le> length V"
    and T: "heap_get (tmem c) tb = Inr T" "to + length names \<le> length T"
    and st: "heap_get (stats c) st = Inr es"
  shows "\<exists>c'. dist_getValues n app self (int (length names)) names (Some (vb, vo)) (Some (tb, to)) st c =
      Inr (if add_error (Some self) e es = [] then PWR_RET_SUCCESS else PWR_RET_STATUS, c') \<and> quiet c c' \<and>
    cx c' = (cx c)\<lparr>world := w\<rparr> \<and> vmem c' = (vmem c)[vb := Some (splice V vo (map fst xs))] \<and>
    tmem c' = (tmem c)[tb := Some (splice T to (map snd xs))] \<and>
    stats c' = (stats c)[st := Some (add_error (Some self) e es)]"
proof -
  obtain a as where names: "names = a # as" using ne by (cases names) auto
  with loc obtain i where i: "getAttrInfo (d_obj x) a = Inr i" "ai_comm i = None"
    by (auto simp: all_local_Cons)
  from same_comm_local_tail loc names obtain vop where
    vop: "same_comm (d_obj x) None (length as) (Suc 0) (a # as) = Inr vop" by blast
  let ?r = "\<lparr>rq_value = [Some (vb, vo)], rq_timeStamp = [Some (tb, to)], rq_status = st, rq_callback = None, rq_commReqs = {}\<rparr>"
  let ?c = "c\<lparr>reqs := reqs c @ [Some ?r]\<rparr>"
  have b: "base_getValues self (int (length names)) names (Some (vb, vo)) (Some (tb, to)) st ?c =
    Inr (if add_error (Some self) e es = [] then PWR_RET_SUCCESS else PWR_RET_STATUS,
         ?c\<lparr>cx := (cx c)\<lparr>world := w\<rparr>, vmem := (vmem c)[vb := Some (splice V vo (map fst xs))],
           tmem := (tmem c)[tb := Some (splice T to (map snd xs))],
           stats := (stats c)[st := Some (add_error (Some self) e es)]\<rparr>)"
    using base_getValues_off [of self ?c x names xs e w vb V vo tb T to st es] x rd V T st
    by (simp add: client_obj_def)
  have sl: "st < length (stats c)" using st by (simp add: heap_get_eq_Inr)
  have n1: "nat (1 + int (length as)) = Suc (length as)" by arith
  from b show ?thesis
    using x i vop sl
    by (cases "ec_in c")
      (simp_all add: dist_getValues_def with_request_def new_DistRequest_def dist_getValues_req_def req_upd_def names n1
        client_obj_def heap_get_new heap_get_set_same status_result_def finish_now_def req_finished_def execCallback_def
        status_empty_def req_wait_def req_delete_def heap_free_live quiet_def)
qed

text \<open>
  C6: A read of attributes that the process has itself is the read of the class
  \<^verbatim>\<open>Object\<close> on the caller's buffers: the same result, values, times, errors and effect on the devices, without an
  event sent or taken.
\<close>

theorem dist_read_refines_object:
  assumes "client_obj self c = Inr x" "all_local x names" "names \<noteq> []"
    and "heap_get (vmem c) vb = Inr V" "off + length names \<le> length V"
    and "heap_get (tmem c) tb = Inr T" "off + length names \<le> length T"
    and "heap_get (stats c) st = Inr es"
    and "attrGetValues (d_obj x) (Some self) (int (length names)) names off (V, T, es) (world (cx c)) =
      Inr ((r, V', T', es'), w)"
  shows "\<exists>c'. dist_getValues n app self (int (length names)) names (Some (vb, off)) (Some (tb, off)) st c = Inr (r, c') \<and>
    cx c' = (cx c)\<lparr>world := w\<rparr> \<and> heap_get (vmem c') vb = Inr V' \<and> heap_get (tmem c') tb = Inr T' \<and>
    heap_get (stats c') st = Inr es' \<and> ec_in c' = ec_in c \<and> ec_out c' = ec_out c"
proof -
  from assms(9) obtain xs e where rd: "read_attrs (d_obj x) names (world (cx c)) = Inr ((xs, e), w)"
    and out: "r = (if add_error (Some self) e es = [] then PWR_RET_SUCCESS else PWR_RET_STATUS)"
      "V' = splice V off (map fst xs)" "T' = splice T off (map snd xs)" "es' = add_error (Some self) e es"
    using assms(5,7) by (auto simp: attrGetValues_spec rbind_eq_Inr)
  from local_read [OF assms(1-3) rd assms(4-8), of n app] out assms(4,6,8) show ?thesis
    by (fastforce simp: quiet_def heap_get_eq_Inr)
qed

definition demo_local :: "(dummy_state, unit) client" where
  "demo_local =
     \<lparr>cx = demo_cntxt\<lparr>world := demo_dummy\<lparr>ticks := 0\<rparr>, c_objs := [Some \<lparr>d_obj = demo_object, d_comm = None\<rparr>]\<rparr>,
      m_evChan = False, vmem = [Some [9, 9, 9]], tmem = [Some [8, 8, 8]], stats = [Some []], reqs = [], creqs = [],
      ec_in = [], ec_out = [], cjunk = 9, user = ()\<rparr>"

lemma demo_local_facts:
  "client_obj 0 demo_local = Inr \<lparr>d_obj = demo_object, d_comm = None\<rparr>"
  "all_local \<lparr>d_obj = demo_object, d_comm = None\<rparr> [PWR_ATTR_POWER, PWR_ATTR_TEMP]"
  "heap_get (vmem demo_local) 0 = Inr [9, 9, 9]" "heap_get (tmem demo_local) 0 = Inr [8, 8, 8]"
  "heap_get (stats demo_local) 0 = Inr []"
  "world (cx demo_local) = demo_dummy\<lparr>ticks := 0\<rparr>"
  by (simp_all add: demo_local_def client_obj_def heap_get_def all_local_def demo_object_attrs demo_info_def new_AttrInfo_def)

theorem dist_read_refines_object_witness:
  "\<exists>c'. dist_getValues 2 (\<lambda>_. Inr) 0 2 [PWR_ATTR_POWER, PWR_ATTR_TEMP] (Some (0, 1)) (Some (0, 1)) 0 demo_local =
      Inr (PWR_RET_STATUS, c') \<and> heap_get (vmem c') 0 = Inr [9, 5, 0]"
proof -
  let ?n = "[PWR_ATTR_POWER, PWR_ATTR_TEMP]"
  have a: "attrGetValues (d_obj \<lparr>d_obj = demo_object, d_comm = None\<rparr>) (Some 0) (int (length ?n)) ?n 1
      ([9, 9, 9], [8, 8, 8], []) (world (cx demo_local)) =
    Inr ((PWR_RET_STATUS, [9, 5, 0], [8, 1000000000, 0],
      [\<lparr>err_obj = Some 0, err_name = PWR_ATTR_TEMP, err_error = PWR_RET_INVALID\<rparr>]), demo_dummy\<lparr>ticks := 2\<rparr>)"
    by (simp add: attrGetValues_spec demo_local_facts demo_object_read add_error_def status_add_def splice_def
        numeral_2_eq_2)
  show ?thesis
    using dist_read_refines_object [OF demo_local_facts(1,2) _ demo_local_facts(3) _ demo_local_facts(4) _
        demo_local_facts(5) a, of 2 "\<lambda>_. Inr"] by auto
qed

end
