(* ===== verification/ServerProps.thy ===== *)
theory ServerProps
  imports Server DistProps
begin

text \<open>What the server answers to a request on one of its own objects.\<close>

section \<open>Local attributes\<close>

text \<open>A request that is served on the spot: its callback runs before the call returns, unless an attribute failed.\<close>

lemma getValues_req_local:
  assumes x: "client_obj self c = Inr x" and loc: "all_local x names" and ne: "names \<noteq> []"
    and rd: "read_attrs (d_obj x) names (world (cx c)) = Inr ((xs, e), w)"
    and V: "heap_get (vmem c) vb = Inr V" "length V = length names"
    and T: "heap_get (tmem c) tb = Inr T" "length T = length names"
    and st: "heap_get (stats c) st = Inr []"
    and q: "heap_get (reqs c) q = Inr r" "rq_value r = [None]" "rq_timeStamp r = [None]" "rq_commReqs r = {}"
      "rq_callback r = Some d"
  shows "dist_getValues_req app self (int (length names)) names (Some (vb, 0)) (Some (tb, 0)) st q c =
    (let c' = c\<lparr>
           reqs := (reqs c)[q := Some (r\<lparr>rq_value := [Some (vb, 0)], rq_timeStamp := [Some (tb, 0)]\<rparr>)],
           cx := (cx c)\<lparr>world := w\<rparr>,
           vmem := (vmem c)[vb := Some (splice V 0 (map fst xs))],
           tmem := (tmem c)[tb := Some (splice T 0 (map snd xs))],
           stats := (stats c)[st := Some (add_error (Some self) e [])]\<rparr> in
     if e = None then rbind (app d c') (\<lambda>c. Inr (PWR_RET_SUCCESS, c)) else Inr (PWR_RET_STATUS, c'))"
proof -
  obtain a as where names: "names = a # as" using ne by (cases names) auto
  with loc obtain i where i: "getAttrInfo (d_obj x) a = Inr i" "ai_comm i = None"
    by (auto simp: all_local_Cons)
  from same_comm_local_tail loc names obtain vop where
    vop: "same_comm (d_obj x) None (length as) (Suc 0) (a # as) = Inr vop" by blast
  let ?c = "c\<lparr>reqs := (reqs c)[q := Some (r\<lparr>rq_value := [Some (vb, 0)], rq_timeStamp := [Some (tb, 0)]\<rparr>)]\<rparr>"
  have b: "base_getValues self (int (length names)) names (Some (vb, 0)) (Some (tb, 0)) st ?c =
    Inr (if add_error (Some self) e [] = [] then PWR_RET_SUCCESS else PWR_RET_STATUS,
         ?c\<lparr>cx := (cx c)\<lparr>world := w\<rparr>, vmem := (vmem c)[vb := Some (splice V 0 (map fst xs))],
           tmem := (tmem c)[tb := Some (splice T 0 (map snd xs))],
           stats := (stats c)[st := Some (add_error (Some self) e [])]\<rparr>)"
    using base_getValues_off [of self ?c x names xs e w vb V 0 tb T 0 st "[]"] x rd V T st
    by (simp add: client_obj_def)
  have ql: "q < length (reqs c)" "st < length (stats c)" using q(1) st by (simp_all add: heap_get_eq_Inr)
  have n1: "nat (1 + int (length as)) = Suc (length as)" by arith
  have er: "add_error (Some self) e [] = [] \<longleftrightarrow> e = None"
    by (cases e) (auto simp: add_error_def status_add_def)
  from b show ?thesis
    using x i vop q st ql
    by (simp add: dist_getValues_req_def req_upd_def names n1 client_obj_def heap_get_set_same
        status_result_def finish_now_def req_finished_def execCallback_def status_empty_def er Let_def rbind_assoc)
qed

section \<open>The answer\<close>

text \<open>The end of a request: its answer goes out, and all that was made for it is deleted.\<close>

lemma requestFini_get:
  assumes y: "key_get k c = Inr y" "q_resp y = EvCommResp r" "op r = OpGet" "q_values y = Some vb"
      "q_times y = Some tb" "q_req y = Some q"
    and st: "heap_get (stats c) (q_status y) = Inr []"
    and V: "heap_get (vmem c) vb = Inr V" and T: "heap_get (tmem c) tb = Inr T"
    and q: "heap_get (reqs c) q = Inr rq"
    and f: "sv_finiMap (user c) k = Some a" "heap_get (sv_rtr (user c)) a = Inr re"
    and ev: "new_RouterEvent (rt_dest re) (rt_src re)
      (EvCommResp (r\<lparr>r_value := [V], r_timeStamp := [T], r_errObj := [], r_errAttr := [], r_errValue := []\<rparr>)) = Inr ev"
  shows "\<exists>c'. server_app k c = Inr c' \<and> stats c' = (stats c)[q_status y := None] \<and> vmem c' = (vmem c)[vb := None] \<and>
    tmem c' = (tmem c)[tb := None] \<and> reqs c' = (reqs c)[q := None] \<and> creqs c' = creqs c \<and> cx c' = cx c \<and>
    ec_in c' = ec_in c \<and> ec_out c' = ec_out c \<and> sv_out (user c') = sv_out (user c) @ [ev] \<and>
    sv_rtr (user c') = (sv_rtr (user c))[a := None] \<and> sv_keys (user c') = (sv_keys (user c))[k := None] \<and>
    sv_finiMap (user c') = (sv_finiMap (user c))(k := None) \<and> sv_commMap (user c') = sv_commMap (user c)"
  using assms
  by (simp add: server_app_def requestFini_def take_errors_def delete_Status_def heap_free_live block_get_def
      fini_def key_delete_def key_get_def sv_upd_def req_delete_def free_block_def)

definition get_answer :: "CommReqEvent \<Rightarrow> u64 list \<Rightarrow> u64 list \<Rightarrow> CommRespEvent" where
  "get_answer e vs ts =
     \<lparr>ev_type = type_word CommResp, ev_id = ev_id e, ev_status = 0, commID = 0, op = OpGet,
      r_timeStamp = [ts], r_value = [vs], r_grpIndex = grpIndex e, r_errObj = [], r_errAttr = [], r_errValue = []\<rparr>"

text \<open>The values, or the times, read before the first error, and zeros for the attributes from there on.\<close>

definition padded :: "nat \<Rightarrow> u64 list \<Rightarrow> u64 list" where
  "padded m xs = splice (replicate m 0) 0 xs"

lemma read_attrs_code: "read_attrs ob as s = Inr ((xs, Some (a, r)), s') \<Longrightarrow> r \<noteq> PWR_RET_SUCCESS"
  by (induction as arbitrary: s xs) (fastforce simp: rbind_eq_Inr split: if_split_asm)+

text \<open>
  What a served request leaves behind: one event sent, nothing of what was allocated, and the world of the
  devices as the reads left it.
\<close>

definition answered :: "'s sclient \<Rightarrow> addr \<Rightarrow> addr \<Rightarrow> RouterEvent \<Rightarrow> 's \<Rightarrow> 's sclient \<Rightarrow> bool" where
  "answered c k a ev w c' \<longleftrightarrow>
     vmem c' = vmem c @ [None] \<and> tmem c' = tmem c @ [None] \<and> reqs c' = reqs c @ [None] \<and> creqs c' = creqs c \<and>
     cx c' = (cx c)\<lparr>world := w\<rparr> \<and> ec_in c' = ec_in c \<and> ec_out c' = ec_out c \<and>
     sv_out (user c') = sv_out (user c) @ [ev] \<and> sv_rtr (user c') = (sv_rtr (user c))[a := None] \<and>
     sv_keys (user c') = (sv_keys (user c))[k := None] \<and> sv_finiMap (user c') = (sv_finiMap (user c))(k := None) \<and>
     sv_commMap (user c') = sv_commMap (user c)"

text \<open>The states on the way: the request is set up, and its attributes are read.\<close>

definition srv_resp :: "'s sclient \<Rightarrow> CommReqEvent \<Rightarrow> CommRespEvent" where
  "srv_resp c e = (new_CommRespEvent (cjunk c) (ev_id e))\<lparr>op := op e, r_grpIndex := grpIndex e, commID := 0\<rparr>"

definition srv_key :: "'s sclient \<Rightarrow> AnyEvent \<Rightarrow> CommReqEvent \<Rightarrow> SrvrReq" where
  "srv_key c ev0 e = (new_SrvrReq ev0)\<lparr>q_resp := EvCommResp (srv_resp c e), q_values := Some (length (vmem c)),
     q_times := Some (length (tmem c)), q_req := Some (length (reqs c)), q_status := length (stats c)\<rparr>"

definition srv_req :: "'s sclient \<Rightarrow> addr \<Rightarrow> DistRequest" where
  "srv_req c k = \<lparr>rq_value = [None], rq_timeStamp = [None], rq_status = length (stats c), rq_callback = Some k,
     rq_commReqs = {}\<rparr>"

definition srv_start :: "'s sclient \<Rightarrow> addr \<Rightarrow> AnyEvent \<Rightarrow> CommReqEvent \<Rightarrow> 's sclient" where
  "srv_start c k ev0 e =
     c\<lparr>vmem := vmem c @ [Some (replicate (length (attrName e)) 0)],
       tmem := tmem c @ [Some (replicate (length (attrName e)) 0)],
       stats := stats c @ [Some []], reqs := reqs c @ [Some (srv_req c k)],
       user := (user c)\<lparr>sv_keys := (sv_keys (user c))[k := Some (srv_key c ev0 e)]\<rparr>\<rparr>"

definition srv_read :: "'s sclient \<Rightarrow> addr \<Rightarrow> AnyEvent \<Rightarrow> CommReqEvent \<Rightarrow> (u64 \<times> u64) list \<Rightarrow> 's \<Rightarrow>
    addr option status \<Rightarrow> 's sclient" where
  "srv_read c k ev0 e xs w es =
     (let c1 = (srv_start c k ev0 e)\<lparr>stats := stats c @ [Some [], Some []]\<rparr> in
      c1\<lparr>reqs := reqs c @ [Some ((srv_req c k)\<lparr>rq_value := [Some (length (vmem c), 0)],
                                              rq_timeStamp := [Some (length (tmem c), 0)]\<rparr>)],
         cx := (cx c)\<lparr>world := w\<rparr>,
         vmem := vmem c @ [Some (padded (length (attrName e)) (map fst xs))],
         tmem := tmem c @ [Some (padded (length (attrName e)) (map snd xs))],
         stats := stats c @ [Some [], Some es]\<rparr>)"

lemma start_reads:
  assumes e: "op e = OpGet"
    and cm: "sv_commMap (user c) (commID e) = Some (Some ob # obs)"
    and x: "client_obj ob c = Inr x"
    and k: "key_get k c = Inr (new_SrvrReq ev0)"
  shows "SrvrCommReq_process k e c =
    rbind (dist_getValues_nb server_app ob (int (length (attrName e))) (attrName e) (Some (length (vmem c), 0))
      (Some (length (tmem c), 0)) (length (reqs c)) (srv_start c k ev0 e)) (\<lambda>(r, c). end_req k r c)"
  using assms
  by (simp add: SrvrCommReq_process_def comm_object_def new_vblock_def new_tblock_def start_req_def new_Status_def
      new_DistRequest_def key_upd_def key_get_def sv_upd_def client_obj_def PWR_ObjGetName_def obj_name_def srv_start_def srv_req_def srv_key_def
      srv_resp_def Let_def)

lemma nb_reads:
  assumes ne: "attrName e \<noteq> []"
    and x: "client_obj ob c = Inr x" "all_local x (attrName e)"
      "read_attrs (d_obj x) (attrName e) (world (cx c)) = Inr ((xs, err), w)"
  shows "dist_getValues_nb server_app ob (int (length (attrName e))) (attrName e) (Some (length (vmem c), 0))
      (Some (length (tmem c), 0)) (length (reqs c)) (srv_start c k ev0 e) =
    (let c2 = srv_read c k ev0 e xs w (add_error (Some ob) err []); st = Suc (length (stats c)) in
     rbind (rbind (if err = None then rbind (server_app k c2) (\<lambda>c. Inr (PWR_RET_SUCCESS, c)) else Inr (PWR_RET_STATUS, c2))
      (\<lambda>(r, c). if r = PWR_RET_STATUS then pop_error st c else Inr (r, c)))
      (\<lambda>(r, c). rbind (delete_Status st c) (\<lambda>c. Inr (r, c))))"
proof -
  let ?c0 = "srv_start c k ev0 e" and ?st = "Suc (length (stats c))"
  let ?c1 = "?c0\<lparr>stats := stats c @ [Some [], Some []]\<rparr>"
  have s1: "heap_get (stats ?c1) ?st = Inr []" "heap_get (reqs ?c1) (length (reqs c)) = Inr (srv_req c k)"
    "heap_get (vmem ?c1) (length (vmem c)) = Inr (replicate (length (attrName e)) 0)"
    "heap_get (tmem ?c1) (length (tmem c)) = Inr (replicate (length (attrName e)) 0)"
    "client_obj ob ?c1 = Inr x" "world (cx ?c1) = world (cx c)"
    using x by (simp_all add: srv_start_def heap_get_def nth_append client_obj_def)
  have "dist_getValues_req server_app ob (int (length (attrName e))) (attrName e) (Some (length (vmem c), 0))
      (Some (length (tmem c), 0)) ?st (length (reqs c)) ?c1 =
    (let c2 = srv_read c k ev0 e xs w (add_error (Some ob) err []) in
     if err = None then rbind (server_app k c2) (\<lambda>c. Inr (PWR_RET_SUCCESS, c)) else Inr (PWR_RET_STATUS, c2))"
    using getValues_req_local [of ob ?c1 x "attrName e" xs err w "length (vmem c)" _ "length (tmem c)" _ ?st
        "length (reqs c)" "srv_req c k" k server_app] s1 x ne
    by (simp add: srv_read_def srv_req_def srv_start_def padded_def Let_def list_update_append)
  then show ?thesis
    by (simp add: dist_getValues_nb_def with_status_def new_Status_def srv_start_def Let_def)
qed

lemma srv_read_simps [simp]:
  "stats (srv_read c k ev0 e xs w es) = stats c @ [Some [], Some es]"
  "(srv_read c k ev0 e xs w es)\<lparr>stats := ss\<rparr>\<lparr>stats := ss'\<rparr> = (srv_read c k ev0 e xs w es)\<lparr>stats := ss'\<rparr>"
  by (simp_all add: srv_read_def Let_def)

lemma read_answer:
  assumes e: "op e = OpGet"
    and k: "key_get k c = Inr (new_SrvrReq ev0)"
    and f: "sv_finiMap (user c) k = Some a" "heap_get (sv_rtr (user c)) a = Inr re"
    and ev: "new_RouterEvent (rt_dest re) (rt_src re) (EvCommResp (get_answer e
        (padded (length (attrName e)) (map fst xs)) (padded (length (attrName e)) (map snd xs)))) = Inr ev"
    and ss: "heap_get ss (length (stats c)) = Inr []"
  shows "\<exists>c'. server_app k ((srv_read c k ev0 e xs w es)\<lparr>stats := ss\<rparr>) = Inr c' \<and>
    stats c' = ss[length (stats c) := None] \<and> answered c k a ev w c'"
proof -
  let ?c = "(srv_read c k ev0 e xs w es)\<lparr>stats := ss\<rparr>" and ?y = "srv_key c ev0 e" and ?m = "length (attrName e)"
  have kl: "k < length (sv_keys (user c))" using k by (simp add: key_get_def heap_get_eq_Inr)
  note defs = srv_read_def srv_start_def Let_def
  have y: "key_get k ?c = Inr ?y" "q_resp ?y = EvCommResp (srv_resp c e)" "op (srv_resp c e) = OpGet"
    "q_values ?y = Some (length (vmem c))" "q_times ?y = Some (length (tmem c))" "q_req ?y = Some (length (reqs c))"
    using kl e by (simp_all add: defs key_get_def heap_get_set_same srv_key_def srv_resp_def)
  have u: "sv_finiMap (user ?c) k = Some a" "heap_get (sv_rtr (user ?c)) a = Inr re"
    using f by (simp_all add: defs)
  have h: "heap_get (stats ?c) (q_status ?y) = Inr []"
    "heap_get (vmem ?c) (length (vmem c)) = Inr (padded ?m (map fst xs))"
    "heap_get (tmem ?c) (length (tmem c)) = Inr (padded ?m (map snd xs))"
    "heap_get (reqs ?c) (length (reqs c)) = Inr ((srv_req c k)\<lparr>rq_value := [Some (length (vmem c), 0)],
       rq_timeStamp := [Some (length (tmem c), 0)]\<rparr>)"
    using ss by (simp_all add: defs heap_get_new srv_key_def)
  have "new_RouterEvent (rt_dest re) (rt_src re) (EvCommResp ((srv_resp c e)\<lparr>r_value := [padded ?m (map fst xs)],
      r_timeStamp := [padded ?m (map snd xs)], r_errObj := [], r_errAttr := [], r_errValue := []\<rparr>)) = Inr ev"
    using ev e by (simp add: srv_resp_def new_CommRespEvent_def get_answer_def)
  from requestFini_get [OF y h u this] show ?thesis
    by (auto simp: answered_def defs srv_key_def)
qed

lemma SrvrCommReq_get:
  assumes e: "op e = OpGet" "attrName e \<noteq> []"
    and cm: "sv_commMap (user c) (commID e) = Some (Some ob # obs)"
    and x: "client_obj ob c = Inr x" "all_local x (attrName e)"
      "read_attrs (d_obj x) (attrName e) (world (cx c)) = Inr ((xs, err), w)"
    and k: "key_get k c = Inr (new_SrvrReq ev0)"
    and f: "sv_finiMap (user c) k = Some a" "heap_get (sv_rtr (user c)) a = Inr re"
    and ev: "new_RouterEvent (rt_dest re) (rt_src re) (EvCommResp (get_answer e
        (padded (length (attrName e)) (map fst xs)) (padded (length (attrName e)) (map snd xs)))) = Inr ev"
  shows "\<exists>c'. SrvrCommReq_process k e c = Inr (False, c') \<and> stats c' = stats c @ [None, None] \<and> answered c k a ev w c'"
proof -
  let ?st = "Suc (length (stats c))"
  note go = start_reads [OF e(1) cm x(1) k] nb_reads [OF e(2) x] Let_def
  note fin = read_answer [OF e(1) k f ev]
  have h: "heap_get (stats c @ [Some [], y]) (length (stats c)) = Inr []" for y
    by (simp add: heap_get_def nth_append)
  show ?thesis
  proof (cases err)
    case None
    let ?c2 = "srv_read c k ev0 e xs w []"
    from fin [OF h [of "Some []"], where w = w and es = "[]"] obtain c' where c': "server_app k ?c2 = Inr c'"
      "stats c' = stats c @ [None, Some []]" "answered c k a ev w c'"
      by (auto simp: list_update_append srv_read_def Let_def)
    then have "heap_free ?st (stats c') = Inr (stats c @ [None, None])"
      by (simp add: heap_free_def heap_get_def nth_append list_update_append)
    with c' None show ?thesis by (simp add: go delete_Status_def end_req_def add_error_def answered_def)
  next
    case (Some ae)
    then obtain an rr where err: "err = Some (an, rr)" by (cases ae) auto
    with x(3) have rr: "rr \<noteq> PWR_RET_SUCCESS" by (blast dest: read_attrs_code)
    let ?c2 = "srv_read c k ev0 e xs w (status_add (Some ob) an rr [])"
    have p: "pop_error ?st ?c2 = Inr (rr, ?c2\<lparr>stats := stats c @ [Some [], Some []]\<rparr>)"
      by (simp add: pop_error_def heap_get_def nth_append status_add_def status_pop_def list_update_append)
    have d: "delete_Status ?st (?c2\<lparr>stats := stats c @ [Some [], Some []]\<rparr>) = Inr (?c2\<lparr>stats := stats c @ [Some [], None]\<rparr>)"
      by (simp add: delete_Status_def heap_free_def heap_get_def nth_append list_update_append)
    from fin [OF h [of None], where w = w and es = "status_add (Some ob) an rr []"] rr err show ?thesis
      by (auto simp: go p d end_req_def list_update_append add_error_def)
  qed
qed

section \<open>From the router and back\<close>

lemma wrap_event:
  assumes "any_serialize_out ev [] = Inr p" "any_type ev = type_word (any_class ev)" "any_class ev \<in> set cs"
  shows "\<exists>re. new_RouterEvent src dest ev = Inr re \<and> rt_src re = src \<and> rt_dest re = dest \<and>
    getPayload (alloc_switch cs) re = Inr (ev, [])"
proof -
  have "enum_decode eventtype_code all_eventtypes (sint (type_word t)) = Some t" for t
    by (cases t) (simp_all add: type_word_def enum_decode_def all_eventtypes_def)
  then show ?thesis
    using assms new_from_buf_out [OF assms(1)] by (simp add: new_RouterEvent_def getPayload_def alloc_switch_hit)
qed

lemma get_answer_sent:
  assumes "length vs < 2 ^ 32" "length ts < 2 ^ 32"
  shows "\<exists>re. new_RouterEvent src dest (EvCommResp (get_answer e vs ts)) = Inr re \<and> rt_src re = src \<and>
    rt_dest re = dest \<and> getPayload router_allocServerEvent re = Inr (EvCommResp (get_answer e vs ts), [])"
proof -
  have v: "\<exists>b'. put_vec (put_vec put_u64) [xs] b = Inr b'" if "length xs < 2 ^ 32" for xs b
    by (rule u64vv.put_total) (use that in \<open>simp add: fits_vec_def\<close>)
  have nil: "put_vec p [] b = Inr b'" if "put_u64 0 b = Inr b'" for p :: "'x \<Rightarrow> buf \<Rightarrow> buf res" and b b'
    using that by (simp add: put_vec_def)
  obtain b1 where b1: "CommEvent_serialize_out (get_answer e vs ts) [] = Inr b1"
    by (simp add: CommEvent_serialize_out_def Event_serialize_out_def put_u64_def put_u32_def put_i32_def put_enum_def)
  from v [OF assms(2)] obtain b2 where b2: "put_vec (put_vec put_u64) [ts] b1 = Inr b2" by blast
  from v [OF assms(1)] obtain b3 where b3: "put_vec (put_vec put_u64) [vs] b2 = Inr b3" by blast
  have "\<exists>p. any_serialize_out (EvCommResp (get_answer e vs ts)) [] = Inr p"
    using b1 b2 b3 by (simp add: CommRespEvent_serialize_out_def get_answer_def put_u64_def nil [OF put_u64_def])
  then obtain p where p: "any_serialize_out (EvCommResp (get_answer e vs ts)) [] = Inr p" by blast
  show ?thesis
    unfolding router_allocServerEvent_def
    by (rule wrap_event [OF p]) (simp_all add: any_type_def get_answer_def)
qed

definition row_of :: "nat \<Rightarrow> (u64 \<times> u64) list \<Rightarrow> (u64 \<times> u64) list" where
  "row_of m xs = xs @ replicate (m - length xs) (0, 0)"

lemma padded_row:
  "length xs \<le> m \<Longrightarrow> padded m (map fst xs) = map fst (row_of m xs)"
  "length xs \<le> m \<Longrightarrow> padded m (map snd xs) = map snd (row_of m xs)"
  by (simp_all add: padded_def splice_def row_of_def)

lemma length_row_of [simp]: "length xs \<le> m \<Longrightarrow> length (row_of m xs) = m"
  by (simp add: row_of_def)

lemma serve_read:
  assumes p: "getPayload server_allocReqEvent re = Inr (EvCommReq e, rest)"
    and e: "op e = OpGet" "attrName e \<noteq> []" "length (attrName e) < 2 ^ 32"
    and cm: "sv_commMap (user c) (commID e) = Some (Some ob # obs)"
    and x: "client_obj ob c = Inr x" "all_local x (attrName e)"
    and rd: "read_attrs (d_obj x) (attrName e) (world (cx c)) = Inr ((xs, err), w)"
  shows "\<exists>c' ev. RouterData_process n (Some (EvRouter re)) c = Inr (False, c') \<and>
    sv_out (user c') = sv_out (user c) @ [ev] \<and> rt_src ev = rt_dest re \<and> rt_dest ev = rt_src re \<and>
    getPayload router_allocServerEvent ev =
      Inr (EvCommResp (get_answer e (map fst (row_of (length (attrName e)) xs)) (map snd (row_of (length (attrName e)) xs))), []) \<and>
    cx c' = (cx c)\<lparr>world := w\<rparr> \<and>
    vmem c' = vmem c @ [None] \<and> tmem c' = tmem c @ [None] \<and> reqs c' = reqs c @ [None] \<and>
    stats c' = stats c @ [None, None] \<and> sv_rtr (user c') = sv_rtr (user c) @ [None] \<and>
    sv_keys (user c') = sv_keys (user c) @ [None] \<and>
    sv_finiMap (user c') = (sv_finiMap (user c))(length (sv_keys (user c)) := None) \<and>
    sv_commMap (user c') = sv_commMap (user c)"
proof -
  let ?m = "length (attrName e)" and ?k = "length (sv_keys (user c))" and ?a = "length (sv_rtr (user c))"
  have l: "length xs \<le> ?m" using read_attrs_length [OF rd] .
  then obtain ev where ev: "new_RouterEvent (rt_dest re) (rt_src re) (EvCommResp (get_answer e
      (map fst (row_of ?m xs)) (map snd (row_of ?m xs)))) = Inr ev" "rt_src ev = rt_dest re" "rt_dest ev = rt_src re"
    "getPayload router_allocServerEvent ev =
      Inr (EvCommResp (get_answer e (map fst (row_of ?m xs)) (map snd (row_of ?m xs))), [])"
    using get_answer_sent [of "map fst (row_of ?m xs)" "map snd (row_of ?m xs)" "rt_dest re" "rt_src re" e] e(3) by auto
  let ?c = "c\<lparr>user := (user c)\<lparr>sv_rtr := sv_rtr (user c) @ [Some re],
      sv_keys := sv_keys (user c) @ [Some (new_SrvrReq (EvCommReq e))], sv_finiMap := (sv_finiMap (user c))(?k \<mapsto> ?a)\<rparr>\<rparr>"
  have "\<exists>c'. SrvrCommReq_process ?k e ?c = Inr (False, c') \<and> stats c' = stats ?c @ [None, None] \<and> answered ?c ?k ?a ev w c'"
  proof (rule SrvrCommReq_get)
    show "new_RouterEvent (rt_dest re) (rt_src re) (EvCommResp (get_answer e
        (padded ?m (map fst xs)) (padded ?m (map snd xs)))) = Inr ev"
      using ev(1) l by (simp add: padded_row)
  qed (use e cm x rd in \<open>simp_all add: client_obj_def key_get_def heap_get_new\<close>)
  then obtain c' where c': "SrvrCommReq_process ?k e ?c = Inr (False, c')" "stats c' = stats ?c @ [None, None]"
    "answered ?c ?k ?a ev w c'" by blast
  have "RouterData_process n (Some (EvRouter re)) c = Inr (False, c')"
    using p c'(1) by (simp add: RouterData_process_def SrvrRouterEvent_process_def key_new_def initFini_def sv_upd_def
        srvr_process_def key_get_def heap_get_new new_SrvrReq_def Let_def)
  with c' ev show ?thesis by (auto simp: answered_def list_update_append)
qed

section \<open>Client and server together\<close>

text \<open>
  The server as the provider of the attributes of its objects: the request travels in a router event,
  and so does the answer, as the router delivers them.
\<close>

definition serve :: "nat \<Rightarrow> u64 \<Rightarrow> u64 \<Rightarrow> CommReqEvent \<Rightarrow> 's sclient \<Rightarrow> (CommRespEvent \<times> 's sclient) res" where
  "serve n src dest e c =
     rbind (new_RouterEvent src dest (EvCommReq e)) (\<lambda>re.
     rbind (RouterData_process n (Some (EvRouter re)) c) (\<lambda>(_, c').
     rbind (getPayload router_allocServerEvent (last (sv_out (user c')))) (\<lambda>(ev, _).
     case ev of EvCommResp r \<Rightarrow> Inr (r, c') | _ \<Rightarrow> Inl Unspecified)))"

definition encodable :: "CommReqEvent \<Rightarrow> bool" where
  "encodable e \<longleftrightarrow> ev_type e = type_word CommReq \<and> length (attrName e) < 2 ^ 32 \<and> length (setValues e) < 2 ^ 32 \<and>
     length (valueOp e) < 2 ^ 32"

definition server_row :: "CommReqEvent \<Rightarrow> 's sclient \<Rightarrow> (u64 \<times> u64) list \<Rightarrow> bool" where
  "server_row e c row \<longleftrightarrow> encodable e \<and> op e = OpGet \<and> attrName e \<noteq> [] \<and>
     (\<exists>ob obs x xs err w. sv_commMap (user c) (commID e) = Some (Some ob # obs) \<and> client_obj ob c = Inr x \<and>
        all_local x (attrName e) \<and> read_attrs (d_obj x) (attrName e) (world (cx c)) = Inr ((xs, err), w) \<and>
        row = row_of (length (attrName e)) xs)"

lemma encodable_sent:
  assumes "encodable e"
  shows "\<exists>re. new_RouterEvent src dest (EvCommReq e) = Inr re \<and> rt_src re = src \<and> rt_dest re = dest \<and>
    getPayload server_allocReqEvent re = Inr (EvCommReq e, [])"
proof -
  obtain b1 where b1: "CommEvent_serialize_out e [] = Inr b1"
    by (simp add: CommEvent_serialize_out_def Event_serialize_out_def put_u64_def put_u32_def put_i32_def put_enum_def)
  obtain b2 where b2: "put_vec put_u64 (setValues e) b1 = Inr b2"
    using u64v.put_total [of "setValues e" b1] assms by (auto simp: fits_vec_def encodable_def)
  obtain b3 where b3: "put_vec (put_enum attr_code) (attrName e) b2 = Inr b3"
    using attrv.put_total [of "attrName e" b2] assms by (auto simp: fits_vec_def encodable_def)
  obtain b4 where b4: "put_vec (put_enum valueop_code) (valueOp e) b3 = Inr b4"
    using valueopv.put_total [of "valueOp e" b3] assms by (auto simp: fits_vec_def encodable_def)
  have "\<exists>p. any_serialize_out (EvCommReq e) [] = Inr p"
    using b1 b2 b3 b4 by (simp add: CommReqEvent_serialize_out_def put_u64_def)
  then obtain p where p: "any_serialize_out (EvCommReq e) [] = Inr p" by blast
  show ?thesis
    unfolding server_allocReqEvent_def
    by (rule wrap_event [OF p]) (use assms in \<open>simp_all add: any_type_def encodable_def\<close>)
qed

lemma serve_row:
  assumes "server_row e c row"
  shows "\<exists>c'. serve n src dest e c = Inr (get_answer e (map fst row) (map snd row), c') \<and> length row = length (attrName e)"
proof -
  from assms obtain ob obs x xs err w where e: "encodable e" "op e = OpGet" "attrName e \<noteq> []"
    and cm: "sv_commMap (user c) (commID e) = Some (Some ob # obs)" and x: "client_obj ob c = Inr x" "all_local x (attrName e)"
    and rd: "read_attrs (d_obj x) (attrName e) (world (cx c)) = Inr ((xs, err), w)"
    and row: "row = row_of (length (attrName e)) xs"
    by (auto simp: server_row_def)
  from encodable_sent [OF e(1)] obtain re where re: "new_RouterEvent src dest (EvCommReq e) = Inr re"
    "getPayload server_allocReqEvent re = Inr (EvCommReq e, [])" by blast
  from e(1) have "length (attrName e) < 2 ^ 32" by (simp add: encodable_def)
  from serve_read [OF re(2) e(2,3) this cm x rd, of n] obtain c' ev where
    "RouterData_process n (Some (EvRouter re)) c = Inr (False, c')" "sv_out (user c') = sv_out (user c) @ [ev]"
    "getPayload router_allocServerEvent ev = Inr (EvCommResp (get_answer e (map fst row) (map snd row)), [])"
    by (auto simp: row)
  with re(1) read_attrs_length [OF rd] show ?thesis by (simp add: serve_def row)
qed

interpretation provider: attr_provider "serve n src dest" server_row for n src dest
proof
  show "\<exists>r s'. serve n src dest e s = Inr (r, s')" if "server_row e s row" for e s row
    using serve_row [OF that, of n src dest] by blast
  show "answers (ev_id e) (length (attrName e)) r \<and> r_value r = [map fst row] \<and> r_timeStamp r = [map snd row] \<and> r_errValue r = []"
    if "server_row e s row" "serve n src dest e s = Inr (r, s')" for e s row r s'
    using serve_row [OF that(1), of n src dest] that(2) by (auto simp: get_answer_def answers_def)
qed

section \<open>Properties\<close>

definition demo_server :: "dummy_state sclient" where
  "demo_server =
     \<lparr>cx = demo_cntxt\<lparr>world := demo_dummy\<lparr>ticks := 0\<rparr>, c_objs := [Some \<lparr>d_obj = demo_object, d_comm = None\<rparr>]\<rparr>,
      m_evChan = False, vmem = [], tmem = [], stats = [], reqs = [], creqs = [], ec_in = [], ec_out = [], cjunk = 9,
      user = \<lparr>sv_commMap = [7 \<mapsto> [Some 0]], sv_finiMap = Map.empty, sv_keys = [], sv_rtr = [], sv_out = []\<rparr>\<rparr>"

definition demo_request :: CommReqEvent where
  "demo_request =
     \<lparr>ev_type = type_word CommReq, ev_id = 1, ev_status = 0, commID = 7, op = OpGet, grpIndex = 0,
      attrName = [PWR_ATTR_POWER, PWR_ATTR_TEMP], setValues = [], valueOp = [FP_ADD, NO_OP]\<rparr>"

lemma demo_served:
  "sv_commMap (user demo_server) 7 = Some (Some 0 # [])"
  "client_obj 0 demo_server = Inr \<lparr>d_obj = demo_object, d_comm = None\<rparr>"
  "all_local \<lparr>d_obj = demo_object, d_comm = None\<rparr> [PWR_ATTR_POWER, PWR_ATTR_TEMP]"
  "read_attrs demo_object [PWR_ATTR_POWER, PWR_ATTR_TEMP] (world (cx demo_server)) =
     Inr (([(5, 1000000000), (0, 0)], Some (PWR_ATTR_TEMP, PWR_RET_INVALID)), demo_dummy\<lparr>ticks := 2\<rparr>)"
  by (simp_all add: demo_server_def client_obj_def heap_get_def all_local_def demo_object_attrs demo_info_def
      new_AttrInfo_def demo_object_read numeral_2_eq_2)

text \<open>
  C2: A read request on one of the server's own objects is answered at once and exactly once: the answer
  goes back where the request came from, with the id and the group index of the request and the values and
  times of the object, zeros from the first attribute that failed on; and the server is left as it was,
  with the status, request, vectors and events it made for the request all deleted. The answer never
  carries an error, whether or not an attribute failed.
\<close>

theorem server_answers_get:
  assumes "getPayload server_allocReqEvent re = Inr (EvCommReq e, rest)"
    and "op e = OpGet" "attrName e \<noteq> []" "length (attrName e) < 2 ^ 32"
    and "sv_commMap (user c) (commID e) = Some (Some ob # obs)"
    and "client_obj ob c = Inr x" "all_local x (attrName e)"
    and "read_attrs (d_obj x) (attrName e) (world (cx c)) = Inr ((xs, err), w)"
  shows "\<exists>c' ev. RouterData_process n (Some (EvRouter re)) c = Inr (False, c') \<and>
    sv_out (user c') = sv_out (user c) @ [ev] \<and> rt_src ev = rt_dest re \<and> rt_dest ev = rt_src re \<and>
    getPayload router_allocServerEvent ev =
      Inr (EvCommResp (get_answer e (map fst (row_of (length (attrName e)) xs)) (map snd (row_of (length (attrName e)) xs))), []) \<and>
    cx c' = (cx c)\<lparr>world := w\<rparr> \<and>
    vmem c' = vmem c @ [None] \<and> tmem c' = tmem c @ [None] \<and> reqs c' = reqs c @ [None] \<and>
    stats c' = stats c @ [None, None] \<and> sv_rtr (user c') = sv_rtr (user c) @ [None] \<and>
    sv_keys (user c') = sv_keys (user c) @ [None] \<and>
    sv_finiMap (user c') = (sv_finiMap (user c))(length (sv_keys (user c)) := None) \<and>
    sv_commMap (user c') = sv_commMap (user c)"
  by (rule serve_read [OF assms])

theorem server_answers_get_witness:
  "\<exists>re c' ev b. getPayload server_allocReqEvent re = Inr (EvCommReq demo_request, []) \<and>
     RouterData_process 2 (Some (EvRouter re)) demo_server = Inr (False, c') \<and> sv_out (user c') = [ev] \<and>
     rt_dest ev = 3 \<and> getPayload router_allocServerEvent ev =
       Inr (EvCommResp (get_answer demo_request [5, 0] [1000000000, 0]), b)"
proof -
  have "encodable demo_request" by (simp add: encodable_def demo_request_def)
  from encodable_sent [OF this, of 3 4] obtain re where re: "rt_src re = 3"
    "getPayload server_allocReqEvent re = Inr (EvCommReq demo_request, [])" by blast
  have a: "attrName demo_request = [PWR_ATTR_POWER, PWR_ATTR_TEMP]" "commID demo_request = 7" "op demo_request = OpGet"
    by (simp_all add: demo_request_def)
  from server_answers_get [OF re(2), of demo_server 0 "[]" "\<lparr>d_obj = demo_object, d_comm = None\<rparr>" _ _ _ 2] demo_served a re(1)
  show ?thesis
    by (fastforce simp: demo_server_def row_of_def intro!: exI [of _ re] re(2))
qed

text \<open>
  C1: Reading remote attributes is reading the server's object: when the answer of the server to the
  request that the read sends comes back, the caller's row holds the values and times that the object of
  the server has for these attributes, zeros from the first that failed on, every other cell is as it
  was, exactly one request was sent (after the announcement of a new communicator), and the call returns
  success with the status untouched. That is so even if an attribute failed at the server.
\<close>

theorem remote_read_matches_server:
  assumes "client_obj self c = Inr x" "all_remote x cm names" "names \<noteq> []" "length names < 2 ^ 32"
    and "heap_get (vmem c) vb = Inr V" "vo + length names \<le> length V"
    and "heap_get (tmem c) tb = Inr T" "to + length names \<le> length T"
    and "heap_get (stats c) st = Inr []"
    and "heap_get (c_comms (cx c)) cm = Inr m" "m_evChan c" "Suc (length (creqs c)) < 2 ^ 64"
    and "sv_commMap (user s) (dc_commID m) = Some (Some ob # obs)"
    and "client_obj ob s = Inr y" "all_local y names"
    and "read_attrs (d_obj y) names (world (cx s)) = Inr ((xs, err), w)"
  shows "\<exists>r s' c'. serve k src dest (get_event m (creq_id (length (creqs c))) x names) s = Inr (r, s') \<and>
    dist_getValues n app self (int (length names)) names (Some (vb, vo)) (Some (tb, to)) st
      (c\<lparr>ec_in := EvCommResp r # rest\<rparr>) = Inr (PWR_RET_SUCCESS, c') \<and>
    heap_get (vmem c') vb = Inr (splice V vo (map fst (row_of (length names) xs))) \<and>
    heap_get (tmem c') tb = Inr (splice T to (map snd (row_of (length names) xs))) \<and>
    heap_get (stats c') st = Inr [] \<and>
    ec_out c' = ec_out c @ announce m @ [EvCommReq (get_event m (creq_id (length (creqs c))) x names)] \<and>
    ec_in c' = rest"
proof -
  let ?e = "get_event m (creq_id (length (creqs c))) x names"
  have row: "server_row ?e s (row_of (length names) xs)"
    using assms by (auto simp: server_row_def get_event_def encodable_def)
  then obtain r s' where r: "serve k src dest ?e s = Inr (r, s')" using provider.serve_total by blast
  let ?c = "c\<lparr>ec_in := EvCommResp r # rest\<rparr>"
  from provider.read_through [of self ?c x cm names vb V vo tb T to st "[]" m s _ k src dest r s' rest n app] row r assms
  show ?thesis by (simp add: client_obj_def)
qed

definition demo_client :: "(dummy_state, unit) client" where
  "demo_client =
     \<lparr>cx = demo_cntxt\<lparr>c_comms := [Some \<lparr>dc_commID = 7, dc_objects = [''plat.node0''], dc_ec = False\<rparr>],
        c_objs := [Some \<lparr>d_obj = \<lparr>m_name = ''plat'', m_objType = PWR_OBJ_PLATFORM, m_attrInfo =
          replicate 17 ((new_AttrInfo (Some sumOp) timeOp FP_ADD)\<lparr>ai_comm := Some 0\<rparr>), m_parent = None, m_children = None\<rparr>,
          d_comm = Some 0\<rparr>]\<rparr>,
      m_evChan = True, vmem = [Some [9, 9, 9]], tmem = [Some [8, 8, 8]], stats = [Some []], reqs = [], creqs = [],
      ec_in = [], ec_out = [], cjunk = 9, user = ()\<rparr>"

theorem remote_read_matches_server_witness:
  "\<exists>r s' c'. serve 2 3 4 (get_event \<lparr>dc_commID = 7, dc_objects = [''plat.node0''], dc_ec = False\<rparr> (creq_id 0)
       (the (c_objs (cx demo_client) ! 0)) [PWR_ATTR_POWER, PWR_ATTR_TEMP]) demo_server = Inr (r, s') \<and>
     dist_getValues 2 (\<lambda>_. Inr) 0 2 [PWR_ATTR_POWER, PWR_ATTR_TEMP] (Some (0, 1)) (Some (0, 1)) 0
       (demo_client\<lparr>ec_in := [EvCommResp r]\<rparr>) = Inr (PWR_RET_SUCCESS, c') \<and>
     heap_get (vmem c') 0 = Inr [9, 5, 0]"
proof -
  let ?x = "the (c_objs (cx demo_client) ! 0)" and ?m = "\<lparr>dc_commID = 7, dc_objects = [''plat.node0''], dc_ec = False\<rparr>"
  have c: "client_obj 0 demo_client = Inr ?x" "all_remote ?x 0 [PWR_ATTR_POWER, PWR_ATTR_TEMP]"
    "heap_get (vmem demo_client) 0 = Inr [9, 9, 9]" "heap_get (tmem demo_client) 0 = Inr [8, 8, 8]"
    "heap_get (stats demo_client) 0 = Inr []" "heap_get (c_comms (cx demo_client)) 0 = Inr ?m" "m_evChan demo_client"
    "length (creqs demo_client) = 0"
    by (simp_all add: demo_client_def client_obj_def heap_get_def all_remote_def getAttrInfo_def attr_index_def new_AttrInfo_def)
  let ?n = "[PWR_ATTR_POWER, PWR_ATTR_TEMP]"
  from demo_served(4) have rd: "read_attrs (d_obj \<lparr>d_obj = demo_object, d_comm = None\<rparr>) ?n (world (cx demo_server)) =
      Inr (([(5, 1000000000), (0, 0)], Some (PWR_ATTR_TEMP, PWR_RET_INVALID)), demo_dummy\<lparr>ticks := 2\<rparr>)" by simp
  have cm: "sv_commMap (user demo_server) (dc_commID ?m) = Some (Some 0 # [])" using demo_served(1) by simp
  have b: "?n \<noteq> []" "length ?n < 2 ^ 32" "1 + length ?n \<le> length [9 :: u64, 9, 9]" "1 + length ?n \<le> length [8 :: u64, 8, 8]"
    "Suc (length (creqs demo_client)) < 2 ^ 64" using c(8) by simp_all
  from remote_read_matches_server [OF c(1,2) b(1,2) c(3) b(3) c(4) b(4) c(5,6,7) b(5) cm demo_served(2,3) rd,
      of 2 3 4 2 "\<lambda>_. Inr" "[]"]
  obtain r s' c' where "serve 2 3 4 (get_event ?m (creq_id (length (creqs demo_client))) ?x ?n) demo_server = Inr (r, s')"
    "dist_getValues 2 (\<lambda>_. Inr) 0 (int (length ?n)) ?n (Some (0, 1)) (Some (0, 1)) 0
       (demo_client\<lparr>ec_in := [EvCommResp r]\<rparr>) = Inr (PWR_RET_SUCCESS, c')"
    "heap_get (vmem c') 0 = Inr (splice [9, 9, 9] 1 (map fst (row_of (length ?n) [(5, 1000000000), (0, 0)])))"
    by blast
  moreover have "splice [9, 9, 9] 1 (map fst (row_of (length ?n) [(5, 1000000000), (0, 0)])) = [9 :: u64, 5, 0]"
    "int (length ?n) = 2" by (simp_all add: row_of_def splice_def)
  ultimately show ?thesis unfolding c(8) by metis
qed

end
