(* ===== verification/Stat.thy ===== *)
theory Stat
  imports Dist PluginBase
begin

text \<open>
  Statistics over the samples of an attribute: \<^verbatim>\<open>Stat\<close> and \<^verbatim>\<open>DeviceStat\<close>
  (\<^verbatim>\<open>stat.h\<close>, \<^verbatim>\<open>deviceStat.cc\<close>) and the functions of \<^verbatim>\<open>Cntxt\<close> that make and
  delete them (\<^verbatim>\<open>cntxt.cc\<close>). The clock is an argument: \<open>tod\<close> reads it in the state of the world.
  A time is a signed integer of 64 bits, kept as its word; where C++ leaves a conversion or a signed sum undefined the
  result is a fault. The vector and the time of \<^verbatim>\<open>objGetValue\<close> are blocks of the heap
  during the call, and the records of times are passed and returned.
\<close>

section \<open>The operations on samples\<close>

definition opAvg :: "u64 list \<Rightarrow> (u64 \<times> int) res" where
  "opAvg data = Inr (fdiv (foldl fadd 0 data) (f_of_int (int (length data))), -1)"

text \<open>
  The loop of \<^verbatim>\<open>opMin\<close> and \<^verbatim>\<open>opMax\<close>: \<open>better\<close> compares the next
  element with the result so far. The position is converted from an unsigned index.
\<close>

fun op_loop :: "(u64 \<Rightarrow> u64 \<Rightarrow> bool) \<Rightarrow> u64 list \<Rightarrow> nat \<Rightarrow> u64 \<times> int \<Rightarrow> u64 \<times> int" where
  "op_loop better [] i rp = rp"
| "op_loop better (x # xs) i (r, p) =
     op_loop better xs (Suc i) (if better x r then (x, sint (of_nat i :: u32)) else (r, p))"

definition opMin :: "u64 list \<Rightarrow> (u64 \<times> int) res" where
  "opMin data = rbind (aread data 0) (\<lambda>x. Inr (op_loop (\<lambda>x r. flt x r) (tl data) 1 (x, 0)))"

definition opMax :: "u64 list \<Rightarrow> (u64 \<times> int) res" where
  "opMax data = rbind (aread data 0) (\<lambda>x. Inr (op_loop (\<lambda>x r. flt r x) (tl data) 1 (x, 0)))"

type_synonym OpFunc = "u64 list \<Rightarrow> (u64 \<times> int) res"

definition getOp :: "string \<Rightarrow> OpFunc option" where
  "getOp nm =
     (if nm = ''Avg'' then Some opAvg else if nm = ''Min'' then Some opMin
      else if nm = ''Max'' then Some opMax else None)"

section \<open>The frequency of an attribute\<close>

text \<open>
  \<^verbatim>\<open>strtof\<close> of a decimal number: the nearest number with a significand of 24 bits, as
  the double of the same value. As in \<open>atof\<close>, hexadecimal numbers, infinities and NaNs are not read.
\<close>

definition fround_float :: "bool \<Rightarrow> nat \<Rightarrow> int \<Rightarrow> u64" where
  "fround_float s m e =
     (if m = 0 then pack s 0
      else
        (let sh = max (int (bitlen m) - 24) (- 149 - e);
             q = (if sh \<le> 0 then m * 2 ^ nat (- sh) else rshift_even m (nat sh))
         in if 128 < int (bitlen q) + e + sh then pack s (2047 * 2 ^ 52)
            else fround s q (e + sh)))"

definition dec_float :: "bool \<Rightarrow> nat \<Rightarrow> int \<Rightarrow> u64" where
  "dec_float s m k =
     (if 0 \<le> k then fround_float s (m * 10 ^ nat k) 0
      else
        (let d = 10 ^ nat (- k); j = 64 + bitlen d; q = (m * 2 ^ j) div d;
             sticky = (if (m * 2 ^ j) mod d = 0 then 0 else 1)
         in fround_float s (2 * q + sticky) (- int j - 1)))"

definition strtof :: "string \<Rightarrow> u64" where
  "strtof str =
     (let t = dropWhile is_space str;
          s = (t \<noteq> [] \<and> hd t = CHR ''-'');
          u = (if t \<noteq> [] \<and> (hd t = CHR ''-'' \<or> hd t = CHR ''+'') then tl t else t);
          ip = takeWhile is_digit u; v = dropWhile is_digit u;
          fp = (if v \<noteq> [] \<and> hd v = CHR ''.'' then takeWhile is_digit (tl v) else []);
          w = (if v \<noteq> [] \<and> hd v = CHR ''.'' then dropWhile is_digit (tl v) else v)
      in if ip = [] \<and> fp = [] then 0
         else dec_float s (digits_val (ip @ fp)) (atof_exp w - int (length fp)))"

definition findHz :: "string \<Rightarrow> PWR_AttrName \<Rightarrow> 's cntxt \<Rightarrow> u64 res" where
  "findHz nm attr c =
     rbind (ask_findAttrHz (m_config c) nm attr) (\<lambda>tmp.
     Inr (if tmp = [] then 0
          else (let hz = strtof (cstr tmp) in if feq hz 0 then 0 else hz)))"

section \<open>A statistic\<close>

record PWR_TimePeriod =
  tp_start :: u64
  tp_stop :: u64
  tp_instant :: u64

abbreviation PWR_TIME_UNINIT :: u64 where "PWR_TIME_UNINIT \<equiv> 0"

record Stat =
  st_obj :: "addr option"
  st_grp :: "addr option"
  st_attr :: PWR_AttrName
  st_op :: OpFunc
  st_period :: u64
  st_startTime :: u64
  st_stopTime :: u64
  st_isLogging :: bool

definition new_Stat :: "addr option \<Rightarrow> addr option \<Rightarrow> PWR_AttrName \<Rightarrow> OpFunc \<Rightarrow> u64 \<Rightarrow> Stat" where
  "new_Stat ob g attr f hz =
     \<lparr>st_obj = ob, st_grp = g, st_attr = attr, st_op = f, st_period = fdiv (f_of_int 1) hz,
      st_startTime = PWR_TIME_UNINIT, st_stopTime = PWR_TIME_UNINIT, st_isLogging = False\<rparr>"

text \<open>
  The checks of the two constructors: an object with children, or without exactly one source of the attribute, is
  refused (\<open>False\<close>: an \<^verbatim>\<open>int\<close> is thrown and caught by \<^verbatim>\<open>createStat\<close>).
\<close>

definition is_leaf :: "nat \<Rightarrow> addr \<Rightarrow> 's cntxt \<Rightarrow> (bool \<times> 's cntxt) res" where
  "is_leaf n ob c =
     rbind (obj_children n ob c) (\<lambda>(g, c). rbind (any_size g c) (\<lambda>k. Inr (k = 0, c)))"

definition stat_obj_ok :: "nat \<Rightarrow> addr \<Rightarrow> PWR_AttrName \<Rightarrow> 's cntxt \<Rightarrow> (bool \<times> 's cntxt) res" where
  "stat_obj_ok n ob attr c =
     rbind (is_leaf n ob c) (\<lambda>(leaf, c).
     if \<not> leaf then Inr (False, c)
     else
       rbind (heap_get (c_objs c) ob) (\<lambda>x.
       rbind (getAttrInfo (d_obj x) attr) (\<lambda>info.
       let k = length (ai_devices info); cm = (ai_comm info \<noteq> None) in
       Inr (\<not> ((k = 0 \<and> \<not> cm) \<or> (0 < k \<and> cm) \<or> (1 < k \<and> \<not> cm)), c))))"

fun stat_grp_ok :: "nat \<Rightarrow> addr \<Rightarrow> PWR_AttrName \<Rightarrow> nat \<Rightarrow> nat \<Rightarrow> 's cntxt \<Rightarrow> (bool \<times> 's cntxt) res" where
  "stat_grp_ok n g attr 0 i c = Inr (True, c)"
| "stat_grp_ok n g attr (Suc k) i c =
     rbind (any_getObj g i c) (\<lambda>ob.
     rbind (is_leaf n ob c) (\<lambda>(leaf, c).
     if \<not> leaf then Inr (False, c)
     else
       rbind (heap_get (c_objs c) ob) (\<lambda>x.
       rbind (getAttrInfo (d_obj x) attr) (\<lambda>info.
       if length (ai_devices info) \<noteq> 1 then Inr (False, c)
       else stat_grp_ok n g attr k (Suc i) c))))"

definition obj_createStat ::
    "nat \<Rightarrow> addr \<Rightarrow> PWR_AttrName \<Rightarrow> PWR_AttrStat \<Rightarrow> 's cntxt \<Rightarrow> (Stat option \<times> 's cntxt) res" where
  "obj_createStat n ob attr stat c =
     (case getOp (attrStatToString stat) of
        None \<Rightarrow> Inr (None, c)
      | Some f \<Rightarrow>
          rbind (obj_name ob c) (\<lambda>nm.
          rbind (findHz nm attr c) (\<lambda>hz.
          if feq 0 hz then Inr (None, c)
          else
            rbind (stat_obj_ok n ob attr c) (\<lambda>(ok, c).
            Inr (if ok then Some (new_Stat (Some ob) None attr f hz) else None, c)))))"

text \<open>All the members of a group have the frequency of the first.\<close>

fun same_hz :: "addr \<Rightarrow> PWR_AttrName \<Rightarrow> u64 \<Rightarrow> nat \<Rightarrow> nat \<Rightarrow> 's cntxt \<Rightarrow> bool res" where
  "same_hz g attr hz 0 i c = Inr True"
| "same_hz g attr hz (Suc k) i c =
     rbind (any_getObj g i c) (\<lambda>ob.
     rbind (obj_name ob c) (\<lambda>nm.
     rbind (findHz nm attr c) (\<lambda>h. if \<not> feq h hz then Inr False else same_hz g attr hz k (Suc i) c)))"

definition grp_createStat ::
    "nat \<Rightarrow> addr \<Rightarrow> PWR_AttrName \<Rightarrow> PWR_AttrStat \<Rightarrow> 's cntxt \<Rightarrow> (Stat option \<times> 's cntxt) res" where
  "grp_createStat n g attr stat c =
     (case getOp (attrStatToString stat) of
        None \<Rightarrow> Inr (None, c)
      | Some f \<Rightarrow>
          rbind (any_getObj g 0 c) (\<lambda>ob.
          rbind (obj_name ob c) (\<lambda>nm.
          rbind (findHz nm attr c) (\<lambda>hz.
          if feq 0 hz then Inr (None, c)
          else
            rbind (any_size g c) (\<lambda>k.
            rbind (same_hz g attr hz (k - 1) 1 c) (\<lambda>same.
            if \<not> same then Inr (None, c)
            else
              rbind (stat_grp_ok n g attr k 0 c) (\<lambda>(ok, c).
              Inr (if ok then Some (new_Stat None (Some g) attr f hz) else None, c))))))))"

section \<open>Logging\<close>

definition stat_time :: "('s \<Rightarrow> (u64 \<times> u64) \<times> 's) \<Rightarrow> ('s, 'u) client \<Rightarrow> u64 \<times> ('s, 'u) client" where
  "stat_time tod c = (case tod (world (cx c)) of (tv, w) \<Rightarrow> (tv_nsec tv, set_world w c))"

text \<open>The members of a group, up to the first that fails.\<close>

fun grp_log :: "(addr \<Rightarrow> ('s, 'u) client \<Rightarrow> (int \<times> ('s, 'u) client) res) \<Rightarrow> addr \<Rightarrow> nat \<Rightarrow> nat \<Rightarrow> ('s, 'u) client \<Rightarrow>
    (int \<times> ('s, 'u) client) res" where
  "grp_log f g 0 i c = Inr (PWR_RET_SUCCESS, c)"
| "grp_log f g (Suc k) i c =
     rbind (any_getObj g i (cx c)) (\<lambda>ob.
     rbind (f ob c) (\<lambda>(r, c).
     if r \<noteq> PWR_RET_SUCCESS then Inr (r, c) else grp_log f g k (Suc i) c))"

definition stat_log ::
    "(addr \<Rightarrow> ('s, 'u) client \<Rightarrow> (int \<times> ('s, 'u) client) res) \<Rightarrow> Stat \<Rightarrow> ('s, 'u) client \<Rightarrow>
     (int \<times> ('s, 'u) client) res" where
  "stat_log f st c =
     (case st_obj st of
        Some ob \<Rightarrow> f ob c
      | None \<Rightarrow>
          rbind (deref (st_grp st)) (\<lambda>g.
          rbind (any_size g (cx c)) (\<lambda>k. grp_log f g k 0 c)))"

definition stat_start ::
    "('s \<Rightarrow> (u64 \<times> u64) \<times> 's) \<Rightarrow> nat \<Rightarrow> ('s, 'u) app \<Rightarrow> Stat \<Rightarrow> ('s, 'u) client \<Rightarrow> (int \<times> Stat \<times> ('s, 'u) client) res" where
  "stat_start tod n app st c =
     (case stat_time tod c of (t, c) \<Rightarrow>
      let st = st\<lparr>st_isLogging := True, st_startTime := t, st_period := fdiv (f_of_int 1) (f_of_int 10)\<rparr> in
      rbind (stat_log (\<lambda>ob. dist_startLog n app ob (st_attr st)) st c) (\<lambda>(r, c). Inr (r, st, c)))"

definition stat_stop ::
    "('s \<Rightarrow> (u64 \<times> u64) \<times> 's) \<Rightarrow> nat \<Rightarrow> ('s, 'u) app \<Rightarrow> Stat \<Rightarrow> ('s, 'u) client \<Rightarrow> (int \<times> Stat \<times> ('s, 'u) client) res" where
  "stat_stop tod n app st c =
     (case stat_time tod c of (t, c) \<Rightarrow>
      let st = st\<lparr>st_isLogging := False, st_stopTime := t\<rparr> in
      rbind (stat_log (\<lambda>ob. dist_stopLog n app ob (st_attr st)) st c) (\<lambda>(r, c). Inr (r, st, c)))"

definition stat_clear ::
    "('s \<Rightarrow> (u64 \<times> u64) \<times> 's) \<Rightarrow> Stat \<Rightarrow> ('s, 'u) client \<Rightarrow> int \<times> Stat \<times> ('s, 'u) client" where
  "stat_clear tod st c =
     (case stat_time tod c of (t, c) \<Rightarrow> (PWR_RET_SUCCESS, st\<lparr>st_startTime := t\<rparr>, c))"

text \<open>\<^verbatim>\<open>destroyStat\<close> and the destructor: a log that is still on is stopped.\<close>

definition destroyStat ::
    "('s \<Rightarrow> (u64 \<times> u64) \<times> 's) \<Rightarrow> nat \<Rightarrow> ('s, 'u) app \<Rightarrow> Stat \<Rightarrow> ('s, 'u) client \<Rightarrow> (int \<times> ('s, 'u) client) res" where
  "destroyStat tod n app st c =
     (if st_isLogging st then rbind (stat_stop tod n app st c) (\<lambda>(_, _, c). Inr (PWR_RET_SUCCESS, c))
      else Inr (PWR_RET_SUCCESS, c))"

section \<open>The value of a statistic\<close>

definition window_time :: "PWR_TimePeriod \<Rightarrow> u64 res" where
  "window_time tp =
     (let d = sint (tp_stop tp) - sint (tp_start tp) in
      if - (2 ^ 63) \<le> d \<and> d < 2 ^ 63 then Inr (fdiv (f_of_int d) (f_of_int 1000000000)) else Inl Unspecified)"

definition time_after :: "u64 \<Rightarrow> int \<Rightarrow> u64 \<Rightarrow> u64 res" where
  "time_after t k period =
     f_to_i64 (fadd (f_of_int (sint t)) (fmul (fmul (f_of_int k) period) (f_of_int 1000000000)))"

definition set_window ::
    "('s \<Rightarrow> (u64 \<times> u64) \<times> 's) \<Rightarrow> Stat \<Rightarrow> PWR_TimePeriod \<Rightarrow> ('s, 'u) client \<Rightarrow> PWR_TimePeriod \<times> ('s, 'u) client" where
  "set_window tod st tp c =
     (let tp = (if tp_start tp = PWR_TIME_UNINIT then tp\<lparr>tp_start := st_startTime st\<rparr> else tp) in
      if tp_stop tp = PWR_TIME_UNINIT then
        if st_isLogging st then (case stat_time tod c of (t, c) \<Rightarrow> (tp\<lparr>tp_stop := t\<rparr>, c))
        else (tp\<lparr>tp_stop := st_stopTime st\<rparr>, c)
      else (tp, c))"

definition objGetValue ::
    "('s \<Rightarrow> (u64 \<times> u64) \<times> 's) \<Rightarrow> nat \<Rightarrow> ('s, 'u) app \<Rightarrow> Stat \<Rightarrow> addr option \<Rightarrow> PWR_TimePeriod \<Rightarrow> ('s, 'u) client \<Rightarrow>
     ((int \<times> u64 \<times> PWR_TimePeriod) \<times> ('s, 'u) client) res" where
  "objGetValue tod n app st obj tp c =
     (case set_window tod st tp c of (tp, c) \<Rightarrow>
      rbind (window_time tp) (\<lambda>win.
      rbind (f_to_u32 (fdiv win (st_period st))) (\<lambda>nSamples.
      let vb = length (vmem c); tb = length (tmem c);
          c = c\<lparr>vmem := vmem c @ [Some (replicate (unat nSamples) fzero)], tmem := tmem c @ [Some [cjunk c]]\<rparr> in
      rbind (deref obj) (\<lambda>ob.
      rbind (dist_getSamples n app ob (st_attr st) (Some (tb, 0)) (st_period st) nSamples (Some (vb, 0)) c)
        (\<lambda>(r, c).
      rbind (heap_get (vmem c) vb) (\<lambda>values.
      rbind (tblock (Some (tb, 0)) c) (\<lambda>ts.
      rbind (aread ts 0) (\<lambda>timeStamp.
      rbind (time_after timeStamp (uint nSamples) (st_period st)) (\<lambda>stop.
      rbind (st_op st values) (\<lambda>(v, pos).
      rbind (if - 1 < pos then time_after timeStamp pos (st_period st) else Inr PWR_TIME_UNINIT) (\<lambda>inst.
      rbind (heap_free vb (vmem c)) (\<lambda>vm.
      rbind (heap_free tb (tmem c)) (\<lambda>tm.
      Inr ((r, v, \<lparr>tp_start = timeStamp, tp_stop = stop, tp_instant = inst\<rparr>),
           c\<lparr>vmem := vm, tmem := tm\<rparr>))))))))))))))"

definition stat_getValue ::
    "('s \<Rightarrow> (u64 \<times> u64) \<times> 's) \<Rightarrow> nat \<Rightarrow> ('s, 'u) app \<Rightarrow> Stat \<Rightarrow> PWR_TimePeriod \<Rightarrow> ('s, 'u) client \<Rightarrow>
     ((int \<times> u64 \<times> PWR_TimePeriod) \<times> ('s, 'u) client) res" where
  "stat_getValue tod n app st tp c = objGetValue tod n app st (st_obj st) tp c"

fun stat_values_loop ::
    "('s \<Rightarrow> (u64 \<times> u64) \<times> 's) \<Rightarrow> nat \<Rightarrow> ('s, 'u) app \<Rightarrow> Stat \<Rightarrow> addr \<Rightarrow> nat \<Rightarrow> nat \<Rightarrow> u64 list \<Rightarrow> PWR_TimePeriod list \<Rightarrow>
     ('s, 'u) client \<Rightarrow> ((int \<times> u64 list \<times> PWR_TimePeriod list) \<times> ('s, 'u) client) res" where
  "stat_values_loop tod n app st g 0 i vs tps c = Inr ((PWR_RET_SUCCESS, vs, tps), c)"
| "stat_values_loop tod n app st g (Suc k) i vs tps c =
     rbind (any_getObj g i (cx c)) (\<lambda>ob.
     rbind (aread tps i) (\<lambda>tp.
     rbind (objGetValue tod n app st (Some ob) tp c) (\<lambda>((r, v, tp), c).
     rbind (awrite vs i v) (\<lambda>vs.
     rbind (awrite tps i tp) (\<lambda>tps.
     if r \<noteq> PWR_RET_SUCCESS then Inr ((r, vs, tps), c)
     else stat_values_loop tod n app st g k (Suc i) vs tps c)))))"

definition stat_getValues ::
    "('s \<Rightarrow> (u64 \<times> u64) \<times> 's) \<Rightarrow> nat \<Rightarrow> ('s, 'u) app \<Rightarrow> Stat \<Rightarrow> u64 list \<Rightarrow> PWR_TimePeriod list \<Rightarrow>
     ('s, 'u) client \<Rightarrow> ((int \<times> u64 list \<times> PWR_TimePeriod list) \<times> ('s, 'u) client) res" where
  "stat_getValues tod n app st vs tps c =
     rbind (deref (st_grp st)) (\<lambda>g.
     rbind (any_size g (cx c)) (\<lambda>k. stat_values_loop tod n app st g k 0 vs tps c))"

end
