(* ===== verification/StatProps.thy ===== *)
theory StatProps
  imports Stat DistProps
begin

text \<open>
  What a statistic returns: the operations on the samples find an extreme element and its first position, and the value of
  a statistic of a local attribute is that of the samples of its device.
\<close>

section \<open>Extreme elements\<close>

lemma dval_flt:
  assumes a: "dval a = Some x" and b: "dval b = Some y"
  shows "flt a b \<longleftrightarrow> x < y"
proof -
  from a obtain s1 m1 e1 where da: "decode a = FFin s1 m1 e1" and x: "x = sg s1 * real m1 * 2 powi e1"
    by (rule dval_SomeE)
  from b obtain s2 m2 e2 where db: "decode b = FFin s2 m2 e2" and y: "y = sg s2 * real m2 * 2 powi e2"
    by (rule dval_SomeE)
  define e where "e = min e1 e2"
  have "x = real_of_int (signed_mant s1 m1 e1 e) * 2 powi e" "y = real_of_int (signed_mant s2 m2 e2 e) * 2 powi e"
    unfolding x y by (simp_all add: signed_mant_val e_def)
  then show ?thesis by (simp add: flt_def da db Let_def flip: e_def)
qed

definition extreme :: "('a \<Rightarrow> real) \<Rightarrow> 'a list \<Rightarrow> nat \<Rightarrow> bool" where
  "extreme val data p \<longleftrightarrow> p < length data \<and> (\<forall>j<length data. val (data ! p) \<le> val (data ! j)) \<and>
     (\<forall>j<p. val (data ! p) < val (data ! j))"

lemma extreme_snoc:
  assumes "extreme val data p"
  shows "extreme val (data @ [x]) (if val x < val (data ! p) then length data else p)"
  using assms by (auto simp: extreme_def nth_append less_Suc_eq intro: less_le_trans)

lemma sint_of_nat_u32: "n < 2 ^ 31 \<Longrightarrow> sint (of_nat n :: u32) = int n"
  by (simp add: sint_uint unat_of_nat uint_nat signed_take_bit_int_eq_self take_bit_nat_eq_self)

lemma op_loop_extreme:
  assumes "\<And>x r. x \<in> set (data @ xs) \<Longrightarrow> r \<in> set (data @ xs) \<Longrightarrow> better x r \<longleftrightarrow> val x < val r"
    and "length (data @ xs) < 2 ^ 31" and "extreme val data p"
  shows "\<exists>q. op_loop better xs (length data) (data ! p, int p) = ((data @ xs) ! q, int q) \<and> extreme val (data @ xs) q"
  using assms
proof (induction xs arbitrary: data p)
  case Nil
  then show ?case by auto
next
  case (Cons x xs)
  let ?p = "if val x < val (data ! p) then length data else p"
  have p: "p < length data" using Cons.prems(3) by (simp add: extreme_def)
  have s: "sint (of_nat (length data) :: u32) = int (length data)"
    using Cons.prems(2) by (simp add: sint_of_nat_u32)
  have b: "better x (data ! p) \<longleftrightarrow> val x < val (data ! p)" using Cons.prems(1) p by simp
  have "(if better x (data ! p) then (x, sint (of_nat (length data) :: u32)) else (data ! p, int p)) =
      ((data @ [x]) ! ?p, int ?p)"
    using p s b by (simp add: nth_append)
  moreover have "extreme val (data @ [x]) ?p" by (rule extreme_snoc [OF Cons.prems(3)])
  ultimately show ?case
    using Cons.IH [of "data @ [x]" ?p] Cons.prems(1,2) by simp
qed


definition value_of :: "u64 \<Rightarrow> real" where
  "value_of w = the (dval w)"

lemma extreme_single: "extreme val [x] 0"
  by (simp add: extreme_def)

lemma flt_value_of: "dval a \<noteq> None \<Longrightarrow> dval b \<noteq> None \<Longrightarrow> flt a b \<longleftrightarrow> value_of a < value_of b"
  by (auto simp: value_of_def dval_flt)

lemma opMin_extreme:
  assumes "data \<noteq> []" "length data < 2 ^ 31" "\<forall>x \<in> set data. dval x \<noteq> None"
  shows "\<exists>p. opMin data = Inr (data ! p, int p) \<and> extreme value_of data p"
proof -
  obtain x xs where d: "data = x # xs" using assms(1) by (cases data) auto
  have "flt a r \<longleftrightarrow> value_of a < value_of r" if "a \<in> set ([x] @ xs)" "r \<in> set ([x] @ xs)" for a r
    using that assms(3) d by (subst flt_value_of) auto
  from op_loop_extreme [of "[x]" xs "\<lambda>x r. flt x r", OF this _ extreme_single] assms(2) d
  show ?thesis by (simp add: opMin_def)
qed

lemma opMax_extreme:
  assumes "data \<noteq> []" "length data < 2 ^ 31" "\<forall>x \<in> set data. dval x \<noteq> None"
  shows "\<exists>p. opMax data = Inr (data ! p, int p) \<and> extreme (\<lambda>w. - value_of w) data p"
proof -
  obtain x xs where d: "data = x # xs" using assms(1) by (cases data) auto
  have "flt r a \<longleftrightarrow> - value_of a < - value_of r" if "a \<in> set ([x] @ xs)" "r \<in> set ([x] @ xs)" for a r
    using that assms(3) d by (subst flt_value_of) auto
  from op_loop_extreme [of "[x]" xs "\<lambda>x r. flt r x", OF this _ extreme_single] assms(2) d
  show ?thesis by (simp add: opMax_def)
qed

section \<open>Samples of a local attribute\<close>

lemma add_samples_zero:
  "length data = k \<Longrightarrow> add_samples data (length pre) (pre @ replicate k 0) = Inr (pre @ data)"
proof (induction data arbitrary: k pre)
  case (Cons x data)
  then show ?case using Cons.IH [of "k - 1" "pre @ [x]"] by (cases k) (auto simp: nth_append list_update_append)
qed simp

lemma add_samples_fresh: "length data = k \<Longrightarrow> add_samples data 0 (replicate k 0) = Inr data"
  using add_samples_zero [of data k "[]"] by simp

lemma local_samples:
  assumes x: "client_obj ob c = Inr x" and i: "getAttrInfo (d_obj x) attr = Inr i" "ai_comm i = None" "ai_devices i = [d]"
    and dev: "device_getSamples d attr 0 period k (replicate (unat k) 0) (world (cx c)) =
      Inr ((PWR_RET_SUCCESS, t0, k', data), w)" and len: "length data = unat k"
    and V: "heap_get (vmem c) vb = Inr (replicate (unat k) 0)" and T: "heap_get (tmem c) tb = Inr [j]"
  shows "\<exists>c'. dist_getSamples n app ob attr (Some (tb, 0)) period k (Some (vb, 0)) c = Inr (PWR_RET_SUCCESS, c') \<and>
    quiet c c' \<and> cx c' = (cx c)\<lparr>world := w\<rparr> \<and> vmem c' = (vmem c)[vb := Some data] \<and> tmem c' = (tmem c)[tb := Some [t0]] \<and>
    stats c' = stats c @ [None]"
proof -
  have v: "attr_isValid i" using i by (simp add: attr_isValid_def)
  have g: "attrGetSamples (d_obj x) attr 0 period k (replicate (unat k) 0) (world (cx c)) =
      Inr ((PWR_RET_SUCCESS, t0, data), w)"
    using i v dev len by (simp add: attrGetSamples_def assert_c_def add_samples_fresh)
  from V T have l: "vb < length (vmem c)" "tb < length (tmem c)" by (simp_all add: heap_get_eq_Inr)
  show ?thesis
    using x i g V T l
    by (cases "ec_in c")
      (simp_all add: dist_getSamples_def with_status_def new_Status_def with_request_def new_DistRequest_def
        dist_getSamples_req_def base_getSamples_def client_obj_def vblock_def set_vblock_def set_world_def twrite_def
        finish_now_def req_finished_def execCallback_def heap_get_new wait_ignored_def req_wait_def req_delete_def
        delete_Status_def heap_free_live quiet_def)
qed

section \<open>The value of a statistic\<close>

text \<open>
  C7: The minimum or maximum of a local attribute with one device is an extreme element among the samples the
  device returns, and none before it equals it. It is asked for the integral part of the quotient of the doubles of the window and of the period, which
  can be one less than the periods that fit. The period returned starts at the device's time, and its instant is the time of that element; the buffers, the
  request and the status made for it are gone at the end and no event is sent or taken.
\<close>

theorem stat_extreme_sample:
  assumes "st_obj st = Some ob" "client_obj ob c = Inr x" "getAttrInfo (d_obj x) (st_attr st) = Inr i" "ai_comm i = None"
    and "ai_devices i = [d]" "st_op st = (if least then opMin else opMax)"
    and "set_window tod st tp c = (tp', c\<^sub>1)" "window_time tp' = Inr win" "f_to_u32 (fdiv win (st_period st)) = Inr k"
    and "device_getSamples d (st_attr st) 0 (st_period st) k (replicate (unat k) 0) (world (cx c\<^sub>1)) =
      Inr ((PWR_RET_SUCCESS, t0, k', data), w)"
    and "length data = unat k" "0 < k" "k < 2 ^ 31" "\<forall>v \<in> set data. dval v \<noteq> None"
  shows "\<exists>p c'. extreme (\<lambda>v. if least then value_of v else - value_of v) data p \<and>
    stat_getValue tod n app st tp c =
      rbind (time_after t0 (uint k) (st_period st)) (\<lambda>stop.
      rbind (time_after t0 (int p) (st_period st)) (\<lambda>inst.
      Inr ((PWR_RET_SUCCESS, data ! p, \<lparr>tp_start = t0, tp_stop = stop, tp_instant = inst\<rparr>), c'))) \<and>
    cx c' = (cx c\<^sub>1)\<lparr>world := w\<rparr> \<and> vmem c' = vmem c @ [None] \<and> tmem c' = tmem c @ [None] \<and>
    reqs c' = reqs c @ [None] \<and> stats c' = stats c @ [None] \<and> creqs c' = creqs c \<and> ec_in c' = ec_in c \<and> ec_out c' = ec_out c"
proof -
  have c1: "client_obj ob c\<^sub>1 = client_obj ob c" "vmem c\<^sub>1 = vmem c" "tmem c\<^sub>1 = tmem c" "ec_in c\<^sub>1 = ec_in c" "ec_out c\<^sub>1 = ec_out c"
    "reqs c\<^sub>1 = reqs c" "stats c\<^sub>1 = stats c" "creqs c\<^sub>1 = creqs c"
    using assms(7) by (auto simp: set_window_def stat_time_def set_world_def client_obj_def Let_def split: if_splits prod.splits)
  let ?c = "c\<^sub>1\<lparr>vmem := vmem c @ [Some (replicate (unat k) 0)], tmem := tmem c @ [Some [cjunk c\<^sub>1]]\<rparr>"
  have "client_obj ob ?c = Inr x" using assms(2) c1 by (simp add: client_obj_def)
  from local_samples [OF this assms(3-5) _ assms(11), of "st_period st" t0 k' w "length (vmem c)" "length (tmem c)"
      "cjunk c\<^sub>1" n app] assms(10)
  obtain c2 where s: "dist_getSamples n app ob (st_attr st) (Some (length (tmem c), 0)) (st_period st) k
      (Some (length (vmem c), 0)) ?c = Inr (PWR_RET_SUCCESS, c2)" and q: "quiet ?c c2" "cx c2 = (cx c\<^sub>1)\<lparr>world := w\<rparr>"
    "vmem c2 = vmem c @ [Some data]" "tmem c2 = tmem c @ [Some [t0]]" "stats c2 = stats c\<^sub>1 @ [None]"
    by (auto simp: heap_get_new)
  have "data \<noteq> []" using assms(11,12) by (auto simp: word_less_nat_alt)
  moreover have "length data < 2 ^ 31" using assms(11,13) by (simp add: word_less_nat_alt)
  ultimately obtain p where op: "st_op st data = Inr (data ! p, int p)"
      "extreme (\<lambda>v. if least then value_of v else - value_of v) data p"
    using opMin_extreme [of data] opMax_extreme [of data] assms(6,14) by (cases least) auto
  show ?thesis
    by (rule exI [of _ p], rule exI [of _ "c2\<lparr>vmem := vmem c @ [None], tmem := tmem c @ [None]\<rparr>"])
      (use assms(1,7,8,9) s q op c1 in \<open>simp add: stat_getValue_def objGetValue_def tblock_def heap_get_new heap_free_live
        quiet_def\<close>)
qed

definition demo_meter :: "dummy_state Device" where
  "demo_meter = \<lparr>d_ops = dummy_devOps (\<lambda>i. f_of_int (if i = 0 then 7 else 3)) 0, d_fd = 0\<rparr>"

definition demo_metered :: "dummy_state DistObject" where
  "demo_metered =
     \<lparr>d_obj = demo_object\<lparr>m_attrInfo := replicate 17 ((new_AttrInfo None (\<lambda>ts. aread ts 0) NO_OP)\<lparr>ai_devices := [demo_meter]\<rparr>)\<rparr>,
      d_comm = None\<rparr>"

definition demo_stat :: Stat where
  "demo_stat = (new_Stat (Some 0) None PWR_ATTR_POWER opMin (fdiv (f_of_int 1) (f_of_int 10)))\<lparr>
     st_startTime := 1000000000, st_stopTime := 1300000000, st_period := fdiv (f_of_int 1) (f_of_int 10)\<rparr>"

definition demo_sampler :: "(dummy_state, unit) client" where
  "demo_sampler = demo_local\<lparr>cx := (cx demo_local)\<lparr>c_objs := [Some demo_metered]\<rparr>\<rparr>"

definition no_period :: PWR_TimePeriod where
  "no_period = \<lparr>tp_start = 0, tp_stop = 0, tp_instant = 0\<rparr>"

lemma demo_period: "fdiv (f_of_int 1) (f_of_int 10) = 0x3FB999999999999A"
  by (simp add: double_eval)

lemma demo_window1: "f_of_int 300000000 = 0x41b1e1a300000000"
  by (simp add: double_eval)

lemma demo_window2: "fdiv 0x41b1e1a300000000 (f_of_int 1000000000) = 0x3fd3333333333333"
  by (simp add: double_eval)

lemma demo_window3: "fdiv 0x3fd3333333333333 0x3FB999999999999A = 0x4007ffffffffffff"
  by (simp add: double_eval)

lemma demo_window4: "f_trunc 0x4007ffffffffffff = Some 2"
  by (simp add: double_eval)

lemma demo_products:
  "fmul 0x4000000000000000 0x3FB999999999999A = 0x3fc999999999999a"
  "fmul 0x3fc999999999999a 0x41cdcd6500000000 = 0x41a7d78400000000"
  by (simp_all add: double_eval)

lemma demo_products1:
  "fmul 0x3ff0000000000000 0x3FB999999999999A = 0x3FB999999999999A"
  "fmul 0x3FB999999999999A 0x41cdcd6500000000 = 0x4197d78400000000"
  by (simp_all add: double_eval)

lemma demo_integers:
  "f_of_int 1000000000 = 0x41cdcd6500000000" "f_of_int 200000000 = 0x41a7d78400000000"
  "f_of_int 100000000 = 0x4197d78400000000" "f_of_int 2 = 0x4000000000000000" "f_of_int 1 = 0x3ff0000000000000"
  by (simp_all add: double_eval)

lemma demo_after:
  "fmul (fmul (f_of_int 2) 0x3FB999999999999A) (f_of_int 1000000000) = f_of_int 200000000"
  "fmul (fmul (f_of_int 1) 0x3FB999999999999A) (f_of_int 1000000000) = f_of_int 100000000"
  unfolding demo_integers demo_products demo_products1 by (rule refl)+

lemma dval_add_ints:
  assumes "\<bar>a\<bar> < 2 ^ 53" "\<bar>b\<bar> < 2 ^ 53" "\<bar>a + b\<bar> < 2 ^ 53"
  shows "dval (fadd (f_of_int a) (f_of_int b)) = Some (real_of_int (a + b))"
  using dval_fadd [OF dval_f_of_int dval_f_of_int, of a b] representable_int [of "a + b"] assms by simp

lemma f_trunc_add_ints:
  "\<bar>a\<bar> < 2 ^ 53 \<Longrightarrow> \<bar>b\<bar> < 2 ^ 53 \<Longrightarrow> \<bar>a + b\<bar> < 2 ^ 53 \<Longrightarrow>
   f_trunc (fadd (f_of_int a) (f_of_int b)) = Some (a + b)"
  by (rule f_trunc_dval [OF dval_add_ints])

lemma demo_times:
  "time_after 800000000 2 0x3FB999999999999A = Inr 1000000000" "time_after 800000000 1 0x3FB999999999999A = Inr 900000000"
  unfolding time_after_def demo_after by (simp_all add: f_to_i64_def f_trunc_add_ints)

lemma demo_neg: "fneg (f_of_int 200000000) = f_of_int (- 200000000)"
  by (simp add: fneg_def double_eval)

lemma demo_device_time: "f_to_i64 (fsub (fadd (f_of_int 1000000000) (f_of_int 0)) (f_of_int 200000000)) = Inr 800000000"
proof -
  have "dval (fadd (fadd (f_of_int 1000000000) (f_of_int 0)) (f_of_int (- 200000000))) = Some (real_of_int 800000000)"
    using dval_fadd [OF dval_add_ints dval_f_of_int, of 1000000000 0 "- 200000000"] representable_int [of 800000000] by simp
  from f_trunc_dval [OF this] show ?thesis by (simp add: fsub_def demo_neg f_to_i64_def)
qed

lemma demo_two_samples:
  "dummy_samples rnd 0 2 (replicate 2 0) = Inr [fadd (f_of_int 100) (rnd 0), fadd (f_of_int 100) (rnd (Suc 0))]"
  by (simp add: numeral_2_eq_2 awrite_def)

lemma demo_meter_samples:
  "device_getSamples demo_meter a 0 0x3FB999999999999A 2 (replicate (unat (2 :: u32)) 0) (demo_dummy\<lparr>ticks := 0\<rparr>) =
     Inr ((PWR_RET_SUCCESS, 800000000, 2, [fadd (f_of_int 100) (f_of_int 7), fadd (f_of_int 100) (f_of_int 3)]),
       demo_dummy\<lparr>ticks := 2\<rparr>)"
  using demo_device_time
  by (simp add: device_getSamples_def demo_meter_def dummy_devOps_def dummy_dev_get_samples_def gettimeofday_def
      demo_two_samples dummy_getTime_def demo_dummy_def demo_after)

lemma demo_sampler_facts:
  "client_obj 0 demo_sampler = Inr demo_metered" "world (cx demo_sampler) = demo_dummy\<lparr>ticks := 0\<rparr>"
  "getAttrInfo (d_obj demo_metered) PWR_ATTR_POWER = Inr ((new_AttrInfo None (\<lambda>ts. aread ts 0) NO_OP)\<lparr>ai_devices := [demo_meter]\<rparr>)"
  by (simp_all add: demo_sampler_def client_obj_def heap_get_def demo_local_def demo_metered_def getAttrInfo_def attr_index_def)

text \<open>
  A window of 0.3 s takes two samples of a period of 0.1 s, since the quotient of the doubles is below 3; the smaller of
  them is the second.
\<close>

theorem stat_extreme_sample_witness:
  "\<exists>c'. stat_getValue gettimeofday 0 (\<lambda>_. Inr) demo_stat no_period demo_sampler =
      Inr ((PWR_RET_SUCCESS, fadd (f_of_int 100) (f_of_int 3),
            \<lparr>tp_start = 800000000, tp_stop = 1000000000, tp_instant = 900000000\<rparr>), c')"
proof -
  let ?tp = "\<lparr>tp_start = 1000000000, tp_stop = 1300000000, tp_instant = 0\<rparr>"
  let ?d = "[fadd (f_of_int 100) (f_of_int 7), fadd (f_of_int 100) (f_of_int 3)]"
  have st: "st_obj demo_stat = Some 0" "st_attr demo_stat = PWR_ATTR_POWER" "st_op demo_stat = opMin"
    "st_period demo_stat = 0x3FB999999999999A"
    by (simp_all add: demo_stat_def new_Stat_def demo_period)
  have w: "set_window gettimeofday demo_stat no_period demo_sampler = (?tp, demo_sampler)"
    by (simp add: set_window_def demo_stat_def no_period_def new_Stat_def)
  have t: "window_time ?tp = Inr 0x3fd3333333333333"
    by (simp add: window_time_def demo_window1 demo_window2)
  have n: "f_to_u32 (fdiv 0x3fd3333333333333 (st_period demo_stat)) = Inr 2"
    unfolding st demo_window3 f_to_u32_def demo_window4 by simp
  have v: "dval (fadd (f_of_int 100) (f_of_int 7)) = Some 107" "dval (fadd (f_of_int 100) (f_of_int 3)) = Some 103"
    using dval_add_ints [of 100 7] dval_add_ints [of 100 3] by simp_all
  have dev: "device_getSamples demo_meter (st_attr demo_stat) 0 (st_period demo_stat) 2 (replicate (unat (2 :: u32)) 0)
      (world (cx demo_sampler)) = Inr ((PWR_RET_SUCCESS, 800000000, 2, ?d), demo_dummy\<lparr>ticks := 2\<rparr>)"
    by (simp only: st demo_sampler_facts demo_meter_samples)
  have "extreme (\<lambda>v. if True then value_of v else - value_of v) ?d p \<Longrightarrow> p = 1" for p
    using v by (auto simp: extreme_def value_of_def less_Suc_eq)
  moreover have "st_op demo_stat = (if True then opMin else opMax)" using st by simp
  moreover have "ai_comm ((new_AttrInfo None (\<lambda>ts. aread ts 0) NO_OP)\<lparr>ai_devices := [demo_meter]\<rparr>) = None"
    "ai_devices ((new_AttrInfo None (\<lambda>ts. aread ts 0) NO_OP)\<lparr>ai_devices := [demo_meter]\<rparr>) = [demo_meter]"
    by (simp_all add: new_AttrInfo_def)
  moreover have "length ?d = unat (2 :: u32)" "(0 :: u32) < 2" "(2 :: u32) < 2 ^ 31" "\<forall>x \<in> set ?d. dval x \<noteq> None"
    using v by simp_all
  ultimately obtain c' where "stat_getValue gettimeofday 0 (\<lambda>_. Inr) demo_stat no_period demo_sampler =
      rbind (time_after 800000000 (uint (2 :: u32)) (st_period demo_stat)) (\<lambda>stop.
      rbind (time_after 800000000 (int 1) (st_period demo_stat)) (\<lambda>inst.
      Inr ((PWR_RET_SUCCESS, ?d ! 1, \<lparr>tp_start = 800000000, tp_stop = stop, tp_instant = inst\<rparr>), c')))"
    using stat_extreme_sample [OF st(1) demo_sampler_facts(1) demo_sampler_facts(3) [folded st(2)] _ _ _ w t n dev]
    by blast
  then show ?thesis by (simp add: st demo_times)
qed

end
