(* ===== verification/Hierarchy.thy ===== *)
theory Hierarchy
  imports CntxtProps
begin

text \<open>
  The tree of objects as the context hands it out: the group of the children of an object, and the parent of each of them.
\<close>

lemma findObject_frame:
  assumes "findObject n nm c = Inr (r, c')" "cntxt_ok c"
  shows "m_config c' = m_config c \<and> m_rootObj c' = m_rootObj c \<and> c_grps c' = c_grps c"
proof (cases "m_objMap c nm")
  case None
  with assms show ?thesis
    by (auto simp: findObject_def rbind_eq_Inr cntxt_ok_def dest!: createObject_ok split: if_split_asm)
qed (use assms in \<open>auto simp: findObject_def\<close>)

lemma must_find_ok:
  assumes "must_find n nm c = Inr (a, c')" "cntxt_ok c"
  shows "cntxt_ok c' \<and> m_objMap c \<subseteq>\<^sub>m m_objMap c' \<and> m_objMap c' nm = Some a \<and>
    m_config c' = m_config c \<and> m_rootObj c' = m_rootObj c \<and> c_grps c' = c_grps c"
proof -
  from assms(1) have "findObject n nm c = Inr (Some a, c')"
    by (auto simp: must_find_def rbind_eq_Inr split: option.splits)
  from context_facts [OF assms(2) this] findObject_frame [OF this assms(2)] show ?thesis by simp
qed

definition child_step :: "nat \<Rightarrow> addr \<Rightarrow> string \<Rightarrow> 's cntxt \<Rightarrow> 's cntxt res" where
  "child_step n g ch c = rbind (must_find n ch c) (\<lambda>(a, c). rbind (any_add g a c) (\<lambda>(_, c). Inr c))"

lemma child_step_ok:
  assumes "child_step n g ch c = Inr c'" "cntxt_ok c" "heap_get (c_grps c) g = Inr (PlainGrp \<lparr>g_name = gn, g_list = ms\<rparr>)"
  shows "cntxt_ok c' \<and> m_objMap c \<subseteq>\<^sub>m m_objMap c' \<and> m_config c' = m_config c \<and> m_rootObj c' = m_rootObj c \<and>
    (\<exists>a. m_objMap c' ch = Some a \<and>
      heap_get (c_grps c') g = Inr (PlainGrp \<lparr>g_name = gn, g_list = (if a \<in> set ms then ms else ms @ [a])\<rparr>))"
proof -
  from assms(1) obtain a c1 k where m: "must_find n ch c = Inr (a, c1)" and ad: "any_add g a c1 = Inr (k, c')"
    by (auto simp: child_step_def rbind_eq_Inr)
  from must_find_ok [OF m assms(2)] have 1: "cntxt_ok c1" "m_objMap c \<subseteq>\<^sub>m m_objMap c1" "m_objMap c1 ch = Some a"
    "m_config c1 = m_config c" "m_rootObj c1 = m_rootObj c" "c_grps c1 = c_grps c" by simp_all
  from ad assms(3) 1(6) obtain h where c': "c' = c1\<lparr>c_grps := h\<rparr>"
    and h: "heap_get h g = Inr (PlainGrp \<lparr>g_name = gn, g_list = (if a \<in> set ms then ms else ms @ [a])\<rparr>)"
    by (auto simp: any_add_def rbind_eq_Inr grp_add_def heap_set_eq_Inr heap_get_set_same heap_get_bound split: if_splits)
  from 1 h show ?thesis by (auto simp: c' cntxt_ok_def comms_ok_def)
qed

lemma children_loop:
  assumes "foldM (child_step n g) chs c = Inr c'" "cntxt_ok c"
    and "heap_get (c_grps c) g = Inr (PlainGrp \<lparr>g_name = gn, g_list = ms\<rparr>)" "distinct ms"
  shows "\<exists>ms'. cntxt_ok c' \<and> m_objMap c \<subseteq>\<^sub>m m_objMap c' \<and> m_config c' = m_config c \<and> m_rootObj c' = m_rootObj c \<and>
    heap_get (c_grps c') g = Inr (PlainGrp \<lparr>g_name = gn, g_list = ms'\<rparr>) \<and> distinct ms' \<and>
    (\<forall>ch \<in> set chs. m_objMap c' ch \<noteq> None) \<and> set ms' = set ms \<union> {a. \<exists>ch \<in> set chs. m_objMap c' ch = Some a}"
  using assms
proof (induction chs arbitrary: c ms)
  case Nil
  then show ?case by simp
next
  case (Cons ch chs)
  then obtain c1 where s: "child_step n g ch c = Inr c1" and rest: "foldM (child_step n g) chs c1 = Inr c'"
    by (auto simp: rbind_eq_Inr)
  from child_step_ok [OF s Cons.prems(2,3)] obtain a where 1: "cntxt_ok c1" "m_objMap c \<subseteq>\<^sub>m m_objMap c1"
    "m_config c1 = m_config c" "m_rootObj c1 = m_rootObj c" "m_objMap c1 ch = Some a"
    "heap_get (c_grps c1) g = Inr (PlainGrp \<lparr>g_name = gn, g_list = (if a \<in> set ms then ms else ms @ [a])\<rparr>)" by blast
  have "distinct (if a \<in> set ms then ms else ms @ [a])" using Cons.prems(4) by simp
  from Cons.IH [OF rest 1(1,6) this] obtain ms' where 2: "cntxt_ok c'" "m_objMap c1 \<subseteq>\<^sub>m m_objMap c'"
    "m_config c' = m_config c1" "m_rootObj c' = m_rootObj c1"
    "heap_get (c_grps c') g = Inr (PlainGrp \<lparr>g_name = gn, g_list = ms'\<rparr>)" "distinct ms'"
    "\<forall>ch \<in> set chs. m_objMap c' ch \<noteq> None"
    "set ms' = set (if a \<in> set ms then ms else ms @ [a]) \<union> {a. \<exists>ch \<in> set chs. m_objMap c' ch = Some a}"
    by blast
  from 1(5) 2(2) have "m_objMap c' ch = Some a" by (auto simp: map_le_def dom_def)
  with 1 2 show ?case by (auto intro: map_le_trans split: if_splits)
qed

lemma children_parents:
  assumes ok: "cntxt_ok c" and ob: "m_objMap c nm = Some ob" "nm \<noteq> []" and ch: "getChildren n ob c = Inr (g, c')"
    and cfg: "\<forall>x \<in> set (findChildren (m_config c) nm). findParent (m_config c) x = nm"
  shows "\<exists>ms. heap_get (c_grps c') g = Inr (PlainGrp \<lparr>g_name = [], g_list = ms\<rparr>) \<and> distinct ms \<and>
    set ms = {a. \<exists>x \<in> set (findChildren (m_config c) nm). m_objMap c' x = Some a} \<and>
    card (set (findChildren (m_config c) nm)) = length ms \<and>
    (\<forall>a \<in> set ms. getParent k a c' = Inr (if Some a = m_rootObj c then None else Some ob, c'))"
proof -
  let ?chs = "findChildren (m_config c) nm" and ?c = "c\<lparr>c_grps := c_grps c @ [Some (PlainGrp \<lparr>g_name = [], g_list = []\<rparr>)]\<rparr>"
  from cntxt_okD [OF ok ob(1)] ch have g: "g = length (c_grps c)" and loop: "foldM (child_step n g) ?chs ?c = Inr c'"
    by (auto simp: getChildren_def new_grp_def obj_name_def rbind_eq_Inr child_step_def [abs_def] findChildren_def)
  have "cntxt_ok ?c" using ok by (simp add: cntxt_ok_def comms_ok_def)
  from children_loop [OF loop this] obtain ms where ms: "cntxt_ok c'" "m_objMap c \<subseteq>\<^sub>m m_objMap c'" "m_config c' = m_config c"
    "m_rootObj c' = m_rootObj c" "heap_get (c_grps c') g = Inr (PlainGrp \<lparr>g_name = [], g_list = ms\<rparr>)" "distinct ms"
    "\<forall>x \<in> set ?chs. m_objMap c' x \<noteq> None" "set ms = {a. \<exists>x \<in> set ?chs. m_objMap c' x = Some a}"
    by (auto simp: g heap_get_new)
  have "inj_on (\<lambda>x. the (m_objMap c' x)) (set ?chs)"
    using ms(7) cntxt_okD [OF ms(1)] by (intro inj_onI) (metis option.exhaust_sel sum.inject(2))
  moreover have "set ms = (\<lambda>x. the (m_objMap c' x)) ` set ?chs" using ms(7,8) by force
  ultimately have card: "card (set ?chs) = length ms" using ms(6) by (simp add: card_image distinct_card [symmetric])
  have "getParent k a c' = Inr (if Some a = m_rootObj c then None else Some ob, c')" if "a \<in> set ms" for a
  proof -
    from that ms(8) obtain x where x: "x \<in> set ?chs" "m_objMap c' x = Some a" by auto
    from cntxt_okD [OF ms(1) x(2)] have "obj_name a c' = Inr x" by (auto simp: obj_name_def)
    moreover have "m_objMap c' nm = Some ob" using ob(1) ms(2) by (auto simp: map_le_def dom_def)
    moreover from cfg x(1) ob(2) have "ask_findParent (m_config c) x = Inr nm"
      by (cases "ask_findParent (m_config c) x") (auto simp: findParent_def)
    ultimately show ?thesis using x ob(2) ms(3,4) by (simp add: getParent_def)
  qed
  with ms(5,6,8) card show ?thesis by blast
qed

text \<open>
  C11: The children of an object that the context has made are the objects of the names the configuration lists, each once;
  where the configuration is consistent and a child is not the root, its parent is the object itself, found without
  making anything.
\<close>

theorem children_have_parent:
  assumes ok: "cntxt_ok c" and ob: "m_objMap c nm = Some ob" "nm \<noteq> []" and ch: "getChildren n ob c = Inr (g, c')"
    and cfg: "\<forall>x \<in> set (findChildren (m_config c) nm). findParent (m_config c) x = nm"
  shows "\<exists>ms. heap_get (c_grps c') g = Inr (PlainGrp \<lparr>g_name = [], g_list = ms\<rparr>) \<and> distinct ms \<and>
    set ms = {a. \<exists>x \<in> set (findChildren (m_config c) nm). m_objMap c' x = Some a} \<and>
    card (set (findChildren (m_config c) nm)) = length ms \<and>
    (\<forall>a \<in> set ms. getParent k a c' = Inr (if Some a = m_rootObj c then None else Some ob, c'))"
  by (rule children_parents [OF assms])

definition demo_node :: "string \<Rightarrow> dummy_state DistObject" where
  "demo_node nm =
     \<lparr>d_obj = \<lparr>m_name = nm, m_objType = cfg_objType demo_config nm, m_attrInfo = replicate 17 (new_AttrInfo None timeOp NO_OP),
               m_parent = None, m_children = None\<rparr>, d_comm = None\<rparr>"

definition demo_tree :: "dummy_state cntxt" where
  "demo_tree = demo_cntxt\<lparr>m_objMap := [''p'' \<mapsto> 0, ''p.a'' \<mapsto> 1, ''p.b'' \<mapsto> 2],
     c_objs := [Some (demo_node ''p''), Some (demo_node ''p.a''), Some (demo_node ''p.b'')]\<rparr>"

lemma demo_node_ok: "object_ok (demo_node nm)" "m_name (d_obj (demo_node nm)) = nm"
  by (simp_all add: object_ok_def demo_node_def info_ok_def new_AttrInfo_def)

lemma demo_tree_ok: "cntxt_ok demo_tree"
  by (auto simp: cntxt_ok_def comms_ok_def demo_tree_def demo_cntxt_def heap_get_def demo_node_ok split: if_splits)

lemma demo_tree_children: "\<exists>c'. getChildren 0 0 demo_tree = Inr (0, c') \<and> heap_get (c_grps c') 0 = Inr (PlainGrp \<lparr>g_name = [], g_list = [1, 2]\<rparr>)"
  by (simp add: getChildren_def demo_tree_def demo_cntxt_def new_grp_def obj_name_def heap_get_def demo_node_def demo_config_def
      must_find_def findObject_def any_add_def grp_add_def heap_set_def)

theorem children_have_parent_witness:
  "\<exists>c'. getChildren 0 0 demo_tree = Inr (0, c') \<and> getParent 0 1 c' = Inr (Some 0, c') \<and> getParent 0 2 c' = Inr (Some 0, c')"
proof -
  obtain c' where c': "getChildren 0 0 demo_tree = Inr (0, c')" "heap_get (c_grps c') 0 = Inr (PlainGrp \<lparr>g_name = [], g_list = [1, 2]\<rparr>)"
    using demo_tree_children by blast
  have "m_objMap demo_tree ''p'' = Some 0" "m_rootObj demo_tree = None"
    "\<forall>x \<in> set (findChildren (m_config demo_tree) ''p''). findParent (m_config demo_tree) x = ''p''"
    by (simp_all add: demo_tree_def demo_cntxt_def demo_config_def answers)
  with children_have_parent [OF demo_tree_ok this(1) _ c'(1) this(3), of 0] c' show ?thesis by auto
qed

end
