(* ===== verification/Api.thy ===== *)
theory Api
  imports Server StatProps Hierarchy
begin

text \<open>
  The C interface of the library (\<^verbatim>\<open>src/pwr/pwr.cc\<close>): what each function does with the class
  it calls and what it stores for its caller. A pointer the caller passes for a result is returned, \<open>None\<close> where
  it is left as it was. \<^verbatim>\<open>PWR_ObjGetName\<close> is in \<open>Server\<close>, which calls it;
  \<^verbatim>\<open>PWR_CntxtInit\<close>, the constructor of the context, is in \<open>Start\<close>.
\<close>

section \<open>Contexts\<close>

definition PWR_CntxtGetEntryPoint :: "('s, 'u) client \<Rightarrow> int \<times> addr option" where
  "PWR_CntxtGetEntryPoint c = (PWR_RET_SUCCESS, getSelf (cx c))"

definition PWR_CntxtGetGrpByType :: "nat \<Rightarrow> PWR_ObjType \<Rightarrow> ('s, 'u) client \<Rightarrow> ((int \<times> addr option) \<times> ('s, 'u) client) res" where
  "PWR_CntxtGetGrpByType n type c =
     rbind (getGrp n type (cx c)) (\<lambda>(g, x).
     Inr ((if g \<noteq> None then PWR_RET_SUCCESS else PWR_RET_FAILURE, g), c\<lparr>cx := x\<rparr>))"

text \<open>A name that is not there is a success with a null pointer.\<close>

definition PWR_CntxtGetGrpByName :: "string \<Rightarrow> ('s, 'u) client \<Rightarrow> int \<times> addr option" where
  "PWR_CntxtGetGrpByName nm c = (PWR_RET_SUCCESS, getGrpByName nm (cx c))"

definition PWR_CntxtGetObjByName :: "nat \<Rightarrow> string \<Rightarrow> ('s, 'u) client \<Rightarrow> ((int \<times> addr option) \<times> ('s, 'u) client) res" where
  "PWR_CntxtGetObjByName n nm c =
     rbind (getObjByName n nm (cx c)) (\<lambda>(ob, x). Inr ((PWR_RET_SUCCESS, ob), c\<lparr>cx := x\<rparr>))"

section \<open>Objects\<close>

definition PWR_ObjGetType :: "addr \<Rightarrow> ('s, 'u) client \<Rightarrow> (int \<times> PWR_ObjType) res" where
  "PWR_ObjGetType ob c = rbind (client_obj ob c) (\<lambda>x. Inr (PWR_RET_SUCCESS, m_objType (d_obj x)))"

definition PWR_ObjGetParent :: "nat \<Rightarrow> addr \<Rightarrow> ('s, 'u) client \<Rightarrow> ((int \<times> addr option) \<times> ('s, 'u) client) res" where
  "PWR_ObjGetParent n ob c =
     rbind (obj_parent n ob (cx c)) (\<lambda>(p, x).
     Inr ((if p \<noteq> None then PWR_RET_SUCCESS else PWR_RET_WARN_NO_PARENT, p), c\<lparr>cx := x\<rparr>))"

definition PWR_ObjGetChildren :: "nat \<Rightarrow> addr \<Rightarrow> ('s, 'u) client \<Rightarrow> ((int \<times> addr) \<times> ('s, 'u) client) res" where
  "PWR_ObjGetChildren n ob c =
     rbind (obj_children n ob (cx c)) (\<lambda>(g, x). Inr ((PWR_RET_SUCCESS, g), c\<lparr>cx := x\<rparr>))"

text \<open>A \<^verbatim>\<open>bool\<close> converted to \<^verbatim>\<open>int\<close>: a valid attribute gives 1, which is not success.\<close>

definition PWR_ObjAttrIsValid :: "addr \<Rightarrow> PWR_AttrName \<Rightarrow> ('s, 'u) client \<Rightarrow> int res" where
  "PWR_ObjAttrIsValid ob attr c =
     rbind (client_obj ob c) (\<lambda>x. rbind (attrIsValid (d_obj x) attr) (\<lambda>b. Inr (if b then 1 else 0)))"

definition PWR_ObjAttrGetValue ::
    "nat \<Rightarrow> ('s, 'u) app \<Rightarrow> addr \<Rightarrow> PWR_AttrName \<Rightarrow> ptr \<Rightarrow> ptr \<Rightarrow> ('s, 'u) client \<Rightarrow> (int \<times> ('s, 'u) client) res" where
  "PWR_ObjAttrGetValue = dist_getValue"

definition PWR_ObjAttrSetValue ::
    "nat \<Rightarrow> ('s, 'u) app \<Rightarrow> addr \<Rightarrow> PWR_AttrName \<Rightarrow> ptr \<Rightarrow> ('s, 'u) client \<Rightarrow> (int \<times> ('s, 'u) client) res" where
  "PWR_ObjAttrSetValue = dist_setValue"

definition PWR_ObjAttrGetValues ::
    "nat \<Rightarrow> ('s, 'u) app \<Rightarrow> addr \<Rightarrow> int \<Rightarrow> PWR_AttrName list \<Rightarrow> ptr \<Rightarrow> ptr \<Rightarrow> addr \<Rightarrow> ('s, 'u) client \<Rightarrow>
     (int \<times> ('s, 'u) client) res" where
  "PWR_ObjAttrGetValues = dist_getValues"

definition PWR_ObjAttrSetValues ::
    "nat \<Rightarrow> ('s, 'u) app \<Rightarrow> addr \<Rightarrow> int \<Rightarrow> PWR_AttrName list \<Rightarrow> ptr \<Rightarrow> addr \<Rightarrow> ('s, 'u) client \<Rightarrow>
     (int \<times> ('s, 'u) client) res" where
  "PWR_ObjAttrSetValues = dist_setValues"

definition PWR_ObjAttrGetValues_NB ::
    "('s, 'u) app \<Rightarrow> addr \<Rightarrow> int \<Rightarrow> PWR_AttrName list \<Rightarrow> ptr \<Rightarrow> ptr \<Rightarrow> addr \<Rightarrow> ('s, 'u) client \<Rightarrow> (int \<times> ('s, 'u) client) res" where
  "PWR_ObjAttrGetValues_NB = dist_getValues_nb"

definition PWR_ObjAttrSetValues_NB ::
    "('s, 'u) app \<Rightarrow> addr \<Rightarrow> int \<Rightarrow> PWR_AttrName list \<Rightarrow> ptr \<Rightarrow> addr \<Rightarrow> ('s, 'u) client \<Rightarrow> (int \<times> ('s, 'u) client) res" where
  "PWR_ObjAttrSetValues_NB = dist_setValues_nb"

definition PWR_ObjAttrStartLog ::
    "nat \<Rightarrow> ('s, 'u) app \<Rightarrow> addr \<Rightarrow> PWR_AttrName \<Rightarrow> ('s, 'u) client \<Rightarrow> (int \<times> ('s, 'u) client) res" where
  "PWR_ObjAttrStartLog = dist_startLog"

definition PWR_ObjAttrStopLog ::
    "nat \<Rightarrow> ('s, 'u) app \<Rightarrow> addr \<Rightarrow> PWR_AttrName \<Rightarrow> ('s, 'u) client \<Rightarrow> (int \<times> ('s, 'u) client) res" where
  "PWR_ObjAttrStopLog = dist_stopLog"

definition PWR_ObjAttrGetSamples ::
    "nat \<Rightarrow> ('s, 'u) app \<Rightarrow> addr \<Rightarrow> PWR_AttrName \<Rightarrow> ptr \<Rightarrow> u64 \<Rightarrow> u32 \<Rightarrow> ptr \<Rightarrow> ('s, 'u) client \<Rightarrow> (int \<times> ('s, 'u) client) res" where
  "PWR_ObjAttrGetSamples = dist_getSamples"

definition PWR_ObjAttrStartLog_NB ::
    "('s, 'u) app \<Rightarrow> addr \<Rightarrow> PWR_AttrName \<Rightarrow> addr \<Rightarrow> ('s, 'u) client \<Rightarrow> (int \<times> ('s, 'u) client) res" where
  "PWR_ObjAttrStartLog_NB = dist_startLog_req"

definition PWR_ObjAttrStopLog_NB ::
    "('s, 'u) app \<Rightarrow> addr \<Rightarrow> PWR_AttrName \<Rightarrow> addr \<Rightarrow> ('s, 'u) client \<Rightarrow> (int \<times> ('s, 'u) client) res" where
  "PWR_ObjAttrStopLog_NB = dist_stopLog_req"

definition PWR_ObjAttrGetSamples_NB ::
    "('s, 'u) app \<Rightarrow> addr \<Rightarrow> PWR_AttrName \<Rightarrow> ptr \<Rightarrow> u64 \<Rightarrow> u32 \<Rightarrow> ptr \<Rightarrow> addr \<Rightarrow> ('s, 'u) client \<Rightarrow>
     (int \<times> ('s, 'u) client) res" where
  "PWR_ObjAttrGetSamples_NB = dist_getSamples_req"

section \<open>Groups\<close>

definition PWR_GrpCreate :: "('s, 'u) client \<Rightarrow> (int \<times> addr) \<times> ('s, 'u) client" where
  "PWR_GrpCreate c = (case createGrp [] (cx c) of (g, x) \<Rightarrow> ((PWR_RET_SUCCESS, g), c\<lparr>cx := x\<rparr>))"

definition PWR_GrpDestroy :: "addr \<Rightarrow> ('s, 'u) client \<Rightarrow> (int \<times> ('s, 'u) client) res" where
  "PWR_GrpDestroy g c = rbind (destroyGrp g (cx c)) (\<lambda>(r, x). Inr (r, c\<lparr>cx := x\<rparr>))"

definition PWR_GrpAddObj :: "addr \<Rightarrow> addr \<Rightarrow> ('s, 'u) client \<Rightarrow> (int \<times> ('s, 'u) client) res" where
  "PWR_GrpAddObj g ob c = rbind (any_add g ob (cx c)) (\<lambda>(r, x). Inr (r, c\<lparr>cx := x\<rparr>))"

definition PWR_GrpRemoveObj :: "addr \<Rightarrow> addr \<Rightarrow> ('s, 'u) client \<Rightarrow> (int \<times> ('s, 'u) client) res" where
  "PWR_GrpRemoveObj g ob c = rbind (any_remove g ob (cx c)) (\<lambda>(r, x). Inr (r, c\<lparr>cx := x\<rparr>))"

definition PWR_GrpGetNumObjs :: "addr \<Rightarrow> ('s, 'u) client \<Rightarrow> int res" where
  "PWR_GrpGetNumObjs g c = rbind (any_size g (cx c)) (\<lambda>k. Inr (sint (of_nat k :: u32)))"

definition PWR_GrpGetObjByIndx :: "addr \<Rightarrow> int \<Rightarrow> ('s, 'u) client \<Rightarrow> (int \<times> addr) res" where
  "PWR_GrpGetObjByIndx g i c = rbind (any_getObj g (unat (word_of_int i :: u32)) (cx c)) (\<lambda>ob. Inr (PWR_RET_SUCCESS, ob))"

text \<open>
  The reads and writes of a group: a group the caller made is a \<^verbatim>\<open>DistGrp\<close>, the group of
  the children of an object is a \<^verbatim>\<open>Grp\<close>, whose loops call the operations of its members and go on
  whatever they return.
\<close>

fun plain_get ::
    "nat \<Rightarrow> ('s, 'u) app \<Rightarrow> addr list \<Rightarrow> nat \<Rightarrow> int \<Rightarrow> PWR_AttrName list \<Rightarrow> ptr \<Rightarrow> ptr \<Rightarrow> addr \<Rightarrow> ('s, 'u) client \<Rightarrow>
     ('s, 'u) client res" where
  "plain_get n app [] i num attr buf ts st c = Inr c"
| "plain_get n app (ob # obs) i num attr buf ts st c =
     rbind (dist_getValues n app ob num attr (ptr_add buf (i * nat num)) (ptr_add ts (i * nat num)) st c) (\<lambda>(_, c).
     plain_get n app obs (Suc i) num attr buf ts st c)"

fun plain_set ::
    "nat \<Rightarrow> ('s, 'u) app \<Rightarrow> addr list \<Rightarrow> int \<Rightarrow> PWR_AttrName list \<Rightarrow> ptr \<Rightarrow> addr \<Rightarrow> ('s, 'u) client \<Rightarrow>
     ('s, 'u) client res" where
  "plain_set n app [] num attr buf st c = Inr c"
| "plain_set n app (ob # obs) num attr buf st c =
     rbind (dist_setValues n app ob num attr buf st c) (\<lambda>(_, c). plain_set n app obs num attr buf st c)"

fun plain_setValue ::
    "nat \<Rightarrow> ('s, 'u) app \<Rightarrow> addr list \<Rightarrow> PWR_AttrName \<Rightarrow> ptr \<Rightarrow> addr \<Rightarrow> ('s, 'u) client \<Rightarrow> ('s, 'u) client res" where
  "plain_setValue n app [] attr buf st c = Inr c"
| "plain_setValue n app (ob # obs) attr buf st c =
     rbind (dist_setValue n app ob attr buf c) (\<lambda>(r, c).
     rbind (if r \<noteq> PWR_RET_SUCCESS then status_push st (Some ob) attr r c else Inr c) (\<lambda>c.
     plain_setValue n app obs attr buf st c))"

definition plain_result :: "addr \<Rightarrow> ('s, 'u) client \<Rightarrow> (int \<times> ('s, 'u) client) res" where
  "plain_result st c =
     rbind (heap_get (stats c) st) (\<lambda>es. Inr (if status_empty es then PWR_RET_SUCCESS else PWR_RET_FAILURE, c))"

definition PWR_GrpAttrSetValue ::
    "nat \<Rightarrow> ('s, 'u) app \<Rightarrow> addr \<Rightarrow> PWR_AttrName \<Rightarrow> ptr \<Rightarrow> addr \<Rightarrow> ('s, 'u) client \<Rightarrow> (int \<times> ('s, 'u) client) res" where
  "PWR_GrpAttrSetValue n app g attr buf st c =
     rbind (heap_get (c_grps (cx c)) g) (\<lambda>x.
     case x of
       DGrp _ \<Rightarrow> dgrp_setValue n app g attr buf st c
     | PlainGrp y \<Rightarrow> rbind (plain_setValue n app (g_list y) attr buf st c) (plain_result st))"

definition PWR_GrpAttrSetValues ::
    "nat \<Rightarrow> ('s, 'u) app \<Rightarrow> addr \<Rightarrow> int \<Rightarrow> PWR_AttrName list \<Rightarrow> ptr \<Rightarrow> addr \<Rightarrow> ('s, 'u) client \<Rightarrow>
     (int \<times> ('s, 'u) client) res" where
  "PWR_GrpAttrSetValues n app g num attr buf st c =
     rbind (heap_get (c_grps (cx c)) g) (\<lambda>x.
     case x of
       DGrp _ \<Rightarrow> dgrp_setValues n app g num attr buf st c
     | PlainGrp y \<Rightarrow> rbind (plain_set n app (g_list y) num attr buf st c) (plain_result st))"

definition PWR_GrpAttrGetValues ::
    "nat \<Rightarrow> ('s, 'u) app \<Rightarrow> addr \<Rightarrow> int \<Rightarrow> PWR_AttrName list \<Rightarrow> ptr \<Rightarrow> ptr \<Rightarrow> addr \<Rightarrow> ('s, 'u) client \<Rightarrow>
     (int \<times> ('s, 'u) client) res" where
  "PWR_GrpAttrGetValues n app g num attr buf ts st c =
     rbind (heap_get (c_grps (cx c)) g) (\<lambda>x.
     case x of
       DGrp _ \<Rightarrow> dgrp_getValues n app g num attr buf ts st c
     | PlainGrp y \<Rightarrow> rbind (plain_get n app (g_list y) 0 num attr buf ts st c) (plain_result st))"

definition PWR_GrpAttrGetValue ::
    "nat \<Rightarrow> ('s, 'u) app \<Rightarrow> addr \<Rightarrow> PWR_AttrName \<Rightarrow> ptr \<Rightarrow> ptr \<Rightarrow> addr \<Rightarrow> ('s, 'u) client \<Rightarrow> (int \<times> ('s, 'u) client) res" where
  "PWR_GrpAttrGetValue n app g attr buf ts st c =
     rbind (heap_get (c_grps (cx c)) g) (\<lambda>x.
     case x of
       DGrp _ \<Rightarrow> dgrp_getValue n app g attr buf ts st c
     | PlainGrp _ \<Rightarrow> PWR_GrpAttrGetValues n app g 1 [attr] buf ts st c)"

section \<open>Status, requests and progress\<close>

definition PWR_StatusCreate :: "('s, 'u) client \<Rightarrow> (int \<times> addr) \<times> ('s, 'u) client" where
  "PWR_StatusCreate c = (case new_Status c of (st, c) \<Rightarrow> ((PWR_RET_SUCCESS, st), c))"

definition PWR_StatusDestroy :: "addr \<Rightarrow> ('s, 'u) client \<Rightarrow> (int \<times> ('s, 'u) client) res" where
  "PWR_StatusDestroy st c = rbind (delete_Status st c) (\<lambda>c. Inr (PWR_RET_SUCCESS, c))"

definition PWR_StatusPopError ::
    "addr \<Rightarrow> ('s, 'u) client \<Rightarrow> ((int \<times> addr option PWR_AttrAccessError option) \<times> ('s, 'u) client) res" where
  "PWR_StatusPopError st c =
     rbind (heap_get (stats c) st) (\<lambda>es.
     case status_pop es of (r, e, es) \<Rightarrow> Inr ((r, e), c\<lparr>stats := (stats c)[st := Some es]\<rparr>))"

definition PWR_StatusClear :: "addr \<Rightarrow> ('s, 'u) client \<Rightarrow> (int \<times> ('s, 'u) client) res" where
  "PWR_StatusClear st c =
     rbind (heap_get (stats c) st) (\<lambda>es.
     case status_clear es of (r, es) \<Rightarrow> Inr (r, c\<lparr>stats := (stats c)[st := Some es]\<rparr>))"

definition PWR_ReqCreate :: "addr \<Rightarrow> ('s, 'u) client \<Rightarrow> addr \<times> ('s, 'u) client" where
  "PWR_ReqCreate st c = new_DistRequest st None c"

definition PWR_ReqCreateCallback :: "addr \<Rightarrow> nat \<Rightarrow> ('s, 'u) client \<Rightarrow> addr \<times> ('s, 'u) client" where
  "PWR_ReqCreateCallback st data c = new_DistRequest st (Some data) c"

definition PWR_ReqDestroy :: "addr \<Rightarrow> ('s, 'u) client \<Rightarrow> (int \<times> ('s, 'u) client) res" where
  "PWR_ReqDestroy q c = rbind (req_delete q c) (\<lambda>c. Inr (PWR_RET_SUCCESS, c))"

definition PWR_ReqWait :: "nat \<Rightarrow> ('s, 'u) app \<Rightarrow> addr \<Rightarrow> ('s, 'u) client \<Rightarrow> (int \<times> ('s, 'u) client) res" where
  "PWR_ReqWait = req_wait"

definition PWR_CntxtMakeProgress :: "nat \<Rightarrow> ('s, 'u) app \<Rightarrow> ('s, 'u) client \<Rightarrow> (int \<times> ('s, 'u) client) res" where
  "PWR_CntxtMakeProgress = makeProgress"

section \<open>Statistics\<close>

definition PWR_ObjCreateStat ::
    "nat \<Rightarrow> addr \<Rightarrow> PWR_AttrName \<Rightarrow> PWR_AttrStat \<Rightarrow> ('s, 'u) client \<Rightarrow> ((int \<times> Stat option) \<times> ('s, 'u) client) res" where
  "PWR_ObjCreateStat n ob attr stat c =
     rbind (obj_createStat n ob attr stat (cx c)) (\<lambda>(st, x).
     Inr ((if st \<noteq> None then PWR_RET_SUCCESS else PWR_RET_FAILURE, st), c\<lparr>cx := x\<rparr>))"

definition PWR_GrpCreateStat ::
    "nat \<Rightarrow> addr \<Rightarrow> PWR_AttrName \<Rightarrow> PWR_AttrStat \<Rightarrow> ('s, 'u) client \<Rightarrow> ((int \<times> Stat option) \<times> ('s, 'u) client) res" where
  "PWR_GrpCreateStat n g attr stat c =
     rbind (grp_createStat n g attr stat (cx c)) (\<lambda>(st, x).
     Inr ((if st \<noteq> None then PWR_RET_SUCCESS else PWR_RET_FAILURE, st), c\<lparr>cx := x\<rparr>))"

definition PWR_StatDestroy ::
    "('s \<Rightarrow> (u64 \<times> u64) \<times> 's) \<Rightarrow> nat \<Rightarrow> ('s, 'u) app \<Rightarrow> Stat \<Rightarrow> ('s, 'u) client \<Rightarrow> (int \<times> ('s, 'u) client) res" where
  "PWR_StatDestroy = destroyStat"

definition PWR_StatStart ::
    "('s \<Rightarrow> (u64 \<times> u64) \<times> 's) \<Rightarrow> nat \<Rightarrow> ('s, 'u) app \<Rightarrow> Stat \<Rightarrow> ('s, 'u) client \<Rightarrow> (int \<times> Stat \<times> ('s, 'u) client) res" where
  "PWR_StatStart = stat_start"

definition PWR_StatStop ::
    "('s \<Rightarrow> (u64 \<times> u64) \<times> 's) \<Rightarrow> nat \<Rightarrow> ('s, 'u) app \<Rightarrow> Stat \<Rightarrow> ('s, 'u) client \<Rightarrow> (int \<times> Stat \<times> ('s, 'u) client) res" where
  "PWR_StatStop = stat_stop"

text \<open>To clear a statistic stops it: \<open>stat_clear\<close> is not called by the interface.\<close>

definition PWR_StatClear ::
    "('s \<Rightarrow> (u64 \<times> u64) \<times> 's) \<Rightarrow> nat \<Rightarrow> ('s, 'u) app \<Rightarrow> Stat \<Rightarrow> ('s, 'u) client \<Rightarrow> (int \<times> Stat \<times> ('s, 'u) client) res" where
  "PWR_StatClear = stat_stop"

definition PWR_StatGetValue ::
    "('s \<Rightarrow> (u64 \<times> u64) \<times> 's) \<Rightarrow> nat \<Rightarrow> ('s, 'u) app \<Rightarrow> Stat \<Rightarrow> PWR_TimePeriod \<Rightarrow> ('s, 'u) client \<Rightarrow>
     ((int \<times> u64 \<times> PWR_TimePeriod) \<times> ('s, 'u) client) res" where
  "PWR_StatGetValue = stat_getValue"

definition PWR_StatGetValues ::
    "('s \<Rightarrow> (u64 \<times> u64) \<times> 's) \<Rightarrow> nat \<Rightarrow> ('s, 'u) app \<Rightarrow> Stat \<Rightarrow> u64 list \<Rightarrow> PWR_TimePeriod list \<Rightarrow>
     ('s, 'u) client \<Rightarrow> ((int \<times> u64 list \<times> PWR_TimePeriod list) \<times> ('s, 'u) client) res" where
  "PWR_StatGetValues = stat_getValues"

text \<open>A clear leaves the start of the window where it was and ends the log, unlike \<^verbatim>\<open>DeviceStat::clear\<close>.\<close>

lemma clear_stops:
  assumes "PWR_StatClear tod n app st c = Inr (r, st', c')"
  shows "st_startTime st' = st_startTime st \<and> \<not> st_isLogging st'"
    and "st_isLogging (fst (snd (stat_clear tod st c))) = st_isLogging st"
  using assms by (auto simp: PWR_StatClear_def stat_stop_def stat_clear_def rbind_eq_Inr Let_def split: prod.splits)

section \<open>Hints and times\<close>

datatype PWR_RegionHint =
  PWR_REGION_DEFAULT | PWR_REGION_SERIAL | PWR_REGION_PARALLEL | PWR_REGION_COMPUTE | PWR_REGION_COMMUNICATE |
  PWR_REGION_IO | PWR_REGION_MEM_BOUND | PWR_NUM_REGION_HINTS | PWR_REGION_INVALID | PWR_REGION_NOT_SPECIFIED

definition PWR_AppHint :: "PWR_RegionHint \<Rightarrow> int res" where
  "PWR_AppHint hint =
     (case hint of
        PWR_REGION_SERIAL \<Rightarrow> Inr PWR_RET_SUCCESS
      | PWR_REGION_PARALLEL \<Rightarrow> Inr PWR_RET_SUCCESS
      | PWR_REGION_COMPUTE \<Rightarrow> Inr PWR_RET_SUCCESS
      | PWR_REGION_COMMUNICATE \<Rightarrow> Inr PWR_RET_SUCCESS
      | PWR_REGION_IO \<Rightarrow> Inr PWR_RET_SUCCESS
      | PWR_REGION_MEM_BOUND \<Rightarrow> Inr PWR_RET_SUCCESS
      | _ \<Rightarrow> Inl AssertFail)"

text \<open>The quotient of C, which rounds to zero.\<close>

definition PWR_TimeConvert :: "u64 \<Rightarrow> int \<times> int" where
  "PWR_TimeConvert t = (PWR_RET_SUCCESS, (let s = sint t in if 0 \<le> s then s div 1000000000 else - (- s div 1000000000)))"

section \<open>Names\<close>

lemma c_str_id: "CHR 0x00 \<notin> set s \<Longrightarrow> c_str s = s"
  by (auto simp: c_str_def takeWhile_eq_all_conv)

lemma c_str_prefix: "CHR 0x00 \<notin> set s \<Longrightarrow> c_str (s @ replicate (Suc k) CHR 0x00) = s"
  by (auto simp: c_str_def takeWhile_append)

lemma strncpy_read:
  assumes "CHR 0x00 \<notin> set s"
  shows "length (strncpy s len) = len \<and> read_cstr (strncpy s len) = (if len \<le> length s then Inl OutOfBounds else Inr s)"
proof (cases "len \<le> length s")
  case True
  then show ?thesis using assms by (auto simp: strncpy_def c_str_id read_cstr_def dest: in_set_takeD)
next
  case False
  then obtain k where "len - length s = Suc k" by (cases "len - length s") auto
  with False assms c_str_prefix [OF assms, of k] show ?thesis
    by (simp add: strncpy_def c_str_id read_cstr_def)
qed

text \<open>
  The name of the object found under a name is that name: copied into a buffer that is longer it reads back as it was,
  and into one that is not it is cut, which the result says, and is not terminated: to read it as a string runs off the
  buffer.
\<close>

theorem object_name_roundtrip:
  assumes "cntxt_ok (cx c)" "PWR_CntxtGetObjByName n nm c = Inr ((r, Some ob), c')" "CHR 0x00 \<notin> set nm" "0 < len"
  shows "\<exists>buf. PWR_ObjGetName (Some ob) len c' = Inr (if len \<le> length nm then PWR_RET_WARN_TRUNC else PWR_RET_SUCCESS, buf) \<and>
    length buf = len \<and> read_cstr buf = (if len \<le> length nm then Inl OutOfBounds else Inr nm)"
proof -
  from assms(2) have "findObject n nm (cx c) = Inr (Some ob, cx c')"
    by (auto simp: PWR_CntxtGetObjByName_def getObjByName_def rbind_eq_Inr)
  from context_facts [OF assms(1) this] have "cntxt_ok (cx c')" "m_objMap (cx c') nm = Some ob" by simp_all
  from cntxt_okD [OF this] have "obj_name ob (cx c') = Inr nm" by (auto simp: obj_name_def)
  with strncpy_read [OF assms(3), of len] assms(4) show ?thesis
    by (auto simp: PWR_ObjGetName_def)
qed

theorem object_name_roundtrip_witness:
  "\<exists>c'. PWR_CntxtGetObjByName 0 ''p.a'' (demo_local\<lparr>cx := demo_tree\<rparr>) = Inr ((PWR_RET_SUCCESS, Some 1), c') \<and>
     (\<exists>buf. PWR_ObjGetName (Some 1) 9 c' = Inr (PWR_RET_SUCCESS, buf) \<and> read_cstr buf = Inr ''p.a'') \<and>
     (\<exists>buf. PWR_ObjGetName (Some 1) 3 c' = Inr (PWR_RET_WARN_TRUNC, buf) \<and> read_cstr buf = Inl OutOfBounds)"
proof -
  let ?c = "demo_local\<lparr>cx := demo_tree\<rparr>"
  have f: "PWR_CntxtGetObjByName 0 ''p.a'' ?c = Inr ((PWR_RET_SUCCESS, Some 1), ?c)"
    by (simp add: PWR_CntxtGetObjByName_def getObjByName_def findObject_def demo_tree_def)
  have ok: "cntxt_ok (cx ?c)" "CHR 0x00 \<notin> set ''p.a''" by (simp_all add: demo_tree_ok)
  show ?thesis
    using f object_name_roundtrip [OF ok(1) f ok(2), of 9] object_name_roundtrip [OF ok(1) f ok(2), of 3] by auto
qed

end
