(* ===== verification/XmlConfig.thy ===== *)
theory XmlConfig
  imports Cntxt
begin

text \<open>
  The configuration read from an XML document (\<^verbatim>\<open>xmlConfig.cc\<close>). A document is the tree
  the parser tinyxml2 makes of it, and a pointer to a node is the list of the node and its siblings after it, empty for
  the null pointer. The code casts every node to an element without asking what it is: a text or a comment in a place
  where an element is expected is a fault, as is a missing attribute that is compared or copied.
\<close>

section \<open>Documents\<close>

datatype XMLNode = XMLElement string "(string \<times> string) list" "XMLNode list" | XMLOther string

fun el_Name :: "XMLNode \<Rightarrow> string res" where
  "el_Name (XMLElement n as ks) = Inr n"
| "el_Name (XMLOther t) = Inl Unspecified"

fun el_Attribute :: "XMLNode \<Rightarrow> string \<Rightarrow> string option res" where
  "el_Attribute (XMLElement n as ks) a = Inr (map_of as a)"
| "el_Attribute (XMLOther t) a = Inl Unspecified"

fun FirstChild :: "XMLNode \<Rightarrow> XMLNode list" where
  "FirstChild (XMLElement n as ks) = ks"
| "FirstChild (XMLOther t) = []"

definition attr_str :: "XMLNode \<Rightarrow> string \<Rightarrow> string res" where
  "attr_str e a = rbind (el_Attribute e a) deref"

section \<open>Finding nodes\<close>

fun findNode :: "XMLNode list \<Rightarrow> string \<Rightarrow> XMLNode list res" where
  "findNode [] nm = Inr []"
| "findNode (e # es) nm =
     rbind (el_Name e) (\<lambda>x. if nm = x then Inr (e # es) else findNode es nm)"

definition findNodes1stChild :: "XMLNode list \<Rightarrow> string \<Rightarrow> XMLNode list res" where
  "findNodes1stChild es nm =
     rbind (findNode es nm) (\<lambda>r. Inr (case r of [] \<Rightarrow> [] | e # _ \<Rightarrow> FirstChild e))"

fun with_attr :: "XMLNode list \<Rightarrow> string \<Rightarrow> string \<Rightarrow> XMLNode list res" where
  "with_attr [] a v = Inr []"
| "with_attr (e # es) a v =
     rbind (attr_str e a) (\<lambda>x. if v = x then Inr (e # es) else with_attr es a v)"

text \<open>The first loop of \<^verbatim>\<open>findNodeWithAttr\<close> is that of \<^verbatim>\<open>findNode\<close>.\<close>

definition findNodeWithAttr :: "XMLNode \<Rightarrow> string \<Rightarrow> string \<Rightarrow> string \<Rightarrow> XMLNode list res" where
  "findNodeWithAttr e nodeName attrName attrValue =
     rbind (findNodes1stChild (FirstChild e) nodeName) (\<lambda>ks. with_attr ks attrName attrValue)"

definition findDev :: "XMLNode \<Rightarrow> string \<Rightarrow> XMLNode list res" where
  "findDev e nm = findNodeWithAttr e ''devices'' ''name'' nm"

definition findAttr :: "XMLNode \<Rightarrow> string \<Rightarrow> XMLNode list res" where
  "findAttr e nm = findNodeWithAttr e ''attributes'' ''name'' nm"

text \<open>The constructor: the document's first element or one of its siblings is the system.\<close>

definition new_XmlConfig :: "XMLNode list \<Rightarrow> XMLNode res" where
  "new_XmlConfig doc =
     rbind (findNode (dropWhile (\<lambda>e. case e of XMLOther _ \<Rightarrow> True | _ \<Rightarrow> False) doc) ''System'') (\<lambda>r.
     case r of [] \<Rightarrow> Inl AssertFail | e # _ \<Rightarrow> Inr e)"

fun object_loop :: "XMLNode list \<Rightarrow> string \<Rightarrow> XMLNode option res" where
  "object_loop [] nm = Inr None"
| "object_loop (e # es) nm =
     rbind (attr_str e ''name'') (\<lambda>x. if nm = x then Inr (Some e) else object_loop es nm)"

definition xml_findObject :: "XMLNode \<Rightarrow> string \<Rightarrow> XMLNode option res" where
  "xml_findObject sys nm =
     rbind (findNodes1stChild (FirstChild sys) ''Objects'') (\<lambda>es. object_loop es nm)"

definition xml_object :: "XMLNode \<Rightarrow> string \<Rightarrow> XMLNode res" where
  "xml_object sys nm =
     rbind (xml_findObject sys nm) (\<lambda>r. case r of None \<Rightarrow> Inl AssertFail | Some e \<Rightarrow> Inr e)"

section \<open>Names and types\<close>

definition xml_findParent :: "string \<Rightarrow> string" where
  "xml_findParent nm = rev (drop 1 (dropWhile (\<lambda>c. c \<noteq> CHR ''.'') (rev nm)))"

fun xml_objTypeToString :: "PWR_ObjType \<Rightarrow> string" where
  "xml_objTypeToString PWR_OBJ_PLATFORM = ''Platform''"
| "xml_objTypeToString PWR_OBJ_CABINET = ''Cabinet''"
| "xml_objTypeToString PWR_OBJ_CHASSIS = ''Chassis''"
| "xml_objTypeToString PWR_OBJ_BOARD = ''Board''"
| "xml_objTypeToString PWR_OBJ_NODE = ''Node''"
| "xml_objTypeToString PWR_OBJ_SOCKET = ''Socket''"
| "xml_objTypeToString PWR_OBJ_POWER_PLANE = ''Power Plane''"
| "xml_objTypeToString PWR_OBJ_CORE = ''Core''"
| "xml_objTypeToString PWR_OBJ_NIC = ''Nic''"
| "xml_objTypeToString PWR_OBJ_MEM = ''Memory''"
| "xml_objTypeToString PWR_OBJ_INVALID = ''Invalid''"
| "xml_objTypeToString _ = ''????''"

definition objTypeStrToInt :: "string \<Rightarrow> PWR_ObjType" where
  "objTypeStrToInt nm =
     (if nm = ''Platform'' then PWR_OBJ_PLATFORM
      else if nm = ''Cabinet'' then PWR_OBJ_CABINET
      else if nm = ''Chassis'' then PWR_OBJ_CHASSIS
      else if nm = ''Board'' then PWR_OBJ_BOARD
      else if nm = ''Node'' then PWR_OBJ_NODE
      else if nm = ''Socket'' then PWR_OBJ_SOCKET
      else if nm = ''Core'' then PWR_OBJ_CORE
      else if nm = ''Power Plane'' then PWR_OBJ_CORE
      else if nm = ''Memory'' then PWR_OBJ_CORE
      else if nm = ''Nic'' then PWR_OBJ_CORE
      else PWR_OBJ_INVALID)"

fun xml_attrName :: "PWR_AttrName \<Rightarrow> string" where
  "xml_attrName PWR_ATTR_PSTATE = ''PSTATE''"
| "xml_attrName PWR_ATTR_CSTATE = ''CSTATE''"
| "xml_attrName PWR_ATTR_CSTATE_LIMIT = ''CSTATE_LIMIT''"
| "xml_attrName PWR_ATTR_SSTATE = ''SSTATE''"
| "xml_attrName PWR_ATTR_CURRENT = ''CURRENT''"
| "xml_attrName PWR_ATTR_VOLTAGE = ''VOLTAGE''"
| "xml_attrName PWR_ATTR_POWER = ''POWER''"
| "xml_attrName PWR_ATTR_POWER_LIMIT_MAX = ''MAX_POWER''"
| "xml_attrName PWR_ATTR_POWER_LIMIT_MIN = ''MIN_POWER''"
| "xml_attrName PWR_ATTR_FREQ = ''FREQ''"
| "xml_attrName PWR_ATTR_FREQ_LIMIT_MIN = ''FREQ_MIN''"
| "xml_attrName PWR_ATTR_FREQ_LIMIT_MAX = ''FREQ_MAX''"
| "xml_attrName PWR_ATTR_ENERGY = ''ENERGY''"
| "xml_attrName PWR_ATTR_TEMP = ''TEMP''"
| "xml_attrName PWR_ATTR_OS_ID = ''OS_ID''"
| "xml_attrName PWR_ATTR_THROTTLED_TIME = ''THROTTLED_TIME''"
| "xml_attrName PWR_ATTR_THROTTLED_COUNT = ''THROTTLED_COUNT''"
| "xml_attrName _ = []"

section \<open>Queries\<close>

definition xml_objType :: "XMLNode \<Rightarrow> string \<Rightarrow> PWR_ObjType res" where
  "xml_objType sys nm =
     rbind (xml_findObject sys nm) (\<lambda>r.
     case r of None \<Rightarrow> Inr PWR_OBJ_INVALID | Some e \<Rightarrow> rbind (attr_str e ''type'') (\<lambda>t. Inr (objTypeStrToInt t)))"

definition xml_hasObject :: "XMLNode \<Rightarrow> string \<Rightarrow> bool res" where
  "xml_hasObject sys nm = rbind (xml_findObject sys nm) (\<lambda>r. Inr (r \<noteq> None))"

fun plugins_loop :: "XMLNode list \<Rightarrow> PluginLib list res" where
  "plugins_loop [] = Inr []"
| "plugins_loop (e # es) =
     rbind (el_Name e) (\<lambda>x.
     rbind (assert_c (x = ''plugin'')) (\<lambda>_.
     rbind (attr_str e ''name'') (\<lambda>n.
     rbind (attr_str e ''lib'') (\<lambda>l.
     rbind (plugins_loop es) (\<lambda>ps. Inr (\<lparr>pl_name = n, pl_lib = l\<rparr> # ps))))))"

definition xml_findPlugins :: "XMLNode \<Rightarrow> PluginLib list res" where
  "xml_findPlugins sys = rbind (findNodes1stChild (FirstChild sys) ''Plugins'') plugins_loop"

fun sysdevs_loop :: "XMLNode list \<Rightarrow> SysDev list res" where
  "sysdevs_loop [] = Inr []"
| "sysdevs_loop (e # es) =
     rbind (el_Name e) (\<lambda>x.
     rbind (assert_c (x = ''device'')) (\<lambda>_.
     rbind (attr_str e ''name'') (\<lambda>n.
     rbind (attr_str e ''plugin'') (\<lambda>p.
     rbind (attr_str e ''initString'') (\<lambda>i.
     rbind (sysdevs_loop es) (\<lambda>ds. Inr (\<lparr>sd_name = n, sd_plugin = p, sd_initString = i\<rparr> # ds)))))))"

definition xml_findSysDevs :: "XMLNode \<Rightarrow> SysDev list res" where
  "xml_findSysDevs sys = rbind (findNodes1stChild (FirstChild sys) ''Devices'') sysdevs_loop"

text \<open>The sources of an attribute: those that are devices, and those that are children.\<close>

fun src_devs :: "XMLNode \<Rightarrow> XMLNode list \<Rightarrow> ObjDev list res" where
  "src_devs obj [] = Inr []"
| "src_devs obj (e # es) =
     rbind (el_Name e) (\<lambda>x.
     rbind (assert_c (x = ''src'')) (\<lambda>_.
     rbind (attr_str e ''type'') (\<lambda>t.
     if t = ''device'' then
       rbind (attr_str e ''name'') (\<lambda>n.
       rbind (findDev obj n) (\<lambda>r.
       case r of
         [] \<Rightarrow> Inl AssertFail
       | d # _ \<Rightarrow>
           rbind (attr_str d ''device'') (\<lambda>dv.
           rbind (attr_str d ''openString'') (\<lambda>os.
           rbind (src_devs obj es) (\<lambda>ds. Inr (\<lparr>od_device = dv, od_openString = os\<rparr> # ds))))))
     else src_devs obj es)))"

definition xml_findObjDevs :: "XMLNode \<Rightarrow> string \<Rightarrow> PWR_AttrName \<Rightarrow> ObjDev list res" where
  "xml_findObjDevs sys nm attr =
     rbind (xml_object sys nm) (\<lambda>obj.
     rbind (findAttr obj (xml_attrName attr)) (\<lambda>r.
     case r of [] \<Rightarrow> Inr [] | e # _ \<Rightarrow> src_devs obj (FirstChild e)))"

fun src_children :: "XMLNode list \<Rightarrow> string list res" where
  "src_children [] = Inr []"
| "src_children (e # es) =
     rbind (el_Name e) (\<lambda>x.
     rbind (assert_c (x = ''src'')) (\<lambda>_.
     rbind (attr_str e ''type'') (\<lambda>t.
     if t = ''child'' then rbind (attr_str e ''name'') (\<lambda>n. rbind (src_children es) (\<lambda>ns. Inr (n # ns)))
     else src_children es)))"

text \<open>The loops over the children's names compare and do nothing else, but assert that there are children.\<close>

definition check_children :: "XMLNode \<Rightarrow> string list \<Rightarrow> unit res" where
  "check_children obj ns =
     foldM (\<lambda>_ _.
       rbind (findNodes1stChild (FirstChild obj) ''children'') (\<lambda>es.
       rbind (assert_c (es \<noteq> [])) (\<lambda>_.
       foldM (\<lambda>e _. rbind (attr_str e ''name'') (\<lambda>_. Inr ())) es ()))) ns ()"

definition child_name :: "string \<Rightarrow> string \<Rightarrow> string" where
  "child_name p n = p @ ''.'' @ n"

definition xml_findAttrChildren :: "XMLNode \<Rightarrow> string \<Rightarrow> PWR_AttrName \<Rightarrow> string list res" where
  "xml_findAttrChildren sys nm attr =
     rbind (xml_object sys nm) (\<lambda>obj.
     rbind (findAttr obj (xml_attrName attr)) (\<lambda>r.
     case r of
       [] \<Rightarrow> Inr []
     | e # _ \<Rightarrow>
         rbind (src_children (FirstChild e)) (\<lambda>ns.
         rbind (check_children obj ns) (\<lambda>_.
         foldM (\<lambda>n ns. rbind (attr_str obj ''name'') (\<lambda>p. Inr (ns @ [child_name p n]))) ns []))))"

definition attr_field :: "string \<Rightarrow> XMLNode \<Rightarrow> string \<Rightarrow> PWR_AttrName \<Rightarrow> string res" where
  "attr_field field sys nm attr =
     rbind (xml_object sys nm) (\<lambda>obj.
     rbind (findAttr obj (xml_attrName attr)) (\<lambda>r.
     case r of
       [] \<Rightarrow> Inr []
     | e # _ \<Rightarrow> rbind (el_Attribute e field) (\<lambda>v. Inr (case v of None \<Rightarrow> [] | Some s \<Rightarrow> s))))"

definition xml_findAttrOp :: "XMLNode \<Rightarrow> string \<Rightarrow> PWR_AttrName \<Rightarrow> string res" where
  "xml_findAttrOp = attr_field ''op''"

definition xml_findAttrHz :: "XMLNode \<Rightarrow> string \<Rightarrow> PWR_AttrName \<Rightarrow> string res" where
  "xml_findAttrHz = attr_field ''hz''"

definition xml_findAttrType :: "string \<Rightarrow> PWR_AttrName \<Rightarrow> string" where
  "xml_findAttrType nm attr = ''Float''"

fun children_names :: "XMLNode \<Rightarrow> XMLNode list \<Rightarrow> string list res" where
  "children_names obj [] = Inr []"
| "children_names obj (e # es) =
     rbind (el_Name e) (\<lambda>x.
     rbind (assert_c (x = ''child'')) (\<lambda>_.
     rbind (attr_str obj ''name'') (\<lambda>p.
     rbind (attr_str e ''name'') (\<lambda>n.
     rbind (children_names obj es) (\<lambda>ns. Inr (child_name p n # ns))))))"

definition xml_findChildren :: "XMLNode \<Rightarrow> string \<Rightarrow> string list res" where
  "xml_findChildren sys nm =
     rbind (xml_object sys nm) (\<lambda>obj.
     rbind (findNodes1stChild (FirstChild obj) ''children'') (children_names obj))"

fun objtype_loop :: "string \<Rightarrow> XMLNode list \<Rightarrow> string list res" where
  "objtype_loop ts [] = Inr []"
| "objtype_loop ts (e # es) =
     rbind (el_Name e) (\<lambda>x.
     rbind (assert_c (x = ''obj'')) (\<lambda>_.
     rbind (attr_str e ''type'') (\<lambda>t.
     if ts = t then rbind (attr_str e ''name'') (\<lambda>n. rbind (objtype_loop ts es) (\<lambda>ns. Inr (n # ns)))
     else objtype_loop ts es)))"

definition findObjType :: "XMLNode \<Rightarrow> PWR_ObjType \<Rightarrow> string list res" where
  "findObjType sys ty =
     rbind (findNodes1stChild (FirstChild sys) ''Objects'') (objtype_loop (xml_objTypeToString ty))"

section \<open>Servers\<close>

text \<open>The location of an object, or of its next ancestor that has one; each turn shortens the name.\<close>

lemma length_xml_findParent: "xml_findParent nm \<noteq> [] \<Longrightarrow> length (xml_findParent nm) < length nm"
  using length_dropWhile_le [of "\<lambda>c. c \<noteq> CHR ''.''" "rev nm"] by (auto simp: xml_findParent_def)

function location_loop :: "XMLNode \<Rightarrow> string \<Rightarrow> XMLNode \<Rightarrow> string res" where
  "location_loop sys nm e =
     rbind (el_Attribute e ''location'') (\<lambda>l.
     case l of
       Some v \<Rightarrow> Inr v
     | None \<Rightarrow>
         (let p = xml_findParent nm in
          if p = [] then Inr []
          else rbind (xml_object sys p) (\<lambda>e. location_loop sys p e)))"
  by pat_completeness auto

termination
  by (relation "measure (\<lambda>(sys, nm, e). length nm)") (auto simp: length_xml_findParent)

definition findObjLocation :: "XMLNode \<Rightarrow> string \<Rightarrow> string res" where
  "findObjLocation sys nm = rbind (xml_object sys nm) (location_loop sys nm)"

definition xml_hasServer :: "XMLNode \<Rightarrow> string \<Rightarrow> bool res" where
  "xml_hasServer sys nm = rbind (findObjLocation sys nm) (\<lambda>l. Inr (l \<noteq> []))"

section \<open>The configuration of a context\<close>

text \<open>The queries as \<open>Cntxt\<close> takes them.\<close>

definition xml_config :: "XMLNode \<Rightarrow> config" where
  "xml_config sys =
     \<lparr>ask_findParent = \<lambda>nm. Inr (xml_findParent nm), ask_findAttrHz = xml_findAttrHz sys,
      ask_findAttrOp = xml_findAttrOp sys, ask_findAttrType = \<lambda>nm a. Inr (xml_findAttrType nm a),
      ask_findAttrChildren = xml_findAttrChildren sys, ask_findChildren = xml_findChildren sys, ask_hasServer = xml_hasServer sys,
      ask_findObjDevs = xml_findObjDevs sys, ask_findPlugins = xml_findPlugins sys,
      ask_findSysDevs = xml_findSysDevs sys, ask_objType = xml_objType sys\<rparr>"

lemma xml_config_asks [simp]:
  "ask_findParent (xml_config sys) nm = Inr (xml_findParent nm)" "ask_findAttrHz (xml_config sys) = xml_findAttrHz sys"
  "ask_findAttrOp (xml_config sys) = xml_findAttrOp sys" "ask_findAttrType (xml_config sys) nm a = Inr (xml_findAttrType nm a)"
  "ask_findAttrChildren (xml_config sys) = xml_findAttrChildren sys" "ask_findChildren (xml_config sys) = xml_findChildren sys"
  "ask_hasServer (xml_config sys) = xml_hasServer sys" "ask_findObjDevs (xml_config sys) = xml_findObjDevs sys"
  "ask_findPlugins (xml_config sys) = xml_findPlugins sys" "ask_findSysDevs (xml_config sys) = xml_findSysDevs sys"
  "ask_objType (xml_config sys) = xml_objType sys"
  by (simp_all add: xml_config_def)

end
