(* ===== verification/XmlProps.thy ===== *)
theory XmlProps
  imports XmlConfig Hierarchy
begin

text \<open>
  What the queries of a configuration return for a document of the expected shape, and what that means for the
  context that asks them. A description of a system is rendered as the document that the examples of the
  repository follow; \<open>XmlConfig\<close> reads it back.
\<close>

section \<open>Systems and their documents\<close>

record src_spec =
  ss_device :: bool
  ss_name :: string

record attr_spec =
  as_name :: string
  as_op :: "string option"
  as_hz :: "string option"
  as_srcs :: "src_spec list"

record dev_spec =
  ds_name :: string
  ds_dev :: ObjDev

record obj_spec =
  os_name :: string
  os_type :: string
  os_location :: "string option"
  os_attrs :: "attr_spec list"
  os_devs :: "dev_spec list"
  os_children :: "string list"

record sys_spec =
  sy_plugins :: "PluginLib list"
  sy_devs :: "SysDev list"
  sy_objs :: "obj_spec list"

definition opt_attr :: "string \<Rightarrow> string option \<Rightarrow> (string \<times> string) list" where
  "opt_attr a v = (case v of None \<Rightarrow> [] | Some s \<Rightarrow> [(a, s)])"

definition src_xml :: "src_spec \<Rightarrow> XMLNode" where
  "src_xml s = XMLElement ''src'' [(''type'', if ss_device s then ''device'' else ''child''), (''name'', ss_name s)] []"

definition attr_xml :: "attr_spec \<Rightarrow> XMLNode" where
  "attr_xml a = XMLElement ''attr'' ([(''name'', as_name a)] @ opt_attr ''op'' (as_op a) @ opt_attr ''hz'' (as_hz a))
     (map src_xml (as_srcs a))"

definition dev_xml :: "dev_spec \<Rightarrow> XMLNode" where
  "dev_xml d = XMLElement ''dev'' [(''name'', ds_name d), (''device'', od_device (ds_dev d)),
     (''openString'', od_openString (ds_dev d))] []"

definition child_xml :: "string \<Rightarrow> XMLNode" where
  "child_xml n = XMLElement ''child'' [(''name'', n)] []"

definition obj_xml :: "obj_spec \<Rightarrow> XMLNode" where
  "obj_xml ob = XMLElement ''obj'' ([(''name'', os_name ob), (''type'', os_type ob)] @ opt_attr ''location'' (os_location ob))
     [XMLElement ''attributes'' [] (map attr_xml (os_attrs ob)), XMLElement ''devices'' [] (map dev_xml (os_devs ob)),
      XMLElement ''children'' [] (map child_xml (os_children ob))]"

definition sys_xml :: "sys_spec \<Rightarrow> XMLNode" where
  "sys_xml s = XMLElement ''System'' []
     [XMLElement ''Plugins'' [] (map (\<lambda>p. XMLElement ''plugin'' [(''name'', pl_name p), (''lib'', pl_lib p)] []) (sy_plugins s)),
      XMLElement ''Devices'' [] (map (\<lambda>d. XMLElement ''device'' [(''name'', sd_name d), (''plugin'', sd_plugin d),
        (''initString'', sd_initString d)] []) (sy_devs s)),
      XMLElement ''Objects'' [] (map obj_xml (sy_objs s))]"

definition sys_find :: "sys_spec \<Rightarrow> string \<Rightarrow> obj_spec option" where
  "sys_find s nm = find (\<lambda>ob. os_name ob = nm) (sy_objs s)"

definition attr_find :: "obj_spec \<Rightarrow> PWR_AttrName \<Rightarrow> attr_spec option" where
  "attr_find ob a = find (\<lambda>x. as_name x = xml_attrName a) (os_attrs ob)"

definition dev_find :: "obj_spec \<Rightarrow> string \<Rightarrow> dev_spec option" where
  "dev_find ob nm = find (\<lambda>d. ds_name d = nm) (os_devs ob)"

text \<open>An object is complete if its device sources name devices it has, and it has children if a source is one.\<close>

definition obj_complete :: "obj_spec \<Rightarrow> bool" where
  "obj_complete ob \<longleftrightarrow> (\<forall>a \<in> set (os_attrs ob). \<forall>s \<in> set (as_srcs a).
     if ss_device s then dev_find ob (ss_name s) \<noteq> None else os_children ob \<noteq> [])"

section \<open>Reading back\<close>

lemma xml_simps [simp]:
  "el_Name (obj_xml ob) = Inr ''obj''" "attr_str (obj_xml ob) ''name'' = Inr (os_name ob)"
  "attr_str (obj_xml ob) ''type'' = Inr (os_type ob)" "el_Attribute (obj_xml ob) ''location'' = Inr (os_location ob)"
  "FirstChild (obj_xml ob) = [XMLElement ''attributes'' [] (map attr_xml (os_attrs ob)),
     XMLElement ''devices'' [] (map dev_xml (os_devs ob)), XMLElement ''children'' [] (map child_xml (os_children ob))]"
  "el_Name (src_xml s) = Inr ''src''" "attr_str (src_xml s) ''type'' = Inr (if ss_device s then ''device'' else ''child'')"
  "attr_str (src_xml s) ''name'' = Inr (ss_name s)"
  "attr_str (attr_xml a) ''name'' = Inr (as_name a)" "el_Attribute (attr_xml a) ''op'' = Inr (as_op a)"
  "el_Attribute (attr_xml a) ''hz'' = Inr (as_hz a)" "FirstChild (attr_xml a) = map src_xml (as_srcs a)"
  "attr_str (dev_xml d) ''name'' = Inr (ds_name d)" "attr_str (dev_xml d) ''device'' = Inr (od_device (ds_dev d))"
  "attr_str (dev_xml d) ''openString'' = Inr (od_openString (ds_dev d))"
  "el_Name (child_xml n) = Inr ''child''" "attr_str (child_xml n) ''name'' = Inr n"
  by (simp_all add: obj_xml_def src_xml_def attr_xml_def dev_xml_def child_xml_def attr_str_def opt_attr_def split: option.splits)

lemma object_loop_find: "object_loop (map obj_xml obs) nm = Inr (map_option obj_xml (find (\<lambda>ob. os_name ob = nm) obs))"
  by (induction obs) auto

lemma xml_findObject_sys: "xml_findObject (sys_xml s) nm = Inr (map_option obj_xml (sys_find s nm))"
  by (simp add: xml_findObject_def sys_xml_def findNodes1stChild_def sys_find_def object_loop_find)

lemma xml_object_sys: "sys_find s nm = Some ob \<Longrightarrow> xml_object (sys_xml s) nm = Inr (obj_xml ob)"
  by (simp add: xml_object_def xml_findObject_sys)

lemma with_attr_find:
  assumes "\<And>x. attr_str (f x) a = Inr (key x)"
  shows "case find (\<lambda>x. key x = v) xs of None \<Rightarrow> with_attr (map f xs) a v = Inr []
    | Some x \<Rightarrow> \<exists>rest. with_attr (map f xs) a v = Inr (f x # rest)"
  by (induction xs) (auto simp: assms split: option.splits)

lemma findAttr_obj:
  "case attr_find ob a of None \<Rightarrow> findAttr (obj_xml ob) (xml_attrName a) = Inr []
    | Some x \<Rightarrow> \<exists>rest. findAttr (obj_xml ob) (xml_attrName a) = Inr (attr_xml x # rest)"
  using with_attr_find [where f = attr_xml and a = "''name''" and key = as_name and v = "xml_attrName a" and xs = "os_attrs ob"]
  by (auto simp: findAttr_def findNodeWithAttr_def findNodes1stChild_def attr_find_def split: option.splits)

lemma findDev_obj:
  "dev_find ob nm \<noteq> None \<Longrightarrow> \<exists>rest. findDev (obj_xml ob) nm = Inr (dev_xml (the (dev_find ob nm)) # rest)"
  using with_attr_find [where f = dev_xml and a = "''name''" and key = ds_name and v = nm and xs = "os_devs ob"]
  by (auto simp: findDev_def findNodeWithAttr_def findNodes1stChild_def dev_find_def)

lemma attr_field_sys:
  assumes "sys_find s nm = Some ob" "\<And>x. el_Attribute (attr_xml x) fld = Inr (get x)"
  shows "attr_field fld (sys_xml s) nm a =
    Inr (case attr_find ob a of None \<Rightarrow> [] | Some x \<Rightarrow> (case get x of None \<Rightarrow> [] | Some v \<Rightarrow> v))"
  using findAttr_obj [of ob a] by (auto simp: attr_field_def xml_object_sys [OF assms(1)] assms(2) split: option.splits)

lemma src_devs_obj:
  "(\<forall>x \<in> set srcs. ss_device x \<longrightarrow> dev_find ob (ss_name x) \<noteq> None) \<Longrightarrow> src_devs (obj_xml ob) (map src_xml srcs) =
    Inr (map (\<lambda>x. ds_dev (the (dev_find ob (ss_name x)))) (filter ss_device srcs))"
  by (induction srcs) (auto dest!: findDev_obj simp del: not_None_eq)

lemma src_children_obj: "src_children (map src_xml srcs) = Inr (map ss_name (filter (\<lambda>x. \<not> ss_device x) srcs))"
  by (induction srcs) auto

lemma check_children_obj:
  assumes "ns = [] \<or> os_children ob \<noteq> []"
  shows "check_children (obj_xml ob) ns = Inr ()"
proof -
  have loop: "foldM (\<lambda>e _. rbind (attr_str e ''name'') (\<lambda>_. Inr ())) (map child_xml cs) () = Inr ()" for cs
    by (induction cs) auto
  show ?thesis
    using assms unfolding check_children_def
    by (induction ns) (auto simp: findNodes1stChild_def loop)
qed

lemma foldM_append_names:
  "foldM (\<lambda>n ns. rbind (attr_str (obj_xml ob) ''name'') (\<lambda>p. Inr (ns @ [child_name p n]))) ns acc =
     Inr (acc @ map (child_name (os_name ob)) ns)"
  by (induction ns arbitrary: acc) auto

lemma children_names_obj: "children_names (obj_xml ob) (map child_xml cs) = Inr (map (child_name (os_name ob)) cs)"
  by (induction cs) auto

lemma plugins_sys: "xml_findPlugins (sys_xml s) = Inr (sy_plugins s)"
proof -
  have "plugins_loop (map (\<lambda>p. XMLElement ''plugin'' [(''name'', pl_name p), (''lib'', pl_lib p)] []) ps) = Inr ps" for ps
    by (induction ps) (auto simp: attr_str_def)
  then show ?thesis by (simp add: xml_findPlugins_def sys_xml_def findNodes1stChild_def)
qed

lemma sysdevs_sys: "xml_findSysDevs (sys_xml s) = Inr (sy_devs s)"
proof -
  have "sysdevs_loop (map (\<lambda>d. XMLElement ''device'' [(''name'', sd_name d), (''plugin'', sd_plugin d),
        (''initString'', sd_initString d)] []) ds) = Inr ds" for ds
    by (induction ds) (auto simp: attr_str_def)
  then show ?thesis by (simp add: xml_findSysDevs_def sys_xml_def findNodes1stChild_def)
qed

lemma sys_find_name: "sys_find s nm = Some ob \<Longrightarrow> ob \<in> set (sy_objs s) \<and> os_name ob = nm"
  by (auto simp: sys_find_def find_Some_iff)

lemma xml_queries:
  assumes "sys_find s nm = Some ob" "obj_complete ob"
  shows "xml_objType (sys_xml s) nm = Inr (objTypeStrToInt (os_type ob)) \<and>
    xml_findChildren (sys_xml s) nm = Inr (map (child_name nm) (os_children ob)) \<and>
    xml_findAttrOp (sys_xml s) nm a = Inr (case attr_find ob a of None \<Rightarrow> [] | Some x \<Rightarrow> (case as_op x of None \<Rightarrow> [] | Some v \<Rightarrow> v)) \<and>
    xml_findAttrHz (sys_xml s) nm a = Inr (case attr_find ob a of None \<Rightarrow> [] | Some x \<Rightarrow> (case as_hz x of None \<Rightarrow> [] | Some v \<Rightarrow> v)) \<and>
    xml_findObjDevs (sys_xml s) nm a = Inr (case attr_find ob a of None \<Rightarrow> [] | Some x \<Rightarrow>
      map (\<lambda>y. ds_dev (the (dev_find ob (ss_name y)))) (filter ss_device (as_srcs x))) \<and>
    xml_findAttrChildren (sys_xml s) nm a = Inr (case attr_find ob a of None \<Rightarrow> [] | Some x \<Rightarrow>
      map (\<lambda>y. child_name nm (ss_name y)) (filter (\<lambda>y. \<not> ss_device y) (as_srcs x))) \<and>
    xml_findPlugins (sys_xml s) = Inr (sy_plugins s) \<and> xml_findSysDevs (sys_xml s) = Inr (sy_devs s)"
proof -
  have nm: "os_name ob = nm" using sys_find_name [OF assms(1)] by simp
  have ch: "xml_findChildren (sys_xml s) nm = Inr (map (child_name nm) (os_children ob))"
    by (simp add: xml_findChildren_def xml_object_sys [OF assms(1)] findNodes1stChild_def children_names_obj nm)
  have op: "xml_findAttrOp (sys_xml s) nm a =
      Inr (case attr_find ob a of None \<Rightarrow> [] | Some x \<Rightarrow> (case as_op x of None \<Rightarrow> [] | Some v \<Rightarrow> v))"
    unfolding xml_findAttrOp_def by (rule attr_field_sys [OF assms(1)]) simp
  have hz: "xml_findAttrHz (sys_xml s) nm a =
      Inr (case attr_find ob a of None \<Rightarrow> [] | Some x \<Rightarrow> (case as_hz x of None \<Rightarrow> [] | Some v \<Rightarrow> v))"
    unfolding xml_findAttrHz_def by (rule attr_field_sys [OF assms(1)]) simp
  have srcs: "(\<forall>y \<in> set (as_srcs x). ss_device y \<longrightarrow> dev_find ob (ss_name y) \<noteq> None) \<and>
      (filter (\<lambda>y. \<not> ss_device y) (as_srcs x) = [] \<or> os_children ob \<noteq> [])" if "attr_find ob a = Some x" for x
  proof -
    from that have "x \<in> set (os_attrs ob)" by (auto simp: attr_find_def find_Some_iff)
    with assms(2) show ?thesis by (fastforce simp: obj_complete_def filter_empty_conv)
  qed
  have dv: "xml_findObjDevs (sys_xml s) nm a = Inr (case attr_find ob a of None \<Rightarrow> [] | Some x \<Rightarrow>
      map (\<lambda>y. ds_dev (the (dev_find ob (ss_name y)))) (filter ss_device (as_srcs x)))"
    using findAttr_obj [of ob a] srcs
    by (cases "attr_find ob a") (auto simp: xml_findObjDevs_def xml_object_sys [OF assms(1)] src_devs_obj simp del: not_None_eq)
  have ac: "xml_findAttrChildren (sys_xml s) nm a = Inr (case attr_find ob a of None \<Rightarrow> [] | Some x \<Rightarrow>
      map (\<lambda>y. child_name nm (ss_name y)) (filter (\<lambda>y. \<not> ss_device y) (as_srcs x)))"
    using findAttr_obj [of ob a] srcs
    by (cases "attr_find ob a")
      (auto simp: xml_findAttrChildren_def xml_object_sys [OF assms(1)] src_children_obj check_children_obj
        foldM_append_names nm simp del: not_None_eq xml_simps(2))
  show ?thesis
    using ch op hz dv ac by (simp add: xml_objType_def xml_findObject_sys assms(1) plugins_sys sysdevs_sys)
qed

text \<open>
  C13: A document of the expected shape is read back: the queries for the children, the operation, frequency, devices and
  children of an attribute of an object that is there, and those for the plugins and devices of the system, return what the description of
  the system says, and none is a fault, if the sources of its attributes are devices and children it has. The type is the one
  \<^verbatim>\<open>objTypeStrToInt\<close> makes of the name in the document, a core for a memory, a network interface and a power plane.
\<close>

theorem xml_reads_back:
  assumes "sys_find s nm = Some ob" "obj_complete ob"
  shows "xml_objType (sys_xml s) nm = Inr (objTypeStrToInt (os_type ob)) \<and>
    xml_findChildren (sys_xml s) nm = Inr (map (child_name nm) (os_children ob)) \<and>
    xml_findAttrOp (sys_xml s) nm a = Inr (case attr_find ob a of None \<Rightarrow> [] | Some x \<Rightarrow> (case as_op x of None \<Rightarrow> [] | Some v \<Rightarrow> v)) \<and>
    xml_findAttrHz (sys_xml s) nm a = Inr (case attr_find ob a of None \<Rightarrow> [] | Some x \<Rightarrow> (case as_hz x of None \<Rightarrow> [] | Some v \<Rightarrow> v)) \<and>
    xml_findObjDevs (sys_xml s) nm a = Inr (case attr_find ob a of None \<Rightarrow> [] | Some x \<Rightarrow>
      map (\<lambda>y. ds_dev (the (dev_find ob (ss_name y)))) (filter ss_device (as_srcs x))) \<and>
    xml_findAttrChildren (sys_xml s) nm a = Inr (case attr_find ob a of None \<Rightarrow> [] | Some x \<Rightarrow>
      map (\<lambda>y. child_name nm (ss_name y)) (filter (\<lambda>y. \<not> ss_device y) (as_srcs x))) \<and>
    xml_findPlugins (sys_xml s) = Inr (sy_plugins s) \<and> xml_findSysDevs (sys_xml s) = Inr (sy_devs s)"
  using assms by (rule xml_queries)

definition demo_sys :: sys_spec where
  "demo_sys =
     \<lparr>sy_plugins = [\<lparr>pl_name = ''Dummy'', pl_lib = ''libdummy_dev''\<rparr>],
      sy_devs = [\<lparr>sd_name = ''Dummy-node0'', sd_plugin = ''Dummy'', sd_initString = ''node0''\<rparr>],
      sy_objs =
        [\<lparr>os_name = ''p'', os_type = ''Platform'', os_location = Some ''host'',
          os_attrs = [\<lparr>as_name = ''POWER'', as_op = Some ''SUM'', as_hz = None, as_srcs = [\<lparr>ss_device = False, ss_name = ''a''\<rparr>]\<rparr>],
          os_devs = [], os_children = [''a'', ''b'']\<rparr>,
         \<lparr>os_name = ''p.a'', os_type = ''Memory'', os_location = None,
          os_attrs = [\<lparr>as_name = ''POWER'', as_op = Some ''SUM'', as_hz = Some ''10'', as_srcs = [\<lparr>ss_device = True, ss_name = ''d''\<rparr>]\<rparr>],
          os_devs = [\<lparr>ds_name = ''d'', ds_dev = \<lparr>od_device = ''Dummy-node0'', od_openString = ''0''\<rparr>\<rparr>], os_children = []\<rparr>,
         \<lparr>os_name = ''p.b'', os_type = ''Node'', os_location = Some ''other'', os_attrs = [], os_devs = [], os_children = []\<rparr>]\<rparr>"

theorem xml_reads_back_witness:
  "xml_findAttrChildren (sys_xml demo_sys) ''p'' PWR_ATTR_POWER = Inr [''p.a''] \<and>
   xml_findObjDevs (sys_xml demo_sys) ''p.a'' PWR_ATTR_POWER = Inr [\<lparr>od_device = ''Dummy-node0'', od_openString = ''0''\<rparr>]"
  using xml_reads_back [of demo_sys "''p''" "sy_objs demo_sys ! 0" PWR_ATTR_POWER]
    xml_reads_back [of demo_sys "''p.a''" "sy_objs demo_sys ! 1" PWR_ATTR_POWER]
  by (simp add: demo_sys_def sys_find_def obj_complete_def dev_find_def attr_find_def child_name_def)

section \<open>Names\<close>

lemma xml_findParent_child: "CHR ''.'' \<notin> set c \<Longrightarrow> xml_findParent (child_name p c) = p"
  by (simp add: xml_findParent_def child_name_def dropWhile_append2 dropWhile_append)

lemma xml_findParent_top:
  assumes "CHR ''.'' \<notin> set c"
  shows "xml_findParent c = []"
proof -
  have "dropWhile (\<lambda>c. c \<noteq> CHR ''.'') (rev c) = []" using assms by (auto simp: dropWhile_eq_Nil_conv)
  then show ?thesis unfolding xml_findParent_def by (simp only: drop_Nil rev.simps)
qed

lemma join_snoc: "cs \<noteq> [] \<Longrightarrow> join d (cs @ [c]) = join d cs @ d # c"
  by (induction d cs rule: join.induct) (auto simp: neq_Nil_conv)

definition loc_of :: "sys_spec \<Rightarrow> string \<Rightarrow> string option" where
  "loc_of s nm = (case sys_find s nm of None \<Rightarrow> None | Some ob \<Rightarrow> os_location ob)"

definition prefixes_up :: "string list \<Rightarrow> string list" where
  "prefixes_up cs = map (\<lambda>k. join CHR ''.'' (take k cs)) (rev [1..<Suc (length cs)])"

lemma prefixes_up_snoc: "prefixes_up (cs @ [c]) = join CHR ''.'' (cs @ [c]) # prefixes_up cs"
  by (auto simp: prefixes_up_def)

lemma join_ne: "cs \<noteq> [] \<Longrightarrow> [] \<notin> set cs \<Longrightarrow> join d cs \<noteq> []"
  by (cases "(d, cs)" rule: join.cases) auto

lemma location_of_prefix:
  assumes "cs \<noteq> []" "\<forall>c \<in> set cs. c \<noteq> [] \<and> CHR ''.'' \<notin> set c" "\<forall>nm \<in> set (prefixes_up cs). sys_find s nm \<noteq> None"
  shows "findObjLocation (sys_xml s) (join CHR ''.'' cs) =
    Inr (case List.map_filter (loc_of s) (prefixes_up cs) of [] \<Rightarrow> [] | l # _ \<Rightarrow> l)"
  using assms
proof (induction cs rule: rev_induct)
  case (snoc c cs)
  let ?nm = "join CHR ''.'' (cs @ [c])"
  from snoc.prems(3) obtain ob where ob: "sys_find s ?nm = Some ob" by (auto simp: prefixes_up_snoc)
  show ?case
  proof (cases "cs = []")
    case True
    with snoc.prems ob show ?thesis
      by (auto simp: findObjLocation_def xml_object_sys location_loop.simps [of _ c] xml_findParent_top prefixes_up_def
          map_filter_simps loc_of_def split: option.splits)
  next
    case False
    have p: "xml_findParent ?nm = join CHR ''.'' cs"
      using xml_findParent_child [of c "join CHR ''.'' cs"] snoc.prems(2) False by (simp add: join_snoc child_name_def)
    have ne: "join CHR ''.'' cs \<noteq> []" using False snoc.prems(2) by (intro join_ne) auto
    have "findObjLocation (sys_xml s) ?nm =
        (case os_location ob of Some v \<Rightarrow> Inr v | None \<Rightarrow> findObjLocation (sys_xml s) (join CHR ''.'' cs))"
      using ob p ne
      by (simp add: findObjLocation_def xml_object_sys location_loop.simps [of _ "?nm"] Let_def split: option.splits)
    with snoc False ob show ?thesis
      by (auto simp: prefixes_up_snoc map_filter_simps loc_of_def split: option.splits)
  qed
qed simp

text \<open>
  C16: An object has a server if the nearest of itself and its ancestors that has a location has one that is not empty; where
  every prefix of its name is an object, the search ends and finds it.
\<close>

theorem server_inherited:
  assumes "cs \<noteq> []" "\<forall>c \<in> set cs. c \<noteq> [] \<and> CHR ''.'' \<notin> set c" "\<forall>nm \<in> set (prefixes_up cs). sys_find s nm \<noteq> None"
  shows "xml_hasServer (sys_xml s) (join CHR ''.'' cs) =
    Inr (case List.map_filter (loc_of s) (prefixes_up cs) of [] \<Rightarrow> False | l # _ \<Rightarrow> l \<noteq> [])"
  using location_of_prefix [OF assms] by (simp add: xml_hasServer_def split: list.splits)

theorem server_inherited_witness:
  "xml_hasServer (sys_xml demo_sys) ''p.a'' = Inr True"
proof -
  have p: "prefixes_up [''p'', ''a''] = [''p.a'', ''p'']" by (simp add: prefixes_up_def upt_rec)
  have "\<forall>nm \<in> set (prefixes_up [''p'', ''a'']). sys_find demo_sys nm \<noteq> None" "loc_of demo_sys ''p.a'' = None"
    "loc_of demo_sys ''p'' = Some ''host''"
    by (simp_all add: p sys_find_def demo_sys_def loc_of_def)
  with server_inherited [of "[''p'', ''a'']" demo_sys] p show ?thesis by (simp add: map_filter_simps)
qed

text \<open>
  In a context configured by such a document, the group of the children of an object holds exactly the objects named as
  the parent, a dot and the name of a child, and the parent of each of them is the object, if no child's name has a dot.
\<close>

theorem xml_children_tree:
  assumes "m_config c = xml_config (sys_xml s)" "sys_find s nm = Some x" "\<forall>y \<in> set (os_children x). CHR ''.'' \<notin> set y"
    and "cntxt_ok c" "m_objMap c nm = Some ob" "nm \<noteq> []" "getChildren n ob c = Inr (g, c')"
  shows "\<exists>ms. heap_get (c_grps c') g = Inr (PlainGrp \<lparr>g_name = [], g_list = ms\<rparr>) \<and> distinct ms \<and>
    set ms = {a. \<exists>y \<in> set (os_children x). m_objMap c' (nm @ ''.'' @ y) = Some a} \<and>
    length ms = card (set (os_children x)) \<and>
    (\<forall>a \<in> set ms. getParent k a c' = Inr (if Some a = m_rootObj c then None else Some ob, c'))"
proof -
  have ch: "findChildren (m_config c) nm = map (child_name nm) (os_children x)"
    using sys_find_name [OF assms(2)]
    by (simp add: assms(1) xml_findChildren_def xml_object_sys [OF assms(2)] findNodes1stChild_def
        children_names_obj findChildren_def)
  have par: "\<forall>y \<in> set (findChildren (m_config c) nm). findParent (m_config c) y = nm"
    using assms(3) unfolding ch by (auto simp: assms(1) findParent_def xml_findParent_child)
  have inj: "inj_on (child_name nm) (set (os_children x))" by (auto simp: inj_on_def child_name_def)
  from children_parents [OF assms(4-7) par, of k] obtain ms where
    ms: "heap_get (c_grps c') g = Inr (PlainGrp \<lparr>g_name = [], g_list = ms\<rparr>)" "distinct ms"
      "set ms = {a. \<exists>y \<in> set (findChildren (m_config c) nm). m_objMap c' y = Some a}"
      "card (set (findChildren (m_config c) nm)) = length ms"
      "\<forall>a \<in> set ms. getParent k a c' = Inr (if Some a = m_rootObj c then None else Some ob, c')"
    by blast
  have "set ms = {a. \<exists>y \<in> set (os_children x). m_objMap c' (nm @ ''.'' @ y) = Some a}"
    using ms(3) by (simp add: ch child_name_def)
  moreover have "length ms = card (set (os_children x))" using ms(4) by (simp add: ch card_image [OF inj])
  ultimately show ?thesis using ms(1,2,5) by blast
qed

definition demo_xml_tree :: "dummy_state cntxt" where
  "demo_xml_tree = demo_tree\<lparr>m_config := xml_config (sys_xml demo_sys)\<rparr>"

lemma demo_xml_tree_ok: "cntxt_ok demo_xml_tree"
  using demo_tree_ok by (simp add: cntxt_ok_def comms_ok_def demo_xml_tree_def)

lemma demo_xml_children:
  "\<exists>c'. getChildren 0 0 demo_xml_tree = Inr (0, c') \<and> heap_get (c_grps c') 0 = Inr (PlainGrp \<lparr>g_name = [], g_list = [1, 2]\<rparr>)"
proof -
  have "ask_findChildren (xml_config (sys_xml demo_sys)) ''p'' = Inr [''p.a'', ''p.b'']"
    by (simp add: xml_findChildren_def xml_object_def xml_findObject_sys sys_find_def demo_sys_def
        findNodes1stChild_def children_names_obj child_name_def)
  then show ?thesis
    by (simp add: getChildren_def demo_xml_tree_def demo_tree_def demo_cntxt_def new_grp_def obj_name_def heap_get_def
        demo_node_def must_find_def findObject_def any_add_def grp_add_def heap_set_def)
qed

theorem xml_children_tree_witness:
  "\<exists>c'. getChildren 0 0 demo_xml_tree = Inr (0, c') \<and> getParent 0 1 c' = Inr (Some 0, c') \<and> getParent 0 2 c' = Inr (Some 0, c')"
proof -
  obtain c' where c': "getChildren 0 0 demo_xml_tree = Inr (0, c')" "heap_get (c_grps c') 0 = Inr (PlainGrp \<lparr>g_name = [], g_list = [1, 2]\<rparr>)"
    using demo_xml_children by blast
  have f: "m_config demo_xml_tree = xml_config (sys_xml demo_sys)" "m_objMap demo_xml_tree ''p'' = Some 0"
    "m_rootObj demo_xml_tree = None"
    by (simp_all add: demo_xml_tree_def demo_tree_def demo_cntxt_def)
  have "sys_find demo_sys ''p'' = Some (sy_objs demo_sys ! 0)" "\<forall>y \<in> set (os_children (sy_objs demo_sys ! 0)). CHR ''.'' \<notin> set y"
    by (simp_all add: sys_find_def demo_sys_def)
  from xml_children_tree [OF f(1) this demo_xml_tree_ok f(2) _ c'(1), of 0] c' f(3) show ?thesis by auto
qed

text \<open>The types of an object that are read as another than the one they are written as.\<close>

lemma types_read_as_core:
  "objTypeStrToInt (xml_objTypeToString t) =
     (if t \<in> {PWR_OBJ_POWER_PLANE, PWR_OBJ_MEM, PWR_OBJ_NIC} then PWR_OBJ_CORE
      else if t \<in> {PWR_NUM_OBJ_TYPES, PWR_OBJ_NOT_SPECIFIED} then PWR_OBJ_INVALID else t)"
  by (cases t) (simp_all add: objTypeStrToInt_def)

end
