(* ===== verification/PyConfig.thy ===== *)
theory PyConfig
  imports XmlProps CString
begin

text \<open>
  The configuration answered by a Python module (\<^verbatim>\<open>pyConfig.cc\<close>). The interpreter is not part of the
  program: a module is the function its attributes are, and a function of it returns the value of the object that a call gives, or nothing
  if it raised an exception. The object is made for the call, with one reference to it and one to each element of its lists, as the modules
  in \<^verbatim>\<open>examples/config\<close> do it; so that a query leaves the module as it was, and the next one starts from fresh objects. (A module that
  keeps its lists and loses a reference of its own with every query is not modelled.) An object counts the references to it; at
  0 it is deallocated, and every use of it after that is a fault. The mutex of the class has no effect on one thread.
\<close>

section \<open>Objects of the interpreter\<close>

datatype pyobj = PyStr nat string | PyList nat "pyobj list" | PyOther nat

datatype pyarg = ArgStr string | ArgInt int

text \<open>What a call returns, and the object made for it; what is neither a string nor a list is \<^verbatim>\<open>None\<close>, which is never deallocated.\<close>

datatype pyval = PvStr string | PvList "pyval list" | PvNone

fun py_new :: "pyval \<Rightarrow> pyobj" where
  "py_new (PvStr s) = PyStr 1 s"
| "py_new (PvList vs) = PyList 1 (map py_new vs)"
| "py_new PvNone = PyOther 2"

type_synonym pymod = "string \<Rightarrow> (pyarg list \<Rightarrow> pyval option) option"

fun py_refs :: "pyobj \<Rightarrow> nat" where
  "py_refs (PyStr c s) = c"
| "py_refs (PyList c xs) = c"
| "py_refs (PyOther c) = c"

definition py_live :: "pyobj \<Rightarrow> unit res" where
  "py_live t = (if py_refs t = 0 then Inl NullDeref else Inr ())"

text \<open>\<^verbatim>\<open>PyList_Size\<close> is \<open>-1\<close> for what is not a list, and an element of it is then the null pointer.\<close>

definition PyList_Size :: "pyobj \<Rightarrow> int res" where
  "PyList_Size t = rbind (py_live t) (\<lambda>_. Inr (case t of PyList c xs \<Rightarrow> int (length xs) | _ \<Rightarrow> - 1))"

definition PyList_GetItem :: "pyobj \<Rightarrow> nat \<Rightarrow> pyobj option res" where
  "PyList_GetItem t i = rbind (py_live t) (\<lambda>_.
     Inr (case t of PyList c xs \<Rightarrow> if i < length xs then Some (xs ! i) else None | _ \<Rightarrow> None))"

text \<open>The characters of a string; what is not one gives the null pointer, of which the code makes a \<^verbatim>\<open>std::string\<close>.\<close>

definition py_string :: "pyobj option \<Rightarrow> string res" where
  "py_string p = rbind (deref p) (\<lambda>t. rbind (py_live t) (\<lambda>_. case t of PyStr c s \<Rightarrow> Inr s | _ \<Rightarrow> Inl NullDeref))"

fun Py_DECREF :: "pyobj \<Rightarrow> pyobj res" and py_release :: "pyobj list \<Rightarrow> unit res" where
  "Py_DECREF (PyStr c s) = (if c = 0 then Inl NullDeref else Inr (PyStr (c - 1) s))"
| "Py_DECREF (PyOther c) = (if c = 0 then Inl NullDeref else Inr (PyOther (c - 1)))"
| "Py_DECREF (PyList c xs) =
     (if c = 0 then Inl NullDeref
      else if c = 1 then rbind (py_release xs) (\<lambda>_. Inr (PyList 0 []))
      else Inr (PyList (c - 1) xs))"
| "py_release [] = Inr ()"
| "py_release (x # xs) = rbind (Py_DECREF x) (\<lambda>_. py_release xs)"

section \<open>The module\<close>

text \<open>
  The directory and the name of the module in the name of the file. The module is imported once: the class keeps the first one in a
  static member, and every later configuration is answered by it.
\<close>

definition py_module_name :: "string \<Rightarrow> (string option \<times> string) res" where
  "py_module_name file =
     rbind (case find_last_of CHR ''/'' file of
              None \<Rightarrow> Inr (None, file)
            | Some pos \<Rightarrow> rbind (substr file 0 pos) (\<lambda>path. rbind (substr file (pos + 1) npos) (\<lambda>m. Inr (Some path, m))))
       (\<lambda>(path, m). rbind (substr m 0 (pos_val (find_last_of CHR ''.'' m))) (\<lambda>m. Inr (path, m)))"

definition new_PyConfig ::
    "(string option \<Rightarrow> string \<Rightarrow> pymod option) \<Rightarrow> pymod option \<Rightarrow> string \<Rightarrow> pymod option res" where
  "new_PyConfig import m_pModule file =
     rbind (py_module_name file) (\<lambda>(path, m).
     case m_pModule of
       Some md \<Rightarrow> Inr m_pModule
     | None \<Rightarrow> rbind (assert_c (import path m \<noteq> None)) (\<lambda>_. Inr (import path m)))"

definition py_function :: "pymod \<Rightarrow> string \<Rightarrow> (pyarg list \<Rightarrow> pyobj option) res" where
  "py_function md f = rbind (assert_c (md f \<noteq> None)) (\<lambda>_. rbind (deref (md f)) (\<lambda>g. Inr (\<lambda>as. map_option py_new (g as))))"

text \<open>A call whose result must not be null.\<close>

definition py_call :: "pymod \<Rightarrow> string \<Rightarrow> pyarg list \<Rightarrow> pyobj res" where
  "py_call md f as =
     rbind (py_function md f) (\<lambda>g. rbind (assert_c (g as \<noteq> None)) (\<lambda>_. deref (g as)))"

section \<open>Names and types\<close>

definition py_objTypeStrToInt :: "string \<Rightarrow> PWR_ObjType" where
  "py_objTypeStrToInt nm =
     (if nm = ''Platform'' then PWR_OBJ_PLATFORM
      else if nm = ''Cabinet'' then PWR_OBJ_CABINET
      else if nm = ''Chassis'' then PWR_OBJ_CHASSIS
      else if nm = ''Board'' then PWR_OBJ_BOARD
      else if nm = ''Node'' then PWR_OBJ_NODE
      else if nm = ''Socket'' then PWR_OBJ_SOCKET
      else if nm = ''Core'' then PWR_OBJ_CORE
      else if nm = ''Power Plane'' then PWR_OBJ_CORE
      else if nm = ''Memory'' then PWR_OBJ_CORE
      else if nm = ''Nic'' then PWR_OBJ_CORE
      else PWR_OBJ_INVALID)"

fun py_attrName :: "PWR_AttrName \<Rightarrow> string" where
  "py_attrName PWR_ATTR_PSTATE = ''PSTATE''"
| "py_attrName PWR_ATTR_CSTATE = ''CSTATE''"
| "py_attrName PWR_ATTR_CSTATE_LIMIT = ''CSTATE_LIMIT''"
| "py_attrName PWR_ATTR_SSTATE = ''SSTATE''"
| "py_attrName PWR_ATTR_CURRENT = ''CURRENT''"
| "py_attrName PWR_ATTR_VOLTAGE = ''VOLTAGE''"
| "py_attrName PWR_ATTR_POWER = ''POWER''"
| "py_attrName PWR_ATTR_POWER_LIMIT_MAX = ''MAX_POWER''"
| "py_attrName PWR_ATTR_POWER_LIMIT_MIN = ''MIN_POWER''"
| "py_attrName PWR_ATTR_FREQ = ''FREQ''"
| "py_attrName PWR_ATTR_FREQ_LIMIT_MIN = ''FREQ_MIN''"
| "py_attrName PWR_ATTR_FREQ_LIMIT_MAX = ''FREQ_MAX''"
| "py_attrName PWR_ATTR_ENERGY = ''ENERGY''"
| "py_attrName PWR_ATTR_TEMP = ''TEMP''"
| "py_attrName PWR_ATTR_OS_ID = ''OS_ID''"
| "py_attrName PWR_ATTR_THROTTLED_TIME = ''THROTTLED_TIME''"
| "py_attrName PWR_ATTR_THROTTLED_COUNT = ''THROTTLED_COUNT''"
| "py_attrName _ = []"

section \<open>Queries\<close>

text \<open>The query of an object's existence passes the number 0 for its name, and fails an assertion after the call.\<close>

definition py_hasObject :: "pymod \<Rightarrow> string \<Rightarrow> bool res" where
  "py_hasObject md nm =
     rbind (py_call md ''hasObject'' [ArgInt 0]) (\<lambda>r. rbind (Py_DECREF r) (\<lambda>_. Inl AssertFail))"

text \<open>A string, empty if the call raised an exception; and a string that must be there.\<close>

definition py_optional :: "pymod \<Rightarrow> string \<Rightarrow> string \<Rightarrow> string option res" where
  "py_optional md f nm =
     rbind (py_function md f) (\<lambda>g.
     case g [ArgStr nm] of
       None \<Rightarrow> Inr None
     | Some r \<Rightarrow> rbind (py_string (Some r)) (\<lambda>s. rbind (Py_DECREF r) (\<lambda>_. Inr (Some s))))"

definition py_objType :: "pymod \<Rightarrow> string \<Rightarrow> PWR_ObjType res" where
  "py_objType md nm =
     rbind (py_optional md ''getObjType'' nm) (\<lambda>s.
     Inr (case s of None \<Rightarrow> PWR_OBJ_INVALID | Some t \<Rightarrow> py_objTypeStrToInt t))"

definition py_findParent :: "pymod \<Rightarrow> string \<Rightarrow> string res" where
  "py_findParent md nm =
     rbind (py_optional md ''findParent'' nm) (\<lambda>s. Inr (case s of None \<Rightarrow> [] | Some p \<Rightarrow> p))"

definition py_findObjLocation :: "pymod \<Rightarrow> string \<Rightarrow> string res" where
  "py_findObjLocation md nm =
     rbind (py_optional md ''findObjLocation'' nm) (\<lambda>s. Inr (case s of None \<Rightarrow> [] | Some l \<Rightarrow> l))"

definition py_hasServer :: "pymod \<Rightarrow> string \<Rightarrow> bool res" where
  "py_hasServer md nm = rbind (py_findObjLocation md nm) (\<lambda>l. Inr (l \<noteq> []))"

definition attr_args :: "string \<Rightarrow> PWR_AttrName \<Rightarrow> pyarg list" where
  "attr_args nm a = [ArgStr nm, ArgStr (py_attrName a)]"

definition py_findAttrType :: "pymod \<Rightarrow> string \<Rightarrow> PWR_AttrName \<Rightarrow> string res" where
  "py_findAttrType md nm a =
     rbind (py_call md ''findAttrType'' (attr_args nm a)) (\<lambda>r.
     rbind (py_string (Some r)) (\<lambda>s. rbind (Py_DECREF r) (\<lambda>_. Inr s)))"

definition py_findAttrOp :: "pymod \<Rightarrow> string \<Rightarrow> PWR_AttrName \<Rightarrow> string res" where
  "py_findAttrOp md nm a =
     rbind (py_call md ''findAttrOp'' (attr_args nm a)) (\<lambda>r.
     rbind (py_string (Some r)) (\<lambda>s. rbind (Py_DECREF r) (\<lambda>_. Inr s)))"

definition py_findAttrHz :: "pymod \<Rightarrow> string \<Rightarrow> PWR_AttrName \<Rightarrow> string res" where
  "py_findAttrHz md nm a =
     rbind (py_call md ''findAttrHz'' (attr_args nm a)) (\<lambda>r.
     rbind (py_string (Some r)) (\<lambda>s. rbind (Py_DECREF r) (\<lambda>_. Inr s)))"

text \<open>The loops over lists of strings, by the index, and over lists of rows, each of which is released once it is read.\<close>

definition list_strings :: "pyobj \<Rightarrow> string list res" where
  "list_strings t =
     rbind (PyList_Size t) (\<lambda>n.
     foldM (\<lambda>i ss. rbind (PyList_GetItem t i) (\<lambda>p. rbind (py_string p) (\<lambda>s. Inr (ss @ [s])))) [0..<nat n] [])"

definition set_item :: "pyobj \<Rightarrow> nat \<Rightarrow> pyobj \<Rightarrow> pyobj" where
  "set_item t i x = (case t of PyList c xs \<Rightarrow> PyList c (xs[i := x]) | _ \<Rightarrow> t)"

definition list_rows :: "(pyobj \<Rightarrow> 'a res) \<Rightarrow> pyobj \<Rightarrow> ('a list \<times> pyobj) res" where
  "list_rows row t =
     rbind (PyList_Size t) (\<lambda>n.
     foldM (\<lambda>i (rs, t).
       rbind (PyList_GetItem t i) (\<lambda>p.
       rbind (deref p) (\<lambda>tmp.
       rbind (row tmp) (\<lambda>r.
       rbind (Py_DECREF tmp) (\<lambda>tmp. Inr (rs @ [r], set_item t i tmp)))))) [0..<nat n] ([], t))"

definition row_string :: "pyobj \<Rightarrow> nat \<Rightarrow> string res" where
  "row_string tmp j = rbind (PyList_GetItem tmp j) py_string"

definition plugin_row :: "pyobj \<Rightarrow> PluginLib res" where
  "plugin_row tmp =
     rbind (PyList_Size tmp) (\<lambda>k.
     rbind (assert_c (2 = k)) (\<lambda>_.
     rbind (row_string tmp 0) (\<lambda>n. rbind (row_string tmp 1) (\<lambda>l. Inr \<lparr>pl_name = n, pl_lib = l\<rparr>))))"

definition py_findPlugins :: "pymod \<Rightarrow> PluginLib list res" where
  "py_findPlugins md =
     rbind (py_call md ''findPlugins'' []) (\<lambda>r.
     rbind (list_rows plugin_row r) (\<lambda>(rs, r). rbind (Py_DECREF r) (\<lambda>_. Inr rs)))"

definition sysdev_row :: "pyobj \<Rightarrow> SysDev res" where
  "sysdev_row tmp =
     rbind (PyList_Size tmp) (\<lambda>k.
     rbind (assert_c (3 = k)) (\<lambda>_.
     rbind (row_string tmp 0) (\<lambda>n. rbind (row_string tmp 1) (\<lambda>p. rbind (row_string tmp 2) (\<lambda>i.
     Inr \<lparr>sd_name = n, sd_plugin = p, sd_initString = i\<rparr>)))))"

definition py_findSysDevs :: "pymod \<Rightarrow> SysDev list res" where
  "py_findSysDevs md =
     rbind (py_call md ''findSysDevs'' []) (\<lambda>r.
     rbind (list_rows sysdev_row r) (\<lambda>(rs, r). rbind (Py_DECREF r) (\<lambda>_. Inr rs)))"

definition objdev_row :: "pyobj \<Rightarrow> ObjDev res" where
  "objdev_row tmp =
     rbind (PyList_Size tmp) (\<lambda>k.
     rbind (assert_c (2 = k)) (\<lambda>_.
     rbind (row_string tmp 0) (\<lambda>d. rbind (row_string tmp 1) (\<lambda>os. Inr \<lparr>od_device = d, od_openString = os\<rparr>))))"

definition py_findObjDevs :: "pymod \<Rightarrow> string \<Rightarrow> PWR_AttrName \<Rightarrow> ObjDev list res" where
  "py_findObjDevs md nm a =
     rbind (py_call md ''findAttrDevs'' (attr_args nm a)) (\<lambda>r.
     rbind (list_rows objdev_row r) (\<lambda>(rs, r). rbind (Py_DECREF r) (\<lambda>_. Inr rs)))"

definition py_findAttrChildren :: "pymod \<Rightarrow> string \<Rightarrow> PWR_AttrName \<Rightarrow> string list res" where
  "py_findAttrChildren md nm a =
     rbind (py_call md ''findAttrChildren'' (attr_args nm a)) (\<lambda>r.
     rbind (list_strings r) (\<lambda>ss. rbind (Py_DECREF r) (\<lambda>_. Inr ss)))"

definition py_findChildren :: "pymod \<Rightarrow> string \<Rightarrow> string list res" where
  "py_findChildren md nm =
     rbind (py_call md ''findChildren'' [ArgStr nm]) (\<lambda>r.
     rbind (list_strings r) (\<lambda>ss. rbind (Py_DECREF r) (\<lambda>_. Inr ss)))"

definition py_config_of :: "pymod \<Rightarrow> config" where
  "py_config_of md =
     \<lparr>ask_findParent = py_findParent md, ask_findAttrHz = py_findAttrHz md, ask_findAttrOp = py_findAttrOp md,
      ask_findAttrType = py_findAttrType md, ask_findAttrChildren = py_findAttrChildren md, ask_findChildren = py_findChildren md,
      ask_hasServer = py_hasServer md, ask_findObjDevs = py_findObjDevs md, ask_findPlugins = py_findPlugins md,
      ask_findSysDevs = py_findSysDevs md, ask_objType = py_objType md\<rparr>"

end
