(* ===== verification/PyProps.thy ===== *)
theory PyProps
  imports PyConfig
begin

text \<open>
  What a Python configuration answers. The module that answers a description of a system, as the example modules of the
  repository do, is written out as a function; its answers are those of the document of the same description, but for the lists of
  rows, which are released twice.
\<close>

section \<open>Loops over lists\<close>

lemma foldM_collect:
  assumes "\<And>i. i < n \<Longrightarrow> f i = Inr (g i)"
  shows "foldM (\<lambda>i acc. rbind (f i) (\<lambda>s. Inr (acc @ [s]))) [0..<n] [] = Inr (map g [0..<n])"
  using assms by (induction n) (simp_all add: foldM_append)

lemma list_strings_list: "list_strings (PyList (Suc c) (map (PyStr (Suc k)) ss)) = Inr ss"
proof -
  let ?t = "PyList (Suc c) (map (PyStr (Suc k)) ss)"
  have "rbind (PyList_GetItem ?t i) py_string = Inr (ss ! i)" if "i < length ss" for i
    using that by (simp add: PyList_GetItem_def py_live_def py_string_def)
  then have "foldM (\<lambda>i acc. rbind (rbind (PyList_GetItem ?t i) py_string) (\<lambda>s. Inr (acc @ [s]))) [0..<length ss] [] =
      Inr (map ((!) ss) [0..<length ss])"
    by (rule foldM_collect)
  then show ?thesis by (simp add: list_strings_def PyList_Size_def py_live_def rbind_assoc map_nth)
qed

lemma map_index: "map (\<lambda>i. f (xs ! i)) [0..<length xs] = map f xs"
  by (rule nth_equalityI) simp_all

lemma list_rows_loop:
  assumes "n \<le> length xs" "0 < c" "\<And>i. i < n \<Longrightarrow> row (xs ! i) = Inr (g i) \<and> Py_DECREF (xs ! i) = Inr (d i)"
  shows "foldM (\<lambda>i (rs, t).
       rbind (PyList_GetItem t i) (\<lambda>p.
       rbind (deref p) (\<lambda>tmp.
       rbind (row tmp) (\<lambda>r.
       rbind (Py_DECREF tmp) (\<lambda>tmp. Inr (rs @ [r], set_item t i tmp)))))) [0..<n] ([], PyList c xs) =
     Inr (map g [0..<n], PyList c (map d [0..<n] @ drop n xs))"
  using assms
proof (induction n)
  case (Suc n)
  have "(map d [0..<n] @ drop n xs) ! n = xs ! n" "(map d [0..<n] @ drop n xs)[n := d n] = map d [0..<Suc n] @ drop (Suc n) xs"
    using Suc.prems(1) by (simp_all add: nth_append list_update_append Cons_nth_drop_Suc [symmetric])
  with Suc show ?case
    by (simp add: foldM_append PyList_GetItem_def py_live_def set_item_def)
qed simp

section \<open>A module that answers a description\<close>

definition py_rows :: "string list list \<Rightarrow> pyval" where
  "py_rows rows = PvList (map (\<lambda>r. PvList (map PvStr r)) rows)"

definition py_list :: "string list \<Rightarrow> pyval" where
  "py_list ss = PvList (map PvStr ss)"

definition by_name :: "(string \<Rightarrow> pyval option) \<Rightarrow> pyarg list \<Rightarrow> pyval option" where
  "by_name g as = (case as of [ArgStr nm] \<Rightarrow> g nm | _ \<Rightarrow> None)"

definition by_attr :: "sys_spec \<Rightarrow> (obj_spec \<Rightarrow> attr_spec option \<Rightarrow> pyval) \<Rightarrow> pyarg list \<Rightarrow> pyval option" where
  "by_attr s g as =
     (case as of
        [ArgStr nm, ArgStr a] \<Rightarrow> map_option (\<lambda>ob. g ob (find (\<lambda>x. as_name x = a) (os_attrs ob))) (sys_find s nm)
      | _ \<Rightarrow> None)"

definition name_prefixes :: "string \<Rightarrow> string list" where
  "name_prefixes nm = nm # map (\<lambda>i. take i nm) (rev (filter (\<lambda>i. nm ! i = CHR ''.'') [0..<length nm]))"

definition first_location :: "sys_spec \<Rightarrow> string list \<Rightarrow> string" where
  "first_location s ps = (case List.map_filter (loc_of s) ps of [] \<Rightarrow> [] | l # _ \<Rightarrow> l)"

definition opt_text :: "string option \<Rightarrow> string" where
  "opt_text v = (case v of None \<Rightarrow> [] | Some t \<Rightarrow> t)"

definition text_of :: "(attr_spec \<Rightarrow> string option) \<Rightarrow> obj_spec \<Rightarrow> attr_spec option \<Rightarrow> pyval" where
  "text_of get ob x = PvStr (case x of None \<Rightarrow> [] | Some x \<Rightarrow> opt_text (get x))"

definition dev_row :: "obj_spec \<Rightarrow> src_spec \<Rightarrow> string list" where
  "dev_row ob y = (let d = ds_dev (the (dev_find ob (ss_name y))) in [od_device d, od_openString d])"

definition sys_py :: "sys_spec \<Rightarrow> pymod" where
  "sys_py s =
     [''getObjType'' \<mapsto> by_name (\<lambda>nm. map_option (\<lambda>ob. PvStr (os_type ob)) (sys_find s nm)),
      ''findParent'' \<mapsto> by_name (\<lambda>nm. if CHR ''.'' \<in> set nm then Some (PvStr (xml_findParent nm)) else None),
      ''findObjLocation'' \<mapsto> by_name (\<lambda>nm. Some (PvStr (first_location s (name_prefixes nm)))),
      ''findChildren'' \<mapsto> by_name (\<lambda>nm. map_option (\<lambda>ob. py_list (map (child_name nm) (os_children ob))) (sys_find s nm)),
      ''findAttrOp'' \<mapsto> by_attr s (text_of as_op),
      ''findAttrHz'' \<mapsto> by_attr s (text_of as_hz),
      ''findAttrType'' \<mapsto> by_attr s (text_of (\<lambda>_. Some ''Float'')),
      ''findAttrChildren'' \<mapsto> by_attr s (\<lambda>ob x. case x of None \<Rightarrow> PvNone
        | Some x \<Rightarrow> py_list (map (\<lambda>y. child_name (os_name ob) (ss_name y)) (filter (\<lambda>y. \<not> ss_device y) (as_srcs x)))),
      ''findAttrDevs'' \<mapsto> by_attr s (\<lambda>ob x. case x of None \<Rightarrow> PvNone
        | Some x \<Rightarrow> py_rows (map (dev_row ob)
            (filter ss_device (as_srcs x)))),
      ''findPlugins'' \<mapsto> \<lambda>_. Some (py_rows (map (\<lambda>p. [pl_name p, pl_lib p]) (sy_plugins s))),
      ''findSysDevs'' \<mapsto> \<lambda>_. Some (py_rows (map (\<lambda>d. [sd_name d, sd_plugin d, sd_initString d]) (sy_devs s)))]"

lemma py_new_list: "py_new (py_list ss) = PyList (Suc 0) (map (PyStr (Suc 0)) ss)"
  by (simp add: py_list_def)

lemma py_new_rows: "py_new (py_rows rows) = PyList (Suc 0) (map (\<lambda>r. PyList (Suc 0) (map (PyStr (Suc 0)) r)) rows)"
  by (simp add: py_rows_def)

lemma py_release_strings: "py_release (map (PyStr (Suc 0)) ss) = Inr ()"
  by (induction ss) simp_all

lemma list_strings_py_list:
  "rbind (list_strings (py_new (py_list ss))) (\<lambda>r. rbind (Py_DECREF (py_new (py_list ss))) (\<lambda>_. Inr r)) = Inr ss"
  using list_strings_list [of 0 0 ss] by (simp add: py_new_list py_release_strings)

text \<open>A row is read and released, and is gone when the list is released.\<close>

lemma list_rows_rows:
  assumes "\<And>r. r \<in> set rows \<Longrightarrow> row (PyList (Suc 0) (map (PyStr (Suc 0)) r)) = Inr (g r)"
  shows "rbind (list_rows row (py_new (py_rows rows))) (\<lambda>(rs, t). rbind (Py_DECREF t) (\<lambda>_. Inr rs)) =
    (if rows \<noteq> [] then Inl NullDeref else Inr [])"
proof -
  let ?xs = "map (\<lambda>r. PyList (Suc 0) (map (PyStr (Suc 0)) r)) rows"
  have step: "row (?xs ! i) = Inr (g (rows ! i)) \<and> Py_DECREF (?xs ! i) = Inr (PyList 0 [])" if "i < length rows" for i
    using that assms by (simp add: py_release_strings)
  have "list_rows row (PyList (Suc 0) ?xs) =
      Inr (map (\<lambda>i. g (rows ! i)) [0..<length rows], PyList (Suc 0) (map (\<lambda>i. PyList 0 []) [0..<length rows]))"
    using list_rows_loop [of "length rows" ?xs "Suc 0" row "\<lambda>i. g (rows ! i)" "\<lambda>i. PyList 0 []"] step
    by (simp add: list_rows_def PyList_Size_def py_live_def)
  then show ?thesis by (cases rows) (simp_all add: py_new_rows upt_conv_Cons del: upt_Suc)
qed

section \<open>The answers\<close>

lemma py_attrName_xml: "py_attrName a = xml_attrName a"
  by (cases a) simp_all


lemma sys_py_functions [simp]:
  "sys_py s ''getObjType'' = Some (by_name (\<lambda>nm. map_option (\<lambda>ob. PvStr (os_type ob)) (sys_find s nm)))"
  "sys_py s ''findParent'' = Some (by_name (\<lambda>nm. if CHR ''.'' \<in> set nm then Some (PvStr (xml_findParent nm)) else None))"
  "sys_py s ''findObjLocation'' = Some (by_name (\<lambda>nm. Some (PvStr (first_location s (name_prefixes nm)))))"
  "sys_py s ''findChildren'' =
     Some (by_name (\<lambda>nm. map_option (\<lambda>ob. py_list (map (child_name nm) (os_children ob))) (sys_find s nm)))"
  "sys_py s ''findAttrOp'' = Some (by_attr s (text_of as_op))"
  "sys_py s ''findAttrHz'' = Some (by_attr s (text_of as_hz))"
  "sys_py s ''findAttrChildren'' = Some (by_attr s (\<lambda>ob x. case x of None \<Rightarrow> PvNone
     | Some x \<Rightarrow> py_list (map (\<lambda>y. child_name (os_name ob) (ss_name y)) (filter (\<lambda>y. \<not> ss_device y) (as_srcs x)))))"
  "sys_py s ''findAttrDevs'' = Some (by_attr s (\<lambda>ob x. case x of None \<Rightarrow> PvNone
     | Some x \<Rightarrow> py_rows (map (dev_row ob)
         (filter ss_device (as_srcs x)))))"
  "sys_py s ''findPlugins'' = Some (\<lambda>_. Some (py_rows (map (\<lambda>p. [pl_name p, pl_lib p]) (sy_plugins s))))"
  "sys_py s ''findSysDevs'' = Some (\<lambda>_. Some (py_rows (map (\<lambda>d. [sd_name d, sd_plugin d, sd_initString d]) (sy_devs s))))"
  by (simp_all add: sys_py_def)

lemma by_attr_find:
  "sys_find s nm = Some ob \<Longrightarrow> by_attr s g (attr_args nm a) = Some (g ob (attr_find ob a))"
  by (simp add: by_attr_def attr_args_def attr_find_def py_attrName_xml)

lemma row_strings:
  "i < length r \<Longrightarrow> row_string (PyList (Suc 0) (map (PyStr (Suc 0)) r)) i = Inr (r ! i)"
  "PyList_Size (PyList (Suc 0) (map (PyStr (Suc 0)) r)) = Inr (int (length r))"
  by (simp_all add: row_string_def PyList_GetItem_def py_live_def py_string_def PyList_Size_def)

text \<open>The rows of plugins, system devices and object devices, as lists of strings.\<close>

lemma rows_read:
  "plugin_row (PyList (Suc 0) (map (PyStr (Suc 0)) [pl_name p, pl_lib p])) = Inr p"
  "sysdev_row (PyList (Suc 0) (map (PyStr (Suc 0)) [sd_name d, sd_plugin d, sd_initString d])) = Inr d"
  "objdev_row (PyList (Suc 0) (map (PyStr (Suc 0)) [od_device e, od_openString e])) = Inr e"
  using row_strings [where r = "[pl_name p, pl_lib p]"] row_strings [where r = "[sd_name d, sd_plugin d, sd_initString d]"]
    row_strings [where r = "[od_device e, od_openString e]"]
  by (simp_all add: plugin_row_def sysdev_row_def objdev_row_def del: list.map)

lemma list_rows_map:
  assumes "\<And>x. row (PyList (Suc 0) (map (PyStr (Suc 0)) (f x))) = Inr (h x)"
  shows "rbind (list_rows row (py_new (py_rows (map f xs)))) (\<lambda>(rs, t). rbind (Py_DECREF t) (\<lambda>_. Inr rs)) =
    (if xs \<noteq> [] then Inl NullDeref else Inr [])"
proof -
  let ?r = "\<lambda>r. row (PyList (Suc 0) (map (PyStr (Suc 0)) r))"
  have "?r r = Inr (case ?r r of Inr y \<Rightarrow> y | Inl _ \<Rightarrow> undefined)" if "r \<in> set (map f xs)" for r
    using that assms by auto
  from list_rows_rows [of "map f xs" row, OF this] show ?thesis by simp
qed

lemma no_rows: "rbind (list_rows row (PyOther 2)) (\<lambda>(rs, t). rbind (Py_DECREF t) (\<lambda>_. Inr rs)) = Inr []"
  by (simp add: list_rows_def PyList_Size_def py_live_def)



lemma py_call_some: "md f = Some h \<Longrightarrow> h as = Some r \<Longrightarrow> py_call md f as = Inr (py_new r)"
  by (simp add: py_call_def py_function_def)




lemma py_findChildren_sys:
  "sys_find s nm = Some ob \<Longrightarrow> py_findChildren (sys_py s) nm = Inr (map (child_name nm) (os_children ob))"
  using py_call_some [of "sys_py s" "''findChildren''" _ "[ArgStr nm]" "py_list (map (child_name nm) (os_children ob))"]
  by (simp add: py_findChildren_def by_name_def list_strings_py_list)



lemma py_findObjDevs_sys:
  assumes "sys_find s nm = Some ob"
  shows "py_findObjDevs (sys_py s) nm a =
    (let ds = (case attr_find ob a of None \<Rightarrow> [] | Some x \<Rightarrow>
       map (\<lambda>y. ds_dev (the (dev_find ob (ss_name y)))) (filter ss_device (as_srcs x)))
     in if ds \<noteq> [] then Inl NullDeref else Inr [])"
proof (cases "attr_find ob a")
  case (Some x)
  have "objdev_row (PyList (Suc 0) (map (PyStr (Suc 0)) (dev_row ob y))) = Inr (ds_dev (the (dev_find ob (ss_name y))))" for y
    unfolding dev_row_def Let_def by (rule rows_read)
  note rows = list_rows_map [where row = objdev_row and f = "dev_row ob", OF this, of "filter ss_device (as_srcs x)"]
  have "py_findObjDevs (sys_py s) nm a =
      rbind (list_rows objdev_row (py_new (py_rows (map (dev_row ob) (filter ss_device (as_srcs x)))))) (\<lambda>(rs, t). rbind (Py_DECREF t) (\<lambda>_. Inr rs))"
    using assms Some by (simp add: py_findObjDevs_def py_call_some by_attr_find)
  then show ?thesis unfolding rows using Some by simp
qed (use assms in \<open>simp add: py_findObjDevs_def py_call_some by_attr_find no_rows\<close>)

lemma py_findPlugins_sys:
  "py_findPlugins (sys_py s) = (if sy_plugins s \<noteq> [] then Inl NullDeref else Inr [])"
  using list_rows_map [where row = plugin_row and f = "\<lambda>p. [pl_name p, pl_lib p]", OF rows_read(1), of "sy_plugins s"]
  by (simp add: py_findPlugins_def py_call_some)

lemma py_findSysDevs_sys:
  "py_findSysDevs (sys_py s) = (if sy_devs s \<noteq> [] then Inl NullDeref else Inr [])"
  using list_rows_map [where row = sysdev_row and f = "\<lambda>d. [sd_name d, sd_plugin d, sd_initString d]", OF rows_read(2), of "sy_devs s"]
  by (simp add: py_findSysDevs_def py_call_some)

section \<open>Locations\<close>





section \<open>Properties\<close>


text \<open>
  C15: The rows of a list are released twice, by the loop that reads them and with the list: a module that makes the rows for the
  call has its list of plugins, of devices and of an attribute's devices read from
  memory that is free, unless the list is empty. Lists of strings are read and released once.
\<close>

theorem py_rows_released_twice:
  assumes "sys_find s nm = Some ob"
  shows "py_findPlugins (sys_py s) = (if sy_plugins s = [] then Inr [] else Inl NullDeref) \<and>
    py_findSysDevs (sys_py s) = (if sy_devs s = [] then Inr [] else Inl NullDeref) \<and>
    py_findObjDevs (sys_py s) nm a =
      (if case attr_find ob a of None \<Rightarrow> True | Some x \<Rightarrow> filter ss_device (as_srcs x) = [] then Inr [] else Inl NullDeref) \<and>
    py_findChildren (sys_py s) nm = Inr (map (child_name nm) (os_children ob))"
  using assms by (simp add: py_findPlugins_sys py_findSysDevs_sys py_findObjDevs_sys py_findChildren_sys split: option.splits)

theorem py_rows_released_twice_witness:
  "py_findPlugins (sys_py demo_sys) = Inl NullDeref \<and> py_findObjDevs (sys_py demo_sys) ''p.a'' PWR_ATTR_POWER = Inl NullDeref \<and>
   py_findChildren (sys_py demo_sys) ''p'' = Inr [''p.a'', ''p.b'']"
  using py_rows_released_twice [of demo_sys "''p.a''" "sy_objs demo_sys ! 1" PWR_ATTR_POWER]
    py_rows_released_twice [of demo_sys "''p''" "sy_objs demo_sys ! 0" PWR_ATTR_POWER]
  by (simp add: demo_sys_def sys_find_def attr_find_def child_name_def)


text \<open>The module is imported once: the file of a later configuration is not looked at.\<close>

lemma second_python_config_ignored:
  "new_PyConfig import (Some md) file = Inr r \<Longrightarrow> r = Some md"
  by (auto simp: new_PyConfig_def rbind_eq_Inr)

end
