(* ===== verification/Start.thy ===== *)
theory Start
  imports Api PyProps TcpProps
begin

text \<open>
  How a context comes to be: the constructor of \<^verbatim>\<open>DistCntxt\<close>
  (\<^verbatim>\<open>distCntxt.cc\<close>) and \<^verbatim>\<open>PWR_CntxtInit\<close> (\<^verbatim>\<open>pwr.cc\<close>).
  The environment, the documents the XML parser makes of files, the modules the Python interpreter imports, the one
  it has imported before, and what the operating system provides are a record. The debug flags, which the constructor also reads from the environment, have no effect in the model.
\<close>

record 's system =
  env_vars :: "string \<Rightarrow> string option"
  documents :: "string \<Rightarrow> XMLNode list"
  have_python :: bool
  py_import :: "string option \<Rightarrow> string \<Rightarrow> pymod option"
  py_module :: "pymod option"
  sys_world :: 's
  sys_getDev :: "string \<Rightarrow> string \<Rightarrow> 's plugin_dev_t option option"
  sys_name :: string
  sys_tid :: u32
  sys_commID :: u32

definition getenv2 :: "'s system \<Rightarrow> string \<Rightarrow> string \<Rightarrow> string option" where
  "getenv2 sy prefix sufix =
     (case env_vars sy (prefix @ sufix) of None \<Rightarrow> env_vars sy sufix | Some v \<Rightarrow> Some v)"

text \<open>The string the channel is made from; without a server there is no channel.\<close>

definition initEventChannel :: "'s system \<Rightarrow> string \<Rightarrow> string option res" where
  "initEventChannel sy name =
     (case getenv2 sy name ''POWERAPI_SERVER'' of
        None \<Rightarrow> Inr None
      | Some server \<Rightarrow>
          rbind (assert_c (server \<noteq> [])) (\<lambda>_.
          rbind (deref (getenv2 sy name ''POWERAPI_SERVER_PORT'')) (\<lambda>port.
          rbind (assert_c (port \<noteq> [])) (\<lambda>_.
          Inr (Some (''server='' @ server @ '' serverPort='' @ port))))))"

text \<open>The configuration by the characters from the last dot on, of which only the first four or three are compared.\<close>

definition open_config :: "'s system \<Rightarrow> string \<Rightarrow> config res" where
  "open_config sy file =
     (case find_last_of CHR ''.'' file of
        None \<Rightarrow> Inl AssertFail
      | Some pos \<Rightarrow>
          if take 4 (drop pos file) = ''.xml''
          then rbind (new_XmlConfig (documents sy file)) (\<lambda>sys. Inr (xml_config sys))
          else if have_python sy \<and> take 3 (drop pos file) = ''.py'' then
            rbind (new_PyConfig (py_import sy) (py_module sy) file) (\<lambda>m. rbind (deref m) (\<lambda>md. Inr (py_config_of md)))
          else Inl AssertFail)"

definition empty_cntxt :: "'s system \<Rightarrow> config \<Rightarrow> 's cntxt" where
  "empty_cntxt sy cfg =
     \<lparr>world = sys_world sy, m_config = cfg, m_rootName = [], m_rootObj = None, getDev = sys_getDev sy,
      sysname = sys_name sy, gettid = sys_tid sy, m_currentCommID = sys_commID sy,
      m_objMap = Map.empty, m_groupMap = Map.empty, m_pluginLibMap = Map.empty, m_devMap = Map.empty,
      m_deviceMap = Map.empty, m_commMap = Map.empty, c_ops = [], c_objs = [], c_grps = [], c_comms = []\<rparr>"

definition new_DistCntxt :: "nat \<Rightarrow> 's system \<Rightarrow> string \<Rightarrow> ('s cntxt \<times> string option) res" where
  "new_DistCntxt n sy name =
     rbind (initEventChannel sy name) (\<lambda>ch.
     case getenv2 sy name ''POWERAPI_CONFIG'' of
       None \<Rightarrow> Inl (ExitCall (-1))
     | Some file \<Rightarrow>
         rbind (open_config sy file) (\<lambda>cfg.
         case getenv2 sy name ''POWERAPI_ROOT'' of
           None \<Rightarrow> Inl (ExitCall (-1))
         | Some rt \<Rightarrow> rbind (init_root n rt (empty_cntxt sy cfg)) (\<lambda>c. Inr (c, ch))))"

definition PWR_CntxtInit :: "nat \<Rightarrow> 's system \<Rightarrow> PWR_Role \<Rightarrow> string \<Rightarrow> (int \<times> ('s cntxt \<times> string option) option) res" where
  "PWR_CntxtInit n sy role name =
     (if role \<noteq> PWR_ROLE_INVALID \<and> role \<noteq> PWR_ROLE_NOT_SPECIFIED
      then rbind (new_DistCntxt n sy name) (\<lambda>c. Inr (PWR_RET_SUCCESS, Some c))
      else Inr (PWR_RET_FAILURE, None))"

lemma init_root_ok:
  assumes "init_root n r c = Inr c'" "cntxt_ok c"
  shows "\<exists>a. getSelf c' = Some a \<and> m_objMap c' r = Some a \<and> cntxt_ok c' \<and> m_config c' = m_config c"
proof -
  let ?c = "c\<lparr>m_rootName := r\<rparr>"
  from assms(1) obtain a d where f: "findObject n r ?c = Inr (Some a, d)" and c': "c' = d\<lparr>m_rootObj := Some a\<rparr>"
    by (auto simp: init_root_def rbind_eq_Inr split: option.splits)
  have ok: "cntxt_ok ?c" using assms(2) by (simp add: cntxt_ok_def comms_ok_def)
  from context_facts [OF ok f] findObject_frame [OF f ok] show ?thesis
    by (auto simp: c' getSelf_def cntxt_ok_def comms_ok_def)
qed

lemma init_root_type:
  assumes "m_objMap c r = None"
  shows "ask_objType (m_config c) r = Inl e \<Longrightarrow> init_root n r c = Inl e"
    and "ask_objType (m_config c) r = Inr PWR_OBJ_INVALID \<Longrightarrow> init_root n r c = Inl (ExitCall (-1))"
  using assms by (simp_all add: init_root_def findObject_def)

lemma init_root_fuel:
  assumes "\<forall>a. ranked (m_config c) a rank" "rank r < n" "n \<le> k" "comms_ok c"
  shows "init_root k r c = init_root n r c"
proof -
  have "findObject k r (c\<lparr>m_rootName := r\<rparr>) = findObject n r (c\<lparr>m_rootName := r\<rparr>)"
    by (rule findObject_fuel [where rank = rank]) (use assms in \<open>simp_all add: comms_ok_def\<close>)
  then show ?thesis by (simp add: init_root_def)
qed

lemma empty_cntxt_ok: "cntxt_ok (empty_cntxt sy cfg)"
  by (simp add: empty_cntxt_def cntxt_ok_def comms_ok_def)

lemma open_config_xml: "open_config sy (stem @ ''.xml'') = rbind (new_XmlConfig (documents sy (stem @ ''.xml''))) (\<lambda>doc. Inr (xml_config doc))"
  using find_last_of_app [of "CHR ''.''" "''xml''" stem] by (simp add: open_config_def)

text \<open>An object whose attributes have no operation is made without a device or a communicator.\<close>

definition plain :: "config \<Rightarrow> string \<Rightarrow> bool" where
  "plain cfg nm \<longleftrightarrow> (\<forall>a. ask_findAttrOp cfg nm a = Inr [] \<and> (\<exists>ty. ask_findAttrType cfg nm a = Inr ty))"

lemma init_attrs_plain:
  assumes "plain (m_config c) nm"
  shows "\<exists>il. init_attrs n nm c = Inr (il, c) \<and> (\<forall>i \<in> set il. ai_comm i = None \<and> ai_devices i = [])"
proof -
  have "initAttr n nm a c = Inr (new_AttrInfo None timeOp NO_OP, c)" for a
  proof -
    from assms obtain ty where "ask_findAttrOp (m_config c) nm a = Inr []" "ask_findAttrType (m_config c) nm a = Inr ty"
      by (auto simp: plain_def)
    then show ?thesis by (simp add: initAttr_def attr_op_def)
  qed
  then show ?thesis by (simp add: init_attrs_def real_attrs_def new_AttrInfo_def)
qed

lemma check_comms_plain: "list_all (\<lambda>i. ai_comm i = None \<and> ai_devices i = []) il \<Longrightarrow> check_comms il None = Inr None"
proof (induction il)
  case (Cons i il)
  have "ai_comm i = None" "ai_devices i = []" "list_all (\<lambda>i. ai_comm i = None \<and> ai_devices i = []) il"
    using Cons.prems unfolding list.pred_inject by blast+
  then show ?case using Cons.IH unfolding check_comms.simps by (simp only: assert_c_simps rbind_Inr simp_thms if_True)
qed simp

lemma init_root_plain:
  assumes "plain (m_config c) r" "m_objMap c r = None" "ask_objType (m_config c) r = Inr t" "t \<noteq> PWR_OBJ_INVALID"
  shows "\<exists>c'. init_root n r c = Inr c'"
proof -
  obtain il where i: "init_attrs n r (c\<lparr>m_rootName := r\<rparr>) = Inr (il, c\<lparr>m_rootName := r\<rparr>)"
    "\<forall>i \<in> set il. ai_comm i = None \<and> ai_devices i = []"
    using init_attrs_plain [of "c\<lparr>m_rootName := r\<rparr>" r n] assms(1) by auto
  from i(2) have "dist_comm il = Inr None" using check_comms_plain [of il] by (simp add: dist_comm_def list_all_iff)
  with i assms(2-4) show ?thesis by (simp add: init_root_def findObject_def createObject_def Let_def)
qed

text \<open>
  C9: A context is made from an XML document that has a system. The program ends if
  \<^verbatim>\<open>POWERAPI_ROOT\<close> is not set, or names no object of a known type, and where the query for the type fails, it fails with that fault. Otherwise what
  \<^verbatim>\<open>PWR_CntxtInit\<close> returns, if it does, is a success and a context that has the configuration of the document, keeps the
  invariant, and has the object named as its entry point. It does return if the root's attributes have no operation. Where
  the sources of attributes are not circular, fuel beyond the depth of the root makes no difference.
\<close>

theorem context_starts:
  assumes "role \<noteq> PWR_ROLE_INVALID" "role \<noteq> PWR_ROLE_NOT_SPECIFIED" "initEventChannel sy name = Inr ch"
    and "getenv2 sy name ''POWERAPI_CONFIG'' = Some (stem @ ''.xml'')"
    and "new_XmlConfig (documents sy (stem @ ''.xml'')) = Inr doc"
  shows "case getenv2 sy name ''POWERAPI_ROOT'' of
      None \<Rightarrow> PWR_CntxtInit n sy role name = Inl (ExitCall (-1))
    | Some r \<Rightarrow> (case xml_objType doc r of
        Inl e \<Rightarrow> PWR_CntxtInit n sy role name = Inl e
      | Inr t \<Rightarrow>
          if t = PWR_OBJ_INVALID then PWR_CntxtInit n sy role name = Inl (ExitCall (-1))
          else (\<forall>x. PWR_CntxtInit n sy role name = Inr x \<longrightarrow>
              (\<exists>c a. x = (PWR_RET_SUCCESS, Some (c, ch)) \<and> cntxt_ok c \<and> m_config c = xml_config doc \<and>
                getSelf c = Some a \<and> m_objMap c r = Some a)) \<and>
            (plain (xml_config doc) r \<longrightarrow> (\<exists>x. PWR_CntxtInit n sy role name = Inr x)) \<and>
            (\<forall>rank k. (\<forall>a. ranked (xml_config doc) a rank) \<and> rank r < n \<and> n \<le> k \<longrightarrow>
              PWR_CntxtInit k sy role name = PWR_CntxtInit n sy role name))"
proof (cases "getenv2 sy name ''POWERAPI_ROOT''")
  case None
  then show ?thesis using assms by (simp add: PWR_CntxtInit_def new_DistCntxt_def open_config_xml)
next
  case (Some r)
  let ?c = "empty_cntxt sy (xml_config doc)"
  have run: "PWR_CntxtInit n sy role name = rbind (init_root n r ?c) (\<lambda>c. Inr (PWR_RET_SUCCESS, Some (c, ch)))" for n
    using assms Some by (simp add: PWR_CntxtInit_def new_DistCntxt_def open_config_xml rbind_assoc)
  have c: "m_config ?c = xml_config doc" "m_objMap ?c r = None" "comms_ok ?c" by (simp_all add: empty_cntxt_def comms_ok_def)
  have made: "\<exists>c a. x = (PWR_RET_SUCCESS, Some (c, ch)) \<and> cntxt_ok c \<and> m_config c = xml_config doc \<and>
      getSelf c = Some a \<and> m_objMap c r = Some a" if "PWR_CntxtInit n sy role name = Inr x" for x
  proof -
    from that run obtain d where d: "init_root n r ?c = Inr d" "x = (PWR_RET_SUCCESS, Some (d, ch))" by (auto simp: rbind_eq_Inr)
    from init_root_ok [OF d(1) empty_cntxt_ok] d(2) c(1) show ?thesis by auto
  qed
  have fuel: "\<forall>rank k. (\<forall>a. ranked (xml_config doc) a rank) \<and> rank r < n \<and> n \<le> k \<longrightarrow>
      PWR_CntxtInit k sy role name = PWR_CntxtInit n sy role name"
  proof (intro allI impI)
    fix rank k assume "(\<forall>a. ranked (xml_config doc) a rank) \<and> rank r < n \<and> n \<le> k"
    then show "PWR_CntxtInit k sy role name = PWR_CntxtInit n sy role name"
      using init_root_fuel [of ?c rank r n k] c by (simp add: run)
  qed
  show ?thesis
  proof (cases "xml_objType doc r")
    case (Inl e)
    then show ?thesis using Some init_root_type(1) [of ?c r e n] c by (simp add: run)
  next
    case (Inr t)
    have bad: "PWR_CntxtInit n sy role name = Inl (ExitCall (-1))" if "t = PWR_OBJ_INVALID"
      using that Inr init_root_type(2) [of ?c r n] c by (simp add: run)
    have "\<exists>x. PWR_CntxtInit n sy role name = Inr x" if "plain (xml_config doc) r" "t \<noteq> PWR_OBJ_INVALID"
      using that Inr init_root_plain [of ?c r t n] c by (auto simp: run)
    with Some Inr bad made show ?thesis by (simp, use fuel in blast)
  qed
qed

definition demo_system :: "string \<Rightarrow> dummy_state system" where
  "demo_system rt =
     \<lparr>env_vars = [''POWERAPI_CONFIG'' \<mapsto> ''demo.xml'', ''appPOWERAPI_ROOT'' \<mapsto> rt],
      documents = \<lambda>f. if f = ''demo.xml'' then [XMLOther ''version 1.0'', sys_xml demo_sys] else [],
      have_python = False, py_import = \<lambda>_ _. None, py_module = None, sys_world = demo_dummy, sys_getDev = \<lambda>_ _. None,
      sys_name = ''Linux'', sys_tid = 7, sys_commID = 1\<rparr>"

lemma demo_system_env:
  "initEventChannel (demo_system rt) nm = Inr None" "getenv2 (demo_system rt) ''app'' ''POWERAPI_CONFIG'' = Some (''demo'' @ ''.xml'')"
  "getenv2 (demo_system rt) ''app'' ''POWERAPI_ROOT'' = Some rt"
  "new_XmlConfig (documents (demo_system rt) (''demo'' @ ''.xml'')) = Inr (sys_xml demo_sys)"
  by (simp_all add: initEventChannel_def getenv2_def demo_system_def new_XmlConfig_def sys_xml_def)

theorem context_starts_witness:
  "(\<exists>c a. PWR_CntxtInit 0 (demo_system ''p.b'') PWR_ROLE_APP ''app'' = Inr (PWR_RET_SUCCESS, Some (c, None)) \<and>
      getSelf c = Some a \<and> m_objMap c ''p.b'' = Some a) \<and>
   PWR_CntxtInit 0 (demo_system ''q'') PWR_ROLE_APP ''app'' = Inl (ExitCall (-1))"
proof -
  have s: "sys_find demo_sys ''p.b'' = Some (sy_objs demo_sys ! 2)" "sys_find demo_sys ''q'' = None"
    "objTypeStrToInt (os_type (sy_objs demo_sys ! 2)) = PWR_OBJ_NODE" "os_attrs (sy_objs demo_sys ! 2) = []"
    by (simp_all add: sys_find_def demo_sys_def objTypeStrToInt_def)
  have "plain (xml_config (sys_xml demo_sys)) ''p.b''"
    using attr_field_sys [OF s(1), of "''op''" as_op] s(4) by (simp add: plain_def xml_findAttrOp_def attr_find_def)
  moreover have "xml_objType (sys_xml demo_sys) ''p.b'' = Inr PWR_OBJ_NODE" "xml_objType (sys_xml demo_sys) ''q'' = Inr PWR_OBJ_INVALID"
    by (simp_all add: xml_objType_def xml_findObject_sys s)
  moreover note st = context_starts [OF _ _ demo_system_env(1,2,4), of PWR_ROLE_APP 0, unfolded demo_system_env(3)]
  note st [of "''p.b''"] st [of "''q''"]
  ultimately show ?thesis by fastforce
qed

section \<open>The channel of a context\<close>

lemma no_blank_number: "CHR '' '' \<notin> set (show_nat n)"
  using show_nat_digits [of "CHR '' ''" n] by (auto simp: is_digit_def)

text \<open>
  The string that the environment's server and port are put into is taken apart into the same: the channel of the context
  makes no call when it is made, and when an event is first sent, at most 61 attempts are made and the event is sent on a socket that
  was connected to that port of the address of that host, if no host's name has a blank.
\<close>

theorem context_channel_connects:
  assumes "getenv2 sy name ''POWERAPI_SERVER'' = Some server" "getenv2 sy name ''POWERAPI_SERVER_PORT'' = Some (show_nat p)"
    and "server \<noteq> []" "CHR '' '' \<notin> set server" "p < 65536" "length (client_config server (show_nat p)) \<le> npos"
    and "initEventChannel sy name = Inr (Some cfg)" "new_TcpEventChannel env ctx_allocEvent cfg nm w = Inr (this, w1)"
    and "tcp_sendEvent env ev this w1 = Inr (b, this', w2)"
  shows "w1 = w \<and> connects w2 \<le> connects w + 61 \<and> 0 \<le> m_fd this' \<and>
    (\<exists>h he. calls w2 = h @ attempt (m_fd this') server he (int p) \<and>
       he = env (h @ [SocketCall, SetSockOptCall (m_fd this') TCP_NODELAY]) (HostByNameCall server) \<and>
       env (butlast (calls w2)) (last (calls w2)) = 0) \<and>
    sendEvent ev (outs w (m_fd this')) = Inr (outs w2 (m_fd this')) \<and> (\<forall>fd. fd \<noteq> m_fd this' \<longrightarrow> outs w2 fd = outs w fd)"
proof -
  have cfg: "cfg = client_config server (show_nat p)"
    using assms(1-3,7) show_nat_ne [of p] by (simp add: initEventChannel_def client_config_def)
  have new: "w1 = w" "m_fd this = - 1" "m_clientServer this = server" "m_clientServerPort this = show_nat p"
    using assms(8) split_client_config [OF assms(4) no_blank_number assms(6)]
    by (auto simp: new_TcpEventChannel_def cfg str_or_empty_def)
  from assms(9) obtain w3 where w3: "tcp_connect env this w1 = Inr (this', w3)" "0 \<le> m_fd this'"
    "sendEvent ev (outs w3 (m_fd this')) = Inr (outs w2 (m_fd this'))" "calls w2 = calls w3"
    "\<forall>fd. fd \<noteq> m_fd this' \<longrightarrow> outs w2 fd = outs w3 fd"
    by (auto simp: tcp_sendEvent_def rbind_eq_Inr)
  note c = tcp_connect_result [OF w3(1) new(2) w3(2)]
  have "atoi (show_nat p) = Inr (int p)" using assms(5) by (intro atoi_show_nat) simp
  with c w3 new show ?thesis by (auto simp: connected_def connects_def)
qed

definition open_host :: os where
  "open_host h c = (case c of SocketCall \<Rightarrow> 4 | HostByNameCall nm \<Rightarrow> 2130706433 | _ \<Rightarrow> 0)"

definition client_system :: "dummy_state system" where
  "client_system = (demo_system ''p.b'')\<lparr>env_vars := [''POWERAPI_SERVER'' \<mapsto> ''localhost'', ''POWERAPI_SERVER_PORT'' \<mapsto> show_nat 15000]\<rparr>"

theorem context_channel_connects_witness:
  "\<exists>cfg this this' w2.
     initEventChannel client_system ''app'' = Inr (Some cfg) \<and>
     new_TcpEventChannel open_host ctx_allocEvent cfg ''PWR_Cntxt'' idle_net = Inr (this, idle_net) \<and>
     tcp_sendEvent open_host connect_example this idle_net = Inr (True, this', w2) \<and>
     (\<exists>h. calls w2 = h @ attempt (m_fd this') ''localhost'' 2130706433 15000)"
proof -
  let ?port = "show_nat 15000"
  let ?cfg = "client_config ''localhost'' ?port"
  let ?ch = "\<lparr>m_fd = - 1, m_alloc = ctx_allocEvent, m_chname = ''PWR_Cntxt'', m_clientServer = ''localhost'', m_clientServerPort = ?port\<rparr>"
  have env: "getenv2 client_system ''app'' ''POWERAPI_SERVER'' = Some ''localhost''"
    "getenv2 client_system ''app'' ''POWERAPI_SERVER_PORT'' = Some ?port"
    by (simp_all add: getenv2_def client_system_def)
  have cfg: "initEventChannel client_system ''app'' = Inr (Some ?cfg)"
    using show_nat_ne [of 15000] by (simp add: initEventChannel_def env client_config_def)
  have len: "length ?cfg \<le> npos" by (simp add: client_config_def npos_def show_nat.simps)
  have new: "new_TcpEventChannel open_host ctx_allocEvent ?cfg ''PWR_Cntxt'' idle_net = Inr (?ch, idle_net)"
    using split_client_config [OF _ no_blank_number len] by (simp add: new_TcpEventChannel_def str_or_empty_def)
  have a: "atoi ?port = Inr 15000" using atoi_show_nat [of 15000] by simp
  obtain s where s: "sendEvent connect_example [] = Inr s"
    by (simp add: connect_example_def sendEvent_def ser_eval any_type_def)
  have "\<exists>w2. tcp_sendEvent open_host connect_example ?ch idle_net = Inr (True, ?ch\<lparr>m_fd := 4\<rparr>, w2)"
    by (simp add: tcp_sendEvent_def tcp_connect_def tcp_xx_def connect_loop.simps [of 60] initClient_def a os_call_def open_host_def s idle_net_def)
  then obtain w2 where w2: "tcp_sendEvent open_host connect_example ?ch idle_net = Inr (True, ?ch\<lparr>m_fd := 4\<rparr>, w2)" by blast
  have p: "(15000 :: nat) < 65536" by simp
  from context_channel_connects [OF env _ _ p len cfg new w2] have
    "\<exists>h he. calls w2 = h @ attempt 4 ''localhost'' he 15000 \<and> he = open_host (h @ [SocketCall, SetSockOptCall 4 TCP_NODELAY]) (HostByNameCall ''localhost'')"
    by auto
  then have "\<exists>h. calls w2 = h @ attempt 4 ''localhost'' 2130706433 15000" by (simp add: open_host_def)
  with cfg new w2 show ?thesis by fastforce
qed

end
