(* ===== verification/ServerStart.thy ===== *)
theory ServerStart
  imports Start Server Getopt RouterSend
begin

text \<open>
  How a server comes to be (\<^verbatim>\<open>server.cc\<close>): its command line, the environment variables it sets for its
  context, the context, its two channels, and the event with which it tells the router its name.
\<close>

section \<open>The command line\<close>

record SrvrArgs =
  sa_port :: string
  sa_host :: string
  sa_pwrApiConfig :: string
  sa_pwrApiRoot :: string
  sa_pwrApiServer :: string
  sa_pwrApiServerPort :: string
  sa_name :: string

definition new_SrvrArgs :: SrvrArgs where
  "new_SrvrArgs =
     \<lparr>sa_port = [], sa_host = [], sa_pwrApiConfig = [], sa_pwrApiRoot = [], sa_pwrApiServer = [], sa_pwrApiServerPort = [],
      sa_name = []\<rparr>"

definition srvr_options :: "string list" where
  "srvr_options =
     [''name'', ''rtrPort'', ''rtrHost'', ''pwrApiConfig'', ''pwrApiRoot'', ''pwrApiServer'', ''pwrApiServerPort'']"

text \<open>An unknown option prints the usage and is skipped.\<close>

definition srvr_option :: "optres \<Rightarrow> SrvrArgs \<Rightarrow> SrvrArgs" where
  "srvr_option r args =
     (case r of
        BadOpt \<Rightarrow> args
      | Opt n v \<Rightarrow>
          if n = ''name'' then args\<lparr>sa_name := v\<rparr>
          else if n = ''rtrPort'' then args\<lparr>sa_port := v\<rparr>
          else if n = ''rtrHost'' then args\<lparr>sa_host := v\<rparr>
          else if n = ''pwrApiConfig'' then args\<lparr>sa_pwrApiConfig := v\<rparr>
          else if n = ''pwrApiRoot'' then args\<lparr>sa_pwrApiRoot := v\<rparr>
          else if n = ''pwrApiServer'' then args\<lparr>sa_pwrApiServer := v\<rparr>
          else if n = ''pwrApiServerPort'' then args\<lparr>sa_pwrApiServerPort := v\<rparr>
          else args)"

definition srvr_initArgs :: "string list \<Rightarrow> SrvrArgs res" where
  "srvr_initArgs argv =
     (let args = fold srvr_option (getopt_long srvr_options (drop 1 argv)) new_SrvrArgs in
      if sa_port args = [] \<or> sa_host args = [] then Inl (ExitCall (- 1)) else Inr args)"

section \<open>The server\<close>

text \<open>\<^verbatim>\<open>setenv\<close> that does not overwrite: a variable that is set keeps its value, and no name has an equals sign.\<close>

definition setenv0 :: "string \<Rightarrow> string \<Rightarrow> 's system \<Rightarrow> 's system" where
  "setenv0 n v sy =
     (if CHR ''='' \<in> set n \<or> env_vars sy n \<noteq> None then sy else sy\<lparr>env_vars := (env_vars sy)(n := Some v)\<rparr>)"

definition setenv_nonempty :: "string \<Rightarrow> string \<Rightarrow> 's system \<Rightarrow> 's system" where
  "setenv_nonempty n v sy = (if v = [] then sy else setenv0 n v sy)"

definition srvr_environment :: "SrvrArgs \<Rightarrow> 's system \<Rightarrow> 's system" where
  "srvr_environment args sy =
     setenv_nonempty (sa_name args @ ''POWERAPI_SERVER_PORT'') (sa_pwrApiServerPort args)
       (setenv_nonempty (sa_name args @ ''POWERAPI_SERVER'') (sa_pwrApiServer args)
         (setenv0 (sa_name args @ ''POWERAPI_ROOT'') (sa_pwrApiRoot args)
           (setenv0 (sa_name args @ ''POWERAPI_CONFIG'') (sa_pwrApiConfig args) sy)))"

record 's srvstart =
  ss_ctx :: "'s cntxt"
  ss_ctxChan :: "TcpEventChannel option"
  ss_rtrChan :: TcpEventChannel
  ss_net :: net

definition connect_event :: "string \<Rightarrow> AnyEvent" where
  "connect_event nm = EvServerConnect \<lparr>ev_type = type_word ServerConnect, ev_id = 0, ev_status = 0, sc_name = nm\<rparr>"

definition context_channel :: "os \<Rightarrow> string option \<Rightarrow> net \<Rightarrow> (TcpEventChannel option \<times> net) res" where
  "context_channel env ch w =
     (case ch of None \<Rightarrow> Inr (None, w) | Some cfg \<Rightarrow> getEventChannel env ''TCP'' ctx_allocEvent cfg ''PWR_Cntxt'' w)"

definition new_Server :: "os \<Rightarrow> nat \<Rightarrow> 's system \<Rightarrow> string list \<Rightarrow> net \<Rightarrow> (SrvrArgs \<times> 's srvstart) res" where
  "new_Server env n sy argv w =
     rbind (srvr_initArgs argv) (\<lambda>args.
     rbind (PWR_CntxtInit n (srvr_environment args sy) PWR_ROLE_ADMIN (sa_name args)) (\<lambda>(_, ctx).
     rbind (assert_c (ctx \<noteq> None)) (\<lambda>_.
     rbind (deref ctx) (\<lambda>(c, ch).
     rbind (context_channel env ch w) (\<lambda>(ctxChan, w).
     rbind (getEventChannel env ''TCP'' server_allocRtrEvent (client_config (sa_host args) (sa_port args)) ''router'' w) (\<lambda>(ec, w).
     rbind (deref ec) (\<lambda>rtrChan.
     rbind (tcp_sendEvent env (connect_event (sa_pwrApiRoot args)) rtrChan w) (\<lambda>(_, rtrChan, w).
     Inr (args, \<lparr>ss_ctx = c, ss_ctxChan = ctxChan, ss_rtrChan = rtrChan, ss_net = w\<rparr>)))))))))"

section \<open>The name of a server\<close>

lemma connect_event_frame:
  assumes "sendEvent (connect_event nm) s = Inr s'" "length nm < 2 ^ 32"
  shows "\<exists>f. s' = s @ f \<and> getEvent router_allocServerEvent (f @ t) = Inr (Some (connect_event nm), t)"
proof -
  from tcp.send_append [OF assms(1)] obtain f where f: "sendEvent (connect_event nm) [] = Inr f" "s' = s @ f" by blast
  have "frames_ok [Router2Router, CommResp, CommLogResp, CommGetSamplesResp, ServerConnect] (connect_event nm)"
    using assms(2) by (auto simp: frames_ok_def connect_event_def any_type_def ser_eval)
  from getEvent_frame [OF f(1) this] f(2) show ?thesis by (simp add: router_allocServerEvent_def)
qed

lemma cntxt_init_root:
  assumes "PWR_CntxtInit n sy role name = Inr (rc, Some (c, ch))"
  shows "\<exists>r a. getenv2 sy name ''POWERAPI_ROOT'' = Some r \<and> getSelf c = Some a \<and> m_objMap c r = Some a"
proof -
  from assms obtain cfg r where "getenv2 sy name ''POWERAPI_ROOT'' = Some r" "init_root n r (empty_cntxt sy cfg) = Inr c"
    by (auto simp: PWR_CntxtInit_def new_DistCntxt_def rbind_eq_Inr split: if_splits option.splits)
  with init_root_ok [OF _ empty_cntxt_ok] show ?thesis by blast
qed

lemma srvr_environment_root:
  assumes "CHR ''='' \<notin> set (sa_name args)"
  shows "getenv2 (srvr_environment args sy) (sa_name args) ''POWERAPI_ROOT'' =
    Some (case env_vars sy (sa_name args @ ''POWERAPI_ROOT'') of None \<Rightarrow> sa_pwrApiRoot args | Some v \<Rightarrow> v)"
  using assms by (simp add: getenv2_def srvr_environment_def setenv0_def setenv_nonempty_def split: option.splits)

lemma new_Server_run:
  assumes "new_Server env n sy argv w = Inr (args, s)" "CHR '' '' \<notin> set (sa_host args)" "CHR '' '' \<notin> set (sa_port args)"
    and "length (client_config (sa_host args) (sa_port args)) \<le> npos"
  shows "\<exists>rc ch w1 this b. PWR_CntxtInit n (srvr_environment args sy) PWR_ROLE_ADMIN (sa_name args) = Inr (rc, Some (ss_ctx s, ch)) \<and>
    context_channel env ch w = Inr (ss_ctxChan s, w1) \<and> outs w1 = outs w \<and> m_fd this = - 1 \<and>
    m_clientServer this = sa_host args \<and> m_clientServerPort this = sa_port args \<and>
    tcp_sendEvent env (connect_event (sa_pwrApiRoot args)) this w1 = Inr (b, ss_rtrChan s, ss_net s)"
proof -
  from assms(1) obtain rc c ch ctxChan w1 ec w2 this b where r:
    "PWR_CntxtInit n (srvr_environment args sy) PWR_ROLE_ADMIN (sa_name args) = Inr (rc, Some (c, ch))"
    "context_channel env ch w = Inr (ctxChan, w1)"
    "getEventChannel env ''TCP'' server_allocRtrEvent (client_config (sa_host args) (sa_port args)) ''router'' w1 = Inr (Some this, w2)"
    "tcp_sendEvent env (connect_event (sa_pwrApiRoot args)) this w2 = Inr (b, ss_rtrChan s, ss_net s)"
    "ss_ctx s = c" "ss_ctxChan s = ctxChan"
    by (auto simp: new_Server_def rbind_eq_Inr)
  have "outs w1 = outs w"
    using r(2) by (auto simp: context_channel_def getEventChannel_def new_TcpEventChannel_def initServer_def setupRecv_def os_call_def
        rbind_eq_Inr Let_def split: option.splits if_splits)
  moreover have "m_fd this = - 1 \<and> m_clientServer this = sa_host args \<and> m_clientServerPort this = sa_port args \<and> w2 = w1"
    using r(3) split_client_config [OF assms(2-4)]
    by (auto simp: getEventChannel_def new_TcpEventChannel_def str_or_empty_def rbind_eq_Inr)
  ultimately show ?thesis using r by blast
qed

text \<open>
  C25: A server that has started has connected to the router it was told, and the router that reads what it was sent takes the name of the option
  \<^verbatim>\<open>--pwrApiRoot\<close>: the events that wait for that name go to the server's channel, and those to come too. The entry point of the
  server's context is the object of that name only if the environment did not name another.
\<close>

theorem server_announces_root:
  assumes "new_Server env n sy argv w = Inr (args, s)" "CHR '' '' \<notin> set (sa_host args)" "CHR '' '' \<notin> set (sa_port args)"
    and "length (client_config (sa_host args) (sa_port args)) \<le> npos" "length (sa_pwrApiRoot args) < 2 ^ 32" "CHR ''='' \<notin> set (sa_name args)"
    and "queued st sid res" "sid \<noteq> - 1" "isOpen st c" "serverMap st c = Some old" "routeTable st (sa_pwrApiRoot args) = Some (APP_ID r sid)"
  shows "(\<exists>a. getSelf (ss_ctx s) = Some a \<and>
      m_objMap (ss_ctx s) (case env_vars sy (sa_name args @ ''POWERAPI_ROOT'') of None \<Rightarrow> sa_pwrApiRoot args | Some v \<Rightarrow> v) = Some a) \<and>
    connected env (sa_host args) (sa_port args) (m_fd (ss_rtrChan s)) (ss_net s) \<and>
    (\<exists>f e st'. outs (ss_net s) (m_fd (ss_rtrChan s)) = outs w (m_fd (ss_rtrChan s)) @ f \<and>
      getEvent router_allocServerEvent f = Inr (Some (EvServerConnect e), []) \<and>
      RtrServerConnect_process e (Some c) st = Inr (True, st') \<and>
      outq st' = outq st @ map (\<lambda>re. (c, EvRouter re)) res \<and> localMap st' sid = Some (Some c))"
proof -
  from new_Server_run [OF assms(1-4)] obtain rc ch w1 this b where run:
    "PWR_CntxtInit n (srvr_environment args sy) PWR_ROLE_ADMIN (sa_name args) = Inr (rc, Some (ss_ctx s, ch))"
    "outs w1 = outs w" "m_fd this = - 1" "m_clientServer this = sa_host args" "m_clientServerPort this = sa_port args"
    "tcp_sendEvent env (connect_event (sa_pwrApiRoot args)) this w1 = Inr (b, ss_rtrChan s, ss_net s)" by blast
  from run(6) obtain w2 x where w2': "tcp_connect env this w1 = Inr (ss_rtrChan s, w2)" "0 \<le> m_fd (ss_rtrChan s)"
    "sendEvent (connect_event (sa_pwrApiRoot args)) (outs w2 (m_fd (ss_rtrChan s))) = Inr x"
    "ss_net s = w2\<lparr>outs := (outs w2)(m_fd (ss_rtrChan s) := x)\<rparr>"
    by (auto simp: tcp_sendEvent_def rbind_eq_Inr)
  then have w2: "tcp_connect env this w1 = Inr (ss_rtrChan s, w2)" "0 \<le> m_fd (ss_rtrChan s)"
    "sendEvent (connect_event (sa_pwrApiRoot args)) (outs w2 (m_fd (ss_rtrChan s))) = Inr (outs (ss_net s) (m_fd (ss_rtrChan s)))"
    "calls (ss_net s) = calls w2" by simp_all
  note t = tcp_connect_result [OF w2(1) run(3) w2(2)]
  from connect_event_frame [OF w2(3) assms(5), of "[]"] t obtain f where
    f: "outs (ss_net s) (m_fd (ss_rtrChan s)) = outs w (m_fd (ss_rtrChan s)) @ f"
    "getEvent router_allocServerEvent f = Inr (Some (connect_event (sa_pwrApiRoot args)), [])" by (auto simp: run(2))
  obtain e where e: "connect_event (sa_pwrApiRoot args) = EvServerConnect e" "sc_name e = sa_pwrApiRoot args"
    by (simp add: connect_event_def)
  have c: "connected env (sa_host args) (sa_port args) (m_fd (ss_rtrChan s)) (ss_net s)"
    using t w2(4) run(4,5) by (simp add: connected_def)
  have rt: "routeTable st (sc_name e) = Some (APP_ID r sid)" using assms(11) e(2) by simp
  from connect_sends_queue [OF assms(7-10) rt] cntxt_init_root [OF run(1)] srvr_environment_root [OF assms(6), of sy] f c e(1)
  show ?thesis by auto
qed

definition srvr_argv :: "string list" where
  "srvr_argv = ''server'' # map (\<lambda>(n, v). long_opt n v)
     [(''name'', ''app''), (''rtrPort'', ''15000''), (''rtrHost'', ''localhost''), (''pwrApiConfig'', ''demo.xml''), (''pwrApiRoot'', ''node'')]"

lemma srvr_demo:
  "\<exists>args s. new_Server open_host 0 (demo_system ''p.b'') srvr_argv idle_net = Inr (args, s) \<and> sa_name args = ''app'' \<and> sa_host args = ''localhost'' \<and>
    sa_port args = ''15000'' \<and> sa_pwrApiRoot args = ''node''"
proof -
  let ?os = "[(''name'', ''app''), (''rtrPort'', ''15000''), (''rtrHost'', ''localhost''), (''pwrApiConfig'', ''demo.xml''), (''pwrApiRoot'', ''node'')]"
  let ?args = "\<lparr>sa_port = ''15000'', sa_host = ''localhost'', sa_pwrApiConfig = ''demo.xml'', sa_pwrApiRoot = ''node'', sa_pwrApiServer = [],
    sa_pwrApiServerPort = [], sa_name = ''app''\<rparr>"
  have "getopt_long srvr_options (map (\<lambda>(n, v). long_opt n v) ?os) = map (\<lambda>(n, v). Opt n v) ?os"
    by (rule getopt_long_opts) (simp add: srvr_options_def)
  then have args: "srvr_initArgs srvr_argv = Inr ?args"
    by (simp add: srvr_initArgs_def srvr_argv_def srvr_option_def new_SrvrArgs_def)
  let ?sy = "srvr_environment ?args (demo_system ''p.b'')"
  have env: "initEventChannel ?sy ''app'' = Inr None" "getenv2 ?sy ''app'' ''POWERAPI_CONFIG'' = Some (''demo'' @ ''.xml'')"
    "getenv2 ?sy ''app'' ''POWERAPI_ROOT'' = Some ''p.b''" "new_XmlConfig (documents ?sy (''demo'' @ ''.xml'')) = Inr (sys_xml demo_sys)"
    by (simp_all add: initEventChannel_def getenv2_def demo_system_def srvr_environment_def setenv0_def setenv_nonempty_def
        new_XmlConfig_def sys_xml_def)
  have s: "sys_find demo_sys ''p.b'' = Some (sy_objs demo_sys ! 2)" "objTypeStrToInt (os_type (sy_objs demo_sys ! 2)) = PWR_OBJ_NODE"
    "os_attrs (sy_objs demo_sys ! 2) = []"
    by (simp_all add: sys_find_def demo_sys_def objTypeStrToInt_def)
  let ?c = "empty_cntxt ?sy (xml_config (sys_xml demo_sys))"
  have "plain (m_config ?c) ''p.b''"
    using attr_field_sys [OF s(1), of "''op''" as_op] s(3)
    by (simp add: empty_cntxt_def plain_def xml_findAttrOp_def attr_find_def)
  moreover have "ask_objType (m_config ?c) ''p.b'' = Inr PWR_OBJ_NODE"
    by (simp add: empty_cntxt_def xml_objType_def xml_findObject_sys s)
  ultimately obtain c where "init_root 0 ''p.b'' ?c = Inr c"
    using init_root_plain [of ?c "''p.b''" PWR_OBJ_NODE 0] by (force simp: empty_cntxt_def)
  then have ctx: "PWR_CntxtInit 0 ?sy PWR_ROLE_ADMIN ''app'' = Inr (PWR_RET_SUCCESS, Some (c, None))"
    using open_config_xml [of ?sy "''demo''"] env(4) by (simp add: PWR_CntxtInit_def new_DistCntxt_def env)
  have len: "length (client_config ''localhost'' ''15000'') \<le> npos" by (simp add: client_config_def npos_def)
  have a: "atoi ''15000'' = Inr 15000" using atoi_show_nat [of 15000] by (simp add: show_nat.simps char_of_def bit_Suc_0_iff)
  have "sendEvent (connect_event ''node'') [] = Inr x \<Longrightarrow> True" for x by simp
  obtain f where f: "sendEvent (connect_event ''node'') [] = Inr f"
    by (simp add: connect_event_def sendEvent_def ser_eval any_type_def)
  have "\<exists>s. new_Server open_host 0 (demo_system ''p.b'') srvr_argv idle_net = Inr (?args, s)"
    using split_client_config [OF _ _ len]
    by (simp add: new_Server_def args ctx context_channel_def getEventChannel_def new_TcpEventChannel_def str_or_empty_def
        tcp_sendEvent_def tcp_connect_def tcp_xx_def connect_loop.simps [of 60] initClient_def a os_call_def open_host_def f idle_net_def)
  then show ?thesis by fastforce
qed

theorem server_announces_root_witness:
  "\<exists>args s e st' f. new_Server open_host 0 (demo_system ''p.b'') srvr_argv idle_net = Inr (args, s) \<and>
     m_objMap (ss_ctx s) ''p.b'' = getSelf (ss_ctx s) \<and> outs (ss_net s) (m_fd (ss_rtrChan s)) = f \<and>
     getEvent router_allocServerEvent f = Inr (Some (EvServerConnect e), []) \<and>
     RtrServerConnect_process e (Some 2) srv_example = Inr (True, st') \<and> localMap st' 5 = Some (Some 2)"
proof -
  obtain args s where s: "new_Server open_host 0 (demo_system ''p.b'') srvr_argv idle_net = Inr (args, s)" "sa_name args = ''app''"
    "sa_host args = ''localhost''" "sa_port args = ''15000''" "sa_pwrApiRoot args = ''node''" using srvr_demo by blast
  have "length (client_config (sa_host args) (sa_port args)) \<le> npos" by (simp add: s client_config_def npos_def)
  moreover have "queued srv_example 5 []" by (simp add: queued_def srv_example_def rtr_example_def)
  moreover have "(5 :: u32) \<noteq> - 1" "isOpen srv_example 2" "serverMap srv_example 2 = Some []" "routeTable srv_example ''node'' = Some (APP_ID 3 5)"
    by (simp_all add: srv_example_def rtr_example_def)
  ultimately have "(\<exists>a. getSelf (ss_ctx s) = Some a \<and> m_objMap (ss_ctx s) ''p.b'' = Some a) \<and>
      (\<exists>f e st'. outs (ss_net s) (m_fd (ss_rtrChan s)) = outs idle_net (m_fd (ss_rtrChan s)) @ f \<and>
        getEvent router_allocServerEvent f = Inr (Some (EvServerConnect e), []) \<and>
        RtrServerConnect_process e (Some 2) srv_example = Inr (True, st') \<and>
        outq st' = outq srv_example @ map (\<lambda>re. (2, EvRouter re)) [] \<and> localMap st' 5 = Some (Some 2))"
    using server_announces_root [OF s(1), of srv_example 5 "[]" 2 "[]" 3] by (simp add: s demo_system_def)
  then obtain a f e st' where "getSelf (ss_ctx s) = Some a" "m_objMap (ss_ctx s) ''p.b'' = Some a"
    "outs (ss_net s) (m_fd (ss_rtrChan s)) = outs idle_net (m_fd (ss_rtrChan s)) @ f"
    "getEvent router_allocServerEvent f = Inr (Some (EvServerConnect e), [])"
    "RtrServerConnect_process e (Some 2) srv_example = Inr (True, st')" "localMap st' 5 = Some (Some 2)" by blast
  moreover from this(3) have "outs (ss_net s) (m_fd (ss_rtrChan s)) = f" by (simp add: idle_net_def)
  ultimately show ?thesis using s(1)
    by (intro exI [of _ args] exI [of _ s] exI [of _ e] exI [of _ st'] exI [of _ f]) simp
qed

end
