(* ===== verification/GroupProps.thy ===== *)
theory GroupProps
  imports DistProps
begin

text \<open>
  What a read of a distributed group leaves in the caller's buffer: the rows of the local members in
  their order, and over them the rows of the remote members in theirs.
\<close>

section \<open>Local members\<close>

definition dist_row ::
    "'s DistObject heap \<Rightarrow> addr \<Rightarrow> PWR_AttrName list \<Rightarrow> 's \<Rightarrow> (((u64 \<times> u64) list \<times> addr option status) \<times> 's) res" where
  "dist_row h ob names s =
     rbind (heap_get h ob) (\<lambda>x.
     rbind (read_attrs (d_obj x) names s) (\<lambda>((xs, e), s). Inr ((xs, add_error (Some ob) e []), s)))"

fun dist_rows ::
    "'s DistObject heap \<Rightarrow> addr list \<Rightarrow> PWR_AttrName list \<Rightarrow> 's \<Rightarrow>
     (((u64 \<times> u64) list list \<times> addr option status) \<times> 's) res" where
  "dist_rows h [] names s = Inr (([], []), s)"
| "dist_rows h (ob # obs) names s =
     rbind (dist_row h ob names s) (\<lambda>((xs, es), s).
     rbind (dist_rows h obs names s) (\<lambda>((xss, es'), s). Inr ((xs # xss, es @ es'), s)))"

definition local_members :: "'s DistObject heap \<Rightarrow> addr list \<Rightarrow> PWR_AttrName list \<Rightarrow> bool" where
  "local_members h obs names \<longleftrightarrow>
     list_all (\<lambda>ob. case heap_get h ob of Inl _ \<Rightarrow> False | Inr x \<Rightarrow> all_local x names) obs"

lemma add_error_app: "add_error q e es = es @ add_error q e []"
  by (cases e) (auto simp: add_error_def status_add_def)

text \<open>What the loop over the local members leaves of the rest of the client.\<close>

definition calm :: "nat \<Rightarrow> ('s, 'u) client \<Rightarrow> ('s, 'u) client \<Rightarrow> bool" where
  "calm k c c' \<longleftrightarrow> m_evChan c' = m_evChan c \<and> creqs c' = creqs c \<and> reqs c' = reqs c @ replicate k None \<and>
     ec_in c' = ec_in c \<and> ec_out c' = ec_out c \<and> user c' = user c \<and> cjunk c' = cjunk c"

lemma get_local_rows:
  assumes ne: "names \<noteq> []" and loc: "local_members (c_objs (cx c)) obs names"
    and rows: "dist_rows (c_objs (cx c)) obs names (world (cx c)) = Inr ((rows, errs), w)"
    and V: "heap_get (vmem c) vb = Inr V" "vo + (i + length obs) * length names \<le> length V"
    and T: "heap_get (tmem c) tb = Inr T" "to + (i + length obs) * length names \<le> length T"
    and st: "heap_get (stats c) st = Inr es"
  shows "\<exists>c'. dgrp_get_local n app obs i (int (length names)) names (Some (vb, vo)) (Some (tb, to)) st c =
      Inr (PWR_RET_SUCCESS, c') \<and> calm (length obs) c c' \<and> cx c' = (cx c)\<lparr>world := w\<rparr> \<and>
    vmem c' = (vmem c)[vb := Some (splice_rows (length names) (vo + i * length names) (map (map fst) rows) V)] \<and>
    tmem c' = (tmem c)[tb := Some (splice_rows (length names) (to + i * length names) (map (map snd) rows) T)] \<and>
    stats c' = (stats c)[st := Some (es @ errs)]"
  using loc rows V T st
proof (induction obs arbitrary: i c V T es rows errs)
  case Nil
  then show ?case by (simp add: calm_def heap_same)
next
  case (Cons ob obs)
  let ?n = "length names" and ?c = c
  from Cons.prems(1) obtain x where x: "client_obj ob c = Inr x" "all_local x names"
    and loc: "local_members (c_objs (cx c)) obs names"
    by (auto simp: local_members_def client_obj_def split: sum.splits)
  from Cons.prems(2) x(1) obtain xs e w1 rs errs' where rd: "read_attrs (d_obj x) names (world (cx c)) = Inr ((xs, e), w1)"
    and rest: "dist_rows (c_objs (cx c)) obs names w1 = Inr ((rs, errs'), w)"
    and eq: "rows = xs # rs" "errs = add_error (Some ob) e [] @ errs'"
    by (auto simp: dist_row_def client_obj_def rbind_eq_Inr)
  have b: "vo + i * ?n + ?n \<le> length V" "to + i * ?n + ?n \<le> length T"
    using Cons.prems(4,6) by (simp_all add: algebra_simps)
  have lx: "length xs \<le> ?n" using read_attrs_length [OF rd] .
  obtain r c1 where r: "dist_getValues n app ob (int ?n) names (Some (vb, vo + i * ?n)) (Some (tb, to + i * ?n)) st c = Inr (r, c1)"
    "r = PWR_RET_SUCCESS \<or> r = PWR_RET_STATUS" and q: "quiet c c1" and c1: "cx c1 = (cx c)\<lparr>world := w1\<rparr>"
    "vmem c1 = (vmem c)[vb := Some (splice V (vo + i * ?n) (map fst xs))]"
    "tmem c1 = (tmem c)[tb := Some (splice T (to + i * ?n) (map snd xs))]"
    "stats c1 = (stats c)[st := Some (add_error (Some ob) e es)]"
    using local_read [OF x ne rd Cons.prems(3) b(1) Cons.prems(5) b(2) Cons.prems(7), of n app] by auto
  have h: "heap_get (vmem c1) vb = Inr (splice V (vo + i * ?n) (map fst xs))"
    "heap_get (tmem c1) tb = Inr (splice T (to + i * ?n) (map snd xs))"
    "heap_get (stats c1) st = Inr (add_error (Some ob) e es)"
    using Cons.prems(3,5,7) by (simp_all add: c1 heap_get_eq_Inr)
  have "\<exists>c'. dgrp_get_local n app obs (Suc i) (int ?n) names (Some (vb, vo)) (Some (tb, to)) st c1 =
      Inr (PWR_RET_SUCCESS, c') \<and> calm (length obs) c1 c' \<and> cx c' = (cx c1)\<lparr>world := w\<rparr> \<and>
    vmem c' = (vmem c1)[vb := Some (splice_rows ?n (vo + Suc i * ?n) (map (map fst) rs) (splice V (vo + i * ?n) (map fst xs)))] \<and>
    tmem c' = (tmem c1)[tb := Some (splice_rows ?n (to + Suc i * ?n) (map (map snd) rs) (splice T (to + i * ?n) (map snd xs)))] \<and>
    stats c' = (stats c1)[st := Some (add_error (Some ob) e es @ errs')]"
    by (rule Cons.IH) (use loc rest h c1(1) Cons.prems(4,6) b lx in \<open>simp_all add: algebra_simps\<close>)
  then show ?case
    using r q by (auto simp: ptr_add_def eq calm_def quiet_def c1 add_error_app [of "Some ob" e es] algebra_simps)
qed

section \<open>Remote members\<close>

definition rows_of :: "nat \<Rightarrow> u64 list list \<Rightarrow> bool" where
  "rows_of k rs \<longleftrightarrow> list_all (\<lambda>r. length r = k) rs"

lemma put_rows_spec:
  assumes "heap_get (vmem c) vb = Inr V" "heap_get (tmem c) tb = Inr T"
    and "rows_of k vss" "rows_of k tss" "length tss = i + length vss"
    and "pts = map (\<lambda>j. Some (tb, to + j * k)) [0..<length tss]"
    and "vo + (i + length vss) * k \<le> length V" "to + (i + length vss) * k \<le> length T"
  shows "put_rows pts tss i (zip (map (\<lambda>j. Some (vb, vo + j * k)) [i..<i + length vss]) vss) c =
    Inr (c\<lparr>vmem := (vmem c)[vb := Some (splice_rows k (vo + i * k) vss V)],
           tmem := (tmem c)[tb := Some (splice_rows k (to + i * k) (drop i tss) T)]\<rparr>)"
  using assms
proof (induction vss arbitrary: i c V T)
  case Nil
  then show ?case by (simp add: heap_same)
next
  case (Cons vs vss)
  have l: "length vs = k" "rows_of k vss" using Cons.prems(3) by (simp_all add: rows_of_def)
  have i: "i < length tss" using Cons.prems(5) by simp
  have lt: "length (tss ! i) = k" using Cons.prems(4) i by (simp add: rows_of_def list_all_length)
  have d: "drop i tss = tss ! i # drop (Suc i) tss" using i by (simp add: Cons_nth_drop_Suc)
  have u: "[i..<i + length (vs # vss)] = i # [Suc i..<Suc i + length vss]" by (simp add: upt_rec)
  have b: "vo + i * k + k \<le> length V" "to + i * k + k \<le> length T"
    using Cons.prems(7,8) by (simp_all add: algebra_simps)
  let ?c = "c\<lparr>vmem := (vmem c)[vb := Some (splice V (vo + i * k) vs)],
              tmem := (tmem c)[tb := Some (splice T (to + i * k) (tss ! i))]\<rparr>"
  have row: "put_row (Some (vb, vo + i * k)) pts tss i 0 vs c = Inr ?c"
    using put_row_spec [OF Cons.prems(1,2), of i pts "to + i * k" tss "tss ! i" "vo + i * k" 0 vs] i l b lt
    by (simp add: Cons.prems(6))
  have h: "heap_get (vmem ?c) vb = Inr (splice V (vo + i * k) vs)" "heap_get (tmem ?c) tb = Inr (splice T (to + i * k) (tss ! i))"
    using Cons.prems(1,2) by (simp_all add: heap_get_eq_Inr)
  have n: "length tss = Suc i + length vss"
    "vo + (Suc i + length vss) * k \<le> length (splice V (vo + i * k) vs)"
    "to + (Suc i + length vss) * k \<le> length (splice T (to + i * k) (tss ! i))"
    using Cons.prems(5,7,8) b l lt by (simp_all add: algebra_simps)
  have o: "vo + i * k + k = vo + Suc i * k" "to + i * k + k = to + Suc i * k" by simp_all
  have r: "put_rows pts tss i (zip (map (\<lambda>j. Some (vb, vo + j * k)) (i # js)) (vs # vss)) c =
    put_rows pts tss (Suc i) (zip (map (\<lambda>j. Some (vb, vo + j * k)) js) vss) ?c" for js
    by (simp add: row)
  show ?case
    unfolding u d r Cons.IH [OF h l(2) Cons.prems(4) n(1) Cons.prems(6) n(2,3)] splice_rows.simps o by simp
qed

lemma group_value_ops:
  assumes "client_obj d c = Inr x" "all_remote x cm names"
  shows "dgrp_valueOps d (int (length names)) names c = Inr (map (value_op x) names)"
proof -
  have "foldM (\<lambda>a vop. rbind (getAttrInfo (d_obj x) a) (\<lambda>info. Inr (vop @ [ai_valueOp info]))) as acc =
      Inr (acc @ map (value_op x) as)" if "all_remote x cm as" for as acc
    using that by (induction as arbitrary: acc) (auto simp: all_remote_Cons value_op_def)
  with assms show ?thesis by (simp add: dgrp_valueOps_def aread_n_def)
qed

text \<open>A response to a group request: one row for each remote member.\<close>

definition group_answers :: "u64 \<Rightarrow> nat \<Rightarrow> nat \<Rightarrow> CommRespEvent \<Rightarrow> bool" where
  "group_answers i k m e \<longleftrightarrow>
     ev_id e = i \<and> rows_of k (r_value e) \<and> length (r_value e) = m \<and> rows_of k (r_timeStamp e) \<and>
     length (r_timeStamp e) = m \<and>
     length (r_errObj e) = length (r_errAttr e) \<and> length (r_errAttr e) = length (r_errValue e)"

lemma group_response:
  assumes q: "heap_get (reqs c) q = Inr r" "rq_commReqs r = {a}"
      "rq_value r = map (\<lambda>j. Some (vb, vo + j * k)) [0..<m]" "rq_timeStamp r = map (\<lambda>j. Some (tb, to + j * k)) [0..<m]"
    and a: "heap_get (creqs c) a = Inr \<lparr>cr_kind = GetCommReq, cr_req = q\<rparr>"
    and e: "group_answers i k m e" "known c (r_errObj e)"
    and V: "heap_get (vmem c) vb = Inr V" "vo + m * k \<le> length V"
    and T: "heap_get (tmem c) tb = Inr T" "to + m * k \<le> length T"
    and st: "heap_get (stats c) (rq_status r) = Inr es"
  shows "creq_process n a (EvCommResp e) c =
    Inr (c\<lparr>vmem := (vmem c)[vb := Some (splice_rows k vo (r_value e) V)],
           tmem := (tmem c)[tb := Some (splice_rows k to (r_timeStamp e) T)],
           stats := (stats c)[rq_status r :=
             Some (es @ resp_errors c (r_errObj e) (r_errAttr e) (r_errValue e))],
           reqs := (reqs c)[q := Some (r\<lparr>rq_commReqs := {}\<rparr>)]\<rparr>)"
proof -
  have l: "rows_of k (r_value e)" "length (r_value e) = m" "rows_of k (r_timeStamp e)" "length (r_timeStamp e) = m"
      "length (r_errObj e) = length (r_errAttr e)" "length (r_errAttr e) = length (r_errValue e)"
    using e(1) by (simp_all add: group_answers_def)
  let ?c = "c\<lparr>vmem := (vmem c)[vb := Some (splice_rows k vo (r_value e) V)],
              tmem := (tmem c)[tb := Some (splice_rows k to (r_timeStamp e) T)]\<rparr>"
  have p: "put_rows (rq_timeStamp r) (r_timeStamp e) 0 (zip (rq_value r) (r_value e)) c = Inr ?c"
    using put_rows_spec [OF V(1) T(1) l(1,3), of 0 "rq_timeStamp r" "to" vo] q V T l by simp
  have "known ?c (r_errObj e)" using e(2) by (simp add: known_def)
  from report_errors_spec [OF this l(5,6), of q r es n] q st
  have "report_errors n q (r_errObj e) (r_errAttr e) (r_errValue e) ?c =
    Inr (?c\<lparr>stats := (stats c)[rq_status r :=
             Some (es @ resp_errors c (r_errObj e) (r_errAttr e) (r_errValue e))]\<rparr>)"
    by (simp add: resp_errors_def)
  with p show ?thesis
    using q(1,2) a l(2) by (simp add: creq_process_def req_getValue_def req_erase_def req_upd_def q(3))
qed

section \<open>The group\<close>

lemma remote_row_all:
  assumes "set ds \<subseteq> set all"
  shows "map (remote_row ds all k (Some (b, off))) [0..<length ds] = map (\<lambda>j. Some (b, off + j * k)) [0..<length ds]"
  using assms by (intro map_cong) (auto simp: remote_row_def ptr_add_def)

text \<open>
  The communicator of a group: the one it has, or the one that its first use makes, which is announced with the objects of the
  members' communicators; and the context after that.
\<close>

definition group_made :: "addr \<Rightarrow> DistGrp \<Rightarrow> 's cntxt \<Rightarrow> (addr \<times> DistComm \<times> AnyEvent list \<times> 's cntxt) res" where
  "group_made g y x =
     (case dg_comm y of
        Some cm \<Rightarrow> rbind (heap_get (c_comms x) cm) (\<lambda>m. Inr (cm, m, [], x))
      | None \<Rightarrow>
          rbind (comm_members (dg_distObjs y) x) (\<lambda>mss.
          let cm = length (c_comms x); m = \<lparr>dc_commID = new_commID x, dc_objects = [], dc_ec = True\<rparr> in
          Inr (cm, m, [EvCommCreate (new_CommCreateEvent (new_commID x) mss)],
            x\<lparr>c_comms := c_comms x @ [Some m], m_currentCommID := m_currentCommID x + 1,
              c_grps := (c_grps x)[g := Some (DGrp (y\<lparr>dg_comm := Some cm\<rparr>))]\<rparr>)))"

lemma grp_comm_made:
  assumes "client_grp g c = Inr y" "m_evChan c" "group_made g y (cx c) = Inr (cm, m, evs, x)"
  shows "grp_comm g c = Inr (cm, c\<lparr>cx := x, ec_out := ec_out c @ evs\<rparr>) \<and> heap_get (c_comms x) cm = Inr m \<and>
    c_objs x = c_objs (cx c) \<and> m_objMap x = m_objMap (cx c)"
proof (cases "dg_comm y")
  case None
  have g: "heap_get (c_grps (cx c)) g = Inr (DGrp y)"
    using assms(1) by (cases "heap_get (c_grps (cx c)) g") (auto simp: client_grp_def split: AnyGrp.split_asm)
  with None assms show ?thesis
    by (auto simp: grp_comm_def group_made_def new_DistGrpComm_def new_DistComm_def Let_def rbind_eq_Inr heap_set_def send_def heap_get_new)
qed (use assms in \<open>auto simp: grp_comm_def group_made_def rbind_eq_Inr\<close>)

lemma comm_members_world [simp]: "comm_members obs (x\<lparr>world := w\<rparr>) = comm_members obs x"
  by (induction obs) simp_all

lemma group_made_world:
  "group_made g y x = Inr (cm, m, evs, x') \<Longrightarrow> group_made g y (x\<lparr>world := w\<rparr>) = Inr (cm, m, evs, x'\<lparr>world := w\<rparr>)"
  by (auto simp: group_made_def new_commID_def Let_def rbind_eq_Inr split: option.splits)

lemma get_remote_rows:
  assumes y: "client_grp g c = Inr y" "dg_distObjs y = d # ds" "set (d # ds) \<subseteq> set (dg_allObjs y)"
    and m: "group_made g y (cx c) = Inr (cm, m, evs, xc)" "dc_ec m" "m_evChan c"
    and x: "client_obj d c = Inr x" "all_remote x cm' names"
    and V: "heap_get (vmem c) vb = Inr V" "vo + length (d # ds) * length names \<le> length V"
    and T: "heap_get (tmem c) tb = Inr T" "to + length (d # ds) * length names \<le> length T"
    and st: "heap_get (stats c) st = Inr es"
    and e: "group_answers (creq_id (length (creqs c))) (length names) (length (d # ds)) e" "known c (r_errObj e)"
    and i: "ec_in c = EvCommResp e # rest" "Suc (length (creqs c)) < 2 ^ 64"
  shows "\<exists>c'. dgrp_get_remote n app g y (int (length names)) names (Some (vb, vo)) (Some (tb, to)) st c = Inr c' \<and>
    vmem c' = (vmem c)[vb := Some (splice_rows (length names) vo (r_value e) V)] \<and>
    tmem c' = (tmem c)[tb := Some (splice_rows (length names) to (r_timeStamp e) T)] \<and>
    stats c' = (stats c)[st := Some (es @ resp_errors c (r_errObj e) (r_errAttr e) (r_errValue e))] \<and>
    ec_out c' = ec_out c @ evs @ [EvCommReq (get_event m (creq_id (length (creqs c))) x names)] \<and> ec_in c' = rest \<and>
    cx c' = xc"
proof -
  let ?k = "length names" and ?m = "length (d # ds)" and ?q = "length (reqs c)" and ?a = "length (creqs c)"
  let ?rA = "\<lparr>rq_value = [None], rq_timeStamp = [None], rq_status = st, rq_callback = None, rq_commReqs = {}\<rparr>"
  let ?r = "?rA\<lparr>rq_value := map (\<lambda>j. Some (vb, vo + j * ?k)) [0..<?m], rq_timeStamp := map (\<lambda>j. Some (tb, to + j * ?k)) [0..<?m]\<rparr>"
  let ?rB = "?r\<lparr>rq_commReqs := {?a}\<rparr>"
  let ?c1 = "send (EvCommReq (get_event m (creq_id ?a) x names))
    (c\<lparr>cx := xc, ec_out := ec_out c @ evs, creqs := creqs c @ [Some \<lparr>cr_kind = GetCommReq, cr_req = ?q\<rparr>], reqs := reqs c @ [Some ?rB]\<rparr>)"
  let ?c2 = "?c1\<lparr>ec_in := rest\<rparr>"
  let ?es = "es @ resp_errors c (r_errObj e) (r_errAttr e) (r_errValue e)"
  let ?c3 = "?c2\<lparr>vmem := (vmem ?c2)[vb := Some (splice_rows ?k vo (r_value e) V)],
      tmem := (tmem ?c2)[tb := Some (splice_rows ?k to (r_timeStamp e) T)],
      stats := (stats ?c2)[st := Some ?es], reqs := (reqs ?c2)[?q := Some (?rB\<lparr>rq_commReqs := {}\<rparr>)]\<rparr>"
  have q2: "heap_get (reqs ?c2) ?q = Inr ?rB" by (simp add: heap_get_new)
  have a2: "heap_get (creqs ?c2) ?a = Inr \<lparr>cr_kind = GetCommReq, cr_req = ?q\<rparr>" by (simp add: heap_get_new)
  note g = grp_comm_made [of g "c\<lparr>reqs := reqs c @ [Some ?rA]\<rparr>" y cm m evs xc]
  have g: "grp_comm g (c\<lparr>reqs := reqs c @ [Some ?rA]\<rparr>) =
      Inr (cm, c\<lparr>reqs := reqs c @ [Some ?rA], cx := xc, ec_out := ec_out c @ evs\<rparr>)"
    "heap_get (c_comms xc) cm = Inr m" "c_objs xc = c_objs (cx c)" "m_objMap xc = m_objMap (cx c)"
    using g y(1) m(1,3) by (simp_all add: client_grp_def)
  have k2: "known ?c2 (r_errObj e)" using e(2) g(4) by (simp add: known_def)
  have re: "resp_errors ?c2 = resp_errors c" by (intro ext) (simp add: resp_errors_def g(3,4))
  have resp: "creq_process n ?a (EvCommResp e) ?c2 = Inr ?c3"
    using group_response [OF q2 _ _ _ a2 e(1) k2 _ V(2) _ T(2), where es = es and n = n and vb = vb and tb = tb] V(1) T(1) st
    by (simp del: upt_Suc add: re [simplified])
  have id: "id_creq (any_id (EvCommResp e)) = Inr ?a"
    using e(1) i(2) by (simp add: any_id_def group_answers_def creq_id_inverse)
  have q3: "heap_get (reqs ?c3) ?q = Inr (?rB\<lparr>rq_commReqs := {}\<rparr>)" by (simp add: heap_get_new)
  have w: "wait_loop n ?q (EvCommResp e # rest) ?c1 = Inr (True, ?c3)"
    using id q2 q3 m(3) resp by (cases rest) (simp_all add: req_finished_def)
  have wait: "req_wait n app ?q ?c1 = Inr (PWR_RET_SUCCESS, ?c3)"
    using w q3 i(1) by (simp add: req_wait_def execCallback_def)
  have a3: "heap_free ?a (creqs ?c3) = Inr (creqs c @ [None])"
    by (simp add: heap_free_def heap_get_new)
  have ask: "comm_getValues cm (int ?k) names (map (value_op x) names) ?a
      (c\<lparr>cx := xc, ec_out := ec_out c @ evs, creqs := creqs c @ [Some \<lparr>cr_kind = GetCommReq, cr_req = ?q\<rparr>], reqs := reqs c @ [Some ?rB]\<rparr>) = Inr ?c1"
    using m(2) g(2) by (simp add: comm_getValues_def comm_id_def aread_n_def getChannel_def get_event_def new_CommReqEvent_def)
  have rr: "map (remote_row (d # ds) (dg_allObjs y) ?k (Some (b, off))) [0..<Suc (length ds)] =
      map (\<lambda>j. Some (b, off + j * ?k)) [0..<Suc (length ds)]" for b off
    using remote_row_all [OF y(3), of ?k b off] by (simp only: list.size(4) add_Suc_right add_0_right One_nat_def)
  have "dgrp_get_remote n app g y (int ?k) names (Some (vb, vo)) (Some (tb, to)) st c =
    Inr (?c3\<lparr>creqs := creqs c @ [None], reqs := (reqs ?c3)[?q := None]\<rparr>)"
    using group_value_ops [OF x] y(2) g(1) ask wait a3 q3 heap_free_live [OF q3]
    by (simp add: rr dgrp_get_remote_def with_request_def new_DistRequest_def req_upd_def heap_get_new new_creq_def
        req_insert_def creq_delete_def req_delete_def Let_def del: upt_Suc)
  then show ?thesis by simp
qed

text \<open>
  C3: A read of a group with remote members, whose response is the next event, returns the rows of the
  local members, then writes the row of the $i$th remote member over row $i$ of the buffer: if there are
  local members, rows of theirs are lost, and the last rows of the buffer, meant for the remote members,
  are not written. The errors are those of the local members in order, then those of the response. The first read makes the group's
  communicator and announces it with the objects of the members' communicators before the request; a later one sends the request only.
\<close>

theorem group_read_rows:
  assumes "client_grp g c = Inr y" "dg_distObjs y = d # ds" "set (d # ds) \<subseteq> set (dg_allObjs y)"
    and "group_made g y (cx c) = Inr (cm, m, evs, xc)" "dc_ec m" "m_evChan c"
    and "client_obj d c = Inr x" "all_remote x cm' names" "names \<noteq> []"
    and "local_members (c_objs (cx c)) (g_list (dg_grp y)) names"
    and "dist_rows (c_objs (cx c)) (g_list (dg_grp y)) names (world (cx c)) = Inr ((rows, errs), w)"
    and "heap_get (vmem c) vb = Inr V" "vo + length (g_list (dg_grp y)) * length names \<le> length V"
      "vo + length (d # ds) * length names \<le> length V"
    and "heap_get (tmem c) tb = Inr T" "to + length (g_list (dg_grp y)) * length names \<le> length T"
      "to + length (d # ds) * length names \<le> length T"
    and "heap_get (stats c) st = Inr es"
    and "group_answers (creq_id (length (creqs c))) (length names) (length (d # ds)) e" "known c (r_errObj e)"
    and "ec_in c = EvCommResp e # rest" "Suc (length (creqs c)) < 2 ^ 64"
  shows "\<exists>c' es'. dgrp_getValues n app g (int (length names)) names (Some (vb, vo)) (Some (tb, to)) st c =
      Inr (if es' = [] then PWR_RET_SUCCESS else PWR_RET_STATUS, c') \<and>
    es' = es @ errs @ resp_errors c (r_errObj e) (r_errAttr e) (r_errValue e) \<and> heap_get (stats c') st = Inr es' \<and>
    heap_get (vmem c') vb =
      Inr (splice_rows (length names) vo (r_value e) (splice_rows (length names) vo (map (map fst) rows) V)) \<and>
    heap_get (tmem c') tb =
      Inr (splice_rows (length names) to (r_timeStamp e) (splice_rows (length names) to (map (map snd) rows) T)) \<and>
    ec_out c' = ec_out c @ evs @ [EvCommReq (get_event m (creq_id (length (creqs c))) x names)] \<and> ec_in c' = rest \<and>
    cx c' = xc\<lparr>world := w\<rparr>"
proof -
  let ?k = "length names" and ?ls = "g_list (dg_grp y)"
  let ?V = "splice_rows ?k vo (map (map fst) rows) V" and ?T = "splice_rows ?k to (map (map snd) rows) T"
  have row_len: "length rs = length obs \<and> (\<forall>r \<in> set rs. length r \<le> ?k)"
    if "dist_rows h obs names s = Inr ((rs, er), s')" for h obs and s s' :: 'a and rs er
    using that by (induction obs arbitrary: s rs er)
      (fastforce simp: dist_row_def rbind_eq_Inr dest: read_attrs_length)+
  have len: "length ?V = length V" "length ?T = length T"
    using row_len [OF assms(11)] assms(13,16) by (auto intro!: length_splice_rows simp: mult.commute)
  obtain c1 where c1: "dgrp_get_local n app ?ls 0 (int ?k) names (Some (vb, vo)) (Some (tb, to)) st c =
      Inr (PWR_RET_SUCCESS, c1)" "calm (length ?ls) c c1" "cx c1 = (cx c)\<lparr>world := w\<rparr>"
    "vmem c1 = (vmem c)[vb := Some ?V]" "tmem c1 = (tmem c)[tb := Some ?T]" "stats c1 = (stats c)[st := Some (es @ errs)]"
    using get_local_rows [OF assms(9-12) _ assms(15) _ assms(18), of vo 0 "to" n app] assms(13,16) by auto
  have q: "m_evChan c1" "creqs c1 = creqs c" "ec_in c1 = EvCommResp e # rest" "ec_out c1 = ec_out c"
    using c1(2) assms(6,21) by (simp_all add: calm_def)
  have h: "heap_get (vmem c1) vb = Inr ?V" "heap_get (tmem c1) tb = Inr ?T" "heap_get (stats c1) st = Inr (es @ errs)"
    using assms(12,15,18) by (simp_all add: c1 heap_get_eq_Inr)
  have r1: "resp_errors c1 = resp_errors c" by (intro ext) (simp add: resp_errors_def c1(3))
  have g1: "client_grp g c1 = Inr y" "group_made g y (cx c1) = Inr (cm, m, evs, xc\<lparr>world := w\<rparr>)"
    "client_obj d c1 = Inr x" "known c1 (r_errObj e)"
    using assms(1,7,20) group_made_world [OF assms(4), of w] by (simp_all add: client_grp_def client_obj_def known_def c1(3))
  obtain c2 where c2: "dgrp_get_remote n app g y (int ?k) names (Some (vb, vo)) (Some (tb, to)) st c1 = Inr c2"
    "vmem c2 = (vmem c1)[vb := Some (splice_rows ?k vo (r_value e) ?V)]"
    "tmem c2 = (tmem c1)[tb := Some (splice_rows ?k to (r_timeStamp e) ?T)]"
    "stats c2 = (stats c1)[st := Some ((es @ errs) @ resp_errors c1 (r_errObj e) (r_errAttr e) (r_errValue e))]"
    "ec_out c2 = ec_out c1 @ evs @ [EvCommReq (get_event m (creq_id (length (creqs c1))) x names)]" "ec_in c2 = rest"
    "cx c2 = xc\<lparr>world := w\<rparr>"
    using get_remote_rows [OF g1(1) assms(2,3) g1(2) assms(5) q(1) g1(3) assms(8) h(1) _ h(2) _ h(3) _ g1(4) q(3), of vo "to" n app]
      assms(14,17,19,22) len q(2) by auto
  have "heap_get (stats c2) st = Inr (es @ errs @ resp_errors c (r_errObj e) (r_errAttr e) (r_errValue e))"
    "heap_get (vmem c2) vb = Inr (splice_rows ?k vo (r_value e) ?V)"
    "heap_get (tmem c2) tb = Inr (splice_rows ?k to (r_timeStamp e) ?T)"
    using assms(12,15,18) by (simp_all add: c1 c2 r1 heap_get_eq_Inr)
  then show ?thesis
    using assms(1) c1(1,3) c2(1,5-7) q(2,4) by (simp add: dgrp_getValues_def status_result_def status_empty_def)
qed

definition demo_remote :: "dummy_state DistObject" where
  "demo_remote =
     \<lparr>d_obj = \<lparr>m_name = ''plat.node1'', m_objType = PWR_OBJ_NODE, m_attrInfo =
        replicate 17 ((new_AttrInfo (Some sumOp) timeOp FP_ADD)\<lparr>ai_comm := Some 0\<rparr>), m_parent = None, m_children = None\<rparr>,
      d_comm = Some 0\<rparr>"

definition demo_group :: DistGrp where
  "demo_group = \<lparr>dg_grp = \<lparr>g_name = ''g'', g_list = [0]\<rparr>, dg_distObjs = [1], dg_allObjs = [0, 1], dg_comm = None\<rparr>"

definition demo_answer :: CommRespEvent where
  "demo_answer =
     \<lparr>ev_type = type_word CommResp, ev_id = 1, ev_status = 0, commID = 0, op = OpGet, r_timeStamp = [[7]], r_value = [[42]],
      r_grpIndex = 0, r_errObj = [], r_errAttr = [], r_errValue = []\<rparr>"

definition demo_grp_client :: "(dummy_state, unit) client" where
  "demo_grp_client =
     \<lparr>cx = demo_cntxt\<lparr>world := demo_dummy\<lparr>ticks := 0\<rparr>,
        c_objs := [Some \<lparr>d_obj = demo_object, d_comm = None\<rparr>, Some demo_remote], c_grps := [Some (DGrp demo_group)],
        c_comms := [Some \<lparr>dc_commID = 7, dc_objects = [''plat.node1''], dc_ec = False\<rparr>]\<rparr>,
      m_evChan = True, vmem = [Some [9, 9]], tmem = [Some [8, 8]], stats = [Some []], reqs = [], creqs = [],
      ec_in = [EvCommResp demo_answer], ec_out = [], cjunk = 9, user = ()\<rparr>"

theorem group_read_rows_witness:
  "\<exists>c'. dgrp_getValues 2 (\<lambda>_. Inr) 0 1 [PWR_ATTR_POWER] (Some (0, 0)) (Some (0, 0)) 0 demo_grp_client =
     Inr (PWR_RET_SUCCESS, c') \<and> heap_get (vmem c') 0 = Inr [42, 9] \<and>
     (\<exists>ev rq. ec_out c' = [EvCommCreate ev, EvCommReq rq] \<and> members ev = [[''plat.node1'']] \<and> commID rq = commID ev)"
proof -
  let ?c = demo_grp_client and ?n = "[PWR_ATTR_POWER]" and ?m = "\<lparr>dc_commID = new_commID (cx demo_grp_client), dc_objects = [], dc_ec = True\<rparr>"
  let ?ev = "new_CommCreateEvent (new_commID (cx ?c)) [[''plat.node1'']]"
  obtain xc where made: "group_made 0 demo_group (cx ?c) = Inr (1, ?m, [EvCommCreate ?ev], xc)"
    by (simp add: group_made_def demo_group_def demo_grp_client_def heap_get_def demo_remote_def Let_def)
  have a: "client_grp 0 ?c = Inr demo_group" "dg_distObjs demo_group = 1 # []" "set (1 # []) \<subseteq> set (dg_allObjs demo_group)"
    "group_made 0 demo_group (cx ?c) = Inr (1, ?m, [EvCommCreate ?ev], xc)" "dc_ec ?m" "m_evChan ?c"
    "client_obj 1 ?c = Inr demo_remote" "all_remote demo_remote 0 ?n" "?n \<noteq> []"
    by (fact made | simp add: demo_grp_client_def demo_group_def client_grp_def client_obj_def heap_get_def new_AttrInfo_def
        demo_remote_def all_remote_def getAttrInfo_def attr_index_def)+
  have l: "local_members (c_objs (cx ?c)) (g_list (dg_grp demo_group)) ?n"
    by (simp add: demo_grp_client_def demo_group_def heap_get_def local_members_def all_local_def demo_object_attrs
        demo_info_def new_AttrInfo_def)
  have b: "dist_rows (c_objs (cx ?c)) (g_list (dg_grp demo_group)) ?n (world (cx ?c)) =
      Inr (([[(5, 1000000000)]], []), demo_dummy\<lparr>ticks := 2\<rparr>)"
    by (simp add: demo_grp_client_def demo_group_def heap_get_def dist_row_def demo_object_read add_error_def numeral_2_eq_2)
  have v: "heap_get (vmem ?c) 0 = Inr [9, 9]" "0 + length (g_list (dg_grp demo_group)) * length ?n \<le> length [9 :: u64, 9]"
    "0 + length [1 :: addr] * length ?n \<le> length [9 :: u64, 9]"
    and t: "heap_get (tmem ?c) 0 = Inr [8, 8]" "0 + length (g_list (dg_grp demo_group)) * length ?n \<le> length [8 :: u64, 8]"
    "0 + length [1 :: addr] * length ?n \<le> length [8 :: u64, 8]"
    and st: "heap_get (stats ?c) 0 = Inr []"
    and e: "group_answers (creq_id (length (creqs ?c))) (length ?n) (length [1 :: addr]) demo_answer" "known ?c (r_errObj demo_answer)"
    and i: "ec_in ?c = EvCommResp demo_answer # []" "Suc (length (creqs ?c)) < 2 ^ 64"
    by (simp_all add: demo_grp_client_def demo_group_def heap_get_def group_answers_def rows_of_def demo_answer_def
        creq_id_def known_def)
  have out: "splice_rows 1 0 [[42]] (splice_rows 1 0 [[5]] [9, 9]) = [42 :: u64, 9]" by (simp add: splice_def)
  show ?thesis
    using group_read_rows [OF a l b v t st e i, of 2 "\<lambda>_. Inr"] out
    by (auto simp: demo_answer_def resp_errors_def new_CommCreateEvent_def get_event_def demo_grp_client_def)
qed

end
