(* ===== verification/CntxtEnd.thy ===== *)
theory CntxtEnd
  imports Start
begin

text \<open>
  The end of a context (\<^verbatim>\<open>DistCntxt::~DistCntxt\<close>, \<^verbatim>\<open>PWR_CntxtDestroy\<close>): its objects go, the
  devices are closed, the tables of the plugins are finalised, and the communicators go. The maps are emptied from their first key
  on; the order of the keys is an argument, since the tables of operations are ordered by their addresses. The groups are not
  deleted, and neither is the handle of a plugin's library.
\<close>

section \<open>The destructor\<close>








section \<open>The devices of a context\<close>


















section \<open>What the destructor calls\<close>















section \<open>Property\<close>







end
