(* ===== verification/Powerrt.thy ===== *)
theory Powerrt
  imports PyConfig CLib
begin

text \<open>
  The library that starts the daemons of an MPI job (\<^verbatim>\<open>powerrt.cc\<close>): the ranks agree on one launcher for
  each node and on the numbers of the nodes, each launcher asks a Python script what to start and starts it, and
  \<^verbatim>\<open>MPI_Finalize\<close> ends what was started. The job is the list of the processor names of its ranks; what the ranks gather
  from each other is a function of it. The messages of the debug level are left out.
\<close>

section \<open>The list of nodes\<close>

text \<open>The first digit of the name; without one the loop reads past its end.\<close>

definition name_pos :: "string \<Rightarrow> nat res" where
  "name_pos procName =
     (if \<exists>c \<in> set procName. is_digit c then Inr (length (takeWhile (\<lambda>c. \<not> is_digit c) procName)) else Inl OutOfBounds)"

definition node_id :: "string \<Rightarrow> int res" where
  "node_id procName = rbind (name_pos procName) (\<lambda>pos. atoi (drop pos procName))"

fun gather_ids :: "string list \<Rightarrow> int list res" where
  "gather_ids [] = Inr []"
| "gather_ids (nm # nms) = rbind (node_id nm) (\<lambda>k. rbind (gather_ids nms) (\<lambda>ks. Inr (k # ks)))"

text \<open>
  The first rank with the same node, and the length of the names: the one of the first rank before it whose name has another
  length than the rank's own.
\<close>

fun launcher_loop :: "int \<Rightarrow> nat \<Rightarrow> nat \<Rightarrow> (int \<times> nat) list \<Rightarrow> nat \<Rightarrow> nat option \<times> nat" where
  "launcher_loop nodeid sz i [] nameLen = (None, nameLen)"
| "launcher_loop nodeid sz i ((b, l) # bs) nameLen =
     (if b = nodeid then (Some i, nameLen)
      else launcher_loop nodeid sz (Suc i) bs (if nameLen = sz \<and> l \<noteq> nameLen then l else nameLen))"

text \<open>\<^verbatim>\<open>std::setw\<close> and \<^verbatim>\<open>std::setfill\<close>.\<close>

definition setw :: "nat \<Rightarrow> char \<Rightarrow> string \<Rightarrow> string" where
  "setw w c s = replicate (w - length s) c @ s"

definition nid_step :: "(int \<Rightarrow> string) \<Rightarrow> int \<Rightarrow> nat \<times> int \<Rightarrow> int list \<times> nat \<times> nat option \<times> string \<Rightarrow>
    int list \<times> nat \<times> nat option \<times> string" where
  "nid_step num nodeid = (\<lambda>(i, b) (nodes, numNodes, myNid, out).
     if b \<in> set nodes then (nodes, numNodes, myNid, out)
     else (b # nodes, numNodes + 1, if b = nodeid then Some numNodes else myNid,
           out @ (if 0 < i then '','' else []) @ num b))"

text \<open>For a launcher the list, the number of nodes and its own; for the other ranks nothing.\<close>

definition createNidList :: "string list \<Rightarrow> nat \<Rightarrow> (string \<times> nat \<times> nat) option res" where
  "createNidList procs my_rank =
     rbind (aread procs my_rank) (\<lambda>procName.
     rbind (name_pos procName) (\<lambda>pos.
     rbind (node_id procName) (\<lambda>nodeid.
     rbind (gather_ids procs) (\<lambda>rbuf.
     let (launcherRank, nameLen) = launcher_loop nodeid (length procName) 0 (zip rbuf (map length procs)) (length procName) in
     if launcherRank \<noteq> Some my_rank then Inr None
     else
       let num = (if nameLen = length procName then \<lambda>b. setw (length procName - pos) (CHR ''0'') (show_int b) else show_int);
           (nodes, numNodes, myNid, out) = fold (nid_step num nodeid) (enumerate 0 rbuf)
             ([], 0, None, setw 1 (CHR '' '') (take pos procName) @ ''['')
       in rbind (deref myNid) (\<lambda>myNid. Inr (Some (out @ '']'', numNodes, myNid)))))))"

section \<open>Starting the daemons\<close>

record Data =
  d_client :: int
  d_daemon :: int
  routeFile :: string

text \<open>
  What a launcher does: a process that was forked, with the number it got, the arguments and the environment it executes; waiting for a
  signal; and the calls at the end.
\<close>

datatype rt_act =
    SetEnv string string
  | Fork int "string list" "string list"
  | Pause
  | Unlink string
  | Kill int
  | WaitPid int
  | Barrier

text \<open>The answers of the system: the environment, the number of the process, the modules and the numbers of the children.\<close>

record rt_system =
  rt_env :: "string \<rightharpoonup> string"
  rt_pid :: nat
  rt_import :: "string option \<Rightarrow> string \<Rightarrow> pymod option"
  rt_fork :: "nat \<Rightarrow> int"

definition env_or :: "rt_system \<Rightarrow> string \<Rightarrow> string \<Rightarrow> string" where
  "env_or sy v d = (case rt_env sy v of None \<Rightarrow> d | Some s \<Rightarrow> s)"

definition env_needed :: "rt_system \<Rightarrow> string \<Rightarrow> string res" where
  "env_needed sy v = (case rt_env sy v of None \<Rightarrow> Inl (ExitCall (- 1)) | Some s \<Rightarrow> Inr s)"

text \<open>
  One program: its arguments and its environment, which may be missing. The third one is forked before the assertion fails. A
  \<^verbatim>\<open>fork\<close> that fails returns \<open>-1\<close>, which is not 0.
\<close>

definition launch :: "rt_system \<Rightarrow> pyobj \<Rightarrow> nat \<Rightarrow> Data \<times> rt_act list \<Rightarrow> (Data \<times> rt_act list) res" where
  "launch sy pRetval i = (\<lambda>(d, acts).
     rbind (PyList_GetItem pRetval i) (\<lambda>p.
     rbind (deref p) (\<lambda>pyTmp.
     rbind (PyList_GetItem pyTmp 0) (\<lambda>pyArgs.
     rbind (PyList_GetItem pyTmp 1) (\<lambda>pyEnv.
     rbind (deref pyArgs) (\<lambda>pyArgs.
     rbind (list_strings pyArgs) (\<lambda>args.
     rbind (case pyEnv of None \<Rightarrow> Inr [] | Some e \<Rightarrow> list_strings e) (\<lambda>envs.
     let child = rt_fork sy i; acts = acts @ [Fork child args envs, Pause] in
     if i = 0 then Inr (d\<lparr>d_daemon := child\<rparr>, acts)
     else if i = 1 then Inr (d\<lparr>d_client := child\<rparr>, acts)
     else Inl AssertFail))))))))"

definition runtimeInit :: "rt_system \<Rightarrow> string \<Rightarrow> nat \<Rightarrow> nat \<Rightarrow> (Data \<times> rt_act list) res" where
  "runtimeInit sy nidList numNodes myNid =
     rbind (env_needed sy ''POWERRT_SCRIPT'') (\<lambda>file.
     rbind (py_module_name file) (\<lambda>(path, m).
     rbind (case rt_import sy path m of None \<Rightarrow> Inl (ExitCall 1) | Some md \<Rightarrow> Inr md) (\<lambda>md.
     rbind (py_function md ''GetApps'') (\<lambda>_.
     let rf = ''routeTable.'' @ show_nat (rt_pid sy) @ ''.'' @ show_nat myNid in
     rbind (env_needed sy ''POWERAPI_CONFIG'') (\<lambda>config.
     rbind (env_needed sy ''POWERRT_DAEMON'') (\<lambda>daemon.
     rbind (py_call md ''GetApps''
       [ArgInt (int myNid), ArgStr config, ArgStr nidList, ArgStr rf, ArgStr (env_or sy ''POWERRT_OBJECT'' ''plat''),
        ArgStr (env_or sy ''POWERRT_ATTR'' []), ArgStr (env_or sy ''POWERRT_LOGFILE'' []), ArgStr daemon,
        ArgStr (env_or sy ''POWERRT_CLIENT'' [])]) (\<lambda>pRetval.
     rbind (PyList_Size pRetval) (\<lambda>n.
     rbind (foldM (launch sy pRetval) [0..<nat n]
       (\<lparr>d_client = - 1, d_daemon = - 1, routeFile = rf\<rparr>,
        SetEnv ''POWERRT_NUMNODES'' (show_nat numNodes) # (case path of None \<Rightarrow> [] | Some p \<Rightarrow> [SetEnv ''PYTHONPATH'' p]))) (\<lambda>r.
     rbind (Py_DECREF pRetval) (\<lambda>_. Inr r))))))))))"

text \<open>What the two calls of MPI add to those of the library.\<close>

definition MPI_Init :: "rt_system \<Rightarrow> string list \<Rightarrow> nat \<Rightarrow> (Data option \<times> rt_act list) res" where
  "MPI_Init sy procs my_rank =
     rbind (createNidList procs my_rank) (\<lambda>l.
     case l of
       None \<Rightarrow> Inr (None, [])
     | Some (nidList, numNodes, myNid) \<Rightarrow>
         rbind (runtimeInit sy nidList numNodes myNid) (\<lambda>(d, acts). Inr (Some d, acts)))"

definition end_child :: "int \<Rightarrow> rt_act list" where
  "end_child pid = (if - 1 < pid then [Kill pid, WaitPid pid] else [])"

definition MPI_Finalize :: "Data option \<Rightarrow> rt_act list" where
  "MPI_Finalize data =
     (case data of
        None \<Rightarrow> [Barrier]
      | Some d \<Rightarrow> Unlink (routeFile d) # end_child (d_client d) @ Barrier # end_child (d_daemon d))"

end
