(* ===== verification/PowerrtProps.thy ===== *)
theory PowerrtProps
  imports Powerrt
begin

text \<open>
  What the ranks of a job agree on: which of them are launchers, and the number and the names of the nodes; and that the end of
  the job ends what its launchers started.
\<close>

section \<open>Launchers\<close>

lemma gather_ids_nth: "gather_ids procs = Inr ids \<Longrightarrow> length ids = length procs \<and> (\<forall>i < length procs. node_id (procs ! i) = Inr (ids ! i))"
proof (induction procs arbitrary: ids)
  case (Cons p procs)
  then obtain k ks where "node_id p = Inr k" "gather_ids procs = Inr ks" "ids = k # ks" by (auto simp: rbind_eq_Inr)
  with Cons.IH [of ks] show ?case by (auto simp: nth_Cons split: nat.splits)
qed simp

lemma find_map_Suc: "find P (map f xs) = map_option f (find (\<lambda>x. P (f x)) xs)"
  by (induction xs) auto

text \<open>The loop finds the first rank of the node.\<close>

lemma launcher_loop_fst:
  "fst (launcher_loop k sz i bs n) = (case find (\<lambda>j. fst (bs ! j) = k) [0..<length bs] of None \<Rightarrow> None | Some j \<Rightarrow> Some (i + j))"
proof (induction k sz i bs n rule: launcher_loop.induct)
  case (2 nodeid sz i b l bs nameLen)
  have "find (\<lambda>j. fst (((b, l) # bs) ! j) = nodeid) [0..<length ((b, l) # bs)] =
      (if b = nodeid then Some 0 else map_option Suc (find (\<lambda>j. fst (bs ! j) = nodeid) [0..<length bs]))"
    by (simp add: upt_conv_Cons map_Suc_upt [symmetric] find_map_Suc del: upt_Suc)
  with 2 show ?case by (auto split: option.splits)
qed simp

lemma launcher_first:
  assumes "r < length ids" "length ls = length ids"
  shows "fst (launcher_loop (ids ! r) sz 0 (zip ids ls) n) = Some r \<longleftrightarrow> (\<forall>j < r. ids ! j \<noteq> ids ! r)"
proof -
  let ?f = "find (\<lambda>j. fst (zip ids ls ! j) = ids ! r) [0..<length (zip ids ls)]"
  have f: "?f = find (\<lambda>j. ids ! j = ids ! r) [0..<length ids]" using assms(2) by (auto intro!: find_cong)
  have "?f = Some r \<longleftrightarrow> (\<forall>j < r. ids ! j \<noteq> ids ! r)"
    unfolding f find_Some_iff using assms(1) by auto
  then show ?thesis unfolding launcher_loop_fst by (auto split: option.splits)
qed

section \<open>The elements of a list, in the order they first appear\<close>

definition firsts :: "'a list \<Rightarrow> 'a list" where
  "firsts xs = fold (\<lambda>x ys. if x \<in> set ys then ys else ys @ [x]) xs []"

lemma firsts_Nil [simp]: "firsts [] = []"
  by (simp add: firsts_def)

lemma set_firsts [simp]: "set (firsts xs) = set xs"
  by (induction xs rule: rev_induct) (auto simp: firsts_def)

lemma firsts_snoc: "firsts (xs @ [x]) = (if x \<in> set xs then firsts xs else firsts xs @ [x])"
  using set_firsts [of xs] by (simp add: firsts_def)

lemma distinct_firsts [simp]: "distinct (firsts xs)"
  by (induction xs rule: rev_induct) (auto simp: firsts_snoc)

lemma firsts_empty [simp]: "firsts xs = [] \<longleftrightarrow> xs = []"
  by (metis set_firsts set_empty)

lemma length_firsts: "length (firsts xs) = card (set xs)"
  using distinct_card [OF distinct_firsts, of xs] by simp

lemma firsts_map: "inj_on f (set xs) \<Longrightarrow> firsts (map f xs) = map f (firsts xs)"
proof (induction xs rule: rev_induct)
  case (snoc x xs)
  then have "f x \<in> f ` set xs \<longleftrightarrow> x \<in> set xs" by (auto simp: inj_on_def)
  with snoc show ?case by (simp add: firsts_snoc inj_on_def)
qed simp

definition position :: "'a \<Rightarrow> 'a list \<Rightarrow> nat" where
  "position x xs = length (takeWhile (\<lambda>y. y \<noteq> x) xs)"

lemma position_nth: "x \<in> set xs \<Longrightarrow> position x xs < length xs \<and> xs ! position x xs = x"
  unfolding position_def by (induction xs) auto

lemma position_app: "position x (xs @ ys) = (if x \<in> set xs then position x xs else length xs + position x ys)"
  unfolding position_def by (induction xs) auto

lemma position_bij: "distinct xs \<Longrightarrow> bij_betw (\<lambda>x. position x xs) (set xs) {..<length xs}"
proof (rule bij_betw_byWitness [where f' = "nth xs"])
  assume d: "distinct xs"
  show "\<forall>i \<in> {..<length xs}. position (xs ! i) xs = i"
    using d position_nth [of _ xs] by (metis lessThan_iff nth_eq_iff_index_eq nth_mem)
qed (auto simp: position_nth)

lemma join_more: "join d (ws @ [w]) = (if ws = [] then w else join d ws @ d # w)"
  by (induction ws rule: join.induct) auto

lemma nid_fold:
  "fold (nid_step num k) (enumerate 0 ids) ([], 0, None, out) =
     (rev (firsts ids), length (firsts ids), if k \<in> set ids then Some (position k (firsts ids)) else None,
      out @ join CHR '','' (map num (firsts ids)))"
proof (induction ids rule: rev_induct)
  case (snoc x ids)
  then show ?case
    by (simp add: enumerate_append_eq nid_step_def firsts_snoc join_more position_app position_def [of _ "[x]"])
qed simp

text \<open>What a rank computes.\<close>

definition nid_number :: "string list \<Rightarrow> int list \<Rightarrow> nat \<Rightarrow> int \<Rightarrow> string" where
  "nid_number procs ids r =
     (let nm = procs ! r; pos = length (takeWhile (\<lambda>c. \<not> is_digit c) nm) in
      if snd (launcher_loop (ids ! r) (length nm) 0 (zip ids (map length procs)) (length nm)) = length nm
      then \<lambda>b. setw (length nm - pos) (CHR ''0'') (show_int b) else show_int)"

definition is_launcher :: "int list \<Rightarrow> nat \<Rightarrow> bool" where
  "is_launcher ids r \<longleftrightarrow> (\<forall>j < r. ids ! j \<noteq> ids ! r)"

lemma createNidList_eq:
  assumes "gather_ids procs = Inr ids" "r < length procs"
  shows "createNidList procs r =
    Inr (if is_launcher ids r
      then Some (setw 1 (CHR '' '') (takeWhile (\<lambda>c. \<not> is_digit c) (procs ! r)) @ ''['' @
             join CHR '','' (map (nid_number procs ids r) (firsts ids)) @ '']'',
           card (set ids), position (ids ! r) (firsts ids))
      else None)"
proof -
  from gather_ids_nth [OF assms(1)] assms(2) have len: "length ids = length procs" and id: "node_id (procs ! r) = Inr (ids ! r)" by auto
  from id have pos: "name_pos (procs ! r) = Inr (length (takeWhile (\<lambda>c. \<not> is_digit c) (procs ! r)))"
    by (auto simp: node_id_def rbind_eq_Inr name_pos_def split: if_splits)
  let ?ll = "launcher_loop (ids ! r) (length (procs ! r)) 0 (zip ids (map length procs)) (length (procs ! r))"
  obtain lr nl where ll: "?ll = (lr, nl)" by (cases ?ll)
  have lr: "lr = Some r \<longleftrightarrow> is_launcher ids r"
    using launcher_first [of r ids "map length procs"] assms(2) len ll by (simp add: is_launcher_def) (metis fst_conv)
  have mem: "ids ! r \<in> set ids" using assms(2) len by simp
  show ?thesis
    using assms lr mem pos
    by (simp add: createNidList_def id ll nid_fold nid_number_def length_firsts takeWhile_eq_take [symmetric] Let_def)
qed

text \<open>
  C31: Every node of a job has one launcher, the first of its ranks, and the launchers number the nodes from 0 on, each number
  once; the other ranks start nothing. A node is known by the number at the first digit of its host's name.
\<close>

theorem one_launcher_per_node:
  assumes "gather_ids procs = Inr ids"
  shows "\<exists>nid. (\<forall>r < length procs. if \<forall>j < r. ids ! j \<noteq> ids ! r
      then \<exists>l. createNidList procs r = Inr (Some (l, card (set ids), nid r)) else createNidList procs r = Inr None) \<and>
    bij_betw (\<lambda>r. ids ! r) {r. r < length procs \<and> (\<forall>j < r. ids ! j \<noteq> ids ! r)} (set ids) \<and>
    bij_betw nid {r. r < length procs \<and> (\<forall>j < r. ids ! j \<noteq> ids ! r)} {..<card (set ids)}"
proof -
  let ?L = "{r. r < length procs \<and> is_launcher ids r}" and ?nid = "\<lambda>r. position (ids ! r) (firsts ids)"
  have len: "length ids = length procs" using gather_ids_nth [OF assms] by simp
  have "inj_on (\<lambda>r. ids ! r) ?L" by (rule inj_onI) (metis (mono_tags, lifting) is_launcher_def linorder_neqE_nat mem_Collect_eq)
  moreover have "(\<lambda>r. ids ! r) ` ?L = set ids"
  proof
    show "(\<lambda>r. ids ! r) ` ?L \<subseteq> set ids" using len by auto
    show "set ids \<subseteq> (\<lambda>r. ids ! r) ` ?L"
    proof
      fix k assume "k \<in> set ids"
      then have ex: "\<exists>r. r < length ids \<and> ids ! r = k" by (auto simp: in_set_conv_nth)
      let ?r = "LEAST r. r < length ids \<and> ids ! r = k"
      have "?r < length ids \<and> ids ! ?r = k" by (rule LeastI_ex [OF ex])
      moreover have "is_launcher ids ?r"
        unfolding is_launcher_def using calculation not_less_Least [of _ "\<lambda>r. r < length ids \<and> ids ! r = k"] by (metis less_trans)
      ultimately show "k \<in> (\<lambda>r. ids ! r) ` ?L" using len by (auto intro!: rev_image_eqI [of ?r])
    qed
  qed
  ultimately have b: "bij_betw (\<lambda>r. ids ! r) ?L (set ids)" by (simp add: bij_betw_def)
  have "bij_betw ((\<lambda>k. position k (firsts ids)) \<circ> (\<lambda>r. ids ! r)) ?L {..<card (set ids)}"
    using bij_betw_trans [OF b] position_bij [OF distinct_firsts, of ids] by (simp add: length_firsts)
  then have "bij_betw ?nid ?L {..<card (set ids)}" by (simp add: comp_def)
  with b show ?thesis using createNidList_eq [OF assms] by (intro exI [of _ ?nid]) (auto simp: is_launcher_def)
qed

theorem one_launcher_per_node_witness:
  "\<exists>nid. nid ` {0, 2} = {..<2} \<and> createNidList [''n10'', ''n10'', ''n1''] 1 = Inr None \<and>
    (\<forall>r \<in> {0, 2}. \<exists>l. createNidList [''n10'', ''n10'', ''n1''] r = Inr (Some (l, 2, nid r)))"
proof -
  have "gather_ids [''n10'', ''n10'', ''n1''] = Inr [10, 10, 1]"
    by (simp add: node_id_def name_pos_def is_digit_def atoi_def is_space_def digits_val_def digit_val_def)
  from one_launcher_per_node [OF this] obtain nid where
    n: "\<forall>r < length [''n10'', ''n10'', ''n1'']. if \<forall>j < r. [10, 10, 1 :: int] ! j \<noteq> [10, 10, 1] ! r
      then \<exists>l. createNidList [''n10'', ''n10'', ''n1''] r = Inr (Some (l, card (set [10 :: int, 10, 1]), nid r))
      else createNidList [''n10'', ''n10'', ''n1''] r = Inr None"
    "bij_betw nid {r. r < length [''n10'', ''n10'', ''n1''] \<and> (\<forall>j < r. [10, 10, 1 :: int] ! j \<noteq> [10, 10, 1] ! r)} {..<card (set [10 :: int, 10, 1])}"
    by blast
  have c: "card (set [10 :: int, 10, 1]) = 2" by simp
  have L: "{r. r < length [''n10'', ''n10'', ''n1''] \<and> (\<forall>j < r. [10, 10, 1 :: int] ! j \<noteq> [10, 10, 1] ! r)} = {0, 2}"
    by (auto simp: less_Suc_eq numeral_2_eq_2)
  from n(2) have "nid ` {0, 2} = {..<2}" unfolding L c by (simp add: bij_betw_def)
  moreover have "createNidList [''n10'', ''n10'', ''n1''] 1 = Inr None"
  proof -
    have "\<exists>j < 1. [10, 10, 1 :: int] ! j = [10, 10, 1] ! 1" by (intro exI [of _ 0]) simp
    then show ?thesis using n(1) [rule_format, of 1] by (auto split: if_splits)
  qed
  moreover have "\<exists>l. createNidList [''n10'', ''n10'', ''n1''] r = Inr (Some (l, 2, nid r))" if "r \<in> {0, 2}" for r
    using n(1) [rule_format, of r] that c by (auto simp: less_Suc_eq numeral_2_eq_2 split: if_splits)
  ultimately show ?thesis by blast
qed

section \<open>The names of the nodes\<close>

lemma digits_val_snoc: "\<forall>c \<in> set s. is_digit c \<Longrightarrow> is_digit d \<Longrightarrow> digits_val (s @ [d]) = 10 * digits_val s + digit_val d"
  by (simp add: digits_val_def takeWhile_eq_all_conv [THEN iffD2])

lemma digit_char: "is_digit d \<Longrightarrow> digit_val d < 10 \<and> char_of (48 + digit_val d) = d"
  by (auto simp: is_digit_def digit_val_def)

text \<open>A number padded with zeros to the length it was written with is what was written.\<close>

lemma setw_show:
  assumes "\<forall>c \<in> set s. is_digit c" "s \<noteq> []"
  shows "setw (length s) (CHR ''0'') (show_nat (digits_val s)) = s"
  using assms
proof (induction s rule: rev_induct)
  case (snoc d s)
  from snoc.prems(1) have d: "\<forall>c \<in> set s. is_digit c" "is_digit d" by auto
  note dv = digit_char [OF d(2)]
  show ?case
  proof (cases "digits_val s = 0")
    case True
    have "s = replicate (length s) (CHR ''0'')"
    proof (cases "s = []")
      case False
      then obtain n where n: "length s = Suc n" by (cases s) auto
      have "show_nat 0 = ''0''" by (simp add: show_nat.simps [of 0] char_of_def bit_Suc_0_iff)
      with snoc.IH [OF d(1) False] True n have "replicate n (CHR ''0'') @ ''0'' = s" by (simp add: setw_def)
      with n show ?thesis by (simp add: replicate_append_same)
    qed simp
    then have "replicate (length s) (CHR ''0'') @ [d] = s @ [d]" by simp
    then show ?thesis
      using dv by (simp add: digits_val_snoc d True setw_def show_nat.simps [of "digit_val d"])
  next
    case False
    then have "s \<noteq> []" by (auto simp: digits_val_def)
    from snoc.IH [OF d(1) this] False dv show ?thesis
      by (simp add: digits_val_snoc d setw_def show_nat.simps [of "10 * digits_val s + digit_val d"])
  qed
qed simp

text \<open>A name of a job whose hosts have the same prefix and numbers of the same length.\<close>

definition host_name :: "string \<Rightarrow> nat \<Rightarrow> string \<Rightarrow> bool" where
  "host_name prefix w nm \<longleftrightarrow> (\<exists>s. nm = prefix @ s \<and> length s = w \<and> (\<forall>c \<in> set s. is_digit c))"

lemma host_split: "host_name prefix w nm \<Longrightarrow> nm = prefix @ drop (length prefix) nm"
  by (auto simp: host_name_def)

lemma takeWhile_prefix:
  assumes "\<forall>c \<in> set prefix. \<not> is_digit c" "host_name prefix w nm" "0 < w"
  shows "takeWhile (\<lambda>c. \<not> is_digit c) nm = prefix"
proof -
  from assms(2) obtain s where s: "nm = prefix @ s" "length s = w" "\<forall>c \<in> set s. is_digit c" by (auto simp: host_name_def)
  with assms(3) have "takeWhile (\<lambda>c. \<not> is_digit c) s = []" by (cases s) auto
  with s(1) assms(1) show ?thesis by (simp add: takeWhile_append2)
qed

lemma digits_bound: "\<forall>c \<in> set s. is_digit c \<Longrightarrow> digits_val s < 10 ^ length s"
proof (induction s rule: rev_induct)
  case (snoc d s)
  then have d: "\<forall>c \<in> set s. is_digit c" "is_digit d" by auto
  from snoc.IH [OF d(1)] digit_char [OF d(2)] show ?case by (simp add: digits_val_snoc [OF d])
qed (simp add: digits_val_def)

lemma node_id_host:
  assumes "\<forall>c \<in> set prefix. \<not> is_digit c" "host_name prefix w nm" "0 < w" "w \<le> 9"
  shows "node_id nm = Inr (int (digits_val (drop (length prefix) nm)))"
proof -
  from assms(2) obtain s where s: "nm = prefix @ s" "length s = w" "\<forall>c \<in> set s. is_digit c" by (auto simp: host_name_def)
  from s(2) assms(3) obtain c cs where c: "s = c # cs" by (cases s) auto
  then have d: "is_digit c" "c \<noteq> CHR ''-''" "c \<noteq> CHR ''+''" "\<not> is_space c" using s(3) by (auto simp: is_digit_def is_space_def)
  have "digits_val s < 10 ^ 9" using digits_bound [OF s(3)] s(2) assms(4) power_increasing [of w 9 "10 :: nat"] by simp
  then have "atoi s = Inr (int (digits_val s))" using c d by (simp add: atoi_def)
  moreover have "\<exists>c \<in> set nm. is_digit c" using s(1) c d(1) by auto
  ultimately show ?thesis
    using takeWhile_prefix [OF assms(1-3)] s(1) by (simp add: node_id_def name_pos_def)
qed

lemma launcher_loop_len:
  "\<forall>l \<in> snd ` set bs. l = n \<Longrightarrow> snd (launcher_loop k n i bs n) = n"
  by (induction k n i bs n rule: launcher_loop.induct) auto

lemma gather_ids_hosts:
  assumes "\<forall>c \<in> set prefix. \<not> is_digit c" "\<forall>nm \<in> set procs. host_name prefix w nm" "0 < w" "w \<le> 9"
  shows "gather_ids procs = Inr (map (\<lambda>nm. int (digits_val (drop (length prefix) nm))) procs)"
  using assms(2) node_id_host [OF assms(1) _ assms(3,4)] by (induction procs) auto

text \<open>
  C32: In a job whose hosts have a name with the same letters and numbers of the same length, all launchers compute the same
  list: the letters, and in brackets the numbers of the hosts as they are written in their names, each once, in the order of the ranks.
\<close>

theorem nid_list_names:
  assumes "\<forall>c \<in> set prefix. \<not> is_digit c" "prefix \<noteq> []" "\<forall>nm \<in> set procs. host_name prefix w nm" "0 < w" "w \<le> 9"
    and "r < length procs" "\<forall>j < r. procs ! j \<noteq> procs ! r"
  shows "createNidList procs r =
    Inr (Some (prefix @ ''['' @ join CHR '','' (map (drop (length prefix)) (firsts procs)) @ '']'',
      card (set procs), position (procs ! r) (firsts procs)))"
proof -
  let ?f = "\<lambda>nm. int (digits_val (drop (length prefix) nm))"
  let ?ids = "map ?f procs"
  note g = gather_ids_hosts [OF assms(1,3,4,5)]
  have num: "setw w (CHR ''0'') (show_int (?f nm)) = drop (length prefix) nm" if h: "host_name prefix w nm" for nm
  proof -
    from h obtain s where s: "nm = prefix @ s" "length s = w" "\<forall>c \<in> set s. is_digit c" by (auto simp: host_name_def)
    with assms(4) setw_show [OF s(3)] show ?thesis by (auto simp: show_int_def)
  qed
  have inj: "inj_on ?f (set procs)"
  proof (rule inj_onI)
    fix x y assume xy: "x \<in> set procs" "y \<in> set procs" "?f x = ?f y"
    then have h: "host_name prefix w x" "host_name prefix w y" using assms(3) by auto
    have "drop (length prefix) x = setw w (CHR ''0'') (show_int (?f x))" by (rule num [OF h(1), symmetric])
    also have "\<dots> = setw w (CHR ''0'') (show_int (?f y))" by (simp only: xy(3))
    also have "\<dots> = drop (length prefix) y" by (rule num [OF h(2)])
    finally have "drop (length prefix) x = drop (length prefix) y" .
    with host_split [OF h(1)] host_split [OF h(2)] show "x = y" by simp
  qed
  have len: "length nm = length prefix + w" if "nm \<in> set procs" for nm using assms(3) that by (auto simp: host_name_def)
  have r: "procs ! r \<in> set procs" using assms(6) by simp
  have "is_launcher ?ids r"
    using assms(6,7) inj by (auto simp: is_launcher_def inj_on_def)
  moreover have "takeWhile (\<lambda>c. \<not> is_digit c) (procs ! r) = prefix" using takeWhile_prefix assms r by blast
  moreover have "nid_number procs ?ids r = (\<lambda>b. setw w (CHR ''0'') (show_int b))"
  proof -
    have "snd (launcher_loop (?ids ! r) (length (procs ! r)) 0 (zip ?ids (map length procs)) (length (procs ! r))) = length (procs ! r)"
      by (rule launcher_loop_len) (auto simp: len [OF r] dest!: set_zip_rightD len)
    then show ?thesis
      using len [OF r] takeWhile_prefix [OF assms(1) _ assms(4), of "procs ! r"] assms(3) r by (simp add: nid_number_def Let_def)
  qed
  moreover have "map (\<lambda>b. setw w (CHR ''0'') (show_int b)) (firsts ?ids) = map (drop (length prefix)) (firsts procs)"
    using num assms(3) by (simp add: firsts_map [OF inj])
  moreover have "position (?ids ! r) (firsts ?ids) = position (procs ! r) (firsts procs)"
  proof -
    have "takeWhile (\<lambda>y. y \<noteq> ?f (procs ! r)) (map ?f (firsts procs)) = map ?f (takeWhile (\<lambda>y. y \<noteq> procs ! r) (firsts procs))"
      using inj r by (subst takeWhile_map) (auto intro!: arg_cong [where f = "map ?f"] takeWhile_cong simp: inj_on_def)
    then show ?thesis using assms(6) by (simp add: position_def firsts_map [OF inj])
  qed
  moreover have "card (set ?ids) = card (set procs)" using card_image [OF inj] by simp
  ultimately show ?thesis
    using createNidList_eq [OF g assms(6)] assms(2) by (cases prefix) (simp_all add: setw_def)
qed

theorem nid_list_names_witness:
  "createNidList [''node07'', ''node07'', ''node12''] 2 = Inr (Some (''node[07,12]'', 2, 1))"
proof -
  have "\<forall>nm \<in> set [''node07'', ''node07'', ''node12'']. host_name ''node'' 2 nm"
    by (auto simp: host_name_def is_digit_def)
  then show ?thesis
    using nid_list_names [of "''node''" "[''node07'', ''node07'', ''node12'']" 2 2]
    by (simp add: is_digit_def less_Suc_eq numeral_2_eq_2 firsts_def position_def)
qed

text \<open>Numbers of different lengths: the launchers of a job compute different lists, and the first names a host that does not exist.\<close>

lemma nid_list_padded:
  "createNidList [''n10'', ''n1''] 0 = Inr (Some (''n[10,01]'', 2, 0))"
  "createNidList [''n10'', ''n1''] 1 = Inr (Some (''n[10,1]'', 2, 1))"
  by (simp_all add: createNidList_def node_id_def name_pos_def is_digit_def atoi_def is_space_def digits_val_def digit_val_def
      nid_step_def setw_def show_int_def show_nat.simps enumerate_eq_zip char_of_def bit_Suc_0_iff)

section \<open>The end of the job\<close>

lemma launch_run:
  assumes "launch sy t i (d, acts) = Inr (d', acts')"
  shows "\<exists>args envs. acts' = acts @ [Fork (rt_fork sy i) args envs, Pause] \<and>
    ((i = 0 \<and> d' = d\<lparr>d_daemon := rt_fork sy i\<rparr>) \<or> (i = 1 \<and> d' = d\<lparr>d_client := rt_fork sy i\<rparr>))"
  using assms by (auto simp: launch_def rbind_eq_Inr Let_def split: if_splits)

definition forked :: "rt_act list \<Rightarrow> int set" where
  "forked acts = {pid. \<exists>args envs. Fork pid args envs \<in> set acts}"

text \<open>
  C33: What a launcher starts it ends: at the end of the job, the processes that were forked are those that are killed and waited for, the daemon
  only when all launchers have ended their clients.
\<close>

theorem launched_are_ended:
  assumes "runtimeInit sy nidList numNodes myNid = Inr (d, acts)"
  shows "(\<forall>pid > - 1. pid \<in> forked acts \<longleftrightarrow> Kill pid \<in> set (MPI_Finalize (Some d)) \<and> WaitPid pid \<in> set (MPI_Finalize (Some d))) \<and>
    (\<exists>before after. MPI_Finalize (Some d) = before @ Barrier # after \<and> (\<forall>pid. Kill pid \<in> set after \<longrightarrow> pid = d_daemon d) \<and>
      (\<forall>pid. Kill pid \<in> set before \<longrightarrow> pid = d_client d))"
proof -
  from assms obtain t n rf pre where run: "foldM (launch sy t) [0..<n] (\<lparr>d_client = - 1, d_daemon = - 1, routeFile = rf\<rparr>, pre) = Inr (d, acts)"
    and pre: "forked pre = {}"
    by (auto simp: runtimeInit_def rbind_eq_Inr Let_def forked_def split: option.splits)
  have "forked acts = (if 0 < n then {d_daemon d} else {}) \<union> (if 1 < n then {d_client d} else {}) \<and> n \<le> 2 \<and>
      (n = 0 \<longrightarrow> d_daemon d = - 1) \<and> (n \<le> 1 \<longrightarrow> d_client d = - 1)"
    using run
  proof (induction n arbitrary: d acts)
    case 0
    then show ?case using pre by auto
  next
    case (Suc n)
    then obtain d1 acts1 where 1: "foldM (launch sy t) [0..<n] (\<lparr>d_client = - 1, d_daemon = - 1, routeFile = rf\<rparr>, pre) = Inr (d1, acts1)"
      "launch sy t n (d1, acts1) = Inr (d, acts)" by (auto simp: foldM_append rbind_eq_Inr)
    from launch_run [OF 1(2)] obtain args envs where acts: "acts = acts1 @ [Fork (rt_fork sy n) args envs, Pause]"
      and d: "(n = 0 \<and> d = d1\<lparr>d_daemon := rt_fork sy n\<rparr>) \<or> (n = 1 \<and> d = d1\<lparr>d_client := rt_fork sy n\<rparr>)" by blast
    have "forked acts = insert (rt_fork sy n) (forked acts1)" by (auto simp: acts forked_def)
    with Suc.IH [OF 1(1)] d show ?case by auto
  qed
  then have f: "\<And>pid. - 1 < pid \<Longrightarrow> pid \<in> forked acts \<longleftrightarrow> pid = d_daemon d \<or> pid = d_client d" by (auto split: if_splits)
  have e: "MPI_Finalize (Some d) = (Unlink (routeFile d) # end_child (d_client d)) @ Barrier # end_child (d_daemon d)"
    by (simp add: MPI_Finalize_def)
  show ?thesis
  proof (intro conjI exI)
    show "\<forall>pid > - 1. pid \<in> forked acts \<longleftrightarrow> Kill pid \<in> set (MPI_Finalize (Some d)) \<and> WaitPid pid \<in> set (MPI_Finalize (Some d))"
      using f by (auto simp: e end_child_def)
    show "MPI_Finalize (Some d) = (Unlink (routeFile d) # end_child (d_client d)) @ Barrier # end_child (d_daemon d)" by (rule e)
  qed (auto simp: end_child_def)
qed

text \<open>A script that starts a daemon and a client.\<close>

definition rt_example :: rt_system where
  "rt_example =
     \<lparr>rt_env = [''POWERRT_SCRIPT'' \<mapsto> ''./rt.py'', ''POWERAPI_CONFIG'' \<mapsto> ''p.xml'', ''POWERRT_DAEMON'' \<mapsto> ''pwrdaemon''], rt_pid = 7,
      rt_import = \<lambda>path m. Some [''GetApps'' \<mapsto> \<lambda>args. Some (PvList
        [PvList [PvList [PvStr ''pwrdaemon''], PvList []], PvList [PvList [PvStr ''app'']]])],
      rt_fork = \<lambda>i. 100 + int i\<rparr>"

theorem launched_are_ended_witness:
  "\<exists>d acts. runtimeInit rt_example ''n[1]'' 1 0 = Inr (d, acts) \<and> forked acts = {100, 101} \<and>
     Kill 100 \<in> set (MPI_Finalize (Some d)) \<and> Kill 101 \<in> set (MPI_Finalize (Some d))"
proof -
  have "\<exists>d acts. runtimeInit rt_example ''n[1]'' 1 0 = Inr (d, acts) \<and> forked acts = {100, 101}"
    by (simp add: runtimeInit_def rt_example_def env_needed_def py_module_name_def pos_val_def substr_def py_function_def py_call_def
        env_or_def PyList_Size_def PyList_GetItem_def py_live_def launch_def list_strings_def py_string_def Let_def upt_rec forked_def npos_def)
       auto
  then obtain d acts where r: "runtimeInit rt_example ''n[1]'' 1 0 = Inr (d, acts)" "forked acts = {100, 101}" by blast
  from launched_are_ended [OF r(1)] have "\<forall>pid > - 1. pid \<in> forked acts \<longrightarrow> Kill pid \<in> set (MPI_Finalize (Some d))" by blast
  from this [rule_format, of 100] this [rule_format, of 101] r show ?thesis by (intro exI [of _ d] exI [of _ acts]) simp
qed

end
