(* ===== verification/Pwrgen.thy ===== *)
theory Pwrgen
  imports XmlProps CLib
begin

text \<open>
  The generator of configurations (\<^verbatim>\<open>src/tools/pwrgen.cc\<close>): the tree of a machine that
  \<^verbatim>\<open>hwloc\<close> writes is translated into a system of objects, its node is duplicated, and the tree is flattened into
  the list of objects that \<^verbatim>\<open>xmlConfig.cc\<close> reads. The nodes of the new document are values; where the source moves an element
  it has inserted, or adds to it, the element is inserted as it is in the end.
\<close>

section \<open>Elements\<close>

fun el_is :: "string \<Rightarrow> XMLNode \<Rightarrow> bool" where
  "el_is nm (XMLElement n as ks) = (n = nm)"
| "el_is nm (XMLOther t) = False"

fun set_attr :: "(string \<times> string) list \<Rightarrow> string \<Rightarrow> string \<Rightarrow> (string \<times> string) list" where
  "set_attr [] a v = [(a, v)]"
| "set_attr ((b, w) # as) a v = (if b = a then (b, v) # as else (b, w) # set_attr as a v)"

fun SetAttribute :: "XMLNode \<Rightarrow> string \<Rightarrow> string \<Rightarrow> XMLNode" where
  "SetAttribute (XMLElement n as ks) a v = XMLElement n (set_attr as a v) ks"
| "SetAttribute (XMLOther t) a v = XMLOther t"

fun DeleteAttribute :: "(string \<times> string) list \<Rightarrow> string \<Rightarrow> (string \<times> string) list" where
  "DeleteAttribute [] a = []"
| "DeleteAttribute ((b, w) # as) a = (if b = a then as else (b, w) # DeleteAttribute as a)"

section \<open>The translation\<close>

text \<open>The types of hwloc that become objects, with their names; the type of the object is the name with a capital.\<close>

definition obj_kind :: "string option \<Rightarrow> (string \<times> string) option" where
  "obj_kind t =
     (if t = Some ''Machine'' then Some (''node'', ''Node'')
      else if t = Some ''Socket'' then Some (''socket'', ''Socket'')
      else if t = Some ''Core'' then Some (''core'', ''Core'')
      else None)"

text \<open>
  The objects made of the children of an element, and the next index. An element of another type gives its own children to the same
  parent.
\<close>

fun translate :: "XMLNode list \<Rightarrow> nat \<Rightarrow> XMLNode list \<times> nat" where
  "translate [] index = ([], index)"
| "translate (XMLOther t # es) index = translate es index"
| "translate (XMLElement n as ks # es) index =
     (if n \<noteq> ''object'' then translate es index
      else
        case obj_kind (map_of as ''type'') of
          Some (nm, ty) \<Rightarrow>
            let child = XMLElement ''obj'' [(''name'', nm), (''type'', ty), (''index'', show_nat index)] (fst (translate ks 0));
                (cs, index) = translate es (index + 1)
            in (child # cs, index)
        | None \<Rightarrow>
            let (cs, index) = translate ks index; (cs', index) = translate es index in (cs @ cs', index))"

section \<open>The nodes\<close>

fun DeepClone :: "XMLNode \<Rightarrow> XMLNode" where
  "DeepClone (XMLElement n as ks) = XMLElement n as (map DeepClone (filter (\<lambda>k. case k of XMLElement _ _ _ \<Rightarrow> True | _ \<Rightarrow> False) ks))"
| "DeepClone (XMLOther t) = XMLOther t"

text \<open>The children of the platform after it; without an object to clone there is a null pointer.\<close>

definition duplicate :: "XMLNode list \<Rightarrow> int \<Rightarrow> XMLNode list res" where
  "duplicate plat nodecount =
     foldM (\<lambda>i plat'. rbind (deref (find (el_is ''obj'') plat)) (\<lambda>node.
         Inr (plat' @ [SetAttribute (DeepClone node) ''index'' (show_int i)])))
       [1..nodecount - 1] plat"

section \<open>The list of objects\<close>

text \<open>A buffer of 256 characters.\<close>

definition snprintf256 :: "string \<Rightarrow> string" where
  "snprintf256 s = take 255 s"

text \<open>
  For the children of an element: those that stay, the names that are entered in its \<^verbatim>\<open>children\<close>, and the
  objects that are moved to the list, each followed by those below it.
\<close>

fun flatten :: "string \<Rightarrow> XMLNode list \<Rightarrow> (XMLNode list \<times> XMLNode list \<times> XMLNode list) res" where
  "flatten prefix [] = Inr ([], [], [])"
| "flatten prefix (XMLOther t # es) = rbind (flatten prefix es) (\<lambda>(stay, children, objs). Inr (XMLOther t # stay, children, objs))"
| "flatten prefix (XMLElement n as ks # es) =
     (if n \<noteq> ''obj'' then
        rbind (flatten prefix es) (\<lambda>(stay, children, objs). Inr (XMLElement n as ks # stay, children, objs))
      else
        rbind (deref (map_of as ''name'')) (\<lambda>nm.
        rbind (deref (map_of as ''index'')) (\<lambda>ix.
        rbind (atoi ix) (\<lambda>i.
        let c = XMLElement ''child'' [(''name'', snprintf256 (nm @ show_int i))] [];
            name = snprintf256 (prefix @ ''.'' @ nm @ show_int i) in
        rbind (flatten name ks) (\<lambda>(stay', children', objs').
        rbind (flatten prefix es) (\<lambda>(stay, children, objs).
        Inr (stay, c # children,
             XMLElement n (DeleteAttribute (set_attr as ''name'' name) ''index'') (stay' @ [XMLElement ''children'' [] children']) #
               objs' @ objs)))))))"

text \<open>The document that is written, for the document that was loaded and the number of nodes.\<close>

definition pwrgen :: "XMLNode list \<Rightarrow> int \<Rightarrow> XMLNode list res" where
  "pwrgen doc nodecount =
     rbind (deref (find (\<lambda>e. case e of XMLElement _ _ _ \<Rightarrow> True | XMLOther _ \<Rightarrow> False) doc)) (\<lambda>e.
     rbind (duplicate (fst (translate (FirstChild e) 0)) nodecount) (\<lambda>plat.
     rbind (flatten ''plat'' plat) (\<lambda>(stay, children, objs).
     Inr [XMLElement ''System'' []
       [XMLElement ''Plugins'' [] [], XMLElement ''Devices'' [] [],
        XMLElement ''Objects'' []
          (XMLElement ''obj'' [(''name'', ''plat''), (''type'', ''Platform'')] (stay @ [XMLElement ''children'' [] children]) # objs)]])))"

end
