(* ===== verification/PwrgenProps.thy ===== *)
theory PwrgenProps
  imports Pwrgen
begin

text \<open>
  What \<^verbatim>\<open>pwrgen\<close> makes of a machine: the objects are numbered among their siblings in the order of the document, and the
  configuration that is read from the generated document has the tree of the machine.
\<close>

section \<open>The tree of a machine\<close>

datatype topo = Topo (tp_kind: string) string "topo list"

fun topos :: "XMLNode list \<Rightarrow> topo list" where
  "topos [] = []"
| "topos (XMLOther t # es) = topos es"
| "topos (XMLElement n as ks # es) =
     (if n \<noteq> ''object'' then topos es
      else
        case obj_kind (map_of as ''type'') of
          Some (nm, ty) \<Rightarrow> Topo nm ty (topos ks) # topos es
        | None \<Rightarrow> topos ks @ topos es)"

fun obj_els :: "nat \<Rightarrow> topo list \<Rightarrow> XMLNode list" where
  "obj_els i [] = []"
| "obj_els i (Topo nm ty ts # us) =
     XMLElement ''obj'' [(''name'', nm), (''type'', ty), (''index'', show_nat i)] (obj_els 0 ts) # obj_els (Suc i) us"

lemma obj_els_append: "obj_els i (ts @ us) = obj_els i ts @ obj_els (i + length ts) us"
proof (induction ts arbitrary: i)
  case (Cons t ts)
  then show ?case by (cases t) simp
qed simp

lemma translate_topos: "translate es i = (obj_els i (topos es), i + length (topos es))"
proof (induction es i rule: translate.induct)
  case (3 n as ks es index)
  show ?case
  proof (cases "n = ''object''")
    case True
    then show ?thesis
      using 3 by (cases "obj_kind (map_of as ''type'')") (auto simp: obj_els_append Let_def)
  qed (use 3 in simp)
qed simp_all

lemma filter_obj_els: "filter (\<lambda>k. case k of XMLElement _ _ _ \<Rightarrow> True | _ \<Rightarrow> False) (obj_els i ts) = obj_els i ts"
  by (induction i ts rule: obj_els.induct) simp_all

lemma DeepClone_obj: "map DeepClone (obj_els i ts) = obj_els i ts"
  by (induction i ts rule: obj_els.induct) (simp_all add: filter_obj_els)

fun kinds_ok :: "topo list \<Rightarrow> bool" where
  "kinds_ok [] = True"
| "kinds_ok (Topo nm ty ts # us) = (nm \<noteq> [] \<and> (\<forall>c \<in> set nm. c \<noteq> CHR ''.'' \<and> \<not> is_digit c) \<and> kinds_ok ts \<and> kinds_ok us)"

lemma kinds_ok_append [simp]: "kinds_ok (ts @ us) \<longleftrightarrow> kinds_ok ts \<and> kinds_ok us"
proof (induction ts)
  case (Cons t ts)
  then show ?case by (cases t) auto
qed simp

lemma kinds_ok_topos: "kinds_ok (topos es)"
proof (induction es rule: topos.induct)
  case (3 n as ks es)
  then show ?case by (auto simp: obj_kind_def is_digit_def split: option.splits)
qed simp_all

section \<open>The objects\<close>

text \<open>An object by its name, its type and the names of its parts.\<close>

definition comps :: "nat \<Rightarrow> topo list \<Rightarrow> string list" where
  "comps i ts = map (\<lambda>(j, t). tp_kind t @ show_nat j) (enumerate i ts)"

fun objs_of :: "string \<Rightarrow> nat \<Rightarrow> topo list \<Rightarrow> (string \<times> string \<times> string list) list" where
  "objs_of p i [] = []"
| "objs_of p i (Topo nm ty ts # us) =
     (child_name p (nm @ show_nat i), ty, comps 0 ts) # objs_of (child_name p (nm @ show_nat i)) 0 ts @ objs_of p (Suc i) us"

definition gen_el :: "string \<times> string \<times> string list \<Rightarrow> XMLNode" where
  "gen_el = (\<lambda>(nm, ty, cs). XMLElement ''obj'' [(''name'', nm), (''type'', ty)] [XMLElement ''children'' [] (map child_xml cs)])"

lemma comps_simps [simp]: "comps i [] = []" "comps i (Topo nm ty ts # us) = (nm @ show_nat i) # comps (Suc i) us"
  by (simp_all add: comps_def)

lemma flatten_objs:
  assumes "\<forall>(nm, ty, cs) \<in> set (objs_of p i ts). length nm < 256" "i + length (objs_of p i ts) \<le> 2 ^ 31"
  shows "flatten p (obj_els i ts) = Inr ([], map child_xml (comps i ts), map gen_el (objs_of p i ts))"
  using assms
proof (induction p i ts rule: objs_of.induct)
  case (2 p i nm ty ts us)
  let ?c = "nm @ show_nat i"
  have ts: "flatten (child_name p ?c) (obj_els 0 ts) =
      Inr ([], map child_xml (comps 0 ts), map gen_el (objs_of (child_name p ?c) 0 ts))"
    by (rule "2.IH") (use "2.prems" in auto)
  have us: "flatten p (obj_els (Suc i) us) = Inr ([], map child_xml (comps (Suc i) us), map gen_el (objs_of p (Suc i) us))"
    by (rule "2.IH") (use "2.prems" in auto)
  have a: "atoi (show_nat i) = Inr (int i)" using "2.prems"(2) by (intro atoi_show_nat) simp
  have l: "length (child_name p ?c) < 256" using "2.prems"(1) by simp
  then have s: "snprintf256 ?c = ?c" "snprintf256 (p @ ''.'' @ ?c) = child_name p ?c"
    by (simp_all add: snprintf256_def child_name_def)
  show ?case using s by (simp add: a ts us gen_el_def child_xml_def [symmetric] show_int_def Let_def)
qed simp

text \<open>The names of the objects below a name begin with it and a name of one of its parts.\<close>

definition part_of :: "string \<Rightarrow> string \<Rightarrow> string" where
  "part_of p nm = takeWhile (\<lambda>c. c \<noteq> CHR ''.'') (drop (Suc (length p)) nm)"

lemma part_of_child: "CHR ''.'' \<notin> set c \<Longrightarrow> part_of p (child_name p c) = c"
  "CHR ''.'' \<notin> set c \<Longrightarrow> part_of p (child_name (child_name p c) d) = c"
  by (auto simp: part_of_def child_name_def takeWhile_append2 takeWhile_append)

lemma comp_dotless: "kinds_ok (Topo nm ty ts # us) \<Longrightarrow> CHR ''.'' \<notin> set (nm @ show_nat i)"
  using show_nat_no_sep by auto

lemma objs_below: "(nm, ty, cs) \<in> set (objs_of p i ts) \<Longrightarrow> kinds_ok ts \<Longrightarrow>
    (\<exists>rest. nm = p @ ''.'' @ part_of p nm @ rest \<and> (rest = [] \<or> hd rest = CHR ''.'')) \<and> part_of p nm \<in> set (comps i ts)"
proof (induction p i ts arbitrary: nm ty cs rule: objs_of.induct)
  case (2 p i k t ts us)
  let ?c = "k @ show_nat i"
  note d = comp_dotless [OF "2.prems"(2), of i]
  from "2.prems"(1) consider "nm = child_name p ?c" | "(nm, ty, cs) \<in> set (objs_of (child_name p ?c) 0 ts)"
    | "(nm, ty, cs) \<in> set (objs_of p (Suc i) us)" by auto
  then show ?case
  proof cases
    case 1
    with part_of_child(1) [OF d, of p] show ?thesis by (auto simp: child_name_def)
  next
    case 2
    with "2.IH"(1) "2.prems"(2) obtain rest where "nm = child_name p ?c @ ''.'' @ rest" by force
    then have "nm = child_name (child_name p ?c) rest" by (simp add: child_name_def)
    with part_of_child(2) [OF d, of p rest] show ?thesis by (auto simp: child_name_def)
  next
    case 3
    with "2.IH"(2) "2.prems"(2) show ?thesis by auto
  qed
qed simp

lemma comp_index:
  assumes "kinds_ok [Topo a ta ts]" "kinds_ok [Topo b tb us]" "a @ show_nat i = b @ show_nat j"
  shows "i = j"
proof -
  have "dropWhile (\<lambda>c. \<not> is_digit c) (k @ show_nat n) = show_nat n" if "kinds_ok [Topo k x ks]" for k x ks n
    using that show_nat_digits [of _ n] show_nat_ne [of n] by (subst dropWhile_append2) (auto simp: dropWhile_eq_self_iff hd_in_set)
  with assms have "show_nat i = show_nat j" by metis
  then show ?thesis using show_nat_fold by metis
qed

lemma comp_before:
  assumes "kinds_ok (Topo k t ts # us)" "i < j"
  shows "k @ show_nat i \<notin> set (comps j us)"
proof
  assume "k @ show_nat i \<in> set (comps j us)"
  then obtain n where n: "n < length us" "k @ show_nat i = tp_kind (us ! n) @ show_nat (j + n)"
    by (auto simp: comps_def in_set_conv_nth nth_enumerate_eq)
  obtain b tb ks where b: "us ! n = Topo b tb ks" by (cases "us ! n")
  have "kinds_ok [us ! n]" using n(1) assms(1) id_take_nth_drop [of n us]
    by (metis append_Cons append_Nil kinds_ok.simps(2) kinds_ok_append)
  with comp_index [of k t ts b tb ks i "j + n"] assms n(2) b show False by auto
qed

lemma objs_distinct: "kinds_ok ts \<Longrightarrow> distinct (map fst (objs_of p i ts))"
proof (induction p i ts rule: objs_of.induct)
  case (2 p i k t ts us)
  let ?c = "k @ show_nat i"
  note d = comp_dotless [OF "2.prems", of i]
  have below: "nm \<noteq> child_name p ?c \<and> part_of p nm = ?c" if "nm \<in> fst ` set (objs_of (child_name p ?c) 0 ts)" for nm
  proof -
    from that objs_below [of nm _ _ "child_name p ?c" 0 ts] "2.prems" obtain rest where "nm = child_name (child_name p ?c) rest"
      by (force simp: child_name_def)
    with part_of_child(2) [OF d, of p rest] show ?thesis by (simp add: child_name_def)
  qed
  have after: "part_of p nm \<noteq> ?c" if "nm \<in> fst ` set (objs_of p (Suc i) us)" for nm
    using that objs_below [of nm _ _ p "Suc i" us] comp_before [OF "2.prems", of i "Suc i"] "2.prems" by force
  show ?case
    using "2.IH" "2.prems" below after part_of_child(1) [OF d, of p] by auto
qed simp

section \<open>The generated configuration\<close>

definition gen_sys :: "(string \<times> string \<times> string list) list \<Rightarrow> XMLNode" where
  "gen_sys obs = XMLElement ''System'' []
     [XMLElement ''Plugins'' [] [], XMLElement ''Devices'' [] [], XMLElement ''Objects'' [] (map gen_el obs)]"

definition gen_objs :: "topo list \<Rightarrow> (string \<times> string \<times> string list) list" where
  "gen_objs ts = (''plat'', ''Platform'', comps 0 ts) # objs_of ''plat'' 0 ts"

lemma duplicate_one:
  "duplicate (obj_els 0 [t]) n = Inr (obj_els 0 (replicate (max 1 (nat n)) t))"
proof -
  obtain nm ty ts where t: "t = Topo nm ty ts" by (cases t)
  have run: "foldM (\<lambda>i plat'. rbind (deref (find (el_is ''obj'') (obj_els 0 [t]))) (\<lambda>node.
      Inr (plat' @ [SetAttribute (DeepClone node) ''index'' (show_int i)]))) [1..int k] (obj_els 0 [t]) =
    Inr (obj_els 0 (replicate (Suc k) t))" for k
  proof (induction k)
    case (Suc k)
    have "[1..int (Suc k)] = [1..int k] @ [int (Suc k)]" by (simp add: upto_rec2)
    moreover have "replicate (Suc (Suc k)) t = replicate (Suc k) t @ [t]" by (simp only: replicate_append_same replicate_Suc [of "Suc k"])
    then have "obj_els 0 (replicate (Suc (Suc k)) t) = obj_els 0 (replicate (Suc k) t) @ obj_els (Suc k) [t]"
      by (simp only: obj_els_append length_replicate add_0)
    ultimately show ?case
      using Suc by (simp only: foldM_append rbind_Inr) (simp add: t filter_obj_els DeepClone_obj show_int_def nat_add_distrib)
  qed (simp add: t)
  show ?thesis
  proof (cases "n \<le> 1")
    case True
    then have "[1..n - 1] = []" "max 1 (nat n) = Suc 0" by auto
    then show ?thesis by (simp add: duplicate_def t)
  next
    case False
    define k where "k = nat (n - 1)"
    with False have k: "n - 1 = int k" "max 1 (nat n) = Suc k" by auto
    show ?thesis using run [of k] unfolding duplicate_def k .
  qed
qed

lemma pwrgen_run:
  assumes "find (\<lambda>e. case e of XMLElement _ _ _ \<Rightarrow> True | XMLOther _ \<Rightarrow> False) doc = Some e" "topos (FirstChild e) = [t]"
    and "ts = replicate (max 1 (nat n)) t" "\<forall>(nm, ty, cs) \<in> set (objs_of ''plat'' 0 ts). length nm < 256"
    and "length (objs_of ''plat'' 0 ts) \<le> 2 ^ 31"
  shows "pwrgen doc n = Inr [gen_sys (gen_objs ts)]"
  using flatten_objs [OF assms(4)] assms(5)
  by (simp add: pwrgen_def assms(1-3) translate_topos duplicate_one gen_sys_def gen_objs_def gen_el_def)

lemma gen_object_loop: "object_loop (map gen_el obs) nm = Inr (map_option gen_el (find (\<lambda>x. fst x = nm) obs))"
  by (induction obs) (auto simp: gen_el_def attr_str_def)

lemma gen_findObject: "xml_findObject (gen_sys obs) nm = Inr (map_option gen_el (find (\<lambda>x. fst x = nm) obs))"
  by (simp add: xml_findObject_def gen_sys_def findNodes1stChild_def gen_object_loop)

lemma find_key: "distinct (map fst obs) \<Longrightarrow> (k, v) \<in> set obs \<Longrightarrow> find (\<lambda>x. fst x = k) obs = Some (k, v)"
  by (induction obs) force+

lemma gen_children_names: "children_names (gen_el (nm, ty, cs)) (map child_xml ds) = Inr (map (child_name nm) ds)"
  by (induction ds) (auto simp: gen_el_def attr_str_def child_xml_def)

lemma comps_named: "c \<in> set (comps i ts) \<Longrightarrow> child_name p c \<in> fst ` set (objs_of p i ts)"
  by (induction p i ts rule: objs_of.induct) auto

lemma parts_named: "(nm, ty, cs) \<in> set (objs_of p i ts) \<Longrightarrow> c \<in> set cs \<Longrightarrow> child_name nm c \<in> fst ` set (objs_of p i ts)"
proof (induction p i ts arbitrary: nm ty cs rule: objs_of.induct)
  case (2 p i k t ts us)
  then show ?case using comps_named [of c 0 ts] by (auto simp: image_Un)
qed simp

lemma comps_dotless: "c \<in> set (comps i ts) \<Longrightarrow> kinds_ok ts \<Longrightarrow> CHR ''.'' \<notin> set c"
proof (induction ts arbitrary: i rule: kinds_ok.induct)
  case (2 nm ty ts us)
  show ?case
  proof (cases "c = nm @ show_nat i")
    case True
    with comp_dotless [OF "2.prems"(2)] show ?thesis by simp
  next
    case False
    with "2.prems" have "c \<in> set (comps (Suc i) us)" "kinds_ok us" by simp_all
    then show ?thesis by (rule "2.IH"(2))
  qed
qed simp

lemma parts_dotless: "(nm, ty, cs) \<in> set (objs_of p i ts) \<Longrightarrow> kinds_ok ts \<Longrightarrow> c \<in> set cs \<Longrightarrow> CHR ''.'' \<notin> set c"
proof (induction p i ts arbitrary: nm ty cs rule: objs_of.induct)
  case (2 p i k t ts us)
  from "2.prems"(1) consider "cs = comps 0 ts" | "(nm, ty, cs) \<in> set (objs_of (child_name p (k @ show_nat i)) 0 ts)"
    | "(nm, ty, cs) \<in> set (objs_of p (Suc i) us)" by auto
  then show ?case
  proof cases
    case 1
    with "2.prems" comps_dotless [of c 0 ts] show ?thesis by simp
  qed (use 2 in simp_all)
qed simp

lemma gen_location:
  assumes "findObjLocation sys p = Inr []" "kinds_ok ts" "p \<noteq> []" "\<exists>x. xml_object sys p = Inr x"
    and "\<forall>(nm, ty, cs) \<in> set (objs_of p i ts). \<exists>es. xml_object sys nm = Inr (XMLElement ''obj'' [(''name'', nm), (''type'', ty)] es)"
  shows "\<forall>(nm, ty, cs) \<in> set (objs_of p i ts). findObjLocation sys nm = Inr []"
  using assms
proof (induction p i ts rule: objs_of.induct)
  case (2 p i k t ts us)
  let ?nm = "child_name p (k @ show_nat i)"
  note d = comp_dotless [OF "2.prems"(2), of i]
  obtain es where es: "xml_object sys ?nm = Inr (XMLElement ''obj'' [(''name'', ?nm), (''type'', t)] es)" using "2.prems"(5) by auto
  have n: "findObjLocation sys ?nm = Inr []"
    using "2.prems"(1,3,4) es xml_findParent_child [OF d, of p]
    by (auto simp: findObjLocation_def location_loop.simps [of _ "?nm"] Let_def)
  moreover have "?nm \<noteq> []" by (simp add: child_name_def)
  ultimately show ?case using "2.IH" "2.prems" es by auto
qed simp

lemma gen_objs_facts:
  assumes "kinds_ok ts"
  shows "distinct (map fst (gen_objs ts))"
    and "(nm, ty, cs) \<in> set (gen_objs ts) \<Longrightarrow> c \<in> set cs \<Longrightarrow> child_name nm c \<in> fst ` set (gen_objs ts) \<and> CHR ''.'' \<notin> set c"
proof -
  have "''plat'' \<noteq> nm" if "nm \<in> fst ` set (objs_of ''plat'' 0 ts)" for nm
    using that objs_below [of nm _ _ "''plat''" 0 ts] assms by force
  with objs_distinct [OF assms, of "''plat''" 0] show "distinct (map fst (gen_objs ts))" by (auto simp: gen_objs_def)
next
  assume a: "(nm, ty, cs) \<in> set (gen_objs ts)" "c \<in> set cs"
  show "child_name nm c \<in> fst ` set (gen_objs ts) \<and> CHR ''.'' \<notin> set c"
  proof (cases "(nm, ty, cs) \<in> set (objs_of ''plat'' 0 ts)")
    case True
    with parts_named [OF True a(2)] parts_dotless [OF True assms a(2)] show ?thesis by (auto simp: gen_objs_def)
  next
    case False
    with a comps_named [of c 0 ts "''plat''"] comps_dotless [of c 0 ts] assms show ?thesis by (auto simp: gen_objs_def)
  qed
qed

lemma gen_no_server:
  assumes "kinds_ok ts" "nm \<in> fst ` set (gen_objs ts)"
  shows "xml_hasServer (gen_sys (gen_objs ts)) nm = Inr False"
proof -
  let ?sys = "gen_sys (gen_objs ts)"
  have ob: "xml_object ?sys n = Inr (gen_el (n, x))" if "(n, x) \<in> set (gen_objs ts)" for n x
    using find_key [OF gen_objs_facts(1) [OF assms(1)] that] by (simp add: xml_object_def gen_findObject)
  have p: "xml_object ?sys ''plat'' = Inr (gen_el (''plat'', ''Platform'', comps 0 ts))" by (rule ob) (simp add: gen_objs_def)
  have "xml_findParent ''plat'' = []" by (rule xml_findParent_top) simp
  with p have l: "findObjLocation ?sys ''plat'' = Inr []"
    by (simp add: findObjLocation_def location_loop.simps [of _ "''plat''"] gen_el_def)
  have "\<forall>(n, ty, cs) \<in> set (objs_of ''plat'' 0 ts). findObjLocation ?sys n = Inr []"
    by (rule gen_location [OF l assms(1)]) (use p ob in \<open>auto simp: gen_objs_def gen_el_def\<close>)
  with l assms(2) have "findObjLocation ?sys nm = Inr []" by (auto simp: gen_objs_def)
  then show ?thesis by (simp add: xml_hasServer_def)
qed

text \<open>
  C26: The configuration read from the document that \<^verbatim>\<open>pwrgen\<close> writes has the tree of the machine: the platform, as many nodes as
  were asked for, and below each node its sockets and cores, numbered among their siblings in the order of the document. Every object is
  found by its name with its type and parts, every part is an object whose parent it is, and none has a server.
\<close>

theorem generated_config_read:
  assumes "find (\<lambda>e. case e of XMLElement _ _ _ \<Rightarrow> True | XMLOther _ \<Rightarrow> False) doc = Some e" "topos (FirstChild e) = [t]"
    and "ts = replicate (max 1 (nat n)) t" "\<forall>(nm, ty, cs) \<in> set (objs_of ''plat'' 0 ts). length nm < 256"
    and "length (objs_of ''plat'' 0 ts) \<le> 2 ^ 31"
  shows "\<exists>sys. pwrgen doc n = Inr [sys] \<and> new_XmlConfig [sys] = Inr sys \<and> comps 0 ts = map (\<lambda>i. tp_kind t @ show_nat i) [0..<max 1 (nat n)] \<and>
    (\<forall>(nm, ty, cs) \<in> set (gen_objs ts).
       xml_objType sys nm = Inr (objTypeStrToInt ty) \<and> xml_findChildren sys nm = Inr (map (child_name nm) cs) \<and>
       xml_hasServer sys nm = Inr False \<and>
       (\<forall>c \<in> set cs. xml_hasObject sys (child_name nm c) = Inr True \<and> xml_findParent (child_name nm c) = nm))"
proof -
  let ?sys = "gen_sys (gen_objs ts)"
  have k: "kinds_ok ts"
  proof -
    have "kinds_ok [t]" using kinds_ok_topos [of "FirstChild e"] assms(2) by simp
    then have "kinds_ok (replicate m t)" for m
    proof (induction m)
      case (Suc m)
      then show ?case using kinds_ok_append [of "[t]" "replicate m t"] by simp
    qed simp
    then show ?thesis by (simp add: assms(3))
  qed
  note fk = find_key [OF gen_objs_facts(1) [OF k]]
  have q: "xml_objType ?sys nm = Inr (objTypeStrToInt ty) \<and> xml_findChildren ?sys nm = Inr (map (child_name nm) cs) \<and>
      xml_hasServer ?sys nm = Inr False \<and>
      (\<forall>c \<in> set cs. xml_hasObject ?sys (child_name nm c) = Inr True \<and> xml_findParent (child_name nm c) = nm)"
    if a: "(nm, ty, cs) \<in> set (gen_objs ts)" for nm ty cs
  proof (intro conjI ballI)
    have el: "FirstChild (gen_el (nm, ty, cs)) = [XMLElement ''children'' [] (map child_xml cs)]" by (simp add: gen_el_def)
    have f: "xml_findObject ?sys nm = Inr (Some (gen_el (nm, ty, cs)))" using fk [OF a] by (simp add: gen_findObject)
    show "xml_objType ?sys nm = Inr (objTypeStrToInt ty)" by (simp add: xml_objType_def f) (simp add: gen_el_def attr_str_def)
    show "xml_findChildren ?sys nm = Inr (map (child_name nm) cs)"
      by (simp add: xml_findChildren_def xml_object_def f el findNodes1stChild_def gen_children_names)
    show "xml_hasServer ?sys nm = Inr False" by (rule gen_no_server [OF k]) (use a in force)
  next
    fix c assume c: "c \<in> set cs"
    from gen_objs_facts(2) [OF k a c] obtain x where x: "(child_name nm c, x) \<in> set (gen_objs ts)" by auto
    show "xml_hasObject ?sys (child_name nm c) = Inr True" using fk [OF x] by (simp add: xml_hasObject_def gen_findObject)
    show "xml_findParent (child_name nm c) = nm" by (rule xml_findParent_child) (use gen_objs_facts(2) [OF k a c] in simp)
  qed
  have "comps 0 (replicate m t) = map (\<lambda>i. tp_kind t @ show_nat i) [0..<m]" for m
    by (rule nth_equalityI) (simp_all add: comps_def nth_enumerate_eq)
  then have "comps 0 ts = map (\<lambda>i. tp_kind t @ show_nat i) [0..<max 1 (nat n)]" unfolding assms(3) .
  moreover have "new_XmlConfig [?sys] = Inr ?sys" by (simp add: new_XmlConfig_def gen_sys_def)
  ultimately show ?thesis using pwrgen_run [OF assms] q by (intro exI [of _ ?sys]) blast
qed

text \<open>A machine with one socket of two cores, as hwloc writes it, generated for two nodes.\<close>

definition demo_machine :: "XMLNode list" where
  "demo_machine =
     [XMLOther ''version 1.0'',
      XMLElement ''topology'' []
        [XMLElement ''object'' [(''type'', ''Machine'')]
          [XMLElement ''info'' [] [],
           XMLElement ''object'' [(''type'', ''Socket'')]
             [XMLElement ''object'' [(''type'', ''Cache'')] [XMLElement ''object'' [(''type'', ''Core'')] []],
              XMLElement ''object'' [(''type'', ''Core'')] []]]]]"

theorem generated_config_read_witness:
  "\<exists>sys. pwrgen demo_machine 2 = Inr [sys] \<and> xml_findChildren sys ''plat'' = Inr [''plat.node0'', ''plat.node1''] \<and>
     xml_findChildren sys ''plat.node1.socket0'' = Inr [''plat.node1.socket0.core0'', ''plat.node1.socket0.core1''] \<and>
     xml_objType sys ''plat.node1.socket0'' = Inr PWR_OBJ_SOCKET"
proof -
  let ?t = "Topo ''node'' ''Node'' [Topo ''socket'' ''Socket'' [Topo ''core'' ''Core'' [], Topo ''core'' ''Core'' []]]"
  let ?e = "demo_machine ! 1"
  have d: "show_nat 0 = ''0''" "show_nat (Suc 0) = ''1''"
    by (simp_all add: show_nat.simps char_of_def bit_Suc_0_iff)
  have f: "find (\<lambda>e. case e of XMLElement _ _ _ \<Rightarrow> True | XMLOther _ \<Rightarrow> False) demo_machine = Some ?e"
    "topos (FirstChild ?e) = [?t]"
    by (simp_all add: demo_machine_def obj_kind_def)
  have ts: "[?t, ?t] = replicate (max 1 (nat 2)) ?t" by (simp add: numeral_2_eq_2)
  have o: "objs_of ''plat'' 0 [?t, ?t] =
      [(''plat.node0'', ''Node'', [''socket0'']), (''plat.node0.socket0'', ''Socket'', [''core0'', ''core1'']),
       (''plat.node0.socket0.core0'', ''Core'', []), (''plat.node0.socket0.core1'', ''Core'', []),
       (''plat.node1'', ''Node'', [''socket0'']), (''plat.node1.socket0'', ''Socket'', [''core0'', ''core1'']),
       (''plat.node1.socket0.core0'', ''Core'', []), (''plat.node1.socket0.core1'', ''Core'', [])]"
    by (simp add: child_name_def d)
  have g: "set (gen_objs [?t, ?t]) = insert (''plat'', ''Platform'', [''node0'', ''node1'']) (set (objs_of ''plat'' 0 [?t, ?t]))"
    by (simp add: gen_objs_def d)
  have h: "\<forall>(nm, ty, cs) \<in> set (objs_of ''plat'' 0 [?t, ?t]). length nm < 256" "length (objs_of ''plat'' 0 [?t, ?t]) \<le> 2 ^ 31"
    unfolding o by simp_all
  from generated_config_read [OF f ts h] obtain sys where s: "pwrgen demo_machine 2 = Inr [sys]" and
    q: "\<And>nm ty cs. (nm, ty, cs) \<in> set (gen_objs [?t, ?t]) \<Longrightarrow> xml_objType sys nm = Inr (objTypeStrToInt ty) \<and>
       xml_findChildren sys nm = Inr (map (child_name nm) cs)"
    by (elim exE conjE) blast
  have "xml_findChildren sys ''plat'' = Inr (map (child_name ''plat'') [''node0'', ''node1''])"
    "xml_findChildren sys ''plat.node1.socket0'' = Inr (map (child_name ''plat.node1.socket0'') [''core0'', ''core1''])"
    "xml_objType sys ''plat.node1.socket0'' = Inr (objTypeStrToInt ''Socket'')"
    using q [of "''plat''" "''Platform''" "[''node0'', ''node1'']"] q [of "''plat.node1.socket0''" "''Socket''" "[''core0'', ''core1'']"]
    unfolding g o by simp_all
  with s show ?thesis by (intro exI [of _ sys]) (simp add: child_name_def objTypeStrToInt_def)
qed

end
