(* ===== verification/Tools.thy ===== *)
theory Tools
  imports Start
begin

text \<open>
  The command line tools that read through the interface: \<^verbatim>\<open>pwrapi.c\<close>, which prints samples of the attributes of all objects of
  a type, and \<^verbatim>\<open>pwrdmp.c\<close>, which prints the names of the objects. What they print is a list of the lines; the number that
  \<^verbatim>\<open>main\<close> returns early is \<open>ExitCall\<close>, as that of \<^verbatim>\<open>exit\<close>. The sleep between the lines has no effect on them.
\<close>

section \<open>getopt\<close>

text \<open>
  What the calls of \<^verbatim>\<open>getopt\<close> return one after the other: a character with its argument, or the error character. The first string is
  what is left of an argument that holds several options; for each character it is known whether it takes an argument.
\<close>

datatype sopt = SOpt char string | SBad

function getopt_short :: "(char \<Rightarrow> bool option) \<Rightarrow> string \<Rightarrow> string list \<Rightarrow> sopt list" where
  "getopt_short spec (c # cs) as =
     (case spec c of
        None \<Rightarrow> SBad # getopt_short spec cs as
      | Some False \<Rightarrow> SOpt c [] # getopt_short spec cs as
      | Some True \<Rightarrow>
          if cs \<noteq> [] then SOpt c cs # getopt_short spec [] as
          else (case as of [] \<Rightarrow> [SBad] | v # vs \<Rightarrow> SOpt c v # getopt_short spec [] vs))"
| "getopt_short spec [] [] = []"
| "getopt_short spec [] (a # as) =
     (if a = ''--'' then []
      else if take 1 a = ''-'' \<and> a \<noteq> ''-'' then getopt_short spec (drop 1 a) as
      else getopt_short spec [] as)"
  by pat_completeness auto

termination getopt_short
  by (relation "measure (\<lambda>(spec, cs, as). length cs + sum_list (map (\<lambda>a. Suc (length a)) as))") auto

definition arg_char :: "string \<Rightarrow> char" where
  "arg_char s = (case s of [] \<Rightarrow> CHR 0x00 | c # _ \<Rightarrow> c)"

section \<open>Collecting the objects of a type\<close>

text \<open>What the tools print.\<close>

datatype line =
    Failed
  | Sample string "u64 list" u64
  | ReadError string string int
  | Dump string string "string list"

text \<open>The recursion over the children, which ends where \<open>d\<close> is above the depth of the tree.\<close>

fun get_type_objects :: "nat \<Rightarrow> nat \<Rightarrow> PWR_ObjType \<Rightarrow> addr \<Rightarrow> addr \<Rightarrow> line list \<times> ('s, 'u) client \<Rightarrow> (line list \<times> ('s, 'u) client) res" where
  "get_type_objects 0 n type outGroup obj st = Inl Diverges"
| "get_type_objects (Suc d) n type outGroup obj (out, c) =
     rbind (PWR_ObjGetType obj c) (\<lambda>(_, objType).
     rbind (if objType = type then PWR_GrpAddObj outGroup obj c else Inr (PWR_RET_SUCCESS, c)) (\<lambda>(r, c).
     if r = PWR_RET_FAILURE then Inr (out @ [Failed], c)
     else
       rbind (PWR_ObjGetChildren n obj c) (\<lambda>((rc, cgrp), c).
       if rc \<noteq> PWR_RET_SUCCESS then Inr (out @ [Failed], c)
       else
         rbind (PWR_GrpGetNumObjs cgrp c) (\<lambda>size.
         foldM (\<lambda>i (out, c).
             rbind (PWR_GrpGetObjByIndx cgrp i c) (\<lambda>(_, tmp). get_type_objects d n type outGroup tmp (out, c)))
           [0..size - 1] (out, c)))))"

fun dump_type_objects :: "nat \<Rightarrow> nat \<Rightarrow> PWR_ObjType \<Rightarrow> addr \<Rightarrow> line list \<times> ('s, 'u) client \<Rightarrow> (line list \<times> ('s, 'u) client) res" where
  "dump_type_objects 0 n type self st = Inl Diverges"
| "dump_type_objects (Suc d) n type self (out, c) =
     rbind (PWR_ObjGetChildren n self c) (\<lambda>((rc, grp), c).
     rbind (assert_c (rc = PWR_RET_SUCCESS)) (\<lambda>_.
     rbind (PWR_GrpGetNumObjs grp c) (\<lambda>size.
     foldM (\<lambda>i (out, c).
         rbind (PWR_GrpGetObjByIndx grp i c) (\<lambda>(_, obj).
         rbind (PWR_ObjGetType obj c) (\<lambda>(_, objType).
         rbind (if type = PWR_OBJ_INVALID \<or> objType = type then
                  rbind (PWR_ObjGetName (Some obj) 100 c) (\<lambda>(_, buf).
                  rbind (read_cstr buf) (\<lambda>name.
                  Inr (out @ [Dump name (objTypeToString type) (map attrNameToString real_attrs)])))
                else Inr out) (\<lambda>out.
         dump_type_objects d n type obj (out, c)))))
       [0..size - 1] (out, c))))"

section \<open>Samples\<close>

text \<open>The lines of a sample: the same cells of the arrays for every object.\<close>

fun attr_cells :: "u64 \<Rightarrow> PWR_AttrName list \<Rightarrow> nat \<Rightarrow> u64 list \<Rightarrow> u64 list res" where
  "attr_cells start [] k vals = Inr []"
| "attr_cells start (a # as) k vals =
     rbind (aread vals k) (\<lambda>v.
     rbind (attr_cells start as (Suc k) vals) (\<lambda>vs.
     Inr ((if a = PWR_ATTR_ENERGY then [fsub v start] else []) @ v # vs)))"

definition sample_line ::
    "nat \<Rightarrow> PWR_AttrName list \<Rightarrow> u64 list \<Rightarrow> u64 list \<Rightarrow> addr \<Rightarrow> ('s, 'u) client \<Rightarrow> int \<Rightarrow> (u64 \<times> u64) \<times> line list \<Rightarrow>
     ((u64 \<times> u64) \<times> line list) res" where
  "sample_line i attrs vals vals_ts grp c j = (\<lambda>((start, start_ts), out).
     rbind (PWR_GrpGetObjByIndx grp j c) (\<lambda>(_, obj).
     rbind (PWR_ObjGetName (Some obj) 100 c) (\<lambda>(_, buf).
     rbind (read_cstr buf) (\<lambda>name.
     rbind (aread vals 0) (\<lambda>v.
     rbind (aread vals_ts 0) (\<lambda>t.
     let (start, start_ts) = (if i = 0 then (v, t) else (start, start_ts)) in
     rbind (attr_cells start attrs 0 vals) (\<lambda>vs.
     Inr ((start, start_ts), out @ [Sample name vs (t - start_ts)]))))))))"

text \<open>The turns that are left; a failed read ends them.\<close>

fun sample_loop ::
    "nat \<Rightarrow> ('s, 'u) app \<Rightarrow> addr \<Rightarrow> int \<Rightarrow> PWR_AttrName list \<Rightarrow> addr \<Rightarrow> addr \<Rightarrow> addr \<Rightarrow> nat \<Rightarrow> nat \<Rightarrow>
     (u64 \<times> u64) \<times> line list \<Rightarrow> ('s, 'u) client \<Rightarrow> (line list \<times> ('s, 'u) client) res" where
  "sample_loop n app grp numobjs attrs vb tb sts 0 i (start, out) c = Inr (out, c)"
| "sample_loop n app grp numobjs attrs vb tb sts (Suc left) i (start, out) c =
     rbind (PWR_GrpAttrGetValues n app grp (int (length attrs)) attrs (Some (vb, 0)) (Some (tb, 0)) sts c) (\<lambda>(r, c).
     if r = PWR_RET_SUCCESS then
       rbind (heap_get (vmem c) vb) (\<lambda>vals.
       rbind (heap_get (tmem c) tb) (\<lambda>vals_ts.
       rbind (foldM (sample_line i attrs vals vals_ts grp c) [0..numobjs - 1] (start, out)) (\<lambda>st.
       sample_loop n app grp numobjs attrs vb tb sts left (Suc i) st c)))
     else
       rbind (PWR_StatusPopError sts c) (\<lambda>((_, e), c).
       case e of
         None \<Rightarrow> Inl Unspecified
       | Some e \<Rightarrow>
           rbind (PWR_ObjGetName (err_obj e) 100 c) (\<lambda>(_, buf).
           rbind (read_cstr buf) (\<lambda>name.
           Inr (out @ [ReadError (attrNameToString (err_name e)) name (err_error e)], c)))))"

section \<open>The programs\<close>

record api_args =
  pa_samples :: u32
  pa_type :: PWR_ObjType
  pa_attrs :: "PWR_AttrName list"

definition type_letter :: "char \<Rightarrow> PWR_ObjType option" where
  "type_letter c =
     map_of [(CHR ''P'', PWR_OBJ_PLATFORM), (CHR ''A'', PWR_OBJ_CABINET), (CHR ''B'', PWR_OBJ_BOARD), (CHR ''N'', PWR_OBJ_NODE),
       (CHR ''S'', PWR_OBJ_SOCKET), (CHR ''C'', PWR_OBJ_CORE), (CHR ''M'', PWR_OBJ_MEM), (CHR ''I'', PWR_OBJ_NIC)] c"

definition attr_letter :: "char \<Rightarrow> PWR_AttrName option" where
  "attr_letter c =
     map_of [(CHR ''E'', PWR_ATTR_ENERGY), (CHR ''P'', PWR_ATTR_POWER), (CHR ''F'', PWR_ATTR_FREQ), (CHR ''T'', PWR_ATTR_TEMP),
       (CHR ''M'', PWR_ATTR_POWER_LIMIT_MAX), (CHR ''V'', PWR_ATTR_VOLTAGE), (CHR ''C'', PWR_ATTR_CURRENT)] c"

definition api_option :: "sopt \<Rightarrow> api_args \<Rightarrow> api_args res" where
  "api_option r args =
     (case r of
        SBad \<Rightarrow> Inl (ExitCall 1)
      | SOpt c v \<Rightarrow>
          if c = CHR ''s'' then rbind (atoi v) (\<lambda>k. Inr (args\<lparr>pa_samples := word_of_int k\<rparr>))
          else if c = CHR ''f'' then rbind (atoi v) (\<lambda>_. Inr args)
          else if c = CHR ''a'' then
            (case attr_letter (arg_char v) of
               None \<Rightarrow> Inl (ExitCall (-1))
             | Some a \<Rightarrow> if length (pa_attrs args) < 100 then Inr (args\<lparr>pa_attrs := pa_attrs args @ [a]\<rparr>) else Inl OutOfBounds)
          else if c = CHR ''t'' then
            (case type_letter (arg_char v) of None \<Rightarrow> Inl (ExitCall (-1)) | Some t \<Rightarrow> Inr (args\<lparr>pa_type := t\<rparr>))
          else Inl (ExitCall 1))"

definition pwrapi_args :: "string list \<Rightarrow> api_args res" where
  "pwrapi_args argv =
     rbind (foldM api_option
         (getopt_short (map_of [(CHR ''s'', True), (CHR ''f'', True), (CHR ''a'', True), (CHR ''t'', True), (CHR ''h'', False)]) [] (drop 1 argv))
         \<lparr>pa_samples = 1, pa_type = PWR_OBJ_SOCKET, pa_attrs = []\<rparr>) (\<lambda>args.
     if pa_type args = PWR_OBJ_INVALID \<or> pa_attrs args = [] then Inl (ExitCall 1) else Inr args)"

text \<open>A client that has just started: its context, the events its channel is going to deliver, and the word that is read uninitialised.\<close>

definition tool_client :: "'s cntxt \<Rightarrow> string option \<Rightarrow> AnyEvent list \<Rightarrow> u64 \<Rightarrow> 'u \<Rightarrow> ('s, 'u) client" where
  "tool_client c ch incoming word0 u =
     \<lparr>cx = c, m_evChan = (ch \<noteq> None), vmem = [], tmem = [], stats = [], reqs = [], creqs = [], ec_in = incoming, ec_out = [],
      cjunk = word0, user = u\<rparr>"

text \<open>The two calls both programs start with.\<close>

definition tool_start :: "nat \<Rightarrow> 's system \<Rightarrow> AnyEvent list \<Rightarrow> u64 \<Rightarrow> 'u \<Rightarrow> (addr \<times> ('s, 'u) client) res" where
  "tool_start n sy incoming word0 u =
     rbind (PWR_CntxtInit n sy PWR_ROLE_APP ''Application'') (\<lambda>(rc, r).
     if rc \<noteq> PWR_RET_SUCCESS then Inl (ExitCall (-1))
     else
       rbind (deref r) (\<lambda>(cntxt, ch).
       let c = tool_client cntxt ch incoming word0 u in
       case PWR_CntxtGetEntryPoint c of (rc, self) \<Rightarrow>
       if rc \<noteq> PWR_RET_SUCCESS then Inl (ExitCall (-1)) else rbind (deref self) (\<lambda>self. Inr (self, c))))"

definition pwrapi ::
    "nat \<Rightarrow> nat \<Rightarrow> ('s, 'u) app \<Rightarrow> 's system \<Rightarrow> AnyEvent list \<Rightarrow> u64 \<Rightarrow> 'u \<Rightarrow> string list \<Rightarrow> (line list \<times> ('s, 'u) client) res" where
  "pwrapi d n app sy incoming word0 u argv =
     rbind (pwrapi_args argv) (\<lambda>args.
     rbind (tool_start n sy incoming word0 u) (\<lambda>(self, c).
     case PWR_GrpCreate c of ((rc, grp), c) \<Rightarrow>
     if rc \<noteq> PWR_RET_SUCCESS then Inl (ExitCall (-1))
     else
       rbind (get_type_objects d n (pa_type args) grp self ([], c)) (\<lambda>(out, c).
       rbind (PWR_GrpGetNumObjs grp c) (\<lambda>numobjs.
       if numobjs = 0 then Inl (ExitCall (-1))
       else
         let cells = replicate (nat numobjs * length (pa_attrs args)) word0; vb = length (vmem c); tb = length (tmem c) in
         case PWR_StatusCreate (c\<lparr>vmem := vmem c @ [Some cells], tmem := tmem c @ [Some cells]\<rparr>) of ((_, sts), c) \<Rightarrow>
         sample_loop n app grp numobjs (pa_attrs args) vb tb sts (unat (pa_samples args)) 0 ((0, 0), out) c))))"

definition dmp_option :: "sopt \<Rightarrow> PWR_ObjType \<Rightarrow> PWR_ObjType res" where
  "dmp_option r type =
     (case r of
        SOpt c v \<Rightarrow>
          if c = CHR ''t'' then (case type_letter (arg_char v) of None \<Rightarrow> Inl (ExitCall (-1)) | Some t \<Rightarrow> Inr t)
          else Inl (ExitCall 1)
      | SBad \<Rightarrow> Inl (ExitCall 1))"

definition pwrdmp :: "nat \<Rightarrow> nat \<Rightarrow> 's system \<Rightarrow> AnyEvent list \<Rightarrow> u64 \<Rightarrow> 'u \<Rightarrow> string list \<Rightarrow> (line list \<times> ('s, 'u) client) res" where
  "pwrdmp d n sy incoming word0 u argv =
     rbind (foldM dmp_option (getopt_short (map_of [(CHR ''t'', True), (CHR ''h'', False)]) [] (drop 1 argv)) PWR_OBJ_INVALID) (\<lambda>type.
     rbind (tool_start n sy incoming word0 u) (\<lambda>(self, c). dump_type_objects d n type self ([], c)))"

end
