(* ===== verification/ToolsProps.thy ===== *)
theory ToolsProps
  imports Tools GroupProps
begin

text \<open>
  What the tools print: the objects they collect are those of the configuration's tree below the entry point, each once, in
  the order of a walk that visits an object before its children; and a sample is printed with the values of the first object of the group.
\<close>

section \<open>The tree as the objects keep it\<close>

definition named :: "'s cntxt \<Rightarrow> string list \<Rightarrow> addr list \<Rightarrow> bool" where
  "named c nms ms \<longleftrightarrow> list_all2 (\<lambda>nm m. m_objMap c nm = Some m) nms ms"

definition plain_grp :: "'s cntxt \<Rightarrow> addr \<Rightarrow> addr list \<Rightarrow> bool" where
  "plain_grp c g ms \<longleftrightarrow> heap_get (c_grps c) g = Inr (PlainGrp \<lparr>g_name = [], g_list = ms\<rparr>)"

definition kids_of :: "'s cntxt \<Rightarrow> string \<Rightarrow> addr \<Rightarrow> bool" where
  "kids_of c nm g \<longleftrightarrow> (\<exists>ms. plain_grp c g ms \<and> named c (findChildren (m_config c) nm) ms)"

definition tree_inv :: "'s cntxt \<Rightarrow> bool" where
  "tree_inv c \<longleftrightarrow> cntxt_ok c \<and>
     (\<forall>nm a x. m_objMap c nm = Some a \<longrightarrow> heap_get (c_objs c) a = Inr x \<longrightarrow>
        m_objType (d_obj x) = cfg_objType (m_config c) nm \<and> (\<forall>g. m_children (d_obj x) = Some g \<longrightarrow> kids_of c nm g))"

definition extends :: "'s cntxt \<Rightarrow> 's cntxt \<Rightarrow> bool" where
  "extends c c' \<longleftrightarrow> m_config c' = m_config c \<and> m_objMap c \<subseteq>\<^sub>m m_objMap c' \<and> (\<forall>g ms. plain_grp c g ms \<longrightarrow> plain_grp c' g ms)"

lemma extends_refl [simp]: "extends c c"
  by (simp add: extends_def)

lemma extends_trans: "extends c c' \<Longrightarrow> extends c' c'' \<Longrightarrow> extends c c''"
  by (auto simp: extends_def intro: map_le_trans)

lemma named_mono: "named c nms ms \<Longrightarrow> m_objMap c \<subseteq>\<^sub>m m_objMap c' \<Longrightarrow> named c' nms ms"
  by (auto simp: named_def map_le_def dom_def elim!: list_all2_mono)

lemma kids_of_mono: "kids_of c nm g \<Longrightarrow> extends c c' \<Longrightarrow> kids_of c' nm g"
  by (auto simp: kids_of_def extends_def intro: named_mono)

lemma tree_invD:
  assumes "tree_inv c" "m_objMap c nm = Some a"
  shows "\<exists>x. heap_get (c_objs c) a = Inr x \<and> m_name (d_obj x) = nm \<and> m_objType (d_obj x) = cfg_objType (m_config c) nm \<and>
    (\<forall>g. m_children (d_obj x) = Some g \<longrightarrow> kids_of c nm g)"
  using assms cntxt_okD [of c nm a] unfolding tree_inv_def by blast

lemma named_inj:
  assumes "tree_inv c" "m_objMap c x = Some a" "m_objMap c y = Some a"
  shows "x = y"
  using tree_invD [OF assms(1,2)] tree_invD [OF assms(1,3)] by auto

text \<open>A change of the groups or of one object keeps the invariant, if the children that are kept stay.\<close>

lemma tree_inv_step:
  assumes "tree_inv c" "cntxt_ok c'" "extends c c'" "m_objMap c' = m_objMap c"
    and "\<And>nm a x. m_objMap c nm = Some a \<Longrightarrow> heap_get (c_objs c') a = Inr x \<Longrightarrow>
      \<exists>y. heap_get (c_objs c) a = Inr y \<and> m_objType (d_obj x) = m_objType (d_obj y) \<and>
        (\<forall>g. m_children (d_obj x) = Some g \<longrightarrow> m_children (d_obj y) = Some g \<or> kids_of c' nm g)"
  shows "tree_inv c'"
  unfolding tree_inv_def
proof (intro conjI assms(2) allI impI)
  fix nm a x assume a: "m_objMap c' nm = Some a" and x: "heap_get (c_objs c') a = Inr x"
  from a have a': "m_objMap c nm = Some a" by (simp add: assms(4))
  from assms(5) [OF a' x] obtain y where y: "heap_get (c_objs c) a = Inr y" "m_objType (d_obj x) = m_objType (d_obj y)"
    "\<forall>g. m_children (d_obj x) = Some g \<longrightarrow> m_children (d_obj y) = Some g \<or> kids_of c' nm g" by blast
  from tree_invD [OF assms(1) a'] y(1) have t: "m_objType (d_obj y) = cfg_objType (m_config c) nm"
    "\<And>g. m_children (d_obj y) = Some g \<Longrightarrow> kids_of c nm g" by auto
  show "m_objType (d_obj x) = cfg_objType (m_config c') nm" using t(1) y(2) assms(3) by (simp add: extends_def)
  show "kids_of c' nm g" if "m_children (d_obj x) = Some g" for g
    using that y(3) t(2) kids_of_mono [OF _ assms(3)] by blast
qed

lemma createObject_fields:
  assumes "createObject n nm ty c = Inr (a, c')" "comms_ok c"
  shows "\<exists>x. a = length (c_objs c) \<and> c_objs c' = c_objs c @ [Some x] \<and> m_objMap c' = m_objMap c \<and> m_config c' = m_config c \<and>
    c_grps c' = c_grps c \<and> m_objType (d_obj x) = ty \<and> m_children (d_obj x) = None"
  using assms by (auto simp: createObject_def rbind_eq_Inr grows_def dest: init_attrs_ok)

lemma findObject_tree:
  assumes "findObject n nm c = Inr (r, c')" "tree_inv c"
  shows "tree_inv c' \<and> extends c c' \<and> c_grps c' = c_grps c \<and>
    (\<forall>x a. m_objMap c x = Some a \<longrightarrow> heap_get (c_objs c') a = heap_get (c_objs c) a) \<and>
    (\<forall>x a y. m_objMap c x = None \<longrightarrow> m_objMap c' x = Some a \<longrightarrow> heap_get (c_objs c') a = Inr y \<longrightarrow> m_children (d_obj y) = None)"
proof (cases "c' = c")
  case False
  have ok: "cntxt_ok c" using assms(2) by (simp add: tree_inv_def)
  from False assms(1) obtain a c1 where m: "m_objMap c nm = None" and cr: "createObject n nm (cfg_objType (m_config c) nm) c = Inr (a, c1)"
    and c': "c' = c1\<lparr>m_objMap := (m_objMap c1)(nm \<mapsto> a)\<rparr>"
    by (auto simp: findObject_def cfg_objType_def rbind_eq_Inr split: option.splits if_splits)
  from createObject_fields [OF cr] ok obtain x where x: "a = length (c_objs c)" "c_objs c1 = c_objs c @ [Some x]" "m_objMap c1 = m_objMap c"
    "m_config c1 = m_config c" "c_grps c1 = c_grps c" "m_objType (d_obj x) = cfg_objType (m_config c) nm" "m_children (d_obj x) = None"
    by (auto simp: cntxt_ok_def)
  have ok': "cntxt_ok c'" and ext: "extends c c'"
    using context_facts [OF ok assms(1)] x by (auto simp: extends_def c' plain_grp_def)
  have old: "heap_get (c_objs c') b = heap_get (c_objs c) b" if "m_objMap c z = Some b" for z b
    using tree_invD [OF assms(2) that] x(2) by (auto simp: c' heap_simps)
  have new: "heap_get (c_objs c') a = Inr x" using x by (simp add: c' heap_get_new)
  have "tree_inv c'"
    unfolding tree_inv_def
  proof (intro conjI ok' allI impI)
    fix z b y assume b: "m_objMap c' z = Some b" and y: "heap_get (c_objs c') b = Inr y"
    have "m_objType (d_obj y) = cfg_objType (m_config c') z \<and> (\<forall>g. m_children (d_obj y) = Some g \<longrightarrow> kids_of c' z g)"
    proof (cases "z = nm")
      case True
      with b have "b = a" by (simp add: c')
      with y new have "y = x" by simp
      with x True show ?thesis by (simp add: c')
    next
      case False
      with b have z: "m_objMap c z = Some b" by (simp add: c' x(3))
      with y old have "heap_get (c_objs c) b = Inr y" by simp
      with tree_invD [OF assms(2) z] have "m_objType (d_obj y) = cfg_objType (m_config c) z"
        "\<And>g. m_children (d_obj y) = Some g \<Longrightarrow> kids_of c z g" by auto
      with kids_of_mono [OF _ ext] ext show ?thesis by (simp add: extends_def)
    qed
    then show "m_objType (d_obj y) = cfg_objType (m_config c') z" "\<And>g. m_children (d_obj y) = Some g \<Longrightarrow> kids_of c' z g" by blast+
  qed
  with ext x old new m show ?thesis by (auto simp: c')
qed (use assms in auto)

text \<open>A group that no object keeps: writing it changes no children.\<close>

definition unkept :: "addr \<Rightarrow> 's cntxt \<Rightarrow> bool" where
  "unkept g c \<longleftrightarrow> (\<forall>nm a x. m_objMap c nm = Some a \<longrightarrow> heap_get (c_objs c) a = Inr x \<longrightarrow> m_children (d_obj x) \<noteq> Some g)"

lemma write_unkept:
  assumes "tree_inv c" "unkept g c" "heap_get (c_grps c) g = Inr y" "c' = c\<lparr>c_grps := (c_grps c)[g := Some z]\<rparr>"
  shows "tree_inv c' \<and> unkept g c' \<and> (\<forall>h. h \<noteq> g \<longrightarrow> heap_get (c_grps c') h = heap_get (c_grps c) h)"
proof (intro conjI)
  have k: "kids_of c' nm h" if "kids_of c nm h" "h \<noteq> g" for nm h
    using that by (auto simp: kids_of_def plain_grp_def named_def assms(4) heap_simps)
  have "cntxt_ok c'" using assms(1,4) by (auto simp: tree_inv_def cntxt_ok_def comms_ok_def)
  moreover have "h \<noteq> g" if "m_objMap c nm = Some a" "heap_get (c_objs c) a = Inr x" "m_children (d_obj x) = Some h" for nm a x h
    using that assms(2) by (auto simp: unkept_def)
  ultimately show "tree_inv c'" using assms(1) k unfolding tree_inv_def by (simp add: assms(4))
  show "unkept g c'" using assms(2) by (simp add: unkept_def assms(4))
  show "\<forall>h. h \<noteq> g \<longrightarrow> heap_get (c_grps c') h = heap_get (c_grps c) h" by (simp add: assms(4) heap_simps)
qed

lemma child_step_tree:
  assumes "child_step n g ch c = Inr c'" "tree_inv c" "unkept g c" "plain_grp c g ms"
  shows "\<exists>a. tree_inv c' \<and> unkept g c' \<and> m_config c' = m_config c \<and> m_objMap c \<subseteq>\<^sub>m m_objMap c' \<and> m_objMap c' ch = Some a \<and>
    plain_grp c' g (if a \<in> set ms then ms else ms @ [a]) \<and> (\<forall>h. h \<noteq> g \<longrightarrow> heap_get (c_grps c') h = heap_get (c_grps c) h) \<and>
    (\<forall>x b. m_objMap c x = Some b \<longrightarrow> heap_get (c_objs c') b = heap_get (c_objs c) b)"
proof -
  from assms(1) obtain a c1 k where m: "must_find n ch c = Inr (a, c1)" and ad: "any_add g a c1 = Inr (k, c')"
    by (auto simp: child_step_def rbind_eq_Inr)
  from m have f: "findObject n ch c = Inr (Some a, c1)" by (auto simp: must_find_def rbind_eq_Inr split: option.splits)
  from findObject_tree [OF f assms(2)] have 1: "tree_inv c1" "extends c c1" "c_grps c1 = c_grps c"
    "\<forall>x b. m_objMap c x = Some b \<longrightarrow> heap_get (c_objs c1) b = heap_get (c_objs c) b"
    "\<forall>x b y. m_objMap c x = None \<longrightarrow> m_objMap c1 x = Some b \<longrightarrow> heap_get (c_objs c1) b = Inr y \<longrightarrow> m_children (d_obj y) = None"
    by auto
  have mp: "m_objMap c1 ch = Some a" using context_facts [OF _ f] assms(2) by (simp add: tree_inv_def)
  have u1: "unkept g c1"
    unfolding unkept_def
  proof (intro allI impI)
    fix nm b x assume b: "m_objMap c1 nm = Some b" and x: "heap_get (c_objs c1) b = Inr x"
    show "m_children (d_obj x) \<noteq> Some g"
    proof (cases "m_objMap c nm")
      case None
      with 1(5) b x have "m_children (d_obj x) = None" by blast
      then show ?thesis by simp
    next
      case (Some b')
      with 1(2) b have "b' = b" by (auto simp: extends_def map_le_def dom_def)
      with Some 1(4) x assms(3) show ?thesis by (auto simp: unkept_def)
    qed
  qed
  have g1: "heap_get (c_grps c1) g = Inr (PlainGrp \<lparr>g_name = [], g_list = ms\<rparr>)" using assms(4) 1(3) by (simp add: plain_grp_def)
  let ?z = "PlainGrp \<lparr>g_name = [], g_list = if a \<in> set ms then ms else ms @ [a]\<rparr>"
  from ad g1 have c': "c' = c1\<lparr>c_grps := (c_grps c1)[g := Some ?z]\<rparr>"
    by (auto simp: any_add_def rbind_eq_Inr grp_add_def heap_set_eq_Inr split: if_splits)
  from write_unkept [OF 1(1) u1 g1 c'] have 2: "tree_inv c'" "unkept g c'" "\<forall>h. h \<noteq> g \<longrightarrow> heap_get (c_grps c') h = heap_get (c_grps c1) h"
    by auto
  have "plain_grp c' g (if a \<in> set ms then ms else ms @ [a])"
    using heap_get_bound [OF g1] by (simp add: plain_grp_def c' heap_get_set_same)
  with 1 2 mp show ?thesis by (intro exI [of _ a]) (auto simp: c' extends_def)
qed

lemma children_tree:
  assumes "foldM (child_step n g) chs c = Inr c'" "tree_inv c" "unkept g c" "plain_grp c g ms" "named c dn ms" "distinct (dn @ chs)"
  shows "\<exists>ms'. tree_inv c' \<and> unkept g c' \<and> m_config c' = m_config c \<and> m_objMap c \<subseteq>\<^sub>m m_objMap c' \<and>
    plain_grp c' g ms' \<and> named c' (dn @ chs) ms' \<and> (\<forall>h. h \<noteq> g \<longrightarrow> heap_get (c_grps c') h = heap_get (c_grps c) h) \<and>
    (\<forall>x b. m_objMap c x = Some b \<longrightarrow> heap_get (c_objs c') b = heap_get (c_objs c) b)"
  using assms
proof (induction chs arbitrary: c ms dn)
  case Nil
  then show ?case by auto
next
  case (Cons ch chs)
  then obtain c1 where s: "child_step n g ch c = Inr c1" and rest: "foldM (child_step n g) chs c1 = Inr c'"
    by (auto simp: rbind_eq_Inr)
  from child_step_tree [OF s Cons.prems(2-4)] obtain a where 1: "tree_inv c1" "unkept g c1" "m_config c1 = m_config c"
    "m_objMap c \<subseteq>\<^sub>m m_objMap c1" "m_objMap c1 ch = Some a" "plain_grp c1 g (if a \<in> set ms then ms else ms @ [a])"
    "\<forall>h. h \<noteq> g \<longrightarrow> heap_get (c_grps c1) h = heap_get (c_grps c) h"
    "\<forall>x b. m_objMap c x = Some b \<longrightarrow> heap_get (c_objs c1) b = heap_get (c_objs c) b" by blast
  have nd: "named c1 dn ms" by (rule named_mono [OF Cons.prems(5) 1(4)])
  have "a \<notin> set ms"
  proof
    assume "a \<in> set ms"
    then obtain i where i: "i < length ms" "a = ms ! i" by (auto simp: in_set_conv_nth)
    with nd have "m_objMap c1 (dn ! i) = Some a" "i < length dn" by (auto simp: named_def list_all2_conv_all_nth)
    with named_inj [OF 1(1) this(1) 1(5)] Cons.prems(6) show False by auto
  qed
  with 1(6) have g: "plain_grp c1 g (ms @ [a])" by simp
  have n1: "named c1 (dn @ [ch]) (ms @ [a])" using nd 1(5) by (auto simp: named_def intro: list_all2_appendI)
  have "distinct ((dn @ [ch]) @ chs)" using Cons.prems(6) by simp
  from Cons.IH [OF rest 1(1,2) g n1 this] obtain ms' where 2: "tree_inv c'" "unkept g c'" "m_config c' = m_config c1"
    "m_objMap c1 \<subseteq>\<^sub>m m_objMap c'" "plain_grp c' g ms'" "named c' ((dn @ [ch]) @ chs) ms'"
    "\<forall>h. h \<noteq> g \<longrightarrow> heap_get (c_grps c') h = heap_get (c_grps c1) h"
    "\<forall>x b. m_objMap c1 x = Some b \<longrightarrow> heap_get (c_objs c') b = heap_get (c_objs c1) b" by blast
  have "heap_get (c_objs c') b = heap_get (c_objs c) b" if "m_objMap c x = Some b" for x b
  proof -
    from that 1(4) have "m_objMap c1 x = Some b" by (auto simp: map_le_def dom_def)
    with 2(8) 1(8) that show ?thesis by simp
  qed
  with 1 2 show ?case by (intro exI [of _ ms']) (auto intro: map_le_trans)
qed

lemma tree_inv_grps:
  assumes "tree_inv c"
  shows "tree_inv (c\<lparr>c_grps := c_grps c @ hs\<rparr>) \<and> extends c (c\<lparr>c_grps := c_grps c @ hs\<rparr>)"
proof -
  let ?c = "c\<lparr>c_grps := c_grps c @ hs\<rparr>"
  have e: "extends c ?c" by (simp add: extends_def plain_grp_def heap_simps)
  have "cntxt_ok ?c" using assms by (auto simp: tree_inv_def cntxt_ok_def comms_ok_def)
  then show ?thesis using e tree_inv_step [OF assms _ e] by auto
qed

lemma kids_bound: "kids_of c nm g \<Longrightarrow> g < length (c_grps c)"
  by (auto simp: kids_of_def plain_grp_def dest: heap_get_bound)

lemma obj_children_tree:
  assumes "obj_children n ob c = Inr (g, c')" "tree_inv c" "m_objMap c nm = Some ob" "distinct (findChildren (m_config c) nm)"
  shows "tree_inv c' \<and> extends c c' \<and> kids_of c' nm g \<and> (\<forall>h y. heap_get (c_grps c) h = Inr (DGrp y) \<longrightarrow> heap_get (c_grps c') h = Inr (DGrp y))"
proof -
  from tree_invD [OF assms(2,3)] obtain x where x: "heap_get (c_objs c) ob = Inr x" "m_name (d_obj x) = nm"
    "\<forall>g. m_children (d_obj x) = Some g \<longrightarrow> kids_of c nm g" by blast
  show ?thesis
  proof (cases "m_children (d_obj x)")
    case (Some h)
    with assms x show ?thesis by (simp add: obj_children_def)
  next
    case None
    let ?g = "length (c_grps c)" and ?c = "c\<lparr>c_grps := c_grps c @ [Some (PlainGrp \<lparr>g_name = [], g_list = []\<rparr>)]\<rparr>"
    from assms(1) None x obtain c1 where loop: "foldM (child_step n ?g) (findChildren (m_config c) nm) ?c = Inr c1" and g: "g = ?g"
      and up: "object_upd ob (\<lambda>x. x\<lparr>m_children := Some ?g\<rparr>) c1 = Inr c'"
      by (auto simp: obj_children_def getChildren_def new_grp_def obj_name_def rbind_eq_Inr child_step_def [abs_def] findChildren_def)
    note t = tree_inv_grps [OF assms(2), of "[Some (PlainGrp \<lparr>g_name = [], g_list = []\<rparr>)]"]
    have "unkept ?g ?c"
      unfolding unkept_def
    proof (intro allI impI)
      fix z b y assume "m_objMap ?c z = Some b" "heap_get (c_objs ?c) b = Inr y"
      with tree_invD [OF assms(2), of z b] kids_bound show "m_children (d_obj y) \<noteq> Some ?g" by fastforce
    qed
    moreover have "plain_grp ?c ?g []" by (simp add: plain_grp_def heap_get_new)
    moreover have "named ?c [] []" by (simp add: named_def)
    ultimately obtain ms where 1: "tree_inv c1" "unkept ?g c1" "m_config c1 = m_config c" "m_objMap c \<subseteq>\<^sub>m m_objMap c1"
      "plain_grp c1 ?g ms" "named c1 (findChildren (m_config c) nm) ms" "\<forall>h. h \<noteq> ?g \<longrightarrow> heap_get (c_grps c1) h = heap_get (c_grps ?c) h"
      using children_tree [OF loop, of "[]" "[]"] t assms(4) by auto
    from 1(4) assms(3) have ob: "m_objMap c1 nm = Some ob" by (auto simp: map_le_def dom_def)
    with tree_invD [OF 1(1)] obtain y where y: "heap_get (c_objs c1) ob = Inr y" by blast
    with up have c': "c' = c1\<lparr>c_objs := (c_objs c1)[ob := Some (y\<lparr>d_obj := (d_obj y)\<lparr>m_children := Some ?g\<rparr>\<rparr>)]\<rparr>"
      by (auto simp: object_upd_def rbind_eq_Inr heap_set_eq_Inr)
    have k: "kids_of c' nm ?g" using 1(3,5,6) by (auto simp: kids_of_def plain_grp_def named_def c')
    have e: "extends c1 c'" by (simp add: extends_def c' plain_grp_def)
    have at: "heap_get (c_objs c') a = (if a = ob then Inr (y\<lparr>d_obj := (d_obj y)\<lparr>m_children := Some ?g\<rparr>\<rparr>) else heap_get (c_objs c1) a)" for a
      using heap_get_bound [OF y] by (simp add: c' heap_simps)
    have ok': "cntxt_ok c'"
      unfolding cntxt_ok_def
    proof (intro conjI allI impI)
      show "comms_ok c'" using 1(1) by (simp add: tree_inv_def cntxt_ok_def comms_ok_def c')
      fix z a assume "m_objMap c' z = Some a"
      then have "m_objMap c1 z = Some a" by (simp add: c')
      moreover have "cntxt_ok c1" using 1(1) by (simp add: tree_inv_def)
      ultimately show "\<exists>x. heap_get (c_objs c') a = Inr x \<and> m_name (d_obj x) = z \<and> object_ok x"
        using cntxt_okD [of c1 z a] y by (auto simp: at object_ok_def)
    qed
    have "tree_inv c'"
    proof (rule tree_inv_step [OF 1(1) ok' e])
      show "m_objMap c' = m_objMap c1" by (simp add: c')
      fix z a x assume z: "m_objMap c1 z = Some a" and xa: "heap_get (c_objs c') a = Inr x"
      show "\<exists>y. heap_get (c_objs c1) a = Inr y \<and> m_objType (d_obj x) = m_objType (d_obj y) \<and>
          (\<forall>g. m_children (d_obj x) = Some g \<longrightarrow> m_children (d_obj y) = Some g \<or> kids_of c' z g)"
      proof (cases "a = ob")
        case True
        with named_inj [OF 1(1) z] ob have "z = nm" by simp
        with True y k xa show ?thesis by (auto simp: at)
      next
        case False
        with xa show ?thesis by (simp add: at)
      qed
    qed
    moreover have "extends c c'"
      unfolding extends_def
    proof (intro conjI allI impI)
      show "m_config c' = m_config c" "m_objMap c \<subseteq>\<^sub>m m_objMap c'" using 1(3,4) by (simp_all add: c')
      fix h xs assume h: "plain_grp c h xs"
      then have "h \<noteq> ?g" by (auto simp: plain_grp_def dest: heap_get_bound)
      with h 1(7) show "plain_grp c' h xs" by (simp add: plain_grp_def c' heap_simps)
    qed
    moreover have "heap_get (c_grps c') h = Inr (DGrp y)" if "heap_get (c_grps c) h = Inr (DGrp y)" for h y
    proof -
      from that have "h \<noteq> ?g" by (auto dest: heap_get_bound)
      with that 1(7) show ?thesis by (simp add: c' heap_simps)
    qed
    ultimately show ?thesis using k g by blast
  qed
qed

section \<open>The walk\<close>

text \<open>An object before the objects below it, down to a depth.\<close>

fun preorder :: "nat \<Rightarrow> config \<Rightarrow> string \<Rightarrow> string list" where
  "preorder 0 cfg nm = []"
| "preorder (Suc d) cfg nm = nm # concat (map (preorder d cfg) (findChildren cfg nm))"

definition tidy :: "config \<Rightarrow> bool" where
  "tidy cfg \<longleftrightarrow> (\<forall>nm. length (findChildren cfg nm) < 2 ^ 31 \<and> distinct (findChildren cfg nm))"

lemma group_loop:
  assumes "\<And>c. J c \<Longrightarrow> plain_grp (cx c) g ms"
    and "\<And>m o' c o'' c'. m \<in> set ms \<Longrightarrow> J c \<Longrightarrow> f m (o', c) = Inr (o'', c') \<Longrightarrow> J c'"
    and "J c" "length ms < 2 ^ 31"
  shows "foldM (\<lambda>i (out, c). rbind (PWR_GrpGetObjByIndx g i c) (\<lambda>(_, m). f m (out, c))) [0..int (length ms) - 1] (out, c) =
    foldM f ms (out, c)"
proof -
  let ?h = "\<lambda>i (out, c). rbind (PWR_GrpGetObjByIndx g i c) (\<lambda>(_, m). f m (out, c))"
  have run: "foldM ?h [int k..int (length ms) - 1] (out, c) = foldM f (drop k ms) (out, c)" if "k \<le> length ms" "J c" for k out c
    using that
  proof (induction "length ms - k" arbitrary: k out c)
    case 0
    then show ?case by simp
  next
    case (Suc l)
    then have k: "k < length ms" by simp
    with assms(4) have u: "unat (word_of_int (int k) :: u32) = k" by (simp add: unat_of_nat take_bit_nat_eq_self)
    have ob: "PWR_GrpGetObjByIndx g (int k) c = Inr (PWR_RET_SUCCESS, ms ! k)"
      using assms(1) [OF Suc.prems(2)] k
      unfolding PWR_GrpGetObjByIndx_def u by (simp add: any_getObj_def plain_grp_def grp_getObj_def aread_def)
    have up: "[int k..int (length ms) - 1] = int k # [int (Suc k)..int (length ms) - 1]" using k by (simp add: upto_rec1 add.commute)
    have dr: "drop k ms = ms ! k # drop (Suc k) ms" using k by (simp add: Cons_nth_drop_Suc)
    show ?case
    proof (cases "f (ms ! k) (out, c)")
      case (Inl e)
      then show ?thesis by (simp add: up dr ob)
    next
      case (Inr st)
      obtain out' c' where st: "st = (out', c')" by fastforce
      have "J c'" by (rule assms(2) [of "ms ! k"]) (use k Suc.prems Inr st in auto)
      moreover have "l = length ms - Suc k" "Suc k \<le> length ms" using Suc.hyps(2) k by auto
      ultimately have "foldM ?h [int (Suc k)..int (length ms) - 1] (out', c') = foldM f (drop (Suc k) ms) (out', c')"
        by (intro Suc.hyps(1)) auto
      with Inr st show ?thesis by (simp add: up dr ob)
    qed
  qed
  from run [of 0 c out] assms(3) show ?thesis by simp
qed

lemma num_objs: "plain_grp (cx c) g ms \<Longrightarrow> length ms < 2 ^ 31 \<Longrightarrow> PWR_GrpGetNumObjs g c = Inr (int (length ms))"
  by (simp add: PWR_GrpGetNumObjs_def any_size_def plain_grp_def grp_size_def sint_of_nat_u32)

text \<open>One step of both walks: the children of an object, as a list of addresses whose names are those of the configuration.\<close>

lemma children_call:
  assumes "PWR_ObjGetChildren n ob c = Inr ((rc, g), c')" "tree_inv (cx c)" "m_objMap (cx c) nm = Some ob"
    and "tidy (m_config (cx c))"
  shows "\<exists>ms. rc = PWR_RET_SUCCESS \<and> tree_inv (cx c') \<and> extends (cx c) (cx c') \<and> plain_grp (cx c') g ms \<and>
    named (cx c') (findChildren (m_config (cx c)) nm) ms \<and> length ms < 2 ^ 31 \<and> PWR_GrpGetNumObjs g c' = Inr (int (length ms)) \<and>
    (\<forall>h y. heap_get (c_grps (cx c)) h = Inr (DGrp y) \<longrightarrow> heap_get (c_grps (cx c')) h = Inr (DGrp y))"
proof -
  from assms(1) obtain x where x: "obj_children n ob (cx c) = Inr (g, x)" "rc = PWR_RET_SUCCESS" "c' = c\<lparr>cx := x\<rparr>"
    by (auto simp: PWR_ObjGetChildren_def rbind_eq_Inr)
  have "distinct (findChildren (m_config (cx c)) nm)" using assms(4) by (simp add: tidy_def)
  from obj_children_tree [OF x(1) assms(2,3) this] obtain ms where ms: "tree_inv x" "extends (cx c) x" "plain_grp x g ms"
    "named x (findChildren (m_config x) nm) ms" "\<forall>h y. heap_get (c_grps (cx c)) h = Inr (DGrp y) \<longrightarrow> heap_get (c_grps x) h = Inr (DGrp y)"
    by (auto simp: kids_of_def)
  have cfg: "m_config x = m_config (cx c)" using ms(2) by (simp add: extends_def)
  with ms(4) have "length ms = length (findChildren (m_config (cx c)) nm)" by (simp add: named_def list_all2_lengthD)
  with assms(4) have l: "length ms < 2 ^ 31" by (simp add: tidy_def)
  with num_objs [of c' g ms] ms x(2,3) cfg show ?thesis by auto
qed

lemma obj_type: "tree_inv (cx c) \<Longrightarrow> m_objMap (cx c) nm = Some ob \<Longrightarrow>
    PWR_ObjGetType ob c = Inr (PWR_RET_SUCCESS, cfg_objType (m_config (cx c)) nm)"
  using tree_invD [of "cx c" nm ob] by (auto simp: PWR_ObjGetType_def client_obj_def)

definition printable :: "string \<Rightarrow> bool" where
  "printable nm \<longleftrightarrow> length nm < 100 \<and> CHR 0x00 \<notin> set nm"

lemma obj_name_read:
  assumes "tree_inv (cx c)" "m_objMap (cx c) nm = Some ob" "printable nm"
  shows "\<exists>buf. PWR_ObjGetName (Some ob) 100 c = Inr (PWR_RET_SUCCESS, buf) \<and> read_cstr buf = Inr nm"
  using tree_invD [OF assms(1,2)] strncpy_read [of nm 100] assms(3)
  by (auto simp: PWR_ObjGetName_def obj_name_def printable_def)

definition dump_line :: "PWR_ObjType \<Rightarrow> string \<Rightarrow> line" where
  "dump_line type nm = Dump nm (objTypeToString type) (map attrNameToString real_attrs)"

definition selected :: "config \<Rightarrow> PWR_ObjType \<Rightarrow> string \<Rightarrow> bool" where
  "selected cfg type nm \<longleftrightarrow> type = PWR_OBJ_INVALID \<or> cfg_objType cfg nm = type"

text \<open>What is done with each child.\<close>

definition dump_step ::
    "nat \<Rightarrow> nat \<Rightarrow> PWR_ObjType \<Rightarrow> addr \<Rightarrow> line list \<times> ('s, 'u) client \<Rightarrow> (line list \<times> ('s, 'u) client) res" where
  "dump_step d n type m = (\<lambda>(out, c).
     rbind (PWR_ObjGetType m c) (\<lambda>(_, objType).
     rbind (if type = PWR_OBJ_INVALID \<or> objType = type then
              rbind (PWR_ObjGetName (Some m) 100 c) (\<lambda>(_, buf).
              rbind (read_cstr buf) (\<lambda>name.
              Inr (out @ [Dump name (objTypeToString type) (map attrNameToString real_attrs)])))
            else Inr out) (\<lambda>out. dump_type_objects d n type m (out, c))))"

lemma dump_Suc:
  "dump_type_objects (Suc d) n type self (out, c) =
     rbind (PWR_ObjGetChildren n self c) (\<lambda>((rc, grp), c).
     rbind (assert_c (rc = PWR_RET_SUCCESS)) (\<lambda>_.
     rbind (PWR_GrpGetNumObjs grp c) (\<lambda>size.
     foldM (\<lambda>i (out, c). rbind (PWR_GrpGetObjByIndx grp i c) (\<lambda>(_, m). dump_step d n type m (out, c))) [0..size - 1] (out, c))))"
  by (simp add: dump_step_def)

declare dump_type_objects.simps(2) [simp del]

lemma dump_walk:
  fixes c c' :: "('s, 'u) client"
  assumes "dump_type_objects d n type ob (out, c) = Inr (out', c')" "tree_inv (cx c)" "m_objMap (cx c) nm = Some ob"
    and "m_config (cx c) = cfg" "tidy cfg" "\<forall>x \<in> set (preorder d cfg nm). printable x"
  shows "0 < d \<and> tree_inv (cx c') \<and> extends (cx c) (cx c') \<and>
    out' = out @ map (dump_line type) (filter (selected cfg type) (tl (preorder d cfg nm)))"
  using assms
proof (induction d arbitrary: nm ob out c out' c')
  case (Suc d)
  let ?chs = "findChildren cfg nm"
  define f :: "addr \<Rightarrow> line list \<times> ('s, 'u) client \<Rightarrow> (line list \<times> ('s, 'u) client) res" where "f = dump_step d n type"
  from Suc.prems(1) obtain rc g c1 where ch: "PWR_ObjGetChildren n ob c = Inr ((rc, g), c1)" by (auto simp: dump_Suc rbind_eq_Inr)
  from children_call [OF this Suc.prems(2,3)] Suc.prems(4,5) obtain ms where ms: "rc = PWR_RET_SUCCESS" "tree_inv (cx c1)"
    "extends (cx c) (cx c1)" "plain_grp (cx c1) g ms" "named (cx c1) ?chs ms" "length ms < 2 ^ 31"
    "PWR_GrpGetNumObjs g c1 = Inr (int (length ms))" by auto
  define J where "J = (\<lambda>c :: ('s, 'u) client. tree_inv (cx c) \<and> extends (cx c1) (cx c))"
  have step: "J c'' \<and> 0 < d \<and>
      o'' = o' @ map (dump_line type) (filter (selected cfg type) (preorder d cfg x))"
    if "f m (o', c') = Inr (o'', c'')" "J c'" "x \<in> set ?chs" "m_objMap (cx c1) x = Some m" for m x o' c' o'' c''
  proof -
    from that(2) have t: "tree_inv (cx c')" "extends (cx c1) (cx c')" by (simp_all add: J_def)
    have cfg: "m_config (cx c') = cfg" using t(2) ms(3) Suc.prems(4) by (simp add: extends_def)
    have mp: "m_objMap (cx c') x = Some m" using t(2) that(4) by (auto simp: extends_def map_le_def dom_def)
    note ty = obj_type [OF t(1) mp]
    have pd: "\<forall>y \<in> set (preorder d cfg x). printable y" using Suc.prems(6) that(3) by auto
    have go: "dump_type_objects d n type m ((if selected cfg type x then o' @ [dump_line type x] else o'), c') = Inr (o'', c'') \<and> 0 < d"
    proof -
      have "0 < d" using that(1) by (cases d) (auto simp: f_def dump_step_def rbind_eq_Inr)
      then have "x \<in> set (preorder d cfg x)" by (cases d) auto
      with pd have "printable x" by blast
      with obj_name_read [OF t(1) mp] that(1) ty \<open>0 < d\<close> show ?thesis
        by (auto simp: f_def dump_step_def cfg selected_def dump_line_def split: if_splits)
    qed
    from Suc.IH [OF _ t(1) mp cfg Suc.prems(5) pd] go have r: "tree_inv (cx c'')" "extends (cx c') (cx c'')"
      "o'' = (if selected cfg type x then o' @ [dump_line type x] else o') @ map (dump_line type) (filter (selected cfg type) (tl (preorder d cfg x)))"
      by auto
    from go obtain ys where "preorder d cfg x = x # ys" by (cases d) auto
    then have "filter (selected cfg type) (preorder d cfg x) =
        (if selected cfg type x then [x] else []) @ filter (selected cfg type) (tl (preorder d cfg x))"
      by simp
    with r go extends_trans [OF t(2) r(2)] show ?thesis by (simp add: J_def)
  qed
  have mem: "\<exists>x \<in> set ?chs. m_objMap (cx c1) x = Some m" if "m \<in> set ms" for m
    using that ms(5) by (fastforce simp: named_def in_set_conv_nth list_all2_conv_all_nth)
  have "foldM (\<lambda>i (out, c). rbind (PWR_GrpGetObjByIndx g i c) (\<lambda>(_, m). f m (out, c))) [0..int (length ms) - 1] (out, c1) =
      foldM f ms (out, c1)"
  proof (rule group_loop [where J = J])
    show "J c2 \<Longrightarrow> plain_grp (cx c2) g ms" for c2 using ms(4) by (simp add: J_def extends_def)
    show "J c3" if "m \<in> set ms" "J c2" "f m (o1, c2) = Inr (o2, c3)" for m o1 c2 o2 c3
      using mem [OF that(1)] step that by blast
  qed (use ms in \<open>simp_all add: J_def\<close>)
  moreover from Suc.prems(1) have "foldM (\<lambda>i (out, c). rbind (PWR_GrpGetObjByIndx g i c) (\<lambda>(_, m). f m (out, c))) [0..int (length ms) - 1] (out, c1) = Inr (out', c')"
    by (simp add: dump_Suc ch ms(1,7) f_def)
  ultimately have loop: "foldM f ms (out, c1) = Inr (out', c')" by simp
  have "J c' \<and> out' = out @ map (dump_line type) (filter (selected cfg type) (concat (map (preorder d cfg) xs)))"
    if "foldM f ys (out, c2) = Inr (out', c')" "J c2" "list_all2 (\<lambda>x m. m_objMap (cx c1) x = Some m) xs ys" "set xs \<subseteq> set ?chs" for xs ys out c2
    using that(3,1,2,4)
  proof (induction arbitrary: out c2 rule: list_all2_induct)
    case (Cons x xs m ys)
    then obtain o1 c3 where 1: "f m (out, c2) = Inr (o1, c3)" "foldM f ys (o1, c3) = Inr (out', c')" by (auto simp: rbind_eq_Inr)
    from step [OF 1(1)] Cons.hyps Cons.prems have "J c3" "o1 = out @ map (dump_line type) (filter (selected cfg type) (preorder d cfg x))" by auto
    with Cons.IH [OF 1(2)] Cons.prems show ?case by simp
  qed simp
  from this [OF loop] ms have "J c'" "out' = out @ map (dump_line type) (filter (selected cfg type) (concat (map (preorder d cfg) ?chs)))"
    by (simp_all add: J_def named_def)
  with ms(3) extends_trans show ?case by (auto simp: J_def)
qed simp

section \<open>The walk returns\<close>

text \<open>The tree below a name ends, and the query for the children of each of its names is answered.\<close>

fun deep :: "nat \<Rightarrow> config \<Rightarrow> string \<Rightarrow> bool" where
  "deep 0 cfg nm = False"
| "deep (Suc d) cfg nm = (case ask_findChildren cfg nm of Inl e \<Rightarrow> False | Inr chs \<Rightarrow> list_all (deep d cfg) chs)"

lemma deep_Suc: "deep (Suc d) cfg nm \<longleftrightarrow> ask_findChildren cfg nm = Inr (findChildren cfg nm) \<and> list_all (deep d cfg) (findChildren cfg nm)"
  by (auto simp: findChildren_def split: sum.splits)

text \<open>The objects of these names can be made in every context of the configuration.\<close>

definition makes :: "nat \<Rightarrow> config \<Rightarrow> string set \<Rightarrow> 's itself \<Rightarrow> bool" where
  "makes n cfg nms t \<longleftrightarrow> (\<forall>(c :: 's cntxt) nm. tree_inv c \<longrightarrow> m_config c = cfg \<longrightarrow> nm \<in> nms \<longrightarrow> (\<exists>a c'. must_find n nm c = Inr (a, c')))"

lemma makes_mono: "makes n cfg nms t \<Longrightarrow> nms' \<subseteq> nms \<Longrightarrow> makes n cfg nms' t"
  by (auto simp: makes_def)

lemma children_return:
  fixes c :: "'s cntxt"
  assumes "tree_inv c" "unkept g c" "plain_grp c g ms" "named c dn ms" "distinct (dn @ chs)" "makes n (m_config c) (set chs) TYPE('s)"
  shows "\<exists>c'. foldM (child_step n g) chs c = Inr c'"
  using assms
proof (induction chs arbitrary: c ms dn)
  case (Cons ch chs)
  then obtain a c1 where m: "must_find n ch c = Inr (a, c1)" unfolding makes_def by (metis list.set_intros(1))
  then have "c_grps c1 = c_grps c"
    using findObject_tree [of n ch c "Some a" c1] Cons.prems(1) by (auto simp: must_find_def rbind_eq_Inr split: option.splits)
  then obtain c2 where s: "child_step n g ch c = Inr c2"
    using Cons.prems(3) m by (cases "a \<in> set ms") (auto simp: child_step_def any_add_def plain_grp_def grp_add_def heap_set_def)
  have f: "foldM (child_step n g) [ch] c = Inr c2" using s by simp
  have "distinct (dn @ [ch])" using Cons.prems(5) by simp
  from children_tree [OF f Cons.prems(1-4) this] obtain ms' where "tree_inv c2" "unkept g c2" "m_config c2 = m_config c"
    "plain_grp c2 g ms'" "named c2 (dn @ [ch]) ms'" by auto
  moreover from this have "makes n (m_config c2) (set chs) TYPE('s)" using Cons.prems(6) by (auto elim: makes_mono)
  ultimately have "\<exists>c'. foldM (child_step n g) chs c2 = Inr c'" using Cons.IH [of c2 ms' "dn @ [ch]"] Cons.prems(5) by auto
  with s show ?case by simp
qed simp

lemma obj_children_return:
  fixes c :: "'s cntxt"
  assumes "tree_inv c" "m_objMap c nm = Some ob" "distinct (findChildren (m_config c) nm)"
    "ask_findChildren (m_config c) nm = Inr (findChildren (m_config c) nm)" "makes n (m_config c) (set (findChildren (m_config c) nm)) TYPE('s)"
  shows "\<exists>g c'. obj_children n ob c = Inr (g, c')"
proof -
  from tree_invD [OF assms(1,2)] obtain x where x: "heap_get (c_objs c) ob = Inr x" "m_name (d_obj x) = nm"
    "\<forall>g. m_children (d_obj x) = Some g \<longrightarrow> kids_of c nm g" by blast
  show ?thesis
  proof (cases "m_children (d_obj x)")
    case None
    let ?g = "length (c_grps c)" and ?c = "c\<lparr>c_grps := c_grps c @ [Some (PlainGrp \<lparr>g_name = [], g_list = []\<rparr>)]\<rparr>"
    note t = tree_inv_grps [OF assms(1), of "[Some (PlainGrp \<lparr>g_name = [], g_list = []\<rparr>)]"]
    have 1: "unkept ?g ?c"
      unfolding unkept_def
    proof (intro allI impI)
      fix z b y assume "m_objMap ?c z = Some b" "heap_get (c_objs ?c) b = Inr y"
      with tree_invD [OF assms(1), of z b] kids_bound show "m_children (d_obj y) \<noteq> Some ?g" by fastforce
    qed
    have 2: "plain_grp ?c ?g []" "named ?c [] []" by (simp_all add: plain_grp_def heap_get_new named_def)
    obtain c1 where loop: "foldM (child_step n ?g) (findChildren (m_config c) nm) ?c = Inr c1"
      using children_return [OF conjunct1 [OF t] 1 2, of "findChildren (m_config c) nm" n] assms(3,5) by auto
    from children_tree [OF loop conjunct1 [OF t] 1 2] assms(3) have c1: "tree_inv c1" "m_objMap c \<subseteq>\<^sub>m m_objMap c1" by auto
    with assms(2) have "m_objMap c1 nm = Some ob" by (auto simp: map_le_def dom_def)
    with tree_invD [OF c1(1)] obtain y where "heap_get (c_objs c1) ob = Inr y" by blast
    with loop x None assms(4) show ?thesis
      by (auto simp: obj_children_def getChildren_def new_grp_def obj_name_def child_step_def [abs_def] object_upd_def heap_set_def)
  qed (use x in \<open>simp add: obj_children_def\<close>)
qed

lemma children_call_return:
  fixes c :: "('s, 'u) client"
  assumes "tree_inv (cx c)" "m_objMap (cx c) nm = Some ob" "tidy (m_config (cx c))"
    "ask_findChildren (m_config (cx c)) nm = Inr (findChildren (m_config (cx c)) nm)" "makes n (m_config (cx c)) (set (findChildren (m_config (cx c)) nm)) TYPE('s)"
  shows "\<exists>rc g c'. PWR_ObjGetChildren n ob c = Inr ((rc, g), c')"
  using obj_children_return [OF assms(1,2) _ assms(4,5)] assms(3) by (auto simp: PWR_ObjGetChildren_def tidy_def)

lemma dump_return:
  fixes c :: "('s, 'u) client"
  assumes "tree_inv (cx c)" "m_objMap (cx c) nm = Some ob" "m_config (cx c) = cfg" "tidy cfg" "deep d cfg nm"
    "\<forall>x \<in> set (preorder d cfg nm). printable x" "makes n cfg (set (tl (preorder d cfg nm))) TYPE('s)"
  shows "\<exists>out' c'. dump_type_objects d n type ob (out, c) = Inr (out', c')"
  using assms
proof (induction d arbitrary: nm ob out c)
  case (Suc d)
  let ?chs = "findChildren cfg nm"
  have sub: "deep d cfg x \<and> (\<forall>y \<in> set (preorder d cfg x). printable y) \<and> makes n cfg (set (preorder d cfg x)) TYPE('s) \<and> x \<in> set (preorder d cfg x)"
    if "x \<in> set ?chs" for x
  proof -
    from that Suc.prems(5) have "deep d cfg x" by (simp add: deep_Suc list_all_iff del: deep.simps)
    then have "x \<in> set (preorder d cfg x)" by (cases d) auto
    with that Suc.prems(5-7) show ?thesis by (auto simp: deep_Suc list_all_iff simp del: deep.simps elim!: makes_mono)
  qed
  have mk: "makes n cfg (set ?chs) TYPE('s)" by (rule makes_mono [OF Suc.prems(7)]) (use sub in auto)
  from children_call_return [OF Suc.prems(1,2)] Suc.prems(3,4) mk Suc.prems(5) [unfolded deep_Suc] obtain rc g c1
    where ch: "PWR_ObjGetChildren n ob c = Inr ((rc, g), c1)" by blast
  from children_call [OF this Suc.prems(1,2)] Suc.prems(3,4) obtain ms where ms: "rc = PWR_RET_SUCCESS" "tree_inv (cx c1)"
    "extends (cx c) (cx c1)" "plain_grp (cx c1) g ms" "named (cx c1) ?chs ms" "length ms < 2 ^ 31"
    "PWR_GrpGetNumObjs g c1 = Inr (int (length ms))" by auto
  define f :: "addr \<Rightarrow> line list \<times> ('s, 'u) client \<Rightarrow> (line list \<times> ('s, 'u) client) res" where "f = dump_step d n type"
  define J where "J = (\<lambda>c :: ('s, 'u) client. tree_inv (cx c) \<and> extends (cx c1) (cx c))"
  have step: "\<exists>o'' c''. f m (o', c') = Inr (o'', c'') \<and> J c''"
    if "J c'" "x \<in> set ?chs" "m_objMap (cx c1) x = Some m" for m x o' c'
  proof -
    from that(1) have t: "tree_inv (cx c')" "extends (cx c1) (cx c')" by (simp_all add: J_def)
    have cfg: "m_config (cx c') = cfg" using t(2) ms(3) Suc.prems(3) by (simp add: extends_def)
    have mp: "m_objMap (cx c') x = Some m" using t(2) that(3) by (auto simp: extends_def map_le_def dom_def)
    note s = sub [OF that(2)]
    let ?o = "if selected cfg type x then o' @ [dump_line type x] else o'"
    have run: "f m (o', c') = dump_type_objects d n type m (?o, c')"
      using obj_name_read [OF t(1) mp] obj_type [OF t(1) mp] s by (auto simp: f_def dump_step_def cfg selected_def dump_line_def)
    have "makes n cfg (set (tl (preorder d cfg x))) TYPE('s)" using s by (auto elim!: makes_mono dest: list.set_sel(2) [rotated])
    with Suc.IH [OF t(1) mp cfg Suc.prems(4), of ?o] s obtain o'' c'' where r: "dump_type_objects d n type m (?o, c') = Inr (o'', c'')" by blast
    with dump_walk [OF r t(1) mp cfg Suc.prems(4)] s extends_trans [OF t(2)] run show ?thesis by (auto simp: J_def)
  qed
  have mem: "\<exists>x \<in> set ?chs. m_objMap (cx c1) x = Some m" if "m \<in> set ms" for m
    using that ms(5) by (fastforce simp: named_def in_set_conv_nth list_all2_conv_all_nth)
  have "\<exists>o' c'. foldM f ys (out, c2) = Inr (o', c')" if "set ys \<subseteq> set ms" "J c2" for ys out c2
    using that
  proof (induction ys arbitrary: out c2)
    case (Cons m ys)
    from mem [of m] Cons.prems obtain x where "x \<in> set ?chs" "m_objMap (cx c1) x = Some m" by auto
    from step [OF Cons.prems(2) this] obtain o1 c3 where "f m (out, c2) = Inr (o1, c3)" "J c3" by blast
    with Cons.IH [of c3 o1] Cons.prems show ?case by auto
  qed simp
  then obtain o' c' where loop: "foldM f ms (out, c1) = Inr (o', c')" using ms(2) by (force simp: J_def)
  have "foldM (\<lambda>i (out, c). rbind (PWR_GrpGetObjByIndx g i c) (\<lambda>(_, m). f m (out, c))) [0..int (length ms) - 1] (out, c1) =
      foldM f ms (out, c1)"
  proof (rule group_loop [where J = J])
    show "J c2 \<Longrightarrow> plain_grp (cx c2) g ms" for c2 using ms(4) by (simp add: J_def extends_def)
    show "J c3" if "m \<in> set ms" "J c2" "f m (o1, c2) = Inr (o2, c3)" for m o1 c2 o2 c3
    proof -
      from mem [OF that(1)] obtain x where "x \<in> set ?chs" "m_objMap (cx c1) x = Some m" by blast
      from step [OF that(2) this, of o1] that(3) show ?thesis by auto
    qed
  qed (use ms in \<open>simp_all add: J_def\<close>)
  with loop ch ms(1,7) show ?case by (simp add: dump_Suc f_def)
qed simp

section \<open>The tools on a context that has started\<close>

lemma init_tree:
  assumes "PWR_CntxtInit n sy role name = Inr (rc, Some (c, ch))"
  shows "tree_inv c \<and> (\<exists>r a. getenv2 sy name ''POWERAPI_ROOT'' = Some r \<and> getSelf c = Some a \<and> m_objMap c r = Some a)"
proof -
  from assms obtain cfg r where r: "getenv2 sy name ''POWERAPI_ROOT'' = Some r" "init_root n r (empty_cntxt sy cfg) = Inr c"
    by (auto simp: PWR_CntxtInit_def new_DistCntxt_def rbind_eq_Inr split: if_splits option.splits)
  then obtain a d where f: "findObject n r ((empty_cntxt sy cfg)\<lparr>m_rootName := r\<rparr>) = Inr (Some a, d)" "c = d\<lparr>m_rootObj := Some a\<rparr>"
    by (auto simp: init_root_def rbind_eq_Inr split: option.splits)
  have "tree_inv ((empty_cntxt sy cfg)\<lparr>m_rootName := r\<rparr>)" by (simp add: tree_inv_def empty_cntxt_def cntxt_ok_def comms_ok_def)
  from findObject_tree [OF f(1) this] have "tree_inv d" by simp
  then have "tree_inv c" by (simp add: f(2) tree_inv_def cntxt_ok_def comms_ok_def kids_of_def plain_grp_def named_def)
  with init_root_ok [OF r(2) empty_cntxt_ok] r(1) show ?thesis by blast
qed

definition dmp_type :: "string list \<Rightarrow> PWR_ObjType res" where
  "dmp_type argv = foldM dmp_option (getopt_short (map_of [(CHR ''t'', True), (CHR ''h'', False)]) [] (drop 1 argv)) PWR_OBJ_INVALID"

text \<open>
  C27: \<^verbatim>\<open>pwrdmp\<close> returns, and prints a line for every object below the entry point that has the type asked for, in the order of a walk
  over the configuration that visits an object before its children: if the configuration answers the query for the children of each of them, with distinct names and
  fewer than 2147483648, the objects can be made and their names fit the buffer. Every line has the type that was asked
  for (\<^verbatim>\<open>Invalid\<close> when none was), not that of the object.
\<close>

theorem dump_prints_tree:
  assumes "PWR_CntxtInit n sy PWR_ROLE_APP ''Application'' = Inr (PWR_RET_SUCCESS, Some (c, ch))" "m_config c = cfg" "tidy cfg"
    and "getenv2 sy ''Application'' ''POWERAPI_ROOT'' = Some r" "dmp_type argv = Inr type" "deep d cfg r"
    and "\<forall>x \<in> set (preorder d cfg r). printable x" "makes n cfg (set (tl (preorder d cfg r))) TYPE('s)"
  shows "\<exists>c'. pwrdmp d n (sy :: 's system) incoming word0 u argv =
    Inr (map (dump_line type) (filter (selected cfg type) (tl (preorder d cfg r))), c')"
proof -
  let ?c = "tool_client c ch incoming word0 u"
  from init_tree [OF assms(1)] assms(4) obtain a where a: "tree_inv (cx ?c)" "getSelf c = Some a" "m_objMap (cx ?c) r = Some a"
    by (auto simp: tool_client_def)
  have cfg: "m_config (cx ?c) = cfg" using assms(2) by (simp add: tool_client_def)
  from dump_return [OF a(1,3) cfg assms(3,6-8), of type "[]"] obtain out c' where
    r: "dump_type_objects d n type a ([], ?c) = Inr (out, c')" by blast
  have "tool_start n sy incoming word0 u = Inr (a, ?c)"
    using a(2) by (simp add: tool_start_def assms(1) PWR_CntxtGetEntryPoint_def tool_client_def Let_def)
  then have "pwrdmp d n sy incoming word0 u argv = Inr (out, c')"
    using assms(5) r by (simp add: pwrdmp_def dmp_type_def)
  with dump_walk [OF r a(1,3) cfg assms(3,7)] show ?thesis by simp
qed

text \<open>Objects without attributes can be made.\<close>

lemma makes_plain:
  assumes "\<And>nm. nm \<in> nms \<Longrightarrow> plain cfg nm" "\<And>nm. nm \<in> nms \<Longrightarrow> \<exists>t. ask_objType cfg nm = Inr t \<and> t \<noteq> PWR_OBJ_INVALID"
  shows "makes n cfg nms t"
  unfolding makes_def
proof (intro allI impI)
  fix c :: "'a cntxt" and nm assume c: "m_config c = cfg" "nm \<in> nms"
  show "\<exists>a c'. must_find n nm c = Inr (a, c')"
  proof (cases "m_objMap c nm")
    case None
    obtain il where i: "init_attrs n nm c = Inr (il, c)" "\<forall>i \<in> set il. ai_comm i = None \<and> ai_devices i = []"
      using init_attrs_plain [of c nm n] assms(1) c by auto
    from i(2) have "dist_comm il = Inr None" using check_comms_plain [of il] by (simp add: dist_comm_def list_all_iff)
    moreover obtain t where "ask_objType cfg nm = Inr t" "t \<noteq> PWR_OBJ_INVALID" using assms(2) c(2) by blast
    ultimately show ?thesis using i None c by (simp add: must_find_def findObject_def createObject_def Let_def)
  qed (simp add: must_find_def findObject_def)
qed

definition plain_obj :: "string \<Rightarrow> string \<Rightarrow> string list \<Rightarrow> obj_spec" where
  "plain_obj nm ty cs = \<lparr>os_name = nm, os_type = ty, os_location = None, os_attrs = [], os_devs = [], os_children = cs\<rparr>"

definition plain_sys :: sys_spec where
  "plain_sys = \<lparr>sy_plugins = [], sy_devs = [],
     sy_objs = [plain_obj ''p'' ''Platform'' [''a'', ''b''], plain_obj ''p.a'' ''Node'' [''c''], plain_obj ''p.b'' ''Node'' [],
       plain_obj ''p.a.c'' ''Core'' []]\<rparr>"

definition plain_system :: "dummy_state system" where
  "plain_system = (demo_system [])\<lparr>env_vars := [''POWERAPI_CONFIG'' \<mapsto> ''demo.xml'', ''POWERAPI_ROOT'' \<mapsto> ''p''],
     documents := \<lambda>f. [sys_xml plain_sys]\<rparr>"

lemma plain_find:
  "sys_find plain_sys nm = (if nm = ''p'' then Some (plain_obj ''p'' ''Platform'' [''a'', ''b''])
     else if nm = ''p.a'' then Some (plain_obj ''p.a'' ''Node'' [''c''])
     else if nm = ''p.b'' then Some (plain_obj ''p.b'' ''Node'' [])
     else if nm = ''p.a.c'' then Some (plain_obj ''p.a.c'' ''Core'' []) else None)"
  by (auto simp: sys_find_def plain_sys_def plain_obj_def)

lemma plain_config:
  fixes cfg defines "cfg \<equiv> xml_config (sys_xml plain_sys)"
  shows "ask_findChildren cfg nm = (if nm = ''p'' then Inr [''p.a'', ''p.b''] else if nm = ''p.a'' then Inr [''p.a.c'']
      else if nm = ''p.b'' \<or> nm = ''p.a.c'' then Inr [] else Inl AssertFail)"
    and "sys_find plain_sys nm \<noteq> None \<Longrightarrow> plain cfg nm"
    and "ask_objType cfg nm = Inr (if nm = ''p'' then PWR_OBJ_PLATFORM else if nm = ''p.a'' \<or> nm = ''p.b'' then PWR_OBJ_NODE
      else if nm = ''p.a.c'' then PWR_OBJ_CORE else PWR_OBJ_INVALID)"
proof -
  have f: "xml_findObject (sys_xml plain_sys) nm = Inr (map_option obj_xml (sys_find plain_sys nm))" by (rule xml_findObject_sys)
  have c: "obj_complete (plain_obj n t cs)" for n t cs by (simp add: obj_complete_def plain_obj_def)
  note q = xml_queries [of plain_sys nm]
  have none: "sys_find plain_sys nm = None \<Longrightarrow> xml_findChildren (sys_xml plain_sys) nm = Inl AssertFail"
    using f by (simp add: xml_findChildren_def xml_object_def)
  have some: "sys_find plain_sys nm = Some ob \<Longrightarrow> xml_findChildren (sys_xml plain_sys) nm = Inr (map (child_name nm) (os_children ob)) \<and>
      xml_findAttrOp (sys_xml plain_sys) nm a = Inr []" for ob a
    using q [of ob a] c by (auto simp: plain_find attr_find_def plain_obj_def split: if_splits)
  show "ask_findChildren cfg nm = (if nm = ''p'' then Inr [''p.a'', ''p.b''] else if nm = ''p.a'' then Inr [''p.a.c'']
      else if nm = ''p.b'' \<or> nm = ''p.a.c'' then Inr [] else Inl AssertFail)"
  proof (cases "sys_find plain_sys nm")
    case None
    with none show ?thesis by (auto simp: cfg_def plain_find split: if_splits)
  next
    case (Some ob)
    with some [OF Some] show ?thesis by (auto simp: cfg_def plain_find plain_obj_def child_name_def split: if_splits)
  qed
  show "sys_find plain_sys nm \<noteq> None \<Longrightarrow> plain cfg nm" using some by (auto simp: plain_def cfg_def)
  show "ask_objType cfg nm = Inr (if nm = ''p'' then PWR_OBJ_PLATFORM else if nm = ''p.a'' \<or> nm = ''p.b'' then PWR_OBJ_NODE
      else if nm = ''p.a.c'' then PWR_OBJ_CORE else PWR_OBJ_INVALID)"
    by (auto simp: cfg_def xml_objType_def f plain_find plain_obj_def objTypeStrToInt_def)
qed

lemma plain_views:
  "findChildren (xml_config (sys_xml plain_sys)) nm = (if nm = ''p'' then [''p.a'', ''p.b''] else if nm = ''p.a'' then [''p.a.c''] else [])"
  "cfg_objType (xml_config (sys_xml plain_sys)) nm = (if nm = ''p'' then PWR_OBJ_PLATFORM else if nm = ''p.a'' \<or> nm = ''p.b'' then PWR_OBJ_NODE
      else if nm = ''p.a.c'' then PWR_OBJ_CORE else PWR_OBJ_INVALID)"
  using plain_config(1,3) [of nm] by (simp_all add: findChildren_def cfg_objType_def)

lemma plain_start:
  "\<exists>c. PWR_CntxtInit n plain_system PWR_ROLE_APP ''Application'' = Inr (PWR_RET_SUCCESS, Some (c, None)) \<and>
     m_config c = xml_config (sys_xml plain_sys)"
proof -
  let ?cfg = "xml_config (sys_xml plain_sys)" and ?c = "empty_cntxt plain_system (xml_config (sys_xml plain_sys))"
  have "new_XmlConfig (documents plain_system (''demo'' @ ''.xml'')) = Inr (sys_xml plain_sys)"
    by (simp add: plain_system_def new_XmlConfig_def sys_xml_def)
  with open_config_xml [of plain_system "''demo''"] have o: "open_config plain_system ''demo.xml'' = Inr ?cfg" by simp
  have "plain ?cfg ''p''" by (rule plain_config(2)) (simp add: plain_find)
  then obtain c where c: "init_root n ''p'' ?c = Inr c"
    using init_root_plain [of ?c "''p''" PWR_OBJ_PLATFORM n] plain_config(3) [of "''p''"] by (force simp: empty_cntxt_def)
  have env: "initEventChannel plain_system ''Application'' = Inr None" "getenv2 plain_system ''Application'' ''POWERAPI_CONFIG'' = Some ''demo.xml''"
    "getenv2 plain_system ''Application'' ''POWERAPI_ROOT'' = Some ''p''"
    by (simp_all add: initEventChannel_def getenv2_def plain_system_def demo_system_def)
  from init_root_ok [OF c empty_cntxt_ok] have "m_config c = ?cfg" by (auto simp: empty_cntxt_def)
  with c o env show ?thesis by (simp add: PWR_CntxtInit_def new_DistCntxt_def)
qed

theorem dump_prints_tree_witness:
  "(\<exists>c'. pwrdmp 3 0 plain_system [] 0 () [''pwrdmp'', ''-t'', ''N''] = Inr (map (dump_line PWR_OBJ_NODE) [''p.a'', ''p.b''], c')) \<and>
   (\<exists>c'. pwrdmp 3 0 plain_system [] 0 () [''pwrdmp''] = Inr (map (dump_line PWR_OBJ_INVALID) [''p.a'', ''p.a.c'', ''p.b''], c'))"
proof -
  let ?cfg = "xml_config (sys_xml plain_sys)"
  obtain c where c: "PWR_CntxtInit 0 plain_system PWR_ROLE_APP ''Application'' = Inr (PWR_RET_SUCCESS, Some (c, None))" "m_config c = ?cfg"
    using plain_start [of 0] by blast
  have t: "tidy ?cfg" by (simp add: tidy_def plain_views)
  have r: "getenv2 plain_system ''Application'' ''POWERAPI_ROOT'' = Some ''p''" by (simp add: getenv2_def plain_system_def)
  have p: "preorder 3 ?cfg ''p'' = [''p'', ''p.a'', ''p.a.c'', ''p.b'']" by (simp add: numeral_3_eq_3 plain_views)
  have d: "deep 3 ?cfg ''p''"
    using plain_config(1) by (simp add: numeral_3_eq_3 del: xml_config_asks)
  have pr: "\<forall>x \<in> set (preorder 3 ?cfg ''p''). printable x" by (simp add: p printable_def)
  have m: "makes 0 ?cfg (set (tl (preorder 3 ?cfg ''p''))) TYPE(dummy_state)"
  proof (rule makes_plain)
    fix nm assume nm: "nm \<in> set (tl (preorder 3 ?cfg ''p''))"
    then show "plain ?cfg nm" by (intro plain_config(2)) (auto simp: p plain_find)
    show "\<exists>t. ask_objType ?cfg nm = Inr t \<and> t \<noteq> PWR_OBJ_INVALID" using nm plain_config(3) [of nm] by (auto simp: p)
  qed
  have ty: "dmp_type [''pwrdmp'', ''-t'', ''N''] = Inr PWR_OBJ_NODE" "dmp_type [''pwrdmp''] = Inr PWR_OBJ_INVALID"
    by (simp_all add: dmp_type_def dmp_option_def type_letter_def arg_char_def)
  show ?thesis
    using dump_prints_tree [OF c t r ty(1) d pr m, of "[]" 0 "()"] dump_prints_tree [OF c t r ty(2) d pr m, of "[]" 0 "()"]
    by (simp add: p selected_def plain_views)
qed

section \<open>A sample\<close>

text \<open>What is printed of the first cells: an energy after its difference to the first sample.\<close>

definition first_cells :: "u64 \<Rightarrow> PWR_AttrName list \<Rightarrow> u64 list \<Rightarrow> u64 list" where
  "first_cells start attrs vals = concat (map (\<lambda>(a, v). (if a = PWR_ATTR_ENERGY then [fsub v start] else []) @ [v]) (zip attrs vals))"

lemma attr_cells_eq: "k + length attrs \<le> length vals \<Longrightarrow> attr_cells start attrs k vals = Inr (first_cells start attrs (drop k vals))"
proof (induction attrs arbitrary: k)
  case (Cons a attrs)
  then have "drop k vals = vals ! k # drop (Suc k) vals" "k < length vals" by (simp_all add: Cons_nth_drop_Suc)
  with Cons show ?case by (simp add: first_cells_def aread_def)
qed (simp add: first_cells_def)

lemma sample_lines:
  assumes "length attrs \<le> length V" "attrs \<noteq> []" "T \<noteq> []" "i = 0 \<longrightarrow> nms \<noteq> [] \<longrightarrow> base = (V ! 0, T ! 0)"
    and "heap_get (c_grps (cx c)) g = Inr (DGrp dg)" "list_all2 (\<lambda>nm m. obj_name m (cx c) = Inr nm \<and> printable nm) nms (dg_allObjs dg)"
    and "length nms < 2 ^ 31" "i \<noteq> 0 \<longrightarrow> base = st" "nms = [] \<longrightarrow> base = st"
  shows "foldM (sample_line i attrs V T g c) [0..int (length nms) - 1] (st, out) =
    Inr (base, out @ map (\<lambda>nm. Sample nm (first_cells (fst base) attrs V) (T ! 0 - snd base)) nms)"
proof -
  let ?L = "\<lambda>nm. Sample nm (first_cells (fst base) attrs V) (T ! 0 - snd base)"
  have one: "sample_line i attrs V T g c (int k) (s, o') = Inr (base, o' @ [?L (nms ! k)])"
    if k: "k < length nms" and s: "i = 0 \<or> s = base" for k s o'
  proof -
    have u: "unat (word_of_int (int k) :: u32) = k" using k assms(7) by (simp add: unat_of_nat take_bit_nat_eq_self)
    have len: "length (dg_allObjs dg) = length nms" using assms(6) by (simp add: list_all2_lengthD)
    have ob: "PWR_GrpGetObjByIndx g (int k) c = Inr (PWR_RET_SUCCESS, dg_allObjs dg ! k)"
      using assms(5) k len unfolding PWR_GrpGetObjByIndx_def u by (simp add: any_getObj_def distgrp_getObj_def aread_def)
    have nm: "obj_name (dg_allObjs dg ! k) (cx c) = Inr (nms ! k)" "printable (nms ! k)"
      using assms(6) k by (auto simp: list_all2_conv_all_nth)
    then obtain buf where "PWR_ObjGetName (Some (dg_allObjs dg ! k)) 100 c = Inr (PWR_RET_SUCCESS, buf)" "read_cstr buf = Inr (nms ! k)"
      using strncpy_read [of "nms ! k" 100] by (auto simp: PWR_ObjGetName_def printable_def)
    moreover have "V \<noteq> []" "aread V 0 = Inr (V ! 0)" "aread T 0 = Inr (T ! 0)" using assms(1-3) by (auto simp: aread_def)
    moreover have b: "(if i = 0 then (V ! 0, T ! 0) else s) = base" using s assms(4,8) k by (cases "i = 0") auto
    ultimately show ?thesis
      using ob attr_cells_eq [of 0 attrs V] assms(1) by (cases base; cases s) (auto simp: sample_line_def Let_def split: if_splits)
  qed
  have run: "foldM (sample_line i attrs V T g c) [int k..int (length nms) - 1] (s, o') =
      Inr (if k < length nms then base else s, o' @ map ?L (drop k nms))" if "k \<le> length nms" "i = 0 \<or> s = base" for k s o'
    using that
  proof (induction "length nms - k" arbitrary: k s o')
    case (Suc l)
    then have k: "k < length nms" by simp
    then have up: "[int k..int (length nms) - 1] = int k # [int (Suc k)..int (length nms) - 1]" by (simp add: upto_rec1 add.commute)
    have "foldM (sample_line i attrs V T g c) [int (Suc k)..int (length nms) - 1] (base, o' @ [?L (nms ! k)]) =
        Inr (if Suc k < length nms then base else base, (o' @ [?L (nms ! k)]) @ map ?L (drop (Suc k) nms))"
      by (rule Suc.hyps(1)) (use Suc.hyps(2) k in auto)
    with one [OF k Suc.prems(2)] k show ?case by (simp add: up Cons_nth_drop_Suc [OF k, symmetric])
  qed simp
  show ?thesis
  proof (cases "nms = []")
    case False
    with run [of 0 st out] assms(8) show ?thesis by auto
  qed (use assms(9) in simp)
qed

lemma read_attrs_full: "read_attrs ob as s = Inr ((xs, None), s') \<Longrightarrow> length xs = length as"
  by (induction as arbitrary: xs s) (auto simp: rbind_eq_Inr split: if_splits)

lemma take_splice_rows:
  "n \<le> off \<Longrightarrow> n \<le> length V \<Longrightarrow> take n (splice_rows k off vss V) = take n V"
  by (induction vss arbitrary: off V) (auto simp: splice_def min_def)

lemma not_Some_pair: "(\<forall>a b. e \<noteq> Some (a, b)) = (e = None)"
  by (cases e) auto

lemma first_row_read:
  assumes "PWR_GrpAttrGetValues n app g (int (length attrs)) attrs (Some (vb, 0)) (Some (tb, 0)) sts c = Inr (PWR_RET_SUCCESS, c1)"
    and "heap_get (c_grps (cx c)) g = Inr (DGrp dg)" "dg_distObjs dg = []" "attrs \<noteq> []"
    and "local_members (c_objs (cx c)) (g_list (dg_grp dg)) attrs"
    and "dist_rows (c_objs (cx c)) (g_list (dg_grp dg)) attrs (world (cx c)) = Inr ((row # rows, errs), w)"
    and "heap_get (vmem c) vb = Inr V" "length (g_list (dg_grp dg)) * length attrs \<le> length V"
    and "heap_get (tmem c) tb = Inr T" "length (g_list (dg_grp dg)) * length attrs \<le> length T"
    and "heap_get (stats c) sts = Inr es"
  shows "\<exists>V' T'. heap_get (vmem c1) vb = Inr V' \<and> heap_get (tmem c1) tb = Inr T' \<and>
    take (length attrs) V' = map fst row \<and> T' ! 0 = snd (row ! 0)"
proof -
  let ?k = "length attrs" and ?ls = "g_list (dg_grp dg)"
  obtain c2 where c2: "dgrp_get_local n app ?ls 0 (int ?k) attrs (Some (vb, 0)) (Some (tb, 0)) sts c = Inr (PWR_RET_SUCCESS, c2)"
    "vmem c2 = (vmem c)[vb := Some (splice_rows ?k 0 (map (map fst) (row # rows)) V)]"
    "tmem c2 = (tmem c)[tb := Some (splice_rows ?k 0 (map (map snd) (row # rows)) T)]" "stats c2 = (stats c)[sts := Some (es @ errs)]"
    using get_local_rows [OF assms(4-7) _ assms(9) _ assms(11), of 0 0 0 n app] assms(8,10) by auto
  have "heap_get (stats c2) sts = Inr (es @ errs)" using assms(11) by (simp add: c2(4) heap_get_eq_Inr)
  then have c1: "c1 = c2" "errs = []"
    using assms(1-3) c2(1)
    by (auto simp: PWR_GrpAttrGetValues_def dgrp_getValues_def dgrp_get_remote_def client_grp_def status_result_def status_empty_def
        split: if_splits)
  from assms(6) obtain ob obs x e w1 where ob: "?ls = ob # obs" "heap_get (c_objs (cx c)) ob = Inr x"
    "read_attrs (d_obj x) attrs (world (cx c)) = Inr ((row, e), w1)" "e = None"
    using c1(2) by (cases ?ls) (auto simp: dist_row_def rbind_eq_Inr add_error_def status_add_def not_Some_pair split: option.splits)
  then have r: "length row = ?k" by (auto dest: read_attrs_full)
  have len: "?k \<le> length V" "?k \<le> length T" using assms(8,10) ob(1) by simp_all
  let ?V = "splice_rows ?k 0 (map (map fst) (row # rows)) V" and ?T = "splice_rows ?k 0 (map (map snd) (row # rows)) T"
  have "take ?k ?V = map fst row"
    using take_splice_rows [of ?k ?k "splice V 0 (map fst row)" ?k "map (map fst) rows"] len r by (simp add: splice_def)
  moreover have t: "take ?k ?T = map snd row"
    using take_splice_rows [of ?k ?k "splice T 0 (map snd row)" ?k "map (map snd) rows"] len r by (simp add: splice_def)
  moreover have "?T ! 0 = snd (row ! 0)"
  proof -
    have k: "0 < ?k" using assms(4) by simp
    have "?T ! 0 = take ?k ?T ! 0" using nth_take [OF k, of ?T] by (rule sym)
    also have "\<dots> = snd (row ! 0)" unfolding t using r k by simp
    finally show ?thesis .
  qed
  ultimately show ?thesis using assms(7,9) by (auto simp: c1(1) c2(2,3) heap_get_eq_Inr)
qed

text \<open>
  C30: A sample of \<^verbatim>\<open>pwrapi\<close> whose read succeeds prints a line for each object of the group, in its order, but beside the name of its
  own object every line has the values and the time in the first cells of the arrays, which in a group of local objects are what was read from the first of them: the
  energies are differences to the first sample's first value, whatever attribute that is of.
\<close>

theorem sample_prints_first_object:
  assumes "PWR_GrpAttrGetValues n app g (int (length attrs)) attrs (Some (vb, 0)) (Some (tb, 0)) sts c = Inr (PWR_RET_SUCCESS, c1)"
    and "heap_get (vmem c1) vb = Inr V" "heap_get (tmem c1) tb = Inr T" "attrs \<noteq> []" "length attrs \<le> length V" "T \<noteq> []"
    and "heap_get (c_grps (cx c1)) g = Inr (DGrp dg)" "list_all2 (\<lambda>nm m. obj_name m (cx c1) = Inr nm \<and> printable nm) nms (dg_allObjs dg)"
    and "length nms < 2 ^ 31" "nms \<noteq> []" "base = (if i = 0 then (V ! 0, T ! 0) else st)"
  shows "sample_loop n app g (int (length nms)) attrs vb tb sts (Suc left) i (st, out) c =
    sample_loop n app g (int (length nms)) attrs vb tb sts left (Suc i)
      (base, out @ map (\<lambda>nm. Sample nm (first_cells (fst base) attrs V) (T ! 0 - snd base)) nms) c1 \<and>
    (\<forall>y row rows errs w V0 T0 es.
       heap_get (c_grps (cx c)) g = Inr (DGrp y) \<and> dg_distObjs y = [] \<and> local_members (c_objs (cx c)) (g_list (dg_grp y)) attrs \<and>
       dist_rows (c_objs (cx c)) (g_list (dg_grp y)) attrs (world (cx c)) = Inr ((row # rows, errs), w) \<and>
       heap_get (vmem c) vb = Inr V0 \<and> length (g_list (dg_grp y)) * length attrs \<le> length V0 \<and>
       heap_get (tmem c) tb = Inr T0 \<and> length (g_list (dg_grp y)) * length attrs \<le> length T0 \<and> heap_get (stats c) sts = Inr es \<longrightarrow>
       first_cells (fst base) attrs V = first_cells (fst base) attrs (map fst row) \<and> T ! 0 = snd (row ! 0))"
proof (intro conjI allI impI)
  obtain s t where st: "st = (s, t)" by fastforce
  have "foldM (sample_line i attrs V T g c1) [0..int (length nms) - 1] (st, out) =
      Inr (base, out @ map (\<lambda>nm. Sample nm (first_cells (fst base) attrs V) (T ! 0 - snd base)) nms)"
    by (rule sample_lines [OF assms(5,4,6) _ assms(7-9)]) (use assms(10,11) in auto)
  with assms(1-3) show "sample_loop n app g (int (length nms)) attrs vb tb sts (Suc left) i (st, out) c =
    sample_loop n app g (int (length nms)) attrs vb tb sts left (Suc i)
      (base, out @ map (\<lambda>nm. Sample nm (first_cells (fst base) attrs V) (T ! 0 - snd base)) nms) c1"
    by (simp add: st)
next
  fix y row rows errs w V0 T0 es
  assume "heap_get (c_grps (cx c)) g = Inr (DGrp y) \<and> dg_distObjs y = [] \<and> local_members (c_objs (cx c)) (g_list (dg_grp y)) attrs \<and>
       dist_rows (c_objs (cx c)) (g_list (dg_grp y)) attrs (world (cx c)) = Inr ((row # rows, errs), w) \<and>
       heap_get (vmem c) vb = Inr V0 \<and> length (g_list (dg_grp y)) * length attrs \<le> length V0 \<and>
       heap_get (tmem c) tb = Inr T0 \<and> length (g_list (dg_grp y)) * length attrs \<le> length T0 \<and> heap_get (stats c) sts = Inr es"
  then have f: "take (length attrs) V = map fst row" "T ! 0 = snd (row ! 0)"
    using first_row_read [OF assms(1), of y row rows errs w V0 T0 es] assms(2-4) by auto
  have "zip attrs V = zip attrs (map fst row)"
  proof -
    have "zip attrs V = take (length attrs) (zip attrs V)" by simp
    then show ?thesis by (simp only: take_zip f(1) take_all order_refl)
  qed
  with f(2) show "first_cells (fst base) attrs V = first_cells (fst base) attrs (map fst row)" "T ! 0 = snd (row ! 0)"
    by (simp_all add: first_cells_def)
qed

text \<open>A group with one local object that was added twice.\<close>

definition twice_group :: DistGrp where
  "twice_group = \<lparr>dg_grp = \<lparr>g_name = ''g'', g_list = [0]\<rparr>, dg_distObjs = [], dg_allObjs = [0, 0], dg_comm = None\<rparr>"

definition twice_client :: "(dummy_state, unit) client" where
  "twice_client = demo_grp_client\<lparr>cx := (cx demo_grp_client)\<lparr>c_grps := [Some (DGrp twice_group)]\<rparr>\<rparr>"

lemma twice_rows:
  "local_members (c_objs (cx twice_client)) [0] [PWR_ATTR_POWER]"
  "dist_rows (c_objs (cx twice_client)) [0] [PWR_ATTR_POWER] (world (cx twice_client)) = Inr (([[(5, 1000000000)]], []), demo_dummy\<lparr>ticks := 2\<rparr>)"
  "heap_get (c_grps (cx twice_client)) 0 = Inr (DGrp twice_group)" "dg_distObjs twice_group = []" "g_list (dg_grp twice_group) = [0]"
  "heap_get (vmem twice_client) 0 = Inr [9, 9]" "heap_get (tmem twice_client) 0 = Inr [8, 8]" "heap_get (stats twice_client) 0 = Inr []"
  by (simp_all add: twice_client_def twice_group_def demo_grp_client_def heap_get_def local_members_def all_local_def demo_object_attrs
      demo_info_def new_AttrInfo_def dist_row_def demo_object_read add_error_def numeral_2_eq_2)

lemma twice_read:
  "\<exists>c1. PWR_GrpAttrGetValues 2 (\<lambda>_. Inr) 0 (int (length [PWR_ATTR_POWER])) [PWR_ATTR_POWER] (Some (0, 0)) (Some (0, 0)) 0 twice_client =
     Inr (PWR_RET_SUCCESS, c1) \<and> heap_get (vmem c1) 0 = Inr [5, 9] \<and> heap_get (tmem c1) 0 = Inr [1000000000, 8] \<and>
     cx c1 = (cx twice_client)\<lparr>world := demo_dummy\<lparr>ticks := 2\<rparr>\<rparr>"
proof -
  let ?c = twice_client and ?n = "[PWR_ATTR_POWER]"
  note l = twice_rows(1) and b = twice_rows(2)
  have v: "heap_get (vmem ?c) 0 = Inr [9, 9]" and t: "heap_get (tmem ?c) 0 = Inr [8, 8]" and st: "heap_get (stats ?c) 0 = Inr []"
    by (simp_all add: twice_client_def demo_grp_client_def heap_get_def)
  from get_local_rows [OF _ l b v _ t _ st, where vo = 0 and i = 0 and to = 0 and n = 2 and app = "\<lambda>_. Inr"] obtain c1 where
    c1: "dgrp_get_local 2 (\<lambda>_. Inr) [0] 0 (int (length ?n)) ?n (Some (0, 0)) (Some (0, 0)) 0 ?c = Inr (PWR_RET_SUCCESS, c1)"
      "cx c1 = (cx ?c)\<lparr>world := demo_dummy\<lparr>ticks := 2\<rparr>\<rparr>" "vmem c1 = (vmem ?c)[0 := Some (splice_rows 1 0 [[5]] [9, 9])]"
      "tmem c1 = (tmem ?c)[0 := Some (splice_rows 1 0 [[1000000000]] [8, 8])]" "stats c1 = (stats ?c)[0 := Some []]"
    by auto
  have g: "client_grp 0 ?c = Inr twice_group" "client_grp 0 c1 = Inr twice_group"
    by (simp_all add: client_grp_def c1(2) twice_client_def heap_get_def)
  have "PWR_GrpAttrGetValues 2 (\<lambda>_. Inr) 0 (int (length ?n)) ?n (Some (0, 0)) (Some (0, 0)) 0 ?c = Inr (PWR_RET_SUCCESS, c1)"
    using c1(1,5) g
    by (simp add: PWR_GrpAttrGetValues_def dgrp_getValues_def dgrp_get_remote_def twice_group_def status_result_def status_empty_def
        heap_get_def twice_client_def demo_grp_client_def)
  moreover have "heap_get (vmem c1) 0 = Inr [5, 9]" "heap_get (tmem c1) 0 = Inr [1000000000, 8]"
    by (simp_all add: c1(3,4) twice_client_def demo_grp_client_def heap_get_def splice_def)
  ultimately show ?thesis using c1(2) by blast
qed

theorem sample_prints_first_object_witness:
  "\<exists>c1 nm. sample_loop 2 (\<lambda>_. Inr) 0 2 [PWR_ATTR_POWER] 0 0 0 1 0 ((0, 0), []) twice_client = Inr ([Sample nm [5] 0, Sample nm [5] 0], c1)"
proof -
  obtain c1 where c1: "PWR_GrpAttrGetValues 2 (\<lambda>_. Inr) 0 (int (length [PWR_ATTR_POWER])) [PWR_ATTR_POWER] (Some (0, 0)) (Some (0, 0)) 0 twice_client =
     Inr (PWR_RET_SUCCESS, c1)" "heap_get (vmem c1) 0 = Inr [5, 9]" "heap_get (tmem c1) 0 = Inr [1000000000, 8]"
     "cx c1 = (cx twice_client)\<lparr>world := demo_dummy\<lparr>ticks := 2\<rparr>\<rparr>" using twice_read by blast
  let ?nm = "m_name demo_object"
  have g: "heap_get (c_grps (cx c1)) 0 = Inr (DGrp twice_group)" by (simp add: c1(4) twice_client_def heap_get_def)
  have n: "list_all2 (\<lambda>nm m. obj_name m (cx c1) = Inr nm \<and> printable nm) [?nm, ?nm] (dg_allObjs twice_group)"
    by (simp add: twice_group_def c1(4) twice_client_def demo_grp_client_def obj_name_def heap_get_def printable_def demo_object_def)
  have "sample_loop 2 (\<lambda>_. Inr) 0 (int (length [?nm, ?nm])) [PWR_ATTR_POWER] 0 0 0 (Suc 0) 0 ((0, 0), []) twice_client =
      sample_loop 2 (\<lambda>_. Inr) 0 (int (length [?nm, ?nm])) [PWR_ATTR_POWER] 0 0 0 0 (Suc 0)
        ((5, 1000000000), [] @ map (\<lambda>nm. Sample nm (first_cells 5 [PWR_ATTR_POWER] [5, 9]) ([1000000000, 8] ! 0 - 1000000000)) [?nm, ?nm]) c1 \<and>
      first_cells 5 [PWR_ATTR_POWER] [5, 9] = first_cells 5 [PWR_ATTR_POWER] (map fst [(5, 1000000000 :: u64)]) \<and>
      [1000000000 :: u64, 8] ! 0 = snd ([(5 :: u64, 1000000000)] ! 0)"
  proof -
    note P = sample_prints_first_object [OF c1(1-3) _ _ _ g n, of "(5, 1000000000)" 0 "(0, 0)" 0 "[]"]
    from P have "sample_loop 2 (\<lambda>_. Inr) 0 (int (length [?nm, ?nm])) [PWR_ATTR_POWER] 0 0 0 (Suc 0) 0 ((0, 0), []) twice_client =
      sample_loop 2 (\<lambda>_. Inr) 0 (int (length [?nm, ?nm])) [PWR_ATTR_POWER] 0 0 0 0 (Suc 0)
        ((5, 1000000000), [] @ map (\<lambda>nm. Sample nm (first_cells (fst (5, 1000000000 :: u64)) [PWR_ATTR_POWER] [5, 9]) ([1000000000, 8] ! 0 - snd (5 :: u64, 1000000000))) [?nm, ?nm]) c1"
      by (simp del: sample_loop.simps)
    moreover from P have "first_cells (fst (5, 1000000000 :: u64)) [PWR_ATTR_POWER] [5, 9] = first_cells (fst (5, 1000000000 :: u64)) [PWR_ATTR_POWER] (map fst [(5, 1000000000 :: u64)]) \<and>
        [1000000000 :: u64, 8] ! 0 = snd ([(5 :: u64, 1000000000)] ! 0)"
      using twice_rows by (simp del: sample_loop.simps)
    ultimately show ?thesis by (simp del: sample_loop.simps)
  qed
  then show ?thesis by (auto simp: first_cells_def simp del: sample_loop.simps(2))
qed

end
