(* ===== verification/Logger.thy ===== *)
theory Logger
  imports ServerStart Tools
begin

text \<open>
  The logger (\<^verbatim>\<open>src/tools/pwrdaemon/logger\<close>): what it reads and writes. Each kind of work is a loop that reads, prints and sleeps
  for a second until a read fails; the model runs a number of turns, and \<open>None\<close> is a loop that goes on. A line is its format with the
  values that are printed in it. \<open>word0\<close> is what a variable holds before it is set, \<open>tod\<close> the clock.
\<close>

section \<open>util.h\<close>

definition getName :: "addr \<Rightarrow> int \<Rightarrow> ('s, 'u) client \<Rightarrow> string res" where
  "getName grp index c =
     rbind (PWR_GrpGetObjByIndx grp index c) (\<lambda>(rc, obj).
     rbind (assert_c (rc = PWR_RET_SUCCESS)) (\<lambda>_.
     rbind (PWR_ObjGetName (Some obj) 100 c) (\<lambda>(rc, buf).
     rbind (assert_c (rc = PWR_RET_SUCCESS)) (\<lambda>_. read_cstr buf))))"

definition getAttrStat :: "string \<Rightarrow> PWR_AttrStat res" where
  "getAttrStat name =
     (if name = ''min'' then Inr PWR_ATTR_STAT_MIN
      else if name = ''max'' then Inr PWR_ATTR_STAT_MAX
      else if name = ''avg'' then Inr PWR_ATTR_STAT_AVG
      else if name = ''stdev'' then Inr PWR_ATTR_STAT_STDEV
      else if name = ''cv'' then Inr PWR_ATTR_STAT_CV
      else if name = ''sum'' then Inr PWR_ATTR_STAT_SUM
      else Inl AssertFail)"

definition getAttr :: "string \<Rightarrow> PWR_AttrName res" where
  "getAttr name =
     (if name = ''energy'' then Inr PWR_ATTR_ENERGY
      else if name = ''power'' then Inr PWR_ATTR_POWER
      else Inl AssertFail)"

text \<open>\<^verbatim>\<open>getTime\<close> of \<^verbatim>\<open>timeUtil.h\<close>, in milliseconds.\<close>

definition lgr_now :: "('s \<Rightarrow> (u64 \<times> u64) \<times> 's) \<Rightarrow> ('s, 'u) client \<Rightarrow> (u64 \<times> u64) \<times> ('s, 'u) client" where
  "lgr_now tod c = (case tod (world (cx c)) of (tv, w) \<Rightarrow> (tv, set_world w c))"

definition lgr_getTime :: "('s \<Rightarrow> (u64 \<times> u64) \<times> 's) \<Rightarrow> ('s, 'u) client \<Rightarrow> u64 \<times> ('s, 'u) client" where
  "lgr_getTime tod c =
     (case lgr_now tod c of (tv, c) \<Rightarrow>
      (fadd (f_of_int (sint (fst tv * 1000))) (fdiv (f_of_int (sint (snd tv))) (f_of_int 1000)), c))"

section \<open>Turns\<close>

datatype log_line =
    ObjHeader string string
  | Watts u64 u64
  | Joules u64 u64
  | GrpWatts string u64 u64
  | GrpObject string
  | GrpValue PWR_AttrName u64 u64
  | StatValue PWR_AttrStat PWR_AttrName u64 PWR_TimePeriod
  | Latency int u64 u64
  | Failure string string int
  | CallSet
  | SetReturned
  | Sleeping int
  | Woken

fun turns :: "nat \<Rightarrow> ('st \<Rightarrow> (int option \<times> 'st) res) \<Rightarrow> 'st \<Rightarrow> (int option \<times> 'st) res" where
  "turns 0 f st = Inr (None, st)"
| "turns (Suc k) f st =
     rbind (f st) (\<lambda>(r, st). case r of None \<Rightarrow> turns k f st | Some x \<Rightarrow> Inr (Some x, st))"

text \<open>One read of an attribute into two local variables, of which the value is set to 0 before.\<close>

definition read_local ::
    "nat \<Rightarrow> ('s, 'u) app \<Rightarrow> addr \<Rightarrow> PWR_AttrName \<Rightarrow> u64 \<Rightarrow> ('s, 'u) client \<Rightarrow> ((int \<times> u64 \<times> u64) \<times> ('s, 'u) client) res" where
  "read_local n app ob attr word0 c =
     (let vb = length (vmem c); tb = length (tmem c) in
      rbind (PWR_ObjAttrGetValue n app ob attr (Some (vb, 0)) (Some (tb, 0))
        (c\<lparr>vmem := vmem c @ [Some [0]], tmem := tmem c @ [Some [word0]]\<rparr>)) (\<lambda>(r, c).
      rbind (heap_get (vmem c) vb) (\<lambda>vs.
      rbind (heap_get (tmem c) tb) (\<lambda>ts.
      rbind (aread vs 0) (\<lambda>v.
      rbind (aread ts 0) (\<lambda>t.
      Inr ((r, v, t), c\<lparr>vmem := (vmem c)[vb := None], tmem := (tmem c)[tb := None]\<rparr>)))))))"

definition obj_header :: "addr \<Rightarrow> ('s, 'u) client \<Rightarrow> string res" where
  "obj_header ob c = rbind (PWR_ObjGetName (Some ob) 100 c) (\<lambda>(_, buf). read_cstr buf)"

section \<open>power.h, energy.h and rate.h\<close>

definition power_turn ::
    "nat \<Rightarrow> ('s, 'u) app \<Rightarrow> u64 \<Rightarrow> addr \<Rightarrow> string \<Rightarrow> log_line list \<times> ('s, 'u) client \<Rightarrow> (int option \<times> log_line list \<times> ('s, 'u) client) res" where
  "power_turn n app word0 ob nm = (\<lambda>(out, c).
     rbind (read_local n app ob PWR_ATTR_POWER word0 c) (\<lambda>((r, v, t), c).
     if r \<noteq> PWR_RET_SUCCESS then Inr (Some (-1), out @ [Failure nm (attrNameToString PWR_ATTR_POWER) r], c)
     else Inr (None, out @ [Watts v t], c)))"

definition power_work ::
    "nat \<Rightarrow> ('s, 'u) app \<Rightarrow> u64 \<Rightarrow> addr \<Rightarrow> nat \<Rightarrow> log_line list \<times> ('s, 'u) client \<Rightarrow> (int option \<times> log_line list \<times> ('s, 'u) client) res" where
  "power_work n app word0 ob k = (\<lambda>(out, c).
     rbind (obj_header ob c) (\<lambda>nm.
     turns k (power_turn n app word0 ob nm) (out @ [ObjHeader nm (attrNameToString PWR_ATTR_POWER)], c)))"

definition energy_turn ::
    "nat \<Rightarrow> ('s, 'u) app \<Rightarrow> u64 \<Rightarrow> addr \<Rightarrow> string \<Rightarrow> u64 \<times> log_line list \<times> ('s, 'u) client \<Rightarrow>
     (int option \<times> u64 \<times> log_line list \<times> ('s, 'u) client) res" where
  "energy_turn n app word0 ob nm = (\<lambda>(startValue, out, c).
     rbind (read_local n app ob PWR_ATTR_ENERGY word0 c) (\<lambda>((r, v, t), c).
     if r \<noteq> PWR_RET_SUCCESS then Inr (Some (-1), startValue, out @ [Failure nm (attrNameToString PWR_ATTR_POWER) r], c)
     else if feq fzero startValue then Inr (None, v, out, c)
     else Inr (None, v, out @ [Joules (fsub v startValue) t], c)))"

definition energy_work ::
    "nat \<Rightarrow> ('s, 'u) app \<Rightarrow> u64 \<Rightarrow> addr \<Rightarrow> nat \<Rightarrow> log_line list \<times> ('s, 'u) client \<Rightarrow> (int option \<times> log_line list \<times> ('s, 'u) client) res" where
  "energy_work n app word0 ob k = (\<lambda>(out, c).
     rbind (obj_header ob c) (\<lambda>nm.
     rbind (turns k (energy_turn n app word0 ob nm) (fzero, out @ [ObjHeader nm (attrNameToString PWR_ATTR_POWER)], c)) (\<lambda>(r, _, st).
     Inr (r, st))))"

text \<open>A thousand reads in a row, and their latency.\<close>

definition rate_turn ::
    "nat \<Rightarrow> ('s, 'u) app \<Rightarrow> u64 \<Rightarrow> addr \<Rightarrow> string \<Rightarrow> log_line list \<times> ('s, 'u) client \<Rightarrow> (int option \<times> log_line list \<times> ('s, 'u) client) res" where
  "rate_turn n app word0 ob nm = (\<lambda>(out, c).
     rbind (read_local n app ob PWR_ATTR_ENERGY word0 c) (\<lambda>((r, v, t), c).
     if r \<noteq> PWR_RET_SUCCESS then Inr (Some (-1), out @ [Failure nm (attrNameToString PWR_ATTR_POWER) r], c)
     else Inr (None, out, c)))"

definition rate_work ::
    "('s \<Rightarrow> (u64 \<times> u64) \<times> 's) \<Rightarrow> nat \<Rightarrow> ('s, 'u) app \<Rightarrow> u64 \<Rightarrow> addr \<Rightarrow> log_line list \<times> ('s, 'u) client \<Rightarrow>
     (int option \<times> log_line list \<times> ('s, 'u) client) res" where
  "rate_work tod n app word0 ob = (\<lambda>(out, c).
     rbind (obj_header ob c) (\<lambda>nm.
     case lgr_getTime tod c of (start, c) \<Rightarrow>
     rbind (turns 1000 (rate_turn n app word0 ob nm) (out @ [ObjHeader nm (attrNameToString PWR_ATTR_POWER)], c)) (\<lambda>(r, out, c).
     case r of
       Some x \<Rightarrow> Inr (Some x, out, c)
     | None \<Rightarrow>
         (case lgr_getTime tod c of (stop, c) \<Rightarrow>
          let total = fsub stop start in Inr (Some 0, out @ [Latency 1000 total (fdiv total (f_of_int 1000))], c)))))"

section \<open>powerGrp.h\<close>

text \<open>The count is 0, so that the loop ends when a read fails. The arrays and the status are made once, and the status is not cleared.\<close>

definition powerGrp_turn ::
    "nat \<Rightarrow> ('s, 'u) app \<Rightarrow> addr \<Rightarrow> string \<Rightarrow> int \<Rightarrow> addr \<Rightarrow> addr \<Rightarrow> addr \<Rightarrow> log_line list \<times> ('s, 'u) client \<Rightarrow>
     (int option \<times> log_line list \<times> ('s, 'u) client) res" where
  "powerGrp_turn n app grp grpName sz vb tb status = (\<lambda>(out, c).
     rbind (PWR_GrpAttrGetValue n app grp PWR_ATTR_POWER (Some (vb, 0)) (Some (tb, 0)) status c) (\<lambda>(r, c).
     if r \<noteq> PWR_RET_SUCCESS then Inr (Some (-1), out @ [Failure grpName (attrNameToString PWR_ATTR_POWER) r], c)
     else
       rbind (heap_get (vmem c) vb) (\<lambda>value.
       rbind (heap_get (tmem c) tb) (\<lambda>ts.
       rbind (foldM (\<lambda>i out.
           rbind (PWR_GrpGetObjByIndx grp i c) (\<lambda>(_, obj).
           rbind (PWR_ObjGetName (Some obj) 100 c) (\<lambda>(_, buf).
           rbind (read_cstr buf) (\<lambda>name.
           rbind (aread value (nat i)) (\<lambda>v.
           rbind (aread ts (nat i)) (\<lambda>t. Inr (out @ [GrpWatts name v t]))))))) [0..sz - 1] out) (\<lambda>out.
       Inr (None, out, c))))))"

definition powerGrp_work ::
    "('s \<Rightarrow> (u64 \<times> u64) \<times> 's) \<Rightarrow> nat \<Rightarrow> ('s, 'u) app \<Rightarrow> addr \<Rightarrow> string \<Rightarrow> nat \<Rightarrow> log_line list \<times> ('s, 'u) client \<Rightarrow>
     (int option \<times> log_line list \<times> ('s, 'u) client) res" where
  "powerGrp_work tod n app grp grpName k = (\<lambda>(out, c).
     rbind (PWR_GrpGetNumObjs grp c) (\<lambda>sz.
     let vb = length (vmem c); tb = length (tmem c); cells = replicate (nat sz) 0 in
     case PWR_StatusCreate (c\<lparr>vmem := vmem c @ [Some cells], tmem := tmem c @ [Some cells]\<rparr>) of ((_, status), c) \<Rightarrow>
     case lgr_getTime tod c of (_, c) \<Rightarrow>
     turns k (powerGrp_turn n app grp grpName sz vb tb status) (out @ [ObjHeader grpName (attrNameToString PWR_ATTR_POWER)], c)))"

section \<open>mult.h and setMult.h\<close>

definition is_type_name :: "string \<Rightarrow> bool" where
  "is_type_name nm \<longleftrightarrow> take 5 nm = ''TYPE:''"

text \<open>The object of a name, which must be there.\<close>

definition lgr_object :: "nat \<Rightarrow> string \<Rightarrow> ('s, 'u) client \<Rightarrow> (addr \<times> ('s, 'u) client) res" where
  "lgr_object n name c =
     rbind (PWR_CntxtGetObjByName n name c) (\<lambda>((_, obj), c). rbind (case obj of None \<Rightarrow> Inl AssertFail | Some a \<Rightarrow> Inr a) (\<lambda>a. Inr (a, c)))"

definition type_group :: "nat \<Rightarrow> string \<Rightarrow> ('s, 'u) client \<Rightarrow> (addr \<times> ('s, 'u) client) res" where
  "type_group n type c =
     rbind (PWR_CntxtGetGrpByType n (objStringToType type) c) (\<lambda>((rc, grp), c).
     rbind (assert_c (rc = PWR_RET_SUCCESS)) (\<lambda>_. rbind (deref grp) (\<lambda>grp. Inr (grp, c))))"

definition mult_group :: "nat \<Rightarrow> string \<Rightarrow> ('s, 'u) client \<Rightarrow> (addr \<times> ('s, 'u) client) res" where
  "mult_group n objName c =
     (if is_type_name objName then type_group n (drop 5 objName) c
      else
        rbind (lgr_object n objName c) (\<lambda>(obj, c).
        case PWR_GrpCreate c of ((rc, grp), c) \<Rightarrow>
        rbind (assert_c (rc = PWR_RET_SUCCESS)) (\<lambda>_.
        rbind (PWR_GrpAddObj grp obj c) (\<lambda>(rc, c).
        rbind (assert_c (rc = PWR_RET_SUCCESS)) (\<lambda>_. Inr (grp, c))))))"

text \<open>\<^verbatim>\<open>attrs.substr( pos, tmp )\<close>: the second argument is a length, and \<open>tmp\<close> is a position.\<close>

definition comma_from :: "string \<Rightarrow> nat \<Rightarrow> nat option" where
  "comma_from s pos = map_option (\<lambda>k. pos + k) (find_first_of (CHR '','') (drop pos s))"

lemma comma_from_ge: "comma_from s pos = Some t \<Longrightarrow> pos \<le> t"
  by (auto simp: comma_from_def)

function mult_attrs :: "string \<Rightarrow> nat \<Rightarrow> PWR_AttrName list res" where
  "mult_attrs attrs pos =
     (if pos < length attrs then
        let tmp = comma_from attrs pos in
        rbind (substr attrs pos (pos_val tmp)) (\<lambda>s.
        rbind (getAttr s) (\<lambda>a.
        rbind (mult_attrs attrs (case tmp of Some t \<Rightarrow> t + 1 | None \<Rightarrow> length attrs)) (\<lambda>as. Inr (a # as))))
      else Inr [])"
  by pat_completeness auto

termination mult_attrs
  by (relation "measure (\<lambda>(attrs, pos). length attrs - pos)") (auto split: option.splits dest!: comma_from_ge)

declare mult_attrs.simps [simp del]

definition mult_row :: "addr \<Rightarrow> PWR_AttrName list \<Rightarrow> u64 list \<Rightarrow> u64 list \<Rightarrow> ('s, 'u) client \<Rightarrow> int \<Rightarrow> log_line list \<Rightarrow> log_line list res" where
  "mult_row grp attrs value ts c j out =
     rbind (getName grp j c) (\<lambda>name.
     foldM (\<lambda>(i, a) out.
         let index = nat j * length attrs + i in
         rbind (aread value index) (\<lambda>v. rbind (aread ts index) (\<lambda>t. Inr (out @ [GrpValue a v t]))))
       (enumerate 0 attrs) (out @ [GrpObject name]))"

definition mult_turn ::
    "nat \<Rightarrow> ('s, 'u) app \<Rightarrow> addr \<Rightarrow> PWR_AttrName list \<Rightarrow> int \<Rightarrow> addr \<Rightarrow> log_line list \<times> ('s, 'u) client \<Rightarrow>
     (int option \<times> log_line list \<times> ('s, 'u) client) res" where
  "mult_turn n app grp attrs numObjs status = (\<lambda>(out, c).
     let vb = length (vmem c); tb = length (tmem c); cells = replicate (length attrs * nat numObjs) 0 in
     rbind (PWR_GrpAttrGetValues n app grp (int (length attrs)) attrs (Some (vb, 0)) (Some (tb, 0)) status
       (c\<lparr>vmem := vmem c @ [Some cells], tmem := tmem c @ [Some cells]\<rparr>)) (\<lambda>(r, c).
     if r \<noteq> PWR_RET_SUCCESS then Inr (Some (-1), out @ [Failure [] [] r], c)
     else
       rbind (heap_get (vmem c) vb) (\<lambda>value.
       rbind (heap_get (tmem c) tb) (\<lambda>ts.
       rbind (foldM (mult_row grp attrs value ts c) [0..numObjs - 1] out) (\<lambda>out.
       rbind (PWR_StatusClear status c) (\<lambda>(_, c).
       Inr (None, out, c\<lparr>vmem := (vmem c)[vb := None], tmem := (tmem c)[tb := None]\<rparr>)))))))"

definition mult_work ::
    "nat \<Rightarrow> ('s, 'u) app \<Rightarrow> addr \<Rightarrow> PWR_AttrName list \<Rightarrow> nat \<Rightarrow> log_line list \<times> ('s, 'u) client \<Rightarrow>
     (int option \<times> log_line list \<times> ('s, 'u) client) res" where
  "mult_work n app grp attrs k = (\<lambda>(out, c).
     rbind (PWR_GrpGetNumObjs grp c) (\<lambda>numObjs.
     case PWR_StatusCreate c of ((_, status), c) \<Rightarrow> turns k (mult_turn n app grp attrs numObjs status) (out, c)))"

definition set_values :: "PWR_AttrName list \<Rightarrow> u64 list" where
  "set_values attrs = map (\<lambda>i. fadd (f_of_int 1000) (f_of_int (int i))) [0..<length attrs]"

definition setMult_work ::
    "nat \<Rightarrow> ('s, 'u) app \<Rightarrow> addr \<Rightarrow> PWR_AttrName list \<Rightarrow> log_line list \<times> ('s, 'u) client \<Rightarrow>
     (int option \<times> log_line list \<times> ('s, 'u) client) res" where
  "setMult_work n app grp attrs = (\<lambda>(out, c).
     let vb = length (vmem c) in
     case PWR_StatusCreate (c\<lparr>vmem := vmem c @ [Some (set_values attrs)]\<rparr>) of ((rc, status), c) \<Rightarrow>
     rbind (assert_c (rc = PWR_RET_SUCCESS)) (\<lambda>_.
     rbind (PWR_GrpAttrSetValues n app grp (int (length attrs)) attrs (Some (vb, 0)) status c) (\<lambda>(rc, c).
     if rc \<noteq> PWR_RET_SUCCESS then Inr (Some (-1), out @ [CallSet, SetReturned, Failure [] [] rc], c)
     else Inr (Some 0, out @ [CallSet, SetReturned], c))))"

section \<open>stat.h\<close>

definition stat_split :: "string \<Rightarrow> (PWR_AttrName \<times> PWR_AttrStat) res" where
  "stat_split attrs =
     (let pos = find_first_of (CHR '','') attrs in
      rbind (substr attrs 0 (pos_val pos)) (\<lambda>a.
      rbind (getAttr a) (\<lambda>attr.
      rbind (substr attrs (pos_inc (pos_val pos)) npos) (\<lambda>b.
      rbind (getAttrStat b) (\<lambda>st. Inr (attr, st))))))"

definition stat_turn ::
    "('s \<Rightarrow> (u64 \<times> u64) \<times> 's) \<Rightarrow> nat \<Rightarrow> ('s, 'u) app \<Rightarrow> u64 \<Rightarrow> Stat \<Rightarrow> PWR_AttrName \<Rightarrow> PWR_AttrStat \<Rightarrow> log_line list \<times> ('s, 'u) client \<Rightarrow>
     (int option \<times> log_line list \<times> ('s, 'u) client) res" where
  "stat_turn tod n app word0 st attr attrStat = (\<lambda>(out, c).
     case lgr_now tod c of (tv, c) \<Rightarrow>
     let stop = tv_nsec tv in
     rbind (PWR_StatGetValue tod n app st \<lparr>tp_start = stop - 1000000000, tp_stop = stop, tp_instant = word0\<rparr> c) (\<lambda>((rc, v, tp), c).
     if rc \<noteq> PWR_RET_SUCCESS then Inr (Some (-1), out @ [Failure [] [] rc], c)
     else Inr (None, out @ [StatValue attrStat attr v tp], c)))"

definition stat_work ::
    "('s \<Rightarrow> (u64 \<times> u64) \<times> 's) \<Rightarrow> nat \<Rightarrow> ('s, 'u) app \<Rightarrow> u64 \<Rightarrow> Stat \<Rightarrow> PWR_AttrName \<Rightarrow> PWR_AttrStat \<Rightarrow> nat \<Rightarrow> log_line list \<times> ('s, 'u) client \<Rightarrow>
     (int option \<times> log_line list \<times> ('s, 'u) client) res" where
  "stat_work tod n app word0 st attr attrStat k = (\<lambda>(out, c).
     rbind (PWR_StatStart tod n app st c) (\<lambda>(rc, st, c).
     if rc \<noteq> PWR_RET_SUCCESS then Inr (Some (-1), out @ [Failure [] [] rc], c)
     else turns k (stat_turn tod n app word0 st attr attrStat) (out, c)))"

section \<open>logger.cc\<close>

record LgrArgs =
  la_port :: string
  la_host :: string
  la_pwrApiConfig :: string
  la_pwrApiRoot :: string
  la_pwrApiServer :: string
  la_pwrApiServerPort :: string
  la_objectName :: string
  la_ctxName :: string
  la_logfile :: string
  la_count :: string
  la_delay :: string
  la_attr :: string

definition new_LgrArgs :: LgrArgs where
  "new_LgrArgs =
     \<lparr>la_port = [], la_host = [], la_pwrApiConfig = [], la_pwrApiRoot = [], la_pwrApiServer = [], la_pwrApiServerPort = [], la_objectName = [], la_ctxName = [],
      la_logfile = [], la_count = [], la_delay = [], la_attr = []\<rparr>"

definition lgr_options :: "string list" where
  "lgr_options =
     [''object'', ''attr'', ''logfile'', ''name'', ''count'', ''delay'', ''pwrApiConfig'', ''pwrApiRoot'', ''pwrApiServer'', ''pwrApiServerPort'']"

definition lgr_option :: "optres \<Rightarrow> LgrArgs \<Rightarrow> LgrArgs" where
  "lgr_option r args =
     (case r of
        BadOpt \<Rightarrow> args
      | Opt n v \<Rightarrow>
          if n = ''logfile'' then args\<lparr>la_logfile := v\<rparr>
          else if n = ''object'' then args\<lparr>la_objectName := v\<rparr>
          else if n = ''attr'' then args\<lparr>la_attr := v\<rparr>
          else if n = ''name'' then args\<lparr>la_ctxName := v\<rparr>
          else if n = ''count'' then args\<lparr>la_count := v\<rparr>
          else if n = ''delay'' then args\<lparr>la_delay := v\<rparr>
          else if n = ''pwrApiConfig'' then args\<lparr>la_pwrApiConfig := v\<rparr>
          else if n = ''pwrApiRoot'' then args\<lparr>la_pwrApiRoot := v\<rparr>
          else if n = ''pwrApiServer'' then args\<lparr>la_pwrApiServer := v\<rparr>
          else if n = ''pwrApiServerPort'' then args\<lparr>la_pwrApiServerPort := v\<rparr>
          else args)"

definition lgr_initArgs :: "string list \<Rightarrow> LgrArgs" where
  "lgr_initArgs argv = fold lgr_option (getopt_long lgr_options (drop 1 argv)) new_LgrArgs"

definition lgr_environment :: "LgrArgs \<Rightarrow> 's system \<Rightarrow> 's system" where
  "lgr_environment args sy =
     setenv_nonempty (la_ctxName args @ ''POWERAPI_SERVER_PORT'') (la_pwrApiServerPort args)
       (setenv_nonempty (la_ctxName args @ ''POWERAPI_SERVER'') (la_pwrApiServer args)
         (setenv0 (la_ctxName args @ ''POWERAPI_ROOT'') (la_pwrApiRoot args)
           (setenv0 (la_ctxName args @ ''POWERAPI_CONFIG'') (la_pwrApiConfig args) sy)))"

datatype lgr_work =
    StatWork Stat PWR_AttrName PWR_AttrStat
  | SetMultWork addr "PWR_AttrName list"
  | MultWork addr "PWR_AttrName list"
  | PowerGrpWork addr string
  | PowerWork addr
  | EnergyWork addr
  | RateWork addr

text \<open>The work by the name of the attribute.\<close>

definition new_work :: "nat \<Rightarrow> string \<Rightarrow> string \<Rightarrow> ('s, 'u) client \<Rightarrow> (lgr_work \<times> ('s, 'u) client) res" where
  "new_work n objectName attr c =
     (if take 5 attr = ''STAT:'' then
        rbind (PWR_CntxtGetObjByName n objectName c) (\<lambda>((rc, obj), c).
        rbind (assert_c (rc = PWR_RET_SUCCESS)) (\<lambda>_.
        rbind (stat_split (drop 5 attr)) (\<lambda>(a, st).
        rbind (deref obj) (\<lambda>obj.
        rbind (PWR_ObjCreateStat n obj a st c) (\<lambda>((rc, stat), c).
        rbind (assert_c (rc = PWR_RET_SUCCESS)) (\<lambda>_.
        rbind (deref stat) (\<lambda>stat. Inr (StatWork stat a st, c))))))))
      else if take 8 attr = ''SETMULT:'' then
        rbind (mult_group n objectName c) (\<lambda>(grp, c). rbind (mult_attrs (drop 8 attr) 0) (\<lambda>as. Inr (SetMultWork grp as, c)))
      else if take 5 attr = ''MULT:'' then
        rbind (mult_group n objectName c) (\<lambda>(grp, c). rbind (mult_attrs (drop 5 attr) 0) (\<lambda>as. Inr (MultWork grp as, c)))
      else if attr = ''power'' then
        (if is_type_name objectName then
           rbind (type_group n (drop 5 objectName) c) (\<lambda>(grp, c). Inr (PowerGrpWork grp (drop 5 objectName), c))
         else rbind (lgr_object n objectName c) (\<lambda>(obj, c). Inr (PowerWork obj, c)))
      else if attr = ''energy'' then rbind (lgr_object n objectName c) (\<lambda>(obj, c). Inr (EnergyWork obj, c))
      else if attr = ''rate'' then rbind (lgr_object n objectName c) (\<lambda>(obj, c). Inr (RateWork obj, c))
      else Inl AssertFail)"

record lgr =
  m_work :: lgr_work
  m_delay :: int

text \<open>The constructor; \<open>can_write\<close> tells for which file \<^verbatim>\<open>fopen\<close> succeeds.\<close>

definition new_Logger ::
    "(string \<Rightarrow> bool) \<Rightarrow> nat \<Rightarrow> 's system \<Rightarrow> AnyEvent list \<Rightarrow> u64 \<Rightarrow> 'u \<Rightarrow> string list \<Rightarrow> (lgr \<times> ('s, 'u) client) res" where
  "new_Logger can_write n sy incoming word0 u argv =
     (let args = lgr_initArgs argv in
      rbind (PWR_CntxtInit n (lgr_environment args sy) PWR_ROLE_ADMIN (la_ctxName args)) (\<lambda>(_, r).
      rbind (assert_c (r \<noteq> None)) (\<lambda>_.
      rbind (deref r) (\<lambda>(cntxt, ch).
      rbind (if la_delay args = [] then Inr 0 else atoi (la_delay args)) (\<lambda>delay.
      if la_logfile args \<noteq> [] \<and> \<not> can_write (la_logfile args) then Inl (ExitCall (-1))
      else
        rbind (new_work n (la_objectName args) (la_attr args) (tool_client cntxt ch incoming word0 u)) (\<lambda>(w, c).
        Inr (\<lparr>m_work = w, m_delay = delay\<rparr>, c)))))))"

definition lgr_do_work ::
    "('s \<Rightarrow> (u64 \<times> u64) \<times> 's) \<Rightarrow> nat \<Rightarrow> ('s, 'u) app \<Rightarrow> u64 \<Rightarrow> nat \<Rightarrow> lgr \<Rightarrow> ('s, 'u) client \<Rightarrow>
     (int option \<times> log_line list \<times> ('s, 'u) client) res" where
  "lgr_do_work tod n app word0 k l c =
     (let st = (if m_delay l \<noteq> 0 then [Sleeping (m_delay l), Woken] else [], c) in
      case m_work l of
        StatWork stat a s \<Rightarrow> stat_work tod n app word0 stat a s k st
      | SetMultWork grp as \<Rightarrow> setMult_work n app grp as st
      | MultWork grp as \<Rightarrow> mult_work n app grp as k st
      | PowerGrpWork grp nm \<Rightarrow> powerGrp_work tod n app grp nm k st
      | PowerWork obj \<Rightarrow> power_work n app word0 obj k st
      | EnergyWork obj \<Rightarrow> energy_work n app word0 obj k st
      | RateWork obj \<Rightarrow> rate_work tod n app word0 obj st)"

end
