(* ===== verification/LoggerProps.thy ===== *)
theory LoggerProps
  imports Logger GroupProps
begin

text \<open>
  What the logger writes: the lines of an object of the process are those of the reads of its devices, and what the lists of attributes on its
  command line become.
\<close>

section \<open>The log of an object of the process\<close>

text \<open>The reads of an attribute, one after the other, up to the first that fails.\<close>

fun samples :: "nat \<Rightarrow> 's Object \<Rightarrow> PWR_AttrName \<Rightarrow> 's \<Rightarrow> ((u64 \<times> u64) list \<times> int option \<times> 's) res" where
  "samples 0 ob a s = Inr ([], None, s)"
| "samples (Suc k) ob a s =
     rbind (read_attr ob a s) (\<lambda>((r, v, t), s).
     if r \<noteq> PWR_RET_SUCCESS then Inr ([], Some r, s)
     else rbind (samples k ob a s) (\<lambda>(xs, e, s). Inr ((v, t) # xs, e, s)))"

definition energy_lines :: "(u64 \<times> u64) list \<Rightarrow> log_line list" where
  "energy_lines xs = concat (map (\<lambda>((v, _), (v', t')). if feq fzero v then [] else [Joules (fsub v' v) t']) (zip xs (tl xs)))"

lemma feq_zero: "feq fzero fzero"
  by (simp add: feq_def decode_def)

definition failure_line :: "string \<Rightarrow> int option \<Rightarrow> log_line list" where
  "failure_line nm e = (case e of None \<Rightarrow> [] | Some r \<Rightarrow> [Failure nm (attrNameToString PWR_ATTR_POWER) r])"

definition provides :: "addr \<Rightarrow> PWR_AttrName \<Rightarrow> 's DistObject \<Rightarrow> ('s, 'u) client \<Rightarrow> bool" where
  "provides ob a x c \<longleftrightarrow> client_obj ob c = Inr x \<and> all_local x [a]"

lemma provides_world [simp]: "cx c' = (cx c)\<lparr>world := w\<rparr> \<Longrightarrow> provides ob a x c' = provides ob a x c"
  by (simp add: provides_def client_obj_def)

lemma read_local_local:
  assumes "provides ob a x c" "read_attr (d_obj x) a (world (cx c)) = Inr ((r, v, t), w)"
  shows "\<exists>c'. read_local n app ob a word0 c = Inr ((r, v, t), c') \<and> cx c' = (cx c)\<lparr>world := w\<rparr> \<and> ec_out c' = ec_out c"
proof -
  let ?vb = "length (vmem c)" and ?tb = "length (tmem c)" and ?st = "length (stats c)"
  let ?c = "c\<lparr>vmem := vmem c @ [Some [0]], tmem := tmem c @ [Some [word0]], stats := stats c @ [Some []]\<rparr>"
  let ?e = "if r \<noteq> PWR_RET_SUCCESS then Some (a, r) else None"
  have vt: "r \<noteq> PWR_RET_SUCCESS \<Longrightarrow> v = 0 \<and> t = 0" using read_attr_error [OF assms(2)] by simp
  have 1: "client_obj ob ?c = Inr x" "all_local x [a]" using assms(1) by (simp_all add: provides_def client_obj_def)
  have rd: "read_attrs (d_obj x) [a] (world (cx ?c)) = Inr (([(v, t)], ?e), w)" using assms(2) vt by simp
  have h: "heap_get (vmem ?c) ?vb = Inr [0]" "heap_get (tmem ?c) ?tb = Inr [word0]" "heap_get (stats ?c) ?st = Inr []"
    by (simp_all add: heap_get_new)
  have "\<exists>c'. dist_getValues n app ob 1 [a] (Some (?vb, 0)) (Some (?tb, 0)) ?st ?c =
      Inr (if r \<noteq> PWR_RET_SUCCESS then PWR_RET_STATUS else PWR_RET_SUCCESS, c') \<and> cx c' = (cx c)\<lparr>world := w\<rparr> \<and> ec_out c' = ec_out c \<and>
    vmem c' = vmem c @ [Some [v]] \<and> tmem c' = tmem c @ [Some [t]] \<and>
    stats c' = stats c @ [Some (add_error (Some ob) ?e [])]"
    using local_read [OF 1 _ rd h(1) _ h(2) _ h(3), of 0 0 n app]
    by (auto simp: quiet_def splice_def add_error_def status_add_def)
  then obtain c' where c': "dist_getValues n app ob 1 [a] (Some (?vb, 0)) (Some (?tb, 0)) ?st ?c =
      Inr (if r \<noteq> PWR_RET_SUCCESS then PWR_RET_STATUS else PWR_RET_SUCCESS, c')" "cx c' = (cx c)\<lparr>world := w\<rparr>" "ec_out c' = ec_out c"
    "vmem c' = vmem c @ [Some [v]]" "tmem c' = tmem c @ [Some [t]]" "stats c' = stats c @ [Some (add_error (Some ob) ?e [])]" by blast
  then show ?thesis
    by (simp add: read_local_def Let_def PWR_ObjAttrGetValue_def dist_getValue_def with_status_def new_Status_def pop_error_def
        delete_Status_def add_error_def status_add_def status_pop_def heap_get_new heap_free_live aread_def)
qed

lemma obj_header_ok:
  assumes "client_obj ob c = Inr x" "m_name (d_obj x) = nm" "CHR 0x00 \<notin> set nm" "length nm < 100"
  shows "obj_header ob c = Inr nm"
  using assms strncpy_read [OF assms(3), of 100] by (simp add: obj_header_def PWR_ObjGetName_def obj_name_def client_obj_def)

text \<open>One turn of each log, and then all of them.\<close>

lemma energy_turns:
  assumes "provides ob PWR_ATTR_ENERGY x c" "samples k (d_obj x) PWR_ATTR_ENERGY (world (cx c)) = Inr (xs, e, w)"
  shows "\<exists>c' sv. turns k (energy_turn n app word0 ob nm) (v, out, c) =
      Inr (map_option (\<lambda>_. -1) e, sv, out @ energy_lines ((v, t) # xs) @ failure_line nm e, c') \<and>
    cx c' = (cx c)\<lparr>world := w\<rparr> \<and> ec_out c' = ec_out c"
  using assms
proof (induction k arbitrary: c v t out xs)
  case 0
  then show ?case by (auto simp: energy_lines_def failure_line_def)
next
  case (Suc k)
  then obtain r v' t' w' where r: "read_attr (d_obj x) PWR_ATTR_ENERGY (world (cx c)) = Inr ((r, v', t'), w')"
    by (auto simp: rbind_eq_Inr)
  from read_local_local [OF Suc.prems(1) r] obtain c1 where c1:
    "read_local n app ob PWR_ATTR_ENERGY word0 c = Inr ((r, v', t'), c1)" "cx c1 = (cx c)\<lparr>world := w'\<rparr>" "ec_out c1 = ec_out c" by blast
  show ?case
  proof (cases "r = PWR_RET_SUCCESS")
    case False
    with Suc.prems r c1 show ?thesis by (auto simp: energy_turn_def energy_lines_def failure_line_def)
  next
    case True
    with Suc.prems r c1 obtain ys where ys: "samples k (d_obj x) PWR_ATTR_ENERGY (world (cx c1)) = Inr (ys, e, w)" "xs = (v', t') # ys"
      by (auto simp: rbind_eq_Inr)
    let ?o = "if feq fzero v then out else out @ [Joules (fsub v' v) t']"
    from Suc.IH [OF _ ys(1), of v' ?o t'] Suc.prems(1) c1 True show ?thesis
      by (force simp: energy_turn_def energy_lines_def ys(2) split: if_split_asm)
  qed
qed

text \<open>
  C28: The energy log of an object whose energy is measured in the process: after the line that names the object, one line for each successful
  read of its devices but the first, with the energy since the read before it and the time of the read; a read after one that returned 0
  has no line. The first read that fails is written with its error and ends the log; no event is sent.
\<close>

theorem energy_log:
  assumes "provides ob PWR_ATTR_ENERGY x c" "CHR 0x00 \<notin> set (m_name (d_obj x))" "length (m_name (d_obj x)) < 100"
    and "samples k (d_obj x) PWR_ATTR_ENERGY (world (cx c)) = Inr (xs, e, w)"
  shows "\<exists>c'. energy_work n app word0 ob k (out, c) =
      Inr (map_option (\<lambda>_. -1) e,
        out @ [ObjHeader (m_name (d_obj x)) ''Power''] @ energy_lines xs @ failure_line (m_name (d_obj x)) e, c') \<and>
    cx c' = (cx c)\<lparr>world := w\<rparr> \<and> ec_out c' = ec_out c"
proof -
  have h: "obj_header ob c = Inr (m_name (d_obj x))"
    by (rule obj_header_ok [OF _ refl assms(2,3)]) (use assms(1) in \<open>simp add: provides_def\<close>)
  have "energy_lines ((fzero, 0) # xs) = energy_lines xs"
    by (cases xs) (auto simp: energy_lines_def feq_zero)
  with energy_turns [OF assms(1,4), of n app word0 "m_name (d_obj x)" fzero "out @ [ObjHeader (m_name (d_obj x)) ''Power'']" 0]
  show ?thesis by (auto simp: energy_work_def h)
qed

definition demo_meter :: "dummy_state DistObject" where
  "demo_meter =
     \<lparr>d_obj = demo_object\<lparr>m_attrInfo := (replicate 17 (new_AttrInfo None (\<lambda>ts. aread ts 0) NO_OP))[12 := demo_info]\<rparr>, d_comm = None\<rparr>"

lemma demo_meter_read:
  "read_attr (d_obj demo_meter) PWR_ATTR_ENERGY (demo_dummy\<lparr>ticks := k\<rparr>) = Inr ((0, 5, 1000000000), demo_dummy\<lparr>ticks := Suc (Suc k)\<rparr>)"
  by (simp add: demo_meter_def read_attr_def getAttrInfo_def attr_index_def demo_info_def new_AttrInfo_def attr_isValid_def
      attrGetValuesDevice_def demo_device_read is_real_attr_def)

theorem energy_log_witness:
  "\<exists>c'. energy_work 0 (\<lambda>_. Inr) 9 0 3 ([], demo_local\<lparr>cx := (cx demo_local)\<lparr>c_objs := [Some demo_meter]\<rparr>\<rparr>) =
     Inr (None, [ObjHeader ''plat.node0'' ''Power'', Joules (fsub 5 5) 1000000000, Joules (fsub 5 5) 1000000000], c')"
proof -
  let ?c = "demo_local\<lparr>cx := (cx demo_local)\<lparr>c_objs := [Some demo_meter]\<rparr>\<rparr>"
  have p: "provides 0 PWR_ATTR_ENERGY demo_meter ?c"
    by (simp add: provides_def client_obj_def heap_get_def all_local_def demo_meter_def getAttrInfo_def attr_index_def
        demo_info_def new_AttrInfo_def)
  have nm: "m_name (d_obj demo_meter) = ''plat.node0''" by (simp add: demo_meter_def demo_object_def)
  have s: "samples 3 (d_obj demo_meter) PWR_ATTR_ENERGY (world (cx ?c)) =
    Inr ([(5, 1000000000), (5, 1000000000), (5, 1000000000)], None, demo_dummy\<lparr>ticks := 6\<rparr>)"
    by (simp add: numeral_3_eq_3 demo_local_facts demo_meter_read)
  have "\<not> feq fzero 5" by (simp add: feq_def decode_def signed_mant_def)
  then show ?thesis using energy_log [OF p _ _ s, of 0 "\<lambda>_. Inr" 9 "[]"] nm
    by (auto simp: energy_lines_def failure_line_def)
qed

section \<open>The list of attributes\<close>

lemma mult_attrs_end: "mult_attrs s (length s) = Inr []"
  by (simp add: mult_attrs.simps)

lemma getAttr_comma: "CHR '','' \<in> set s \<Longrightarrow> getAttr s = Inl AssertFail"
  by (auto simp: getAttr_def)

lemma getAttr_ok: "s \<in> {''energy'', ''power''} \<Longrightarrow> \<exists>a. getAttr s = Inr a \<and> CHR '','' \<notin> set s \<and> s \<noteq> []"
  by (auto simp: getAttr_def)

lemma mult_attrs_last:
  assumes "getAttr w = Inr a" "CHR '','' \<notin> set w" "w \<noteq> []" "length (p @ w) \<le> npos"
  shows "mult_attrs (p @ w) (length p) = Inr [a]"
proof -
  have "comma_from (p @ w) (length p) = None" using assms(2) by (simp add: comma_from_def find_first_of_None)
  then have "mult_attrs (p @ w) (length p) = rbind (mult_attrs (p @ w) (length (p @ w))) (\<lambda>as. Inr (a # as))"
    using assms by (subst mult_attrs.simps) (simp add: substr_def pos_val_def)
  then show ?thesis by (simp add: mult_attrs_end del: length_append)
qed

lemma mult_attrs_first:
  assumes "getAttr w = Inr a" "CHR '','' \<notin> set w"
  shows "mult_attrs (w @ CHR '','' # v) 0 = rbind (mult_attrs (w @ CHR '','' # v) (length w + 1)) (\<lambda>as. Inr (a # as))"
proof -
  have "comma_from (w @ CHR '','' # v) 0 = Some (length w)" using assms(2) by (simp add: comma_from_def find_first_of_app)
  then show ?thesis using assms by (subst mult_attrs.simps) (simp add: substr_def pos_val_def)
qed

lemma mult_attrs_middle:
  assumes "CHR '','' \<notin> set v"
  shows "mult_attrs (w @ CHR '','' # v @ CHR '','' # rest) (length w + 1) = Inl AssertFail"
proof -
  let ?s = "w @ CHR '','' # v @ CHR '','' # rest" and ?p = "length w + 1"
  have d: "drop ?p ?s = v @ CHR '','' # rest" by simp
  have f: "find_first_of (CHR '','') (v @ CHR '','' # rest) = Some (length v)" using assms by (rule find_first_of_app)
  have c: "comma_from ?s ?p = Some (?p + length v)" unfolding comma_from_def d f by simp
  have "CHR '','' \<in> set (take (?p + length v) (v @ CHR '','' # rest))"
    by (simp add: take_Cons')
  then have "getAttr (take (?p + length v) (v @ CHR '','' # rest)) = Inl AssertFail" by (rule getAttr_comma)
  then show ?thesis using c d by (subst mult_attrs.simps) (simp add: substr_def pos_val_def)
qed

fun all_attrs :: "string list \<Rightarrow> PWR_AttrName list res" where
  "all_attrs [] = Inr []"
| "all_attrs (s # ss) = rbind (getAttr s) (\<lambda>a. rbind (all_attrs ss) (\<lambda>as. Inr (a # as)))"

text \<open>
  C29: The list of attributes after \<^verbatim>\<open>MULT:\<close> or \<^verbatim>\<open>SETMULT:\<close> is taken apart at its commas when it has one or two, but with
  three or more the logger ends in an assertion: the length of a name is taken to be the position of the comma after it.
\<close>

theorem three_attributes_fail:
  assumes "set names \<subseteq> {''energy'', ''power''}" "length (join (CHR '','') names) \<le> npos"
  shows "mult_attrs (join (CHR '','') names) 0 = (if length names \<le> 2 then all_attrs names else Inl AssertFail)"
proof (cases names)
  case Nil
  then show ?thesis by (simp add: mult_attrs.simps)
next
  case (Cons w ws)
  with assms(1) obtain a where a: "getAttr w = Inr a" "CHR '','' \<notin> set w" "w \<noteq> []" using getAttr_ok [of w] by auto
  show ?thesis
  proof (cases ws)
    case Nil
    with mult_attrs_last [OF a, of "[]"] Cons a assms(2) show ?thesis by simp
  next
    case (Cons v vs)
    with assms(1) \<open>names = w # ws\<close> obtain b where b: "getAttr v = Inr b" "CHR '','' \<notin> set v" "v \<noteq> []"
      using getAttr_ok [of v] by auto
    show ?thesis
    proof (cases vs)
      case Nil
      from mult_attrs_last [OF b, of "w @ [CHR '','']"] assms(2) \<open>names = w # ws\<close> \<open>ws = v # vs\<close> Nil
      have "mult_attrs (w @ CHR '','' # v) (length w + 1) = Inr [b]" by simp
      with mult_attrs_first [OF a(1,2), of v] a b \<open>names = w # ws\<close> \<open>ws = v # vs\<close> Nil show ?thesis by simp
    next
      case (Cons u us)
      then have j: "join (CHR '','') names = w @ CHR '','' # v @ CHR '','' # join (CHR '','') vs"
        using \<open>names = w # ws\<close> \<open>ws = v # vs\<close> by simp
      show ?thesis unfolding j using mult_attrs_first [OF a(1,2)] mult_attrs_middle [OF b(2)] \<open>names = w # ws\<close> \<open>ws = v # vs\<close> Cons by simp
    qed
  qed
qed

theorem three_attributes_fail_witness:
  "mult_attrs ''power,energy'' 0 = Inr [PWR_ATTR_POWER, PWR_ATTR_ENERGY] \<and> mult_attrs ''power,energy,power'' 0 = Inl AssertFail"
  using three_attributes_fail [of "[''power'', ''energy'']"] three_attributes_fail [of "[''power'', ''energy'', ''power'']"]
  by (simp add: npos_def getAttr_def)

end
